(* ===== verification/Prelude.thy ===== *)
theory Prelude
  imports Complex_Main "HOL-Library.Product_Lexorder" "HOL-Library.Sublist"
begin

text \<open>
  What every component of the development shares: time, tables of rows (the contents of a
  database table, oldest row first), the outcome of a service call, and the two interfaces all
  services are proved against: \<open>service\<close> (each successful request keeps an invariant) and
  \<open>journal\<close> (each successful request only appends to a log).
\<close>

named_theorems table_simps \<open>rewrite rules for filtered updates of tables\<close>
named_theorems service_intros \<open>preservation lemmas of the service operations\<close>

section \<open>Time\<close>

text \<open>A point in time is a number of microseconds, as a Python \<open>datetime\<close> resolves it.\<close>

type_synonym time = int

definition seconds :: "int \<Rightarrow> time" where
  "seconds n = n * 1000000"

definition hours :: "int \<Rightarrow> time" where
  "hours n = seconds (n * 3600)"

definition days :: "int \<Rightarrow> time" where
  "days n = seconds (n * 86400)"

lemma days_mono [simp]: "days m \<le> days n \<longleftrightarrow> m \<le> n"
  by (simp add: days_def seconds_def)

lemma seconds_nonneg [simp]: "0 \<le> seconds n \<longleftrightarrow> 0 \<le> n"
  by (simp add: seconds_def)

section \<open>Strings\<close>

text \<open>\<open>str.strip()\<close>: the characters below code point 256 that Python counts as white space.\<close>

definition py_space :: "char \<Rightarrow> bool" where
  "py_space c = (let n = of_char c :: nat in 9 \<le> n \<and> n \<le> 13 \<or> 28 \<le> n \<and> n \<le> 32 \<or> n = 133 \<or> n = 160)"

definition strip :: "string \<Rightarrow> string" where
  "strip x = rev (dropWhile py_space (rev (dropWhile py_space x)))"

text \<open>
  \<open>int(x)\<close> of a string: white space around it, an optional sign, decimal digits, single
  underscores between digits; anything else raises.
\<close>

definition digit_of :: "char \<Rightarrow> nat option" where
  "digit_of c = (let n = of_char c :: nat in if 48 \<le> n \<and> n \<le> 57 then Some (n - 48) else None)"

fun digits_from :: "nat \<Rightarrow> string \<Rightarrow> nat option" where
  "digits_from acc [] = Some acc"
| "digits_from acc (c # cs) =
     (if c = CHR ''_''
      then (case cs of [] \<Rightarrow> None
            | d # ds \<Rightarrow> (case digit_of d of None \<Rightarrow> None | Some k \<Rightarrow> digits_from (10 * acc + k) ds))
      else case digit_of c of None \<Rightarrow> None | Some k \<Rightarrow> digits_from (10 * acc + k) cs)"

definition natural_of :: "string \<Rightarrow> nat option" where
  "natural_of x = (case x of [] \<Rightarrow> None
     | c # cs \<Rightarrow> (case digit_of c of None \<Rightarrow> None | Some k \<Rightarrow> digits_from k cs))"

definition py_int :: "string \<Rightarrow> int option" where
  "py_int x = (case strip x of
       [] \<Rightarrow> None
     | c # cs \<Rightarrow>
         if c = CHR ''-'' then map_option (\<lambda>n. - int n) (natural_of cs)
         else if c = CHR ''+'' then map_option int (natural_of cs)
         else map_option int (natural_of (c # cs)))"

section \<open>Tables\<close>

text \<open>
  \<open>update_rows P f\<close> is \<open>.filter(P).update(f)\<close>, \<open>find P\<close> is \<open>.filter(P).first()\<close> in
  primary-key order, \<open>latest_row k\<close> is \<open>.order_by("-k").first()\<close>.
\<close>

definition update_rows :: "('r \<Rightarrow> bool) \<Rightarrow> ('r \<Rightarrow> 'r) \<Rightarrow> 'r list \<Rightarrow> 'r list" where
  "update_rows P f rs = map (\<lambda>r. if P r then f r else r) rs"

definition count_rows :: "('r \<Rightarrow> bool) \<Rightarrow> 'r list \<Rightarrow> nat" where
  "count_rows P rs = length (filter P rs)"

fun latest_row :: "('r \<Rightarrow> 'k::linorder) \<Rightarrow> 'r list \<Rightarrow> 'r option" where
  "latest_row k [] = None"
| "latest_row k (r # rs) =
     (case latest_row k rs of None \<Rightarrow> Some r | Some x \<Rightarrow> if k r < k x then Some x else Some r)"

lemma length_update_rows [simp, table_simps]: "length (update_rows P f rs) = length rs"
  by (simp add: update_rows_def)

lemma set_update_rows [table_simps]:
  "set (update_rows P f rs) = (\<lambda>r. if P r then f r else r) ` set rs"
  by (simp add: update_rows_def)

lemma update_rows_Nil [simp]: "update_rows P f [] = []"
  by (simp add: update_rows_def)

lemma update_rows_Cons [simp]:
  "update_rows P f (r # rs) = (if P r then f r else r) # update_rows P f rs"
  by (simp add: update_rows_def)

lemma map_update_rows [table_simps]:
  "(\<And>r. P r \<Longrightarrow> k (f r) = k r) \<Longrightarrow> map k (update_rows P f rs) = map k rs"
  by (simp add: update_rows_def)

lemma update_rows_none: "(\<And>r. r \<in> set rs \<Longrightarrow> \<not> P r) \<Longrightarrow> update_rows P f rs = rs"
  by (induction rs) auto

lemma filter_update_rows_same:
  "(\<And>r. P r \<Longrightarrow> Q (f r) = Q r) \<Longrightarrow>
   filter Q (update_rows P f rs) = update_rows P f (filter Q rs)"
  by (induction rs) auto

lemma find_SomeD: "List.find P rs = Some r \<Longrightarrow> r \<in> set rs \<and> P r"
  by (induction rs) (auto split: if_splits)

lemma find_NoneD: "List.find P rs = None \<Longrightarrow> r \<in> set rs \<Longrightarrow> \<not> P r"
  by (auto simp: find_None_iff)

lemma find_cong_pred: "(\<And>r. r \<in> set rs \<Longrightarrow> P r = Q r) \<Longrightarrow> List.find P rs = List.find Q rs"
  by (induction rs) auto

lemma count_rows_pos: "0 < count_rows P rs \<longleftrightarrow> (\<exists>r \<in> set rs. P r)"
  by (auto simp: count_rows_def length_greater_0_conv filter_empty_conv)

lemma count_rows_append [simp]: "count_rows P (rs @ ts) = count_rows P rs + count_rows P ts"
  by (simp add: count_rows_def)

lemma count_rows_Nil [simp]: "count_rows P [] = 0"
  by (simp add: count_rows_def)

lemma count_rows_Cons [simp]:
  "count_rows P (r # rs) = (if P r then Suc (count_rows P rs) else count_rows P rs)"
  by (simp add: count_rows_def)

lemma count_update_rows:
  "(\<And>r. r \<in> set rs \<Longrightarrow> P r \<Longrightarrow> Q (f r) = Q r) \<Longrightarrow> count_rows Q (update_rows P f rs) = count_rows Q rs"
  by (induction rs) auto

lemma latest_row_None [simp]: "latest_row k rs = None \<longleftrightarrow> rs = []"
  by (cases rs) (auto split: option.splits)

lemma latest_row_max:
  "latest_row k rs = Some x \<Longrightarrow> x \<in> set rs \<and> (\<forall>r \<in> set rs. k r \<le> k x)"
proof (induction rs arbitrary: x)
  case Nil
  then show ?case by simp
next
  case (Cons r rs)
  then show ?case
    by (cases "latest_row k rs") (fastforce split: if_splits)+
qed

section \<open>A key on the rows of a table\<close>

text \<open>
  A unique constraint: the key function is injective on the rows present. A filtered update that
  leaves the key alone keeps it, and so does inserting a row whose key is new.
\<close>

definition unique_by :: "('r \<Rightarrow> 'k) \<Rightarrow> 'r list \<Rightarrow> bool" where
  "unique_by k rs \<longleftrightarrow> distinct (map k rs)"

lemma map_filter_set: "set (List.map_filter f xs) = {y. \<exists>x \<in> set xs. f x = Some y}"
  by (force simp: List.map_filter_def)

lemma unique_by_Nil [simp]: "unique_by k []"
  by (simp add: unique_by_def)

lemma unique_by_update [table_simps]:
  "(\<And>r. P r \<Longrightarrow> k (f r) = k r) \<Longrightarrow> unique_by k (update_rows P f rs) = unique_by k rs"
  by (simp add: unique_by_def map_update_rows)

lemma unique_by_snoc [simp]:
  "unique_by k (rs @ [r]) \<longleftrightarrow> unique_by k rs \<and> k r \<notin> k ` set rs"
  by (auto simp: unique_by_def)

lemma unique_by_filter: "unique_by k rs \<Longrightarrow> unique_by k (filter P rs)"
  by (auto simp: unique_by_def distinct_map intro: inj_on_subset)

lemma unique_byD: "unique_by k rs \<Longrightarrow> r \<in> set rs \<Longrightarrow> t \<in> set rs \<Longrightarrow> k r = k t \<Longrightarrow> r = t"
  by (auto simp: unique_by_def distinct_map inj_on_def)

lemma unique_by_find:
  "unique_by k rs \<Longrightarrow> r \<in> set rs \<Longrightarrow> List.find (\<lambda>t. k t = k r) rs = Some r"
proof (induction rs)
  case Nil
  then show ?case by simp
next
  case (Cons a rs)
  then show ?case
    by (auto simp: unique_by_def image_iff)
qed

section \<open>Outcomes\<close>

text \<open>
  A service call returns a value or raises an error, and leaves a committed state behind. Where
  the code is one transaction, the state of a raised error is the one before the call, except for
  the rate-limiter cache, which no transaction rolls back.
\<close>

type_synonym ('e, 'a, 's) outcome = "('e + 'a) \<times> 's"

abbreviation raised :: "'e \<Rightarrow> 's \<Rightarrow> ('e, 'a, 's) outcome" where
  "raised e s \<equiv> (Inl e, s)"

abbreviation returned :: "'a \<Rightarrow> 's \<Rightarrow> ('e, 'a, 's) outcome" where
  "returned v s \<equiv> (Inr v, s)"

section \<open>Runs of a service\<close>

text \<open>A run serves requests one after the other; \<open>exec q s\<close> is the state that \<open>q\<close> commits.\<close>

fun run_requests :: "('q \<Rightarrow> 's \<Rightarrow> 's) \<Rightarrow> 'q list \<Rightarrow> 's \<Rightarrow> 's" where
  "run_requests exec [] s = s"
| "run_requests exec (q # qs) s = run_requests exec qs (exec q s)"

locale service =
  fixes exec :: "'q \<Rightarrow> 's \<Rightarrow> 's"
    and inv :: "'s \<Rightarrow> bool"
  assumes exec_inv: "inv s \<Longrightarrow> inv (exec q s)"
begin

lemma run_inv: "inv s \<Longrightarrow> inv (run_requests exec qs s)"
  by (induction qs arbitrary: s) (auto intro: exec_inv)

end

text \<open>
  An append-only log: \<open>log s\<close> is a prefix of the log after any request.
\<close>

locale journal =
  fixes exec :: "'q \<Rightarrow> 's \<Rightarrow> 's"
    and log :: "'s \<Rightarrow> 'l list"
  assumes exec_appends: "prefix (log s) (log (exec q s))"
begin

lemma run_appends: "prefix (log s) (log (run_requests exec qs s))"
  by (induction qs arbitrary: s) (auto intro: exec_appends prefix_order.trans)

lemma run_keeps: "l \<in> set (log s) \<Longrightarrow> l \<in> set (log (run_requests exec qs s))"
  using run_appends [of s qs] set_mono_prefix by blast

end

end
