(* ===== verification/Schema.thy ===== *)
theory Schema
  imports Prelude
begin

text \<open>
  The data model: one record per Django model (one row), the enumerations of their fields, the
  settings and standard-library primitives the services read, and the database \<open>db\<close>, a record
  of tables. A table is a list of rows in primary-key order; a foreign key is the id of the row it
  refers to, an optional one is an \<open>option\<close>. Ids are drawn from one increasing sequence, so
  they are unique and never reused, which is all the services rely on.
\<close>

type_synonym id = nat

section \<open>Accounts (apps/accounts/models.py)\<close>

datatype age_band = BandUnknown | Under16 | Age16_17 | BandAdult

datatype cohort = Unassigned | Child | Teen | Adult

datatype user_role = RUser | RModerator | RAdmin

record user =
  u_id :: id
  u_public_id :: string
  u_username :: string
  u_display_name :: string
  u_age_band :: age_band
  u_cohort :: cohort
  u_verified :: bool
  u_verified_at :: "time option"
  u_role :: user_role
  u_active :: bool
  u_staff :: bool
  u_superuser :: bool
  u_joined :: time

datatype reverify_notice = RvNone | RvSoon | RvExpired

record assurance =
  as_id :: id
  as_user :: id
  as_provider :: string
  as_method :: string
  as_age_band :: age_band
  as_verified_at :: time
  as_expires_at :: "time option"
  as_raw :: "(string \<times> string) list"
  as_notice :: reverify_notice

datatype consent_status = CPending | CActive | CRevoked | CExpired

datatype renewal_notice = RnNone | RnSoon

record consent =
  pc_id :: id
  pc_minor :: id
  pc_guardian :: string
  pc_status :: consent_status
  pc_scope :: string
  pc_granted_at :: "time option"
  pc_expires_at :: "time option"
  pc_revoked_at :: "time option"
  pc_notice :: renewal_notice

record binding =
  ib_id :: id
  ib_hash :: string
  ib_user :: "id option"
  ib_released_at :: "time option"

record banned =
  bi_id :: id
  bi_hash :: string

datatype link_status = LActive | LRevoked

record guardianship =
  gr_id :: id
  gr_guardian :: id
  gr_ward :: id
  gr_relationship :: string
  gr_status :: link_status
  gr_consent :: "id option"

record guardrail =
  rail_id :: id
  rail_rel :: id
  rail_supervised :: bool
  rail_latest :: "nat option"
  rail_cap :: "nat option"
  rail_weekdays :: "nat list"
  rail_earliest :: "nat option"
  rail_categories :: "string list"

datatype invite_status = IPending | IAccepted | IDeclined | IExpired

record invite =
  gi_id :: id
  gi_guardian :: id
  gi_ward :: id
  gi_relationship :: string
  gi_token :: string
  gi_status :: invite_status
  gi_expires_at :: time
  gi_responded_at :: "time option"

section \<open>Safety (apps/safety/models.py)\<close>

text \<open>The JSON values that event metadata is made of; an object is an association list.\<close>

datatype json =
    JNull
  | JBool bool
  | JInt int
  | JStr string
  | JList "json list"
  | JObj "(string \<times> json) list"

record audit_row =
  al_id :: id
  al_actor :: "id option"
  al_actor_ref :: "id option"
  al_event :: string
  al_target_ref :: string
  al_data :: "(string \<times> json) list"
  al_created_at :: time
  al_prev_hash :: string
  al_hash :: string

datatype reason_code = Grooming | Harassment | Csam | Spam | OffPlatform | OtherReason

datatype report_status = ROpen | RReviewing | RActioned | RDismissed

record report =
  rp_id :: id
  rp_reporter :: "id option"
  rp_target_type :: string
  rp_target_id :: id
  rp_reason :: reason_code
  rp_detail :: string
  rp_status :: report_status
  rp_handled_by :: "id option"
  rp_handled_at :: "time option"
  rp_resolution :: string
  rp_created_at :: time

datatype mod_kind = MoWarn | MoRemove | MoSuspend | MoTimedBan | MoBan

record mod_action =
  mo_id :: id
  mo_moderator :: "id option"
  mo_target_type :: string
  mo_target_id :: id
  mo_action :: mod_kind
  mo_reason :: reason_code
  mo_notes :: string
  mo_report :: "id option"
  mo_expires_at :: "time option"
  mo_lifted_at :: "time option"
  mo_created_at :: time

datatype appeal_status = ApPending | ApUpheld | ApOverturned

record appeal =
  ap_id :: id
  ap_action :: id
  ap_appellant :: "id option"
  ap_statement :: string
  ap_status :: appeal_status
  ap_decided_by :: "id option"
  ap_notes :: string
  ap_decided_at :: "time option"
  ap_created_at :: time

datatype authority = Inhope | Igpr | Police | OtherAuthority

record referral =
  rf_id :: id
  rf_subject :: string
  rf_reason :: reason_code
  rf_authority :: authority
  rf_reference :: string
  rf_report :: "id option"
  rf_by :: "id option"
  rf_anchor :: string
  rf_notes :: string
  rf_created_at :: time

record block =
  bl_id :: id
  bl_blocker :: id
  bl_blocked :: id
  bl_created_at :: time

section \<open>Notifications (apps/notifications/models.py)\<close>

datatype kind =
    JoinRequested | JoinApproved | EventReminder | ActivityCancelled | ActivityUpdated
  | Announcement | GroupAnnouncement | MeetupConfirmed | Arrival | ConnectionRequest
  | ConnectionAccepted | Mention | OrganizerRole | ActivityMatch | GaugeMatch | GroupQuestion
  | InterestConverted | RsvpNudge | OrganizerPrep | SupervisorNeeded | FormativeNote | ModAlert
  | Moderation | System

record notification =
  nt_id :: id
  nt_recipient :: id
  nt_kind :: kind
  nt_title :: string
  nt_body :: string
  nt_url :: string
  nt_read_at :: "time option"
  nt_created_at :: time

record prefs =
  np_user :: id
  np_muted :: "string list"

section \<open>Messaging (apps/messaging/models.py)\<close>

text \<open>A JWK: its key type, whether a private component is present, and its public part.\<close>

record pubkey =
  pk_id :: id
  pk_user :: id
  pk_algorithm :: string
  pk_jwk :: json
  pk_wrapped :: "json option"
  pk_active :: bool
  pk_created_at :: time

datatype conv_kind = Direct | GroupConv

record conversation =
  cv_id :: id
  cv_kind :: conv_kind
  cv_title :: string
  cv_cohort :: cohort
  cv_disappearing :: nat
  cv_creator :: "id option"
  cv_created_at :: time
  cv_updated_at :: time

datatype part_state = PInvited | PActive | PDeclined | PLeft | PRemoved

datatype part_role = PAdmin | PMember | PGuardian

record participant =
  pt_id :: id
  pt_conv :: id
  pt_user :: id
  pt_state :: part_state
  pt_role :: part_role
  pt_invited_by :: "id option"
  pt_joined_at :: "time option"

record message =
  ms_id :: id
  ms_conv :: id
  ms_sender :: "id option"
  ms_algorithm :: string
  ms_ciphertext :: string
  ms_iv :: string
  ms_created_at :: time

record message_key =
  mk_id :: id
  mk_message :: id
  mk_recipient :: id
  mk_ephemeral :: json
  mk_wrapped :: string
  mk_iv :: string

record key_verification =
  kv_id :: id
  kv_verifier :: id
  kv_subject :: id
  kv_fingerprint :: string

section \<open>Taxonomy and places (apps/taxonomy/models.py, apps/places/models.py)\<close>

record category =
  ct_id :: id
  ct_slug :: string
  ct_parent :: "id option"

record activity_type =
  ty_id :: id
  ty_slug :: string
  ty_name :: string
  ty_category :: id
  ty_active :: bool

datatype place_source = Osm | Overture | Google | UserSubmitted | RoEdu

record place =
  pl_id :: id
  pl_name :: string
  pl_display_name :: string
  pl_source :: place_source
  pl_tags :: "(string \<times> json) list"

record venue_class =
  vc_id :: id
  vc_active :: bool
  vc_osm_match :: "(string \<times> json) list"
  vc_overture :: "string list"

record closure_report =
  cr_id :: id
  cr_place :: id
  cr_user :: id
  cr_created_at :: time

datatype proposal_status = PrPending | PrPublished | PrRejected

record proposal =
  pp_id :: id
  pp_place :: id
  pp_proposer :: id
  pp_required :: nat
  pp_status :: proposal_status
  pp_published_at :: "time option"

record confirmation =
  cf_id :: id
  cf_proposal :: id
  cf_user :: id

section \<open>Social core (apps/social/models.py)\<close>

datatype act_status = AOpen | ACancelled | ACompleted

datatype cost_band = CostUnspecified | CostFree | CostLow | CostPaid

datatype difficulty = DiffUnspecified | Easy | Moderate | Challenging

record activity =
  ac_id :: id
  ac_owner :: id
  ac_place :: id
  ac_type :: id
  ac_secondary :: "id list"
  ac_title :: string
  ac_description :: string
  ac_meeting_point :: string
  ac_what_to_bring :: string
  ac_organizer_note :: string
  ac_first_time_note :: string
  ac_cost_band :: cost_band
  ac_cost_amount :: "int option"
  ac_cost_note :: string
  ac_difficulty :: difficulty
  ac_accessibility :: string
  ac_starts_at :: time
  ac_ends_at :: "time option"
  ac_cohort :: cohort
  ac_join_threshold :: rat
  ac_owner_can_override :: bool
  ac_capacity :: "nat option"
  ac_min_to_go :: "nat option"
  ac_go_confirmed_at :: "time option"
  ac_guardian_accompanied :: bool
  ac_supervised :: bool
  ac_beginners_welcome :: bool
  ac_status :: act_status
  ac_hidden :: bool
  ac_publicly_listed :: bool
  ac_series :: "id option"

datatype mem_role = MOwner | MCoOrganizer | MMember | MGuardian

datatype mem_state = SRequested | SMember | SRemoved

datatype intent = IntentUnknown | Going | NotGoing

datatype transit = TransitNone | OnMyWay | RunningLate

record membership =
  mb_id :: id
  mb_activity :: id
  mb_user :: id
  mb_role :: mem_role
  mb_state :: mem_state
  mb_intent :: intent
  mb_arrived_at :: "time option"
  mb_transit :: transit
  mb_departing_at :: "time option"
  mb_met_at :: "time option"
  mb_welcomed_at :: "time option"
  mb_support_person :: bool
  mb_decided_at :: "time option"

record join_vote =
  jv_id :: id
  jv_membership :: id
  jv_voter :: id
  jv_approve :: bool

datatype group_status = GActive | GArchived

datatype group_tier = TierType | TierCategory

record group =
  gp_id :: id
  gp_owner :: id
  gp_area :: id
  gp_category :: id
  gp_type :: "id option"
  gp_tier :: group_tier
  gp_cohort :: cohort
  gp_title :: string
  gp_description :: string
  gp_status :: group_status
  gp_hidden :: bool
  gp_publicly_listed :: bool
  gp_staff_curated :: bool

datatype gm_role = GOwner | GMember

datatype gm_state = GmMember | GmLeft | GmRemoved

record group_membership =
  gm_id :: id
  gm_group :: id
  gm_user :: id
  gm_role :: gm_role
  gm_state :: gm_state
  gm_joined_at :: time

record thread =
  th_id :: id
  th_activity :: "id option"
  th_group :: "id option"

record post =
  po_id :: id
  po_thread :: id
  po_author :: id
  po_body :: string
  po_announcement :: bool
  po_hidden :: bool
  po_author_deleted :: bool
  po_reply_to :: "id option"
  po_shared_activity :: "id option"
  po_shared_place :: "id option"
  po_shared_event :: "id option"
  po_created_at :: time
  po_updated_at :: time

record reaction =
  re_post :: id
  re_user :: id
  re_facet :: string
  re_created_at :: time

text \<open>A dissent and a concern row have the same fields.\<close>

record post_flag =
  fl_post :: id
  fl_user :: id
  fl_created_at :: time

datatype cadence = Weekly | Biweekly | Monthly

datatype series_status = SrActive | SrPaused | SrEnded

record series =
  sr_id :: id
  sr_owner :: id
  sr_place :: id
  sr_type :: id
  sr_cohort :: cohort
  sr_title :: string
  sr_description :: string
  sr_meeting_point :: string
  sr_what_to_bring :: string
  sr_organizer_note :: string
  sr_accessibility :: string
  sr_next_note :: string
  sr_cost_band :: cost_band
  sr_cost_amount :: "int option"
  sr_cost_note :: string
  sr_difficulty :: difficulty
  sr_capacity :: "nat option"
  sr_min_to_go :: "nat option"
  sr_join_threshold :: rat
  sr_guardian_accompanied :: bool
  sr_supervised :: bool
  sr_beginners_welcome :: bool
  sr_cadence :: cadence
  sr_next_starts_at :: time
  sr_anchor_day :: nat
  sr_duration :: "nat option"
  sr_status :: series_status

record gauge =
  in_id :: id
  in_proposer :: id
  in_place :: id
  in_type :: id
  in_cohort :: cohort
  in_window :: string
  in_expires_at :: time
  in_converted :: "id option"

section \<open>Connections (apps/connections/models.py)\<close>

datatype conn_status = CnPending | CnAccepted | CnDeclined | CnWithdrawn | CnRemoved

record connection =
  cn_id :: id
  cn_requester :: id
  cn_addressee :: id
  cn_status :: conn_status
  cn_created_at :: time
  cn_decided_at :: "time option"

end
