(* ===== verification/Database.thy ===== *)
theory Database
  imports Schema
begin

text \<open>
  The state the services act on: the clock, the settings, the standard-library and time-zone
  primitives, the rate-limiter cache and the tables. \<open>clock\<close> is what \<open>timezone.now()\<close> returns;
  it is constant during one request. \<open>default_settings\<close> holds the values the code falls back to
  in \<open>getattr(settings, ..., default)\<close>.
\<close>

record settings =
  st_uniqueness :: bool
  st_binding_secret :: string
  st_minor_onboarding :: bool
  st_reverify_days :: int
  st_reverify_batch :: nat
  st_consent_days :: int
  st_consent_batch :: nat
  st_invite_ttl :: int
  st_consent_validity :: int
  st_moderation_mode :: string
  st_start_limit :: int
  st_send_limit :: int
  st_rate_window :: int
  st_max_group :: nat
  st_max_ciphertext :: nat
  st_retention_days :: int
  st_child_public_only :: bool
  st_unsafe_cooldown :: int
  st_unsafe_limit :: int
  st_unsafe_window :: int
  st_group_cohorts :: "cohort list"
  st_groups_user_created :: bool
  st_group_create_limit :: int
  st_group_create_window :: int
  st_group_join_limit :: int
  st_group_join_window :: int
  st_interest_days :: int
  st_interest_threshold :: nat
  st_companion_cohorts :: "cohort list"
  st_connection_cohorts :: "cohort list"
  st_connection_limit :: int
  st_connection_window :: int
  st_arrival_before :: int
  st_arrival_after :: int
  st_departure_fallback :: int
  st_departure_after :: int
  st_closure_threshold :: nat
  st_closure_decay :: int
  st_token_days :: int
  st_arrival_retention :: int
  st_photo_ttl :: int
  st_photo_ttl_minors :: int
  st_series_lead :: int
  st_series_batch :: nat
  st_post_limit :: int
  st_post_window :: int
  st_chat_max :: nat
  st_thread_page :: nat
  st_facets :: "string list"
  st_react_limit :: int
  st_react_window :: int
  st_question_limit :: int
  st_question_window :: int
  st_closure_limit :: int
  st_closure_window :: int

definition default_settings :: settings where
  "default_settings = \<lparr> st_uniqueness = False, st_binding_secret = [], st_minor_onboarding = True,
     st_reverify_days = 14, st_reverify_batch = 1000, st_consent_days = 14,
     st_consent_batch = 1000, st_invite_ttl = 7, st_consent_validity = 365,
     st_moderation_mode = ''automated+human'', st_start_limit = 20, st_send_limit = 60,
     st_rate_window = 60, st_max_group = 256, st_max_ciphertext = 65536, st_retention_days = 0,
     st_child_public_only = True, st_unsafe_cooldown = 300, st_unsafe_limit = 12,
     st_unsafe_window = 3600,
     st_group_cohorts = [Adult], st_groups_user_created = False, st_group_create_limit =
     5, st_group_create_window = 3600, st_group_join_limit = 20, st_group_join_window =
     3600, st_interest_days = 14, st_interest_threshold = 3, st_companion_cohorts =
     [Adult], st_connection_cohorts = [Adult, Teen, Child], st_connection_limit = 20,
     st_connection_window = 3600, st_arrival_before = 2, st_arrival_after = 3,
     st_departure_fallback = 3, st_departure_after = 3, st_closure_threshold = 3,
     st_closure_decay = 1209600, st_token_days = 90, st_arrival_retention = 6, st_photo_ttl =
     3600, st_photo_ttl_minors = 86400, st_series_lead = 14, st_series_batch = 500,
     st_post_limit = 30, st_post_window = 60, st_chat_max = 4000, st_thread_page = 100,
     st_facets = [], st_react_limit = 60, st_react_window = 60, st_question_limit = 6,
     st_question_window = 3600, st_closure_limit = 10, st_closure_window = 3600 \<rparr>"

text \<open>
  What the code calls and does not define: SHA-256 and HMAC-SHA-256 as hex digests, the ISO
  rendering of a time and its rendering to the minute (\<open>strftime\<close>), and the deployment's time zone (the local hour and ISO weekday of a time,
  its wall-clock reading and the way back). A wall-clock reading has year, month, day and the
  time of the day.
\<close>

datatype naive = Naive (n_year: nat) (n_month: nat) (n_day: nat) (n_time: time)

record prims =
  sha256 :: "string \<Rightarrow> string"
  hmac_sha256 :: "string \<Rightarrow> string \<Rightarrow> string"
  isoformat :: "time \<Rightarrow> string"
  minute_text :: "time \<Rightarrow> string"
  local_hour :: "time \<Rightarrow> nat"
  local_isoweekday :: "time \<Rightarrow> nat"
  localtime :: "time \<Rightarrow> naive"
  make_aware :: "naive \<Rightarrow> time"

record db =
  clock :: time
  seq :: id
  conf :: settings
  lib :: prims
  cache :: "string \<times> id \<Rightarrow> (nat \<times> time) option"
  users :: "user list"
  assurances :: "assurance list"
  consents :: "consent list"
  bindings :: "binding list"
  banned_ids :: "banned list"
  guardianships :: "guardianship list"
  guardrails :: "guardrail list"
  invites :: "invite list"
  audit_log :: "audit_row list"
  reports :: "report list"
  blocks :: "block list"
  notifications :: "notification list"
  preferences :: "prefs list"
  pubkeys :: "pubkey list"
  conversations :: "conversation list"
  participants :: "participant list"
  messages :: "message list"
  message_keys :: "message_key list"
  verifications :: "key_verification list"
  categories :: "category list"
  activity_types :: "activity_type list"
  places :: "place list"
  proposals :: "proposal list"
  confirmations :: "confirmation list"
  activities :: "activity list"
  memberships :: "membership list"
  join_votes :: "join_vote list"
  groups :: "group list"
  group_memberships :: "group_membership list"
  venue_classes :: "venue_class list"
  approved_venues :: "id list"
  closure_reports :: "closure_report list"
  threads :: "thread list"
  gauges :: "gauge list"
  interested :: "(id \<times> id) list"
  connections :: "connection list"
  posts :: "post list"
  reactions :: "reaction list"
  dissents :: "post_flag list"
  concerns :: "post_flag list"
  all_series :: "series list"
  mod_actions :: "mod_action list"
  appeals :: "appeal list"
  referrals :: "referral list"

definition empty_db :: "prims \<Rightarrow> db" where
  "empty_db p = \<lparr> clock = 0, seq = 1, conf = default_settings, lib = p, cache = (\<lambda>_. None),
     users = [], assurances = [], consents = [], bindings = [], banned_ids = [],
     guardianships = [], guardrails = [], invites = [], audit_log = [], reports = [], blocks = [],
     notifications = [], preferences = [], pubkeys = [], conversations = [], participants = [],
     messages = [], message_keys = [], verifications = [], categories = [], activity_types = [],
     places = [], proposals = [], confirmations = [], activities = [], memberships = [],
     join_votes = [], groups = [], group_memberships = [],
     venue_classes = [], approved_venues = [], closure_reports = [], threads = [], gauges = [], interested = [], connections = [],
     posts = [], reactions = [], dissents = [], concerns = [], all_series = [], mod_actions = [],
     appeals = [], referrals = [] \<rparr>"

text \<open>Joins on the user table, as the ORM's \<open>user__cohort\<close> does them, and the row of an id.\<close>

definition user_row :: "db \<Rightarrow> id \<Rightarrow> user option" where
  "user_row s i = List.find (\<lambda>u. u_id u = i) (users s)"

definition has_cohort_row :: "db \<Rightarrow> id \<Rightarrow> cohort \<Rightarrow> bool" where
  "has_cohort_row s i c \<longleftrightarrow> (\<exists>u \<in> set (users s). u_id u = i \<and> u_cohort u = c)"

definition conv_row :: "db \<Rightarrow> id \<Rightarrow> conversation option" where
  "conv_row s i = List.find (\<lambda>c. cv_id c = i) (conversations s)"

lemma user_row_SomeD: "user_row s i = Some u \<Longrightarrow> u \<in> set (users s) \<and> u_id u = i"
  by (auto simp: user_row_def dest: find_SomeD)

lemma conv_row_SomeD: "conv_row s i = Some c \<Longrightarrow> c \<in> set (conversations s) \<and> cv_id c = i"
  by (auto simp: conv_row_def dest: find_SomeD)

text \<open>
  Primitives for closed examples: a hash that keeps its argument, a clock without a zone.
\<close>

definition toy_lib :: prims where
  "toy_lib = \<lparr> sha256 = (\<lambda>x. x), hmac_sha256 = (\<lambda>k x. k @ x), isoformat = (\<lambda>t. []), minute_text = (\<lambda>t. []),
     local_hour = (\<lambda>t. nat (t div hours 1 mod 24)),
     local_isoweekday = (\<lambda>t. Suc (nat (t div days 1 mod 7))),
     localtime = (\<lambda>t. Naive 1970 1 (Suc (nat (t div days 1))) (t mod days 1)),
     make_aware = (\<lambda>n. days (int (n_day n) - 1) + n_time n) \<rparr>"

end
