(* ===== verification/Notifications.thy ===== *)
theory Notifications
  imports Audit_Log
begin

text \<open>
  apps/notifications: the inbox. \<open>notify\<close> delivers unless the recipient muted the kind; the two
  kinds the Digital Services Act mandates can never be muted, neither when a preference is written
  (\<open>set_muted_kinds\<close>) nor when a notice is sent, and are never purged.
\<close>

section \<open>Kinds\<close>

fun kind_value :: "kind \<Rightarrow> string" where
  "kind_value JoinRequested = ''join_requested''"
| "kind_value JoinApproved = ''join_approved''"
| "kind_value EventReminder = ''event_reminder''"
| "kind_value ActivityCancelled = ''activity_cancelled''"
| "kind_value ActivityUpdated = ''activity_updated''"
| "kind_value Announcement = ''announcement''"
| "kind_value GroupAnnouncement = ''group_announcement''"
| "kind_value MeetupConfirmed = ''meetup_confirmed''"
| "kind_value Arrival = ''arrival''"
| "kind_value ConnectionRequest = ''connection_request''"
| "kind_value ConnectionAccepted = ''connection_accepted''"
| "kind_value Mention = ''mention''"
| "kind_value OrganizerRole = ''organizer_role''"
| "kind_value ActivityMatch = ''activity_match''"
| "kind_value GaugeMatch = ''gauge_match''"
| "kind_value GroupQuestion = ''group_question''"
| "kind_value InterestConverted = ''interest_converted''"
| "kind_value RsvpNudge = ''rsvp_nudge''"
| "kind_value OrganizerPrep = ''organizer_prep''"
| "kind_value SupervisorNeeded = ''supervisor_needed''"
| "kind_value FormativeNote = ''formative_note''"
| "kind_value ModAlert = ''mod_alert''"
| "kind_value Moderation = ''moderation''"
| "kind_value System = ''system''"

definition all_kinds :: "kind list" where
  "all_kinds = [JoinRequested, JoinApproved, EventReminder, ActivityCancelled, ActivityUpdated,
     Announcement, GroupAnnouncement, MeetupConfirmed, Arrival, ConnectionRequest,
     ConnectionAccepted, Mention, OrganizerRole, ActivityMatch, GaugeMatch, GroupQuestion,
     InterestConverted, RsvpNudge, OrganizerPrep, SupervisorNeeded, FormativeNote, ModAlert,
     Moderation, System]"

definition non_mutable_kinds :: "kind list" where
  "non_mutable_kinds = [Moderation, System]"

definition mutable_kinds :: "kind list" where
  "mutable_kinds = filter (\<lambda>k. k \<notin> set non_mutable_kinds) all_kinds"

definition is_non_mutable :: "string \<Rightarrow> bool" where
  "is_non_mutable kv \<longleftrightarrow> kv \<in> set (map kind_value non_mutable_kinds)"

lemma all_kinds_complete: "k \<in> set all_kinds"
  by (cases k) (simp_all add: all_kinds_def)

lemma is_non_mutable_kind: "is_non_mutable (kind_value k) \<longleftrightarrow> k = Moderation \<or> k = System"
  by (cases k) (simp_all add: is_non_mutable_def non_mutable_kinds_def)

lemma mutable_not_non_mutable: "kv \<in> set (map kind_value mutable_kinds) \<Longrightarrow> \<not> is_non_mutable kv"
  by (auto simp: mutable_kinds_def is_non_mutable_kind non_mutable_kinds_def)

section \<open>Delivery\<close>

definition pref_row :: "db \<Rightarrow> id \<Rightarrow> prefs option" where
  "pref_row s uid = List.find (\<lambda>p. np_user p = uid) (preferences s)"

definition is_muted :: "db \<Rightarrow> id \<Rightarrow> string \<Rightarrow> bool" where
  "is_muted s uid kv =
     (if is_non_mutable kv then False
      else case pref_row s uid of None \<Rightarrow> False | Some p \<Rightarrow> kv \<in> set (np_muted p))"

definition notify ::
  "id \<Rightarrow> kind \<Rightarrow> string \<Rightarrow> string \<Rightarrow> string \<Rightarrow> db \<Rightarrow> notification option \<times> db" where
  "notify recipient k title body url s =
     (let kv = kind_value k in
      if \<not> is_non_mutable kv \<and> is_muted s recipient kv then (None, s)
      else let n = \<lparr> nt_id = seq s, nt_recipient = recipient, nt_kind = k, nt_title = title,
                     nt_body = body, nt_url = url, nt_read_at = None, nt_created_at = clock s \<rparr>
           in (Some n, s\<lparr> notifications := notifications s @ [n], seq := Suc (seq s) \<rparr>))"

text \<open>A fan-out of one notice to a list of recipients, in order; it counts what was delivered.\<close>

fun notify_each ::
  "id list \<Rightarrow> kind \<Rightarrow> string \<Rightarrow> string \<Rightarrow> string \<Rightarrow> db \<Rightarrow> nat \<times> db" where
  "notify_each [] k title body url s = (0, s)"
| "notify_each (r # rs) k title body url s =
     (let (n, t) = notify r k title body url s; (m, w) = notify_each rs k title body url t
      in ((case n of None \<Rightarrow> m | Some _ \<Rightarrow> Suc m), w))"

definition is_moderator :: "user \<Rightarrow> bool" where
  "is_moderator u \<longleftrightarrow> u_role u \<in> {RModerator, RAdmin} \<or> u_staff u"

definition notify_moderators ::
  "kind \<Rightarrow> string \<Rightarrow> string \<Rightarrow> string \<Rightarrow> db \<Rightarrow> nat \<times> db" where
  "notify_moderators k title body url s =
     (if st_moderation_mode (conf s) = ''automated'' then (0, s)
      else notify_each (map u_id (filter (\<lambda>u. u_active u \<and> is_moderator u) (users s)))
             k title body url s)"

section \<open>Preferences and the inbox\<close>

definition get_muted_kinds :: "db \<Rightarrow> id \<Rightarrow> string set" where
  "get_muted_kinds s uid = (case pref_row s uid of None \<Rightarrow> {} | Some p \<Rightarrow> set (np_muted p))"

definition set_muted_kinds :: "id \<Rightarrow> string list \<Rightarrow> db \<Rightarrow> db" where
  "set_muted_kinds uid kinds s =
     (let valid = sort (remdups (filter (\<lambda>kv. kv \<in> set (map kind_value mutable_kinds)) kinds));
          s1 = (if \<exists>p \<in> set (preferences s). np_user p = uid
                then s\<lparr> preferences := update_rows (\<lambda>p. np_user p = uid)
                          (\<lambda>p. p\<lparr> np_muted := valid \<rparr>) (preferences s) \<rparr>
                else s\<lparr> preferences := preferences s @ [\<lparr> np_user = uid, np_muted = valid \<rparr>] \<rparr>)
      in record_audit ''notification.preferences_updated'' (Some uid) (Some (''accounts.user'', uid))
           [(''muted'', JList (map JStr valid))] s1)"

definition mark_read :: "notification \<Rightarrow> db \<Rightarrow> db" where
  "mark_read n s =
     (if nt_read_at n = None
      then s\<lparr> notifications := update_rows (\<lambda>m. nt_id m = nt_id n)
                (\<lambda>m. m\<lparr> nt_read_at := Some (clock s) \<rparr>) (notifications s) \<rparr>
      else s)"

definition mark_all_read :: "id \<Rightarrow> db \<Rightarrow> nat \<times> db" where
  "mark_all_read uid s =
     (let unread = (\<lambda>n. nt_recipient n = uid \<and> nt_read_at n = None)
      in (count_rows unread (notifications s),
          s\<lparr> notifications := update_rows unread (\<lambda>n. n\<lparr> nt_read_at := Some (clock s) \<rparr>)
               (notifications s) \<rparr>))"

definition unread_count :: "db \<Rightarrow> id \<Rightarrow> nat" where
  "unread_count s uid = count_rows (\<lambda>n. nt_recipient n = uid \<and> nt_read_at n = None) (notifications s)"

definition purgeable :: "time \<Rightarrow> notification \<Rightarrow> bool" where
  "purgeable cutoff n \<longleftrightarrow>
     nt_read_at n \<noteq> None \<and> nt_created_at n < cutoff \<and> nt_kind n \<notin> set non_mutable_kinds"

definition purge_read_notifications :: "int \<Rightarrow> int \<Rightarrow> db \<Rightarrow> nat \<times> db" where
  "purge_read_notifications ndays batch_size s =
     (if ndays \<le> 0 \<or> batch_size \<le> 0 then (0, s)
      else
        let cutoff = clock s - days ndays;
            ids = map nt_id (take (nat batch_size)
              (sort_key (\<lambda>n. (nt_created_at n, nt_id n)) (filter (purgeable cutoff) (notifications s))))
        in (if ids = [] then (0, s)
            else (count_rows (\<lambda>n. nt_id n \<in> set ids) (notifications s),
                  s\<lparr> notifications := filter (\<lambda>n. nt_id n \<notin> set ids) (notifications s) \<rparr>)))"

section \<open>Frame\<close>

lemma notify_frame [simp]:
  "clock (snd (notify r k ti b u s)) = clock s" "conf (snd (notify r k ti b u s)) = conf s"
  "lib (snd (notify r k ti b u s)) = lib s" "cache (snd (notify r k ti b u s)) = cache s"
  "users (snd (notify r k ti b u s)) = users s"
  "assurances (snd (notify r k ti b u s)) = assurances s"
  "consents (snd (notify r k ti b u s)) = consents s"
  "bindings (snd (notify r k ti b u s)) = bindings s"
  "banned_ids (snd (notify r k ti b u s)) = banned_ids s"
  "guardianships (snd (notify r k ti b u s)) = guardianships s"
  "guardrails (snd (notify r k ti b u s)) = guardrails s"
  "invites (snd (notify r k ti b u s)) = invites s"
  "audit_log (snd (notify r k ti b u s)) = audit_log s"
  "reports (snd (notify r k ti b u s)) = reports s"
  "blocks (snd (notify r k ti b u s)) = blocks s"
  "preferences (snd (notify r k ti b u s)) = preferences s"
  "pubkeys (snd (notify r k ti b u s)) = pubkeys s"
  "conversations (snd (notify r k ti b u s)) = conversations s"
  "participants (snd (notify r k ti b u s)) = participants s"
  "messages (snd (notify r k ti b u s)) = messages s"
  "message_keys (snd (notify r k ti b u s)) = message_keys s"
  "verifications (snd (notify r k ti b u s)) = verifications s"
  by (simp_all add: notify_def Let_def)

lemma notify_frame_social [simp]:
  "categories (snd (notify r k ti b u s)) = categories s"
  "activity_types (snd (notify r k ti b u s)) = activity_types s"
  "places (snd (notify r k ti b u s)) = places s"
  "proposals (snd (notify r k ti b u s)) = proposals s"
  "confirmations (snd (notify r k ti b u s)) = confirmations s"
  "activities (snd (notify r k ti b u s)) = activities s"
  "memberships (snd (notify r k ti b u s)) = memberships s"
  "join_votes (snd (notify r k ti b u s)) = join_votes s"
  "groups (snd (notify r k ti b u s)) = groups s"
  "group_memberships (snd (notify r k ti b u s)) = group_memberships s"
  by (simp_all add: notify_def Let_def)

lemma notify_frame_more [simp]:
  "venue_classes (snd (notify r k ti b u s)) = venue_classes s"
  "approved_venues (snd (notify r k ti b u s)) = approved_venues s"
  "closure_reports (snd (notify r k ti b u s)) = closure_reports s"
  "threads (snd (notify r k ti b u s)) = threads s"
  "gauges (snd (notify r k ti b u s)) = gauges s"
  "interested (snd (notify r k ti b u s)) = interested s"
  "connections (snd (notify r k ti b u s)) = connections s"
  by (simp_all add: notify_def Let_def)

lemma notify_each_Cons:
  "snd (notify_each (r # rs) k ti b u s) = snd (notify_each rs k ti b u (snd (notify r k ti b u s)))"
  "fst (notify_each (r # rs) k ti b u s) =
     (if fst (notify r k ti b u s) = None then 0 else 1) +
     fst (notify_each rs k ti b u (snd (notify r k ti b u s)))"
  by (simp_all add: Let_def split: prod.splits option.splits)

declare notify_each.simps(2) [simp del]
declare notify_each_Cons [simp]

lemma notify_eq: "\<exists>ns n. snd (notify r k ti b u s) = s\<lparr> notifications := ns, seq := n \<rparr>"
proof (cases "fst (notify r k ti b u s)")
  case None
  then have "snd (notify r k ti b u s) = s\<lparr> notifications := notifications s, seq := seq s \<rparr>"
    by (simp add: notify_def Let_def split: if_splits)
  then show ?thesis by blast
next
  case (Some n)
  then have "snd (notify r k ti b u s) = s\<lparr> notifications := notifications s @ [n], seq := Suc (seq s) \<rparr>"
    by (auto simp: notify_def Let_def split: if_splits)
  then show ?thesis by blast
qed

lemma notify_each_eq:
  "\<exists>ns n. snd (notify_each rs k ti b u s) = s\<lparr> notifications := ns, seq := n \<rparr>"
proof (induction rs arbitrary: s)
  case Nil
  show ?case
    by (rule exI [of _ "notifications s"], rule exI [of _ "seq s"]) simp
next
  case (Cons r rs)
  obtain ns n where one: "snd (notify r k ti b u s) = s\<lparr> notifications := ns, seq := n \<rparr>"
    using notify_eq by blast
  obtain ns' n' where "snd (notify_each rs k ti b u (s\<lparr> notifications := ns, seq := n \<rparr>)) =
      s\<lparr> notifications := ns, seq := n \<rparr>\<lparr> notifications := ns', seq := n' \<rparr>"
    using Cons.IH by blast
  with one have "snd (notify_each (r # rs) k ti b u s) = s\<lparr> notifications := ns', seq := n' \<rparr>"
    by simp
  then show ?case by blast
qed

lemma notify_each_frame [simp]:
  "clock (snd (notify_each rs k ti b u s)) = clock s"
  "conf (snd (notify_each rs k ti b u s)) = conf s"
  "lib (snd (notify_each rs k ti b u s)) = lib s"
  "cache (snd (notify_each rs k ti b u s)) = cache s"
  "users (snd (notify_each rs k ti b u s)) = users s"
  "assurances (snd (notify_each rs k ti b u s)) = assurances s"
  "consents (snd (notify_each rs k ti b u s)) = consents s"
  "bindings (snd (notify_each rs k ti b u s)) = bindings s"
  "banned_ids (snd (notify_each rs k ti b u s)) = banned_ids s"
  "guardianships (snd (notify_each rs k ti b u s)) = guardianships s"
  "guardrails (snd (notify_each rs k ti b u s)) = guardrails s"
  "invites (snd (notify_each rs k ti b u s)) = invites s"
  "audit_log (snd (notify_each rs k ti b u s)) = audit_log s"
  "reports (snd (notify_each rs k ti b u s)) = reports s"
  "blocks (snd (notify_each rs k ti b u s)) = blocks s"
  "preferences (snd (notify_each rs k ti b u s)) = preferences s"
  "pubkeys (snd (notify_each rs k ti b u s)) = pubkeys s"
  "conversations (snd (notify_each rs k ti b u s)) = conversations s"
  "participants (snd (notify_each rs k ti b u s)) = participants s"
  "messages (snd (notify_each rs k ti b u s)) = messages s"
  "message_keys (snd (notify_each rs k ti b u s)) = message_keys s"
  "verifications (snd (notify_each rs k ti b u s)) = verifications s"
  "categories (snd (notify_each rs k ti b u s)) = categories s"
  "activity_types (snd (notify_each rs k ti b u s)) = activity_types s"
  "places (snd (notify_each rs k ti b u s)) = places s"
  "proposals (snd (notify_each rs k ti b u s)) = proposals s"
  "confirmations (snd (notify_each rs k ti b u s)) = confirmations s"
  "activities (snd (notify_each rs k ti b u s)) = activities s"
  "memberships (snd (notify_each rs k ti b u s)) = memberships s"
  "join_votes (snd (notify_each rs k ti b u s)) = join_votes s"
  "groups (snd (notify_each rs k ti b u s)) = groups s"
  "group_memberships (snd (notify_each rs k ti b u s)) = group_memberships s"
  by (use notify_each_eq [of rs k ti b u s] in auto)

lemma notify_each_frame_more [simp]:
  "venue_classes (snd (notify_each rs k ti b u s)) = venue_classes s"
  "approved_venues (snd (notify_each rs k ti b u s)) = approved_venues s"
  "closure_reports (snd (notify_each rs k ti b u s)) = closure_reports s"
  "threads (snd (notify_each rs k ti b u s)) = threads s"
  "gauges (snd (notify_each rs k ti b u s)) = gauges s"
  "interested (snd (notify_each rs k ti b u s)) = interested s"
  "connections (snd (notify_each rs k ti b u s)) = connections s"
  by (use notify_each_eq [of rs k ti b u s] in auto)

lemma notify_moderators_frame [simp]:
  "lib (snd (notify_moderators k ti b u s)) = lib s"
  "audit_log (snd (notify_moderators k ti b u s)) = audit_log s"
  "users (snd (notify_moderators k ti b u s)) = users s"
  by (simp_all add: notify_moderators_def)

lemma notify_seq: "seq s \<le> seq (snd (notify r k ti b u s))"
  by (simp add: notify_def Let_def)

lemma notify_each_seq: "seq s \<le> seq (snd (notify_each rs k ti b u s))"
proof (induction rs arbitrary: s)
  case (Cons r rs)
  have "seq s \<le> seq (snd (notify r k ti b u s))" by (rule notify_seq)
  also have "\<dots> \<le> seq (snd (notify_each rs k ti b u (snd (notify r k ti b u s))))" by (rule Cons.IH)
  finally show ?case by simp
qed simp

section \<open>What is delivered, kept and purged\<close>

lemma notify_non_mutable:
  "k = Moderation \<or> k = System \<Longrightarrow>
   \<exists>n. fst (notify r k ti b u s) = Some n \<and> n \<in> set (notifications (snd (notify r k ti b u s)))
     \<and> nt_recipient n = r \<and> nt_kind n = k \<and> nt_title n = ti"
  by (auto simp: notify_def Let_def is_non_mutable_kind)

lemma notify_each_non_mutable:
  "k = Moderation \<or> k = System \<Longrightarrow> fst (notify_each rs k ti b u s) = length rs"
proof (induction rs arbitrary: s)
  case (Cons r rs)
  then show ?case
    using notify_non_mutable [OF Cons.prems, of r ti b u s] by auto
qed simp

lemma purge_keeps:
  assumes "n \<in> set (notifications s)" and "\<not> purgeable (clock s - days d) n"
    and uniq: "unique_by nt_id (notifications s)"
  shows "n \<in> set (notifications (snd (purge_read_notifications d b s)))"
proof -
  let ?c = "sort_key (\<lambda>n. (nt_created_at n, nt_id n)) (filter (purgeable (clock s - days d)) (notifications s))"
  have "nt_id n \<notin> nt_id ` set (take (nat b) ?c)"
  proof
    assume "nt_id n \<in> nt_id ` set (take (nat b) ?c)"
    then obtain m where m: "m \<in> set ?c" "nt_id m = nt_id n"
      by (auto dest: in_set_takeD)
    then have "m = n" using uniq assms(1) by (auto dest: unique_byD)
    with m assms(2) show False by simp
  qed
  then show ?thesis
    using assms(1) by (simp add: purge_read_notifications_def Let_def)
qed

lemma purge_bounded:
  assumes uniq: "unique_by nt_id (notifications s)"
  shows "fst (purge_read_notifications d b s) \<le> nat b"
proof -
  let ?c = "sort_key (\<lambda>n. (nt_created_at n, nt_id n)) (filter (purgeable (clock s - days d)) (notifications s))"
  let ?ids = "map nt_id (take (nat b) ?c)"
  let ?hit = "filter (\<lambda>n. nt_id n \<in> set ?ids) (notifications s)"
  have "card (set (map nt_id ?hit)) \<le> card (set ?ids)"
    by (rule card_mono) auto
  moreover have "card (set (map nt_id ?hit)) = length ?hit"
    using unique_by_filter [OF uniq] by (simp add: unique_by_def distinct_card del: set_map)
  ultimately have "length ?hit \<le> length ?ids"
    using card_length [of ?ids] by linarith
  then show ?thesis
    by (simp add: purge_read_notifications_def Let_def count_rows_def)
qed

end
