(* ===== verification/Eligibility.thy ===== *)
theory Eligibility
  imports Notifications
begin

text \<open>
  Who may take part (apps/accounts/services.py): the cohort of an age band, the currency of an age
  proof, parental consent and its validity, guardianship, and \<open>can_participate\<close>, the gate the
  messaging and social services consult. A \<open>user\<close> argument is the model instance the caller
  holds; queries read the tables.
\<close>

section \<open>Cohorts, proofs and consents\<close>

fun assign_cohort :: "age_band \<Rightarrow> cohort" where
  "assign_cohort Under16 = Child"
| "assign_cohort Age16_17 = Teen"
| "assign_cohort BandAdult = Adult"
| "assign_cohort BandUnknown = Unassigned"

definition requires_parental_consent :: "user \<Rightarrow> bool" where
  "requires_parental_consent u \<longleftrightarrow> u_age_band u = Under16"

definition recompute_cohort :: "user \<Rightarrow> user" where
  "recompute_cohort u = u\<lparr> u_cohort := assign_cohort (u_age_band u) \<rparr>"

definition consent_is_valid :: "time \<Rightarrow> consent \<Rightarrow> bool" where
  "consent_is_valid t c =
     (if pc_status c \<noteq> CActive then False
      else case pc_expires_at c of None \<Rightarrow> True | Some e \<Rightarrow> \<not> e \<le> t)"

definition has_valid_parental_consent :: "db \<Rightarrow> user \<Rightarrow> bool" where
  "has_valid_parental_consent s u \<longleftrightarrow>
     (\<exists>c \<in> set (consents s). pc_minor c = u_id u \<and> consent_is_valid (clock s) c)"

definition latest_assurance :: "db \<Rightarrow> id \<Rightarrow> assurance option" where
  "latest_assurance s uid =
     latest_row (\<lambda>a. (as_verified_at a, as_id a)) (filter (\<lambda>a. as_user a = uid) (assurances s))"

definition is_assurance_current :: "db \<Rightarrow> user \<Rightarrow> bool" where
  "is_assurance_current s u =
     (if \<not> u_verified u then False
      else case latest_assurance s (u_id u) of
        None \<Rightarrow> True
      | Some a \<Rightarrow> (case as_expires_at a of None \<Rightarrow> True | Some e \<Rightarrow> e > clock s))"

definition can_participate :: "db \<Rightarrow> user \<Rightarrow> bool" where
  "can_participate s u =
     (if \<not> is_assurance_current s u then False
      else if requires_parental_consent u then has_valid_parental_consent s u
      else True)"

section \<open>The provenance panel\<close>

datatype proof_status = StNoExpiry | StExpired | StExpiring | StCurrent

record provenance =
  pv_has_row :: bool
  pv_provider :: "string option"
  pv_method :: "string option"
  pv_band_display :: string
  pv_verified_at :: "time option"
  pv_expires_at :: "time option"
  pv_is_current :: bool
  pv_expires_soon :: bool
  pv_days_left :: "int option"
  pv_status :: proof_status

fun age_band_label :: "age_band \<Rightarrow> string" where
  "age_band_label BandUnknown = ''Unknown''"
| "age_band_label Under16 = ''Under 16''"
| "age_band_label Age16_17 = ''16-17''"
| "age_band_label BandAdult = ''Adult (18+)''"

definition method_label :: "string \<Rightarrow> string" where
  "method_label m = (if m = ''openid4vp'' then ''the EU Digital Identity wallet'' else m)"

text \<open>\<open>ceil(seconds / 86400)\<close> in whole numbers: the ceiling of a quotient of microseconds.\<close>

definition days_until :: "time \<Rightarrow> time \<Rightarrow> int" where
  "days_until now e = max 0 (- ((- (e - now)) div days 1))"

definition assurance_provenance :: "db \<Rightarrow> user \<Rightarrow> provenance option" where
  "assurance_provenance s u =
     (case latest_assurance s (u_id u) of
        None \<Rightarrow>
          if \<not> u_verified u then None
          else Some \<lparr> pv_has_row = False, pv_provider = None, pv_method = None,
            pv_band_display = age_band_label (u_age_band u), pv_verified_at = None,
            pv_expires_at = None, pv_is_current = True, pv_expires_soon = False,
            pv_days_left = None, pv_status = StNoExpiry \<rparr>
      | Some a \<Rightarrow>
          let is_current = is_assurance_current s u;
              days_left = map_option (days_until (clock s)) (as_expires_at a);
              (status, soon) =
                (case days_left of None \<Rightarrow> (StNoExpiry, False)
                 | Some d \<Rightarrow>
                     if \<not> is_current then (StExpired, False)
                     else if d \<le> st_reverify_days (conf s) then (StExpiring, True)
                     else (StCurrent, False))
          in Some \<lparr> pv_has_row = True, pv_provider = Some (as_provider a),
               pv_method = Some (method_label (as_method a)),
               pv_band_display = age_band_label (as_age_band a),
               pv_verified_at = Some (as_verified_at a), pv_expires_at = as_expires_at a,
               pv_is_current = is_current, pv_expires_soon = soon, pv_days_left = days_left,
               pv_status = status \<rparr>)"

section \<open>Guardianship\<close>

definition is_guardian_of :: "db \<Rightarrow> id \<Rightarrow> id \<Rightarrow> bool" where
  "is_guardian_of s g w \<longleftrightarrow>
     (\<exists>r \<in> set (guardianships s). gr_guardian r = g \<and> gr_ward r = w \<and> gr_status r = LActive)"

definition active_guardians :: "db \<Rightarrow> id \<Rightarrow> id list" where
  "active_guardians s w =
     map gr_guardian (filter (\<lambda>r. gr_ward r = w \<and> gr_status r = LActive) (guardianships s))"

definition minor_onboarding_enabled :: "db \<Rightarrow> bool" where
  "minor_onboarding_enabled s = st_minor_onboarding (conf s)"

section \<open>Laws of the gate\<close>

lemma consent_is_valid_iff:
  "consent_is_valid t c \<longleftrightarrow> pc_status c = CActive \<and> (\<forall>e. pc_expires_at c = Some e \<longrightarrow> t < e)"
  by (auto simp: consent_is_valid_def split: option.splits)

lemma is_assurance_current_iff:
  "is_assurance_current s u \<longleftrightarrow> u_verified u \<and>
     (\<forall>a e. latest_assurance s (u_id u) = Some a \<longrightarrow> as_expires_at a = Some e \<longrightarrow> clock s < e)"
  by (auto simp: is_assurance_current_def split: option.splits)

lemma can_participate_iff:
  "can_participate s u \<longleftrightarrow> is_assurance_current s u \<and>
     (requires_parental_consent u \<longrightarrow> has_valid_parental_consent s u)"
  by (simp add: can_participate_def)

lemma can_participate_cong:
  "clock s = clock t \<Longrightarrow> assurances s = assurances t \<Longrightarrow> consents s = consents t \<Longrightarrow>
   can_participate s u = can_participate t u"
  by (simp add: can_participate_iff is_assurance_current_iff latest_assurance_def
      has_valid_parental_consent_def)

lemma latest_assurance_max:
  assumes "latest_assurance s uid = Some a"
  shows "a \<in> set (assurances s)" and "as_user a = uid"
    and "\<And>b. b \<in> set (assurances s) \<Longrightarrow> as_user b = uid \<Longrightarrow> as_verified_at b \<le> as_verified_at a"
proof -
  have m: "a \<in> set (filter (\<lambda>a. as_user a = uid) (assurances s)) \<and>
      (\<forall>b \<in> set (filter (\<lambda>a. as_user a = uid) (assurances s)).
        (as_verified_at b, as_id b) \<le> (as_verified_at a, as_id a))"
    using latest_row_max [OF assms [unfolded latest_assurance_def]] .
  then show "a \<in> set (assurances s)" and "as_user a = uid" by auto
  show "as_verified_at b \<le> as_verified_at a" if "b \<in> set (assurances s)" "as_user b = uid" for b
    using m that by (auto simp: less_eq_prod_def)
qed

lemma is_guardian_of_active: "is_guardian_of s g w \<longleftrightarrow> g \<in> set (active_guardians s w)"
  by (auto simp: is_guardian_of_def active_guardians_def)

lemma days_until_pos: "now < e \<longleftrightarrow> 0 < days_until now e"
proof -
  have "0 < days 1" by (simp add: days_def seconds_def)
  then have "(now - e) div days 1 < 0 \<longleftrightarrow> now - e < 0"
    by (rule pos_imp_zdiv_neg_iff)
  then show ?thesis by (auto simp: days_until_def)
qed

end
