(* ===== verification/Safety.thy ===== *)
theory Safety
  imports Eligibility
begin

text \<open>
  apps/safety/services.py: blocks, the fixed-window rate limiter, reports and the one-tap "I feel
  unsafe" report that alerts a child's guardians. The limiter's cache is a map from key to count
  and expiry; an expired entry counts as absent, as the cache backend documents.
\<close>

section \<open>Blocks\<close>

definition is_blocked :: "db \<Rightarrow> id \<Rightarrow> id \<Rightarrow> bool" where
  "is_blocked s a b \<longleftrightarrow> (\<exists>x \<in> set (blocks s).
     (bl_blocker x = a \<and> bl_blocked x = b) \<or> (bl_blocker x = b \<and> bl_blocked x = a))"

definition blocked_user_ids :: "db \<Rightarrow> id \<Rightarrow> id set" where
  "blocked_user_ids s u =
     (\<lambda>x. if bl_blocker x = u then bl_blocked x else bl_blocker x) `
       {x \<in> set (blocks s). bl_blocker x = u \<or> bl_blocked x = u}"

datatype safety_error = SelfBlock | RateLimited

definition block_user :: "id \<Rightarrow> id \<Rightarrow> db \<Rightarrow> (safety_error, unit, db) outcome" where
  "block_user blocker blocked s =
     (if blocker = blocked then raised SelfBlock s
      else if \<exists>x \<in> set (blocks s). bl_blocker x = blocker \<and> bl_blocked x = blocked
      then returned () s
      else returned () (record_audit ''user.blocked'' (Some blocker) (Some (''accounts.user'', blocked)) []
             (s\<lparr> blocks := blocks s @ [\<lparr> bl_id = seq s, bl_blocker = blocker, bl_blocked = blocked,
                                        bl_created_at = clock s \<rparr>],
                seq := Suc (seq s) \<rparr>)))"

definition unblock_user :: "id \<Rightarrow> id \<Rightarrow> db \<Rightarrow> db" where
  "unblock_user blocker blocked s =
     (let hit = (\<lambda>x. bl_blocker x = blocker \<and> bl_blocked x = blocked);
          s1 = s\<lparr> blocks := filter (\<lambda>x. \<not> hit x) (blocks s) \<rparr>
      in if \<exists>x \<in> set (blocks s). hit x
         then record_audit ''user.unblocked'' (Some blocker) (Some (''accounts.user'', blocked)) [] s1
         else s1)"

section \<open>Rate limiting\<close>

definition cache_live :: "db \<Rightarrow> string \<times> id \<Rightarrow> nat option" where
  "cache_live s k =
     (case cache s k of None \<Rightarrow> None | Some (n, e) \<Rightarrow> if clock s < e then Some n else None)"

definition allow_action :: "id \<Rightarrow> string \<Rightarrow> int \<Rightarrow> int \<Rightarrow> db \<Rightarrow> bool \<times> db" where
  "allow_action uid action limit window s =
     (if limit \<le> 0 then (False, s)
      else case cache_live s (action, uid) of
          None \<Rightarrow> (True, s\<lparr> cache := (cache s)((action, uid) \<mapsto> (1, clock s + seconds window)) \<rparr>)
        | Some n \<Rightarrow>
            (int (Suc n) \<le> limit,
             s\<lparr> cache := (cache s)((action, uid) := map_option (\<lambda>(_, e). (Suc n, e)) (cache s (action, uid))) \<rparr>))"

section \<open>Reports\<close>

definition notify_reporter :: "id option \<Rightarrow> string \<Rightarrow> string \<Rightarrow> db \<Rightarrow> db" where
  "notify_reporter reporter title body s =
     (case reporter of None \<Rightarrow> s | Some r \<Rightarrow> snd (notify r System title body [] s))"

fun reason_value :: "reason_code \<Rightarrow> string" where
  "reason_value Grooming = ''grooming''"
| "reason_value Harassment = ''harassment''"
| "reason_value Csam = ''csam''"
| "reason_value Spam = ''spam''"
| "reason_value OffPlatform = ''off_platform''"
| "reason_value OtherReason = ''other''"

definition file_report ::
  "id option \<Rightarrow> string \<times> id \<Rightarrow> reason_code \<Rightarrow> string \<Rightarrow> db \<Rightarrow> report \<times> db" where
  "file_report reporter target reason detail s =
     (let r = \<lparr> rp_id = seq s, rp_reporter = reporter, rp_target_type = fst target,
                rp_target_id = snd target, rp_reason = reason, rp_detail = detail,
                rp_status = ROpen, rp_handled_by = None, rp_handled_at = None,
                rp_resolution = [], rp_created_at = clock s \<rparr>;
          s1 = s\<lparr> reports := reports s @ [r], seq := Suc (seq s) \<rparr>;
          s2 = record_audit ''report.filed'' reporter (Some target)
                 [(''reason'', JStr (reason_value reason))] s1
      in (r, notify_reporter reporter ''We received your report''
               (''Thanks - your report was sent to the moderation team. We'' @ [CHR 0x27] @
                ''ll let you know once it'' @ [CHR 0x27] @ ''s been reviewed.'') s2))"

section \<open>Guardian alerts\<close>

definition unsafe_guardian_title :: string where
  "unsafe_guardian_title = ''Safety alert: a child you look after asked for help''"

definition moderation_guardian_title :: string where
  "moderation_guardian_title = ''A moderation decision concerning a child you look after''"

definition display_or_username :: "user \<Rightarrow> string" where
  "display_or_username u = (if u_display_name u \<noteq> [] then u_display_name u else u_username u)"

text \<open>Each active guardian once, in link order, without those blocked against the child.\<close>

definition unsafe_recipients :: "db \<Rightarrow> id \<Rightarrow> id list" where
  "unsafe_recipients s child =
     rev (remdups (rev (filter (\<lambda>g. g \<notin> blocked_user_ids s child) (active_guardians s child))))"

definition alert_guardians_unsafe :: "user \<Rightarrow> db \<Rightarrow> nat \<times> db" where
  "alert_guardians_unsafe child s =
     (let rs = unsafe_recipients s (u_id child)
      in (length rs, snd (notify_each rs System unsafe_guardian_title
            (display_or_username child @
             '' used the '' @ [CHR 0x27] @ ''I feel unsafe'' @ [CHR 0x27] @
             '' button during a meetup. Please check in with them now. You can see their upcoming '' @
             ''meetups on your guardian page.'') ''/wards/'' s)))"

definition moderation_recipients :: "db \<Rightarrow> user list \<Rightarrow> id list" where
  "moderation_recipients s minors =
     (let wards = map u_id (filter (\<lambda>m. u_cohort m = Child) minors);
          rels = sort_key (\<lambda>r. (gr_ward r, gr_guardian r))
            (filter (\<lambda>r. gr_ward r \<in> set wards \<and> gr_status r = LActive) (guardianships s))
      in rev (remdups (rev (map gr_guardian
           (filter (\<lambda>r. gr_guardian r \<notin> blocked_user_ids s (gr_ward r)) rels)))))"

definition alert_guardians_of_moderation :: "user list \<Rightarrow> db \<Rightarrow> nat \<times> db" where
  "alert_guardians_of_moderation minors s =
     (let rs = moderation_recipients s minors
      in (length rs, snd (notify_each rs System moderation_guardian_title
            (''A moderation decision was made about something concerning a child you look after. '' @
             ''You can see their upcoming meetups on your guardian page.'') ''/wards/'' s)))"

section \<open>The one-tap unsafe report\<close>

definition unsafe_sentinel :: string where
  "unsafe_sentinel = ''Filed via the one-tap safe-exit I feel unsafe button.''"

definition is_unsafe_report :: "id \<Rightarrow> id \<Rightarrow> report \<Rightarrow> bool" where
  "is_unsafe_report reporter aid r \<longleftrightarrow>
     rp_reporter r = Some reporter \<and> rp_target_type r = ''social.activity'' \<and> rp_target_id r = aid \<and>
     rp_reason r = OffPlatform \<and> rp_detail r = unsafe_sentinel"

record unsafe_result =
  ur_report :: report
  ur_alerted :: nat
  ur_repeat :: bool

definition recent_unsafe :: "db \<Rightarrow> id \<Rightarrow> id \<Rightarrow> report option" where
  "recent_unsafe s reporter aid =
     latest_row rp_created_at (filter (is_unsafe_report reporter aid) (reports s))"

definition file_unsafe_report :: "user \<Rightarrow> id \<Rightarrow> db \<Rightarrow> (safety_error, unsafe_result, db) outcome" where
  "file_unsafe_report reporter aid s =
     (let cooldown = seconds (st_unsafe_cooldown (conf s));
          fresh =
            (let (ok, s1) = allow_action (u_id reporter) ''unsafe_report''
                   (st_unsafe_limit (conf s)) (st_unsafe_window (conf s)) s
             in if \<not> ok then raised RateLimited s1
                else let (r, s2) = file_report (Some (u_id reporter)) (''social.activity'', aid)
                           OffPlatform unsafe_sentinel s1;
                         (n, s3) = (if u_cohort reporter = Child then alert_guardians_unsafe reporter s2
                                    else (0, s2))
                     in returned \<lparr> ur_report = r, ur_alerted = n, ur_repeat = False \<rparr> s3)
      in case recent_unsafe s (u_id reporter) aid of
           None \<Rightarrow> fresh
         | Some r \<Rightarrow>
             if rp_status r \<in> {ROpen, RReviewing} \<or> clock s - cooldown \<le> rp_created_at r
             then returned \<lparr> ur_report = r, ur_alerted = 0, ur_repeat = True \<rparr> s
             else fresh)"

section \<open>Lemmas\<close>

lemma is_blocked_sym: "is_blocked s a b = is_blocked s b a"
  by (auto simp: is_blocked_def)

lemma is_blocked_cong: "blocks s = blocks t \<Longrightarrow> is_blocked s a b = is_blocked t a b"
  by (simp add: is_blocked_def)

lemma blocked_user_ids_iff: "b \<in> blocked_user_ids s a \<longleftrightarrow> is_blocked s a b"
  by (auto simp: blocked_user_ids_def is_blocked_def image_iff split: if_splits)

lemma block_user_blocks: "a \<noteq> b \<Longrightarrow> is_blocked (snd (block_user a b s)) a b"
  by (auto simp: block_user_def is_blocked_def split: if_splits)

lemma block_user_extends: "log_extends s (snd (block_user a b s))"
  by (auto simp: block_user_def split: if_splits
      intro!: log_extends_record_audit log_extends_same)

lemma unblock_user_extends: "log_extends s (unblock_user a b s)"
  by (auto simp: unblock_user_def Let_def intro!: log_extends_record_audit log_extends_same)

lemma allow_action_eq: "\<exists>c. snd (allow_action u a l w s) = s\<lparr> cache := c \<rparr>"
proof -
  have "s = s\<lparr> cache := cache s \<rparr>" by simp
  then show ?thesis
    by (auto simp: allow_action_def split: option.splits intro: exI [of _ "cache s"])
qed

lemma allow_action_frame [simp]:
  "clock (snd (allow_action u a l w s)) = clock s" "seq (snd (allow_action u a l w s)) = seq s"
  "conf (snd (allow_action u a l w s)) = conf s" "lib (snd (allow_action u a l w s)) = lib s"
  "users (snd (allow_action u a l w s)) = users s"
  "assurances (snd (allow_action u a l w s)) = assurances s"
  "consents (snd (allow_action u a l w s)) = consents s"
  "bindings (snd (allow_action u a l w s)) = bindings s"
  "banned_ids (snd (allow_action u a l w s)) = banned_ids s"
  "guardianships (snd (allow_action u a l w s)) = guardianships s"
  "guardrails (snd (allow_action u a l w s)) = guardrails s"
  "invites (snd (allow_action u a l w s)) = invites s"
  "audit_log (snd (allow_action u a l w s)) = audit_log s"
  "reports (snd (allow_action u a l w s)) = reports s"
  "blocks (snd (allow_action u a l w s)) = blocks s"
  "notifications (snd (allow_action u a l w s)) = notifications s"
  "preferences (snd (allow_action u a l w s)) = preferences s"
  "pubkeys (snd (allow_action u a l w s)) = pubkeys s"
  "conversations (snd (allow_action u a l w s)) = conversations s"
  "participants (snd (allow_action u a l w s)) = participants s"
  "messages (snd (allow_action u a l w s)) = messages s"
  "message_keys (snd (allow_action u a l w s)) = message_keys s"
  "verifications (snd (allow_action u a l w s)) = verifications s"
  "categories (snd (allow_action u a l w s)) = categories s"
  "activity_types (snd (allow_action u a l w s)) = activity_types s"
  "places (snd (allow_action u a l w s)) = places s"
  "proposals (snd (allow_action u a l w s)) = proposals s"
  "confirmations (snd (allow_action u a l w s)) = confirmations s"
  "activities (snd (allow_action u a l w s)) = activities s"
  "memberships (snd (allow_action u a l w s)) = memberships s"
  "join_votes (snd (allow_action u a l w s)) = join_votes s"
  "groups (snd (allow_action u a l w s)) = groups s"
  "group_memberships (snd (allow_action u a l w s)) = group_memberships s"
  by (use allow_action_eq [of u a l w s] in auto)

lemma allow_action_frame_more [simp]:
  "venue_classes (snd (allow_action u a l w s)) = venue_classes s"
  "approved_venues (snd (allow_action u a l w s)) = approved_venues s"
  "closure_reports (snd (allow_action u a l w s)) = closure_reports s"
  "threads (snd (allow_action u a l w s)) = threads s"
  "gauges (snd (allow_action u a l w s)) = gauges s"
  "interested (snd (allow_action u a l w s)) = interested s"
  "connections (snd (allow_action u a l w s)) = connections s"
  by (use allow_action_eq [of u a l w s] in auto)

lemma allow_action_extends [intro]: "log_extends s (snd (allow_action u a l w s))"
  by (rule log_extends_same) simp_all

lemma notify_extends [intro]: "log_extends s (snd (notify r k ti b u s))"
  by (rule log_extends_same) simp_all

lemma notify_each_extends [intro]: "log_extends s (snd (notify_each rs k ti b u s))"
  by (rule log_extends_same) simp_all

lemma notify_reporter_extends [intro]: "log_extends s (notify_reporter r ti b s)"
  by (auto simp: notify_reporter_def split: option.splits)

lemma notify_reporter_reports [simp]: "reports (notify_reporter r ti b s) = reports s"
  by (simp add: notify_reporter_def split: option.splits)

lemma notify_reporter_clock [simp]:
  "clock (notify_reporter r ti b s) = clock s" "conf (notify_reporter r ti b s) = conf s"
  by (simp_all add: notify_reporter_def split: option.splits)

lemma file_report_fst [simp]:
  "rp_reporter (fst (file_report r tg re d s)) = r"
  "rp_target_type (fst (file_report r tg re d s)) = fst tg"
  "rp_target_id (fst (file_report r tg re d s)) = snd tg"
  "rp_reason (fst (file_report r tg re d s)) = re"
  "rp_detail (fst (file_report r tg re d s)) = d"
  "rp_status (fst (file_report r tg re d s)) = ROpen"
  "rp_created_at (fst (file_report r tg re d s)) = clock s"
  by (simp_all add: file_report_def Let_def)

lemma file_report_reports [simp]:
  "reports (snd (file_report r tg re d s)) = reports s @ [fst (file_report r tg re d s)]"
  "clock (snd (file_report r tg re d s)) = clock s"
  "conf (snd (file_report r tg re d s)) = conf s"
  by (simp_all add: file_report_def Let_def)

lemma file_report_extends [intro]: "log_extends s (snd (file_report r tg re d s))"
  by (auto simp: file_report_def Let_def
      intro: log_extends_trans [OF log_extends_record_audit [OF log_extends_same] notify_reporter_extends])

lemma file_report_frame [simp]:
  "lib (snd (file_report r tg re d s)) = lib s" "cache (snd (file_report r tg re d s)) = cache s"
  "users (snd (file_report r tg re d s)) = users s"
  "assurances (snd (file_report r tg re d s)) = assurances s"
  "consents (snd (file_report r tg re d s)) = consents s"
  "bindings (snd (file_report r tg re d s)) = bindings s"
  "banned_ids (snd (file_report r tg re d s)) = banned_ids s"
  "guardianships (snd (file_report r tg re d s)) = guardianships s"
  "guardrails (snd (file_report r tg re d s)) = guardrails s"
  "invites (snd (file_report r tg re d s)) = invites s"
  "blocks (snd (file_report r tg re d s)) = blocks s"
  "preferences (snd (file_report r tg re d s)) = preferences s"
  "pubkeys (snd (file_report r tg re d s)) = pubkeys s"
  "conversations (snd (file_report r tg re d s)) = conversations s"
  "participants (snd (file_report r tg re d s)) = participants s"
  "messages (snd (file_report r tg re d s)) = messages s"
  "message_keys (snd (file_report r tg re d s)) = message_keys s"
  "verifications (snd (file_report r tg re d s)) = verifications s"
  "categories (snd (file_report r tg re d s)) = categories s"
  "activity_types (snd (file_report r tg re d s)) = activity_types s"
  "places (snd (file_report r tg re d s)) = places s"
  "proposals (snd (file_report r tg re d s)) = proposals s"
  "confirmations (snd (file_report r tg re d s)) = confirmations s"
  "activities (snd (file_report r tg re d s)) = activities s"
  "memberships (snd (file_report r tg re d s)) = memberships s"
  "join_votes (snd (file_report r tg re d s)) = join_votes s"
  "groups (snd (file_report r tg re d s)) = groups s"
  "group_memberships (snd (file_report r tg re d s)) = group_memberships s"
  by (simp_all add: file_report_def Let_def notify_reporter_def split: option.splits)

lemma file_report_frame_more [simp]:
  "venue_classes (snd (file_report r tg re d s)) = venue_classes s"
  "approved_venues (snd (file_report r tg re d s)) = approved_venues s"
  "closure_reports (snd (file_report r tg re d s)) = closure_reports s"
  "threads (snd (file_report r tg re d s)) = threads s"
  "gauges (snd (file_report r tg re d s)) = gauges s"
  "interested (snd (file_report r tg re d s)) = interested s"
  "connections (snd (file_report r tg re d s)) = connections s"
  by (simp_all add: file_report_def Let_def notify_reporter_def split: option.splits)

lemma file_report_seq: "seq s \<le> seq (snd (file_report r tg re d s))"
proof (cases r)
  case (Some i)
  show ?thesis
    unfolding file_report_def Let_def notify_reporter_def Some
    by (simp del: One_nat_def) (rule order.trans [OF _ notify_seq], simp)
qed (simp add: file_report_def Let_def notify_reporter_def)

lemma notify_each_delivers:
  assumes "k = Moderation \<or> k = System"
  shows "r \<in> set rs \<Longrightarrow> \<exists>n \<in> set (notifications (snd (notify_each rs k ti b u s))).
    nt_recipient n = r \<and> nt_kind n = k \<and> nt_title n = ti"
proof (induction rs arbitrary: s)
  case (Cons x xs)
  have keep: "set (notifications t) \<subseteq> set (notifications (snd (notify_each xs k ti b u t)))" for t
  proof (induction xs arbitrary: t)
    case (Cons y ys)
    have "set (notifications t) \<subseteq> set (notifications (snd (notify y k ti b u t)))"
      by (auto simp: notify_def Let_def)
    with Cons.IH show ?case by fastforce
  qed simp
  show ?case
  proof (cases "r = x")
    case True
    with notify_non_mutable [OF assms, of r ti b u s] keep show ?thesis by fastforce
  next
    case False
    with Cons show ?thesis by simp
  qed
qed simp

lemma unsafe_recipients_set:
  "set (unsafe_recipients s c) = {g. is_guardian_of s g c \<and> \<not> is_blocked s c g}"
  by (auto simp: unsafe_recipients_def is_guardian_of_active blocked_user_ids_iff)

lemma alert_unsafe_extends [intro]: "log_extends s (snd (alert_guardians_unsafe c s))"
  by (auto simp: alert_guardians_unsafe_def Let_def)

lemma alert_moderation_extends [intro]: "log_extends s (snd (alert_guardians_of_moderation ms s))"
  by (auto simp: alert_guardians_of_moderation_def Let_def)

text \<open>The branch of \<open>file_unsafe_report\<close> that files a report.\<close>

definition fresh_unsafe_state :: "user \<Rightarrow> id \<Rightarrow> db \<Rightarrow> db" where
  "fresh_unsafe_state u aid s =
     snd (file_report (Some (u_id u)) (''social.activity'', aid) OffPlatform unsafe_sentinel
       (snd (allow_action (u_id u) ''unsafe_report'' (st_unsafe_limit (conf s))
              (st_unsafe_window (conf s)) s)))"

lemma file_unsafe_report_cases:
  assumes "file_unsafe_report u aid s = returned res t"
  obtains (repeat) r where "recent_unsafe s (u_id u) aid = Some r" "t = s"
      "rp_status r \<in> {ROpen, RReviewing} \<or> clock s - seconds (st_unsafe_cooldown (conf s)) \<le> rp_created_at r"
      "res = \<lparr> ur_report = r, ur_alerted = 0, ur_repeat = True \<rparr>"
    | (fresh) "ur_repeat res = False"
      "t = (if u_cohort u = Child then snd (alert_guardians_unsafe u (fresh_unsafe_state u aid s))
            else fresh_unsafe_state u aid s)"
  using assms
  by (auto simp: file_unsafe_report_def fresh_unsafe_state_def Let_def
      split: option.splits if_splits prod.splits)

section \<open>Properties\<close>

text \<open>Attempts of one user at one action, each at its own time.\<close>

fun attempts :: "id \<Rightarrow> string \<Rightarrow> int \<Rightarrow> int \<Rightarrow> time list \<Rightarrow> db \<Rightarrow> bool list" where
  "attempts u a l w [] s = []"
| "attempts u a l w (t # ts) s =
     (let (ok, s1) = allow_action u a l w (s\<lparr> clock := t \<rparr>) in ok # attempts u a l w ts s1)"

lemma attempts_in_window:
  "cache s (a, u) = Some (n, e) \<Longrightarrow> 0 < l \<Longrightarrow> \<forall>t \<in> set ts. t < e \<Longrightarrow>
   attempts u a l w ts s = map (\<lambda>i. int i \<le> l) [Suc n..<Suc n + length ts]"
proof (induction ts arbitrary: s n)
  case (Cons t ts)
  let ?s = "s\<lparr> cache := (cache s)((a, u) \<mapsto> (Suc n, e)), clock := t \<rparr>"
  have "allow_action u a l w (s\<lparr> clock := t \<rparr>) = (int (Suc n) \<le> l, ?s)"
    using Cons.prems by (simp add: allow_action_def cache_live_def)
  moreover have "attempts u a l w ts ?s = map (\<lambda>i. int i \<le> l) [Suc (Suc n)..<Suc (Suc n) + length ts]"
    by (rule Cons.IH) (use Cons.prems in simp_all)
  moreover have "[Suc n..<Suc n + length (t # ts)] = Suc n # [Suc (Suc n)..<Suc (Suc n) + length ts]"
    using upt_conv_Cons [of "Suc n" "Suc n + length (t # ts)"] by (simp del: upt_Suc)
  ultimately show ?case by simp
qed simp

text \<open>
  The fixed-window rate limiter: from an expired or missing window, whatever the times of the
  attempts inside the window that the first attempt opens, exactly the first \<open>limit\<close> of them are
  allowed and every later one is refused.
\<close>

theorem rate_window_exact:
  assumes "cache_live (s\<lparr> clock := t \<rparr>) (a, u) = None" and "0 < limit"
    and "\<forall>x \<in> set ts. x < t + seconds window"
  shows "attempts u a limit window (t # ts) s =
    map (\<lambda>i. int i < limit) [0..<Suc (length ts)]"
proof -
  let ?s = "s\<lparr> cache := (cache s)((a, u) \<mapsto> (1, t + seconds window)), clock := t \<rparr>"
  have "allow_action u a limit window (s\<lparr> clock := t \<rparr>) = (True, ?s)"
    using assms(1,2) by (simp add: allow_action_def)
  moreover have "attempts u a limit window ts ?s =
      map (\<lambda>i. int i \<le> limit) [Suc 1..<Suc 1 + length ts]"
    by (rule attempts_in_window) (use assms(2,3) in simp_all)
  moreover have "map (\<lambda>i. int i < limit) [0..<Suc (length ts)] =
      True # map (\<lambda>i. int i \<le> limit) [Suc 1..<Suc 1 + length ts]"
    using assms(2) upt_conv_Cons [of 0 "Suc (length ts)"]
    by (auto simp: map_Suc_upt [symmetric] simp del: upt_Suc map_Suc_upt)
  ultimately show ?thesis by simp
qed

theorem rate_window_exact_witness:
  "attempts 7 ''unsafe_report'' 2 60 [0, 1000000, 2000000] (empty_db toy_lib) = [True, True, False]"
  using rate_window_exact [where s = "empty_db toy_lib" and t = 0 and a = "''unsafe_report''" and u = 7
      and limit = 2 and ts = "[1000000, 2000000]" and window = 60]
  by (simp add: cache_live_def empty_db_def seconds_def upt_rec)

text \<open>
  The one-tap unsafe report is idempotent: after a successful tap, a second tap by the same
  user on the same activity at the same moment changes nothing at all - it files no report, alerts
  no guardian and spends no rate-limit budget - and says that it is a repeat.
\<close>

theorem unsafe_report_idempotent:
  assumes "file_unsafe_report u aid s = returned res t" and "0 \<le> st_unsafe_cooldown (conf s)"
  shows "\<exists>r. file_unsafe_report u aid t =
    returned \<lparr> ur_report = r, ur_alerted = 0, ur_repeat = True \<rparr> t"
  using assms(1)
proof (cases rule: file_unsafe_report_cases)
  case (repeat r)
  then show ?thesis by (auto simp: file_unsafe_report_def Let_def)
next
  case fresh
  let ?s1 = "snd (allow_action (u_id u) ''unsafe_report'' (st_unsafe_limit (conf s))
      (st_unsafe_window (conf s)) s)"
  let ?r = "fst (file_report (Some (u_id u)) (''social.activity'', aid) OffPlatform unsafe_sentinel ?s1)"
  have t: "clock t = clock s" "conf t = conf s" "reports t = reports s @ [?r]"
    using fresh by (simp_all add: fresh_unsafe_state_def alert_guardians_unsafe_def Let_def)
  have mine: "?r \<in> set (filter (is_unsafe_report (u_id u) aid) (reports t))"
    by (simp add: t is_unsafe_report_def)
  then have "recent_unsafe t (u_id u) aid \<noteq> None"
    unfolding recent_unsafe_def latest_row_None by (metis empty_iff list.set(1))
  then obtain q where q: "recent_unsafe t (u_id u) aid = Some q"
    by blast
  have "rp_created_at ?r \<le> rp_created_at q"
    using latest_row_max [OF q [unfolded recent_unsafe_def]] mine by blast
  then have "clock t - seconds (st_unsafe_cooldown (conf t)) \<le> rp_created_at q"
    using assms(2) t by (simp add: seconds_def)
  with q show ?thesis by (simp add: file_unsafe_report_def Let_def)
qed

definition sample_child :: user where
  "sample_child = \<lparr> u_id = 2, u_public_id = ''c'', u_username = ''kid'', u_display_name = [],
     u_age_band = Under16, u_cohort = Child, u_verified = True, u_verified_at = Some 0,
     u_role = RUser, u_active = True, u_staff = False, u_superuser = False, u_joined = 0 \<rparr>"

definition sample_parent :: user where
  "sample_parent = \<lparr> u_id = 1, u_public_id = ''p'', u_username = ''mum'', u_display_name = [],
     u_age_band = BandAdult, u_cohort = Adult, u_verified = True, u_verified_at = Some 0,
     u_role = RUser, u_active = True, u_staff = False, u_superuser = False, u_joined = 0 \<rparr>"

definition family_db :: db where
  "family_db = (empty_db toy_lib)\<lparr> seq := 10, users := [sample_parent, sample_child],
     guardianships := [\<lparr> gr_id = 3, gr_guardian = 1, gr_ward = 2, gr_relationship = ''parent'',
                         gr_status = LActive, gr_consent = None \<rparr>],
     consents := [\<lparr> pc_id = 4, pc_minor = 2, pc_guardian = ''p'', pc_status = CActive, pc_scope = [],
                   pc_granted_at = Some 0, pc_expires_at = None, pc_revoked_at = None,
                   pc_notice = RnNone \<rparr>],
     preferences := [\<lparr> np_user = 1, np_muted = [''system'', ''arrival''] \<rparr>] \<rparr>"

lemmas sample_defs = family_db_def sample_child_def sample_parent_def empty_db_def toy_lib_def
  default_settings_def

lemma fresh_unsafe_frame [simp]:
  "guardianships (fresh_unsafe_state u aid s) = guardianships s"
  "blocks (fresh_unsafe_state u aid s) = blocks s"
  by (simp_all add: fresh_unsafe_state_def file_report_def Let_def notify_reporter_def)

lemma unsafe_recipients_cong:
  "guardianships s = guardianships t \<Longrightarrow> blocks s = blocks t \<Longrightarrow>
   unsafe_recipients s c = unsafe_recipients t c"
  by (simp add: unsafe_recipients_def active_guardians_def blocked_user_ids_def)

lemma file_unsafe_report_child:
  assumes "recent_unsafe s (u_id u) aid = None" and "u_cohort u = Child"
    and "fst (allow_action (u_id u) ''unsafe_report'' (st_unsafe_limit (conf s))
      (st_unsafe_window (conf s)) s)"
  shows "\<exists>r. file_unsafe_report u aid s =
    returned \<lparr> ur_report = r, ur_alerted = length (unsafe_recipients s (u_id u)), ur_repeat = False \<rparr>
      (snd (alert_guardians_unsafe u (fresh_unsafe_state u aid s)))"
proof -
  have "unsafe_recipients (fresh_unsafe_state u aid s) (u_id u) = unsafe_recipients s (u_id u)"
    by (rule unsafe_recipients_cong) simp_all
  with assms show ?thesis
    by (simp add: file_unsafe_report_def Let_def fresh_unsafe_state_def alert_guardians_unsafe_def
        case_prod_beta)
qed

lemma family_unsafe:
  "\<exists>r. file_unsafe_report sample_child 5 family_db =
     returned \<lparr> ur_report = r, ur_alerted = 1, ur_repeat = False \<rparr>
       (snd (alert_guardians_unsafe sample_child (fresh_unsafe_state sample_child 5 family_db)))"
  using file_unsafe_report_child [of family_db sample_child 5]
  by (simp add: sample_defs recent_unsafe_def allow_action_def cache_live_def
      unsafe_recipients_def active_guardians_def blocked_user_ids_def)

theorem unsafe_report_idempotent_witness:
  "\<exists>res t r. file_unsafe_report sample_child 5 family_db = returned res t \<and> ur_alerted res = 1 \<and>
     file_unsafe_report sample_child 5 t =
       returned \<lparr> ur_report = r, ur_alerted = 0, ur_repeat = True \<rparr> t"
proof -
  have "0 \<le> st_unsafe_cooldown (conf family_db)" by (simp add: sample_defs)
  with unsafe_report_idempotent [of sample_child 5 family_db] family_unsafe show ?thesis
    by fastforce
qed

text \<open>
  C7: A child who presses the unsafe button reaches every adult who can help: on the report that
  is filed, each guardian with an active link who is not in a block with the child has the safety
  alert in the inbox, whatever kinds that guardian has muted.
\<close>

theorem unsafe_report_reaches_guardians:
  assumes "file_unsafe_report u aid s = returned res t" and "\<not> ur_repeat res"
    and "u_cohort u = Child" and "is_guardian_of s g (u_id u)" and "\<not> is_blocked s (u_id u) g"
  shows "\<exists>n \<in> set (notifications t).
    nt_recipient n = g \<and> nt_kind n = System \<and> nt_title n = unsafe_guardian_title"
proof -
  let ?f = "fresh_unsafe_state u aid s"
  have t: "t = snd (alert_guardians_unsafe u ?f)"
    using assms(1-3) by (auto elim!: file_unsafe_report_cases)
  have "g \<in> set (unsafe_recipients ?f (u_id u))"
    using assms(4,5) by (simp add: unsafe_recipients_set is_guardian_of_def is_blocked_def)
  then show ?thesis
    unfolding t alert_guardians_unsafe_def Let_def by (simp add: notify_each_delivers)
qed

theorem unsafe_report_reaches_guardians_witness:
  "\<exists>res t. file_unsafe_report sample_child 5 family_db = returned res t \<and>
     ''system'' \<in> get_muted_kinds family_db 1 \<and>
     (\<exists>n \<in> set (notifications t).
        nt_recipient n = 1 \<and> nt_kind n = System \<and> nt_title n = unsafe_guardian_title)"
proof -
  have g: "u_cohort sample_child = Child" "is_guardian_of family_db 1 (u_id sample_child)"
    "\<not> is_blocked family_db (u_id sample_child) 1"
    by (simp_all add: sample_defs is_guardian_of_def is_blocked_def)
  have "''system'' \<in> get_muted_kinds family_db 1"
    by (simp add: get_muted_kinds_def pref_row_def sample_defs)
  with unsafe_report_reaches_guardians [OF _ _ g] family_unsafe show ?thesis
    by fastforce
qed

end
