(* ===== verification/Messaging.thy ===== *)
theory Messaging
  imports Safety
begin

text \<open>
  apps/messaging/services.py: the key registry, the contact gate, conversations and their
  membership lifecycle, guardian observers, disappearing messages and the ciphertext write and read
  paths. \<open>conversation\<close> and \<open>user\<close> arguments are the model instances the code is handed;
  a new row's id is the next value of the sequence. Every service returns an \<open>outcome\<close>.
\<close>

datatype messaging_error = MessagingError string

section \<open>Key registry\<close>

definition jobj_get :: "(string \<times> json) list \<Rightarrow> string \<Rightarrow> json option" where
  "jobj_get kvs k = map_of kvs k"

definition truthy :: "json \<Rightarrow> bool" where
  "truthy j = (case j of JNull \<Rightarrow> False | JBool b \<Rightarrow> b | JInt i \<Rightarrow> i \<noteq> 0 | JStr x \<Rightarrow> x \<noteq> []
     | JList xs \<Rightarrow> xs \<noteq> [] | JObj kvs \<Rightarrow> kvs \<noteq> [])"

definition looks_like_public_jwk :: "json \<Rightarrow> bool" where
  "looks_like_public_jwk j = (case j of
     JObj kvs \<Rightarrow> jobj_get kvs ''kty'' \<in> {Some (JStr ''EC''), Some (JStr ''OKP'')} \<and>
                jobj_get kvs ''d'' = None \<and>
                (case jobj_get kvs ''x'' of None \<Rightarrow> False | Some x \<Rightarrow> truthy x)
   | _ \<Rightarrow> False)"

definition is_object :: "json \<Rightarrow> bool" where
  "is_object j = (case j of JObj _ \<Rightarrow> True | _ \<Rightarrow> False)"

definition register_public_key ::
  "user \<Rightarrow> json \<Rightarrow> string \<Rightarrow> json option \<Rightarrow> string \<Rightarrow> db \<Rightarrow> (messaging_error, pubkey, db) outcome" where
  "register_public_key u jwk algorithm wrapped key_id s =
     (if \<not> can_participate s u
      then raised (MessagingError ''Complete age verification (and parental consent if under 16) before setting up secure messaging.'') s
      else if \<not> looks_like_public_jwk jwk
      then raised (MessagingError ''A valid public JWK (without private material) is required.'') s
      else if (case wrapped of None \<Rightarrow> False | Some w \<Rightarrow> \<not> is_object w)
      then raised (MessagingError ''wrapped_private_jwk must be an opaque object or omitted.'') s
      else let k = \<lparr> pk_id = seq s, pk_user = u_id u, pk_algorithm = algorithm, pk_jwk = jwk,
                     pk_wrapped = wrapped, pk_active = True, pk_created_at = clock s \<rparr>;
               s1 = s\<lparr> pubkeys := update_rows (\<lambda>k. pk_user k = u_id u \<and> pk_active k)
                                   (\<lambda>k. k\<lparr> pk_active := False \<rparr>) (pubkeys s) @ [k],
                       seq := Suc (seq s) \<rparr>
           in returned k (record_audit ''messaging.key_registered'' (Some (u_id u)) None
                            [(''key_id'', JStr key_id)] s1))"

definition public_key_for :: "db \<Rightarrow> id \<Rightarrow> pubkey option" where
  "public_key_for s uid = List.find (\<lambda>k. pk_user k = uid \<and> pk_active k) (pubkeys s)"

section \<open>Key verification\<close>

definition key_fingerprint :: "prims \<Rightarrow> json \<Rightarrow> string" where
  "key_fingerprint p jwk = take 32 (sha256 p (json_dumps jwk))"

definition can_message :: "db \<Rightarrow> user \<Rightarrow> user \<Rightarrow> bool" where
  "can_message s initiator target =
     (if u_id initiator = u_id target then False
      else if \<not> u_active target then False
      else if u_cohort initiator = Unassigned \<or> u_cohort target = Unassigned then False
      else if u_cohort initiator \<noteq> u_cohort target then False
      else if \<not> can_participate s initiator \<or> \<not> can_participate s target then False
      else if is_blocked s (u_id initiator) (u_id target) then False
      else True)"

definition cannot_start :: messaging_error where
  "cannot_start = MessagingError ''You cannot start a conversation with this user.''"

definition record_key_verification ::
  "user \<Rightarrow> user \<Rightarrow> string \<Rightarrow> db \<Rightarrow> (messaging_error, unit, db) outcome" where
  "record_key_verification verifier subject fingerprint s =
     (if \<not> can_message s verifier subject then raised cannot_start s
      else case public_key_for s (u_id subject) of
        None \<Rightarrow> raised (MessagingError ''That user has no active key to verify.'') s
      | Some k \<Rightarrow>
          let current = key_fingerprint (lib s) (pk_jwk k);
              mine = (\<lambda>v. kv_verifier v = u_id verifier \<and> kv_subject v = u_id subject)
          in if fingerprint \<noteq> current
             then raised (MessagingError (''Fingerprint does not match the user'' @ [CHR 0x27] @ ''s current key.'')) s
             else returned () (record_audit ''messaging.key_verified'' (Some (u_id verifier))
                    (Some (''accounts.user'', u_id subject)) []
                    (if \<exists>v \<in> set (verifications s). mine v
                     then s\<lparr> verifications := update_rows mine (\<lambda>v. v\<lparr> kv_fingerprint := current \<rparr>)
                                                (verifications s) \<rparr>
                     else s\<lparr> verifications := verifications s @
                               [\<lparr> kv_id = seq s, kv_verifier = u_id verifier,
                                  kv_subject = u_id subject, kv_fingerprint = current \<rparr>],
                             seq := Suc (seq s) \<rparr>)))"

definition verification_status :: "db \<Rightarrow> id \<Rightarrow> id \<Rightarrow> string option \<times> bool" where
  "verification_status s viewer subject =
     (case public_key_for s subject of
        None \<Rightarrow> (None, False)
      | Some k \<Rightarrow>
          let fp = key_fingerprint (lib s) (pk_jwk k)
          in (Some fp, \<exists>v \<in> set (verifications s).
                kv_verifier v = viewer \<and> kv_subject v = subject \<and> kv_fingerprint v = fp))"

section \<open>Participants and guardian observers\<close>

definition participant_of :: "db \<Rightarrow> id \<Rightarrow> id \<Rightarrow> participant option" where
  "participant_of s cid uid = List.find (\<lambda>p. pt_conv p = cid \<and> pt_user p = uid) (participants s)"

definition set_participant :: "id \<Rightarrow> (participant \<Rightarrow> participant) \<Rightarrow> db \<Rightarrow> db" where
  "set_participant pid f s =
     s\<lparr> participants := update_rows (\<lambda>p. pt_id p = pid) f (participants s) \<rparr>"

definition add_row :: "id \<Rightarrow> id \<Rightarrow> part_state \<Rightarrow> part_role \<Rightarrow> id option \<Rightarrow> time option \<Rightarrow> db \<Rightarrow> db" where
  "add_row cid uid st role inviter since s =
     s\<lparr> participants := participants s @
          [\<lparr> pt_id = seq s, pt_conv = cid, pt_user = uid, pt_state = st, pt_role = role,
             pt_invited_by = inviter, pt_joined_at = since \<rparr>],
        seq := Suc (seq s) \<rparr>"

definition ward_ids :: "db \<Rightarrow> id \<Rightarrow> id set" where
  "ward_ids s g = gr_ward ` {r \<in> set (guardianships s). gr_guardian r = g \<and> gr_status r = LActive}"

definition child_wards_in :: "db \<Rightarrow> id \<Rightarrow> id \<Rightarrow> participant list" where
  "child_wards_in s g cid =
     filter (\<lambda>p. pt_conv p = cid \<and> pt_user p \<in> ward_ids s g \<and> pt_state p = PActive \<and>
                 has_cohort_row s (pt_user p) Child) (participants s)"

text \<open>Ending the observers of a list that have no child ward left in their conversation.\<close>

fun end_orphans :: "participant list \<Rightarrow> db \<Rightarrow> nat \<times> db" where
  "end_orphans [] s = (0, s)"
| "end_orphans (g # gs) s =
     (if child_wards_in s (pt_user g) (pt_conv g) = []
      then let (n, t) = end_orphans gs
                 (record_audit ''messaging.guardian_observer_ended'' (Some (pt_user g)) None
                    [(''conversation_id'', JInt (int (pt_conv g)))]
                    (set_participant (pt_id g) (\<lambda>p. p\<lparr> pt_state := PRemoved \<rparr>) s))
           in (Suc n, t)
      else end_orphans gs s)"

definition prune_orphaned_guardians :: "id \<Rightarrow> db \<Rightarrow> nat \<times> db" where
  "prune_orphaned_guardians cid s =
     end_orphans (filter (\<lambda>p. pt_conv p = cid \<and> pt_role p = PGuardian \<and> pt_state p = PActive)
                   (participants s)) s"

definition drop_guardian_observers_for :: "id \<Rightarrow> id \<Rightarrow> db \<Rightarrow> nat \<times> db" where
  "drop_guardian_observers_for g w s =
     end_orphans (filter (\<lambda>p. pt_user p = g \<and> pt_role p = PGuardian \<and> pt_state p = PActive)
                   (participants s)) s"

fun prune_each :: "id list \<Rightarrow> db \<Rightarrow> db" where
  "prune_each [] s = s"
| "prune_each (c # cs) s = prune_each cs (snd (prune_orphaned_guardians c s))"

definition in_touch :: "participant \<Rightarrow> bool" where
  "in_touch p \<longleftrightarrow> pt_state p = PActive \<or> pt_state p = PInvited"

definition remove_user_from_conversations :: "id \<Rightarrow> string \<Rightarrow> db \<Rightarrow> nat \<times> db" where
  "remove_user_from_conversations uid reason s =
     (let affected = map cv_id (sort_key (\<lambda>c. - cv_updated_at c)
            (filter (\<lambda>c. \<exists>p \<in> set (participants s). pt_conv p = cv_id c \<and> pt_user p = uid \<and> in_touch p)
               (conversations s)));
          s1 = s\<lparr> participants := update_rows (\<lambda>p. pt_user p = uid \<and> in_touch p)
                     (\<lambda>p. p\<lparr> pt_state := PRemoved \<rparr>) (participants s) \<rparr>;
          s2 = prune_each affected s1
      in (length affected,
          if affected = [] then s2
          else record_audit ''messaging.participation_revoked'' (Some uid) None
                 [(''count'', JInt (int (length affected))), (''reason'', JStr reason)] s2))"

section \<open>Starting conversations\<close>

definition rate_ok :: "id \<Rightarrow> string \<Rightarrow> int \<Rightarrow> db \<Rightarrow> bool \<times> db" where
  "rate_ok uid action limit s = allow_action uid action limit (st_rate_window (conf s)) s"

definition too_quick :: messaging_error where
  "too_quick = MessagingError ''You are starting conversations too quickly; slow down.''"

definition direct_between :: "db \<Rightarrow> id \<Rightarrow> id \<Rightarrow> conversation option" where
  "direct_between s a b =
     latest_row cv_updated_at (filter (\<lambda>c. cv_kind c = Direct \<and>
       (\<exists>p \<in> set (participants s). pt_conv p = cv_id c \<and> pt_user p = a) \<and>
       (\<exists>p \<in> set (participants s). pt_conv p = cv_id c \<and> pt_user p = b)) (conversations s))"

definition new_conversation :: "conv_kind \<Rightarrow> string \<Rightarrow> user \<Rightarrow> db \<Rightarrow> conversation \<times> db" where
  "new_conversation k title creator s =
     (let c = \<lparr> cv_id = seq s, cv_kind = k, cv_title = title, cv_cohort = u_cohort creator,
               cv_disappearing = 0, cv_creator = Some (u_id creator), cv_created_at = clock s,
               cv_updated_at = clock s \<rparr>
      in (c, s\<lparr> conversations := conversations s @ [c], seq := Suc (seq s) \<rparr>))"

definition start_direct :: "user \<Rightarrow> user \<Rightarrow> db \<Rightarrow> (messaging_error, conversation, db) outcome" where
  "start_direct initiator target s =
     (if \<not> can_message s initiator target then raised cannot_start s
      else case direct_between s (u_id initiator) (u_id target) of
        Some c \<Rightarrow> returned c s
      | None \<Rightarrow>
          let (ok, s1) = rate_ok (u_id initiator) ''messaging_start'' (st_start_limit (conf s)) s
          in if \<not> ok then raised too_quick s1
             else let (c, s2) = new_conversation Direct [] initiator s1;
                      s3 = add_row (cv_id c) (u_id initiator) PActive PAdmin None (Some (clock s)) s2;
                      s4 = add_row (cv_id c) (u_id target) PInvited PMember (Some (u_id initiator)) None s3
                  in returned c (record_audit ''messaging.direct_started'' (Some (u_id initiator))
                       (Some (''accounts.user'', u_id target))
                       [(''conversation_id'', JInt (int (cv_id c)))] s4))"

fun unique_targets :: "id list \<Rightarrow> user list \<Rightarrow> user list" where
  "unique_targets seen [] = []"
| "unique_targets seen (t # ts) =
     (if u_id t \<in> set seen then unique_targets seen ts
      else t # unique_targets (u_id t # seen) ts)"

fun invite_all :: "id \<Rightarrow> id \<Rightarrow> user list \<Rightarrow> db \<Rightarrow> db" where
  "invite_all cid inviter [] s = s"
| "invite_all cid inviter (t # ts) s =
     invite_all cid inviter ts (add_row cid (u_id t) PInvited PMember (Some inviter) None s)"

definition start_group ::
  "user \<Rightarrow> user list \<Rightarrow> string \<Rightarrow> db \<Rightarrow> (messaging_error, conversation, db) outcome" where
  "start_group initiator targets title s =
     (let us = unique_targets [u_id initiator] targets; cap = st_max_group (conf s) in
      if us = [] then raised (MessagingError ''A group needs at least one other member.'') s
      else if length us + 1 > cap
      then raised (MessagingError (''A group can have at most '' @ nat_str cap @ '' members.'')) s
      else if \<exists>t \<in> set us. \<not> can_message s initiator t then raised cannot_start s
      else let (ok, s1) = rate_ok (u_id initiator) ''messaging_start'' (st_start_limit (conf s)) s
           in if \<not> ok then raised too_quick s1
              else let (c, s2) = new_conversation GroupConv (take 120 (strip title)) initiator s1;
                       s3 = add_row (cv_id c) (u_id initiator) PActive PAdmin None (Some (clock s)) s2;
                       s4 = invite_all (cv_id c) (u_id initiator) us s3
                   in returned c (record_audit ''messaging.group_started'' (Some (u_id initiator)) None
                        [(''conversation_id'', JInt (int (cv_id c))),
                         (''invited'', JInt (int (length us)))] s4))"

section \<open>Membership lifecycle\<close>

definition conv_data :: "conversation \<Rightarrow> (string \<times> json) list" where
  "conv_data c = [(''conversation_id'', JInt (int (cv_id c)))]"

definition accept_invite :: "user \<Rightarrow> conversation \<Rightarrow> db \<Rightarrow> (messaging_error, unit, db) outcome" where
  "accept_invite u c s =
     (case participant_of s (cv_id c) (u_id u) of
        None \<Rightarrow> raised (MessagingError ''No pending invitation to accept.'') s
      | Some p \<Rightarrow>
          if pt_state p \<noteq> PInvited then raised (MessagingError ''No pending invitation to accept.'') s
          else if u_cohort u = Unassigned \<or> u_cohort u \<noteq> cv_cohort c
          then raised (MessagingError ''This conversation is not in your cohort.'') s
          else if \<not> can_participate s u
          then raised (MessagingError ''Complete age verification (and parental consent if under 16) first.'') s
          else returned () (record_audit ''messaging.invite_accepted'' (Some (u_id u)) None (conv_data c)
                 (set_participant (pt_id p)
                    (\<lambda>p. p\<lparr> pt_state := PActive, pt_joined_at := Some (clock s) \<rparr>) s)))"

definition decline_invite :: "user \<Rightarrow> conversation \<Rightarrow> db \<Rightarrow> (messaging_error, unit, db) outcome" where
  "decline_invite u c s =
     (case participant_of s (cv_id c) (u_id u) of
        None \<Rightarrow> raised (MessagingError ''No pending invitation to decline.'') s
      | Some p \<Rightarrow>
          if pt_state p \<noteq> PInvited then raised (MessagingError ''No pending invitation to decline.'') s
          else returned () (record_audit ''messaging.invite_declined'' (Some (u_id u)) None (conv_data c)
                 (snd (prune_orphaned_guardians (cv_id c)
                    (set_participant (pt_id p) (\<lambda>p. p\<lparr> pt_state := PDeclined \<rparr>) s)))))"

definition leave :: "user \<Rightarrow> conversation \<Rightarrow> db \<Rightarrow> (messaging_error, unit, db) outcome" where
  "leave u c s =
     (case participant_of s (cv_id c) (u_id u) of
        None \<Rightarrow> raised (MessagingError ''You are not part of this conversation.'') s
      | Some p \<Rightarrow>
          if \<not> in_touch p then raised (MessagingError ''You are not part of this conversation.'') s
          else returned () (record_audit ''messaging.left'' (Some (u_id u)) None (conv_data c)
                 (snd (prune_orphaned_guardians (cv_id c)
                    (set_participant (pt_id p) (\<lambda>p. p\<lparr> pt_state := PLeft \<rparr>) s)))))"

definition add_participant ::
  "user \<Rightarrow> conversation \<Rightarrow> user \<Rightarrow> db \<Rightarrow> (messaging_error, unit, db) outcome" where
  "add_participant actor c target s =
     (let cap = st_max_group (conf s);
          ap = participant_of s (cv_id c) (u_id actor);
          done = (\<lambda>t. returned () (record_audit ''messaging.participant_added'' (Some (u_id actor))
                    (Some (''accounts.user'', u_id target)) (conv_data c) t))
      in
      if cv_kind c \<noteq> GroupConv then raised (MessagingError ''Only group conversations can add members.'') s
      else if (case ap of None \<Rightarrow> True | Some p \<Rightarrow> pt_state p \<noteq> PActive)
      then raised (MessagingError ''Only active members can add others.'') s
      else if (case ap of None \<Rightarrow> True | Some p \<Rightarrow> pt_role p \<noteq> PAdmin)
      then raised (MessagingError ''Only a group admin can add members.'') s
      else if \<not> can_message s actor target then raised cannot_start s
      else if u_cohort target \<noteq> cv_cohort c
      then raised (MessagingError (''Members must share the conversation'' @ [CHR 0x27] @ ''s cohort.'')) s
      else let existing = participant_of s (cv_id c) (u_id target) in
        if (case existing of None \<Rightarrow> False | Some p \<Rightarrow> in_touch p) then returned () s
        else if cap \<le> count_rows (\<lambda>p. pt_conv p = cv_id c \<and> in_touch p) (participants s)
        then raised (MessagingError (''This group is full (max '' @ nat_str cap @ '' members).'')) s
        else (case existing of
            Some p \<Rightarrow> done (set_participant (pt_id p)
               (\<lambda>p. p\<lparr> pt_state := PInvited, pt_invited_by := Some (u_id actor) \<rparr>) s)
          | None \<Rightarrow> done (add_row (cv_id c) (u_id target) PInvited PMember (Some (u_id actor)) None s)))"

definition remove_participant ::
  "user \<Rightarrow> conversation \<Rightarrow> user \<Rightarrow> db \<Rightarrow> (messaging_error, unit, db) outcome" where
  "remove_participant actor c target s =
     (if (case participant_of s (cv_id c) (u_id actor) of
            None \<Rightarrow> True | Some p \<Rightarrow> pt_role p \<noteq> PAdmin \<or> pt_state p \<noteq> PActive)
      then raised (MessagingError ''Only a group admin can remove members.'') s
      else if u_id actor = u_id target
      then raised (MessagingError ''Use leave to exit a conversation.'') s
      else case participant_of s (cv_id c) (u_id target) of
        None \<Rightarrow> raised (MessagingError ''That user is not in the conversation.'') s
      | Some p \<Rightarrow>
          if pt_state p \<in> {PRemoved, PLeft, PDeclined}
          then raised (MessagingError ''That user is not in the conversation.'') s
          else if pt_role p = PGuardian
          then raised (MessagingError ''A guardian observer cannot be removed by another member.'') s
          else returned () (record_audit ''messaging.participant_removed'' (Some (u_id actor))
                 (Some (''accounts.user'', u_id target)) (conv_data c)
                 (snd (prune_orphaned_guardians (cv_id c)
                    (set_participant (pt_id p) (\<lambda>p. p\<lparr> pt_state := PRemoved \<rparr>) s)))))"

definition add_guardian_observer ::
  "user \<Rightarrow> conversation \<Rightarrow> db \<Rightarrow> (messaging_error, unit, db) outcome" where
  "add_guardian_observer g c s =
     (let done = (\<lambda>t. returned () (record_audit ''messaging.guardian_observing'' (Some (u_id g)) None
                    (conv_data c) t)) in
      if u_cohort g \<noteq> Adult \<or> \<not> can_participate s g
      then raised (MessagingError ''Only a verified adult guardian can observe a conversation.'') s
      else if child_wards_in s (u_id g) (cv_id c) = []
      then raised (MessagingError ''You can only observe a conversation your child is part of.'') s
      else if public_key_for s (u_id g) = None
      then raised (MessagingError ''Set up secure messaging (a key) before observing.'') s
      else case participant_of s (cv_id c) (u_id g) of
        Some p \<Rightarrow>
          if pt_state p = PActive then returned () s
          else done (set_participant (pt_id p) (\<lambda>p. p\<lparr> pt_state := PActive, pt_role := PGuardian,
                  pt_joined_at := Some (clock s) \<rparr>) s)
      | None \<Rightarrow> done (add_row (cv_id c) (u_id g) PActive PGuardian None (Some (clock s)) s))"

section \<open>Disappearing messages\<close>

definition disappearing_choices :: "int list" where
  "disappearing_choices = [0, 300, 3600, 86400, 604800, 2592000]"

text \<open>The value has been read as an integer, or not, by \<open>int(seconds)\<close>.\<close>

definition set_disappearing ::
  "user \<Rightarrow> conversation \<Rightarrow> int option \<Rightarrow> db \<Rightarrow> (messaging_error, unit, db) outcome" where
  "set_disappearing actor c secs s =
     (case secs of
        None \<Rightarrow> raised (MessagingError ''Timer must be a number of seconds.'') s
      | Some n \<Rightarrow>
          let ap = participant_of s (cv_id c) (u_id actor) in
          if n \<notin> set disappearing_choices then raised (MessagingError ''Unsupported timer value.'') s
          else if (case ap of None \<Rightarrow> True | Some p \<Rightarrow> pt_state p \<noteq> PActive)
          then raised (MessagingError ''You are not an active member of this conversation.'') s
          else if cv_kind c = GroupConv \<and> (case ap of None \<Rightarrow> True | Some p \<Rightarrow> pt_role p \<noteq> PAdmin)
          then raised (MessagingError ''Only a group admin can change the disappearing timer.'') s
          else returned () (record_audit ''messaging.disappearing_set'' (Some (u_id actor)) None
                 (conv_data c @ [(''seconds'', JInt n)])
                 (s\<lparr> conversations := update_rows (\<lambda>d. cv_id d = cv_id c)
                        (\<lambda>d. d\<lparr> cv_disappearing := nat n, cv_updated_at := clock s \<rparr>)
                        (conversations s) \<rparr>)))"

text \<open>Deleting messages takes their wrapped keys along.\<close>

definition delete_messages :: "(message \<Rightarrow> bool) \<Rightarrow> db \<Rightarrow> nat \<times> db" where
  "delete_messages P s =
     (let gone = filter P (messages s)
      in (length gone,
          s\<lparr> messages := filter (\<lambda>m. \<not> P m) (messages s),
             message_keys := filter (\<lambda>k. mk_message k \<notin> ms_id ` set gone) (message_keys s) \<rparr>))"

fun purge_timed :: "time \<Rightarrow> conversation list \<Rightarrow> db \<Rightarrow> nat \<times> db" where
  "purge_timed now [] s = (0, s)"
| "purge_timed now (c # cs) s =
     (let cutoff = now - seconds (int (cv_disappearing c));
          (n, s1) = delete_messages (\<lambda>m. ms_conv m = cv_id c \<and> ms_created_at m < cutoff) s;
          (k, s2) = purge_timed now cs s1
      in (n + k, s2))"

definition purge_expired_messages :: "time option \<Rightarrow> db \<Rightarrow> nat \<times> db" where
  "purge_expired_messages moment s =
     (let now = (case moment of None \<Rightarrow> clock s | Some t \<Rightarrow> t);
          (n, s1) = purge_timed now (filter (\<lambda>c. 0 < cv_disappearing c) (conversations s)) s;
          keep = st_retention_days (conf s)
      in if keep = 0 then (n, s1)
         else let (k, s2) = delete_messages (\<lambda>m. ms_created_at m < now - days keep) s1
              in (n + k, s2))"

section \<open>Access helpers\<close>

definition is_active_participant :: "db \<Rightarrow> id \<Rightarrow> id \<Rightarrow> bool" where
  "is_active_participant s uid cid \<longleftrightarrow>
     (\<exists>p \<in> set (participants s). pt_conv p = cid \<and> pt_user p = uid \<and> pt_state p = PActive)"

definition can_view :: "db \<Rightarrow> user \<Rightarrow> conversation \<Rightarrow> bool" where
  "can_view s u c =
     (if \<not> u_active u then False
      else case participant_of s (cv_id c) (u_id u) of
        None \<Rightarrow> False
      | Some p \<Rightarrow>
          if pt_state p \<noteq> PActive then False
          else if pt_role p = PGuardian then True
          else if u_cohort u \<noteq> cv_cohort c then False
          else can_participate s u)"

definition active_parts :: "db \<Rightarrow> id \<Rightarrow> participant list" where
  "active_parts s cid = filter (\<lambda>p. pt_conv p = cid \<and> pt_state p = PActive) (participants s)"

definition active_recipient_users :: "db \<Rightarrow> id \<Rightarrow> user list" where
  "active_recipient_users s cid = List.map_filter (\<lambda>p. user_row s (pt_user p)) (active_parts s cid)"

definition conversations_where :: "db \<Rightarrow> (participant \<Rightarrow> bool) \<Rightarrow> conversation list" where
  "conversations_where s P = sort_key (\<lambda>c. - cv_updated_at c)
     (filter (\<lambda>c. \<exists>p \<in> set (participants s). pt_conv p = cv_id c \<and> P p) (conversations s))"

definition conversations_for :: "db \<Rightarrow> id \<Rightarrow> bool \<Rightarrow> conversation list" where
  "conversations_for s uid include_pending =
     conversations_where s (\<lambda>p. pt_user p = uid \<and>
       (pt_state p = PActive \<or> include_pending \<and> pt_state p = PInvited))"

definition guardian_observable_conversations :: "db \<Rightarrow> id \<Rightarrow> conversation list" where
  "guardian_observable_conversations s g =
     conversations_where s (\<lambda>p. pt_user p \<in> ward_ids s g \<and> pt_state p = PActive \<and>
       has_cohort_row s (pt_user p) Child)"

record key_card =
  kc_public_id :: string
  kc_username :: string
  kc_display_name :: string
  kc_role :: part_role
  kc_public_jwk :: json
  kc_fingerprint :: string

definition participant_keys ::
  "db \<Rightarrow> id \<Rightarrow> conversation \<Rightarrow> messaging_error + key_card list" where
  "participant_keys s viewer c =
     (if \<not> is_active_participant s viewer (cv_id c)
      then Inl (MessagingError ''You are not an active member of this conversation.'')
      else Inr (List.map_filter
             (\<lambda>p. case (user_row s (pt_user p), public_key_for s (pt_user p)) of
                    (Some u, Some k) \<Rightarrow>
                      Some \<lparr> kc_public_id = u_public_id u, kc_username = u_username u,
                             kc_display_name = display_or_username u, kc_role = pt_role p,
                             kc_public_jwk = pk_jwk k,
                             kc_fingerprint = key_fingerprint (lib s) (pk_jwk k) \<rparr>
                  | _ \<Rightarrow> None)
             (active_parts s (cv_id c))))"

section \<open>The ciphertext write path\<close>

record recipient_key =
  rk_public_id :: string
  rk_ephemeral :: json
  rk_wrapped :: string
  rk_iv :: string

text \<open>\<open>len(x.encode("utf-8"))\<close> of a string of code points below 256.\<close>

definition utf8_len :: "string \<Rightarrow> nat" where
  "utf8_len x = length x + length (filter (\<lambda>c. 128 \<le> (of_char c :: nat)) x)"

definition active_by_public :: "db \<Rightarrow> id \<Rightarrow> (string \<times> user) list" where
  "active_by_public s cid = map (\<lambda>u. (u_public_id u, u)) (active_recipient_users s cid)"

text \<open>The loop over the provided keys: each addresses an active member, once, and is complete.\<close>

fun address_keys ::
  "(string \<times> user) list \<Rightarrow> string list \<Rightarrow> recipient_key list \<Rightarrow>
   messaging_error + (user \<times> recipient_key) list" where
  "address_keys active provided [] = Inr []"
| "address_keys active provided (rk # rks) =
     (case map_of (rev active) (rk_public_id rk) of
        None \<Rightarrow> Inl (MessagingError ''Message keys must address exactly the active members.'')
      | Some u \<Rightarrow>
          if rk_public_id rk \<in> set provided then Inl (MessagingError ''Duplicate recipient key.'')
          else if \<not> (truthy (rk_ephemeral rk) \<and> rk_wrapped rk \<noteq> [] \<and> rk_iv rk \<noteq> [])
          then Inl (MessagingError ''Each recipient key needs ephemeral_public_jwk, wrapped_key and wrap_iv.'')
          else case address_keys active (rk_public_id rk # provided) rks of
                 Inl e \<Rightarrow> Inl e
               | Inr rows \<Rightarrow> Inr ((u, rk) # rows))"

fun key_rows :: "id \<Rightarrow> id \<Rightarrow> (user \<times> recipient_key) list \<Rightarrow> message_key list" where
  "key_rows mid next [] = []"
| "key_rows mid next ((u, rk) # rows) =
     \<lparr> mk_id = next, mk_message = mid, mk_recipient = u_id u, mk_ephemeral = rk_ephemeral rk,
       mk_wrapped = rk_wrapped rk, mk_iv = rk_iv rk \<rparr> # key_rows mid (Suc next) rows"

definition store_message ::
  "user \<Rightarrow> conversation \<Rightarrow> string \<Rightarrow> string \<Rightarrow> (user \<times> recipient_key) list \<Rightarrow> string \<Rightarrow> db \<Rightarrow>
   message \<times> db" where
  "store_message sender c ciphertext iv rows algorithm s =
     (let m = \<lparr> ms_id = seq s, ms_conv = cv_id c, ms_sender = Some (u_id sender),
               ms_algorithm = algorithm, ms_ciphertext = ciphertext, ms_iv = iv,
               ms_created_at = clock s \<rparr>
      in (m, record_audit ''messaging.message_sent'' (Some (u_id sender)) None
               (conv_data c @ [(''recipients'', JInt (int (length rows)))])
               (s\<lparr> messages := messages s @ [m],
                   message_keys := message_keys s @ key_rows (ms_id m) (Suc (seq s)) rows,
                   conversations := update_rows (\<lambda>d. cv_id d = cv_id c)
                     (\<lambda>d. d\<lparr> cv_updated_at := clock s \<rparr>) (conversations s),
                   seq := Suc (seq s + length rows) \<rparr>)))"

definition post_message ::
  "user \<Rightarrow> conversation \<Rightarrow> string \<Rightarrow> string \<Rightarrow> recipient_key list \<Rightarrow> string \<Rightarrow> db \<Rightarrow>
   (messaging_error, message, db) outcome" where
  "post_message sender c ciphertext iv recipient_keys algorithm s =
     (let sp = participant_of s (cv_id c) (u_id sender); most = st_max_group (conf s) in
      if (case sp of None \<Rightarrow> True | Some p \<Rightarrow> pt_state p \<noteq> PActive)
      then raised (MessagingError ''You are not an active member of this conversation.'') s
      else if (case sp of None \<Rightarrow> False | Some p \<Rightarrow> pt_role p = PGuardian)
      then raised (MessagingError ''Guardian observers can read but not send messages.'') s
      else if u_cohort sender = Unassigned \<or> u_cohort sender \<noteq> cv_cohort c
      then raised (MessagingError ''You can no longer send in this conversation.'') s
      else if \<not> can_participate s sender
      then raised (MessagingError ''Your participation is not currently active.'') s
      else if ciphertext = [] \<or> iv = []
      then raised (MessagingError ''Encrypted content is required.'') s
      else if st_max_ciphertext (conf s) < utf8_len ciphertext
      then raised (MessagingError ''Encrypted content is too large.'') s
      else if most < length recipient_keys
      then raised (MessagingError ''Too many recipients for one message.'') s
      else let (ok, s1) = rate_ok (u_id sender) ''messaging_send'' (st_send_limit (conf s)) s;
               active = active_by_public s1 (cv_id c) in
        if \<not> ok then raised (MessagingError ''You are sending messages too quickly; slow down.'') s1
        else if most < card (set (map fst active))
        then raised (MessagingError ''Too many recipients for one message.'') s1
        else case address_keys active [] recipient_keys of
          Inl e \<Rightarrow> raised e s1
        | Inr rows \<Rightarrow>
            if set (map (\<lambda>r. rk_public_id (snd r)) rows) \<noteq> set (map fst active)
            then raised (MessagingError ''A key must be provided for every active member (including yourself).'') s1
            else let (m, s2) = store_message sender c ciphertext iv rows algorithm s1
                 in returned m s2)"

section \<open>The read path and reports\<close>

definition key_for :: "db \<Rightarrow> id \<Rightarrow> id \<Rightarrow> message_key option" where
  "key_for s mid uid = List.find (\<lambda>k. mk_message k = mid \<and> mk_recipient k = uid) (message_keys s)"

definition by_time :: "message \<Rightarrow> time \<times> id" where
  "by_time m = (ms_created_at m, ms_id m)"

definition newest :: "nat \<Rightarrow> message list \<Rightarrow> message list" where
  "newest limit ms = rev (take limit (rev (sort_key by_time ms)))"

definition messages_for ::
  "user \<Rightarrow> conversation \<Rightarrow> nat \<Rightarrow> id option \<Rightarrow> id option \<Rightarrow> db \<Rightarrow>
   messaging_error + (message \<times> message_key option) list" where
  "messages_for u c limit after_id before_id s =
     (if \<not> can_view s u c
      then Inl (MessagingError ''You are not an active member of this conversation.'')
      else
        let qs = filter (\<lambda>m. ms_conv m = cv_id c \<and> key_for s (ms_id m) (u_id u) \<noteq> None) (messages s);
            given = (\<lambda>i. i \<noteq> None \<and> i \<noteq> Some (0 :: id));
            page =
              (if given before_id
               then case List.find (\<lambda>m. Some (ms_id m) = before_id \<and> ms_conv m = cv_id c) (messages s) of
                      None \<Rightarrow> newest limit qs
                    | Some anchor \<Rightarrow> newest limit (filter (\<lambda>m. by_time m < by_time anchor) qs)
               else if given after_id
               then take limit (sort_key ms_created_at (filter (\<lambda>m. the after_id < ms_id m) qs))
               else newest limit qs)
        in Inr (map (\<lambda>m. (m, key_for s (ms_id m) (u_id u))) page))"

definition id_text :: "id option \<Rightarrow> string" where
  "id_text i = (case i of None \<Rightarrow> ''None'' | Some n \<Rightarrow> nat_str n)"

definition report_message ::
  "user \<Rightarrow> message \<Rightarrow> reason_code \<Rightarrow> string \<Rightarrow> string \<Rightarrow> db \<Rightarrow>
   (messaging_error, report, db) outcome" where
  "report_message reporter m reason detail decrypted s =
     (if \<not> is_active_participant s (u_id reporter) (ms_conv m)
      then raised (MessagingError ''You can only report messages in your own conversations.'') s
      else let excerpt = take 2000 (strip decrypted);
               note = strip detail;
               composed = ''E2EE message report. conversation='' @ nat_str (ms_conv m) @ '' message='' @
                 nat_str (ms_id m) @ '' sender='' @ id_text (ms_sender m) @ ''.'' @ [CHR 0x0A] @
                 ''Reporter-decrypted content:'' @ [CHR 0x0A] @
                 (if excerpt = [] then ''(none provided)'' else excerpt);
               full = (if note = [] then composed else note @ [CHR 0x0A, CHR 0x0A] @ composed);
               (r, s1) = file_report (Some (u_id reporter)) (''messaging.message'', ms_id m) reason full s
           in returned r (record_audit ''messaging.message_reported'' (Some (u_id reporter))
                (Some (''messaging.message'', ms_id m)) [(''reason'', JStr (reason_value reason))] s1))"

end
