(* ===== verification/Messaging_Laws.thy ===== *)
theory Messaging_Laws
  imports Messaging
begin

text \<open>
  The invariant of apps/messaging: who may hold a place in a conversation. Every place is in an
  existing conversation, one per user; a member who is active or invited has the cohort of the
  conversation; a guardian observer is an adult in a children's conversation and, while active, has
  an active child ward there. Every operation keeps it, whatever its arguments.
\<close>

section \<open>The invariant\<close>

definition seat_ok :: "db \<Rightarrow> participant \<Rightarrow> bool" where
  "seat_ok s p \<longleftrightarrow> (\<exists>c \<in> set (conversations s). cv_id c = pt_conv p \<and>
     (if pt_role p = PGuardian
      then cv_cohort c = Child \<and> has_cohort_row s (pt_user p) Adult \<and> pt_state p \<noteq> PInvited
      else in_touch p \<longrightarrow> cv_cohort c \<noteq> Unassigned \<and> has_cohort_row s (pt_user p) (cv_cohort c)))"

definition ward_present :: "db \<Rightarrow> id \<Rightarrow> id \<Rightarrow> bool" where
  "ward_present s g cid \<longleftrightarrow> child_wards_in s g cid \<noteq> []"

definition supervised :: "db \<Rightarrow> participant \<Rightarrow> bool" where
  "supervised s p \<longleftrightarrow>
     (pt_role p = PGuardian \<and> pt_state p = PActive \<longrightarrow> ward_present s (pt_user p) (pt_conv p))"

definition seats_inv :: "db \<Rightarrow> bool" where
  "seats_inv s \<longleftrightarrow> unique_by u_id (users s) \<and> unique_by cv_id (conversations s) \<and>
     unique_by pt_id (participants s) \<and> unique_by (\<lambda>p. (pt_conv p, pt_user p)) (participants s) \<and>
     (\<forall>c \<in> set (conversations s). cv_id c < seq s) \<and> (\<forall>p \<in> set (participants s). pt_id p < seq s) \<and>
     (\<forall>p \<in> set (participants s). seat_ok s p)"

definition messaging_inv :: "db \<Rightarrow> bool" where
  "messaging_inv s \<longleftrightarrow> seats_inv s \<and> (\<forall>p \<in> set (participants s). supervised s p)"

lemma ward_present_iff:
  "ward_present s g cid \<longleftrightarrow> (\<exists>p \<in> set (participants s). pt_conv p = cid \<and>
     pt_user p \<in> ward_ids s g \<and> pt_state p = PActive \<and> has_cohort_row s (pt_user p) Child)"
  by (auto simp: ward_present_def child_wards_in_def filter_empty_conv)

text \<open>What the invariant reads of a state.\<close>

lemma has_cohort_row_cong: "users t = users s \<Longrightarrow> has_cohort_row t = has_cohort_row s"
  by (simp add: has_cohort_row_def fun_eq_iff)

lemma ward_ids_cong: "guardianships t = guardianships s \<Longrightarrow> ward_ids t = ward_ids s"
  by (simp add: ward_ids_def fun_eq_iff)

lemma child_wards_in_cong:
  "users t = users s \<Longrightarrow> guardianships t = guardianships s \<Longrightarrow> participants t = participants s \<Longrightarrow>
   child_wards_in t = child_wards_in s"
  using has_cohort_row_cong [of t s] ward_ids_cong [of t s]
  by (simp add: child_wards_in_def [abs_def])

definition conv_keys :: "db \<Rightarrow> (id \<times> cohort) list" where
  "conv_keys s = map (\<lambda>c. (cv_id c, cv_cohort c)) (conversations s)"

lemma seat_ok_keys:
  "seat_ok s p \<longleftrightarrow> (\<exists>x \<in> set (conv_keys s). fst x = pt_conv p \<and>
     (if pt_role p = PGuardian
      then snd x = Child \<and> has_cohort_row s (pt_user p) Adult \<and> pt_state p \<noteq> PInvited
      else in_touch p \<longrightarrow> snd x \<noteq> Unassigned \<and> has_cohort_row s (pt_user p) (snd x)))"
  by (simp add: seat_ok_def conv_keys_def)

lemma seat_ok_cong: "users t = users s \<Longrightarrow> conv_keys t = conv_keys s \<Longrightarrow> seat_ok t = seat_ok s"
  using has_cohort_row_cong [of t s] by (simp add: seat_ok_keys fun_eq_iff)

lemma conv_keys_inv:
  "unique_by cv_id (conversations s) \<longleftrightarrow> distinct (map fst (conv_keys s))"
  "(\<forall>c \<in> set (conversations s). cv_id c < n) \<longleftrightarrow> (\<forall>x \<in> set (conv_keys s). fst x < n)"
  by (simp_all add: unique_by_def conv_keys_def comp_def)

lemma conv_keys_audit [simp]:
  "conv_keys (record_audit e a tg d s) = conv_keys s"
  "conv_keys (snd (allow_action u ac l w s)) = conv_keys s"
  "conv_keys (set_participant i f s) = conv_keys s"
  "conv_keys (add_row c u st r i' j s) = conv_keys s"
  by (simp_all add: conv_keys_def set_participant_def add_row_def)

lemma supervised_cong:
  "users t = users s \<Longrightarrow> guardianships t = guardianships s \<Longrightarrow> participants t = participants s \<Longrightarrow>
   supervised t = supervised s"
  using child_wards_in_cong [of t s] by (simp add: supervised_def [abs_def] ward_present_def)

lemma seats_inv_cong:
  assumes "users t = users s" "conv_keys t = conv_keys s" "participants t = participants s"
    and "seq s \<le> seq t" and "seats_inv s"
  shows "seats_inv t"
  using assms(5,4) seat_ok_cong [OF assms(1,2)] unfolding seats_inv_def conv_keys_inv
  by (auto simp: assms(1-3) intro: less_le_trans)

lemma messaging_inv_cong:
  assumes "users t = users s" "conv_keys t = conv_keys s" "participants t = participants s"
    and "guardianships t = guardianships s" "seq s \<le> seq t" and "messaging_inv s"
  shows "messaging_inv t"
  using assms(6) seats_inv_cong [OF assms(1-3,5)] supervised_cong [OF assms(1,4,3)]
  by (simp add: messaging_inv_def assms(3))

lemma messaging_inv_record_audit [simp, intro]: "messaging_inv s \<Longrightarrow> messaging_inv (record_audit e a tg d s)"
  by (rule messaging_inv_cong) simp_all

lemma messaging_inv_allow [simp, intro]: "messaging_inv s \<Longrightarrow> messaging_inv (snd (allow_action u a l w s))"
  by (rule messaging_inv_cong) simp_all

lemma cohort_unique:
  "unique_by u_id (users s) \<Longrightarrow> has_cohort_row s i c \<Longrightarrow> has_cohort_row s i d \<Longrightarrow> c = d"
  by (auto simp: has_cohort_row_def dest: unique_byD)

lemma user_row_cohort: "user_row s i = Some u \<Longrightarrow> has_cohort_row s i (u_cohort u)"
  by (auto simp: has_cohort_row_def dest: user_row_SomeD)

section \<open>Updating one seat\<close>

lemma set_participant_frame [simp]:
  "users (set_participant i f s) = users s" "conversations (set_participant i f s) = conversations s"
  "guardianships (set_participant i f s) = guardianships s" "seq (set_participant i f s) = seq s"
  "clock (set_participant i f s) = clock s" "lib (set_participant i f s) = lib s"
  "audit_log (set_participant i f s) = audit_log s" "conf (set_participant i f s) = conf s"
  by (simp_all add: set_participant_def)

lemma set_participant_rows:
  "participants (set_participant i f s) =
     map (\<lambda>p. if pt_id p = i then f p else p) (participants s)"
  by (simp add: set_participant_def update_rows_def)

lemma seats_inv_set:
  assumes "seats_inv s"
    and keep: "\<And>p. pt_id (f p) = pt_id p \<and> pt_conv (f p) = pt_conv p \<and> pt_user (f p) = pt_user p"
    and ok: "\<And>p. p \<in> set (participants s) \<Longrightarrow> pt_id p = i \<Longrightarrow> seat_ok s (f p)"
  shows "seats_inv (set_participant i f s)"
proof -
  have "seat_ok (set_participant i f s) = seat_ok s" by (rule seat_ok_cong) simp_all
  moreover have "unique_by pt_id (participants (set_participant i f s))"
    "unique_by (\<lambda>p. (pt_conv p, pt_user p)) (participants (set_participant i f s))"
    using assms(1) keep by (simp_all add: set_participant_def unique_by_update seats_inv_def)
  ultimately show ?thesis
    using assms(1) ok keep by (auto simp: seats_inv_def set_participant_rows)
qed

lemma ward_present_set:
  assumes keep: "\<And>p. pt_conv (f p) = pt_conv p \<and> pt_user (f p) = pt_user p"
    and st: "\<And>p. p \<in> set (participants s) \<Longrightarrow> pt_id p = i \<Longrightarrow> pt_state p = PActive \<Longrightarrow>
      has_cohort_row s (pt_user p) Child \<Longrightarrow> pt_state (f p) = PActive"
    and "ward_present s g c"
  shows "ward_present (set_participant i f s) g c"
proof -
  let ?t = "set_participant i f s"
  obtain p where p: "p \<in> set (participants s)" "pt_conv p = c" "pt_user p \<in> ward_ids s g"
      "pt_state p = PActive" "has_cohort_row s (pt_user p) Child"
    using assms(3) by (auto simp: ward_present_iff)
  let ?q = "if pt_id p = i then f p else p"
  have "?q \<in> set (participants ?t)" using p(1) by (auto simp: set_participant_rows)
  moreover have "pt_conv ?q = c \<and> pt_user ?q = pt_user p \<and> pt_state ?q = PActive"
    using p keep st by auto
  ultimately show ?thesis
    using p(3,5) has_cohort_row_cong [of ?t s] ward_ids_cong [of ?t s] by (auto simp: ward_present_iff)
qed

lemma messaging_inv_set:
  assumes "messaging_inv s"
    and keep: "\<And>p. pt_id (f p) = pt_id p \<and> pt_conv (f p) = pt_conv p \<and> pt_user (f p) = pt_user p"
    and ok: "\<And>p. p \<in> set (participants s) \<Longrightarrow> pt_id p = i \<Longrightarrow> seat_ok s (f p) \<and> supervised s (f p)"
    and st: "\<And>p. p \<in> set (participants s) \<Longrightarrow> pt_id p = i \<Longrightarrow> pt_state p = PActive \<Longrightarrow> pt_state (f p) = PActive"
  shows "messaging_inv (set_participant i f s)"
proof -
  have w: "ward_present s g c \<Longrightarrow> ward_present (set_participant i f s) g c" for g c
    using keep st by (intro ward_present_set) auto
  have "supervised s q \<Longrightarrow> supervised (set_participant i f s) q" for q
    using w by (auto simp: supervised_def)
  then show ?thesis
    using assms(1) seats_inv_set [of s f i] keep ok
    by (auto simp: messaging_inv_def set_participant_rows)
qed

section \<open>Ending orphaned observers\<close>

lemma end_orphans_frame [simp]:
  "users (snd (end_orphans gs s)) = users s" "conversations (snd (end_orphans gs s)) = conversations s"
  "guardianships (snd (end_orphans gs s)) = guardianships s"
  "clock (snd (end_orphans gs s)) = clock s" "lib (snd (end_orphans gs s)) = lib s"
  "conf (snd (end_orphans gs s)) = conf s"
  by (induction gs s rule: end_orphans.induct) (simp_all add: case_prod_beta Let_def)

definition guardian_seats :: "db \<Rightarrow> participant list \<Rightarrow> bool" where
  "guardian_seats s gs \<longleftrightarrow> distinct (map pt_id gs) \<and>
     (\<forall>g \<in> set gs. g \<in> set (participants s) \<and> pt_role g = PGuardian)"

definition removed_seat :: "participant \<Rightarrow> participant" where
  "removed_seat p = p\<lparr> pt_state := PRemoved \<rparr>"

lemma seat_ok_removed [simp]:
  "seat_ok s p \<Longrightarrow> seat_ok s (removed_seat p)"
  by (fastforce simp: seat_ok_def removed_seat_def in_touch_def)

lemma adult_seat:
  "seats_inv s \<Longrightarrow> p \<in> set (participants s) \<Longrightarrow> pt_role p = PGuardian \<Longrightarrow>
   \<not> has_cohort_row s (pt_user p) Child"
  unfolding seats_inv_def seat_ok_def by (metis cohort.distinct(9) cohort_unique)

lemma ward_present_end_one:
  assumes "seats_inv s" and g: "g \<in> set (participants s)" "pt_role g = PGuardian"
  shows "ward_present (set_participant (pt_id g) removed_seat s) = ward_present s"
proof (intro ext iffI)
  fix h c
  have same: "p = g" if "p \<in> set (participants s)" "pt_id p = pt_id g" for p
    using assms(1) g(1) that by (auto simp: seats_inv_def dest: unique_byD)
  show "ward_present (set_participant (pt_id g) removed_seat s) h c" if "ward_present s h c"
    by (rule ward_present_set [OF _ _ that])
      (use same adult_seat [OF assms] in \<open>auto simp: removed_seat_def\<close>)
  show "ward_present s h c" if "ward_present (set_participant (pt_id g) removed_seat s) h c"
    using that has_cohort_row_cong [of "set_participant (pt_id g) removed_seat s" s]
      ward_ids_cong [of "set_participant (pt_id g) removed_seat s" s]
    by (auto simp: ward_present_iff set_participant_rows removed_seat_def split: if_splits)
qed

lemma ward_present_audit [simp]: "ward_present (record_audit e a tg d s) = ward_present s"
  using child_wards_in_cong [of "record_audit e a tg d s" s] by (simp add: ward_present_def [abs_def])

lemma seats_inv_audit [simp]: "seats_inv s \<Longrightarrow> seats_inv (record_audit e a tg d s)"
  by (rule seats_inv_cong) simp_all

lemma end_orphans_laws:
  "seats_inv s \<Longrightarrow> guardian_seats s gs \<Longrightarrow>
   seats_inv (snd (end_orphans gs s)) \<and> ward_present (snd (end_orphans gs s)) = ward_present s \<and>
   (\<forall>q \<in> set (participants (snd (end_orphans gs s))).
      supervised s q \<or> (q \<in> set (participants s) \<and> q \<notin> set gs))"
proof (induction gs arbitrary: s)
  case Nil
  then show ?case by simp
next
  case (Cons g gs)
  have g: "g \<in> set (participants s)" "pt_role g = PGuardian"
    and fresh: "pt_id g \<notin> pt_id ` set gs"
    using Cons.prems(2) by (auto simp: guardian_seats_def)
  have same: "p = g" if "p \<in> set (participants s)" "pt_id p = pt_id g" for p
    using Cons.prems(1) g(1) that by (auto simp: seats_inv_def dest: unique_byD)
  show ?case
  proof (cases "child_wards_in s (pt_user g) (pt_conv g) = []")
    case True
    define t where "t = record_audit ''messaging.guardian_observer_ended'' (Some (pt_user g)) None
      [(''conversation_id'', JInt (int (pt_conv g)))] (set_participant (pt_id g) removed_seat s)"
    have res: "snd (end_orphans (g # gs) s) = snd (end_orphans gs t)"
      using True by (simp add: t_def case_prod_beta Let_def removed_seat_def [abs_def])
    have w: "ward_present t = ward_present s"
      unfolding t_def using ward_present_end_one [OF Cons.prems(1) g] by simp
    have "seats_inv t"
      unfolding t_def using Cons.prems(1)
      by (intro seats_inv_audit seats_inv_set) (auto simp: seats_inv_def removed_seat_def
          intro: seat_ok_removed [unfolded removed_seat_def])
    moreover have "guardian_seats t gs"
      using Cons.prems(2) fresh same
      by (auto simp: guardian_seats_def t_def set_participant_rows image_iff)
    ultimately have ih: "seats_inv (snd (end_orphans gs t))"
        "ward_present (snd (end_orphans gs t)) = ward_present t"
        "\<forall>q \<in> set (participants (snd (end_orphans gs t))).
           supervised t q \<or> (q \<in> set (participants t) \<and> q \<notin> set gs)"
      using Cons.IH by blast+
    have sup: "supervised t q = supervised s q" for q
      by (simp add: supervised_def w)
    have "supervised s q \<or> q \<in> set (participants s) \<and> q \<notin> set (g # gs)"
      if "q \<in> set (participants t)" "q \<notin> set gs" for q
    proof -
      obtain p where p: "p \<in> set (participants s)" "q = (if pt_id p = pt_id g then removed_seat p else p)"
        using \<open>q \<in> set (participants t)\<close> by (auto simp: t_def set_participant_rows)
      show ?thesis
      proof (cases "pt_id p = pt_id g")
        case True
        with p(2) have "pt_state q \<noteq> PActive" by (simp add: removed_seat_def)
        then show ?thesis by (simp add: supervised_def)
      next
        case False
        with p \<open>q \<notin> set gs\<close> show ?thesis by auto
      qed
    qed
    then show ?thesis
      using ih w sup unfolding res by (metis (no_types))
  next
    case False
    then have "supervised s g"
      by (simp add: supervised_def ward_present_def)
    moreover have "guardian_seats s gs"
      using Cons.prems(2) by (simp add: guardian_seats_def)
    ultimately show ?thesis
      using Cons.IH [OF Cons.prems(1)] False by auto
  qed
qed

lemma end_orphans_inv:
  assumes "seats_inv s" and "guardian_seats s gs"
    and "\<And>q. q \<in> set (participants s) \<Longrightarrow> q \<notin> set gs \<Longrightarrow> supervised s q"
  shows "messaging_inv (snd (end_orphans gs s))"
  using end_orphans_laws [OF assms(1,2)] assms(3)
  unfolding messaging_inv_def supervised_def by metis

lemma guardian_seats_filter:
  "seats_inv s \<Longrightarrow> (\<And>p. P p \<Longrightarrow> pt_role p = PGuardian) \<Longrightarrow> guardian_seats s (filter P (participants s))"
  using unique_by_filter [of pt_id "participants s" P]
  by (auto simp: guardian_seats_def seats_inv_def unique_by_def)

lemma prune_inv:
  assumes "seats_inv s" and "\<And>q. q \<in> set (participants s) \<Longrightarrow> pt_conv q \<noteq> cid \<Longrightarrow> supervised s q"
  shows "messaging_inv (snd (prune_orphaned_guardians cid s))"
  unfolding prune_orphaned_guardians_def
  by (rule end_orphans_inv [OF assms(1) guardian_seats_filter [OF assms(1)]])
    (use assms(2) in \<open>auto simp: supervised_def\<close>)


section \<open>Each way a seat changes\<close>

lemma participant_of_SomeD:
  "participant_of s c u = Some p \<Longrightarrow> p \<in> set (participants s) \<and> pt_conv p = c \<and> pt_user p = u"
  by (auto simp: participant_of_def dest: find_SomeD)

lemma participant_of_None:
  "participant_of s c u = None \<Longrightarrow> p \<in> set (participants s) \<Longrightarrow> \<not> (pt_conv p = c \<and> pt_user p = u)"
  by (auto simp: participant_of_def dest: find_NoneD)

lemma messaging_invD:
  assumes "messaging_inv s"
  shows "seats_inv s" and "p \<in> set (participants s) \<Longrightarrow> seat_ok s p"
    and "p \<in> set (participants s) \<Longrightarrow> supervised s p"
    and "p \<in> set (participants s) \<Longrightarrow> q \<in> set (participants s) \<Longrightarrow> pt_id p = pt_id q \<Longrightarrow> p = q"
  using assms by (auto simp: messaging_inv_def seats_inv_def dest: unique_byD)

lemma leave_seat_inv:
  assumes inv: "messaging_inv s" and p: "p \<in> set (participants s)" "pt_conv p = c"
    and st: "st \<noteq> PActive" "st \<noteq> PInvited"
  shows "messaging_inv (snd (prune_orphaned_guardians c
    (set_participant (pt_id p) (\<lambda>p. p\<lparr> pt_state := st \<rparr>) s)))" (is "messaging_inv (snd (prune_orphaned_guardians c ?t))")
proof (rule prune_inv)
  have "seat_ok s q \<Longrightarrow> seat_ok s (q\<lparr> pt_state := st \<rparr>)" for q
    using st by (fastforce simp: seat_ok_def in_touch_def)
  then show "seats_inv ?t"
    using messaging_invD [OF inv] by (intro seats_inv_set) auto
  fix q assume q: "q \<in> set (participants ?t)" "pt_conv q \<noteq> c"
  have same: "q' = p" if "q' \<in> set (participants s)" "pt_id q' = pt_id p" for q'
    using messaging_invD(4) [OF inv _ p(1)] that by blast
  have "q \<in> set (participants s)"
  proof -
    obtain x where x: "x \<in> set (participants s)"
        "q = (if pt_id x = pt_id p then x\<lparr> pt_state := st \<rparr> else x)"
      using q(1) by (auto simp: set_participant_rows)
    then have "pt_id x \<noteq> pt_id p" using same [of x] q(2) p(2) by auto
    with x show ?thesis by simp
  qed
  then have "supervised s q" by (rule messaging_invD [OF inv])
  moreover have "ward_present ?t (pt_user q) (pt_conv q)" if wp: "ward_present s (pt_user q) (pt_conv q)"
  proof -
    obtain w where w: "w \<in> set (participants s)" "pt_conv w = pt_conv q"
        "pt_user w \<in> ward_ids s (pt_user q)" "pt_state w = PActive" "has_cohort_row s (pt_user w) Child"
      using wp by (auto simp: ward_present_iff)
    have "pt_id w \<noteq> pt_id p" using same w(1,2) p(2) q(2) by metis
    with w(1) have "w \<in> set (participants ?t)" by (force simp: set_participant_rows)
    with w show ?thesis
      using has_cohort_row_cong [of ?t s] ward_ids_cong [of ?t s] by (auto simp: ward_present_iff)
  qed
  ultimately show "supervised ?t q" by (auto simp: supervised_def)
qed

lemma add_row_frame [simp]:
  "users (add_row c u st r i j s) = users s" "conversations (add_row c u st r i j s) = conversations s"
  "guardianships (add_row c u st r i j s) = guardianships s" "lib (add_row c u st r i j s) = lib s"
  "audit_log (add_row c u st r i j s) = audit_log s" "clock (add_row c u st r i j s) = clock s"
  by (simp_all add: add_row_def)

definition new_seat :: "id \<Rightarrow> id \<Rightarrow> id \<Rightarrow> part_state \<Rightarrow> part_role \<Rightarrow> id option \<Rightarrow> time option \<Rightarrow> participant" where
  "new_seat n c u st r i j = \<lparr> pt_id = n, pt_conv = c, pt_user = u, pt_state = st, pt_role = r,
     pt_invited_by = i, pt_joined_at = j \<rparr>"

lemma add_row_participants [simp]:
  "participants (add_row c u st r i j s) = participants s @ [new_seat (seq s) c u st r i j]"
  "seq (add_row c u st r i j s) = Suc (seq s)"
  by (simp_all add: add_row_def new_seat_def)

lemma new_seat_sel [simp]:
  "pt_id (new_seat n c u st r i j) = n" "pt_conv (new_seat n c u st r i j) = c"
  "pt_user (new_seat n c u st r i j) = u" "pt_state (new_seat n c u st r i j) = st"
  "pt_role (new_seat n c u st r i j) = r"
  by (simp_all add: new_seat_def)

lemma add_row_inv:
  assumes inv: "messaging_inv s"
    and fresh: "\<And>p. p \<in> set (participants s) \<Longrightarrow> \<not> (pt_conv p = c \<and> pt_user p = u)"
    and ok: "seat_ok s (new_seat (seq s) c u st r i j)" "supervised s (new_seat (seq s) c u st r i j)"
  shows "messaging_inv (add_row c u st r i j s)" (is "messaging_inv ?t")
proof -
  have mono: "supervised ?t q" if "supervised s q" for q
    using that has_cohort_row_cong [of ?t s] ward_ids_cong [of ?t s]
    by (auto simp: supervised_def ward_present_iff)
  have "seat_ok ?t = seat_ok s" by (rule seat_ok_cong) simp_all
  moreover have "seats_inv s" by (rule messaging_invD [OF inv])
  ultimately have "seats_inv ?t"
    using fresh ok(1) by (auto simp: seats_inv_def less_Suc_eq)
  then show ?thesis
    using mono ok(2) messaging_invD(3) [OF inv] by (auto simp: messaging_inv_def)
qed

lemma new_conversation_inv:
  assumes inv: "messaging_inv s"
  shows "messaging_inv (snd (new_conversation k ti u s))" (is "messaging_inv ?t")
proof -
  have f: "users ?t = users s" "guardianships ?t = guardianships s" "participants ?t = participants s"
    "seq ?t = Suc (seq s)" "conv_keys ?t = conv_keys s @ [(seq s, u_cohort u)]"
    by (simp_all add: new_conversation_def Let_def conv_keys_def)
  have "seat_ok s p \<Longrightarrow> seat_ok ?t p" for p
    using f has_cohort_row_cong [OF f(1)] by (auto simp: seat_ok_keys)
  moreover have "supervised ?t = supervised s" by (rule supervised_cong) (simp_all add: f)
  moreover have "seats_inv s" by (rule messaging_invD [OF inv])
  ultimately show ?thesis
    using messaging_invD(3) [OF inv] unfolding messaging_inv_def seats_inv_def conv_keys_inv f
    by (auto simp: less_Suc_eq)
qed

lemma fresh_conv:
  "messaging_inv s \<Longrightarrow> p \<in> set (participants s) \<Longrightarrow> pt_conv p < seq s"
  by (fastforce simp: messaging_inv_def seats_inv_def seat_ok_def)

lemma fresh_conv_ne: "messaging_inv s \<Longrightarrow> p \<in> set (participants s) \<Longrightarrow> pt_conv p \<noteq> seq s"
  using fresh_conv by fastforce


section \<open>Every operation keeps the invariant\<close>

definition is_row :: "db \<Rightarrow> user \<Rightarrow> bool" where
  "is_row s u \<longleftrightarrow> u \<in> set (users s)"

definition is_conv :: "db \<Rightarrow> conversation \<Rightarrow> bool" where
  "is_conv s c \<longleftrightarrow> c \<in> set (conversations s)"

lemma is_row_cohort: "is_row s u \<Longrightarrow> has_cohort_row s (u_id u) (u_cohort u)"
  by (auto simp: is_row_def has_cohort_row_def)

lemma has_cohort_rowD:
  "messaging_inv s \<Longrightarrow> is_row s u \<Longrightarrow> has_cohort_row s (u_id u) c \<Longrightarrow> u_cohort u = c"
  using cohort_unique is_row_cohort unfolding messaging_inv_def seats_inv_def by blast

lemma seat_ok_member:
  "is_conv s c \<Longrightarrow> r \<noteq> PGuardian \<Longrightarrow> cv_cohort c \<noteq> Unassigned \<Longrightarrow> has_cohort_row s u (cv_cohort c) \<Longrightarrow>
   seat_ok s (new_seat n (cv_id c) u st r i j)"
  by (auto simp: seat_ok_def is_conv_def)

lemma supervised_member [simp]: "r \<noteq> PGuardian \<Longrightarrow> supervised s (new_seat n c u st r i j)"
  by (simp add: supervised_def)

lemma can_message_cohort:
  "can_message s a b \<Longrightarrow> u_id a \<noteq> u_id b \<and> u_cohort a = u_cohort b \<and> u_cohort a \<noteq> Unassigned"
  by (auto simp: can_message_def split: if_splits)

lemma conv_id_eq:
  "messaging_inv s \<Longrightarrow> is_conv s c \<Longrightarrow> d \<in> set (conversations s) \<Longrightarrow> cv_id d = cv_id c \<Longrightarrow> d = c"
  by (auto simp: messaging_inv_def seats_inv_def is_conv_def dest: unique_byD)

lemma accept_invite_inv:
  assumes inv: "messaging_inv s"
  shows "messaging_inv (snd (accept_invite u c s))"
proof -
  have "messaging_inv (set_participant (pt_id p)
      (\<lambda>p. p\<lparr> pt_state := PActive, pt_joined_at := Some (clock s) \<rparr>) s)"
    if "participant_of s (cv_id c) (u_id u) = Some p" "pt_state p = PInvited" for p
  proof (rule messaging_inv_set [OF inv])
    fix q assume q: "q \<in> set (participants s)" "pt_id q = pt_id p"
    then have "q = p" using participant_of_SomeD [OF that(1)] messaging_invD(4) [OF inv] by blast
    then show "seat_ok s (q\<lparr> pt_state := PActive, pt_joined_at := Some (clock s) \<rparr>) \<and>
        supervised s (q\<lparr> pt_state := PActive, pt_joined_at := Some (clock s) \<rparr>)"
      using messaging_invD(2) [OF inv q(1)] that(2)
      by (fastforce simp: seat_ok_def supervised_def in_touch_def)
  qed auto
  then show ?thesis
    using inv by (simp add: accept_invite_def split: option.splits)
qed

lemma decline_invite_inv: "messaging_inv s \<Longrightarrow> messaging_inv (snd (decline_invite u c s))"
  by (auto simp: decline_invite_def split: option.splits dest!: participant_of_SomeD
      intro!: messaging_inv_record_audit leave_seat_inv)

lemma leave_inv: "messaging_inv s \<Longrightarrow> messaging_inv (snd (leave u c s))"
  by (auto simp: leave_def split: option.splits dest!: participant_of_SomeD
      intro!: messaging_inv_record_audit leave_seat_inv)

lemma remove_participant_inv: "messaging_inv s \<Longrightarrow> messaging_inv (snd (remove_participant a c t s))"
  by (auto simp: remove_participant_def split: option.splits dest!: participant_of_SomeD
      intro!: messaging_inv_record_audit leave_seat_inv)

lemma add_participant_inv:
  assumes inv: "messaging_inv s" and t: "is_row s t" and c: "is_conv s c"
  shows "messaging_inv (snd (add_participant a c t s))"
proof -
  have seat: "cv_cohort c \<noteq> Unassigned \<and> has_cohort_row s (u_id t) (cv_cohort c)"
    if "can_message s a t" "u_cohort t = cv_cohort c"
    using that can_message_cohort [of s a t] is_row_cohort [OF t] by auto
  have again: "messaging_inv (set_participant (pt_id p)
      (\<lambda>p. p\<lparr> pt_state := PInvited, pt_invited_by := Some (u_id a) \<rparr>) s)"
    if "participant_of s (cv_id c) (u_id t) = Some p" "can_message s a t" "u_cohort t = cv_cohort c"
      "\<not> in_touch p" for p
  proof (rule messaging_inv_set [OF inv])
    fix q assume q: "q \<in> set (participants s)" "pt_id q = pt_id p"
    then have [simp]: "q = p" using participant_of_SomeD [OF that(1)] messaging_invD(4) [OF inv] by blast
    obtain d where d: "d \<in> set (conversations s)" "cv_id d = pt_conv p"
        "pt_role p = PGuardian \<Longrightarrow> cv_cohort d = Child \<and> has_cohort_row s (pt_user p) Adult"
      using messaging_invD(2) [OF inv q(1)] by (fastforce simp: seat_ok_def)
    moreover have [simp]: "d = c"
      using conv_id_eq [OF inv c d(1)] d(2) participant_of_SomeD [OF that(1)] by simp
    moreover have "pt_role p \<noteq> PGuardian"
      using d(3) has_cohort_rowD [OF inv t, of Adult] that(3) participant_of_SomeD [OF that(1)] by auto
    ultimately show "seat_ok s (q\<lparr> pt_state := PInvited, pt_invited_by := Some (u_id a) \<rparr>) \<and>
        supervised s (q\<lparr> pt_state := PInvited, pt_invited_by := Some (u_id a) \<rparr>)"
      using seat that participant_of_SomeD [OF that(1)] by (auto simp: seat_ok_def supervised_def)
    show "pt_state q = PActive \<Longrightarrow>
        pt_state (q\<lparr> pt_state := PInvited, pt_invited_by := Some (u_id a) \<rparr>) = PActive"
      using that(4) by (simp add: in_touch_def)
  qed auto
  have "messaging_inv (add_row (cv_id c) (u_id t) PInvited PMember (Some (u_id a)) None s)"
    if "participant_of s (cv_id c) (u_id t) = None" "can_message s a t" "u_cohort t = cv_cohort c"
    using that seat seat_ok_member [OF c, of PMember] participant_of_None [OF that(1)]
    by (intro add_row_inv [OF inv]) auto
  with again inv show ?thesis
    by (auto simp: add_participant_def Let_def split: option.splits)
qed

lemma add_guardian_observer_inv:
  assumes inv: "messaging_inv s" and g: "is_row s g" and c: "is_conv s c"
  shows "messaging_inv (snd (add_guardian_observer g c s))"
proof -
  have child: "cv_cohort c = Child" if wp: "ward_present s i (cv_id c)" for i
  proof -
    obtain p where p: "p \<in> set (participants s)" "pt_conv p = cv_id c" "pt_state p = PActive"
        "has_cohort_row s (pt_user p) Child"
      using wp by (auto simp: ward_present_iff)
    then have "pt_role p \<noteq> PGuardian" using adult_seat messaging_invD(1) [OF inv] by blast
    then obtain d where "d \<in> set (conversations s)" "cv_id d = cv_id c"
        "has_cohort_row s (pt_user p) (cv_cohort d)"
      using messaging_invD(2) [OF inv p(1)] p(2,3) by (auto simp: seat_ok_def in_touch_def)
    then show ?thesis
      using conv_id_eq [OF inv c] p(4) cohort_unique inv unfolding messaging_inv_def seats_inv_def
      by metis
  qed
  have again: "messaging_inv (set_participant (pt_id p) (\<lambda>p. p\<lparr> pt_state := PActive,
      pt_role := PGuardian, pt_joined_at := Some (clock s) \<rparr>) s)"
    if "participant_of s (cv_id c) (u_id g) = Some p" "u_cohort g = Adult"
      "ward_present s (u_id g) (cv_id c)" for p
  proof (rule messaging_inv_set [OF inv])
    fix q assume q: "q \<in> set (participants s)" "pt_id q = pt_id p"
    then have "q = p" using participant_of_SomeD [OF that(1)] messaging_invD(4) [OF inv] by blast
    then show "seat_ok s (q\<lparr> pt_state := PActive, pt_role := PGuardian, pt_joined_at := Some (clock s) \<rparr>) \<and>
        supervised s (q\<lparr> pt_state := PActive, pt_role := PGuardian, pt_joined_at := Some (clock s) \<rparr>)"
      using participant_of_SomeD [OF that(1)] that(2,3) child [OF that(3)] c is_row_cohort [OF g]
      by (auto simp: seat_ok_def supervised_def is_conv_def)
  qed auto
  have "messaging_inv (add_row (cv_id c) (u_id g) PActive PGuardian None (Some (clock s)) s)"
    if "participant_of s (cv_id c) (u_id g) = None" "u_cohort g = Adult"
      "ward_present s (u_id g) (cv_id c)"
    using that child [OF that(3)] c is_row_cohort [OF g] participant_of_None [OF that(1)]
    by (intro add_row_inv [OF inv]) (auto simp: seat_ok_def supervised_def is_conv_def)
  with again inv show ?thesis
    by (auto simp: add_guardian_observer_def Let_def ward_present_def split: option.splits)
qed

lemma rate_ok_snd [simp]:
  "users (snd (rate_ok u a l s)) = users s" "conversations (snd (rate_ok u a l s)) = conversations s"
  "participants (snd (rate_ok u a l s)) = participants s" "clock (snd (rate_ok u a l s)) = clock s"
  "guardianships (snd (rate_ok u a l s)) = guardianships s" "lib (snd (rate_ok u a l s)) = lib s"
  "audit_log (snd (rate_ok u a l s)) = audit_log s" "seq (snd (rate_ok u a l s)) = seq s"
  "messages (snd (rate_ok u a l s)) = messages s"
  "message_keys (snd (rate_ok u a l s)) = message_keys s"
  by (simp_all add: rate_ok_def)

lemma rate_ok_inv [simp]: "messaging_inv s \<Longrightarrow> messaging_inv (snd (rate_ok u a l s))"
  by (simp add: rate_ok_def)

lemma new_conversation_simps [simp]:
  "users (snd (new_conversation k ti u s)) = users s"
  "participants (snd (new_conversation k ti u s)) = participants s"
  "lib (snd (new_conversation k ti u s)) = lib s"
  "audit_log (snd (new_conversation k ti u s)) = audit_log s"
  "conversations (snd (new_conversation k ti u s)) = conversations s @ [fst (new_conversation k ti u s)]"
  "cv_id (fst (new_conversation k ti u s)) = seq s"
  "cv_cohort (fst (new_conversation k ti u s)) = u_cohort u"
  by (simp_all add: new_conversation_def Let_def)

text \<open>A conversation just created, with its creator's seat.\<close>

definition opened :: "conv_kind \<Rightarrow> string \<Rightarrow> user \<Rightarrow> db \<Rightarrow> db" where
  "opened k ti u s = add_row (cv_id (fst (new_conversation k ti u s))) (u_id u) PActive PAdmin None
     (Some (clock s)) (snd (new_conversation k ti u s))"

lemma opened_inv:
  assumes inv: "messaging_inv s" and u: "is_row s u" "u_cohort u \<noteq> Unassigned"
  shows "messaging_inv (opened k ti u s)"
    and "is_conv (opened k ti u s) (fst (new_conversation k ti u s))"
    and "participants (opened k ti u s) = participants s @
      [new_seat (Suc (seq s)) (seq s) (u_id u) PActive PAdmin None (Some (clock s))]"
    and "users (opened k ti u s) = users s"
proof -
  let ?t = "snd (new_conversation k ti u s)" and ?c = "fst (new_conversation k ti u s)"
  have "is_conv ?t ?c" by (simp add: is_conv_def)
  moreover have "has_cohort_row ?t (u_id u) (u_cohort u)"
    using is_row_cohort [OF u(1)] by (simp add: has_cohort_row_def)
  ultimately have "seat_ok ?t (new_seat n (cv_id ?c) (u_id u) PActive PAdmin None (Some (clock s)))" for n
    using u(2) by (intro seat_ok_member) simp_all
  then show "messaging_inv (opened k ti u s)"
    unfolding opened_def using fresh_conv_ne [OF inv]
    by (intro add_row_inv new_conversation_inv [OF inv]) auto
qed (simp_all add: opened_def is_conv_def new_conversation_def Let_def)

lemma invite_one_inv:
  assumes inv: "messaging_inv s" and c: "is_conv s c" "cv_cohort c \<noteq> Unassigned"
    and t: "is_row s t" "u_cohort t = cv_cohort c"
    and fresh: "\<And>p. p \<in> set (participants s) \<Longrightarrow> \<not> (pt_conv p = cv_id c \<and> pt_user p = u_id t)"
  shows "messaging_inv (add_row (cv_id c) (u_id t) PInvited PMember i None s)"
  using is_row_cohort [OF t(1)] t(2) fresh seat_ok_member [OF c(1) _ c(2)]
  by (intro add_row_inv [OF inv]) auto

lemma invite_all_inv:
  "messaging_inv s \<Longrightarrow> is_conv s c \<Longrightarrow> cv_cohort c \<noteq> Unassigned \<Longrightarrow> distinct (map u_id ts) \<Longrightarrow>
   (\<forall>t \<in> set ts. is_row s t \<and> u_cohort t = cv_cohort c \<and>
      (\<forall>p \<in> set (participants s). \<not> (pt_conv p = cv_id c \<and> pt_user p = u_id t))) \<Longrightarrow>
   messaging_inv (invite_all (cv_id c) i ts s)"
proof (induction ts arbitrary: s)
  case (Cons t ts)
  let ?s = "add_row (cv_id c) (u_id t) PInvited PMember (Some i) None s"
  have "messaging_inv ?s"
    by (rule invite_one_inv) (use Cons.prems in auto)
  moreover have "is_conv ?s c" "\<forall>t \<in> set ts. is_row ?s t \<and> u_cohort t = cv_cohort c \<and>
      (\<forall>p \<in> set (participants ?s). \<not> (pt_conv p = cv_id c \<and> pt_user p = u_id t))"
    using Cons.prems by (auto simp: is_conv_def is_row_def image_iff)
  ultimately have "messaging_inv (invite_all (cv_id c) i ts ?s)"
    using Cons.prems(3,4) by (intro Cons.IH) auto
  then show ?case by simp
qed simp

lemma unique_targets_distinct:
  "distinct (map u_id (unique_targets seen ts)) \<and> u_id ` set (unique_targets seen ts) \<inter> set seen = {}"
proof (induction ts arbitrary: seen)
  case (Cons t ts)
  show ?case
    using Cons.IH [of seen] Cons.IH [of "u_id t # seen"] by auto
qed simp

lemma unique_targets_laws:
  "distinct (map u_id (unique_targets seen ts)) \<and>
   (\<forall>t \<in> set (unique_targets seen ts). t \<in> set ts \<and> u_id t \<notin> set seen)"
proof -
  have "set (unique_targets seen ts) \<subseteq> set ts"
    by (induction ts arbitrary: seen) (simp_all, blast)
  with unique_targets_distinct [of seen ts] show ?thesis by blast
qed

lemma start_direct_inv:
  assumes inv: "messaging_inv s" and a: "is_row s a" and b: "is_row s b"
  shows "messaging_inv (snd (start_direct a b s))"
proof (cases "can_message s a b \<and> direct_between s (u_id a) (u_id b) = None \<and>
    fst (rate_ok (u_id a) ''messaging_start'' (st_start_limit (conf s)) s)")
  case True
  let ?s1 = "snd (rate_ok (u_id a) ''messaging_start'' (st_start_limit (conf s)) s)"
  let ?c = "fst (new_conversation Direct [] a ?s1)" and ?o = "opened Direct [] a ?s1"
  have coh: "u_id a \<noteq> u_id b" "u_cohort a = u_cohort b" "u_cohort a \<noteq> Unassigned"
    using True can_message_cohort by blast+
  have i1: "messaging_inv ?s1" "is_row ?s1 a" using inv a by (simp_all add: is_row_def)
  note o = opened_inv [OF i1 coh(3), of Direct "[]"]
  have "messaging_inv (add_row (cv_id ?c) (u_id b) PInvited PMember (Some (u_id a)) None ?o)"
    using coh b fresh_conv_ne [OF inv]
    by (intro invite_one_inv o(1,2)) (auto simp: o(3,4) is_row_def)
  then show ?thesis
    using True by (simp add: start_direct_def Let_def case_prod_beta opened_def)
next
  case False
  then show ?thesis
    using inv by (auto simp: start_direct_def Let_def case_prod_beta split: option.splits)
qed

lemma start_group_inv:
  assumes inv: "messaging_inv s" and a: "is_row s a" and ts: "\<And>t. t \<in> set ts \<Longrightarrow> is_row s t"
  shows "messaging_inv (snd (start_group a ts title s))"
proof -
  let ?us = "unique_targets [u_id a] ts"
  let ?s1 = "snd (rate_ok (u_id a) ''messaging_start'' (st_start_limit (conf s)) s)"
  let ?ti = "take 120 (strip title)"
  let ?c = "fst (new_conversation GroupConv ?ti a ?s1)" and ?o = "opened GroupConv ?ti a ?s1"
  have main: "messaging_inv (invite_all (cv_id ?c) (u_id a) ?us ?o)"
    if ok: "?us \<noteq> []" "\<forall>t \<in> set ?us. can_message s a t"
  proof -
    have coh: "u_cohort a \<noteq> Unassigned" "\<forall>t \<in> set ?us. u_id a \<noteq> u_id t \<and> u_cohort t = u_cohort a"
      using ok can_message_cohort by (metis list.set_intros(1) neq_Nil_conv)+
    have i1: "messaging_inv ?s1" "is_row ?s1 a" using inv a by (simp_all add: is_row_def)
    note o = opened_inv [OF i1 coh(1), of GroupConv ?ti]
    show ?thesis
      by (rule invite_all_inv [OF o(1,2)])
        (use coh unique_targets_laws [of "[u_id a]" ts] ts fresh_conv_ne [OF inv]
          in \<open>auto simp: o(3,4) is_row_def\<close>)
  qed
  show ?thesis
    using main inv by (auto simp: start_group_def Let_def case_prod_beta opened_def)
qed

section \<open>Losing participation, losing a guardianship\<close>

lemma prune_frame [simp]:
  "users (snd (prune_orphaned_guardians c s)) = users s"
  "conversations (snd (prune_orphaned_guardians c s)) = conversations s"
  "guardianships (snd (prune_orphaned_guardians c s)) = guardianships s"
  "lib (snd (prune_orphaned_guardians c s)) = lib s"
  by (simp_all add: prune_orphaned_guardians_def)

lemma prune_laws:
  assumes "seats_inv s"
  shows "seats_inv (snd (prune_orphaned_guardians c s))"
    and "q \<in> set (participants (snd (prune_orphaned_guardians c s))) \<Longrightarrow>
      \<not> supervised (snd (prune_orphaned_guardians c s)) q \<Longrightarrow>
      q \<in> set (participants s) \<and> pt_conv q \<noteq> c \<and> \<not> supervised s q"
proof -
  let ?gs = "filter (\<lambda>p. pt_conv p = c \<and> pt_role p = PGuardian \<and> pt_state p = PActive) (participants s)"
  have "guardian_seats s ?gs" by (rule guardian_seats_filter [OF assms]) simp
  note l = end_orphans_laws [OF assms this]
  then show "seats_inv (snd (prune_orphaned_guardians c s))"
    by (simp add: prune_orphaned_guardians_def)
  assume q: "q \<in> set (participants (snd (prune_orphaned_guardians c s)))"
    "\<not> supervised (snd (prune_orphaned_guardians c s)) q"
  have "\<not> supervised s q"
    using q(2) l by (auto simp: supervised_def prune_orphaned_guardians_def)
  then have "q \<in> set (participants s)" "q \<notin> set ?gs"
    using q(1) l unfolding prune_orphaned_guardians_def by blast+
  with \<open>\<not> supervised s q\<close> show "q \<in> set (participants s) \<and> pt_conv q \<noteq> c \<and> \<not> supervised s q"
    by (auto simp: supervised_def)
qed

lemma prune_each_inv:
  "seats_inv s \<Longrightarrow> (\<forall>q \<in> set (participants s). \<not> supervised s q \<longrightarrow> pt_conv q \<in> set cs) \<Longrightarrow>
   messaging_inv (prune_each cs s)"
proof (induction cs arbitrary: s)
  case Nil
  then show ?case by (auto simp: messaging_inv_def)
next
  case (Cons c cs)
  have "messaging_inv (prune_each cs (snd (prune_orphaned_guardians c s)))"
    by (rule Cons.IH [OF prune_laws(1) [OF Cons.prems(1)]])
      (use prune_laws(2) [OF Cons.prems(1), of _ c] Cons.prems(2) in fastforce)
  then show ?case by simp
qed

definition drop_user :: "id \<Rightarrow> db \<Rightarrow> db" where
  "drop_user uid s = s\<lparr> participants := update_rows (\<lambda>p. pt_user p = uid \<and> in_touch p)
     (\<lambda>p. p\<lparr> pt_state := PRemoved \<rparr>) (participants s) \<rparr>"

lemma drop_user_rows:
  "participants (drop_user uid s) =
     map (\<lambda>p. if pt_user p = uid \<and> in_touch p then removed_seat p else p) (participants s)"
  by (simp add: drop_user_def update_rows_def removed_seat_def)

lemma drop_user_frame [simp]:
  "users (drop_user uid s) = users s" "conversations (drop_user uid s) = conversations s"
  "guardianships (drop_user uid s) = guardianships s" "seq (drop_user uid s) = seq s"
  "lib (drop_user uid s) = lib s" "audit_log (drop_user uid s) = audit_log s"
  by (simp_all add: drop_user_def)

lemma drop_user_seats:
  assumes inv: "seats_inv s"
  shows "seats_inv (drop_user uid s)"
proof -
  have "seat_ok (drop_user uid s) = seat_ok s"
    by (rule seat_ok_cong) (simp_all add: conv_keys_def)
  moreover have "unique_by pt_id (participants (drop_user uid s))"
      "unique_by (\<lambda>p. (pt_conv p, pt_user p)) (participants (drop_user uid s))"
    using inv by (simp_all add: drop_user_def unique_by_update seats_inv_def)
  moreover have "seat_ok s p \<and> pt_id p < seq s" if "p \<in> set (participants (drop_user uid s))" for p
    using that inv by (auto simp: drop_user_rows seats_inv_def removed_seat_def
        intro: seat_ok_removed [unfolded removed_seat_def])
  ultimately show ?thesis
    using inv unfolding seats_inv_def by simp
qed

lemma drop_user_supervised:
  assumes "supervised s q" and "q \<in> set (participants s)"
    and untouched: "\<And>p. p \<in> set (participants s) \<Longrightarrow> pt_conv p = pt_conv q \<Longrightarrow>
      \<not> (pt_user p = uid \<and> in_touch p)"
  shows "supervised (drop_user uid s) q"
  unfolding supervised_def
proof
  assume "pt_role q = PGuardian \<and> pt_state q = PActive"
  with assms(1) obtain w where w: "w \<in> set (participants s)" "pt_conv w = pt_conv q"
      "pt_user w \<in> ward_ids s (pt_user q)" "pt_state w = PActive" "has_cohort_row s (pt_user w) Child"
    by (auto simp: supervised_def ward_present_iff)
  have "w \<in> set (participants (drop_user uid s))"
    using w(1) untouched [OF w(1,2)] by (force simp: drop_user_rows)
  with w show "ward_present (drop_user uid s) (pt_user q) (pt_conv q)"
    using has_cohort_row_cong [of "drop_user uid s" s] ward_ids_cong [of "drop_user uid s" s]
    by (auto simp: ward_present_iff drop_user_def)
qed

lemma remove_user_inv:
  assumes inv: "messaging_inv s"
  shows "messaging_inv (snd (remove_user_from_conversations uid reason s))"
proof -
  define hit :: "conversation \<Rightarrow> bool" where "hit = (\<lambda>c. \<exists>p \<in> set (participants s). pt_conv p = cv_id c \<and> pt_user p = uid \<and> in_touch p)"
  let ?aff = "map cv_id (sort_key (\<lambda>c. - cv_updated_at c) (filter hit (conversations s)))"
  have "messaging_inv (prune_each ?aff (drop_user uid s))"
  proof (rule prune_each_inv [OF drop_user_seats [OF messaging_invD(1) [OF inv]]], intro ballI impI)
    fix q assume q: "q \<in> set (participants (drop_user uid s))" "\<not> supervised (drop_user uid s) q"
    then have mem: "q \<in> set (participants s)"
      by (auto simp: drop_user_rows supervised_def removed_seat_def split: if_splits)
    obtain c where c: "c \<in> set (conversations s)" "cv_id c = pt_conv q"
      using messaging_invD(2) [OF inv mem] by (auto simp: seat_ok_def)
    show "pt_conv q \<in> set ?aff"
    proof (rule ccontr)
      assume "pt_conv q \<notin> set ?aff"
      moreover have "hit c \<Longrightarrow> cv_id c \<in> set ?aff" using c(1) by simp
      ultimately have "\<not> hit c" using c(2) by auto
      then have "supervised (drop_user uid s) q"
        using messaging_invD(3) [OF inv mem] c(2) by (intro drop_user_supervised mem) (auto simp: hit_def)
      with q(2) show False ..
    qed
  qed
  moreover have "prune_each ?aff (drop_user uid s) = drop_user uid s" if "?aff = []"
    using that by simp
  ultimately show ?thesis
    unfolding remove_user_from_conversations_def Let_def hit_def [symmetric] drop_user_def [symmetric]
    by (auto simp del: prune_each.simps)
qed

text \<open>
  Revoking the link of \<open>g\<close> and \<open>w\<close> can leave only \<open>g\<close>'s seats unsupervised, and dropping
  \<open>g\<close>'s observer seats restores the invariant.
\<close>

lemma drop_guardian_observers_inv:
  assumes "seats_inv s" and "\<And>q. q \<in> set (participants s) \<Longrightarrow> pt_user q \<noteq> g \<Longrightarrow> supervised s q"
  shows "messaging_inv (snd (drop_guardian_observers_for g w s))"
  unfolding drop_guardian_observers_for_def
  by (rule end_orphans_inv [OF assms(1) guardian_seats_filter [OF assms(1)]])
    (use assms(2) in \<open>auto simp: supervised_def\<close>)

end
