(* ===== verification/Messaging_Service.thy ===== *)
theory Messaging_Service
  imports Messaging_Laws
begin

text \<open>
  The messaging service as its callers reach it: requests name users and conversations by id, the
  rows are loaded and the service function runs. The service is an instance of the library's
  \<open>service\<close> and \<open>journal\<close> interfaces, and the properties of apps/messaging follow.
\<close>

section \<open>The remaining operations\<close>

lemma conv_keys_update:
  "(\<And>c. cv_id (f c) = cv_id c \<and> cv_cohort (f c) = cv_cohort c) \<Longrightarrow>
   conv_keys (s\<lparr> conversations := update_rows P f (conversations s) \<rparr>) = conv_keys s"
  by (simp add: conv_keys_def update_rows_def)

lemma register_public_key_inv:
  "messaging_inv s \<Longrightarrow> messaging_inv (snd (register_public_key u j a w k s))"
  by (auto simp: register_public_key_def Let_def conv_keys_def
      intro: messaging_inv_cong [where s = s])

lemma record_key_verification_inv:
  "messaging_inv s \<Longrightarrow> messaging_inv (snd (record_key_verification v u fp s))"
  by (auto simp: record_key_verification_def Let_def conv_keys_def split: option.splits
      intro: messaging_inv_cong [where s = s])

lemma set_disappearing_inv: "messaging_inv s \<Longrightarrow> messaging_inv (snd (set_disappearing a c n s))"
  by (auto simp: set_disappearing_def Let_def conv_keys_update split: option.splits
      intro!: messaging_inv_record_audit intro: messaging_inv_cong [where s = s])

lemma delete_messages_frame [simp]:
  "users (snd (delete_messages P s)) = users s" "conv_keys (snd (delete_messages P s)) = conv_keys s"
  "conversations (snd (delete_messages P s)) = conversations s"
  "participants (snd (delete_messages P s)) = participants s"
  "guardianships (snd (delete_messages P s)) = guardianships s"
  "seq (snd (delete_messages P s)) = seq s" "lib (snd (delete_messages P s)) = lib s"
  "audit_log (snd (delete_messages P s)) = audit_log s" "clock (snd (delete_messages P s)) = clock s"
  "conf (snd (delete_messages P s)) = conf s"
  by (simp_all add: delete_messages_def Let_def conv_keys_def)

lemma purge_timed_Cons:
  "snd (purge_timed now (c # cs) s) = snd (purge_timed now cs (snd (delete_messages
     (\<lambda>m. ms_conv m = cv_id c \<and> ms_created_at m < now - seconds (int (cv_disappearing c))) s)))"
  by (simp add: Let_def case_prod_beta)

lemma purge_timed_frame [simp]:
  "users (snd (purge_timed now cs s)) = users s" "conv_keys (snd (purge_timed now cs s)) = conv_keys s"
  "participants (snd (purge_timed now cs s)) = participants s"
  "guardianships (snd (purge_timed now cs s)) = guardianships s"
  "seq (snd (purge_timed now cs s)) = seq s" "lib (snd (purge_timed now cs s)) = lib s"
  "audit_log (snd (purge_timed now cs s)) = audit_log s"
  by (induction cs arbitrary: s) (simp_all only: purge_timed_Cons purge_timed.simps(1) snd_conv
      delete_messages_frame)

lemma purge_frame [simp]:
  "users (snd (purge_expired_messages m s)) = users s"
  "conv_keys (snd (purge_expired_messages m s)) = conv_keys s"
  "participants (snd (purge_expired_messages m s)) = participants s"
  "guardianships (snd (purge_expired_messages m s)) = guardianships s"
  "seq (snd (purge_expired_messages m s)) = seq s" "lib (snd (purge_expired_messages m s)) = lib s"
  "audit_log (snd (purge_expired_messages m s)) = audit_log s"
  by (simp_all add: purge_expired_messages_def Let_def case_prod_beta)

lemma purge_inv: "messaging_inv s \<Longrightarrow> messaging_inv (snd (purge_expired_messages m s))"
  by (rule messaging_inv_cong) simp_all

lemma store_message_inv: "messaging_inv s \<Longrightarrow> messaging_inv (snd (store_message u c x i rows a s))"
  by (auto simp: store_message_def Let_def conv_keys_def update_rows_def
      intro!: messaging_inv_record_audit intro: messaging_inv_cong [where s = s])

text \<open>The state of a post that is not refused: the limiter's, then the stored message.\<close>

lemma post_message_cases:
  "snd (post_message u c x i rks a s) = s \<or>
   snd (post_message u c x i rks a s) = snd (rate_ok (u_id u) ''messaging_send'' (st_send_limit (conf s)) s) \<or>
   (\<exists>rows. snd (post_message u c x i rks a s) = snd (store_message u c x i rows a
      (snd (rate_ok (u_id u) ''messaging_send'' (st_send_limit (conf s)) s))))"
  by (auto simp: post_message_def Let_def case_prod_beta split: sum.splits)

lemma post_message_inv: "messaging_inv s \<Longrightarrow> messaging_inv (snd (post_message u c x i rks a s))"
  using post_message_cases [of u c x i rks a s] by (auto intro!: store_message_inv)

lemma report_message_inv: "messaging_inv s \<Longrightarrow> messaging_inv (snd (report_message u m re d e s))"
  by (auto simp: report_message_def Let_def case_prod_beta conv_keys_def file_report_seq
      intro!: messaging_inv_record_audit intro: messaging_inv_cong [where s = s])

section \<open>Every operation extends the audit log\<close>

lemma set_participant_extends: "log_extends s (set_participant i f s)"
  by (rule log_extends_same) simp_all

lemma add_row_extends: "log_extends s (add_row c u st r i j s)"
  by (rule log_extends_same) simp_all

lemma rate_ok_extends [intro]: "log_extends s (snd (rate_ok u a l s))"
  by (rule log_extends_same) simp_all

lemma end_orphans_extends [intro]: "log_extends s (snd (end_orphans gs s))"
proof (induction gs arbitrary: s)
  case (Cons g gs)
  show ?case
    using Cons.IH log_extends_trans [OF log_extends_record_audit [OF set_participant_extends] Cons.IH]
    by (simp add: case_prod_beta Let_def)
qed simp

lemma prune_extends [intro]: "log_extends s (snd (prune_orphaned_guardians c s))"
  by (auto simp: prune_orphaned_guardians_def)

lemma drop_observers_extends [intro]: "log_extends s (snd (drop_guardian_observers_for g w s))"
  by (auto simp: drop_guardian_observers_for_def)

lemma prune_each_extends [intro]: "log_extends s (prune_each cs s)"
  by (induction cs arbitrary: s) (auto intro: log_extends_trans)

lemma remove_user_extends [intro]: "log_extends s (snd (remove_user_from_conversations u r s))"
proof -
  have "log_extends s (prune_each cs (drop_user u s))" for cs
    by (rule log_extends_trans [OF log_extends_same prune_each_extends]) simp_all
  moreover have "log_extends s (drop_user u s)" by (rule log_extends_same) simp_all
  ultimately show ?thesis
    unfolding remove_user_from_conversations_def Let_def drop_user_def [symmetric]
    by (auto intro: log_extends_record_audit)
qed

lemma unseat_extends: "log_extends s (snd (prune_orphaned_guardians c (set_participant i f s)))"
  by (rule log_extends_trans [OF set_participant_extends prune_extends])

lemma invite_all_same [simp]:
  "lib (invite_all c i ts s) = lib s" "audit_log (invite_all c i ts s) = audit_log s"
  by (induction ts arbitrary: s) simp_all

lemmas log_steps = log_extends_record_audit log_extends_same unseat_extends set_participant_extends
  add_row_extends

lemma register_public_key_extends: "log_extends s (snd (register_public_key u j a w k s))"
  by (auto simp: register_public_key_def Let_def intro!: log_steps)

lemma record_key_verification_extends: "log_extends s (snd (record_key_verification v u fp s))"
  by (auto simp: record_key_verification_def Let_def split: option.splits intro!: log_steps)

lemma start_direct_extends: "log_extends s (snd (start_direct a b s))"
  by (auto simp: start_direct_def Let_def case_prod_beta split: option.splits intro!: log_steps)

lemma start_group_extends: "log_extends s (snd (start_group a ts ti s))"
  by (auto simp: start_group_def Let_def case_prod_beta intro!: log_steps)

lemma lifecycle_extends:
  "log_extends s (snd (accept_invite u c s))" "log_extends s (snd (decline_invite u c s))"
  "log_extends s (snd (leave u c s))" "log_extends s (snd (add_participant u c t s))"
  "log_extends s (snd (remove_participant u c t s))" "log_extends s (snd (add_guardian_observer u c s))"
  "log_extends s (snd (set_disappearing u c n s))"
  by (auto simp: accept_invite_def decline_invite_def leave_def add_participant_def
      remove_participant_def add_guardian_observer_def set_disappearing_def Let_def
      split: option.splits intro!: log_steps)

lemma purge_extends: "log_extends s (snd (purge_expired_messages m s))"
  by (rule log_extends_same) simp_all

lemma post_message_extends: "log_extends s (snd (post_message u c x i rks a s))"
proof -
  have "log_extends s (snd (store_message u c x i rows a (snd (rate_ok n b l s))))" for rows n b l
    by (auto simp: store_message_def Let_def intro!: log_steps)
  then show ?thesis
    using post_message_cases [of u c x i rks a s] by auto
qed

lemma report_message_extends: "log_extends s (snd (report_message u m re d e s))"
  by (auto simp: report_message_def Let_def case_prod_beta intro!: log_extends_record_audit)

section \<open>Requests\<close>

datatype messaging_request =
    RegisterKey id json string "json option" string
  | VerifyKey id id string
  | StartDirect id id
  | StartGroup id "id list" string
  | AcceptInvite id id
  | DeclineInvite id id
  | LeaveConversation id id
  | AddParticipant id id id
  | RemoveParticipant id id id
  | ObserveConversation id id
  | SetDisappearing id id "int option"
  | PurgeExpired "time option"
  | PostMessage id id string string "recipient_key list" string
  | ReportMessage id id reason_code string string
  | RevokeParticipation id string
  | Wait nat

definition with_user :: "db \<Rightarrow> id \<Rightarrow> (user \<Rightarrow> db) \<Rightarrow> db" where
  "with_user s i f = (case user_row s i of None \<Rightarrow> s | Some u \<Rightarrow> f u)"

definition with_conv :: "db \<Rightarrow> id \<Rightarrow> (conversation \<Rightarrow> db) \<Rightarrow> db" where
  "with_conv s i f = (case conv_row s i of None \<Rightarrow> s | Some c \<Rightarrow> f c)"

definition with_message :: "db \<Rightarrow> id \<Rightarrow> (message \<Rightarrow> db) \<Rightarrow> db" where
  "with_message s i f = (case List.find (\<lambda>m. ms_id m = i) (messages s) of None \<Rightarrow> s | Some m \<Rightarrow> f m)"

fun messaging_exec :: "messaging_request \<Rightarrow> db \<Rightarrow> db" where
  "messaging_exec (RegisterKey u j a w k) s =
     with_user s u (\<lambda>u. snd (register_public_key u j a w k s))"
| "messaging_exec (VerifyKey v u fp) s =
     with_user s v (\<lambda>v. with_user s u (\<lambda>u. snd (record_key_verification v u fp s)))"
| "messaging_exec (StartDirect a b) s =
     with_user s a (\<lambda>a. with_user s b (\<lambda>b. snd (start_direct a b s)))"
| "messaging_exec (StartGroup a ts title) s =
     with_user s a (\<lambda>a. snd (start_group a (List.map_filter (user_row s) ts) title s))"
| "messaging_exec (AcceptInvite u c) s =
     with_user s u (\<lambda>u. with_conv s c (\<lambda>c. snd (accept_invite u c s)))"
| "messaging_exec (DeclineInvite u c) s =
     with_user s u (\<lambda>u. with_conv s c (\<lambda>c. snd (decline_invite u c s)))"
| "messaging_exec (LeaveConversation u c) s =
     with_user s u (\<lambda>u. with_conv s c (\<lambda>c. snd (leave u c s)))"
| "messaging_exec (AddParticipant a c t) s =
     with_user s a (\<lambda>a. with_conv s c (\<lambda>c. with_user s t (\<lambda>t. snd (add_participant a c t s))))"
| "messaging_exec (RemoveParticipant a c t) s =
     with_user s a (\<lambda>a. with_conv s c (\<lambda>c. with_user s t (\<lambda>t. snd (remove_participant a c t s))))"
| "messaging_exec (ObserveConversation g c) s =
     with_user s g (\<lambda>g. with_conv s c (\<lambda>c. snd (add_guardian_observer g c s)))"
| "messaging_exec (SetDisappearing a c n) s =
     with_user s a (\<lambda>a. with_conv s c (\<lambda>c. snd (set_disappearing a c n s)))"
| "messaging_exec (PurgeExpired m) s = snd (purge_expired_messages m s)"
| "messaging_exec (PostMessage u c x i rks a) s =
     with_user s u (\<lambda>u. with_conv s c (\<lambda>c. snd (post_message u c x i rks a s)))"
| "messaging_exec (ReportMessage u m re d e) s =
     with_user s u (\<lambda>u. with_message s m (\<lambda>m. snd (report_message u m re d e s)))"
| "messaging_exec (RevokeParticipation u r) s = snd (remove_user_from_conversations u r s)"
| "messaging_exec (Wait n) s = s\<lparr> clock := clock s + int n \<rparr>"

lemma with_user_intro: "P s \<Longrightarrow> (\<And>u. is_row s u \<Longrightarrow> P (f u)) \<Longrightarrow> P (with_user s i f)"
  by (auto simp: with_user_def is_row_def split: option.splits dest: user_row_SomeD)

lemma with_conv_intro: "P s \<Longrightarrow> (\<And>c. is_conv s c \<Longrightarrow> P (f c)) \<Longrightarrow> P (with_conv s i f)"
  by (auto simp: with_conv_def is_conv_def split: option.splits dest: conv_row_SomeD)

lemma with_message_intro: "P s \<Longrightarrow> (\<And>m. P (f m)) \<Longrightarrow> P (with_message s i f)"
  by (auto simp: with_message_def split: option.splits)

lemmas loaded = with_user_intro [where P = messaging_inv] with_conv_intro [where P = messaging_inv]
  with_message_intro [where P = messaging_inv]

lemmas messaging_keeps = register_public_key_inv record_key_verification_inv start_direct_inv
  start_group_inv accept_invite_inv decline_invite_inv leave_inv add_participant_inv
  remove_participant_inv add_guardian_observer_inv set_disappearing_inv purge_inv post_message_inv
  report_message_inv remove_user_inv

lemma map_filter_rows: "t \<in> set (List.map_filter (user_row s) ts) \<Longrightarrow> is_row s t"
  by (auto simp: List.map_filter_def is_row_def dest: user_row_SomeD)

lemma messaging_exec_inv: "messaging_inv s \<Longrightarrow> messaging_inv (messaging_exec q s)"
proof (cases q)
  case (Wait n)
  assume "messaging_inv s"
  then show ?thesis
    unfolding Wait messaging_exec.simps
    by (rule messaging_inv_cong [rotated -1]) (simp_all add: conv_keys_def)
qed (auto intro!: loaded messaging_keeps intro: map_filter_rows)

lemma messaging_exec_extends: "log_extends s (messaging_exec q s)"
  by (cases q) (auto simp: log_extends_same
      intro!: with_user_intro [where P = "log_extends s"] with_conv_intro [where P = "log_extends s"]
        with_message_intro [where P = "log_extends s"] register_public_key_extends
        record_key_verification_extends start_direct_extends start_group_extends lifecycle_extends
        purge_extends post_message_extends report_message_extends)

interpretation seats: service messaging_exec messaging_inv
  by unfold_locales (rule messaging_exec_inv)

interpretation seats_log: journal messaging_exec audit_log
  by unfold_locales (rule log_extends_prefix [OF messaging_exec_extends])

lemma verified_exec:
  "verify_audit_chain s None \<Longrightarrow> verify_audit_chain (messaging_exec q s) None"
  by (rule log_extends_verified [OF messaging_exec_extends])

interpretation seats_chain: service messaging_exec "\<lambda>s. verify_audit_chain s None"
  by unfold_locales (rule verified_exec)

end
