(* ===== verification/Messaging_Properties.thy ===== *)
theory Messaging_Properties
  imports Messaging_Service
begin

text \<open>
  The properties of apps/messaging: cohort isolation along every run, who may read, who receives
  a key, what a page of messages holds, what the purge removes and when a key is verified.
\<close>

section \<open>A sample conversation\<close>

text \<open>Two children in a direct conversation, one still invited, and a parent observing.\<close>

definition sample_friend :: user where
  "sample_friend = sample_child\<lparr> u_id := 6, u_public_id := ''f'', u_username := ''friend'' \<rparr>"

definition sample_conv :: conversation where
  "sample_conv = \<lparr> cv_id = 20, cv_kind = Direct, cv_title = [], cv_cohort = Child,
     cv_disappearing = 300, cv_creator = Some 2, cv_created_at = 0, cv_updated_at = 0 \<rparr>"

definition sample_message :: "id \<Rightarrow> time \<Rightarrow> message" where
  "sample_message i t = \<lparr> ms_id = i, ms_conv = 20, ms_sender = Some 2, ms_algorithm = ''A'',
     ms_ciphertext = ''x'', ms_iv = ''i'', ms_created_at = t \<rparr>"

definition sample_key :: "id \<Rightarrow> id \<Rightarrow> message_key" where
  "sample_key i m = \<lparr> mk_id = i, mk_message = m, mk_recipient = 2, mk_ephemeral = JBool True,
     mk_wrapped = ''w'', mk_iv = ''i'' \<rparr>"

definition sample_jwk :: "string \<Rightarrow> json" where
  "sample_jwk x = JObj [(''kty'', JStr ''EC''), (''x'', JStr x)]"

definition chat_db :: db where
  "chat_db = family_db\<lparr> seq := 50, users := [sample_parent, sample_child, sample_friend],
     consents := map (\<lambda>i. \<lparr> pc_id = i, pc_minor = i, pc_guardian = ''p'', pc_status = CActive,
       pc_scope = [], pc_granted_at = Some 0, pc_expires_at = None, pc_revoked_at = None,
       pc_notice = RnNone \<rparr>) [2, 6],
     conversations := [sample_conv],
     participants := [new_seat 30 20 2 PActive PAdmin None (Some 0),
       new_seat 31 20 6 PInvited PMember (Some 2) None,
       new_seat 32 20 1 PActive PGuardian None (Some 0)],
     pubkeys := [\<lparr> pk_id = 33, pk_user = 6, pk_algorithm = ''P-256'', pk_jwk = sample_jwk ''1'',
       pk_wrapped = None, pk_active = True, pk_created_at = 0 \<rparr>],
     messages := [sample_message 40 1, sample_message 41 2, sample_message 42 2],
     message_keys := [sample_key 43 40, sample_key 44 41, sample_key 45 42] \<rparr>"

lemmas chat_defs = chat_db_def sample_friend_def sample_conv_def sample_message_def sample_key_def
  sample_jwk_def sample_defs new_seat_def

lemma chat_can_participate [simp]:
  "can_participate chat_db sample_child" "can_participate chat_db sample_friend"
  by (simp_all add: can_participate_iff is_assurance_current_iff latest_assurance_def
      has_valid_parental_consent_def requires_parental_consent_def consent_is_valid_def chat_defs)

lemma ward_ids_iff: "w \<in> ward_ids s g \<longleftrightarrow> is_guardian_of s g w"
  by (auto simp: ward_ids_def is_guardian_of_def)

lemma chat_inv: "messaging_inv chat_db"
  by (simp add: messaging_inv_def seats_inv_def unique_by_def seat_ok_def supervised_def
      ward_present_iff ward_ids_iff is_guardian_of_def has_cohort_row_def in_touch_def chat_defs)

lemma chat_rows [simp]:
  "is_row chat_db sample_child" "is_row chat_db sample_friend" "is_row chat_db sample_parent"
  "is_conv chat_db sample_conv"
  by (simp_all add: is_row_def is_conv_def chat_db_def)

section \<open>Isolation\<close>

lemma seat_cohort:
  assumes inv: "messaging_inv s" and p: "p \<in> set (participants s)" "in_touch p"
    and c: "c \<in> set (conversations s)" "cv_id c = pt_conv p"
  shows "if pt_role p = PGuardian
    then cv_cohort c = Child \<and> has_cohort_row s (pt_user p) Adult \<and> ward_present s (pt_user p) (pt_conv p)
    else cv_cohort c \<noteq> Unassigned \<and> has_cohort_row s (pt_user p) (cv_cohort c)"
proof -
  obtain d where d: "d \<in> set (conversations s)" "cv_id d = pt_conv p"
      "if pt_role p = PGuardian
       then cv_cohort d = Child \<and> has_cohort_row s (pt_user p) Adult \<and> pt_state p \<noteq> PInvited
       else cv_cohort d \<noteq> Unassigned \<and> has_cohort_row s (pt_user p) (cv_cohort d)"
    using messaging_invD(2) [OF inv p(1)] p(2) by (auto simp: seat_ok_def)
  moreover have "d = c" using conv_id_eq [OF inv, of c d] d c by (simp add: is_conv_def)
  ultimately show ?thesis
    using messaging_invD(3) [OF inv p(1)] p(2) by (auto simp: supervised_def in_touch_def)
qed

text \<open>
  C1: Cohort isolation along every run of the messaging service: whatever the requests, everyone
  who is active in or invited to a conversation has its cohort, with one exception - an adult
  guardian observing a children's conversation in which an active child ward takes part.
\<close>

theorem cohort_isolation:
  assumes "messaging_inv s" and "t = run_requests messaging_exec qs s"
    and "p \<in> set (participants t)" and "in_touch p"
    and "c \<in> set (conversations t)" and "cv_id c = pt_conv p"
  shows "if pt_role p = PGuardian
    then cv_cohort c = Child \<and> has_cohort_row t (pt_user p) Adult \<and> ward_present t (pt_user p) (pt_conv p)
    else cv_cohort c \<noteq> Unassigned \<and> has_cohort_row t (pt_user p) (cv_cohort c)"
  by (rule seat_cohort [OF _ assms(3-6)]) (use seats.run_inv [OF assms(1), of qs] assms(2) in simp)

lemma chat_accept:
  "run_requests messaging_exec [AcceptInvite 6 20] chat_db = snd (accept_invite sample_friend sample_conv chat_db)"
  "participants (snd (accept_invite sample_friend sample_conv chat_db)) =
     [new_seat 30 20 2 PActive PAdmin None (Some 0), new_seat 31 20 6 PActive PMember (Some 2) (Some 0),
      new_seat 32 20 1 PActive PGuardian None (Some 0)]"
  "conversations (snd (accept_invite sample_friend sample_conv chat_db)) = [sample_conv]"
proof -
  have "user_row chat_db 6 = Some sample_friend" "conv_row chat_db 20 = Some sample_conv"
    by (simp_all add: user_row_def conv_row_def chat_defs)
  then show "run_requests messaging_exec [AcceptInvite 6 20] chat_db =
      snd (accept_invite sample_friend sample_conv chat_db)"
    by (simp add: with_user_def with_conv_def)
  have p: "participant_of chat_db 20 6 = Some (new_seat 31 20 6 PInvited PMember (Some 2) None)"
    by (simp add: participant_of_def chat_defs)
  have "u_id sample_friend = 6" "u_cohort sample_friend = Child" "cv_id sample_conv = 20"
    "cv_cohort sample_conv = Child" "clock chat_db = 0" "conversations chat_db = [sample_conv]"
    by (simp_all add: chat_defs)
  with p show "participants (snd (accept_invite sample_friend sample_conv chat_db)) =
      [new_seat 30 20 2 PActive PAdmin None (Some 0), new_seat 31 20 6 PActive PMember (Some 2) (Some 0),
       new_seat 32 20 1 PActive PGuardian None (Some 0)]"
    "conversations (snd (accept_invite sample_friend sample_conv chat_db)) = [sample_conv]"
    by (simp_all add: accept_invite_def set_participant_rows) (simp add: chat_db_def new_seat_def)
qed

theorem cohort_isolation_witness:
  "let t = run_requests messaging_exec [AcceptInvite 6 20] chat_db in
     participants t = [new_seat 30 20 2 PActive PAdmin None (Some 0),
       new_seat 31 20 6 PActive PMember (Some 2) (Some 0), new_seat 32 20 1 PActive PGuardian None (Some 0)] \<and>
     has_cohort_row t 6 Child \<and> has_cohort_row t 1 Adult \<and> ward_present t 1 20"
  using chat_accept
    cohort_isolation [OF chat_inv refl, of "new_seat 31 20 6 PActive PMember (Some 2) (Some 0)"
      "[AcceptInvite 6 20]" sample_conv]
    cohort_isolation [OF chat_inv refl, of "new_seat 32 20 1 PActive PGuardian None (Some 0)"
      "[AcceptInvite 6 20]" sample_conv]
  by (simp add: in_touch_def Let_def sample_conv_def)

text \<open>
  Only those who may read can read: a user the read gate lets through is an active account
  that either shares the conversation's cohort and may take part now, or is an adult observing a
  children's conversation with an active child ward present.
\<close>

theorem can_view_sound:
  assumes "messaging_inv s" and "is_row s u" and "is_conv s c" and "can_view s u c"
  shows "u_active u \<and>
    (u_cohort u = cv_cohort c \<and> can_participate s u \<or>
     u_cohort u = Adult \<and> cv_cohort c = Child \<and> ward_present s (u_id u) (cv_id c))"
proof -
  obtain p where p: "participant_of s (cv_id c) (u_id u) = Some p" "pt_state p = PActive"
      "pt_role p = PGuardian \<or> u_cohort u = cv_cohort c \<and> can_participate s u" "u_active u"
    using assms(4) by (auto simp: can_view_def split: option.splits if_splits)
  note q = participant_of_SomeD [OF p(1)]
  have "u_cohort u = Adult \<and> cv_cohort c = Child \<and> ward_present s (u_id u) (cv_id c)"
    if "pt_role p = PGuardian"
    using seat_cohort [OF assms(1), of p c] q p(2) that assms(3) has_cohort_rowD [OF assms(1,2)]
    by (simp add: in_touch_def is_conv_def)
  with p show ?thesis by blast
qed

theorem can_view_sound_witness:
  "can_view chat_db sample_parent sample_conv \<and> u_cohort sample_parent = Adult \<and>
   cv_cohort sample_conv = Child \<and> ward_present chat_db 1 20"
proof -
  have v: "can_view chat_db sample_parent sample_conv"
    by (simp add: can_view_def participant_of_def chat_defs)
  have "u_id sample_parent = 1" "u_cohort sample_parent = Adult" "cv_id sample_conv = 20"
    "cv_cohort sample_conv = Child"
    by (simp_all add: sample_parent_def sample_conv_def)
  then show ?thesis
    using v can_view_sound [OF chat_inv chat_rows(3,4) v] by simp
qed

lemma drop_user_out:
  assumes "p \<in> set (participants (drop_user uid s))" and "pt_user p = uid"
  shows "\<not> in_touch p"
proof -
  obtain q where q: "p = (if pt_user q = uid \<and> in_touch q then removed_seat q else q)"
    using assms(1) unfolding drop_user_rows set_map by blast
  show ?thesis
  proof (cases "pt_user q = uid \<and> in_touch q")
    case True
    with q show ?thesis by (simp add: removed_seat_def in_touch_def)
  next
    case False
    with q assms(2) show ?thesis by auto
  qed
qed

definition out_of_touch :: "id \<Rightarrow> db \<Rightarrow> bool" where
  "out_of_touch uid s \<longleftrightarrow> (\<forall>p \<in> set (participants s). pt_user p = uid \<longrightarrow> \<not> in_touch p)"

lemma out_of_touch_step:
  "out_of_touch uid s \<Longrightarrow> out_of_touch uid (record_audit e a tg d s)"
  "out_of_touch uid s \<Longrightarrow> out_of_touch uid (set_participant i (\<lambda>p. p\<lparr> pt_state := PRemoved \<rparr>) s)"
  by (simp_all add: out_of_touch_def set_participant_rows) (auto simp: in_touch_def)

lemma end_orphans_out: "out_of_touch uid s \<Longrightarrow> out_of_touch uid (snd (end_orphans gs s))"
  by (induction gs arbitrary: s) (simp_all add: case_prod_beta Let_def out_of_touch_step)

lemma prune_each_out: "out_of_touch uid s \<Longrightarrow> out_of_touch uid (prune_each cs s)"
  by (induction cs arbitrary: s) (simp_all add: prune_orphaned_guardians_def end_orphans_out)

lemma remove_user_out:
  "p \<in> set (participants (snd (remove_user_from_conversations uid r s))) \<Longrightarrow> pt_user p = uid \<Longrightarrow>
   \<not> in_touch p"
  using prune_each_out [of uid "drop_user uid s"] drop_user_out [of _ uid s]
  unfolding remove_user_from_conversations_def Let_def drop_user_def [symmetric] out_of_touch_def
  by (auto split: if_splits simp del: prune_each.simps)

lemma remove_user_frame [simp]:
  "users (snd (remove_user_from_conversations uid r s)) = users s"
  "conversations (snd (remove_user_from_conversations uid r s)) = conversations s"
  "guardianships (snd (remove_user_from_conversations uid r s)) = guardianships s"
proof -
  have "users (prune_each cs s) = users s" "conversations (prune_each cs s) = conversations s"
    "guardianships (prune_each cs s) = guardianships s" for cs s
    by (induction cs arbitrary: s) simp_all
  then show "users (snd (remove_user_from_conversations uid r s)) = users s"
    "conversations (snd (remove_user_from_conversations uid r s)) = conversations s"
    "guardianships (snd (remove_user_from_conversations uid r s)) = guardianships s"
    by (simp_all add: remove_user_from_conversations_def Let_def)
qed

text \<open>
  C2: No consent, no access, for the child and for the adults who came with the child: once a
  user's participation is revoked, the user can read no conversation, and a guardian can still
  observe one only because of another ward who is active in it.
\<close>

theorem revoked_participation_ends_access:
  assumes "messaging_inv s" and "t = snd (remove_user_from_conversations uid r s)"
    and "is_row s g" and "is_conv s c" and "can_view t g c"
  shows "u_id g \<noteq> uid \<and> (u_cohort g \<noteq> cv_cohort c \<longrightarrow>
    (\<exists>w \<in> set (participants t). pt_conv w = cv_id c \<and> pt_user w \<noteq> uid \<and> pt_state w = PActive \<and>
       is_guardian_of s (u_id g) (pt_user w) \<and> has_cohort_row s (pt_user w) Child))"
proof -
  have inv: "messaging_inv t" using remove_user_inv [OF assms(1)] assms(2) by simp
  have out: "p \<in> set (participants t) \<Longrightarrow> pt_user p = uid \<Longrightarrow> pt_state p \<noteq> PActive" for p
    using remove_user_out [of p uid r s] assms(2) by (auto simp: in_touch_def)
  have f: "users t = users s" "conversations t = conversations s" "guardianships t = guardianships s"
    using assms(2) by simp_all
  obtain p where p: "participant_of t (cv_id c) (u_id g) = Some p" "pt_state p = PActive"
    using assms(5) by (auto simp: can_view_def split: option.splits if_splits)
  have "u_id g \<noteq> uid" using participant_of_SomeD [OF p(1)] p(2) out by blast
  moreover have "ward_present t (u_id g) (cv_id c)" if "u_cohort g \<noteq> cv_cohort c"
    using can_view_sound [OF inv, of g c] assms(3-5) that f by (auto simp: is_row_def is_conv_def)
  moreover have "\<exists>w \<in> set (participants t). pt_conv w = cv_id c \<and> pt_user w \<noteq> uid \<and>
      pt_state w = PActive \<and> is_guardian_of s (u_id g) (pt_user w) \<and> has_cohort_row s (pt_user w) Child"
    if wp: "ward_present t (u_id g) (cv_id c)"
  proof -
    obtain w where "w \<in> set (participants t)" "pt_conv w = cv_id c" "pt_user w \<in> ward_ids t (u_id g)"
        "pt_state w = PActive" "has_cohort_row t (pt_user w) Child"
      using wp by (auto simp: ward_present_iff)
    then show ?thesis
      using out [of w] f has_cohort_row_cong [OF f(1)]
      by (intro bexI [of _ w]) (auto simp: ward_ids_def is_guardian_of_def)
  qed
  ultimately show ?thesis by blast
qed

theorem revoked_participation_ends_access_witness:
  "let t = snd (remove_user_from_conversations 6 ''consent'' chat_db) in
     can_view t sample_parent sample_conv \<and>
     (\<exists>w \<in> set (participants t). pt_conv w = 20 \<and> pt_user w \<noteq> 6 \<and> pt_state w = PActive \<and>
        is_guardian_of chat_db 1 (pt_user w) \<and> has_cohort_row chat_db (pt_user w) Child)"
proof -
  let ?t = "snd (remove_user_from_conversations 6 ''consent'' chat_db)"
  have "participants ?t = [new_seat 30 20 2 PActive PAdmin None (Some 0),
      new_seat 31 20 6 PRemoved PMember (Some 2) None, new_seat 32 20 1 PActive PGuardian None (Some 0)]"
    by (simp add: remove_user_from_conversations_def Let_def prune_orphaned_guardians_def
        child_wards_in_def ward_ids_iff is_guardian_of_def has_cohort_row_def in_touch_def chat_defs)
  then have "can_view ?t sample_parent sample_conv"
    by (simp add: can_view_def participant_of_def sample_conv_def sample_parent_def new_seat_def)
  then show ?thesis
    using revoked_participation_ends_access [OF chat_inv refl, of sample_parent sample_conv 6 "''consent''"]
    by (simp add: Let_def) (simp add: chat_defs)
qed

section \<open>Who receives a key\<close>

lemma address_keys_sound:
  "address_keys active provided rks = Inr rows \<Longrightarrow>
   map snd rows = rks \<and> distinct (map rk_public_id rks) \<and> rk_public_id ` set rks \<inter> set provided = {} \<and>
   (\<forall>(u, rk) \<in> set rows. map_of (rev active) (rk_public_id rk) = Some u)"
proof (induction rks arbitrary: provided rows)
  case (Cons rk rks)
  obtain u where u: "map_of (rev active) (rk_public_id rk) = Some u"
    using Cons.prems by (auto split: option.splits)
  obtain rest where rest: "address_keys active (rk_public_id rk # provided) rks = Inr rest"
      "rows = (u, rk) # rest" "rk_public_id rk \<notin> set provided"
    using Cons.prems u by (auto split: if_splits sum.splits)
  show ?case
    using Cons.IH [OF rest(1)] rest(2,3) u by auto
qed simp

lemma key_rows_recipients [simp]:
  "map mk_recipient (key_rows m n rows) = map (\<lambda>r. u_id (fst r)) rows"
  by (induction m n rows rule: key_rows.induct) simp_all

lemma key_rows_message: "k \<in> set (key_rows m n rows) \<Longrightarrow> mk_message k = m"
  by (induction m n rows rule: key_rows.induct) auto

lemma active_user_of:
  "u \<in> set (active_recipient_users s c) \<longleftrightarrow>
   (\<exists>p \<in> set (participants s). pt_conv p = c \<and> pt_state p = PActive \<and> user_row s (pt_user p) = Some u)"
  by (auto simp: active_recipient_users_def List.map_filter_def active_parts_def image_iff)

text \<open>What a successful post checked and stored.\<close>

lemma post_message_success:
  assumes "post_message u c x i rks a s = returned m t"
  defines "s1 \<equiv> snd (rate_ok (u_id u) ''messaging_send'' (st_send_limit (conf s)) s)"
  shows "\<exists>p rows. participant_of s (cv_id c) (u_id u) = Some p \<and> pt_state p = PActive \<and>
    pt_role p \<noteq> PGuardian \<and> u_cohort u = cv_cohort c \<and> can_participate s u \<and>
    address_keys (active_by_public s1 (cv_id c)) [] rks = Inr rows \<and>
    set (map (\<lambda>r. rk_public_id (snd r)) rows) = set (map fst (active_by_public s1 (cv_id c))) \<and>
    store_message u c x i rows a s1 = (m, t)"
  using assms(1) unfolding post_message_def Let_def s1_def case_prod_beta
  by (auto split: if_splits option.splits sum.splits)

lemma active_by_public_frame:
  "users t = users s \<Longrightarrow> participants t = participants s \<Longrightarrow>
   active_by_public t c = active_by_public s c"
  by (simp add: active_by_public_def active_recipient_users_def active_parts_def user_row_def)

definition has_row :: "db \<Rightarrow> id \<Rightarrow> bool" where
  "has_row s i \<longleftrightarrow> user_row s i \<noteq> None"

lemma in_touch_has_row:
  assumes "messaging_inv s" and "p \<in> set (participants s)" and "in_touch p"
  shows "has_row s (pt_user p)"
proof -
  have "\<exists>u \<in> set (users s). u_id u = pt_user p"
    using messaging_invD(2) [OF assms(1,2)] assms(3)
    by (auto simp: seat_ok_def has_cohort_row_def split: if_splits)
  then show ?thesis
    by (auto simp: has_row_def user_row_def find_None_iff)
qed

lemma addressed_once:
  assumes uniq: "unique_by u_public_id (users s)" "unique_by u_id (users s)"
    and sub: "set us \<subseteq> set (users s)" and al: "al = map (\<lambda>u. (u_public_id u, u)) us"
    and rows: "\<forall>(u, rk) \<in> set rows. map_of (rev al) (rk_public_id rk) = Some u"
    and dist: "distinct (map (\<lambda>r. rk_public_id (snd r)) rows)"
    and all: "set (map (\<lambda>r. rk_public_id (snd r)) rows) = set (map fst al)"
  shows "distinct (map (\<lambda>r. u_id (fst r)) rows) \<and> set (map (\<lambda>r. u_id (fst r)) rows) = u_id ` set us"
proof -
  have hit: "fst r \<in> set us \<and> u_public_id (fst r) = rk_public_id (snd r)" if "r \<in> set rows" for r
  proof -
    have "map_of (rev al) (rk_public_id (snd r)) = Some (fst r)"
      using bspec [OF rows that] by (cases r) simp
    then have "(rk_public_id (snd r), fst r) \<in> set al"
      by (auto dest: map_of_SomeD)
    then show ?thesis by (auto simp: al)
  qed
  have "inj_on (\<lambda>r. u_id (fst r)) (set rows)"
  proof (rule inj_onI)
    fix r q assume rq: "r \<in> set rows" "q \<in> set rows" "u_id (fst r) = u_id (fst q)"
    then have "fst r = fst q" using hit sub uniq(2) by (blast dest: unique_byD)
    then have "rk_public_id (snd r) = rk_public_id (snd q)" using hit rq by metis
    then show "r = q" using dist rq by (auto simp: distinct_map inj_on_def)
  qed
  moreover have "distinct rows" using dist by (auto simp: distinct_map)
  moreover have "u_id u \<in> (\<lambda>r. u_id (fst r)) ` set rows" if "u \<in> set us" for u
  proof -
    have "u_public_id u \<in> set (map fst al)" using that by (auto simp: al)
    then obtain r where r: "r \<in> set rows" "rk_public_id (snd r) = u_public_id u"
      using all by (metis (no_types, lifting) imageE list.set_map)
    then have "fst r = u" using hit [OF r(1)] that sub uniq(1) by (metis subset_iff unique_byD)
    with r(1) show ?thesis by blast
  qed
  ultimately show ?thesis
    using hit by (auto simp: distinct_map)
qed

text \<open>
  A stored message is readable by exactly the active members: a successful post appends one
  wrapped key for each active member of the conversation, the sender included, and none for anyone
  else - and the sender is an eligible member of the conversation's cohort, never an observer.
\<close>

theorem post_message_exact:
  assumes inv: "messaging_inv s" and uniq: "unique_by u_public_id (users s)"
    and ok: "post_message u c x i rks a s = returned m t"
  shows "\<exists>ks. message_keys t = message_keys s @ ks \<and> (\<forall>k \<in> set ks. mk_message k = ms_id m) \<and>
    distinct (map mk_recipient ks) \<and>
    mk_recipient ` set ks = {uid. is_active_participant s uid (cv_id c)} \<and>
    u_cohort u = cv_cohort c \<and> can_participate s u"
proof -
  let ?s1 = "snd (rate_ok (u_id u) ''messaging_send'' (st_send_limit (conf s)) s)"
  let ?us = "active_recipient_users s (cv_id c)"
  have act: "active_by_public ?s1 (cv_id c) = map (\<lambda>u. (u_public_id u, u)) ?us"
    using active_by_public_frame [of ?s1 s] by (simp add: active_by_public_def)
  obtain rows where rows: "address_keys (active_by_public ?s1 (cv_id c)) [] rks = Inr rows"
      "set (map (\<lambda>r. rk_public_id (snd r)) rows) = set (map fst (active_by_public ?s1 (cv_id c)))"
      "store_message u c x i rows a ?s1 = (m, t)" "u_cohort u = cv_cohort c" "can_participate s u"
    using post_message_success [OF ok] by blast
  note k = address_keys_sound [OF rows(1)]
  have pub: "map (\<lambda>r. rk_public_id (snd r)) rows = map rk_public_id rks"
    using k by (metis (no_types, lifting) map_map comp_def map_eq_conv)
  have us: "set ?us \<subseteq> set (users s)"
    by (auto simp: active_user_of dest: user_row_SomeD)
  have "u_id ` set ?us = {uid. is_active_participant s uid (cv_id c)}"
  proof (intro set_eqI iffI)
    fix i assume "i \<in> {uid. is_active_participant s uid (cv_id c)}"
    then obtain p where p: "p \<in> set (participants s)" "pt_conv p = cv_id c" "pt_user p = i"
        "pt_state p = PActive"
      by (auto simp: is_active_participant_def)
    then obtain w where "user_row s i = Some w"
      using in_touch_has_row [OF inv p(1)] by (auto simp: in_touch_def has_row_def)
    with p have "w \<in> set ?us" "u_id w = i" by (auto simp: active_user_of dest: user_row_SomeD)
    then show "i \<in> u_id ` set ?us" by blast
  next
    fix i assume "i \<in> u_id ` set ?us"
    then obtain w p where w: "u_id w = i" "user_row s (pt_user p) = Some w"
        "p \<in> set (participants s)" "pt_conv p = cv_id c" "pt_state p = PActive"
      by (auto simp: active_user_of)
    moreover have "pt_user p = i" using user_row_SomeD [OF w(2)] w(1) by simp
    ultimately show "i \<in> {uid. is_active_participant s uid (cv_id c)}"
      by (auto simp: is_active_participant_def)
  qed
  moreover have "distinct (map (\<lambda>r. u_id (fst r)) rows) \<and>
      set (map (\<lambda>r. u_id (fst r)) rows) = u_id ` set ?us"
    by (rule addressed_once [OF uniq _ us act])
      (use inv k rows(2) pub in \<open>auto simp: messaging_inv_def seats_inv_def\<close>)
  moreover have "message_keys t = message_keys s @ key_rows (ms_id m) (Suc (seq s)) rows"
    using rows(3) by (auto simp: store_message_def Let_def)
  ultimately show ?thesis
    using rows(4,5) key_rows_message
    by (intro exI [of _ "key_rows (ms_id m) (Suc (seq s)) rows"]) (auto simp flip: set_map)
qed

definition sample_rk :: "string \<Rightarrow> recipient_key" where
  "sample_rk pub = \<lparr> rk_public_id = pub, rk_ephemeral = JBool True, rk_wrapped = ''w'', rk_iv = ''i'' \<rparr>"

lemma chat_post:
  "\<exists>m t. post_message sample_child sample_conv ''hello'' ''iv'' [sample_rk ''c'', sample_rk ''p''] ''A''
     chat_db = returned m t"
proof -
  let ?s = "snd (rate_ok 2 ''messaging_send'' 60 chat_db)"
  have ok: "fst (rate_ok 2 ''messaging_send'' 60 chat_db)"
    by (simp add: rate_ok_def allow_action_def cache_live_def chat_defs)
  have "active_by_public ?s 20 = [(''c'', sample_child), (''p'', sample_parent)]"
    by (simp add: active_by_public_frame [of ?s chat_db])
      (simp add: active_by_public_def active_recipient_users_def active_parts_def List.map_filter_def
        user_row_def chat_defs)
  moreover have "participant_of chat_db 20 2 = Some (new_seat 30 20 2 PActive PAdmin None (Some 0))"
    by (simp add: participant_of_def chat_defs)
  moreover have "u_id sample_child = 2" "u_cohort sample_child = Child" "cv_id sample_conv = 20"
      "cv_cohort sample_conv = Child" "st_max_group (conf chat_db) = 256"
      "st_send_limit (conf chat_db) = 60" "st_max_ciphertext (conf chat_db) = 65536"
      "utf8_len ''hello'' \<le> 10"
    by (simp_all add: chat_defs utf8_len_def)
  moreover have "card {''c'', ''p''} \<le> 256" by simp
  ultimately show ?thesis
    using ok by (simp add: post_message_def Let_def case_prod_beta sample_rk_def truthy_def)
qed

theorem post_message_exact_witness:
  "\<exists>m t ks. post_message sample_child sample_conv ''hello'' ''iv'' [sample_rk ''c'', sample_rk ''p''] ''A''
       chat_db = returned m t \<and> message_keys t = message_keys chat_db @ ks \<and>
     mk_recipient ` set ks = {uid. is_active_participant chat_db uid 20} \<and> 1 \<in> mk_recipient ` set ks"
proof -
  obtain m t where ok: "post_message sample_child sample_conv ''hello'' ''iv''
      [sample_rk ''c'', sample_rk ''p''] ''A'' chat_db = returned m t"
    using chat_post by blast
  have "unique_by u_public_id (users chat_db)" by (simp add: unique_by_def chat_defs)
  moreover have "is_active_participant chat_db 1 20" "cv_id sample_conv = 20"
    by (simp_all add: is_active_participant_def chat_defs)
  ultimately show ?thesis
    using ok post_message_exact [OF chat_inv _ ok] by auto
qed

section \<open>Pages of messages\<close>

lemma newest_eq: "newest n ms = drop (length ms - n) (sort_key by_time ms)"
  by (simp add: newest_def rev_take)

lemma newest_subset: "set (newest n ms) \<subseteq> set ms"
  using set_drop_subset [of "length ms - n" "sort_key by_time ms"] by (simp add: newest_eq)

lemma by_time_inj: "unique_by ms_id ms \<Longrightarrow> inj_on by_time (set ms)"
  by (auto simp: inj_on_def by_time_def dest: unique_byD)

lemma sorted_by_time:
  assumes "unique_by ms_id ms"
  shows "sorted_wrt (\<lambda>a b. by_time a < by_time b) (sort_key by_time ms)"
proof -
  let ?xs = "sort_key by_time ms"
  have "distinct (map by_time ?xs)"
    using by_time_inj [OF assms] assms
    by (simp add: distinct_map inj_on_def unique_by_def)
  then have "sorted_wrt (<) (map by_time ?xs)"
    by (simp add: strict_sorted_iff)
  then show ?thesis
    by (simp add: sorted_wrt_map)
qed

lemma filter_before_split:
  assumes "sorted_wrt (\<lambda>a b. by_time a < by_time b) (xs @ a # ys)"
  shows "filter (\<lambda>m. by_time m < by_time a) (xs @ a # ys) = xs"
proof -
  have "filter (\<lambda>m. by_time m < by_time a) ys = []"
    using assms by (auto simp: sorted_wrt_append filter_empty_conv)
  moreover have "filter (\<lambda>m. by_time m < by_time a) xs = xs"
    using assms by (auto simp: sorted_wrt_append filter_id_conv)
  ultimately show ?thesis by simp
qed

lemma newest_pages:
  assumes uniq: "unique_by ms_id qs" and page: "newest n qs = a # page"
  shows "newest (k + n) qs = newest k (filter (\<lambda>m. by_time m < by_time a) qs) @ newest n qs"
proof -
  let ?xs = "sort_key by_time qs"
  let ?pre = "take (length qs - n) ?xs"
  have split: "?xs = ?pre @ a # page"
    using page append_take_drop_id [of "length qs - n" ?xs] by (simp add: newest_eq)
  have fl: "sort_key by_time (filter (\<lambda>m. by_time m < by_time a) qs) = ?pre"
    using filter_before_split [of ?pre a page] sorted_by_time [OF uniq] split
    by (simp add: filter_sort [symmetric])
  then have len: "length (filter (\<lambda>m. by_time m < by_time a) qs) = length qs - n"
    by (metis diff_le_self length_sort length_take min.absorb2 length_take min.absorb_iff2)
  have "newest k (filter (\<lambda>m. by_time m < by_time a) qs) = drop (length qs - n - k) ?pre"
    by (simp only: newest_eq fl len)
  moreover have "newest (k + n) qs = drop (length qs - (k + n)) (?pre @ a # page)"
    using split by (simp add: newest_eq)
  ultimately show ?thesis
    using page by (simp add: newest_eq add.commute)
qed

text \<open>
  Scrolling back loses and repeats nothing: the page of \<open>k\<close> messages before the oldest
  message of a page of \<open>n\<close>, put in front of that page, is exactly the page of \<open>k + n\<close> newest
  messages - also when messages share a timestamp - and each message comes with the key wrapped to
  this reader.
\<close>

theorem scroll_back_exact:
  assumes uniq: "unique_by ms_id (messages s)"
    and page: "messages_for u c n None None s = Inr ((a, key) # page)"
    and before: "messages_for u c k None (Some (ms_id a)) s = Inr older" and "ms_id a \<noteq> 0"
  shows "messages_for u c (k + n) None None s = Inr (older @ (a, key) # page) \<and>
    (\<forall>(m, w) \<in> set (older @ (a, key) # page). ms_conv m = cv_id c \<and>
       (\<exists>mk \<in> set (message_keys s). w = Some mk \<and> mk_message mk = ms_id m \<and> mk_recipient mk = u_id u))"
proof -
  let ?qs = "filter (\<lambda>m. ms_conv m = cv_id c \<and> key_for s (ms_id m) (u_id u) \<noteq> None) (messages s)"
  let ?ann = "map (\<lambda>m. (m, key_for s (ms_id m) (u_id u)))"
  have view: "can_view s u c" using page by (auto simp: messages_for_def split: if_splits)
  then have p: "(a, key) # page = ?ann (newest n ?qs)"
    using page by (simp add: messages_for_def Let_def)
  then obtain rest where rest: "newest n ?qs = a # rest" by (auto simp: Cons_eq_map_conv)
  have "a \<in> set ?qs" using newest_subset [of n ?qs] unfolding rest by simp
  then have a: "a \<in> set (messages s)" "ms_conv a = cv_id c" by auto
  have "List.find (\<lambda>m. Some (ms_id m) = Some (ms_id a) \<and> ms_conv m = cv_id c) (messages s) = Some a"
  proof -
    have "List.find (\<lambda>m. ms_id m = ms_id a) (messages s) = Some a"
      by (rule unique_by_find [OF uniq a(1)])
    moreover have "List.find (\<lambda>m. Some (ms_id m) = Some (ms_id a) \<and> ms_conv m = cv_id c) (messages s)
        = List.find (\<lambda>m. ms_id m = ms_id a) (messages s)"
      by (rule find_cong_pred) (use uniq a in \<open>auto dest: unique_byD\<close>)
    ultimately show ?thesis by simp
  qed
  then have o: "older = ?ann (newest k (filter (\<lambda>m. by_time m < by_time a) ?qs))"
    using before view assms(4) by (simp add: messages_for_def Let_def)
  have u: "unique_by ms_id ?qs" by (rule unique_by_filter [OF uniq])
  have all: "older @ (a, key) # page = ?ann (newest (k + n) ?qs)"
    unfolding o p newest_pages [OF u rest, of k] by simp
  moreover have "messages_for u c (k + n) None None s = Inr (?ann (newest (k + n) ?qs))"
    using view by (simp add: messages_for_def Let_def)
  moreover have key: "ms_conv m = cv_id c \<and> (\<exists>mk \<in> set (message_keys s).
      key_for s (ms_id m) (u_id u) = Some mk \<and> mk_message mk = ms_id m \<and> mk_recipient mk = u_id u)"
    if m: "m \<in> set ?qs" for m
  proof -
    obtain w where "key_for s (ms_id m) (u_id u) = Some w" using m by auto
    then show ?thesis
      using m find_SomeD [of _ "message_keys s" w] unfolding key_for_def by auto
  qed
  moreover have "\<forall>(m, w) \<in> set (?ann (newest (k + n) ?qs)). ms_conv m = cv_id c \<and>
      (\<exists>mk \<in> set (message_keys s). w = Some mk \<and> mk_message mk = ms_id m \<and> mk_recipient mk = u_id u)"
  proof
    fix x assume "x \<in> set (?ann (newest (k + n) ?qs))"
    then obtain m where m: "m \<in> set ?qs" "x = (m, key_for s (ms_id m) (u_id u))"
      using newest_subset [of "k + n" ?qs] by (simp only: set_map) blast
    show "case x of (m, w) \<Rightarrow> ms_conv m = cv_id c \<and>
        (\<exists>mk \<in> set (message_keys s). w = Some mk \<and> mk_message mk = ms_id m \<and> mk_recipient mk = u_id u)"
      unfolding m(2) prod.case by (rule key [OF m(1)])
  qed
  ultimately show ?thesis
    unfolding all by (intro conjI)
qed

theorem scroll_back_exact_witness:
  "messages_for sample_child sample_conv (1 + 1) None None chat_db =
     Inr [(sample_message 41 2, Some (sample_key 44 41)), (sample_message 42 2, Some (sample_key 45 42))]"
proof -
  have "participant_of chat_db 20 2 = Some (new_seat 30 20 2 PActive PAdmin None (Some 0))"
    "u_id sample_child = 2" "cv_id sample_conv = 20" "u_active sample_child"
    "u_cohort sample_child = cv_cohort sample_conv"
    by (simp_all add: participant_of_def chat_defs)
  then have v: "can_view chat_db sample_child sample_conv"
    by (simp add: can_view_def)
  have m: "messages chat_db = [sample_message 40 1, sample_message 41 2, sample_message 42 2]"
      "u_id sample_child = 2" "cv_id sample_conv = 20" "message_keys chat_db =
        [sample_key 43 40, sample_key 44 41, sample_key 45 42]"
      "ms_id (sample_message i t) = i" "ms_conv (sample_message i t) = 20"
      "ms_created_at (sample_message i t) = t" "mk_message (sample_key i j) = j"
      "mk_recipient (sample_key i j) = 2" for i j t
    by (simp_all add: chat_defs)
  have "messages_for sample_child sample_conv 1 None None chat_db =
      Inr [(sample_message 42 2, Some (sample_key 45 42))]"
    "messages_for sample_child sample_conv 1 None (Some 42) chat_db =
      Inr [(sample_message 41 2, Some (sample_key 44 41))]"
    using v by (simp_all add: messages_for_def Let_def m key_for_def newest_def by_time_def)
  moreover have "unique_by ms_id (messages chat_db)" by (simp add: unique_by_def m)
  ultimately show ?thesis
    using scroll_back_exact [of chat_db sample_child sample_conv 1 "sample_message 42 2"
        "Some (sample_key 45 42)" "[]" 1] m by simp
qed

section \<open>Disappearing messages\<close>

definition expired_message :: "db \<Rightarrow> time \<Rightarrow> message \<Rightarrow> bool" where
  "expired_message s now m \<longleftrightarrow>
     (\<exists>c \<in> set (conversations s). cv_id c = ms_conv m \<and> 0 < cv_disappearing c \<and>
        ms_created_at m < now - seconds (int (cv_disappearing c))) \<or>
     (st_retention_days (conf s) \<noteq> 0 \<and> ms_created_at m < now - days (st_retention_days (conf s)))"

lemma delete_messages_simps [simp]:
  "messages (snd (delete_messages P s)) = filter (\<lambda>m. \<not> P m) (messages s)"
  "fst (delete_messages P s) = length (filter P (messages s))"
  by (simp_all add: delete_messages_def Let_def)

definition overdue :: "time \<Rightarrow> conversation list \<Rightarrow> message \<Rightarrow> bool" where
  "overdue now cs m \<longleftrightarrow> (\<exists>c \<in> set cs. ms_conv m = cv_id c \<and>
     ms_created_at m < now - seconds (int (cv_disappearing c)))"

lemma purge_timed_messages:
  "messages (snd (purge_timed now cs s)) = filter (\<lambda>m. \<not> overdue now cs m) (messages s) \<and>
   fst (purge_timed now cs s) = length (filter (overdue now cs) (messages s)) \<and>
   conf (snd (purge_timed now cs s)) = conf s"
proof (induction cs arbitrary: s)
  case (Cons c cs)
  let ?P = "\<lambda>m. ms_conv m = cv_id c \<and> ms_created_at m < now - seconds (int (cv_disappearing c))"
  have o: "overdue now (c # cs) = (\<lambda>m. ?P m \<or> overdue now cs m)"
    by (auto simp: overdue_def fun_eq_iff)
  have "length (filter ?P ms) + length (filter (overdue now cs) (filter (\<lambda>m. \<not> ?P m) ms)) =
      length (filter (\<lambda>m. ?P m \<or> overdue now cs m) ms)" for ms
    by (induction ms) auto
  with Cons [of "snd (delete_messages ?P s)"] show ?case
    by (simp add: Let_def case_prod_beta o conj_commute)
qed (simp add: overdue_def)

lemma purge_messages_result:
  defines "dead s moment \<equiv> expired_message s (case moment of None \<Rightarrow> clock s | Some t \<Rightarrow> t)"
  shows "messages (snd (purge_expired_messages moment s)) = filter (\<lambda>m. \<not> dead s moment m) (messages s)"
    and "fst (purge_expired_messages moment s) = length (filter (dead s moment) (messages s))"
proof -
  let ?now = "case moment of None \<Rightarrow> clock s | Some t \<Rightarrow> t"
  let ?O = "overdue ?now (filter (\<lambda>c. 0 < cv_disappearing c) (conversations s))"
  let ?R = "\<lambda>m. ms_created_at m < ?now - days (st_retention_days (conf s))"
  have d: "dead s moment = (\<lambda>m. ?O m \<or> st_retention_days (conf s) \<noteq> 0 \<and> ?R m)"
    unfolding dead_def expired_message_def overdue_def by (auto simp: fun_eq_iff)
  have "length (filter ?O ms) + length (filter ?R (filter (\<lambda>m. \<not> ?O m) ms)) =
      length (filter (\<lambda>m. ?O m \<or> ?R m) ms)" for ms
    by (induction ms) auto
  with purge_timed_messages [of ?now "filter (\<lambda>c. 0 < cv_disappearing c) (conversations s)" s]
  show "messages (snd (purge_expired_messages moment s)) = filter (\<lambda>m. \<not> dead s moment m) (messages s)"
    "fst (purge_expired_messages moment s) = length (filter (dead s moment) (messages s))"
    by (simp_all add: purge_expired_messages_def Let_def case_prod_beta d conj_commute)
qed

text \<open>
  The purge removes exactly the expired messages: what remains is what neither its
  conversation's timer nor the global retention covers, in order, and the number it reports is the
  number it removed.
\<close>

theorem purge_exact:
  "messages (snd (purge_expired_messages (Some now) s)) =
     filter (\<lambda>m. \<not> expired_message s now m) (messages s) \<and>
   fst (purge_expired_messages (Some now) s) + length (messages (snd (purge_expired_messages (Some now) s)))
     = length (messages s)"
  using purge_messages_result [of "Some now" s] sum_length_filter_compl [of "expired_message s now" "messages s"]
  by simp

section \<open>Keys\<close>

lemma register_public_key_ok:
  assumes "register_public_key u j a w kid s = returned k t"
  shows "pubkeys t = update_rows (\<lambda>k. pk_user k = u_id u \<and> pk_active k)
      (\<lambda>k. k\<lparr> pk_active := False \<rparr>) (pubkeys s) @ [k]"
    and "pk_user k = u_id u" "pk_active k" "pk_jwk k = j" "looks_like_public_jwk j"
    and "verifications t = verifications s" "lib t = lib s"
  using assms by (auto simp: register_public_key_def Let_def split: if_splits)

lemma public_key_for_registered:
  assumes "register_public_key u j a w kid s = returned k t"
  shows "public_key_for t (u_id u) = Some k"
proof -

  have "List.find (\<lambda>k. pk_user k = u_id u \<and> pk_active k) (update_rows
      (\<lambda>k. pk_user k = u_id u \<and> pk_active k) (\<lambda>k. k\<lparr> pk_active := False \<rparr>) ks @ [k]) = Some k" for ks
    using register_public_key_ok(2,3) [OF assms] by (induction ks) auto
  then show ?thesis
    by (simp add: public_key_for_def register_public_key_ok(1) [OF assms])
qed

lemma record_key_verification_ok:
  assumes "record_key_verification v u fp s = returned () t"
  shows "\<exists>k. public_key_for s (u_id u) = Some k \<and> fp = key_fingerprint (lib s) (pk_jwk k) \<and>
    pubkeys t = pubkeys s \<and> lib t = lib s \<and>
    (\<exists>x \<in> set (verifications t). kv_verifier x = u_id v \<and> kv_subject x = u_id u) \<and>
    (\<forall>x \<in> set (verifications t). kv_verifier x = u_id v \<and> kv_subject x = u_id u \<longrightarrow>
       kv_fingerprint x = fp)"
proof -
  let ?mine = "\<lambda>x. kv_verifier x = u_id v \<and> kv_subject x = u_id u"
  let ?set = "\<lambda>x. x\<lparr> kv_fingerprint := fp \<rparr>"
  have "(\<exists>x \<in> set (update_rows ?mine ?set vs). ?mine x)" if "\<exists>x \<in> set vs. ?mine x" for vs
    using that by (induction vs) auto
  moreover have "\<forall>x \<in> set (update_rows ?mine ?set vs). ?mine x \<longrightarrow> kv_fingerprint x = fp" for vs
    by (induction vs) auto
  ultimately have upd: "(\<exists>x \<in> set (update_rows ?mine ?set vs). ?mine x) \<and>
      (\<forall>x \<in> set (update_rows ?mine ?set vs). ?mine x \<longrightarrow> kv_fingerprint x = fp)"
    if "\<exists>x \<in> set vs. ?mine x" for vs
    using that by blast
  obtain k where k: "public_key_for s (u_id u) = Some k" "fp = key_fingerprint (lib s) (pk_jwk k)"
    using assms by (auto simp: record_key_verification_def Let_def split: if_splits option.splits)
  moreover have "can_message s v u"
    using assms by (auto simp: record_key_verification_def split: if_splits)
  ultimately show ?thesis
    using assms upd [of "verifications s"]
    by (auto simp: record_key_verification_def Let_def split: if_splits)
qed

text \<open>
  A safety number speaks for one key only: verifying a contact makes the contact verified, and
  when the contact registers a key with another fingerprint the contact is unverified again, with
  the new fingerprint shown, until verified anew.
\<close>

theorem rotation_unverifies:
  assumes ver: "record_key_verification v u fp s = returned () s1"
    and reg: "register_public_key u j a w kid s1 = returned k s2"
    and other: "key_fingerprint (lib s) j \<noteq> fp"
  shows "verification_status s1 (u_id v) (u_id u) = (Some fp, True) \<and>
    verification_status s2 (u_id v) (u_id u) = (Some (key_fingerprint (lib s) j), False)"
proof -
  obtain k0 where k0: "public_key_for s (u_id u) = Some k0" "fp = key_fingerprint (lib s) (pk_jwk k0)"
      "pubkeys s1 = pubkeys s" "lib s1 = lib s"
      "\<exists>x \<in> set (verifications s1). kv_verifier x = u_id v \<and> kv_subject x = u_id u"
      "\<forall>x \<in> set (verifications s1). kv_verifier x = u_id v \<and> kv_subject x = u_id u \<longrightarrow> kv_fingerprint x = fp"
    using record_key_verification_ok [OF ver] by blast
  then have "verification_status s1 (u_id v) (u_id u) = (Some fp, True)"
    by (auto simp: verification_status_def public_key_for_def Let_def)
  moreover have "verification_status s2 (u_id v) (u_id u) = (Some (key_fingerprint (lib s) j), False)"
    using public_key_for_registered [OF reg] register_public_key_ok [OF reg] k0 other
    by (auto simp: verification_status_def Let_def)
  ultimately show ?thesis ..
qed

theorem rotation_unverifies_witness:
  "\<exists>fp s1 k s2. record_key_verification sample_child sample_friend fp chat_db = returned () s1 \<and>
     register_public_key sample_friend (sample_jwk ''2'') ''P-256'' None ''id'' s1 = returned k s2 \<and>
     snd (verification_status s1 2 6) \<and> \<not> snd (verification_status s2 2 6)"
proof -
  let ?fp = "key_fingerprint toy_lib (sample_jwk ''1'')"
  have "public_key_for chat_db 6 = Some \<lparr> pk_id = 33, pk_user = 6, pk_algorithm = ''P-256'',
      pk_jwk = sample_jwk ''1'', pk_wrapped = None, pk_active = True, pk_created_at = 0 \<rparr>"
    by (simp add: public_key_for_def chat_defs)
  moreover have u: "u_id sample_friend = 6" "u_id sample_child = 2" "lib chat_db = toy_lib"
    by (simp_all add: chat_defs)
  moreover have "can_message chat_db sample_child sample_friend"
  proof -
    have "\<not> is_blocked chat_db 2 6" by (simp add: is_blocked_def chat_defs)
    moreover have "u_active sample_friend" "u_cohort sample_friend = Child" "u_cohort sample_child = Child"
      by (simp_all add: sample_friend_def sample_child_def)
    ultimately show ?thesis using u by (simp add: can_message_def)
  qed
  ultimately obtain s1 where s1: "record_key_verification sample_child sample_friend ?fp chat_db = returned () s1"
      "assurances s1 = assurances chat_db" "consents s1 = consents chat_db" "clock s1 = clock chat_db"
    by (simp add: record_key_verification_def Let_def)
  have "can_participate s1 sample_friend"
    using can_participate_cong [of s1 chat_db sample_friend] s1 by simp
  moreover have "looks_like_public_jwk (sample_jwk ''2'')"
    by (simp add: looks_like_public_jwk_def jobj_get_def truthy_def sample_jwk_def)
  ultimately obtain k s2 where s2:
      "register_public_key sample_friend (sample_jwk ''2'') ''P-256'' None ''id'' s1 = returned k s2"
    by (simp add: register_public_key_def Let_def)
  have "key_fingerprint toy_lib (sample_jwk ''2'') \<noteq> ?fp" by code_simp
  then show ?thesis
    using rotation_unverifies [OF s1(1) s2] s1(1) s2 u by (metis snd_conv)
qed

end
