(* ===== verification/Standing_Groups.thy ===== *)
theory Standing_Groups
  imports Safety
begin

text \<open>
  Standing groups (apps/social/services.py): discovery, creation and curation, open joining,
  leaving, eviction, the roster and archiving. The errors are those of the social services;
  \<open>IntegrityError\<close> is the database refusing a row that breaks a unique constraint.
\<close>

datatype social_error =
    NotEligible string
  | NotAMember string
  | InvalidState string
  | IntegrityError

definition has_cohort :: "user \<Rightarrow> bool" where
  "has_cohort u \<longleftrightarrow> u_cohort u \<noteq> Unassigned"

definition is_minor :: "cohort \<Rightarrow> bool" where
  "is_minor c \<longleftrightarrow> c = Child \<or> c = Teen"

section \<open>Discovery\<close>

definition group_user_creation_cohorts :: "db \<Rightarrow> cohort set" where
  "group_user_creation_cohorts s = set (st_group_cohorts (conf s)) - {Unassigned, Child, Teen}"

definition visible_groups :: "db \<Rightarrow> user \<Rightarrow> group list" where
  "visible_groups s v =
     (if u_cohort v = Unassigned then []
      else sort_key gp_title (filter (\<lambda>g. gp_cohort g = u_cohort v \<and> gp_status g = GActive \<and>
             \<not> gp_hidden g \<and> gp_owner g \<notin> blocked_user_ids s (u_id v)) (groups s)))"

definition visible_group :: "db \<Rightarrow> user \<Rightarrow> id \<Rightarrow> group option" where
  "visible_group s v gid = List.find (\<lambda>g. gp_id g = gid) (visible_groups s v)"

definition group_by_id :: "db \<Rightarrow> id \<Rightarrow> user \<Rightarrow> group option" where
  "group_by_id s gid v =
     (if u_staff v then List.find (\<lambda>g. gp_id g = gid) (groups s) else visible_group s v gid)"

definition is_active_user :: "db \<Rightarrow> id \<Rightarrow> bool" where
  "is_active_user s i = (case user_row s i of None \<Rightarrow> False | Some u \<Rightarrow> u_active u)"

definition public_groups :: "db \<Rightarrow> group list" where
  "public_groups s = sort_key gp_title (filter (\<lambda>g. gp_cohort g = Adult \<and> gp_publicly_listed g \<and>
     gp_status g = GActive \<and> \<not> gp_hidden g \<and> is_active_user s (gp_owner g)) (groups s))"

section \<open>Creation\<close>

definition group_target :: "id \<Rightarrow> (string \<times> id) option" where
  "group_target g = Some (''social.group'', g)"

fun cohort_value :: "cohort \<Rightarrow> string" where
  "cohort_value Unassigned = ''unassigned''"
| "cohort_value Child = ''child''"
| "cohort_value Teen = ''teen''"
| "cohort_value Adult = ''adult''"

text \<open>The gates on who may create a group of a cohort; on success, whether it is staff-curated.\<close>

definition group_creation_gate :: "db \<Rightarrow> user \<Rightarrow> cohort \<Rightarrow> bool \<Rightarrow> social_error + bool" where
  "group_creation_gate s actor target curated =
     (if target = Unassigned then Inl (NotEligible ''Group creation is not available for your account.'')
      else if \<not> u_staff actor \<and> target \<noteq> u_cohort actor
      then Inl (NotEligible ''You can only create a group in your own cohort.'')
      else if is_minor target
      then (if \<not> u_staff actor then Inl (NotEligible ''Groups for under-18s are created by staff only.'')
            else if \<not> minor_onboarding_enabled s
            then Inl (NotEligible ''Minor groups are not enabled on this deployment.'')
            else Inr True)
      else if target \<notin> group_user_creation_cohorts s
      then Inl (NotEligible ''Group creation is not available for that cohort.'')
      else if \<not> u_staff actor \<and> \<not> st_groups_user_created (conf s)
      then Inl (NotEligible ''Group creation is staff-only on this deployment for now.'')
      else Inr (if u_staff actor then True else curated))"

text \<open>The unique constraints on live groups: one per coordinate and cohort.\<close>

definition coordinate_taken :: "db \<Rightarrow> cohort \<Rightarrow> id \<Rightarrow> id option \<Rightarrow> id \<Rightarrow> bool" where
  "coordinate_taken s c area ty cat \<longleftrightarrow> (\<exists>g \<in> set (groups s). gp_status g = GActive \<and>
     gp_cohort g = c \<and> gp_area g = area \<and>
     (case ty of Some t \<Rightarrow> gp_type g = Some t | None \<Rightarrow> gp_type g = None \<and> gp_category g = cat))"

definition insert_group ::
  "user \<Rightarrow> id \<Rightarrow> string \<Rightarrow> id option \<Rightarrow> id \<Rightarrow> string \<Rightarrow> cohort \<Rightarrow> bool \<Rightarrow> db \<Rightarrow> group \<times> db" where
  "insert_group actor area title ty cat desc target curated s =
     (let g = \<lparr> gp_id = seq s, gp_owner = u_id actor, gp_area = area, gp_category = cat,
               gp_type = ty, gp_tier = (if ty = None then TierCategory else TierType),
               gp_cohort = target, gp_title = title, gp_description = desc, gp_status = GActive,
               gp_hidden = False, gp_publicly_listed = False, gp_staff_curated = curated \<rparr>;
          m = \<lparr> gm_id = Suc (seq s), gm_group = seq s, gm_user = u_id actor, gm_role = GOwner,
               gm_state = GmMember, gm_joined_at = clock s \<rparr>
      in (g, record_audit ''group.created'' (Some (u_id actor)) (group_target (gp_id g))
               [(''cohort'', JStr (cohort_value target)), (''staff_curated'', JBool curated)]
               (s\<lparr> groups := groups s @ [g], group_memberships := group_memberships s @ [m],
                   threads := threads s @ [\<lparr> th_id = Suc (Suc (seq s)), th_activity = None,
                                             th_group = Some (seq s) \<rparr>],
                   seq := seq s + 3 \<rparr>)))"

definition create_group ::
  "user \<Rightarrow> id \<Rightarrow> string \<Rightarrow> activity_type option \<Rightarrow> id option \<Rightarrow> string \<Rightarrow> cohort option \<Rightarrow> bool \<Rightarrow> db \<Rightarrow>
   (social_error, group, db) outcome" where
  "create_group actor area title ty cat desc chosen curated s =
     (if \<not> can_participate s actor \<or> \<not> has_cohort actor
      then raised (NotEligible ''You need verified, consented participation and a cohort to create a group.'') s
      else let target = (case chosen of None \<Rightarrow> u_cohort actor | Some c \<Rightarrow> c) in
        case group_creation_gate s actor target curated of
          Inl e \<Rightarrow> raised e s
        | Inr cur \<Rightarrow>
            (case (case ty of Some t \<Rightarrow> Some (ty_category t) | None \<Rightarrow> cat) of
               None \<Rightarrow> raised (InvalidState ''A group needs an activity type or a category.'') s
             | Some category \<Rightarrow>
                 let (ok, s1) = allow_action (u_id actor) ''group_create''
                       (st_group_create_limit (conf s)) (st_group_create_window (conf s)) s;
                     tid = map_option ty_id ty
                 in if \<not> ok then raised (InvalidState ''You are creating groups too quickly; slow down.'') s1
                    else if coordinate_taken s1 target area tid category then raised IntegrityError s1
                    else let (g, s2) = insert_group actor area title tid category desc target cur s1
                         in returned g s2))"

section \<open>Membership\<close>

definition group_membership_of :: "db \<Rightarrow> id \<Rightarrow> id \<Rightarrow> group_membership option" where
  "group_membership_of s gid uid =
     List.find (\<lambda>m. gm_group m = gid \<and> gm_user m = uid) (group_memberships s)"

definition set_group_state :: "id \<Rightarrow> gm_state \<Rightarrow> db \<Rightarrow> db" where
  "set_group_state mid st s =
     s\<lparr> group_memberships := update_rows (\<lambda>m. gm_id m = mid) (\<lambda>m. m\<lparr> gm_state := st \<rparr>)
          (group_memberships s) \<rparr>"

definition join_group ::
  "user \<Rightarrow> id \<Rightarrow> db \<Rightarrow> (social_error, unit, db) outcome" where
  "join_group u gid s =
     (case visible_group s u gid of
        None \<Rightarrow> raised (NotAMember ''No such group.'') s
      | Some g \<Rightarrow>
          if \<not> can_participate s u
          then raised (NotEligible ''Joining requires verified, consented participation.'') s
          else if u_id u \<noteq> gp_owner g \<and> is_blocked s (u_id u) (gp_owner g)
          then raised (InvalidState ''This group is no longer available.'') s
          else let existing = group_membership_of s gid (u_id u) in
            if (case existing of None \<Rightarrow> False | Some m \<Rightarrow> gm_state m = GmMember) then returned () s
            else let (ok, s1) = allow_action (u_id u) ''group_join''
                   (st_group_join_limit (conf s)) (st_group_join_window (conf s)) s
              in if \<not> ok then raised (InvalidState ''You are joining groups too quickly; slow down.'') s1
                 else returned () (record_audit ''group.joined'' (Some (u_id u)) (group_target gid) []
                   (case existing of
                      Some m \<Rightarrow> set_group_state (gm_id m) GmMember s1
                    | None \<Rightarrow> s1\<lparr> group_memberships := group_memberships s1 @
                          [\<lparr> gm_id = seq s1, gm_group = gid, gm_user = u_id u, gm_role = GMember,
                             gm_state = GmMember, gm_joined_at = clock s1 \<rparr>],
                        seq := Suc (seq s1) \<rparr>)))"

definition leave_group :: "user \<Rightarrow> id \<Rightarrow> db \<Rightarrow> (social_error, bool, db) outcome" where
  "leave_group u gid s =
     (case visible_group s u gid of
        None \<Rightarrow> returned False s
      | Some g \<Rightarrow>
          (case group_membership_of s gid (u_id u) of
             None \<Rightarrow> returned False s
           | Some m \<Rightarrow>
               if gm_state m \<noteq> GmMember then returned False s
               else if gm_role m = GOwner
               then raised (InvalidState ''The owner cannot leave their own group; archive it instead.'') s
               else returned True (record_audit ''group.left'' (Some (u_id u)) (group_target gid) []
                      (set_group_state (gm_id m) GmLeft s))))"

definition remove_user_from_groups :: "id \<Rightarrow> string \<Rightarrow> db \<Rightarrow> nat \<times> db" where
  "remove_user_from_groups uid reason s =
     (let mine = (\<lambda>m. gm_user m = uid \<and> gm_state m = GmMember);
          n = count_rows mine (group_memberships s);
          s1 = s\<lparr> group_memberships := update_rows mine (\<lambda>m. m\<lparr> gm_state := GmRemoved \<rparr>)
                     (group_memberships s) \<rparr>
      in (n, if n = 0 then s1
             else record_audit ''group.participation_revoked'' (Some uid) None
                    [(''count'', JInt (int n)), (''reason'', JStr reason)] s1))"

definition group_roster :: "db \<Rightarrow> group \<Rightarrow> user \<Rightarrow> user list option" where
  "group_roster s g v =
     (if u_cohort v \<noteq> gp_cohort g then None
      else if u_cohort v = Child \<or> u_cohort v = Teen then None
      else if \<not> (\<exists>m \<in> set (group_memberships s). gm_group m = gp_id g \<and> gm_user m = u_id v \<and>
                   gm_state m = GmMember) then None
      else let rows = sort_key gm_joined_at (filter (\<lambda>m. gm_group m = gp_id g \<and> gm_state m = GmMember \<and>
                        gm_user m \<notin> blocked_user_ids s (u_id v)) (group_memberships s))
           in Some (filter (\<lambda>u. u_cohort u = gp_cohort g \<and> u_active u \<and> can_participate s u)
                     (List.map_filter (\<lambda>m. user_row s (gm_user m)) rows)))"

definition group_member_count :: "db \<Rightarrow> group \<Rightarrow> user \<Rightarrow> nat option" where
  "group_member_count s g v = map_option length (group_roster s g v)"

definition archive_group :: "user \<Rightarrow> group \<Rightarrow> db \<Rightarrow> (social_error, unit, db) outcome" where
  "archive_group actor g s =
     (if u_id actor \<noteq> gp_owner g \<and> \<not> u_staff actor
      then raised (NotAMember ''Only the owner or staff can archive a group.'') s
      else if gp_status g \<noteq> GActive then returned () s
      else returned () (record_audit ''group.archived'' (Some (u_id actor)) (group_target (gp_id g)) []
             (s\<lparr> groups := update_rows (\<lambda>h. gp_id h = gp_id g) (\<lambda>h. h\<lparr> gp_status := GArchived \<rparr>)
                             (groups s) \<rparr>)))"

definition set_group_listing :: "user \<Rightarrow> group \<Rightarrow> bool \<Rightarrow> db \<Rightarrow> (social_error, unit, db) outcome" where
  "set_group_listing owner g listed s =
     (if gp_owner g \<noteq> u_id owner then raised (NotAMember ''Only the organiser may change this.'') s
      else if gp_cohort g \<noteq> Adult
      then raised (InvalidState ''Only adult activities and groups can be listed publicly.'') s
      else returned () (record_audit ''group.public_listing'' (Some (u_id owner)) (group_target (gp_id g))
             [(''listed'', JBool listed)]
             (s\<lparr> groups := update_rows (\<lambda>h. gp_id h = gp_id g)
                   (\<lambda>h. h\<lparr> gp_publicly_listed := listed \<rparr>) (groups s) \<rparr>)))"

end
