(* ===== verification/Groups_Laws.thy ===== *)
theory Groups_Laws
  imports Standing_Groups
begin

text \<open>
  The invariant of standing groups, its preservation by every operation, and the properties: who
  is a member, which groups exist for minors, and what a roster shows.
\<close>

section \<open>The invariant\<close>

definition member_ok :: "db \<Rightarrow> group_membership \<Rightarrow> bool" where
  "member_ok s m \<longleftrightarrow> (\<exists>g \<in> set (groups s). gp_id g = gm_group m \<and>
     (gm_state m = GmMember \<longrightarrow>
        (gm_role m = GOwner \<and> gm_user m = gp_owner g) \<or> has_cohort_row s (gm_user m) (gp_cohort g)))"

definition coordinate :: "group \<Rightarrow> cohort \<times> id \<times> id option \<times> id" where
  "coordinate g = (gp_cohort g, gp_area g, gp_type g, (if gp_type g = None then gp_category g else 0))"

definition group_ok :: "db \<Rightarrow> group \<Rightarrow> bool" where
  "group_ok s g \<longleftrightarrow> gp_id g < seq s \<and> gp_cohort g \<noteq> Unassigned \<and>
     (gp_publicly_listed g \<longrightarrow> gp_cohort g = Adult) \<and>
     (is_minor (gp_cohort g) \<longrightarrow> gp_staff_curated g)"

definition live_groups :: "db \<Rightarrow> group list" where
  "live_groups s = filter (\<lambda>g. gp_status g = GActive) (groups s)"

definition groups_inv :: "db \<Rightarrow> bool" where
  "groups_inv s \<longleftrightarrow> unique_by gp_id (groups s) \<and> unique_by gm_id (group_memberships s) \<and>
     unique_by (\<lambda>m. (gm_group m, gm_user m)) (group_memberships s) \<and>
     unique_by coordinate (live_groups s) \<and> (\<forall>g \<in> set (groups s). group_ok s g) \<and>
     (\<forall>m \<in> set (group_memberships s). gm_id m < seq s \<and> member_ok s m)"

lemma member_ok_cong:
  "users t = users s \<Longrightarrow> groups t = groups s \<Longrightarrow> member_ok t = member_ok s"
  by (simp add: member_ok_def fun_eq_iff has_cohort_row_def)

lemma groups_inv_cong:
  assumes "users t = users s" "groups t = groups s" "group_memberships t = group_memberships s"
    and "seq s \<le> seq t" and "groups_inv s"
  shows "groups_inv t"
  using assms(4,5) member_ok_cong [OF assms(1,2)] unfolding groups_inv_def live_groups_def assms(2,3)
  by (auto simp: group_ok_def intro: less_le_trans)

lemma groups_inv_audit [simp]: "groups_inv s \<Longrightarrow> groups_inv (record_audit e a tg d s)"
  by (rule groups_inv_cong) simp_all

lemma groups_inv_allow [simp]: "groups_inv s \<Longrightarrow> groups_inv (snd (allow_action u a l w s))"
  by (rule groups_inv_cong) simp_all

section \<open>Memberships\<close>

lemma update_members_inv:
  assumes inv: "groups_inv s"
    and keep: "\<And>m. gm_id (f m) = gm_id m \<and> gm_group (f m) = gm_group m \<and> gm_user (f m) = gm_user m"
    and ok: "\<And>m. m \<in> set (group_memberships s) \<Longrightarrow> P m \<Longrightarrow> member_ok s (f m)"
  shows "groups_inv (s\<lparr> group_memberships := update_rows P f (group_memberships s) \<rparr>)" (is "groups_inv ?t")
proof -
  have "member_ok ?t = member_ok s" by (rule member_ok_cong) simp_all
  then show ?thesis
    using inv keep ok unfolding groups_inv_def live_groups_def
    by (auto simp: unique_by_update set_update_rows group_ok_def)
qed

lemma add_member_inv:
  assumes inv: "groups_inv s"
    and m: "gm_id m = seq s" "member_ok s m"
    and fresh: "group_membership_of s (gm_group m) (gm_user m) = None"
  shows "groups_inv (s\<lparr> group_memberships := group_memberships s @ [m], seq := Suc (seq s) \<rparr>)" (is "groups_inv ?t")
proof -
  have "member_ok ?t = member_ok s" by (rule member_ok_cong) simp_all
  moreover have "(gm_group m, gm_user m) \<notin> (\<lambda>m. (gm_group m, gm_user m)) ` set (group_memberships s)"
    using fresh by (auto simp: group_membership_of_def find_None_iff)
  ultimately show ?thesis
    using inv m unfolding groups_inv_def live_groups_def by (auto simp: group_ok_def less_Suc_eq)
qed

lemma visible_groupD:
  assumes "visible_group s u gid = Some g"
  shows "g \<in> set (groups s)" "gp_id g = gid" "gp_cohort g = u_cohort u" "gp_status g = GActive"
    "\<not> gp_hidden g" "u_cohort u \<noteq> Unassigned"
  using find_SomeD [OF assms [unfolded visible_group_def]]
  by (auto simp: visible_groups_def split: if_splits)

lemma membership_of_D:
  "group_membership_of s gid uid = Some m \<Longrightarrow>
   m \<in> set (group_memberships s) \<and> gm_group m = gid \<and> gm_user m = uid"
  by (auto simp: group_membership_of_def dest: find_SomeD)

lemma membership_of_frame [simp]:
  "group_membership_of (snd (allow_action u a l w s)) = group_membership_of s"
  by (simp add: group_membership_of_def fun_eq_iff)

lemma state_only_inv:
  assumes inv: "groups_inv s" and m: "m \<in> set (group_memberships s)"
    and ok: "member_ok s (m\<lparr> gm_state := st \<rparr>)"
  shows "groups_inv (set_group_state (gm_id m) st s)"
  unfolding set_group_state_def
proof (rule update_members_inv [OF inv])
  fix x assume "x \<in> set (group_memberships s)" "gm_id x = gm_id m"
  with inv m have "x = m" by (auto simp: groups_inv_def dest: unique_byD)
  with ok show "member_ok s (x\<lparr> gm_state := st \<rparr>)" by simp
qed simp

lemma member_ok_out: "member_ok s m \<Longrightarrow> st \<noteq> GmMember \<Longrightarrow> member_ok s (m\<lparr> gm_state := st \<rparr>)"
  by (auto simp: member_ok_def)

lemma member_ok_same_cohort:
  "g \<in> set (groups s) \<Longrightarrow> gp_id g = gm_group m \<Longrightarrow> has_cohort_row s (gm_user m) (gp_cohort g) \<Longrightarrow>
   member_ok s m"
  by (auto simp: member_ok_def)

lemma row_cohort: "u \<in> set (users s) \<Longrightarrow> has_cohort_row s (u_id u) (u_cohort u)"
  by (auto simp: has_cohort_row_def)

lemma join_group_inv:
  assumes inv: "groups_inv s" and u: "u \<in> set (users s)"
  shows "groups_inv (snd (join_group u gid s))"
proof -
  let ?s1 = "snd (allow_action (u_id u) ''group_join'' (st_group_join_limit (conf s))
    (st_group_join_window (conf s)) s)"
  have i1: "groups_inv ?s1" using inv by simp
  have coh: "has_cohort_row ?s1 (u_id u) (u_cohort u)" using row_cohort [OF u] by (simp add: has_cohort_row_def)
  have again: "groups_inv (set_group_state (gm_id m) GmMember ?s1)"
    if "visible_group s u gid = Some g" "group_membership_of s gid (u_id u) = Some m" for g m
  proof (rule state_only_inv [OF i1])
    show "m \<in> set (group_memberships ?s1)" using membership_of_D [OF that(2)] by simp
    show "member_ok ?s1 (m\<lparr> gm_state := GmMember \<rparr>)"
      using visible_groupD [OF that(1)] membership_of_D [OF that(2)] coh
      by (intro member_ok_same_cohort [of g]) auto
  qed
  have new: "groups_inv (?s1\<lparr> group_memberships := group_memberships ?s1 @ [\<lparr> gm_id = seq ?s1,
      gm_group = gid, gm_user = u_id u, gm_role = GMember, gm_state = GmMember,
      gm_joined_at = clock ?s1 \<rparr>], seq := Suc (seq ?s1) \<rparr>)"
    if "visible_group s u gid = Some g" "group_membership_of s gid (u_id u) = None" for g
    using visible_groupD [OF that(1)] that(2) coh
    by (intro add_member_inv [OF i1] member_ok_same_cohort [of g]) auto
  show ?thesis
    using inv i1 again new
    by (auto simp: join_group_def Let_def case_prod_beta split: option.splits)
qed

lemma leave_group_inv:
  assumes inv: "groups_inv s"
  shows "groups_inv (snd (leave_group u gid s))"
proof -
  have "groups_inv (set_group_state (gm_id m) GmLeft s)" if "group_membership_of s gid (u_id u) = Some m" for m
    using inv membership_of_D [OF that] by (intro state_only_inv member_ok_out) (auto simp: groups_inv_def)
  with inv show ?thesis by (simp add: leave_group_def split: option.splits)
qed

lemma evict_inv:
  assumes inv: "groups_inv s"
  shows "groups_inv (snd (remove_user_from_groups uid r s))"
proof -
  let ?t = "s\<lparr> group_memberships := update_rows (\<lambda>m. gm_user m = uid \<and> gm_state m = GmMember)
    (\<lambda>m. m\<lparr> gm_state := GmRemoved \<rparr>) (group_memberships s) \<rparr>"
  have "groups_inv ?t"
    using inv by (intro update_members_inv member_ok_out) (auto simp: groups_inv_def)
  then show ?thesis
    by (simp add: remove_user_from_groups_def Let_def)
qed

section \<open>Groups\<close>

lemma update_groups_inv:
  assumes inv: "groups_inv s"
    and keep: "\<And>g. gp_id (f g) = gp_id g \<and> gp_owner (f g) = gp_owner g \<and> gp_cohort (f g) = gp_cohort g \<and>
      coordinate (f g) = coordinate g \<and> (gp_status (f g) = GActive \<longrightarrow> gp_status g = GActive)"
    and ok: "\<And>g. g \<in> set (groups s) \<Longrightarrow> P g \<Longrightarrow> group_ok s (f g)"
  shows "groups_inv (s\<lparr> groups := update_rows P f (groups s) \<rparr>)" (is "groups_inv ?t")
proof -
  let ?h = "\<lambda>g. if P g then f g else g"
  have gs: "groups ?t = map ?h (groups s)" by (simp add: update_rows_def)
  have "member_ok ?t m" if old: "member_ok s m" for m
  proof -
    obtain g where g: "g \<in> set (groups s)" "gp_id g = gm_group m"
      and c: "gm_state m = GmMember \<longrightarrow>
        (gm_role m = GOwner \<and> gm_user m = gp_owner g) \<or> has_cohort_row s (gm_user m) (gp_cohort g)"
      using old unfolding member_ok_def by blast
    have hc: "has_cohort_row ?t = has_cohort_row s" by (simp add: has_cohort_row_def fun_eq_iff)
    show ?thesis
      unfolding member_ok_def hc
    proof (rule bexI)
      show "?h g \<in> set (groups ?t)" using g unfolding gs set_map by (rule_tac imageI)
      show "gp_id (?h g) = gm_group m \<and> (gm_state m = GmMember \<longrightarrow>
          (gm_role m = GOwner \<and> gm_user m = gp_owner (?h g)) \<or> has_cohort_row s (gm_user m) (gp_cohort (?h g)))"
        using g c keep [of g] by simp
    qed
  qed
  moreover have "unique_by coordinate (filter (\<lambda>g. gp_status g = GActive) (map ?h gs))"
    if "unique_by coordinate (filter (\<lambda>g. gp_status g = GActive) gs)" for gs
  proof -
    let ?a = "\<lambda>g. gp_status g = GActive"
    have "map coordinate (filter ?a (map ?h gs)) = map coordinate (filter (?a \<circ> ?h) gs)"
      using keep by (simp add: filter_map)
    also have "filter (?a \<circ> ?h) gs = filter (?a \<circ> ?h) (filter ?a gs)"
      using keep by (auto intro: filter_cong)
    finally show ?thesis
      using that unfolding unique_by_def by (simp only: distinct_map_filter)
  qed
  moreover have "unique_by gp_id (groups ?t)"
    using inv keep by (simp add: unique_by_update groups_inv_def)
  moreover have "group_ok ?t g" if mem: "g \<in> set (groups ?t)" for g
  proof -
    obtain h where h: "h \<in> set (groups s)" "g = ?h h" using mem unfolding gs set_map by blast
    then have "group_ok s g" using inv ok by (auto simp: groups_inv_def)
    then show ?thesis by (simp add: group_ok_def)
  qed
  ultimately show ?thesis
    using inv by (auto simp: groups_inv_def live_groups_def gs)
qed

lemma archive_group_inv:
  assumes inv: "groups_inv s"
  shows "groups_inv (snd (archive_group a g s))"
proof -
  have "groups_inv (s\<lparr> groups := update_rows (\<lambda>h. gp_id h = gp_id g)
      (\<lambda>h. h\<lparr> gp_status := GArchived \<rparr>) (groups s) \<rparr>)"
    using inv by (intro update_groups_inv) (auto simp: coordinate_def groups_inv_def group_ok_def)
  with inv show ?thesis by (simp add: archive_group_def)
qed

lemma set_group_listing_inv:
  assumes inv: "groups_inv s" and g: "g \<in> set (groups s)"
  shows "groups_inv (snd (set_group_listing o' g b s))"
proof -
  have "groups_inv (s\<lparr> groups := update_rows (\<lambda>h. gp_id h = gp_id g)
      (\<lambda>h. h\<lparr> gp_publicly_listed := b \<rparr>) (groups s) \<rparr>)" if "gp_cohort g = Adult"
  proof (rule update_groups_inv [OF inv])
    fix h assume h: "h \<in> set (groups s)" "gp_id h = gp_id g"
    then have "h = g" using inv g by (auto simp: groups_inv_def dest: unique_byD)
    with inv g that show "group_ok s (h\<lparr> gp_publicly_listed := b \<rparr>)"
      by (auto simp: groups_inv_def group_ok_def)
  qed (simp add: coordinate_def)
  with inv show ?thesis by (simp add: set_group_listing_def)
qed

lemma creation_gateD:
  assumes "group_creation_gate s a c cur = Inr cur'"
  shows "c \<noteq> Unassigned" "is_minor c \<Longrightarrow> cur' \<and> u_staff a" "\<not> u_staff a \<Longrightarrow> c = u_cohort a"
  using assms by (auto simp: group_creation_gate_def split: if_splits)

lemma free_coordinate:
  assumes "\<not> coordinate_taken s c area ty cat" and "coordinate g = (c, area, ty, (if ty = None then cat else 0))"
  shows "coordinate g \<notin> coordinate ` set (live_groups s)"
proof
  assume "coordinate g \<in> coordinate ` set (live_groups s)"
  then obtain h where h: "h \<in> set (groups s)" "gp_status h = GActive" "coordinate h = coordinate g"
    by (auto simp: live_groups_def)
  with assms(2) have "gp_cohort h = c" "gp_area h = area" "gp_type h = ty"
    and "ty = None \<longrightarrow> gp_category h = cat"
    by (auto simp: coordinate_def split: if_splits)
  with assms(1) h show False
    by (cases ty) (auto simp: coordinate_taken_def)
qed

lemma insert_group_inv:
  assumes inv: "groups_inv s" and c: "c \<noteq> Unassigned" "is_minor c \<Longrightarrow> cur"
    and free: "\<not> coordinate_taken s c area ty cat"
  shows "groups_inv (snd (insert_group a area title ty cat desc c cur s))"
proof -
  let ?g = "\<lparr> gp_id = seq s, gp_owner = u_id a, gp_area = area, gp_category = cat, gp_type = ty,
    gp_tier = (if ty = None then TierCategory else TierType), gp_cohort = c, gp_title = title,
    gp_description = desc, gp_status = GActive, gp_hidden = False, gp_publicly_listed = False,
    gp_staff_curated = cur \<rparr>"
  let ?m = "\<lparr> gm_id = Suc (seq s), gm_group = seq s, gm_user = u_id a, gm_role = GOwner,
    gm_state = GmMember, gm_joined_at = clock s \<rparr>"
  let ?t = "s\<lparr> groups := groups s @ [?g], group_memberships := group_memberships s @ [?m],
    threads := threads s @ [\<lparr> th_id = Suc (Suc (seq s)), th_activity = None, th_group = Some (seq s) \<rparr>],
    seq := seq s + 3 \<rparr>"
  have co: "coordinate ?g \<notin> coordinate ` set (live_groups s)"
    by (rule free_coordinate [OF free]) (simp add: coordinate_def)
  have old: "member_ok ?t m \<and> gm_group m < seq s \<and> gm_id m < seq s" if "m \<in> set (group_memberships s)" for m
    using that inv by (force simp: groups_inv_def member_ok_def group_ok_def has_cohort_row_def)
  have "unique_by (\<lambda>m. (gm_group m, gm_user m)) (group_memberships ?t)"
    using inv old by (fastforce simp: groups_inv_def)
  moreover have "unique_by coordinate (live_groups ?t)"
    using inv co by (simp add: groups_inv_def live_groups_def)
  moreover have "unique_by gm_id (group_memberships ?t)" "unique_by gp_id (groups ?t)"
    using inv old by (fastforce simp: groups_inv_def group_ok_def)+
  moreover have "member_ok ?t ?m" by (auto simp: member_ok_def)
  moreover have "\<forall>g \<in> set (groups ?t). group_ok ?t g"
    using inv c by (fastforce simp: groups_inv_def group_ok_def)
  moreover have "\<forall>m \<in> set (group_memberships ?t). gm_id m < seq ?t \<and> member_ok ?t m"
    using old \<open>member_ok ?t ?m\<close> by fastforce
  ultimately have "groups_inv ?t" unfolding groups_inv_def by blast
  then show ?thesis by (simp add: insert_group_def Let_def)
qed

lemma create_group_inv:
  assumes inv: "groups_inv s"
  shows "groups_inv (snd (create_group a area title ty cat desc ch cur s))"
proof -
  have "groups_inv (snd (insert_group a area title t c desc tc cur' (snd (allow_action u k l w s))))"
    if "group_creation_gate s a tc cur = Inr cur'"
      "\<not> coordinate_taken (snd (allow_action u k l w s)) tc area t c" for t c tc cur' u k l w
    using inv creation_gateD [OF that(1)] that(2) by (intro insert_group_inv) auto
  with inv show ?thesis
    by (simp add: create_group_def Let_def case_prod_beta split: option.splits sum.splits)
qed

section \<open>Requests\<close>

datatype group_request =
    CreateGroup id id string "id option" "id option" string "cohort option" bool
  | JoinGroup id id
  | LeaveGroup id id
  | ArchiveGroup id id
  | ListGroup id id bool
  | EvictFromGroups id string

definition with_member :: "db \<Rightarrow> id \<Rightarrow> (user \<Rightarrow> db) \<Rightarrow> db" where
  "with_member s i f = (case user_row s i of None \<Rightarrow> s | Some u \<Rightarrow> f u)"

definition with_group :: "db \<Rightarrow> id \<Rightarrow> (group \<Rightarrow> db) \<Rightarrow> db" where
  "with_group s i f = (case List.find (\<lambda>g. gp_id g = i) (groups s) of None \<Rightarrow> s | Some g \<Rightarrow> f g)"

fun group_exec :: "group_request \<Rightarrow> db \<Rightarrow> db" where
  "group_exec (CreateGroup a area title ty cat desc ch cur) s =
     with_member s a (\<lambda>a. snd (create_group a area title
       (Option.bind ty (\<lambda>i. List.find (\<lambda>t. ty_id t = i) (activity_types s))) cat desc ch cur s))"
| "group_exec (JoinGroup u gid) s = with_member s u (\<lambda>u. snd (join_group u gid s))"
| "group_exec (LeaveGroup u gid) s = with_member s u (\<lambda>u. snd (leave_group u gid s))"
| "group_exec (ArchiveGroup a gid) s =
     with_member s a (\<lambda>a. with_group s gid (\<lambda>g. snd (archive_group a g s)))"
| "group_exec (ListGroup a gid b) s =
     with_member s a (\<lambda>a. with_group s gid (\<lambda>g. snd (set_group_listing a g b s)))"
| "group_exec (EvictFromGroups u r) s = snd (remove_user_from_groups u r s)"

lemma with_member_intro: "P s \<Longrightarrow> (\<And>u. u \<in> set (users s) \<Longrightarrow> P (f u)) \<Longrightarrow> P (with_member s i f)"
  by (auto simp: with_member_def split: option.splits dest: user_row_SomeD)

lemma with_group_intro: "P s \<Longrightarrow> (\<And>g. g \<in> set (groups s) \<Longrightarrow> P (f g)) \<Longrightarrow> P (with_group s i f)"
  by (auto simp: with_group_def split: option.splits dest: find_SomeD)

lemma group_exec_inv: "groups_inv s \<Longrightarrow> groups_inv (group_exec q s)"
  by (cases q) (auto intro!: with_member_intro [where P = groups_inv] with_group_intro [where P = groups_inv]
      create_group_inv join_group_inv leave_group_inv archive_group_inv set_group_listing_inv evict_inv)

lemma groups_extends:
  "log_extends s (snd (create_group a area title ty cat desc ch cur s))"
  "log_extends s (snd (join_group a gid s))" "log_extends s (snd (leave_group a gid s))"
  "log_extends s (snd (archive_group a g s))" "log_extends s (snd (set_group_listing a g b s))"
  "log_extends s (snd (remove_user_from_groups u r s))"
  by (auto simp: create_group_def insert_group_def join_group_def leave_group_def archive_group_def
      set_group_listing_def remove_user_from_groups_def set_group_state_def Let_def case_prod_beta
      split: option.splits sum.splits intro!: log_extends_record_audit log_extends_same)

lemma group_exec_extends: "log_extends s (group_exec q s)"
  by (cases q) (auto intro!: groups_extends with_member_intro [where P = "log_extends s"]
      with_group_intro [where P = "log_extends s"])

interpretation circles: service group_exec groups_inv
  by unfold_locales (rule group_exec_inv)

interpretation circles_log: journal group_exec audit_log
  by unfold_locales (rule log_extends_prefix [OF group_exec_extends])

end
