(* ===== verification/Groups_Properties.thy ===== *)
theory Groups_Properties
  imports Groups_Laws
begin

text \<open>
  The properties of standing groups: who is a member along every run, who may create a group, and
  whom a roster shows.
\<close>

text \<open>Three adults: the owner of a walking group, a member of it and a neighbour.\<close>

definition sample_group :: group where
  "sample_group = \<lparr> gp_id = 30, gp_owner = 1, gp_area = 60, gp_category = 61, gp_type = None,
     gp_tier = TierCategory, gp_cohort = Adult, gp_title = ''walks'', gp_description = [],
     gp_status = GActive, gp_hidden = False, gp_publicly_listed = False, gp_staff_curated = True \<rparr>"

definition sample_member :: "id \<Rightarrow> id \<Rightarrow> gm_role \<Rightarrow> group_membership" where
  "sample_member i u r = \<lparr> gm_id = i, gm_group = 30, gm_user = u, gm_role = r,
     gm_state = GmMember, gm_joined_at = int i \<rparr>"

definition sample_adult :: "id \<Rightarrow> user" where
  "sample_adult i = sample_parent\<lparr> u_id := i \<rparr>"

definition circle_db :: db where
  "circle_db = family_db\<lparr> seq := 50, users := [sample_adult 1, sample_adult 3, sample_adult 4],
     groups := [sample_group],
     group_memberships := [sample_member 31 1 GOwner, sample_member 32 3 GMember] \<rparr>"

lemmas circle_defs = circle_db_def sample_group_def sample_member_def sample_adult_def sample_defs

lemma circle_inv: "groups_inv circle_db"
  by (simp add: groups_inv_def unique_by_def live_groups_def group_ok_def member_ok_def is_minor_def
      has_cohort_row_def circle_defs)

lemma circle_can [simp]: "can_participate circle_db (sample_adult i)"
  by (simp add: can_participate_iff is_assurance_current_iff latest_assurance_def
      requires_parental_consent_def circle_defs)

lemma group_inv_isolation:
  assumes inv: "groups_inv s" and m: "m \<in> set (group_memberships s)" "gm_state m = GmMember"
    and g: "g \<in> set (groups s)" "gp_id g = gm_group m"
  shows "((gm_role m = GOwner \<and> gm_user m = gp_owner g) \<or> has_cohort_row s (gm_user m) (gp_cohort g)) \<and>
    gp_cohort g \<noteq> Unassigned \<and>
    (is_minor (gp_cohort g) \<longrightarrow> gp_staff_curated g \<and> \<not> gp_publicly_listed g)"
proof -
  obtain h where h: "h \<in> set (groups s)" "gp_id h = gm_group m"
      "(gm_role m = GOwner \<and> gm_user m = gp_owner h) \<or> has_cohort_row s (gm_user m) (gp_cohort h)"
    using inv m by (auto simp: groups_inv_def member_ok_def)
  moreover have "h = g" using inv g h by (auto simp: groups_inv_def dest: unique_byD)
  ultimately show ?thesis
    using inv g(1) by (auto simp: groups_inv_def group_ok_def is_minor_def)
qed

text \<open>
  C6: Isolation of standing groups along every run: whatever the requests, a current member of a
  group is its owner or has the group's cohort; no group is without a cohort, and a group for
  under-18s is staff-curated and never publicly listed.
\<close>

theorem group_isolation:
  assumes "groups_inv s" and "t = run_requests group_exec qs s"
    and "m \<in> set (group_memberships t)" and "gm_state m = GmMember"
    and "g \<in> set (groups t)" and "gp_id g = gm_group m"
  shows "((gm_role m = GOwner \<and> gm_user m = gp_owner g) \<or> has_cohort_row t (gm_user m) (gp_cohort g)) \<and>
    gp_cohort g \<noteq> Unassigned \<and>
    (is_minor (gp_cohort g) \<longrightarrow> gp_staff_curated g \<and> \<not> gp_publicly_listed g)"
  by (rule group_inv_isolation [OF _ assms(3-6)]) (use circles.run_inv [OF assms(1), of qs] assms(2) in simp)

lemma circle_join:
  "run_requests group_exec [JoinGroup 4 30] circle_db = snd (join_group (sample_adult 4) 30 circle_db)"
  "groups (snd (join_group (sample_adult 4) 30 circle_db)) = [sample_group]"
  "group_memberships (snd (join_group (sample_adult 4) 30 circle_db)) =
     [sample_member 31 1 GOwner, sample_member 32 3 GMember,
      sample_member 50 4 GMember\<lparr> gm_joined_at := 0 \<rparr>]"
proof -
  have "user_row circle_db 4 = Some (sample_adult 4)"
    by (simp add: user_row_def circle_defs)
  then show "run_requests group_exec [JoinGroup 4 30] circle_db = snd (join_group (sample_adult 4) 30 circle_db)"
    by (simp add: with_member_def)
  have v: "visible_group circle_db (sample_adult 4) 30 = Some sample_group"
    by (simp add: visible_group_def visible_groups_def blocked_user_ids_def circle_defs)
  have m: "group_membership_of circle_db 30 4 = None"
    by (simp add: group_membership_of_def circle_defs)
  have b: "\<not> is_blocked circle_db 4 1" by (simp add: is_blocked_def circle_defs)
  have a: "fst (allow_action 4 ''group_join'' (st_group_join_limit (conf circle_db))
      (st_group_join_window (conf circle_db)) circle_db)"
    by (simp add: allow_action_def cache_live_def circle_defs)
  have r: "u_id (sample_adult 4) = 4" "gp_owner sample_group = 1" "seq circle_db = 50" "clock circle_db = 0"
    "groups circle_db = [sample_group]"
    "group_memberships circle_db = [sample_member 31 1 GOwner, sample_member 32 3 GMember]"
    by (simp_all add: circle_defs)
  show "groups (snd (join_group (sample_adult 4) 30 circle_db)) = [sample_group]"
    "group_memberships (snd (join_group (sample_adult 4) 30 circle_db)) =
     [sample_member 31 1 GOwner, sample_member 32 3 GMember,
      sample_member 50 4 GMember\<lparr> gm_joined_at := 0 \<rparr>]"
    using v m b a r by (simp_all add: join_group_def Let_def case_prod_beta) (simp add: sample_member_def)
qed

theorem group_isolation_witness:
  "has_cohort_row (run_requests group_exec [JoinGroup 4 30] circle_db) 4 Adult"
  using group_isolation [OF circle_inv refl, of "sample_member 50 4 GMember\<lparr> gm_joined_at := 0 \<rparr>"
      "[JoinGroup 4 30]" sample_group] circle_join
  by (simp add: sample_member_def sample_group_def)

text \<open>
  Who may create a group: a successful creation means the creator may participate, the group
  has a cohort, a non-staff creator's own cohort and a deployment that lets users create, staff and
  minor onboarding for under-18s, no other live group at the same coordinate, and a new live,
  unlisted group whose only new membership is the creator's as owner.
\<close>

theorem create_group_sound:
  assumes "create_group a area title ty cat desc ch cur s = returned g t"
  shows "can_participate s a \<and> gp_cohort g \<noteq> Unassigned \<and>
    (\<not> u_staff a \<longrightarrow> gp_cohort g = u_cohort a \<and> st_groups_user_created (conf s)) \<and>
    (is_minor (gp_cohort g) \<longrightarrow> u_staff a \<and> minor_onboarding_enabled s \<and> gp_staff_curated g) \<and>
    coordinate g \<notin> coordinate ` set (live_groups s) \<and>
    gp_status g = GActive \<and> \<not> gp_publicly_listed g \<and> groups t = groups s @ [g] \<and>
    (\<exists>m. group_memberships t = group_memberships s @ [m] \<and> gm_group m = gp_id g \<and>
       gm_user m = u_id a \<and> gm_role m = GOwner \<and> gm_state m = GmMember)"
proof -
  have ins: "(g = fst (insert_group a area title ti c desc tc cur' s1) \<longrightarrow>
      gp_cohort g = tc \<and> (cur' \<longrightarrow> gp_staff_curated g) \<and> gp_status g = GActive \<and> \<not> gp_publicly_listed g \<and>
      coordinate g = (tc, area, ti, if ti = None then c else 0) \<and>
      groups (snd (insert_group a area title ti c desc tc cur' s1)) = groups s1 @ [g] \<and>
      (\<exists>m. group_memberships (snd (insert_group a area title ti c desc tc cur' s1)) = group_memberships s1 @ [m] \<and>
         gm_group m = gp_id g \<and> gm_user m = u_id a \<and> gm_role m = GOwner \<and> gm_state m = GmMember))"
    for ti c tc cur' s1
    by (auto simp: insert_group_def Let_def coordinate_def)
  obtain cur' tc ti c l w where
    can: "can_participate s a" and gate: "group_creation_gate s a tc cur = Inr cur'"
    and free: "\<not> coordinate_taken (snd (allow_action (u_id a) ''group_create'' l w s)) tc area ti c"
    and res: "g = fst (insert_group a area title ti c desc tc cur' (snd (allow_action (u_id a) ''group_create'' l w s)))"
      "t = snd (insert_group a area title ti c desc tc cur' (snd (allow_action (u_id a) ''group_create'' l w s)))"
    using assms
    by (auto simp: create_group_def Let_def case_prod_beta split: if_splits option.splits sum.splits)
  note new = ins [of ti c tc cur', THEN mp, OF res(1), folded res(2)]
  have "tc \<noteq> Unassigned \<and> (\<not> u_staff a \<longrightarrow> tc = u_cohort a \<and> st_groups_user_created (conf s)) \<and>
      (is_minor tc \<longrightarrow> u_staff a \<and> minor_onboarding_enabled s \<and> cur')"
    using gate by (auto simp: group_creation_gate_def is_minor_def split: if_splits)
  moreover have "coordinate g \<notin> coordinate ` set (live_groups s)"
  proof -
    have lg: "live_groups (snd (allow_action (u_id a) ''group_create'' l w s)) = live_groups s"
      by (simp add: live_groups_def)
    have "coordinate g = (tc, area, ti, if ti = None then c else 0)" using new by blast
    from free_coordinate [OF free this] show ?thesis by (simp only: lg not_False_eq_True)
  qed
  ultimately show ?thesis using can new by simp
qed

theorem create_group_sound_witness:
  "\<exists>g t. create_group (sample_adult 3) 60 ''chess'' None (Some 62) [] None False
       (circle_db\<lparr> conf := default_settings\<lparr> st_groups_user_created := True \<rparr> \<rparr>) = returned g t \<and>
     gp_cohort g = Adult \<and> groups t = [sample_group, g]"
proof -
  let ?s = "circle_db\<lparr> conf := default_settings\<lparr> st_groups_user_created := True \<rparr> \<rparr>"
  have "\<exists>g t. create_group (sample_adult 3) 60 ''chess'' None (Some 62) [] None False ?s = returned g t"
  proof -
    have "can_participate ?s (sample_adult 3)"
      using circle_can [of 3] by (simp cong: can_participate_cong)
    moreover have "has_cohort (sample_adult 3)" by (simp add: has_cohort_def circle_defs)
    moreover have "group_creation_gate ?s (sample_adult 3) Adult False = Inr False"
      by (simp add: group_creation_gate_def group_user_creation_cohorts_def is_minor_def circle_defs)
    moreover have "u_cohort (sample_adult 3) = Adult" by (simp add: circle_defs)
    moreover have "fst (allow_action (u_id (sample_adult 3)) ''group_create'' (st_group_create_limit (conf ?s))
        (st_group_create_window (conf ?s)) ?s)"
      by (simp add: allow_action_def cache_live_def circle_defs)
    moreover have "\<not> coordinate_taken (snd (allow_action (u_id (sample_adult 3)) ''group_create''
        (st_group_create_limit (conf ?s)) (st_group_create_window (conf ?s)) ?s)) Adult 60 None 62"
      by (simp add: coordinate_taken_def) (simp add: circle_defs)
    ultimately show ?thesis
      by (simp add: create_group_def Let_def case_prod_beta)
  qed
  then obtain g t where gt: "create_group (sample_adult 3) 60 ''chess'' None (Some 62) [] None False ?s = returned g t"
    by blast
  from create_group_sound [OF gt] have "gp_cohort g = Adult" "groups t = groups ?s @ [g]"
    by (simp_all add: circle_defs)
  with gt show ?thesis by (auto simp: circle_defs)
qed

text \<open>
  Who a roster shows and to whom: a roster is returned only to a current member of the
  group's own adult cohort, and lists exactly active, currently eligible accounts of that cohort
  that are current members and not blocked either way with the viewer; minors get none.
\<close>

theorem group_roster_sound:
  assumes "group_roster s g v = Some us"
  shows "u_cohort v = gp_cohort g \<and> \<not> is_minor (gp_cohort g) \<and>
    (\<exists>m \<in> set (group_memberships s). gm_group m = gp_id g \<and> gm_user m = u_id v \<and> gm_state m = GmMember) \<and>
    (\<forall>u. u \<in> set us \<longleftrightarrow> user_row s (u_id u) = Some u \<and> u_cohort u = gp_cohort g \<and> u_active u \<and>
       can_participate s u \<and> \<not> is_blocked s (u_id v) (u_id u) \<and>
       (\<exists>m \<in> set (group_memberships s). gm_group m = gp_id g \<and> gm_user m = u_id u \<and> gm_state m = GmMember))"
proof -
  have us: "us = filter (\<lambda>u. u_cohort u = gp_cohort g \<and> u_active u \<and> can_participate s u)
      (List.map_filter (\<lambda>m. user_row s (gm_user m)) (sort_key gm_joined_at
        (filter (\<lambda>m. gm_group m = gp_id g \<and> gm_state m = GmMember \<and>
           gm_user m \<notin> blocked_user_ids s (u_id v)) (group_memberships s))))"
    and gates: "u_cohort v = gp_cohort g" "u_cohort v \<noteq> Child" "u_cohort v \<noteq> Teen"
      "\<exists>m \<in> set (group_memberships s). gm_group m = gp_id g \<and> gm_user m = u_id v \<and> gm_state m = GmMember"
    using assms by (auto simp: group_roster_def Let_def split: if_splits)
  have "u \<in> set us \<longleftrightarrow> user_row s (u_id u) = Some u \<and> u_cohort u = gp_cohort g \<and> u_active u \<and>
       can_participate s u \<and> \<not> is_blocked s (u_id v) (u_id u) \<and>
       (\<exists>m \<in> set (group_memberships s). gm_group m = gp_id g \<and> gm_user m = u_id u \<and> gm_state m = GmMember)" for u
  proof -
    have row: "user_row s (gm_user m) = Some u \<longleftrightarrow> gm_user m = u_id u \<and> user_row s (u_id u) = Some u" for m
      using user_row_SomeD [of s "gm_user m" u] by auto
    show ?thesis
      unfolding us by (auto simp: map_filter_set blocked_user_ids_iff row)
  qed
  with gates show ?thesis by (auto simp: is_minor_def)
qed

theorem group_roster_sound_witness:
  "group_roster circle_db sample_group (sample_adult 3) = Some [sample_adult 1, sample_adult 3] \<and>
   can_participate circle_db (sample_adult 1) \<and> \<not> is_blocked circle_db 3 1"
proof -
  have ok: "group_roster circle_db sample_group (sample_adult 3) = Some [sample_adult 1, sample_adult 3]"
  proof -
    have "user_row circle_db 1 = Some (sample_adult 1)" "user_row circle_db 3 = Some (sample_adult 3)"
      by (simp_all add: user_row_def circle_defs)
    moreover have "blocked_user_ids circle_db 3 = {}" by (simp add: blocked_user_ids_def circle_defs)
    moreover have "group_memberships circle_db = [sample_member 31 1 GOwner, sample_member 32 3 GMember]"
      by (simp add: circle_defs)
    moreover have "u_cohort (sample_adult i) = Adult" "u_active (sample_adult i)" "u_id (sample_adult i) = i" for i
      by (simp_all add: circle_defs)
    ultimately show ?thesis
      by (simp add: group_roster_def sample_member_def sample_group_def List.map_filter_def)
  qed
  have "sample_adult 1 \<in> set [sample_adult 1, sample_adult 3]" by simp
  with group_roster_sound [OF ok] have "can_participate circle_db (sample_adult 1)"
    "\<not> is_blocked circle_db (u_id (sample_adult 3)) (u_id (sample_adult 1))"
    by blast+
  with ok show ?thesis by (simp add: circle_defs)
qed

end
