(* ===== verification/Guardrails.thy ===== *)
theory Guardrails
  imports Safety
begin

text \<open>
  Guardian-set participation limits (apps/accounts/services.py): the input boundary that rejects
  junk, the update of one guardian's limits, and the strictest combination over all of a ward's
  active guardians that the join gate consults.
\<close>

datatype value_error = ValueError string

section \<open>The input boundary\<close>

text \<open>A form or JSON value: absent, text, a whole number, a list, or something else.\<close>

datatype form_value = FNone | FStr string | FInt int | FList "form_value list" | FOther

definition form_int :: "form_value \<Rightarrow> int option" where
  "form_int v = (case v of FStr x \<Rightarrow> py_int x | FInt i \<Rightarrow> Some i | _ \<Rightarrow> None)"

definition blank :: "form_value \<Rightarrow> bool" where
  "blank v \<longleftrightarrow> v = FNone \<or> v = FStr []"

definition clean_hour :: "form_value \<Rightarrow> value_error + nat option" where
  "clean_hour v =
     (if blank v then Inr None
      else case form_int v of
        None \<Rightarrow> Inl (ValueError ''Latest start hour must be a whole number between 0 and 23.'')
      | Some h \<Rightarrow> if \<not> (0 \<le> h \<and> h \<le> 23)
                  then Inl (ValueError ''Latest start hour must be between 0 and 23.'')
                  else Inr (Some (nat h)))"

definition clean_cap :: "form_value \<Rightarrow> value_error + nat option" where
  "clean_cap v =
     (if blank v then Inr None
      else case form_int v of
        None \<Rightarrow> Inl (ValueError ''The open-meetup limit must be a whole number.'')
      | Some c \<Rightarrow> if \<not> (1 \<le> c \<and> c \<le> 50)
                  then Inl (ValueError ''The open-meetup limit must be between 1 and 50.'')
                  else Inr (Some (nat c)))"

text \<open>\<open>str(item)\<close> of a list element; the rendering of a nested value is no day and no slug.\<close>

definition item_text :: "form_value \<Rightarrow> string option" where
  "item_text v = (case v of FNone \<Rightarrow> Some ''None'' | FStr x \<Rightarrow> Some x | FInt i \<Rightarrow> Some (int_str i) | _ \<Rightarrow> None)"

fun week_days :: "form_value list \<Rightarrow> nat list option" where
  "week_days [] = Some []"
| "week_days (v # vs) =
     (case item_text v of
        None \<Rightarrow> None
      | Some x \<Rightarrow>
          if strip x = [] then week_days vs
          else (case py_int (strip x) of
                  None \<Rightarrow> None
                | Some d \<Rightarrow> if 1 \<le> d \<and> d \<le> 7 then map_option (Cons (nat d)) (week_days vs) else None))"

definition bad_days :: value_error where
  "bad_days = ValueError ''Pick valid days of the week.''"

text \<open>The canonical digit string is represented as the list of its digits.\<close>

definition clean_weekdays :: "form_value \<Rightarrow> value_error + nat list" where
  "clean_weekdays v =
     (if blank v then Inr []
      else case (case v of FStr x \<Rightarrow> Some (map (\<lambda>c. FStr [c]) x) | FList vs \<Rightarrow> Some vs | _ \<Rightarrow> None) of
        None \<Rightarrow> Inl bad_days
      | Some items \<Rightarrow> (case week_days items of
            None \<Rightarrow> Inl bad_days
          | Some ds \<Rightarrow> Inr (sort (remdups ds))))"

definition bad_categories :: value_error where
  "bad_categories = ValueError ''Pick valid activity categories.''"

definition known_slugs :: "db \<Rightarrow> string set" where
  "known_slugs s = ct_slug ` set (categories s)"

definition clean_categories :: "db \<Rightarrow> form_value \<Rightarrow> value_error + string list" where
  "clean_categories s v =
     (if blank v then Inr []
      else case (case v of FStr x \<Rightarrow> Some [FStr x] | FList vs \<Rightarrow> Some vs | _ \<Rightarrow> None) of
        None \<Rightarrow> Inl bad_categories
      | Some items \<Rightarrow>
          if \<exists>i \<in> set items. item_text i = None then Inl bad_categories
          else let slugs = remdups (filter (\<lambda>x. x \<noteq> []) (map (\<lambda>i. strip (the (item_text i))) items)) in
            if slugs = [] then Inr []
            else if \<exists>x \<in> set slugs. x \<notin> known_slugs s then Inl bad_categories
            else Inr (sort slugs))"

section \<open>Setting a guardrail\<close>

definition active_link :: "db \<Rightarrow> id \<Rightarrow> id \<Rightarrow> guardianship option" where
  "active_link s g w =
     List.find (\<lambda>r. gr_guardian r = g \<and> gr_ward r = w \<and> gr_status r = LActive) (guardianships s)"

definition json_nat :: "nat option \<Rightarrow> json" where
  "json_nat n = (case n of None \<Rightarrow> JNull | Some k \<Rightarrow> JInt (int k))"

record rail_input =
  ri_supervised :: bool
  ri_latest :: form_value
  ri_cap :: form_value
  ri_weekdays :: form_value
  ri_earliest :: form_value
  ri_categories :: form_value

definition set_guardian_guardrail ::
  "id \<Rightarrow> user \<Rightarrow> rail_input \<Rightarrow> db \<Rightarrow> (value_error, unit, db) outcome" where
  "set_guardian_guardrail g w ri s =
     (case active_link s g (u_id w) of
        None \<Rightarrow> raised (ValueError ''You are not a registered guardian of this user.'') s
      | Some rel \<Rightarrow>
          if u_cohort w \<noteq> Child
          then raised (ValueError (''Participation limits apply to children'' @ [CHR 0x27] @ ''s accounts only.'')) s
          else
            (case (clean_hour (ri_latest ri), clean_cap (ri_cap ri), clean_weekdays (ri_weekdays ri),
                   clean_hour (ri_earliest ri), clean_categories s (ri_categories ri)) of
               (Inl e, _, _, _, _) \<Rightarrow> raised e s
             | (_, Inl e, _, _, _) \<Rightarrow> raised e s
             | (_, _, Inl e, _, _) \<Rightarrow> raised e s
             | (_, _, _, Inl e, _) \<Rightarrow> raised e s
             | (_, _, _, _, Inl e) \<Rightarrow> raised e s
             | (Inr hour, Inr cap, Inr weekdays, Inr earliest, Inr cats) \<Rightarrow>
                 let mine = (\<lambda>r. rail_rel r = gr_id rel);
                     put = (\<lambda>r. r\<lparr> rail_supervised := ri_supervised ri, rail_latest := hour,
                              rail_cap := cap, rail_weekdays := weekdays,
                              rail_earliest := earliest, rail_categories := cats \<rparr>);
                     s1 = (if \<exists>r \<in> set (guardrails s). mine r
                           then s\<lparr> guardrails := update_rows mine put (guardrails s) \<rparr>
                           else s\<lparr> guardrails := guardrails s @
                                     [\<lparr> rail_id = seq s, rail_rel = gr_id rel,
                                        rail_supervised = ri_supervised ri, rail_latest = hour,
                                        rail_cap = cap, rail_weekdays = weekdays,
                                        rail_earliest = earliest, rail_categories = cats \<rparr>],
                                  seq := Suc (seq s) \<rparr>)
                 in returned () (record_audit ''guardian.guardrail_set'' (Some g)
                      (Some (''accounts.user'', u_id w))
                      [(''supervised_only'', JBool (ri_supervised ri)),
                       (''latest_start_hour'', json_nat hour), (''max_open_joins'', json_nat cap),
                       (''allowed_weekdays'', JStr (concat (map nat_str weekdays))),
                       (''earliest_start_hour'', json_nat earliest),
                       (''allowed_categories'', JList (map JStr cats))] s1)))"

definition rel_of_rail :: "db \<Rightarrow> guardrail \<Rightarrow> guardianship option" where
  "rel_of_rail s r = List.find (\<lambda>g. gr_id g = rail_rel r) (guardianships s)"

definition guardrail_for :: "db \<Rightarrow> id \<Rightarrow> id \<Rightarrow> guardrail option" where
  "guardrail_for s g w = List.find (\<lambda>r. case rel_of_rail s r of None \<Rightarrow> False
     | Some l \<Rightarrow> gr_guardian l = g \<and> gr_ward l = w \<and> gr_status l = LActive) (guardrails s)"

section \<open>The strictest combination\<close>

record limits =
  li_supervised :: bool
  li_latest :: "nat option"
  li_cap :: "nat option"
  li_weekdays :: "nat set option"
  li_earliest :: "nat option"
  li_categories :: "string set option"

definition active_rails :: "db \<Rightarrow> id \<Rightarrow> guardrail list" where
  "active_rails s w = filter (\<lambda>r. case rel_of_rail s r of None \<Rightarrow> False
     | Some l \<Rightarrow> gr_ward l = w \<and> gr_status l = LActive) (guardrails s)"

definition intersect_all :: "'a set list \<Rightarrow> 'a set option" where
  "intersect_all xs = (case xs of [] \<Rightarrow> None | x # ys \<Rightarrow> Some (foldl (\<inter>) x ys))"

definition min_of :: "nat list \<Rightarrow> nat option" where
  "min_of xs = (case xs of [] \<Rightarrow> None | x # ys \<Rightarrow> Some (foldl min x ys))"

definition max_of :: "nat list \<Rightarrow> nat option" where
  "max_of xs = (case xs of [] \<Rightarrow> None | x # ys \<Rightarrow> Some (foldl max x ys))"

definition combine_rails :: "guardrail list \<Rightarrow> limits option" where
  "combine_rails rails =
     (if rails = [] then None
      else Some \<lparr> li_supervised = (\<exists>r \<in> set rails. rail_supervised r),
        li_latest = min_of (List.map_filter rail_latest rails),
        li_cap = min_of (List.map_filter rail_cap rails),
        li_weekdays = intersect_all (map (\<lambda>r. set (rail_weekdays r))
                        (filter (\<lambda>r. rail_weekdays r \<noteq> []) rails)),
        li_earliest = max_of (List.map_filter rail_earliest rails),
        li_categories = intersect_all (map (\<lambda>r. set (rail_categories r))
                          (filter (\<lambda>r. rail_categories r \<noteq> []) rails)) \<rparr>)"

definition effective_guardrail :: "db \<Rightarrow> id \<Rightarrow> limits option" where
  "effective_guardrail s w = combine_rails (active_rails s w)"

section \<open>What a meetup must satisfy\<close>

text \<open>The facts of a meetup and of the ward's commitments that the gate compares with the limits.\<close>

record meetup_facts =
  mf_accompanied :: bool
  mf_hour :: nat
  mf_weekday :: nat
  mf_categories :: "string list"
  mf_open_joins :: nat

definition type_in_category_envelope :: "string set option \<Rightarrow> string list \<Rightarrow> bool" where
  "type_in_category_envelope allowed ancestry =
     (case allowed of None \<Rightarrow> True | Some a \<Rightarrow> \<exists>slug \<in> set ancestry. slug \<in> a)"

definition within_limits :: "limits \<Rightarrow> meetup_facts \<Rightarrow> bool" where
  "within_limits l m =
     (if li_supervised l \<and> \<not> mf_accompanied m then False
      else if (case li_latest l of None \<Rightarrow> False | Some h \<Rightarrow> h < mf_hour m) then False
      else if (case li_weekdays l of None \<Rightarrow> False | Some ds \<Rightarrow> mf_weekday m \<notin> ds) then False
      else if (case li_earliest l of None \<Rightarrow> False | Some h \<Rightarrow> mf_hour m < h) then False
      else if \<not> type_in_category_envelope (li_categories l) (mf_categories m) then False
      else case li_cap l of None \<Rightarrow> True | Some c \<Rightarrow> \<not> c \<le> mf_open_joins m)"

definition passes_limits :: "limits option \<Rightarrow> meetup_facts \<Rightarrow> bool" where
  "passes_limits rail m = (case rail of None \<Rightarrow> True | Some l \<Rightarrow> within_limits l m)"

section \<open>Combining never loosens\<close>

text \<open>
  The interface of a combination of limits: without limits everything is admitted, and more limits
  admit less. It follows that each limit is respected, whatever the others and their order.
\<close>

locale narrowing =
  fixes combine :: "'r list \<Rightarrow> 'l" and admits :: "'l \<Rightarrow> 'm \<Rightarrow> bool"
  assumes unlimited: "admits (combine []) m"
    and narrows: "set rs \<subseteq> set ts \<Longrightarrow> admits (combine ts) m \<Longrightarrow> admits (combine rs) m"
begin

lemma each_respected: "admits (combine rs) m \<Longrightarrow> r \<in> set rs \<Longrightarrow> admits (combine [r]) m"
  by (rule narrows) simp_all

lemma order_free: "set rs = set ts \<Longrightarrow> admits (combine rs) m = admits (combine ts) m"
  by (metis narrows order_refl)

lemma one_more: "admits (combine (r # rs)) m \<Longrightarrow> admits (combine rs) m"
  by (rule narrows) auto

end

lemma foldl_min_le: "foldl min x (ys :: nat list) \<le> h \<longleftrightarrow> (\<exists>y \<in> set (x # ys). y \<le> h)"
  by (induction ys arbitrary: x) (auto simp: min_le_iff_disj)

lemma min_of_ge: "(case min_of xs of None \<Rightarrow> True | Some h \<Rightarrow> k \<le> h) \<longleftrightarrow> (\<forall>x \<in> set xs. k \<le> x)"
proof (cases xs)
  case (Cons x ys)
  have "k \<le> foldl min x ys \<longleftrightarrow> (\<forall>y \<in> set (x # ys). k \<le> y)"
    by (induction ys arbitrary: x) auto
  with Cons show ?thesis by (simp add: min_of_def)
qed (simp add: min_of_def)

lemma max_of_le: "(case max_of xs of None \<Rightarrow> True | Some h \<Rightarrow> h \<le> k) \<longleftrightarrow> (\<forall>x \<in> set xs. x \<le> k)"
proof (cases xs)
  case (Cons x ys)
  have "foldl max x ys \<le> k \<longleftrightarrow> (\<forall>y \<in> set (x # ys). y \<le> k)"
    by (induction ys arbitrary: x) auto
  with Cons show ?thesis by (simp add: max_of_def)
qed (simp add: max_of_def)

lemma foldl_inter: "foldl (\<inter>) x ys = \<Inter> (set (x # ys))"
  by (induction ys arbitrary: x) auto

lemma intersect_all_mem:
  "(case intersect_all xs of None \<Rightarrow> True | Some a \<Rightarrow> P a) \<longleftrightarrow> (xs = [] \<or> P (\<Inter> (set xs)))"
  by (cases xs) (simp_all add: intersect_all_def foldl_inter del: foldl.simps)

text \<open>The combination, spelled out.\<close>

definition rail_ok :: "guardrail \<Rightarrow> meetup_facts \<Rightarrow> bool" where
  "rail_ok r m \<longleftrightarrow> (rail_supervised r \<longrightarrow> mf_accompanied m) \<and>
     (\<forall>h. rail_latest r = Some h \<longrightarrow> mf_hour m \<le> h) \<and>
     (rail_weekdays r \<noteq> [] \<longrightarrow> mf_weekday m \<in> set (rail_weekdays r)) \<and>
     (\<forall>h. rail_earliest r = Some h \<longrightarrow> h \<le> mf_hour m) \<and>
     (\<forall>c. rail_cap r = Some c \<longrightarrow> mf_open_joins m < c)"

definition strictest :: "guardrail set \<Rightarrow> meetup_facts \<Rightarrow> bool" where
  "strictest R m \<longleftrightarrow> (\<forall>r \<in> R. rail_ok r m) \<and>
     ((\<exists>r \<in> R. rail_categories r \<noteq> []) \<longrightarrow>
        (\<exists>slug \<in> set (mf_categories m). \<forall>r \<in> R. rail_categories r \<noteq> [] \<longrightarrow> slug \<in> set (rail_categories r)))"

lemma weekday_limit:
  "(case intersect_all (map (\<lambda>r. set (rail_weekdays r)) (filter (\<lambda>r. rail_weekdays r \<noteq> []) rs)) of
      None \<Rightarrow> True | Some ds \<Rightarrow> d \<in> ds) \<longleftrightarrow>
   (\<forall>r \<in> set rs. rail_weekdays r \<noteq> [] \<longrightarrow> d \<in> set (rail_weekdays r))"
  by (simp add: intersect_all_mem) (auto simp: filter_empty_conv)

lemma category_limit:
  "(case intersect_all (map (\<lambda>r. set (rail_categories r)) (filter (\<lambda>r. rail_categories r \<noteq> []) rs)) of
      None \<Rightarrow> True | Some a \<Rightarrow> \<exists>slug \<in> set xs. slug \<in> a) \<longleftrightarrow>
   ((\<exists>r \<in> set rs. rail_categories r \<noteq> []) \<longrightarrow>
      (\<exists>slug \<in> set xs. \<forall>r \<in> set rs. rail_categories r \<noteq> [] \<longrightarrow> slug \<in> set (rail_categories r)))"
  by (simp add: intersect_all_mem) (auto simp: filter_empty_conv)

lemma option_guard:
  "(\<not> (case x of None \<Rightarrow> False | Some y \<Rightarrow> \<not> P y)) = (case x of None \<Rightarrow> True | Some y \<Rightarrow> P y)"
  by (cases x) simp_all

lemma passes_combined: "passes_limits (combine_rails rs) m \<longleftrightarrow> strictest (set rs) m"
proof (cases "rs = []")
  case False
  let ?lat = "min_of (List.map_filter rail_latest rs)" and ?cap = "min_of (List.map_filter rail_cap rs)"
  let ?ear = "max_of (List.map_filter rail_earliest rs)"
  let ?wd = "intersect_all (map (\<lambda>r. set (rail_weekdays r)) (filter (\<lambda>r. rail_weekdays r \<noteq> []) rs))"
  let ?ca = "intersect_all (map (\<lambda>r. set (rail_categories r)) (filter (\<lambda>r. rail_categories r \<noteq> []) rs))"
  have "passes_limits (combine_rails rs) m \<longleftrightarrow>
      ((\<exists>r \<in> set rs. rail_supervised r) \<longrightarrow> mf_accompanied m) \<and>
      (case ?lat of None \<Rightarrow> True | Some h \<Rightarrow> mf_hour m \<le> h) \<and>
      (case ?wd of None \<Rightarrow> True | Some ds \<Rightarrow> mf_weekday m \<in> ds) \<and>
      (case ?ear of None \<Rightarrow> True | Some h \<Rightarrow> h \<le> mf_hour m) \<and>
      (case ?ca of None \<Rightarrow> True | Some a \<Rightarrow> \<exists>slug \<in> set (mf_categories m). slug \<in> a) \<and>
      (case ?cap of None \<Rightarrow> True | Some c \<Rightarrow> Suc (mf_open_joins m) \<le> c)"
    using False
    by (auto simp: combine_rails_def passes_limits_def within_limits_def
        type_in_category_envelope_def split: option.splits)
  also have "\<dots> \<longleftrightarrow> strictest (set rs) m"
    unfolding min_of_ge max_of_le weekday_limit category_limit strictest_def map_filter_set rail_ok_def
    by (auto simp: Suc_le_eq)
  finally show ?thesis .
qed (simp add: combine_rails_def passes_limits_def strictest_def)

lemma strictest_mono: "strictest T m \<Longrightarrow> R \<subseteq> T \<Longrightarrow> strictest R m"
  unfolding strictest_def by blast

interpretation rails: narrowing combine_rails passes_limits
proof unfold_locales
  fix rs ts :: "guardrail list" and m
  show "passes_limits (combine_rails []) m"
    by (simp add: passes_combined strictest_def)
  show "set rs \<subseteq> set ts \<Longrightarrow> passes_limits (combine_rails ts) m \<Longrightarrow> passes_limits (combine_rails rs) m"
    unfolding passes_combined by (rule strictest_mono)
qed

section \<open>The input boundary fails closed\<close>

lemma clean_hour_range: "clean_hour v = Inr (Some h) \<Longrightarrow> h \<le> 23"
  by (auto simp: clean_hour_def split: option.splits if_splits)

lemma clean_cap_range: "clean_cap v = Inr (Some c) \<Longrightarrow> 1 \<le> c \<and> c \<le> 50"
  by (auto simp: clean_cap_def split: option.splits if_splits)

lemma week_days_range: "week_days vs = Some ds \<Longrightarrow> \<forall>d \<in> set ds. 1 \<le> d \<and> d \<le> 7"
  by (induction vs arbitrary: ds) (force split: option.splits if_splits)+

lemma clean_weekdays_range:
  "clean_weekdays v = Inr ds \<Longrightarrow> sorted ds \<and> distinct ds \<and> (\<forall>d \<in> set ds. 1 \<le> d \<and> d \<le> 7)"
  by (auto simp: clean_weekdays_def split: option.splits if_splits dest: week_days_range)

lemma week_days_nonempty:
  "week_days vs = Some ds \<Longrightarrow> v \<in> set vs \<Longrightarrow> item_text v = Some x \<Longrightarrow> strip x \<noteq> [] \<Longrightarrow> ds \<noteq> []"
  by (induction vs arbitrary: ds) (auto split: option.splits if_splits)

lemma clean_categories_known:
  "clean_categories s v = Inr cs \<Longrightarrow> sorted cs \<and> distinct cs \<and> set cs \<subseteq> known_slugs s"
  by (auto simp: clean_categories_def Let_def split: option.splits if_splits)

lemma clean_categories_nonempty:
  assumes "clean_categories s (FList vs) = Inr cs" and "v \<in> set vs" and "item_text v = Some x"
    and "strip x \<noteq> []"
  shows "cs \<noteq> []"
proof -
  define slugs where "slugs = remdups (filter (\<lambda>x. x \<noteq> []) (map (\<lambda>i. strip (the (item_text i))) vs))"
  have mem: "strip x \<in> set slugs"
    unfolding slugs_def using assms(2-4) by (force simp: image_iff)
  then have "slugs \<noteq> []" by auto
  then have "cs = sort slugs"
    using assms(1) unfolding slugs_def [symmetric] clean_categories_def Let_def
    by (simp add: blank_def slugs_def [symmetric] del: set_remdups split: if_splits)
  then have "set cs = set slugs" by simp
  with mem show ?thesis by auto
qed

section \<open>What a successful update does\<close>

definition input_rail :: "guardrail \<Rightarrow> rail_input \<Rightarrow> db \<Rightarrow> bool" where
  "input_rail r ri s \<longleftrightarrow> rail_supervised r = ri_supervised ri \<and>
     clean_hour (ri_latest ri) = Inr (rail_latest r) \<and> clean_cap (ri_cap ri) = Inr (rail_cap r) \<and>
     clean_weekdays (ri_weekdays ri) = Inr (rail_weekdays r) \<and>
     clean_hour (ri_earliest ri) = Inr (rail_earliest r) \<and>
     clean_categories s (ri_categories ri) = Inr (rail_categories r)"

lemma update_rows_memI: "r \<in> set rs \<Longrightarrow> P r \<Longrightarrow> f r \<in> set (update_rows P f rs)"
  by (auto simp: update_rows_def)

lemma set_guardrail_stores:
  assumes "set_guardian_guardrail g w ri s = returned () t"
  shows "\<exists>rel r. active_link s g (u_id w) = Some rel \<and> u_cohort w = Child \<and>
    guardianships t = guardianships s \<and> r \<in> set (guardrails t) \<and> rail_rel r = gr_id rel \<and>
    input_rail r ri s"
proof -
  obtain rel where rel: "active_link s g (u_id w) = Some rel" "u_cohort w = Child"
    using assms by (auto simp: set_guardian_guardrail_def split: option.splits if_splits)
  obtain h c d e k where
    ok: "clean_hour (ri_latest ri) = Inr h" "clean_cap (ri_cap ri) = Inr c"
      "clean_weekdays (ri_weekdays ri) = Inr d" "clean_hour (ri_earliest ri) = Inr e"
      "clean_categories s (ri_categories ri) = Inr k"
    using assms rel by (auto simp: set_guardian_guardrail_def split: sum.splits)
  define put where "put = (\<lambda>r :: guardrail. r\<lparr> rail_supervised := ri_supervised ri, rail_latest := h,
    rail_cap := c, rail_weekdays := d, rail_earliest := e, rail_categories := k \<rparr>)"
  have put: "input_rail (put r) ri s" "rail_rel (put r) = rail_rel r" for r
    using ok by (simp_all add: put_def input_rail_def)
  show ?thesis
  proof (cases "\<exists>r \<in> set (guardrails s). rail_rel r = gr_id rel")
    case True
    then obtain r where r: "r \<in> set (guardrails s)" "rail_rel r = gr_id rel" by blast
    have "guardrails t = update_rows (\<lambda>r. rail_rel r = gr_id rel) put (guardrails s)"
      "guardianships t = guardianships s"
      using assms rel ok True by (auto simp: set_guardian_guardrail_def Let_def put_def)
    moreover from this r have "put r \<in> set (guardrails t)" by (simp add: update_rows_memI)
    ultimately show ?thesis using rel put r by (metis)
  next
    case False
    define new where "new = \<lparr> rail_id = seq s, rail_rel = gr_id rel,
        rail_supervised = ri_supervised ri, rail_latest = h, rail_cap = c, rail_weekdays = d,
        rail_earliest = e, rail_categories = k \<rparr>"
    have "guardrails t = guardrails s @ [new]" "guardianships t = guardianships s"
      using assms rel ok False by (auto simp: set_guardian_guardrail_def Let_def new_def)
    moreover have "rail_rel new = gr_id rel" "input_rail new ri s"
      using ok by (simp_all add: new_def input_rail_def)
    ultimately show ?thesis
      using rel by (intro exI [of _ rel] exI [of _ new]) simp
  qed
qed

section \<open>A sample family with limits\<close>

definition sample_rail :: guardrail where
  "sample_rail = \<lparr> rail_id = 8, rail_rel = 3, rail_supervised = True, rail_latest = Some 18,
     rail_cap = Some 2, rail_weekdays = [6, 7], rail_earliest = Some 9, rail_categories = [''sport''] \<rparr>"

definition sample_meetup :: meetup_facts where
  "sample_meetup = \<lparr> mf_accompanied = True, mf_hour = 10, mf_weekday = 6,
     mf_categories = [''football'', ''sport''], mf_open_joins = 1 \<rparr>"

definition railed_db :: db where
  "railed_db = family_db\<lparr> guardrails := [sample_rail] \<rparr>"

lemma railed_active: "active_rails railed_db 2 = [sample_rail]"
  by (simp add: active_rails_def rel_of_rail_def railed_db_def sample_rail_def sample_defs)

definition sample_input :: rail_input where
  "sample_input = \<lparr> ri_supervised = False, ri_latest = FStr '' 17 '', ri_cap = FNone,
     ri_weekdays = FList [FStr ''7'', FInt 6], ri_earliest = FStr [], ri_categories = FNone \<rparr>"

lemma sample_input_ok:
  "clean_hour (ri_latest sample_input) = Inr (Some 17)" "clean_cap (ri_cap sample_input) = Inr None"
  "clean_weekdays (ri_weekdays sample_input) = Inr [6, 7]"
  "clean_hour (ri_earliest sample_input) = Inr None"
  "clean_categories s (ri_categories sample_input) = Inr []"
proof -
  have "int_str 6 = ''6''" by code_simp
  then show "clean_weekdays (ri_weekdays sample_input) = Inr [6, 7]"
    by (simp add: sample_input_def clean_weekdays_def blank_def py_int_def strip_def py_space_def
        natural_of_def digit_of_def item_text_def)
qed (simp_all add: sample_input_def clean_hour_def clean_cap_def clean_categories_def blank_def
    form_int_def py_int_def strip_def py_space_def natural_of_def digit_of_def)

section \<open>Properties\<close>

text \<open>
  C5: Limits only narrow: if a meetup passes the combined limits of a ward, it passes the limits of
  every guardian with an active link taken alone, and it would pass with any of them left out.
\<close>

theorem guardrails_never_loosen:
  assumes "passes_limits (effective_guardrail s w) m"
  shows "(\<forall>r \<in> set (active_rails s w). rail_ok r m \<and>
      (rail_categories r \<noteq> [] \<longrightarrow> set (rail_categories r) \<inter> set (mf_categories m) \<noteq> {})) \<and>
    passes_limits (combine_rails (filter P (active_rails s w))) m"
proof
  show "\<forall>r \<in> set (active_rails s w). rail_ok r m \<and>
      (rail_categories r \<noteq> [] \<longrightarrow> set (rail_categories r) \<inter> set (mf_categories m) \<noteq> {})"
    using rails.each_respected [OF assms [unfolded effective_guardrail_def]]
    by (fastforce simp: passes_combined strictest_def)
  show "passes_limits (combine_rails (filter P (active_rails s w))) m"
    by (rule rails.narrows [OF _ assms [unfolded effective_guardrail_def]]) auto
qed

theorem guardrails_never_loosen_witness:
  "passes_limits (effective_guardrail railed_db 2) sample_meetup \<and> rail_ok sample_rail sample_meetup"
proof -
  have p: "passes_limits (effective_guardrail railed_db 2) sample_meetup"
    by (simp add: effective_guardrail_def railed_active passes_combined strictest_def rail_ok_def)
      (simp add: sample_rail_def sample_meetup_def)
  from guardrails_never_loosen [OF p, of "\<lambda>_. True"] p show ?thesis
    by (simp add: railed_active)
qed

text \<open>
  A guardian's limits take effect as entered: after a successful update the ward's gate admits
  only meetups within the hours, weekdays, supervision and cap the guardian typed, which were
  checked to be real hours, days, caps and categories.
\<close>

theorem guardrail_takes_effect:
  assumes set: "set_guardian_guardrail g w ri s = returned () t"
    and uniq: "unique_by gr_id (guardianships s)"
    and pass: "passes_limits (effective_guardrail t (u_id w)) m"
  shows "(ri_supervised ri \<longrightarrow> mf_accompanied m) \<and>
    (\<forall>h. clean_hour (ri_latest ri) = Inr (Some h) \<longrightarrow> mf_hour m \<le> h \<and> h \<le> 23) \<and>
    (\<forall>h. clean_hour (ri_earliest ri) = Inr (Some h) \<longrightarrow> h \<le> mf_hour m \<and> h \<le> 23) \<and>
    (\<forall>ds. clean_weekdays (ri_weekdays ri) = Inr ds \<longrightarrow> ds \<noteq> [] \<longrightarrow>
       mf_weekday m \<in> set ds \<and> set ds \<subseteq> {1..7}) \<and>
    (\<forall>c. clean_cap (ri_cap ri) = Inr (Some c) \<longrightarrow> mf_open_joins m < c \<and> c \<le> 50) \<and>
    (\<forall>cs. clean_categories s (ri_categories ri) = Inr cs \<longrightarrow> cs \<noteq> [] \<longrightarrow>
       set cs \<inter> set (mf_categories m) \<noteq> {} \<and> set cs \<subseteq> known_slugs s)"
proof -
  obtain rel r where r: "active_link s g (u_id w) = Some rel" "guardianships t = guardianships s"
      "r \<in> set (guardrails t)" "rail_rel r = gr_id rel" "input_rail r ri s"
    using set_guardrail_stores [OF set] by blast
  have rel: "rel \<in> set (guardianships s)" "gr_ward rel = u_id w" "gr_status rel = LActive"
    using r(1) find_SomeD unfolding active_link_def by fastforce+
  have "rel_of_rail t r = Some rel"
    using unique_by_find [OF uniq rel(1)] r(2,4) by (simp add: rel_of_rail_def)
  then have "r \<in> set (active_rails t (u_id w))"
    using r(3) rel by (simp add: active_rails_def)
  then have ok: "rail_ok r m" "rail_categories r \<noteq> [] \<Longrightarrow> set (rail_categories r) \<inter> set (mf_categories m) \<noteq> {}"
    using rails.each_respected [OF pass [unfolded effective_guardrail_def]]
    by (fastforce simp: passes_combined strictest_def)+
  have eqs: "ri_supervised ri = rail_supervised r" "clean_hour (ri_latest ri) = Inr (rail_latest r)"
    "clean_cap (ri_cap ri) = Inr (rail_cap r)" "clean_weekdays (ri_weekdays ri) = Inr (rail_weekdays r)"
    "clean_hour (ri_earliest ri) = Inr (rail_earliest r)"
    "clean_categories s (ri_categories ri) = Inr (rail_categories r)"
    using r(5) by (simp_all add: input_rail_def)
  show ?thesis
    using ok clean_hour_range [of "ri_latest ri"] clean_hour_range [of "ri_earliest ri"]
      clean_cap_range [of "ri_cap ri"] clean_weekdays_range [OF eqs(4)]
      clean_categories_known [OF eqs(6)]
    unfolding eqs rail_ok_def by auto
qed

theorem guardrail_takes_effect_witness:
  "\<exists>t. set_guardian_guardrail 1 sample_child sample_input railed_db = returned () t \<and>
     passes_limits (effective_guardrail t 2) sample_meetup \<and> mf_hour sample_meetup \<le> 17"
proof -
  have link: "active_link railed_db 1 (u_id sample_child) = Some (hd (guardianships family_db))"
    "u_cohort sample_child = Child" "u_id sample_child = 2" "gr_id (hd (guardianships family_db)) = 3"
    "unique_by gr_id (guardianships railed_db)" "guardrails railed_db = [sample_rail]"
    by (simp_all add: active_link_def railed_db_def sample_defs unique_by_def)
  obtain t where t: "set_guardian_guardrail 1 sample_child sample_input railed_db = returned () t"
      "guardianships t = guardianships railed_db"
      "guardrails t = [sample_rail\<lparr> rail_supervised := False, rail_latest := Some 17, rail_cap := None,
         rail_weekdays := [6, 7], rail_earliest := None, rail_categories := [] \<rparr>]"
    using link sample_input_ok
    by (simp add: set_guardian_guardrail_def Let_def) (simp add: sample_rail_def sample_input_def)
  have pass: "passes_limits (effective_guardrail t 2) sample_meetup"
    by (simp add: effective_guardrail_def passes_combined strictest_def active_rails_def t rail_ok_def)
      (simp add: sample_meetup_def)
  from guardrail_takes_effect [OF t(1) link(5), of sample_meetup] pass t(1) link(3) sample_input_ok(1)
  show ?thesis by auto
qed

end
