(* ===== verification/Identity.thy ===== *)
theory Identity
  imports Safety
begin

text \<open>
  One real person, one account (apps/accounts/services.py): binding a wallet holder to an account,
  the lifetime-ban ledger and the voluntary release. \<open>ib_user\<close> is a one-to-one field, so a save
  that would give an account a second binding fails with the database's integrity error.
\<close>

section \<open>Operations\<close>

record assurance_result =
  ar_provider :: string
  ar_method :: string
  ar_age_band :: age_band
  ar_verified :: bool
  ar_expires_at :: "time option"
  ar_raw :: "(string \<times> string) list"
  ar_holder_sub :: "string option"

datatype identity_error = IdentityAlreadyBound | IdentityBanned | IntegrityError

definition holder_hash :: "db \<Rightarrow> string \<Rightarrow> string" where
  "holder_hash s holder_sub = hmac_sha256 (lib s) (st_binding_secret (conf s)) holder_sub"

definition identity_uniqueness_active :: "db \<Rightarrow> assurance_result \<Rightarrow> bool" where
  "identity_uniqueness_active s r =
     (if \<not> st_uniqueness (conf s) then False
      else if ar_holder_sub r \<in> {None, Some []} then False
      else map_of (ar_raw r) ''holder_proof'' = Some ''verified'')"

definition identity_target :: "binding \<Rightarrow> (string \<times> id) option" where
  "identity_target b = Some (''accounts.identitybinding'', ib_id b)"

definition bind_identity ::
  "id \<Rightarrow> assurance_result \<Rightarrow> db \<Rightarrow> (identity_error, binding option, db) outcome" where
  "bind_identity uid r s =
     (if \<not> identity_uniqueness_active s r then returned None s
      else
        let h = holder_hash s (the (ar_holder_sub r)) in
        if \<exists>b \<in> set (banned_ids s). bi_hash b = h then raised IdentityBanned s
        else case List.find (\<lambda>b. ib_hash b = h) (bindings s) of
          Some existing \<Rightarrow>
            if ib_user existing = Some uid then returned (Some existing) s
            else if ib_user existing \<noteq> None \<and> ib_released_at existing = None
            then raised IdentityAlreadyBound s
            else if \<exists>b \<in> set (bindings s). ib_user b = Some uid then raised IntegrityError s
            else let b = existing\<lparr> ib_user := Some uid, ib_released_at := None \<rparr>
                 in returned (Some b) (record_audit ''identity.bound'' (Some uid) (identity_target b)
                      [(''recovery'', JBool True)]
                      (s\<lparr> bindings := update_rows (\<lambda>x. ib_id x = ib_id existing)
                            (\<lambda>x. x\<lparr> ib_user := Some uid, ib_released_at := None \<rparr>) (bindings s) \<rparr>))
        | None \<Rightarrow>
            if \<exists>b \<in> set (bindings s). ib_user b = Some uid then returned None s
            else let b = \<lparr> ib_id = seq s, ib_hash = h, ib_user = Some uid, ib_released_at = None \<rparr>
                 in returned (Some b) (record_audit ''identity.bound'' (Some uid) (identity_target b)
                      [(''recovery'', JBool False)]
                      (s\<lparr> bindings := bindings s @ [b], seq := Suc (seq s) \<rparr>)))"

definition has_unique_identity :: "db \<Rightarrow> id \<Rightarrow> bool" where
  "has_unique_identity s uid =
     (if \<not> st_uniqueness (conf s) then True
      else \<exists>b \<in> set (bindings s). ib_user b = Some uid \<and> ib_released_at b = None)"

definition identity_is_banned :: "db \<Rightarrow> string \<Rightarrow> bool" where
  "identity_is_banned s holder_sub \<longleftrightarrow> (\<exists>b \<in> set (banned_ids s). bi_hash b = holder_hash s holder_sub)"

definition ban_identity :: "id \<Rightarrow> db \<Rightarrow> banned option \<times> db" where
  "ban_identity uid s =
     (case List.find (\<lambda>b. ib_user b = Some uid) (bindings s) of
        None \<Rightarrow> (None, s)
      | Some b \<Rightarrow>
          (case List.find (\<lambda>x. bi_hash x = ib_hash b) (banned_ids s) of
             Some x \<Rightarrow> (Some x, s)
           | None \<Rightarrow>
               let x = \<lparr> bi_id = seq s, bi_hash = ib_hash b \<rparr>
               in (Some x, record_audit ''identity.banned'' (Some uid)
                     (Some (''accounts.bannedidentity'', bi_id x)) []
                     (s\<lparr> banned_ids := banned_ids s @ [x], seq := Suc (seq s) \<rparr>))))"

definition release_identity_ban :: "id \<Rightarrow> id option \<Rightarrow> db \<Rightarrow> bool \<times> db" where
  "release_identity_ban uid actor s =
     (case List.find (\<lambda>b. ib_user b = Some uid) (bindings s) of
        None \<Rightarrow> (False, s)
      | Some b \<Rightarrow>
          let hit = (\<lambda>x. bi_hash x = ib_hash b);
              s1 = s\<lparr> banned_ids := filter (\<lambda>x. \<not> hit x) (banned_ids s) \<rparr>
          in if \<exists>x \<in> set (banned_ids s). hit x
             then (True, record_audit ''identity.ban_released''
                     (case actor of None \<Rightarrow> Some uid | Some a \<Rightarrow> Some a) (identity_target b) [] s1)
             else (False, s1))"

definition release_binding :: "id \<Rightarrow> id option \<Rightarrow> db \<Rightarrow> bool \<times> db" where
  "release_binding uid actor s =
     (case List.find (\<lambda>b. ib_user b = Some uid \<and> ib_released_at b = None) (bindings s) of
        None \<Rightarrow> (False, s)
      | Some b \<Rightarrow>
          (True, record_audit ''identity.binding_released''
             (case actor of None \<Rightarrow> Some uid | Some a \<Rightarrow> Some a) (identity_target b) []
             (s\<lparr> bindings := update_rows (\<lambda>x. ib_id x = ib_id b)
                   (\<lambda>x. x\<lparr> ib_released_at := Some (clock s) \<rparr>) (bindings s) \<rparr>)))"

text \<open>What erasing an account does to its binding: the foreign key is set to null.\<close>

definition orphan_binding :: "id \<Rightarrow> db \<Rightarrow> db" where
  "orphan_binding uid s =
     s\<lparr> bindings := update_rows (\<lambda>b. ib_user b = Some uid) (\<lambda>b. b\<lparr> ib_user := None \<rparr>) (bindings s) \<rparr>"

section \<open>The ledger's invariant\<close>

text \<open>One binding per wallet, one binding per account.\<close>

definition one_account :: "binding list \<Rightarrow> bool" where
  "one_account bs \<longleftrightarrow> (\<forall>b \<in> set bs. \<forall>c \<in> set bs. ib_user b \<noteq> None \<longrightarrow> ib_user b = ib_user c \<longrightarrow> b = c)"

definition ledger_inv :: "db \<Rightarrow> bool" where
  "ledger_inv s \<longleftrightarrow> unique_by ib_id (bindings s) \<and> unique_by ib_hash (bindings s) \<and>
     one_account (bindings s) \<and> (\<forall>b \<in> set (bindings s). ib_id b < seq s)"

lemma ledger_inv_cong:
  "bindings t = bindings s \<Longrightarrow> seq s \<le> seq t \<Longrightarrow> ledger_inv s \<Longrightarrow> ledger_inv t"
  by (auto simp: ledger_inv_def intro: less_le_trans)

lemma ledger_inv_audit [simp]: "ledger_inv s \<Longrightarrow> ledger_inv (record_audit e a tg d s)"
  by (rule ledger_inv_cong) simp_all

lemma one_account_same:
  assumes "one_account bs" and "\<And>b. ib_user (f b) = None \<or> ib_user (f b) = ib_user b"
  shows "one_account (update_rows P f bs)"
  unfolding one_account_def set_update_rows
proof (intro ballI impI)
  fix b' c'
  assume b': "b' \<in> (\<lambda>r. if P r then f r else r) ` set bs"
    and c': "c' \<in> (\<lambda>r. if P r then f r else r) ` set bs"
    and u: "ib_user b' \<noteq> None" "ib_user b' = ib_user c'"
  obtain b c where b: "b \<in> set bs" "b' = (if P b then f b else b)"
    and c: "c \<in> set bs" "c' = (if P c then f c else c)"
    using b' c' by auto
  have "ib_user b' = ib_user b" "ib_user c' = ib_user c"
    using assms(2) b(2) c(2) u by metis+
  then have "b = c" using assms(1) b(1) c(1) u by (simp add: one_account_def)
  with b c show "b' = c'" by simp
qed

lemma one_account_assign:
  assumes "one_account bs" and "unique_by ib_id bs"
    and f: "\<And>b. ib_user (f b) = Some uid" and free: "\<forall>b \<in> set bs. ib_user b \<noteq> Some uid"
  shows "one_account (update_rows (\<lambda>b. ib_id b = i) f bs)"
  unfolding one_account_def set_update_rows
proof (intro ballI impI)
  fix b' c'
  assume b': "b' \<in> (\<lambda>r. if ib_id r = i then f r else r) ` set bs"
    and c': "c' \<in> (\<lambda>r. if ib_id r = i then f r else r) ` set bs"
    and u: "ib_user b' \<noteq> None" "ib_user b' = ib_user c'"
  obtain b c where b: "b \<in> set bs" "b' = (if ib_id b = i then f b else b)"
    and c: "c \<in> set bs" "c' = (if ib_id c = i then f c else c)"
    using b' c' by auto
  have "b = c"
  proof (cases "ib_id b = i \<or> ib_id c = i")
    case True
    then have "ib_id b = i \<and> ib_id c = i"
      using b c u(2) f free by (metis)
    with assms(2) b(1) c(1) show ?thesis by (auto dest: unique_byD)
  next
    case False
    with assms(1) b c u show ?thesis by (simp add: one_account_def)
  qed
  with b c show "b' = c'" by simp
qed

lemma one_account_snoc:
  "one_account bs \<Longrightarrow> \<forall>x \<in> set bs. ib_user x \<noteq> Some u \<Longrightarrow> ib_user b = Some u \<Longrightarrow> one_account (bs @ [b])"
  by (auto simp: one_account_def)

lemma bind_identity_inv:
  assumes inv: "ledger_inv s"
  shows "ledger_inv (snd (bind_identity uid r s))"
proof -
  let ?h = "holder_hash s (the (ar_holder_sub r))"
  have rebind: "ledger_inv (s\<lparr> bindings := update_rows (\<lambda>x. ib_id x = i)
      (\<lambda>x. x\<lparr> ib_user := Some uid, ib_released_at := None \<rparr>) (bindings s) \<rparr>)"
    if "\<forall>b \<in> set (bindings s). ib_user b \<noteq> Some uid" for i
    using inv that one_account_assign [of "bindings s" "\<lambda>x. x\<lparr> ib_user := Some uid, ib_released_at := None \<rparr>" uid i]
    by (auto simp: ledger_inv_def unique_by_update set_update_rows)
  have fresh: "ledger_inv (s\<lparr> bindings := bindings s @ [\<lparr> ib_id = seq s, ib_hash = ?h,
      ib_user = Some uid, ib_released_at = None \<rparr>], seq := Suc (seq s) \<rparr>)"
    if "\<forall>b \<in> set (bindings s). ib_user b \<noteq> Some uid" "List.find (\<lambda>b. ib_hash b = ?h) (bindings s) = None"
    using inv that by (auto simp: ledger_inv_def one_account_snoc find_None_iff less_Suc_eq)
  show ?thesis
    using inv rebind fresh by (auto simp: bind_identity_def Let_def split: option.splits)
qed

lemma ban_identity_inv: "ledger_inv s \<Longrightarrow> ledger_inv (snd (ban_identity uid s))"
  by (auto simp: ban_identity_def Let_def split: option.splits intro!: ledger_inv_audit
      intro: ledger_inv_cong [where s = s])

lemma release_identity_ban_inv: "ledger_inv s \<Longrightarrow> ledger_inv (snd (release_identity_ban uid a s))"
  by (auto simp: release_identity_ban_def Let_def split: option.splits intro!: ledger_inv_audit
      intro: ledger_inv_cong [where s = s])

lemma release_binding_inv:
  assumes inv: "ledger_inv s"
  shows "ledger_inv (snd (release_binding uid a s))"
proof -
  have "ledger_inv (s\<lparr> bindings := update_rows (\<lambda>x. ib_id x = i)
      (\<lambda>x. x\<lparr> ib_released_at := t \<rparr>) (bindings s) \<rparr>)" for i t
    using inv one_account_same [of "bindings s" "\<lambda>x. x\<lparr> ib_released_at := t \<rparr>" "\<lambda>x. ib_id x = i"]
    by (auto simp: ledger_inv_def unique_by_update set_update_rows)
  with inv show ?thesis by (auto simp: release_binding_def split: option.splits)
qed

lemma orphan_binding_inv:
  assumes inv: "ledger_inv s"
  shows "ledger_inv (orphan_binding uid s)"
proof -
  have "one_account (update_rows (\<lambda>b. ib_user b = Some uid) (\<lambda>b. b\<lparr> ib_user := None \<rparr>) (bindings s))"
    using inv by (intro one_account_same) (simp_all add: ledger_inv_def)
  then show ?thesis
    using inv by (auto simp: ledger_inv_def orphan_binding_def unique_by_update set_update_rows)
qed

section \<open>Requests\<close>

datatype identity_request =
    Bind id assurance_result
  | Ban id
  | Unban id "id option"
  | Release id "id option"
  | Erase id

fun identity_exec :: "identity_request \<Rightarrow> db \<Rightarrow> db" where
  "identity_exec (Bind u r) s = snd (bind_identity u r s)"
| "identity_exec (Ban u) s = snd (ban_identity u s)"
| "identity_exec (Unban u a) s = snd (release_identity_ban u a s)"
| "identity_exec (Release u a) s = snd (release_binding u a s)"
| "identity_exec (Erase u) s = orphan_binding u s"

lemma identity_exec_inv: "ledger_inv s \<Longrightarrow> ledger_inv (identity_exec q s)"
  by (cases q) (simp_all add: bind_identity_inv ban_identity_inv release_identity_ban_inv
      release_binding_inv orphan_binding_inv)

lemma identity_exec_extends: "log_extends s (identity_exec q s)"
  by (cases q) (auto simp: bind_identity_def ban_identity_def release_identity_ban_def
      release_binding_def orphan_binding_def Let_def split: option.splits
      intro!: log_extends_record_audit log_extends_same)

interpretation ledger: service identity_exec ledger_inv
  by unfold_locales (rule identity_exec_inv)

interpretation ledger_log: journal identity_exec audit_log
  by unfold_locales (rule log_extends_prefix [OF identity_exec_extends])

text \<open>A hash stays on the ban ledger until it is taken off; settings and primitives stay.\<close>

definition no_unban :: "identity_request \<Rightarrow> bool" where
  "no_unban q \<longleftrightarrow> (case q of Unban _ _ \<Rightarrow> False | _ \<Rightarrow> True)"

lemma identity_exec_frame [simp]: "conf (identity_exec q s) = conf s" "lib (identity_exec q s) = lib s"
  by (cases q; auto simp: bind_identity_def ban_identity_def release_identity_ban_def
      release_binding_def orphan_binding_def Let_def split: option.splits)+

lemma ban_kept:
  "no_unban q \<Longrightarrow> bi_hash ` set (banned_ids s) \<subseteq> bi_hash ` set (banned_ids (identity_exec q s))"
  by (cases q) (auto simp: no_unban_def bind_identity_def ban_identity_def
      release_binding_def orphan_binding_def Let_def split: option.splits)

lemma ban_kept_run:
  "\<forall>q \<in> set qs. no_unban q \<Longrightarrow>
   bi_hash ` set (banned_ids s) \<subseteq> bi_hash ` set (banned_ids (run_requests identity_exec qs s)) \<and>
   conf (run_requests identity_exec qs s) = conf s \<and> lib (run_requests identity_exec qs s) = lib s"
proof (induction qs arbitrary: s)
  case (Cons q qs)
  have "bi_hash ` set (banned_ids s) \<subseteq> bi_hash ` set (banned_ids (identity_exec q s))"
    using Cons.prems by (intro ban_kept) simp
  with Cons.IH [of "identity_exec q s"] Cons.prems show ?case by simp blast
qed simp

section \<open>A sample ledger\<close>

definition sample_result :: "string \<Rightarrow> assurance_result" where
  "sample_result holder = \<lparr> ar_provider = ''eudi'', ar_method = ''openid4vp'', ar_age_band = BandAdult,
     ar_verified = True, ar_expires_at = None, ar_raw = [(''holder_proof'', ''verified'')],
     ar_holder_sub = Some holder \<rparr>"

definition sample_binding :: binding where
  "sample_binding = \<lparr> ib_id = 1, ib_hash = ''wallet'', ib_user = Some 7, ib_released_at = None \<rparr>"

definition ledger_db :: db where
  "ledger_db = (empty_db toy_lib)\<lparr> seq := 5, conf := default_settings\<lparr> st_uniqueness := True \<rparr>,
     bindings := [sample_binding] \<rparr>"

lemma ledger_db_sel [simp]:
  "bindings ledger_db = [sample_binding]" "banned_ids ledger_db = []" "clock ledger_db = 0"
  "seq ledger_db = 5" "holder_hash ledger_db h = h" "identity_uniqueness_active ledger_db (sample_result ''wallet'')"
  "ar_holder_sub (sample_result h) = Some h" "ib_user sample_binding = Some 7"
  "ib_released_at sample_binding = None" "ib_hash sample_binding = ''wallet''" "ib_id sample_binding = 1"
  by (simp_all add: ledger_db_def empty_db_def holder_hash_def toy_lib_def default_settings_def
      identity_uniqueness_active_def sample_result_def sample_binding_def)

lemma uniqueness_active_cong:
  "conf t = conf s \<Longrightarrow> identity_uniqueness_active t r = identity_uniqueness_active s r"
  by (simp add: identity_uniqueness_active_def)

lemma ledger_db_inv: "ledger_inv ledger_db"
  by (simp add: ledger_inv_def unique_by_def one_account_def)

section \<open>Properties\<close>

text \<open>
  C3: One person, one account: along every run of binds, bans, releases and erasures, a wallet has
  at most one binding and an account at most one, and a wallet whose binding is live cannot be
  bound by anyone but its owner - the attempt is refused and changes nothing.
\<close>

theorem one_person_one_account:
  assumes "ledger_inv s" and "t = run_requests identity_exec qs s"
    and "b \<in> set (bindings t)" and "ib_user b = Some owner" and "ib_released_at b = None"
    and "identity_uniqueness_active t r" and "ib_hash b = holder_hash t (the (ar_holder_sub r))"
    and "uid \<noteq> owner"
  shows "fst (bind_identity uid r t) \<in> {Inl IdentityAlreadyBound, Inl IdentityBanned} \<and>
    snd (bind_identity uid r t) = t \<and>
    (\<forall>c \<in> set (bindings t). ib_user c = Some owner \<or> ib_hash c = ib_hash b \<longrightarrow> c = b)"
proof -
  have inv: "ledger_inv t" using ledger.run_inv [OF assms(1)] assms(2) by simp
  have "List.find (\<lambda>c. ib_hash c = ib_hash b) (bindings t) = Some b"
    using inv assms(3) by (intro unique_by_find) (auto simp: ledger_inv_def)
  moreover have "\<forall>c \<in> set (bindings t). ib_user c = Some owner \<or> ib_hash c = ib_hash b \<longrightarrow> c = b"
    using inv assms(3,4) by (auto simp: ledger_inv_def one_account_def dest: unique_byD)
  ultimately show ?thesis
    using assms(4-8) by (auto simp: bind_identity_def Let_def)
qed

theorem one_person_one_account_witness:
  "snd (bind_identity 8 (sample_result ''wallet'') ledger_db) = ledger_db \<and>
   fst (bind_identity 8 (sample_result ''wallet'') ledger_db) \<in> {Inl IdentityAlreadyBound, Inl IdentityBanned}"
  using one_person_one_account [where s = ledger_db and qs = "[]" and t = ledger_db and uid = 8
      and b = sample_binding and owner = 7 and r = "sample_result ''wallet''"] ledger_db_inv by simp

text \<open>
  C4: A lifetime ban outlives the account: once the holder of an account's wallet is banned, then
  whatever happens next short of lifting a ban - the account's erasure included - nobody who
  presents that wallet can bind it.
\<close>

theorem ban_outlives_account:
  assumes "b \<in> set (bindings s)" and "one_account (bindings s)" and "ib_user b = Some uid"
    and "\<forall>q \<in> set qs. no_unban q"
    and "t = run_requests identity_exec (Ban uid # qs) s"
    and "identity_uniqueness_active t r" and "holder_hash s (the (ar_holder_sub r)) = ib_hash b"
  shows "bind_identity v r t = raised IdentityBanned t"
proof -
  have "List.find (\<lambda>c. ib_user c = Some uid) (bindings s) = Some b"
  proof -
    obtain c where c: "List.find (\<lambda>c. ib_user c = Some uid) (bindings s) = Some c"
      using assms(1,3) by (cases "List.find (\<lambda>c. ib_user c = Some uid) (bindings s)")
        (auto dest: find_NoneD)
    with assms(1-3) show ?thesis by (auto simp: one_account_def dest!: find_SomeD)
  qed
  then have "ib_hash b \<in> bi_hash ` set (banned_ids (identity_exec (Ban uid) s))"
    by (cases "List.find (\<lambda>x. bi_hash x = ib_hash b) (banned_ids s)")
      (force simp: ban_identity_def Let_def image_iff dest: find_SomeD)+
  moreover have "conf (identity_exec (Ban uid) s) = conf s" "lib (identity_exec (Ban uid) s) = lib s"
    by (simp_all del: identity_exec.simps)
  ultimately have "ib_hash b \<in> bi_hash ` set (banned_ids t) \<and> conf t = conf s \<and> lib t = lib s"
    using ban_kept_run [OF assms(4), of "identity_exec (Ban uid) s"] assms(5) by auto
  then show ?thesis
    using assms(6,7) by (auto simp: bind_identity_def Let_def holder_hash_def image_iff)
qed

theorem ban_outlives_account_witness:
  "\<exists>t. t = run_requests identity_exec [Ban 7, Erase 7] ledger_db \<and>
     bind_identity 9 (sample_result ''wallet'') t = raised IdentityBanned t"
proof -
  let ?t = "run_requests identity_exec [Ban 7, Erase 7] ledger_db"
  have "conf ?t = conf ledger_db" by (simp del: identity_exec.simps)
  then have "identity_uniqueness_active ?t (sample_result ''wallet'')"
    using uniqueness_active_cong [of ?t ledger_db] by simp
  moreover have "one_account (bindings ledger_db)" "\<forall>q \<in> set [Erase 7]. no_unban q"
    by (simp_all add: one_account_def no_unban_def)
  ultimately show ?thesis
    using ban_outlives_account [where s = ledger_db and b = sample_binding and uid = 7 and qs = "[Erase 7]"
        and r = "sample_result ''wallet''" and v = 9, OF _ _ _ _ refl]
    by (simp del: run_requests.simps)
qed

text \<open>
  Releasing is final for the owner: after the owner releases the binding, presenting the same
  wallet again on the same account returns the binding still released, so the account never holds a
  live identity again by that wallet - although the function promises to recover a released binding.
\<close>

theorem release_not_recovered:
  assumes "ledger_inv s" and "release_binding uid a s = (True, t)"
    and "identity_uniqueness_active t r" and "\<not> identity_is_banned t (the (ar_holder_sub r))"
    and "b \<in> set (bindings s)" and "ib_user b = Some uid"
    and "ib_hash b = holder_hash s (the (ar_holder_sub r))"
  shows "\<exists>c. bind_identity uid r t = returned (Some c) t \<and> ib_released_at c = Some (clock s) \<and>
    \<not> has_unique_identity t uid"
proof -
  obtain c where c: "List.find (\<lambda>b. ib_user b = Some uid \<and> ib_released_at b = None) (bindings s) = Some c"
      and t: "t = record_audit ''identity.binding_released'' (case a of None \<Rightarrow> Some uid | Some a \<Rightarrow> Some a)
         (identity_target c) [] (s\<lparr> bindings := update_rows (\<lambda>x. ib_id x = ib_id c)
           (\<lambda>x. x\<lparr> ib_released_at := Some (clock s) \<rparr>) (bindings s) \<rparr>)"
    using assms(2) by (auto simp: release_binding_def split: option.splits)
  have cm: "c \<in> set (bindings s)" "ib_user c = Some uid" using find_SomeD [OF c] by auto
  have [simp]: "c = b" using assms(1,5,6) cm by (auto simp: ledger_inv_def one_account_def)
  let ?b = "b\<lparr> ib_released_at := Some (clock s) \<rparr>"
  have bs: "bindings t = update_rows (\<lambda>x. ib_id x = ib_id b)
      (\<lambda>x. x\<lparr> ib_released_at := Some (clock s) \<rparr>) (bindings s)" "conf t = conf s" "lib t = lib s"
    by (simp_all add: t)
  have mem: "?b \<in> set (bindings t)"
    using assms(5) unfolding bs set_update_rows by (intro image_eqI [of _ _ b]) simp_all
  have "ledger_inv t" using release_binding_inv [OF assms(1), of uid a] assms(2) by simp
  then have inv: "unique_by ib_hash (bindings t)" "one_account (bindings t)" by (auto simp: ledger_inv_def)
  have "List.find (\<lambda>x. ib_hash x = ib_hash ?b) (bindings t) = Some ?b"
    by (rule unique_by_find [OF inv(1) mem])
  moreover have "st_uniqueness (conf t)"
    using assms(3) by (auto simp: identity_uniqueness_active_def split: if_splits)
  moreover have "x = ?b" if "x \<in> set (bindings t)" "ib_user x = Some uid" for x
    using inv(2) mem that assms(6) by (auto simp: one_account_def)
  ultimately show ?thesis
    using assms(3,4,6,7) bs by (fastforce simp: bind_identity_def Let_def holder_hash_def
        identity_is_banned_def has_unique_identity_def)
qed

theorem release_not_recovered_witness:
  "\<exists>t c. release_binding 7 None ledger_db = (True, t) \<and>
     bind_identity 7 (sample_result ''wallet'') t = returned (Some c) t \<and> \<not> has_unique_identity t 7"
proof -
  obtain t where t: "release_binding 7 None ledger_db = (True, t)" "conf t = conf ledger_db"
      "banned_ids t = []"
    by (simp add: release_binding_def)
  then have "identity_uniqueness_active t (sample_result ''wallet'')"
    using uniqueness_active_cong [of t ledger_db] by simp
  then show ?thesis
    using release_not_recovered [OF ledger_db_inv t(1), of "sample_result ''wallet''" sample_binding] t
    by (auto simp: identity_is_banned_def)
qed

end
