(* ===== verification/Accounts.thy ===== *)
theory Accounts
  imports Messaging Standing_Groups Guardrails Identity
begin

text \<open>
  The account lifecycle (apps/accounts/services.py): applying an age proof, the nightly sweeps over
  stale proofs and lapsed parental consents, guardian links and their invitations, consent,
  erasure, and the two legibility panels. The eviction of a user from conversations and groups is
  the messaging and group services' own operation.
\<close>

section \<open>Applying an age proof\<close>

definition apply_assurance :: "user \<Rightarrow> assurance_result \<Rightarrow> db \<Rightarrow> user \<times> db" where
  "apply_assurance u r s =
     (let u' = (recompute_cohort (u\<lparr> u_age_band := ar_age_band r \<rparr>))
                 \<lparr> u_verified := ar_verified r,
                   u_verified_at := (if ar_verified r then Some (clock s) else None) \<rparr>;
          s1 = s\<lparr> users := update_rows (\<lambda>x. u_id x = u_id u)
                    (\<lambda>x. x\<lparr> u_age_band := u_age_band u', u_cohort := u_cohort u',
                           u_verified := u_verified u', u_verified_at := u_verified_at u' \<rparr>) (users s) \<rparr>;
          s2 = (if u_cohort u' \<noteq> u_cohort u \<and> u_cohort u \<noteq> Unassigned
                then snd (remove_user_from_groups (u_id u) ''cohort_changed''
                       (snd (remove_user_from_conversations (u_id u) ''cohort_changed'' s1)))
                else s1)
      in (u', s2\<lparr> assurances := assurances s2 @
                   [\<lparr> as_id = seq s2, as_user = u_id u, as_provider = ar_provider r,
                      as_method = ar_method r, as_age_band = ar_age_band r,
                      as_verified_at = clock s2, as_expires_at = ar_expires_at r,
                      as_raw = ar_raw r, as_notice = RvNone \<rparr>],
                 seq := Suc (seq s2) \<rparr>))"

section \<open>The sweep over stale age proofs\<close>

definition set_notice :: "id \<Rightarrow> reverify_notice \<Rightarrow> db \<Rightarrow> db" where
  "set_notice aid n s =
     s\<lparr> assurances := update_rows (\<lambda>a. as_id a = aid) (\<lambda>a. a\<lparr> as_notice := n \<rparr>) (assurances s) \<rparr>"

definition wards_title :: "string \<Rightarrow> string" where
  "wards_title rest = ''Your ward'' @ [CHR 0x27] @ ''s '' @ rest"

definition pause_lapsed_minor :: "user \<Rightarrow> assurance \<Rightarrow> db \<Rightarrow> db" where
  "pause_lapsed_minor minor latest s =
     (let s1 = snd (remove_user_from_groups (u_id minor) ''assurance_expired'' s);
          s2 = snd (remove_user_from_conversations (u_id minor) ''assurance_expired'' s1);
          s3 = set_notice (as_id latest) RvExpired s2
      in snd (notify (u_id minor) System ''Your age verification has expired''
           ''Re-verify your age to keep joining and chatting.'' ''/verify-age/'' s3))"

definition nudge_reverify_soon :: "user \<Rightarrow> assurance \<Rightarrow> db \<Rightarrow> db" where
  "nudge_reverify_soon minor latest s =
     (let s1 = snd (notify (u_id minor) System ''Your age verification is expiring soon''
                 ''Re-verify your age soon to keep joining and chatting.'' ''/verify-age/'' s);
          s2 = snd (notify_each (active_guardians s1 (u_id minor)) System
                 (wards_title ''age verification is expiring soon'')
                 ''Your ward needs to re-verify their age soon to keep participating.'' ''/verify-age/'' s1)
      in set_notice (as_id latest) RvSoon s2)"

record sweep =
  sw_nudged :: nat
  sw_paused :: nat
  sw_lapsed :: nat

definition reverify_one :: "time \<Rightarrow> time \<Rightarrow> nat \<Rightarrow> user \<Rightarrow> sweep \<times> db \<Rightarrow> sweep \<times> db" where
  "reverify_one now soon cap minor st =
     (case st of (n, s) \<Rightarrow>
       (case latest_assurance s (u_id minor) of
          None \<Rightarrow> (n, s)
        | Some a \<Rightarrow>
            (case as_expires_at a of
               None \<Rightarrow> (n, s)
             | Some e \<Rightarrow>
                 if e \<le> now
                 then (if as_notice a = RvExpired then (n, s)
                       else let n1 = n\<lparr> sw_lapsed := Suc (sw_lapsed n) \<rparr>
                            in if cap \<le> sw_paused n then (n1, s)
                               else (n1\<lparr> sw_paused := Suc (sw_paused n) \<rparr>, pause_lapsed_minor minor a s))
                 else if e \<le> soon
                 then (if as_notice a = RvNone
                       then (n\<lparr> sw_nudged := Suc (sw_nudged n) \<rparr>, nudge_reverify_soon minor a s)
                       else (n, s))
                 else (n, s))))"

definition sweep_json :: "sweep \<Rightarrow> string \<Rightarrow> (string \<times> json) list" where
  "sweep_json n lapsed = [(''nudged'', JInt (int (sw_nudged n))), (''paused'', JInt (int (sw_paused n))),
     (lapsed, JInt (int (sw_lapsed n)))]"

definition sweep_minors :: "db \<Rightarrow> user list" where
  "sweep_minors s = filter (\<lambda>u. u_cohort u \<in> {Child, Teen} \<and> u_verified u) (users s)"

definition run_reverify_sweep :: "time \<Rightarrow> db \<Rightarrow> sweep \<times> db" where
  "run_reverify_sweep now s =
     (let cap = st_reverify_batch (conf s);
          soon = now + days (st_reverify_days (conf s));
          (n, s1) = fold (reverify_one now soon cap) (sweep_minors s)
                      (\<lparr> sw_nudged = 0, sw_paused = 0, sw_lapsed = 0 \<rparr>, s);
          s2 = (if cap < sw_lapsed n
                then record_audit ''accounts.reverify_mass_expiry_guard'' None None
                       [(''newly_expired'', JInt (int (sw_lapsed n))), (''cap'', JInt (int cap))] s1
                else s1)
      in (n, record_audit ''accounts.reverify_swept'' None None (sweep_json n ''newly_expired'') s2))"

section \<open>The sweep over parental consents\<close>

definition set_consents :: "(consent \<Rightarrow> bool) \<Rightarrow> (consent \<Rightarrow> consent) \<Rightarrow> db \<Rightarrow> db" where
  "set_consents P f s = s\<lparr> consents := update_rows P f (consents s) \<rparr>"

definition nudge_consent_renewal :: "user \<Rightarrow> consent \<Rightarrow> db \<Rightarrow> db" where
  "nudge_consent_renewal minor c s =
     set_consents (\<lambda>x. pc_id x = pc_id c) (\<lambda>x. x\<lparr> pc_notice := RnSoon \<rparr>)
       (snd (notify_each (active_guardians s (u_id minor)) System
          (wards_title ''parental consent is expiring soon'')
          ''Renew your consent soon so they can keep joining and chatting.'' ''/wards/'' s))"

definition pause_lapsed_consent :: "user \<Rightarrow> consent list \<Rightarrow> db \<Rightarrow> db" where
  "pause_lapsed_consent minor lapsed s =
     (let s1 = snd (remove_user_from_groups (u_id minor) ''consent_lapsed'' s);
          s2 = snd (remove_user_from_conversations (u_id minor) ''consent_lapsed'' s1);
          s3 = set_consents (\<lambda>x. pc_id x \<in> pc_id ` set lapsed) (\<lambda>x. x\<lparr> pc_status := CExpired \<rparr>) s2;
          s4 = snd (notify (u_id minor) System ''Your parental consent has expired''
                 ''Ask a parent or guardian to renew their consent so you can take part again.''
                 ''/guardianship/'' s3)
      in snd (notify_each (active_guardians s4 (u_id minor)) System
           (wards_title ''parental consent has expired'')
           ''Renew your consent so they can keep joining and chatting.'' ''/wards/'' s4))"

definition expiring :: "time \<Rightarrow> consent \<Rightarrow> bool" where
  "expiring soon c \<longleftrightarrow> (case pc_expires_at c of None \<Rightarrow> False | Some e \<Rightarrow> e \<le> soon) \<and> pc_notice c = RnNone"

definition consent_one :: "time \<Rightarrow> nat \<Rightarrow> user \<Rightarrow> sweep \<times> db \<Rightarrow> sweep \<times> db" where
  "consent_one soon cap minor st =
     (case st of (n, s) \<Rightarrow>
       if \<not> requires_parental_consent minor then (n, s)
       else
         let active = filter (\<lambda>c. pc_minor c = u_id minor \<and> pc_status c = CActive) (consents s);
             valid = filter (consent_is_valid (clock s)) active
         in if active = [] then (n, s)
            else if valid = []
            then (let n1 = n\<lparr> sw_lapsed := Suc (sw_lapsed n) \<rparr>
                  in if sw_paused n < cap
                     then (n1\<lparr> sw_paused := Suc (sw_paused n) \<rparr>, pause_lapsed_consent minor active s)
                     else (n1, s))
            else fold (\<lambda>c (n, s). (n\<lparr> sw_nudged := Suc (sw_nudged n) \<rparr>, nudge_consent_renewal minor c s))
                   (filter (expiring soon) valid) (n, s))"

definition consent_minors :: "db \<Rightarrow> user list" where
  "consent_minors s =
     filter (\<lambda>u. u_cohort u = Child \<and> (\<exists>c \<in> set (consents s). pc_minor c = u_id u)) (users s)"

definition run_consent_renewal_sweep :: "time \<Rightarrow> db \<Rightarrow> sweep \<times> db" where
  "run_consent_renewal_sweep now s =
     (let cap = st_consent_batch (conf s);
          soon = now + days (st_consent_days (conf s));
          (n, s1) = fold (consent_one soon cap) (consent_minors s)
                      (\<lparr> sw_nudged = 0, sw_paused = 0, sw_lapsed = 0 \<rparr>, s);
          s2 = (if cap < sw_lapsed n
                then record_audit ''accounts.consent_mass_lapse_guard'' None None
                       [(''newly_lapsed'', JInt (int (sw_lapsed n))), (''cap'', JInt (int cap))] s1
                else s1)
      in (n, record_audit ''accounts.consent_swept'' None None (sweep_json n ''newly_lapsed'') s2))"

section \<open>Guardian links\<close>

definition link_guardian ::
  "user \<Rightarrow> id \<Rightarrow> string \<Rightarrow> id option \<Rightarrow> db \<Rightarrow> (value_error, unit, db) outcome" where
  "link_guardian g w rel c s =
     (if u_id g = w then raised (ValueError ''A user cannot be their own guardian.'') s
      else if u_cohort g \<noteq> Adult then raised (ValueError ''A guardian must be a verified adult.'') s
      else
        let mine = (\<lambda>r. gr_guardian r = u_id g \<and> gr_ward r = w)
        in if \<exists>r \<in> set (guardianships s). mine r
           then returned () (s\<lparr> guardianships := update_rows mine
                  (\<lambda>r. r\<lparr> gr_relationship := rel, gr_consent := c, gr_status := LActive \<rparr>)
                  (guardianships s) \<rparr>)
           else returned () (s\<lparr> guardianships := guardianships s @
                  [\<lparr> gr_id = seq s, gr_guardian = u_id g, gr_ward = w, gr_relationship = rel,
                     gr_status = LActive, gr_consent = c \<rparr>],
                seq := Suc (seq s) \<rparr>))"

definition pending_guardian_invites_for :: "db \<Rightarrow> id \<Rightarrow> invite list" where
  "pending_guardian_invites_for s w =
     filter (\<lambda>i. gi_ward i = w \<and> gi_status i = IPending \<and> gi_expires_at i > clock s) (invites s)"

definition account_target :: "id \<Rightarrow> (string \<times> id) option" where
  "account_target i = Some (''accounts.user'', i)"

text \<open>\<open>token\<close> is the fresh value of \<open>secrets.token_urlsafe(24)\<close>.\<close>

definition create_guardian_link_invite ::
  "user \<Rightarrow> user \<Rightarrow> string \<Rightarrow> string \<Rightarrow> db \<Rightarrow> (value_error, unit, db) outcome" where
  "create_guardian_link_invite g w rel token s =
     (if \<not> minor_onboarding_enabled s
      then raised (ValueError ''Minor onboarding is disabled on this deployment.'') s
      else if u_id g = u_id w then raised (ValueError ''A user cannot be their own guardian.'') s
      else if u_cohort g \<noteq> Adult \<or> \<not> can_participate s g
      then raised (ValueError ''Only a verified adult can invite a ward.'') s
      else if u_cohort w \<noteq> Child \<and> u_cohort w \<noteq> Teen
      then raised (ValueError ''A guardian link can only target a minor account.'') s
      else if is_guardian_of s (u_id g) (u_id w)
      then raised (ValueError (''You are already this user'' @ [CHR 0x27] @ ''s guardian.'')) s
      else
        let mine = (\<lambda>i. gi_guardian i = u_id g \<and> gi_ward i = u_id w \<and> gi_status i = IPending);
            expires = clock s + days (st_invite_ttl (conf s));
            s1 = (if \<exists>i \<in> set (invites s). mine i
                  then s\<lparr> invites := update_rows mine (\<lambda>i. i\<lparr> gi_relationship := rel,
                            gi_token := token, gi_expires_at := expires \<rparr>) (invites s) \<rparr>
                  else s\<lparr> invites := invites s @
                            [\<lparr> gi_id = seq s, gi_guardian = u_id g, gi_ward = u_id w,
                               gi_relationship = rel, gi_token = token, gi_status = IPending,
                               gi_expires_at = expires, gi_responded_at = None \<rparr>],
                          seq := Suc (seq s) \<rparr>)
        in returned () (record_audit ''guardian.link_invited'' (Some (u_id g)) (account_target (u_id w)) [] s1))"

definition pending_invite :: "db \<Rightarrow> string \<Rightarrow> invite option" where
  "pending_invite s token = List.find (\<lambda>i. gi_token i = token \<and> gi_status i = IPending) (invites s)"

definition close_invite :: "id \<Rightarrow> invite_status \<Rightarrow> db \<Rightarrow> db" where
  "close_invite iid st s =
     s\<lparr> invites := update_rows (\<lambda>i. gi_id i = iid)
          (\<lambda>i. i\<lparr> gi_status := st, gi_responded_at := Some (clock s) \<rparr>) (invites s) \<rparr>"

text \<open>
  The expiry mark is committed before the error is raised. The inviter is a protected foreign key,
  so its row exists; without it the call would fail as the last check does.
\<close>

definition accept_guardian_link_invite ::
  "user \<Rightarrow> string \<Rightarrow> db \<Rightarrow> (value_error, unit, db) outcome" where
  "accept_guardian_link_invite w token s =
     (if \<not> minor_onboarding_enabled s
      then raised (ValueError ''Minor onboarding is disabled on this deployment.'') s
      else case pending_invite s token of
        None \<Rightarrow> raised (ValueError ''No such pending invite.'') s
      | Some i \<Rightarrow>
          if gi_ward i \<noteq> u_id w then raised (ValueError ''This invite is addressed to a different user.'') s
          else if gi_expires_at i \<le> clock s
          then raised (ValueError ''This invite has expired.'') (close_invite (gi_id i) IExpired s)
          else
            (case user_row s (gi_guardian i) of
               None \<Rightarrow> raised (ValueError ''The inviting guardian is no longer a verified adult.'') s
             | Some g \<Rightarrow>
                 if u_cohort g \<noteq> Adult \<or> \<not> can_participate s g
                 then raised (ValueError ''The inviting guardian is no longer a verified adult.'') s
                 else
                   (case link_guardian g (u_id w) (gi_relationship i) None s of
                      (Inl e, _) \<Rightarrow> raised e s
                    | (Inr _, s1) \<Rightarrow>
                        returned () (record_audit ''guardian.link_accepted'' (Some (u_id w))
                          (account_target (u_id g)) [] (close_invite (gi_id i) IAccepted s1)))))"

definition decline_guardian_link_invite ::
  "id \<Rightarrow> string \<Rightarrow> db \<Rightarrow> (value_error, unit, db) outcome" where
  "decline_guardian_link_invite w token s =
     (case List.find (\<lambda>i. gi_token i = token \<and> gi_status i = IPending \<and> gi_ward i = w) (invites s) of
        None \<Rightarrow> raised (ValueError ''No such pending invite.'') s
      | Some i \<Rightarrow> returned () (close_invite (gi_id i) IDeclined s))"

definition revoke_guardian :: "user \<Rightarrow> user \<Rightarrow> db \<Rightarrow> db" where
  "revoke_guardian g w s =
     (let s1 = s\<lparr> guardianships := update_rows (\<lambda>r. gr_guardian r = u_id g \<and> gr_ward r = u_id w)
                    (\<lambda>r. r\<lparr> gr_status := LRevoked \<rparr>) (guardianships s) \<rparr>;
          s2 = set_consents
                 (\<lambda>c. pc_minor c = u_id w \<and> pc_guardian c = u_public_id g \<and> pc_status c = CActive)
                 (\<lambda>c. c\<lparr> pc_status := CRevoked, pc_revoked_at := Some (clock s1) \<rparr>) s1;
          s3 = snd (drop_guardian_observers_for (u_id g) (u_id w) s2)
      in if \<not> can_participate s3 w
         then snd (remove_user_from_groups (u_id w) ''guardian_revoked''
                (snd (remove_user_from_conversations (u_id w) ''guardian_revoked'' s3)))
         else s3)"

section \<open>Consent\<close>

definition grant_parental_consent ::
  "user \<Rightarrow> user \<Rightarrow> string \<Rightarrow> time option \<Rightarrow> db \<Rightarrow> (value_error, unit, db) outcome" where
  "grant_parental_consent g w scope expires s =
     (if \<not> minor_onboarding_enabled s
      then raised (ValueError ''Minor onboarding is disabled on this deployment.'') s
      else if \<not> requires_parental_consent w
      then raised (ValueError ''This user does not require parental consent.'') s
      else if u_cohort g \<noteq> Adult \<or> \<not> can_participate s g
      then raised (ValueError ''Only a verified adult guardian can grant consent.'') s
      else if \<not> is_guardian_of s (u_id g) (u_id w)
      then raised (ValueError ''You are not a registered guardian of this user.'') s
      else
        let until = (case expires of Some e \<Rightarrow> e
                     | None \<Rightarrow> clock s + days (st_consent_validity (conf s)));
            mine = (\<lambda>c. pc_minor c = u_id w \<and> pc_guardian c = u_public_id g);
            (cid, s1) =
              (case List.find mine (consents s) of
                 Some c \<Rightarrow> (pc_id c, set_consents (\<lambda>x. pc_id x = pc_id c)
                   (\<lambda>x. x\<lparr> pc_status := CActive, pc_scope := scope, pc_granted_at := Some (clock s),
                          pc_expires_at := Some until, pc_revoked_at := None, pc_notice := RnNone \<rparr>) s)
               | None \<Rightarrow> (seq s, s\<lparr> consents := consents s @
                   [\<lparr> pc_id = seq s, pc_minor = u_id w, pc_guardian = u_public_id g,
                      pc_status = CActive, pc_scope = scope, pc_granted_at = Some (clock s),
                      pc_expires_at = Some until, pc_revoked_at = None, pc_notice = RnNone \<rparr>],
                   seq := Suc (seq s) \<rparr>))
        in returned () (s1\<lparr> guardianships := update_rows
             (\<lambda>r. gr_guardian r = u_id g \<and> gr_ward r = u_id w \<and> gr_status r = LActive)
             (\<lambda>r. r\<lparr> gr_consent := Some cid \<rparr>) (guardianships s1) \<rparr>))"

definition revoke_parental_consent ::
  "id \<Rightarrow> id \<Rightarrow> db \<Rightarrow> (value_error, nat, db) outcome" where
  "revoke_parental_consent g w s =
     (if \<not> is_guardian_of s g w
      then raised (ValueError ''You are not a registered guardian of this user.'') s
      else
        let mine = (\<lambda>c. pc_minor c = w \<and> pc_status c = CActive);
            s1 = set_consents mine (\<lambda>c. c\<lparr> pc_status := CRevoked, pc_revoked_at := Some (clock s) \<rparr>) s
        in returned (count_rows mine (consents s))
             (snd (remove_user_from_groups w ''consent_revoked''
                (snd (remove_user_from_conversations w ''consent_revoked'' s1)))))"

end
