(* ===== verification/Evictions.thy ===== *)
theory Evictions
  imports Messaging_Laws Groups_Laws Guardrails Identity
begin

text \<open>
  What the account services need of the messaging and group services: the frame of an eviction,
  that it leaves its user no place, and that both invariants survive a change of a user's cohort
  once the user is evicted.
\<close>

section \<open>Frames\<close>

definition seats_only :: "db \<Rightarrow> db \<Rightarrow> bool" where
  "seats_only s t \<longleftrightarrow>
     t = s\<lparr> participants := participants t, audit_log := audit_log t, seq := seq t \<rparr> \<and> seq s \<le> seq t"

lemma seats_only_refl [simp]: "seats_only s s"
  by (simp add: seats_only_def)

lemma seats_only_trans:
  assumes "seats_only s t" and "seats_only t w"
  shows "seats_only s w"
proof -
  have t: "t = s\<lparr> participants := participants t, audit_log := audit_log t, seq := seq t \<rparr>"
    using assms(1) by (simp add: seats_only_def)
  have "w = t\<lparr> participants := participants w, audit_log := audit_log w, seq := seq w \<rparr>"
    using assms(2) by (simp add: seats_only_def)
  also have "\<dots> = s\<lparr> participants := participants w, audit_log := audit_log w, seq := seq w \<rparr>"
    by (subst t) simp
  finally show ?thesis
    using assms by (simp add: seats_only_def)
qed

lemma seats_only_audit: "seats_only s (record_audit e a tg d s)"
  by (simp add: seats_only_def record_audit_def Let_def)

lemma seats_only_set: "seats_only s (set_participant i f s)" "seats_only s (drop_user u s)"
  by (simp_all add: seats_only_def set_participant_def drop_user_def)

lemma seats_only_steps:
  "seats_only s t \<Longrightarrow> seats_only s (record_audit e a tg d t)"
  "seats_only (record_audit e a tg d (set_participant i f s)) t \<Longrightarrow> seats_only s t"
  using seats_only_trans [OF _ seats_only_audit] seats_only_trans [OF seats_only_set(1)]
    seats_only_trans [OF seats_only_audit] by blast+

lemma seats_only_end: "seats_only s (snd (end_orphans gs s))"
  by (induction gs s rule: end_orphans.induct)
    (auto simp: case_prod_beta Let_def intro: seats_only_steps)

lemma seats_only_prune: "seats_only s (prune_each cs s)"
  by (induction cs arbitrary: s)
    (auto simp: prune_orphaned_guardians_def intro: seats_only_trans seats_only_end)

lemma seats_only_remove: "seats_only s (snd (remove_user_from_conversations u r s))"
  unfolding remove_user_from_conversations_def Let_def drop_user_def [symmetric]
  using seats_only_trans [OF seats_only_set(2) seats_only_prune] seats_only_set(2) [of s u]
  by (auto intro: seats_only_steps)

lemma seats_only_drop: "seats_only s (snd (drop_guardian_observers_for g w s))"
  by (simp add: drop_guardian_observers_for_def seats_only_end)

lemma seats_onlyD:
  assumes "seats_only s t"
  shows
  "clock t = clock s" "conf t = conf s" "lib t = lib s" "cache t = cache s"
  "users t = users s" "assurances t = assurances s" "consents t = consents s"
  "bindings t = bindings s" "banned_ids t = banned_ids s"
  "guardianships t = guardianships s" "guardrails t = guardrails s" "invites t = invites s"
  "reports t = reports s" "blocks t = blocks s" "notifications t = notifications s"
  "preferences t = preferences s" "pubkeys t = pubkeys s"
  "conversations t = conversations s" "messages t = messages s"
  "message_keys t = message_keys s" "verifications t = verifications s"
  "categories t = categories s" "activity_types t = activity_types s" "places t = places s"
  "proposals t = proposals s" "confirmations t = confirmations s"
  "activities t = activities s" "memberships t = memberships s"
  "join_votes t = join_votes s" "groups t = groups s"
  "group_memberships t = group_memberships s" "venue_classes t = venue_classes s"
  "approved_venues t = approved_venues s" "closure_reports t = closure_reports s"
  "threads t = threads s" "gauges t = gauges s" "interested t = interested s"
  "connections t = connections s"
proof -
  have t: "t = s\<lparr> participants := participants t, audit_log := audit_log t, seq := seq t \<rparr>"
    using assms by (simp add: seats_only_def)
  show "clock t = clock s" "conf t = conf s" "lib t = lib s" "cache t = cache s"
  "users t = users s" "assurances t = assurances s" "consents t = consents s"
  "bindings t = bindings s" "banned_ids t = banned_ids s"
  "guardianships t = guardianships s" "guardrails t = guardrails s" "invites t = invites s"
  "reports t = reports s" "blocks t = blocks s" "notifications t = notifications s"
  "preferences t = preferences s" "pubkeys t = pubkeys s"
  "conversations t = conversations s" "messages t = messages s"
  "message_keys t = message_keys s" "verifications t = verifications s"
  "categories t = categories s" "activity_types t = activity_types s" "places t = places s"
  "proposals t = proposals s" "confirmations t = confirmations s"
  "activities t = activities s" "memberships t = memberships s"
  "join_votes t = join_votes s" "groups t = groups s"
  "group_memberships t = group_memberships s" "venue_classes t = venue_classes s"
  "approved_venues t = approved_venues s" "closure_reports t = closure_reports s"
  "threads t = threads s" "gauges t = gauges s" "interested t = interested s"
  "connections t = connections s"
    by (subst t, simp)+
qed

lemma remove_conversations_frame [simp]:
  "clock (snd (remove_user_from_conversations u r s)) = clock s"
  "conf (snd (remove_user_from_conversations u r s)) = conf s"
  "lib (snd (remove_user_from_conversations u r s)) = lib s"
  "cache (snd (remove_user_from_conversations u r s)) = cache s"
  "users (snd (remove_user_from_conversations u r s)) = users s"
  "assurances (snd (remove_user_from_conversations u r s)) = assurances s"
  "consents (snd (remove_user_from_conversations u r s)) = consents s"
  "bindings (snd (remove_user_from_conversations u r s)) = bindings s"
  "banned_ids (snd (remove_user_from_conversations u r s)) = banned_ids s"
  "guardianships (snd (remove_user_from_conversations u r s)) = guardianships s"
  "guardrails (snd (remove_user_from_conversations u r s)) = guardrails s"
  "invites (snd (remove_user_from_conversations u r s)) = invites s"
  "reports (snd (remove_user_from_conversations u r s)) = reports s"
  "blocks (snd (remove_user_from_conversations u r s)) = blocks s"
  "notifications (snd (remove_user_from_conversations u r s)) = notifications s"
  "preferences (snd (remove_user_from_conversations u r s)) = preferences s"
  "pubkeys (snd (remove_user_from_conversations u r s)) = pubkeys s"
  "conversations (snd (remove_user_from_conversations u r s)) = conversations s"
  "messages (snd (remove_user_from_conversations u r s)) = messages s"
  "message_keys (snd (remove_user_from_conversations u r s)) = message_keys s"
  "verifications (snd (remove_user_from_conversations u r s)) = verifications s"
  "categories (snd (remove_user_from_conversations u r s)) = categories s"
  "activity_types (snd (remove_user_from_conversations u r s)) = activity_types s"
  "places (snd (remove_user_from_conversations u r s)) = places s"
  "proposals (snd (remove_user_from_conversations u r s)) = proposals s"
  "confirmations (snd (remove_user_from_conversations u r s)) = confirmations s"
  "activities (snd (remove_user_from_conversations u r s)) = activities s"
  "memberships (snd (remove_user_from_conversations u r s)) = memberships s"
  "join_votes (snd (remove_user_from_conversations u r s)) = join_votes s"
  "groups (snd (remove_user_from_conversations u r s)) = groups s"
  "group_memberships (snd (remove_user_from_conversations u r s)) = group_memberships s"
  "venue_classes (snd (remove_user_from_conversations u r s)) = venue_classes s"
  "approved_venues (snd (remove_user_from_conversations u r s)) = approved_venues s"
  "closure_reports (snd (remove_user_from_conversations u r s)) = closure_reports s"
  "threads (snd (remove_user_from_conversations u r s)) = threads s"
  "gauges (snd (remove_user_from_conversations u r s)) = gauges s"
  "interested (snd (remove_user_from_conversations u r s)) = interested s"
  "connections (snd (remove_user_from_conversations u r s)) = connections s"
  by (rule seats_onlyD [OF seats_only_remove])+

lemma drop_observers_frame [simp]:
  "clock (snd (drop_guardian_observers_for g w s)) = clock s"
  "conf (snd (drop_guardian_observers_for g w s)) = conf s"
  "lib (snd (drop_guardian_observers_for g w s)) = lib s"
  "cache (snd (drop_guardian_observers_for g w s)) = cache s"
  "users (snd (drop_guardian_observers_for g w s)) = users s"
  "assurances (snd (drop_guardian_observers_for g w s)) = assurances s"
  "consents (snd (drop_guardian_observers_for g w s)) = consents s"
  "bindings (snd (drop_guardian_observers_for g w s)) = bindings s"
  "banned_ids (snd (drop_guardian_observers_for g w s)) = banned_ids s"
  "guardianships (snd (drop_guardian_observers_for g w s)) = guardianships s"
  "guardrails (snd (drop_guardian_observers_for g w s)) = guardrails s"
  "invites (snd (drop_guardian_observers_for g w s)) = invites s"
  "reports (snd (drop_guardian_observers_for g w s)) = reports s"
  "blocks (snd (drop_guardian_observers_for g w s)) = blocks s"
  "notifications (snd (drop_guardian_observers_for g w s)) = notifications s"
  "preferences (snd (drop_guardian_observers_for g w s)) = preferences s"
  "pubkeys (snd (drop_guardian_observers_for g w s)) = pubkeys s"
  "conversations (snd (drop_guardian_observers_for g w s)) = conversations s"
  "messages (snd (drop_guardian_observers_for g w s)) = messages s"
  "message_keys (snd (drop_guardian_observers_for g w s)) = message_keys s"
  "verifications (snd (drop_guardian_observers_for g w s)) = verifications s"
  "categories (snd (drop_guardian_observers_for g w s)) = categories s"
  "activity_types (snd (drop_guardian_observers_for g w s)) = activity_types s"
  "places (snd (drop_guardian_observers_for g w s)) = places s"
  "proposals (snd (drop_guardian_observers_for g w s)) = proposals s"
  "confirmations (snd (drop_guardian_observers_for g w s)) = confirmations s"
  "activities (snd (drop_guardian_observers_for g w s)) = activities s"
  "memberships (snd (drop_guardian_observers_for g w s)) = memberships s"
  "join_votes (snd (drop_guardian_observers_for g w s)) = join_votes s"
  "groups (snd (drop_guardian_observers_for g w s)) = groups s"
  "group_memberships (snd (drop_guardian_observers_for g w s)) = group_memberships s"
  "venue_classes (snd (drop_guardian_observers_for g w s)) = venue_classes s"
  "approved_venues (snd (drop_guardian_observers_for g w s)) = approved_venues s"
  "closure_reports (snd (drop_guardian_observers_for g w s)) = closure_reports s"
  "threads (snd (drop_guardian_observers_for g w s)) = threads s"
  "gauges (snd (drop_guardian_observers_for g w s)) = gauges s"
  "interested (snd (drop_guardian_observers_for g w s)) = interested s"
  "connections (snd (drop_guardian_observers_for g w s)) = connections s"
  by (rule seats_onlyD [OF seats_only_drop])+

lemma remove_groups_frame [simp]:
  "clock (snd (remove_user_from_groups u r s)) = clock s"
  "conf (snd (remove_user_from_groups u r s)) = conf s"
  "lib (snd (remove_user_from_groups u r s)) = lib s"
  "cache (snd (remove_user_from_groups u r s)) = cache s"
  "users (snd (remove_user_from_groups u r s)) = users s"
  "assurances (snd (remove_user_from_groups u r s)) = assurances s"
  "consents (snd (remove_user_from_groups u r s)) = consents s"
  "bindings (snd (remove_user_from_groups u r s)) = bindings s"
  "banned_ids (snd (remove_user_from_groups u r s)) = banned_ids s"
  "guardianships (snd (remove_user_from_groups u r s)) = guardianships s"
  "guardrails (snd (remove_user_from_groups u r s)) = guardrails s"
  "invites (snd (remove_user_from_groups u r s)) = invites s"
  "reports (snd (remove_user_from_groups u r s)) = reports s"
  "blocks (snd (remove_user_from_groups u r s)) = blocks s"
  "notifications (snd (remove_user_from_groups u r s)) = notifications s"
  "preferences (snd (remove_user_from_groups u r s)) = preferences s"
  "pubkeys (snd (remove_user_from_groups u r s)) = pubkeys s"
  "conversations (snd (remove_user_from_groups u r s)) = conversations s"
  "participants (snd (remove_user_from_groups u r s)) = participants s"
  "messages (snd (remove_user_from_groups u r s)) = messages s"
  "message_keys (snd (remove_user_from_groups u r s)) = message_keys s"
  "verifications (snd (remove_user_from_groups u r s)) = verifications s"
  "categories (snd (remove_user_from_groups u r s)) = categories s"
  "activity_types (snd (remove_user_from_groups u r s)) = activity_types s"
  "places (snd (remove_user_from_groups u r s)) = places s"
  "proposals (snd (remove_user_from_groups u r s)) = proposals s"
  "confirmations (snd (remove_user_from_groups u r s)) = confirmations s"
  "activities (snd (remove_user_from_groups u r s)) = activities s"
  "memberships (snd (remove_user_from_groups u r s)) = memberships s"
  "join_votes (snd (remove_user_from_groups u r s)) = join_votes s"
  "groups (snd (remove_user_from_groups u r s)) = groups s"
  "venue_classes (snd (remove_user_from_groups u r s)) = venue_classes s"
  "approved_venues (snd (remove_user_from_groups u r s)) = approved_venues s"
  "closure_reports (snd (remove_user_from_groups u r s)) = closure_reports s"
  "threads (snd (remove_user_from_groups u r s)) = threads s"
  "gauges (snd (remove_user_from_groups u r s)) = gauges s"
  "interested (snd (remove_user_from_groups u r s)) = interested s"
  "connections (snd (remove_user_from_groups u r s)) = connections s"
  by (simp_all add: remove_user_from_groups_def Let_def)

lemma eviction_seq:
  "seq s \<le> seq (snd (remove_user_from_conversations u r s))"
  "seq s \<le> seq (snd (drop_guardian_observers_for g w s))"
  "seq s \<le> seq (snd (remove_user_from_groups u r s))"
  using seats_only_remove [of s u r] seats_only_drop [of s g w]
  by (simp_all add: seats_only_def remove_user_from_groups_def Let_def record_audit_def)

section \<open>Nobody gains a place\<close>

definition seats_shrink :: "db \<Rightarrow> db \<Rightarrow> bool" where
  "seats_shrink s t \<longleftrightarrow> (\<forall>q \<in> set (participants t). \<exists>p \<in> set (participants s).
     pt_id q = pt_id p \<and> pt_conv q = pt_conv p \<and> pt_user q = pt_user p \<and> pt_role q = pt_role p \<and>
     (pt_state q = pt_state p \<or> pt_state q = PRemoved))"

lemma seats_shrink_refl [simp]: "seats_shrink s s"
  by (auto simp: seats_shrink_def)

lemma seats_shrink_trans:
  assumes "seats_shrink s t" and "seats_shrink t w"
  shows "seats_shrink s w"
  unfolding seats_shrink_def
proof
  fix q assume "q \<in> set (participants w)"
  then obtain p where p: "p \<in> set (participants t)" "pt_id q = pt_id p" "pt_conv q = pt_conv p"
      "pt_user q = pt_user p" "pt_role q = pt_role p" "pt_state q = pt_state p \<or> pt_state q = PRemoved"
    using assms(2) unfolding seats_shrink_def by blast
  obtain o' where "o' \<in> set (participants s)" "pt_id p = pt_id o'" "pt_conv p = pt_conv o'"
      "pt_user p = pt_user o'" "pt_role p = pt_role o'" "pt_state p = pt_state o' \<or> pt_state p = PRemoved"
    using assms(1) p(1) unfolding seats_shrink_def by blast
  with p show "\<exists>p \<in> set (participants s). pt_id q = pt_id p \<and> pt_conv q = pt_conv p \<and>
      pt_user q = pt_user p \<and> pt_role q = pt_role p \<and> (pt_state q = pt_state p \<or> pt_state q = PRemoved)"
    by (intro bexI [of _ o']) auto
qed

lemma seats_shrink_one: "seats_shrink s (set_participant i (\<lambda>p. p\<lparr> pt_state := PRemoved \<rparr>) s)"
  by (auto simp: seats_shrink_def set_participant_rows)

lemma seats_shrink_audit [simp]:
  "seats_shrink s (record_audit e a tg d t) = seats_shrink s t"
  "seats_shrink (record_audit e a tg d s) t = seats_shrink s t"
  by (simp_all add: seats_shrink_def)

lemma seats_shrink_end: "seats_shrink s (snd (end_orphans gs s))"
  by (induction gs s rule: end_orphans.induct)
    (auto simp: case_prod_beta Let_def intro: seats_shrink_trans [OF seats_shrink_one])

lemma seats_shrink_prune: "seats_shrink s (prune_each cs s)"
  by (induction cs arbitrary: s)
    (auto simp: prune_orphaned_guardians_def intro: seats_shrink_trans [OF seats_shrink_end])

lemma seats_shrink_drop: "seats_shrink s (snd (drop_guardian_observers_for g w s))"
  by (simp add: drop_guardian_observers_for_def seats_shrink_end)

lemma dropped_out: "q \<in> set (participants (drop_user u s)) \<Longrightarrow> pt_user q = u \<Longrightarrow> \<not> in_touch q"
proof -
  assume "q \<in> set (participants (drop_user u s))" and u: "pt_user q = u"
  then obtain p where "q = (if pt_user p = u \<and> in_touch p then removed_seat p else p)"
    unfolding drop_user_rows set_map by blast
  with u show "\<not> in_touch q"
    by (cases "pt_user p = u"; cases "in_touch p") (simp_all, simp add: removed_seat_def in_touch_def)
qed

lemma seats_shrink_drop_user: "seats_shrink s (drop_user u s)"
  by (auto simp: seats_shrink_def drop_user_rows removed_seat_def)

lemma remove_conversations_shrink: "seats_shrink (drop_user u s) (snd (remove_user_from_conversations u r s))"
  unfolding remove_user_from_conversations_def Let_def drop_user_def [symmetric]
  by (auto intro: seats_shrink_prune)

lemma remove_conversations_out:
  "q \<in> set (participants (snd (remove_user_from_conversations u r s))) \<Longrightarrow> pt_user q = u \<Longrightarrow> \<not> in_touch q"
proof -
  assume q: "q \<in> set (participants (snd (remove_user_from_conversations u r s)))" "pt_user q = u"
  then obtain p where p: "p \<in> set (participants (drop_user u s))" "pt_user p = u"
      "pt_state q = pt_state p \<or> pt_state q = PRemoved"
    using remove_conversations_shrink [of u s r] unfolding seats_shrink_def by metis
  from dropped_out [OF p(1,2)] p(3) show "\<not> in_touch q" by (auto simp: in_touch_def)
qed

lemma remove_groups_out:
  "m \<in> set (group_memberships (snd (remove_user_from_groups u r s))) \<Longrightarrow> gm_user m = u \<Longrightarrow> gm_state m \<noteq> GmMember"
proof -
  assume m: "m \<in> set (group_memberships (snd (remove_user_from_groups u r s)))" and u: "gm_user m = u"
  have "group_memberships (snd (remove_user_from_groups u r s)) =
      update_rows (\<lambda>m. gm_user m = u \<and> gm_state m = GmMember) (\<lambda>m. m\<lparr> gm_state := GmRemoved \<rparr>) (group_memberships s)"
    by (simp add: remove_user_from_groups_def Let_def)
  with m have "m \<in> (\<lambda>m. if gm_user m = u \<and> gm_state m = GmMember then m\<lparr> gm_state := GmRemoved \<rparr> else m) `
      set (group_memberships s)"
    by (simp only: set_update_rows)
  then obtain p where "m = (if gm_user p = u \<and> gm_state p = GmMember then p\<lparr> gm_state := GmRemoved \<rparr> else p)"
    by blast
  with u show "gm_state m \<noteq> GmMember"
    by (cases "gm_user p = u"; cases "gm_state p = GmMember") simp_all
qed

section \<open>A change of cohort\<close>

definition cohorts_kept :: "db \<Rightarrow> db \<Rightarrow> bool" where
  "cohorts_kept s t \<longleftrightarrow> unique_by u_id (users t) \<and>
     (\<forall>i c. c \<noteq> Unassigned \<longrightarrow> has_cohort_row s i c \<longrightarrow> has_cohort_row t i c)"

lemma messaging_inv_users:
  assumes inv: "messaging_inv s" and kept: "cohorts_kept s t"
    and same: "conversations t = conversations s" "participants t = participants s"
      "guardianships t = guardianships s" "seq t = seq s"
  shows "messaging_inv t"
proof -
  have "seat_ok t p" if old: "seat_ok s p" for p
  proof -
    obtain c where c: "c \<in> set (conversations s)" "cv_id c = pt_conv p"
        "if pt_role p = PGuardian
         then cv_cohort c = Child \<and> has_cohort_row s (pt_user p) Adult \<and> pt_state p \<noteq> PInvited
         else in_touch p \<longrightarrow> cv_cohort c \<noteq> Unassigned \<and> has_cohort_row s (pt_user p) (cv_cohort c)"
      using old unfolding seat_ok_def by blast
    then show ?thesis
      using kept unfolding seat_ok_def cohorts_kept_def same
      by (intro bexI [of _ c]) (auto split: if_splits)
  qed
  moreover have "supervised t p" if "supervised s p" for p
    using that kept ward_ids_cong [OF same(3)]
    by (auto simp: supervised_def ward_present_iff cohorts_kept_def same)
  ultimately show ?thesis
    using inv kept unfolding messaging_inv_def seats_inv_def cohorts_kept_def same by blast
qed

lemma groups_inv_users:
  assumes inv: "groups_inv s" and kept: "cohorts_kept s t"
    and same: "groups t = groups s" "group_memberships t = group_memberships s" "seq t = seq s"
  shows "groups_inv t"
proof -
  have "member_ok t m" if m: "member_ok s m" for m
  proof -
    obtain g where g: "g \<in> set (groups s)" "gp_id g = gm_group m"
        "gm_state m = GmMember \<longrightarrow>
          (gm_role m = GOwner \<and> gm_user m = gp_owner g) \<or> has_cohort_row s (gm_user m) (gp_cohort g)"
      using m unfolding member_ok_def by blast
    moreover have "gp_cohort g \<noteq> Unassigned" using inv g(1) by (simp add: groups_inv_def group_ok_def)
    ultimately show ?thesis
      using kept unfolding member_ok_def cohorts_kept_def same by (intro bexI [of _ g]) auto
  qed
  then show ?thesis
    using inv unfolding groups_inv_def live_groups_def group_ok_def same by blast
qed

text \<open>Removing a user restores the messaging invariant when only that user's places broke it.\<close>

lemma remove_user_restores:
  assumes seats: "seats_inv (drop_user uid s)"
    and sup: "\<And>q. q \<in> set (participants s) \<Longrightarrow> supervised s q \<or>
      (\<exists>p \<in> set (participants s). pt_conv p = pt_conv q \<and> pt_user p = uid \<and> in_touch p)"
  shows "messaging_inv (snd (remove_user_from_conversations uid reason s))"
proof -
  define hit :: "conversation \<Rightarrow> bool" where
    "hit = (\<lambda>c. \<exists>p \<in> set (participants s). pt_conv p = cv_id c \<and> pt_user p = uid \<and> in_touch p)"
  let ?aff = "map cv_id (sort_key (\<lambda>c. - cv_updated_at c) (filter hit (conversations s)))"
  have "messaging_inv (prune_each ?aff (drop_user uid s))"
  proof (rule prune_each_inv [OF seats], intro ballI impI)
    fix q assume q: "q \<in> set (participants (drop_user uid s))" "\<not> supervised (drop_user uid s) q"
    then have mem: "q \<in> set (participants s)"
      by (auto simp: drop_user_rows supervised_def removed_seat_def split: if_splits)
    obtain c where c: "c \<in> set (conversations s)" "cv_id c = pt_conv q"
      using seats q(1) by (auto simp: seats_inv_def seat_ok_def)
    show "pt_conv q \<in> set ?aff"
    proof (rule ccontr)
      assume "pt_conv q \<notin> set ?aff"
      moreover have "hit c \<Longrightarrow> cv_id c \<in> set ?aff" using c(1) by simp
      ultimately have miss: "\<not> hit c" using c(2) by auto
      then have "supervised s q" using sup [OF mem] c(2) by (auto simp: hit_def)
      then have "supervised (drop_user uid s) q"
        using miss c(2) by (intro drop_user_supervised mem) (auto simp: hit_def)
      with q(2) show False ..
    qed
  qed
  moreover have "prune_each ?aff (drop_user uid s) = drop_user uid s" if "?aff = []"
    using that by simp
  ultimately show ?thesis
    unfolding remove_user_from_conversations_def Let_def hit_def [symmetric] drop_user_def [symmetric]
    by (auto simp del: prune_each.simps)
qed

definition never_observer :: "db \<Rightarrow> id \<Rightarrow> bool" where
  "never_observer s uid \<longleftrightarrow> (\<forall>p \<in> set (participants s). pt_user p = uid \<longrightarrow> pt_role p \<noteq> PGuardian)"

lemma recohort_messaging:
  assumes inv: "messaging_inv s" and uniq: "unique_by u_id (users t)"
    and others: "\<And>i c. i \<noteq> uid \<Longrightarrow> has_cohort_row t i c = has_cohort_row s i c"
    and same: "conversations t = conversations s" "participants t = participants s"
      "guardianships t = guardianships s" "seq t = seq s"
    and free: "never_observer s uid"
  shows "messaging_inv (snd (remove_user_from_conversations uid r t))"
proof (rule remove_user_restores)
  have rows: "participants (drop_user uid t) = participants (drop_user uid s)"
    by (simp add: drop_user_def same)
  have "seat_ok (drop_user uid t) p" if p: "p \<in> set (participants (drop_user uid s))" for p
  proof -
    have ok: "seat_ok (drop_user uid s) p"
      using drop_user_seats [OF messaging_invD(1) [OF inv]] p by (simp add: seats_inv_def)
    have role: "pt_user p = uid \<Longrightarrow> pt_role p \<noteq> PGuardian \<and> \<not> in_touch p"
      using dropped_out [OF p] p free seats_shrink_drop_user [of s uid]
      by (fastforce simp: seats_shrink_def never_observer_def)
    have row: "has_cohort_row (drop_user uid t) i c = has_cohort_row (drop_user uid s) i c"
      if "i \<noteq> uid" for i c
      using others [OF that, of c] by (simp add: has_cohort_row_def)
    show ?thesis
      using ok role row unfolding seat_ok_def drop_user_frame same by (cases "pt_user p = uid") auto
  qed
  then show "seats_inv (drop_user uid t)"
    using drop_user_seats [OF messaging_invD(1) [OF inv]] uniq
    unfolding seats_inv_def rows drop_user_frame same by blast
next
  fix q assume q: "q \<in> set (participants t)"
  then have s: "supervised s q" using inv same by (simp add: messaging_inv_def)
  show "supervised t q \<or> (\<exists>p \<in> set (participants t). pt_conv p = pt_conv q \<and> pt_user p = uid \<and> in_touch p)"
  proof (cases "pt_role q = PGuardian \<and> pt_state q = PActive")
    case True
    with s obtain w where "w \<in> set (participants s)" "pt_conv w = pt_conv q"
        "pt_user w \<in> ward_ids s (pt_user q)" "pt_state w = PActive" "has_cohort_row s (pt_user w) Child"
      by (auto simp: supervised_def ward_present_iff)
    then show ?thesis
      using others ward_ids_cong [OF same(3)] same(2)
      by (cases "pt_user w = uid") (auto simp: supervised_def ward_present_iff in_touch_def)
  qed (auto simp: supervised_def)
qed

lemma recohort_groups:
  assumes inv: "groups_inv s"
    and others: "\<And>i c. i \<noteq> uid \<Longrightarrow> has_cohort_row t i c = has_cohort_row s i c"
    and same: "groups t = groups s" "group_memberships t = group_memberships s" "seq s \<le> seq t"
  shows "groups_inv (snd (remove_user_from_groups uid r t))"
proof -
  let ?rows = "update_rows (\<lambda>m. gm_user m = uid \<and> gm_state m = GmMember)
    (\<lambda>m. m\<lparr> gm_state := GmRemoved \<rparr>) (group_memberships s)"
  let ?t = "t\<lparr> group_memberships := ?rows \<rparr>"
  have "member_ok ?t m \<and> gm_id m < seq t" if m: "m \<in> set ?rows" for m
  proof -
    obtain p where p: "p \<in> set (group_memberships s)"
        "m = (if gm_user p = uid \<and> gm_state p = GmMember then p\<lparr> gm_state := GmRemoved \<rparr> else p)"
      using m unfolding set_update_rows by blast
    have ok: "member_ok s p" "gm_id p < seq t" using inv p(1) same(3) by (auto simp: groups_inv_def)
    have row: "has_cohort_row ?t i c = has_cohort_row s i c" if "i \<noteq> uid" for i c
      using others [OF that, of c] by (simp add: has_cohort_row_def)
    show ?thesis
    proof (cases "gm_user p = uid \<and> gm_state p = GmMember")
      case True
      with p ok show ?thesis by (auto simp: member_ok_def same)
    next
      case False
      with p ok row show ?thesis
        by (cases "gm_user p = uid") (auto simp: member_ok_def same)
    qed
  qed
  moreover have "unique_by gm_id ?rows" "unique_by (\<lambda>m. (gm_group m, gm_user m)) ?rows"
    using inv by (simp_all add: unique_by_update groups_inv_def)
  ultimately have "groups_inv ?t"
    using inv same(3) unfolding groups_inv_def live_groups_def
    by (auto simp: group_ok_def same intro: less_le_trans)
  then show ?thesis
    by (simp add: remove_user_from_groups_def Let_def same)
qed

end
