(* ===== verification/Accounts_Laws.thy ===== *)
theory Accounts_Laws
  imports Accounts Evictions
begin

text \<open>
  The account services keep the messaging and the group invariant: re-verification, the sweeps,
  guardian links, consent. The exact accounting of the age-proof sweep.
\<close>

section \<open>The joint invariant\<close>

definition circle_inv :: "db \<Rightarrow> bool" where
  "circle_inv s \<longleftrightarrow> messaging_inv s \<and> groups_inv s"

lemma circle_invI [intro]: "messaging_inv s \<Longrightarrow> groups_inv s \<Longrightarrow> circle_inv s"
  by (simp add: circle_inv_def)

lemma circle_inv_cong:
  assumes "users t = users s" "conversations t = conversations s" "participants t = participants s"
    "guardianships t = guardianships s" "groups t = groups s"
    "group_memberships t = group_memberships s" "seq s \<le> seq t" and "circle_inv s"
  shows "circle_inv t"
  using assms messaging_inv_cong [of t s] groups_inv_cong [of t s]
  by (simp add: circle_inv_def conv_keys_def)

lemma circle_inv_audit [simp]: "circle_inv s \<Longrightarrow> circle_inv (record_audit e a tg d s)"
  by (simp add: circle_inv_def)



lemma circle_inv_notify [simp]: "circle_inv s \<Longrightarrow> circle_inv (snd (notify r k ti b u s))"
  by (rule circle_inv_cong) (simp_all add: notify_seq)

lemma circle_inv_notify_each [simp]: "circle_inv s \<Longrightarrow> circle_inv (snd (notify_each rs k ti b u s))"
  by (induction rs arbitrary: s) simp_all

lemma circle_inv_remove [simp]:
  assumes "circle_inv s"
  shows "circle_inv (snd (remove_user_from_conversations u r s))" "circle_inv (snd (remove_user_from_groups u r s))"
proof -
  show "circle_inv (snd (remove_user_from_conversations u r s))"
    using assms eviction_seq(1) [of s u r] groups_inv_cong [of "snd (remove_user_from_conversations u r s)" s]
    by (auto simp: circle_inv_def remove_user_inv)
  have "messaging_inv (snd (remove_user_from_groups u r s))"
    by (rule messaging_inv_cong [of _ s])
      (use assms eviction_seq(3) [of s u r] in \<open>simp_all add: circle_inv_def conv_keys_def\<close>)
  then show "circle_inv (snd (remove_user_from_groups u r s))"
    using assms by (simp add: circle_inv_def evict_inv)
qed

section \<open>Applying an age proof\<close>

definition recorded :: "user \<Rightarrow> assurance_result \<Rightarrow> time \<Rightarrow> user" where
  "recorded u r now = (recompute_cohort (u\<lparr> u_age_band := ar_age_band r \<rparr>))
     \<lparr> u_verified := ar_verified r, u_verified_at := (if ar_verified r then Some now else None) \<rparr>"

definition proof_saved :: "user \<Rightarrow> assurance_result \<Rightarrow> db \<Rightarrow> db" where
  "proof_saved u r s = s\<lparr> users := update_rows (\<lambda>x. u_id x = u_id u)
     (\<lambda>x. x\<lparr> u_age_band := u_age_band (recorded u r (clock s)), u_cohort := u_cohort (recorded u r (clock s)),
            u_verified := u_verified (recorded u r (clock s)),
            u_verified_at := u_verified_at (recorded u r (clock s)) \<rparr>) (users s) \<rparr>"

lemma recorded_cohort: "u_cohort (recorded u r now) = assign_cohort (ar_age_band r)"
  by (simp add: recorded_def recompute_cohort_def)

definition evicted :: "user \<Rightarrow> assurance_result \<Rightarrow> db \<Rightarrow> db" where
  "evicted u r s = snd (remove_user_from_groups (u_id u) ''cohort_changed''
     (snd (remove_user_from_conversations (u_id u) ''cohort_changed'' (proof_saved u r s))))"

lemma apply_assurance_eq:
  "apply_assurance u r s =
    (let s2 = (if assign_cohort (ar_age_band r) \<noteq> u_cohort u \<and> u_cohort u \<noteq> Unassigned
               then evicted u r s else proof_saved u r s)
     in (recorded u r (clock s), s2\<lparr> assurances := assurances s2 @
           [\<lparr> as_id = seq s2, as_user = u_id u, as_provider = ar_provider r,
              as_method = ar_method r, as_age_band = ar_age_band r,
              as_verified_at = clock s2, as_expires_at = ar_expires_at r,
              as_raw = ar_raw r, as_notice = RvNone \<rparr>],
         seq := Suc (seq s2) \<rparr>))"
  by (simp add: apply_assurance_def evicted_def proof_saved_def recorded_def recompute_cohort_def Let_def)

lemma saved_frame [simp]:
  "conversations (proof_saved u r s) = conversations s" "participants (proof_saved u r s) = participants s"
  "guardianships (proof_saved u r s) = guardianships s" "seq (proof_saved u r s) = seq s"
  "groups (proof_saved u r s) = groups s" "group_memberships (proof_saved u r s) = group_memberships s"
  "clock (proof_saved u r s) = clock s" "conf (proof_saved u r s) = conf s"
  "assurances (proof_saved u r s) = assurances s" "consents (proof_saved u r s) = consents s"
  by (simp_all add: proof_saved_def)

lemma saved_unique: "unique_by u_id (users (proof_saved u r s)) = unique_by u_id (users s)"
  by (simp add: proof_saved_def unique_by_update)

lemma ex_update_rows:
  "(\<exists>x \<in> set (update_rows P f rs). Q x) \<longleftrightarrow> (\<exists>x \<in> set rs. if P x then Q (f x) else Q x)"
  by (induction rs) auto

lemma saved_rows:
  "has_cohort_row (proof_saved u r s) i c \<longleftrightarrow>
     (if i = u_id u then c = assign_cohort (ar_age_band r) \<and> (\<exists>x \<in> set (users s). u_id x = i)
      else has_cohort_row s i c)"
  by (auto simp: has_cohort_row_def proof_saved_def ex_update_rows recorded_cohort split: if_splits)

lemma apply_assurance_inv:
  assumes inv: "circle_inv s" and u: "u \<in> set (users s)"
  shows "groups_inv (snd (apply_assurance u r s))"
    and "never_observer s (u_id u) \<Longrightarrow> messaging_inv (snd (apply_assurance u r s))"
proof -
  let ?t = "proof_saved u r s"
  have uniq: "unique_by u_id (users s)" using inv by (simp add: circle_inv_def messaging_inv_def seats_inv_def)
  have row: "has_cohort_row s (u_id u) c \<longleftrightarrow> c = u_cohort u" for c
    using u uniq by (auto simp: has_cohort_row_def dest: unique_byD)
  have ex: "\<exists>x \<in> set (users s). u_id x = u_id u" using u by blast
  let ?m = "snd (remove_user_from_conversations (u_id u) ''cohort_changed'' ?t)"
  have talk: "messaging_inv (evicted u r s)" if "never_observer s (u_id u)"
  proof -
    have m: "messaging_inv ?m"
      using inv uniq that
      by (intro recohort_messaging [of s]) (simp_all add: circle_inv_def saved_unique saved_rows)
    show ?thesis
      unfolding evicted_def using eviction_seq(3)
      by (rule_tac messaging_inv_cong [OF _ _ _ _ _ m]) (simp_all add: conv_keys_def)
  qed
  have circles: "groups_inv (evicted u r s)"
    unfolding evicted_def
  proof (rule recohort_groups [of s])
    show "has_cohort_row ?m i c = has_cohort_row s i c" if "i \<noteq> u_id u" for i c
      using has_cohort_row_cong [of ?m ?t] saved_rows [of u r s i c] that by simp
    show "groups_inv s" using inv by (simp add: circle_inv_def)
    show "seq s \<le> seq ?m" using eviction_seq(1) [of ?t "u_id u" "''cohort_changed''"] by simp
  qed simp_all
  have kept: "circle_inv ?t" if "assign_cohort (ar_age_band r) = u_cohort u \<or> u_cohort u = Unassigned"
  proof -
    have "cohorts_kept s ?t"
      using that uniq row ex by (auto simp: cohorts_kept_def saved_unique saved_rows)
    then show ?thesis
      using inv messaging_inv_users [of s ?t] groups_inv_users [of s ?t] by (simp add: circle_inv_def)
  qed
  have add: "messaging_inv (w\<lparr> assurances := xs, seq := Suc (seq w) \<rparr>)" if "messaging_inv w" for w xs
    by (rule messaging_inv_cong [OF _ _ _ _ _ that]) (simp_all add: conv_keys_def)
  have add': "groups_inv (w\<lparr> assurances := xs, seq := Suc (seq w) \<rparr>)" if "groups_inv w" for w xs
    by (rule groups_inv_cong [OF _ _ _ _ that]) simp_all
  show "groups_inv (snd (apply_assurance u r s))"
    using circles kept add' by (auto simp: apply_assurance_eq Let_def circle_inv_def)
  show "messaging_inv (snd (apply_assurance u r s))" if "never_observer s (u_id u)"
    using talk [OF that] kept add by (auto simp: apply_assurance_eq Let_def circle_inv_def)
qed

lemma apply_assurance_evicts:
  assumes "assign_cohort (ar_age_band r) \<noteq> u_cohort u" and "u_cohort u \<noteq> Unassigned"
  shows "p \<in> set (participants (snd (apply_assurance u r s))) \<Longrightarrow> pt_user p = u_id u \<Longrightarrow> \<not> in_touch p"
    and "m \<in> set (group_memberships (snd (apply_assurance u r s))) \<Longrightarrow> gm_user m = u_id u \<Longrightarrow>
      gm_state m \<noteq> GmMember"
  using assms remove_conversations_out [of p "u_id u" "''cohort_changed''" "proof_saved u r s"]
    remove_groups_out [of m "u_id u" "''cohort_changed''"]
  by (auto simp: apply_assurance_eq evicted_def Let_def)

section \<open>Pausing and nudging\<close>

lemma set_notice_inv [simp]: "circle_inv s \<Longrightarrow> circle_inv (set_notice a n s)"
  by (rule circle_inv_cong) (simp_all add: set_notice_def)

lemma set_consents_inv [simp]: "circle_inv s \<Longrightarrow> circle_inv (set_consents P f s)"
  by (rule circle_inv_cong) (simp_all add: set_consents_def)

lemma pause_inv [simp]: "circle_inv s \<Longrightarrow> circle_inv (pause_lapsed_minor m a s)"
  by (simp add: pause_lapsed_minor_def Let_def)

lemma nudge_inv [simp]: "circle_inv s \<Longrightarrow> circle_inv (nudge_reverify_soon m a s)"
  by (simp add: nudge_reverify_soon_def Let_def)

lemma pause_consent_inv [simp]: "circle_inv s \<Longrightarrow> circle_inv (pause_lapsed_consent m cs s)"
  by (simp add: pause_lapsed_consent_def Let_def)

lemma nudge_consent_inv [simp]: "circle_inv s \<Longrightarrow> circle_inv (nudge_consent_renewal m c s)"
  by (simp add: nudge_consent_renewal_def)

end
