(* ===== verification/Sweeps.thy ===== *)
theory Sweeps
  imports Accounts_Laws
begin

text \<open>
  The two nightly sweeps: what one pass counts, pauses and nudges, that a second pass repeats
  nothing, and that a paused account holds no place any more.
\<close>

section \<open>The latest proof\<close>

definition needs_pause :: "time \<Rightarrow> db \<Rightarrow> id \<Rightarrow> bool" where
  "needs_pause now s i \<longleftrightarrow> (case latest_assurance s i of None \<Rightarrow> False
     | Some a \<Rightarrow> (case as_expires_at a of None \<Rightarrow> False | Some e \<Rightarrow> e \<le> now \<and> as_notice a \<noteq> RvExpired))"

definition needs_nudge :: "time \<Rightarrow> time \<Rightarrow> db \<Rightarrow> id \<Rightarrow> bool" where
  "needs_nudge now soon s i \<longleftrightarrow> (case latest_assurance s i of None \<Rightarrow> False
     | Some a \<Rightarrow> (case as_expires_at a of None \<Rightarrow> False
         | Some e \<Rightarrow> now < e \<and> e \<le> soon \<and> as_notice a = RvNone))"

lemma latest_row_map:
  "(\<And>r. k (h r) = k r) \<Longrightarrow> latest_row k (map h rs) = map_option h (latest_row k rs)"
  by (induction rs) (auto split: option.splits)

lemma latest_set_notice:
  "latest_assurance (set_notice aid n s) i =
     map_option (\<lambda>a. if as_id a = aid then a\<lparr> as_notice := n \<rparr> else a) (latest_assurance s i)"
proof -
  have "filter (\<lambda>a. as_user a = i) (update_rows (\<lambda>a. as_id a = aid) (\<lambda>a. a\<lparr> as_notice := n \<rparr>) rs) =
      map (\<lambda>a. if as_id a = aid then a\<lparr> as_notice := n \<rparr> else a) (filter (\<lambda>a. as_user a = i) rs)" for rs :: "assurance list"
    by (induction rs) auto
  then show ?thesis
    by (simp add: latest_assurance_def set_notice_def latest_row_map)
qed

lemma latest_assurance_mem: "latest_assurance s i = Some a \<Longrightarrow> a \<in> set (assurances s) \<and> as_user a = i"
  using latest_row_max [of "\<lambda>a. (as_verified_at a, as_id a)" "filter (\<lambda>a. as_user a = i) (assurances s)" a]
  by (simp add: latest_assurance_def)

lemma latest_assurance_cong: "assurances t = assurances s \<Longrightarrow> latest_assurance t = latest_assurance s"
  by (simp add: latest_assurance_def fun_eq_iff)

definition proofs_unique :: "db \<Rightarrow> bool" where
  "proofs_unique s \<longleftrightarrow> unique_by as_id (assurances s)"

lemma latest_set_notice_other:
  assumes "proofs_unique s" and "latest_assurance s i = Some a" and "j \<noteq> i"
  shows "latest_assurance (set_notice (as_id a) n s) j = latest_assurance s j"
proof (cases "latest_assurance s j")
  case (Some b)
  have "as_id b \<noteq> as_id a"
    using assms latest_assurance_mem [OF Some] latest_assurance_mem [OF assms(2)]
    by (auto simp: proofs_unique_def dest: unique_byD)
  with Some show ?thesis by (simp add: latest_set_notice)
qed (simp add: latest_set_notice)

section \<open>Frames\<close>

lemma notify_each_assurances [simp]: "assurances (snd (notify_each rs k ti b u s)) = assurances s"
  "users (snd (notify_each rs k ti b u s)) = users s" "conf (snd (notify_each rs k ti b u s)) = conf s"
  "clock (snd (notify_each rs k ti b u s)) = clock s" "consents (snd (notify_each rs k ti b u s)) = consents s"
  "guardianships (snd (notify_each rs k ti b u s)) = guardianships s"
  "participants (snd (notify_each rs k ti b u s)) = participants s"
  "group_memberships (snd (notify_each rs k ti b u s)) = group_memberships s"
  by (induction rs arbitrary: s) simp_all

lemma set_notice_frame [simp]:
  "users (set_notice a n s) = users s" "conf (set_notice a n s) = conf s" "clock (set_notice a n s) = clock s"
  "participants (set_notice a n s) = participants s"
  "group_memberships (set_notice a n s) = group_memberships s"
  "notifications (set_notice a n s) = notifications s"
  "guardianships (set_notice a n s) = guardianships s" "consents (set_notice a n s) = consents s"
  by (simp_all add: set_notice_def)

lemma pause_frame [simp]:
  "users (pause_lapsed_minor m a s) = users s" "conf (pause_lapsed_minor m a s) = conf s"
  "clock (pause_lapsed_minor m a s) = clock s"
  "assurances (pause_lapsed_minor m a s) = assurances (set_notice (as_id a) RvExpired s)"
  by (simp_all add: pause_lapsed_minor_def Let_def set_notice_def)

lemma nudge_frame [simp]:
  "users (nudge_reverify_soon m a s) = users s" "conf (nudge_reverify_soon m a s) = conf s"
  "clock (nudge_reverify_soon m a s) = clock s"
  "assurances (nudge_reverify_soon m a s) = assurances (set_notice (as_id a) RvSoon s)"
  "participants (nudge_reverify_soon m a s) = participants s"
  "group_memberships (nudge_reverify_soon m a s) = group_memberships s"
  by (simp_all add: nudge_reverify_soon_def Let_def set_notice_def)

lemma proofs_unique_notice [simp]: "proofs_unique (set_notice a n s) = proofs_unique s"
  by (simp add: proofs_unique_def set_notice_def unique_by_update)

section \<open>One minor\<close>

text \<open>What one step of the sweep does, by what the minor needs.\<close>

lemma reverify_one_cases:
  fixes u
  defines "i \<equiv> u_id u"
  obtains (pause) a where "needs_pause now s i" "\<not> needs_nudge now soon s i" "sw_paused n < cap"
      "latest_assurance s i = Some a"
      "reverify_one now soon cap u (n, s) =
         (n\<lparr> sw_lapsed := Suc (sw_lapsed n), sw_paused := Suc (sw_paused n) \<rparr>, pause_lapsed_minor u a s)"
  | (capped) "needs_pause now s i" "\<not> needs_nudge now soon s i" "cap \<le> sw_paused n"
      "reverify_one now soon cap u (n, s) = (n\<lparr> sw_lapsed := Suc (sw_lapsed n) \<rparr>, s)"
  | (nudge) a where "needs_nudge now soon s i" "\<not> needs_pause now s i" "latest_assurance s i = Some a"
      "reverify_one now soon cap u (n, s) = (n\<lparr> sw_nudged := Suc (sw_nudged n) \<rparr>, nudge_reverify_soon u a s)"
  | (skip) "\<not> needs_pause now s i" "\<not> needs_nudge now soon s i"
      "reverify_one now soon cap u (n, s) = (n, s)"
proof (cases "latest_assurance s i")
  case None
  then show ?thesis
    by (intro skip) (simp_all add: needs_pause_def needs_nudge_def reverify_one_def i_def)
next
  case (Some a)
  note a = Some
  show ?thesis
  proof (cases "as_expires_at a")
    case None
    with a show ?thesis
      by (intro skip) (simp_all add: needs_pause_def needs_nudge_def reverify_one_def i_def)
  next
    case (Some e)
    note defs = needs_pause_def needs_nudge_def reverify_one_def i_def
    consider "e \<le> now" "as_notice a \<noteq> RvExpired" "sw_paused n < cap"
      | "e \<le> now" "as_notice a \<noteq> RvExpired" "cap \<le> sw_paused n"
      | "now < e" "e \<le> soon" "as_notice a = RvNone"
      | "e \<le> now \<longrightarrow> as_notice a = RvExpired" "now < e \<longrightarrow> \<not> (e \<le> soon \<and> as_notice a = RvNone)"
      by linarith
    then show ?thesis
    proof cases
      case 1 with a Some show ?thesis by (intro pause [of a]) (simp_all add: defs)
    next
      case 2 with a Some show ?thesis by (intro capped) (simp_all add: defs)
    next
      case 3 with a Some show ?thesis by (intro nudge [of a]) (simp_all add: defs)
    next
      case 4 with a Some show ?thesis
        by (intro skip) (cases "e \<le> now"; auto simp: defs)+
    qed
  qed
qed

lemma marked_done:
  assumes "latest_assurance s i = Some a"
  shows "\<not> needs_nudge now soon (set_notice (as_id a) RvExpired s) i"
    "\<not> needs_pause now (set_notice (as_id a) RvExpired s) i"
    "\<not> needs_nudge now soon (set_notice (as_id a) RvSoon s) i"
  using assms by (auto simp: needs_nudge_def needs_pause_def latest_set_notice split: option.splits)

lemma soon_not_paused:
  assumes "latest_assurance s i = Some a" and "\<not> needs_pause now s i" and "needs_nudge now soon s i"
  shows "\<not> needs_pause now (set_notice (as_id a) RvSoon s) i"
  using assms by (auto simp: needs_nudge_def needs_pause_def latest_set_notice split: option.splits)

section \<open>A pass over the minors\<close>

definition due :: "time \<Rightarrow> db \<Rightarrow> user list \<Rightarrow> nat" where
  "due now s us = count_rows (\<lambda>u. needs_pause now s (u_id u)) us"

definition to_nudge :: "time \<Rightarrow> time \<Rightarrow> db \<Rightarrow> user list \<Rightarrow> nat" where
  "to_nudge now soon s us = count_rows (\<lambda>u. needs_nudge now soon s (u_id u)) us"

lemma needs_cong:
  "latest_assurance t i = latest_assurance s i \<Longrightarrow>
   needs_pause now t i = needs_pause now s i \<and> needs_nudge now soon t i = needs_nudge now soon s i"
  by (simp add: needs_pause_def needs_nudge_def)

lemma count_rows_cong: "(\<And>r. r \<in> set rs \<Longrightarrow> P r = Q r) \<Longrightarrow> count_rows P rs = count_rows Q rs"
  by (induction rs) auto

lemma reverify_fold:
  assumes "distinct (map u_id us)" and "proofs_unique s"
    and "fold (reverify_one now soon cap) us (n, s) = (m, t)"
  shows "sw_nudged m = sw_nudged n + to_nudge now soon s us \<and> sw_lapsed m = sw_lapsed n + due now s us \<and>
    sw_paused m = (if cap \<le> sw_paused n then sw_paused n else min cap (sw_paused n + due now s us)) \<and>
    due now t us + sw_paused m = due now s us + sw_paused n \<and>
    (\<forall>u \<in> set us. \<not> needs_nudge now soon t (u_id u)) \<and>
    (\<forall>j. j \<notin> u_id ` set us \<longrightarrow> latest_assurance t j = latest_assurance s j) \<and>
    users t = users s \<and> conf t = conf s \<and> clock t = clock s \<and> proofs_unique t"
  using assms
proof (induction us arbitrary: n s)
  case Nil
  then show ?case by (simp add: due_def to_nudge_def)
next
  case (Cons u us)
  obtain n1 s1 where st: "reverify_one now soon cap u (n, s) = (n1, s1)" by fastforce
  have step: "sw_nudged n1 = sw_nudged n + (if needs_nudge now soon s (u_id u) then 1 else 0) \<and>
      sw_lapsed n1 = sw_lapsed n + (if needs_pause now s (u_id u) then 1 else 0) \<and>
      sw_paused n1 = sw_paused n + (if needs_pause now s (u_id u) \<and> sw_paused n < cap then 1 else 0) \<and>
      needs_pause now s1 (u_id u) = (needs_pause now s (u_id u) \<and> \<not> sw_paused n < cap) \<and>
      \<not> needs_nudge now soon s1 (u_id u) \<and>
      (\<forall>j. j \<noteq> u_id u \<longrightarrow> latest_assurance s1 j = latest_assurance s j) \<and>
      users s1 = users s \<and> conf s1 = conf s \<and> clock s1 = clock s \<and> proofs_unique s1"
  proof (cases rule: reverify_one_cases [of now s u soon n cap])
    case (pause a)
    then have s1: "s1 = pause_lapsed_minor u a s" and n1: "n1 = n\<lparr> sw_lapsed := Suc (sw_lapsed n), sw_paused := Suc (sw_paused n) \<rparr>"
      using st by simp_all
    have l: "latest_assurance s1 = latest_assurance (set_notice (as_id a) RvExpired s)"
      unfolding s1 by (rule latest_assurance_cong) simp
    have "proofs_unique s1" using Cons.prems(2) by (simp add: s1 proofs_unique_def set_notice_def unique_by_update)
    then show ?thesis
      using pause marked_done [OF pause(4)] latest_set_notice_other [OF Cons.prems(2) pause(4)]
      by (simp add: n1 s1 [symmetric] needs_cong [OF fun_cong [OF l]] l) (simp add: s1)
  next
    case capped
    with st Cons.prems(2) show ?thesis by auto
  next
    case (nudge a)
    then have s1: "s1 = nudge_reverify_soon u a s" and n1: "n1 = n\<lparr> sw_nudged := Suc (sw_nudged n) \<rparr>"
      using st by simp_all
    have l: "latest_assurance s1 = latest_assurance (set_notice (as_id a) RvSoon s)"
      unfolding s1 by (rule latest_assurance_cong) simp
    have "proofs_unique s1" using Cons.prems(2) by (simp add: s1 proofs_unique_def set_notice_def unique_by_update)
    then show ?thesis
      using nudge marked_done [OF nudge(3)] soon_not_paused [OF nudge(3,2,1)]
        latest_set_notice_other [OF Cons.prems(2) nudge(3)]
      by (simp add: n1 s1 [symmetric] needs_cong [OF fun_cong [OF l]] l) (simp add: s1)
  next
    case skip
    with st Cons.prems(2) show ?thesis by auto
  qed
  have fresh: "u_id u \<notin> u_id ` set us" and dist: "distinct (map u_id us)" using Cons.prems(1) by auto
  have rest: "fold (reverify_one now soon cap) us (n1, s1) = (m, t)" using Cons.prems(3) st by simp
  have un: "proofs_unique s1" using step by blast
  note ih = Cons.IH [OF dist un rest]
  have same: "due now s1 us = due now s us"
    unfolding due_def
  proof (rule count_rows_cong)
    fix v assume "v \<in> set us"
    with fresh have "u_id v \<noteq> u_id u" by (metis imageI)
    with step have "latest_assurance s1 (u_id v) = latest_assurance s (u_id v)" by blast
    from needs_cong [OF this] show "needs_pause now s1 (u_id v) = needs_pause now s (u_id v)" by blast
  qed
  have same': "to_nudge now soon s1 us = to_nudge now soon s us"
    unfolding to_nudge_def
  proof (rule count_rows_cong)
    fix v assume "v \<in> set us"
    with fresh have "u_id v \<noteq> u_id u" by (metis imageI)
    with step have "latest_assurance s1 (u_id v) = latest_assurance s (u_id v)" by blast
    from needs_cong [OF this] show "needs_nudge now soon s1 (u_id v) = needs_nudge now soon s (u_id v)" by blast
  qed
  have d': "to_nudge now soon s (u # us) = (if needs_nudge now soon s (u_id u) then 1 else 0) + to_nudge now soon s us"
    by (simp add: to_nudge_def)
  have ut: "latest_assurance t (u_id u) = latest_assurance s1 (u_id u)" using ih fresh by blast
  have d: "due now w (u # us) = (if needs_pause now w (u_id u) then 1 else 0) + due now w us" for w
    by (simp add: due_def)
  show ?case
    unfolding d d'
    using ih step same same' needs_cong [OF ut, of now soon] by auto
qed

section \<open>No place any more\<close>

definition no_place :: "db \<Rightarrow> id \<Rightarrow> bool" where
  "no_place s i \<longleftrightarrow> (\<forall>p \<in> set (participants s). pt_user p = i \<longrightarrow> \<not> in_touch p) \<and>
     (\<forall>m \<in> set (group_memberships s). gm_user m = i \<longrightarrow> gm_state m \<noteq> GmMember)"

definition told :: "db \<Rightarrow> id \<Rightarrow> string \<Rightarrow> bool" where
  "told s i title \<longleftrightarrow>
     (\<exists>x \<in> set (notifications s). nt_recipient x = i \<and> nt_kind x = System \<and> nt_title x = title)"

lemma no_place_cong:
  "participants t = participants s \<Longrightarrow> group_memberships t = group_memberships s \<Longrightarrow> no_place t = no_place s"
  by (simp add: no_place_def fun_eq_iff)

lemma no_place_remove [simp]:
  assumes "no_place s i"
  shows "no_place (snd (remove_user_from_conversations u r s)) i" "no_place (snd (remove_user_from_groups u r s)) i"
proof -
  have sh: "seats_shrink s (snd (remove_user_from_conversations u r s))"
    by (rule seats_shrink_trans [OF seats_shrink_drop_user remove_conversations_shrink])
  have "\<not> in_touch q" if q: "q \<in> set (participants (snd (remove_user_from_conversations u r s)))" "pt_user q = i" for q
  proof -
    obtain p where "p \<in> set (participants s)" "pt_user p = i" "pt_state q = pt_state p \<or> pt_state q = PRemoved"
      using sh q unfolding seats_shrink_def by metis
    with assms show ?thesis by (auto simp: no_place_def in_touch_def)
  qed
  with assms show "no_place (snd (remove_user_from_conversations u r s)) i"
    by (simp add: no_place_def)
  show "no_place (snd (remove_user_from_groups u r s)) i"
    using assms by (auto simp: no_place_def remove_user_from_groups_def Let_def set_update_rows)
qed

lemma remove_leaves_no_place:
  "no_place (snd (remove_user_from_groups i r (snd (remove_user_from_conversations i r' s)))) i"
  "no_place (snd (remove_user_from_conversations i r (snd (remove_user_from_groups i r' s)))) i"
  using remove_conversations_out remove_groups_out by (auto simp: no_place_def)

lemma no_place_steps [simp]:
  "no_place (snd (notify r k ti b u s)) = no_place s"
  "no_place (snd (notify_each rs k ti b u s)) = no_place s"
  "no_place (set_notice a n s) = no_place s" "no_place (record_audit e ac tg d s) = no_place s"
  "no_place (set_consents P f s) = no_place s"
  by (rule no_place_cong; simp add: set_consents_def)+

lemma told_cong: "notifications t = notifications s \<Longrightarrow> told t = told s"
  by (simp add: told_def fun_eq_iff)

lemma told_notify [simp]: "told s i x \<Longrightarrow> told (snd (notify r k ti b u s)) i x"
  by (auto simp: told_def notify_def Let_def)

lemma told_system [simp]: "told (snd (notify i System ti b u s)) i ti"
  using is_non_mutable_kind [of System] by (auto simp: told_def notify_def Let_def)

lemma told_each [simp]: "told s i x \<Longrightarrow> told (snd (notify_each rs k ti b u s)) i x"
  by (induction rs arbitrary: s) simp_all

lemma told_system_each: "i \<in> set rs \<Longrightarrow> told (snd (notify_each rs System ti b u s)) i ti"
  by (induction rs arbitrary: s) auto

lemma told_steps [simp]:
  "told (set_notice a n s) = told s" "told (record_audit e ac tg d s) = told s"
  "told (set_consents P f s) = told s" "told (snd (remove_user_from_conversations u r s)) = told s"
  "told (snd (remove_user_from_groups u r s)) = told s"
  by (rule told_cong; simp add: set_consents_def)+

definition expired_title :: string where
  "expired_title = ''Your age verification has expired''"

lemma pause_effect:
  "no_place (pause_lapsed_minor u a s) (u_id u)" "told (pause_lapsed_minor u a s) (u_id u) expired_title"
  "no_place s i \<Longrightarrow> no_place (pause_lapsed_minor u a s) i" "told s i x \<Longrightarrow> told (pause_lapsed_minor u a s) i x"
  by (simp_all add: pause_lapsed_minor_def Let_def expired_title_def remove_leaves_no_place)

lemma nudge_effect:
  "no_place s i \<Longrightarrow> no_place (nudge_reverify_soon u a s) i" "told s i x \<Longrightarrow> told (nudge_reverify_soon u a s) i x"
  by (simp_all add: nudge_reverify_soon_def Let_def)

lemma reverify_one_keeps:
  "circle_inv s \<Longrightarrow> circle_inv (snd (reverify_one now soon cap u (n, s)))"
  "no_place s i \<Longrightarrow> no_place (snd (reverify_one now soon cap u (n, s))) i"
  "told s i x \<Longrightarrow> told (snd (reverify_one now soon cap u (n, s))) i x"
  by (cases rule: reverify_one_cases [of now s u soon n cap]; simp add: pause_effect nudge_effect)+

lemma fold_snd_keeps:
  assumes "\<And>x n s. P s \<Longrightarrow> P (snd (f x (n, s)))" and "P s"
  shows "P (snd (fold f xs (n, s)))"
  using assms(2)
proof (induction xs arbitrary: n s)
  case (Cons x xs)
  obtain n1 s1 where st: "f x (n, s) = (n1, s1)" by fastforce
  with assms(1) [OF Cons.prems, of x n] Cons.IH [of s1 n1] show ?case by (simp add: st)
qed simp

lemma reverify_fold_keeps:
  "circle_inv s \<Longrightarrow> circle_inv (snd (fold (reverify_one now soon cap) us (n, s)))"
  "no_place s i \<Longrightarrow> no_place (snd (fold (reverify_one now soon cap) us (n, s))) i"
  "told s i x \<Longrightarrow> told (snd (fold (reverify_one now soon cap) us (n, s))) i x"
  using fold_snd_keeps [of circle_inv "reverify_one now soon cap" s us n, OF reverify_one_keeps(1)]
    fold_snd_keeps [of "\<lambda>s. no_place s i" "reverify_one now soon cap" s us n, OF reverify_one_keeps(2)]
    fold_snd_keeps [of "\<lambda>s. told s i x" "reverify_one now soon cap" s us n, OF reverify_one_keeps(3)]
  by blast+

lemma reverify_fold_evicts:
  assumes "distinct (map u_id us)" and "proofs_unique s" and "sw_paused n + due now s us \<le> cap"
    and "u \<in> set us" and "needs_pause now s (u_id u)"
    and "fold (reverify_one now soon cap) us (n, s) = (m, t)"
  shows "no_place t (u_id u) \<and> told t (u_id u) expired_title"
proof -
  obtain vs ws where us: "us = vs @ u # ws" using assms(4) by (meson split_list)
  obtain n1 s1 where f1: "fold (reverify_one now soon cap) vs (n, s) = (n1, s1)" by fastforce
  have "distinct (map u_id vs)" "u_id u \<notin> u_id ` set vs" using assms(1) us by auto
  note r = reverify_fold [OF this(1) assms(2) f1]
  have "latest_assurance s1 (u_id u) = latest_assurance s (u_id u)"
    using r \<open>u_id u \<notin> u_id ` set vs\<close> by blast
  from needs_cong [OF this] assms(5) have need: "needs_pause now s1 (u_id u)" by blast
  have "due now s us = due now s vs + Suc (due now s ws)"
    using assms(5) by (simp add: us due_def)
  with assms(3) r have room: "sw_paused n1 < cap" by (auto split: if_splits)
  have "\<exists>n2 s2. reverify_one now soon cap u (n1, s1) = (n2, s2) \<and> no_place s2 (u_id u) \<and>
      told s2 (u_id u) expired_title"
    using need room
    by (cases rule: reverify_one_cases [of now s1 u soon n1 cap]) (auto simp: pause_effect)
  then obtain n2 s2 where s2: "reverify_one now soon cap u (n1, s1) = (n2, s2)"
      "no_place s2 (u_id u)" "told s2 (u_id u) expired_title" by blast
  have "t = snd (fold (reverify_one now soon cap) ws (n2, s2))"
    using assms(6) f1 s2(1) by (simp add: us)
  with s2 show ?thesis by (simp add: reverify_fold_keeps)
qed

section \<open>The parental-consent sweep\<close>

lemma consent_fold_nudges:
  "circle_inv s \<Longrightarrow> fold (\<lambda>c (n, s). (n\<lparr> sw_nudged := Suc (sw_nudged n) \<rparr>, nudge_consent_renewal u c s)) cs (n, s) = (m, t) \<Longrightarrow>
   circle_inv t \<and> sw_paused m = sw_paused n \<and> sw_lapsed m = sw_lapsed n \<and> sw_nudged m = sw_nudged n + length cs"
proof (induction cs arbitrary: n s)
  case (Cons c cs)
  from Cons.IH [OF nudge_consent_inv [OF Cons.prems(1), of u c], of "n\<lparr> sw_nudged := Suc (sw_nudged n) \<rparr>"]
    Cons.prems(2)
  show ?case by simp
qed simp

lemma consent_one_keeps:
  assumes "circle_inv s" and "consent_one soon cap u (n, s) = (m, t)"
    and "sw_paused n = min cap (sw_lapsed n)"
  shows "circle_inv t \<and> sw_paused m = min cap (sw_lapsed m)"
proof -
  let ?a = "filter (\<lambda>c. pc_minor c = u_id u \<and> pc_status c = CActive) (consents s)"
  let ?v = "filter (consent_is_valid (clock s)) ?a"
  show ?thesis
  proof (cases "requires_parental_consent u \<and> ?v \<noteq> []")
    case True
    then have "?a \<noteq> []" by (auto simp: filter_empty_conv)
    with True assms(2) have "fold (\<lambda>c (n, s). (n\<lparr> sw_nudged := Suc (sw_nudged n) \<rparr>, nudge_consent_renewal u c s))
        (filter (expiring soon) ?v) (n, s) = (m, t)"
      by (simp add: consent_one_def Let_def)
    from consent_fold_nudges [OF assms(1) this] assms(3) show ?thesis by simp
  next
    case False
    with assms show ?thesis
      by (auto simp: consent_one_def Let_def min_def split: if_splits)
  qed
qed

lemma consent_fold_keeps:
  "circle_inv s \<Longrightarrow> sw_paused n = min cap (sw_lapsed n) \<Longrightarrow>
   fold (consent_one soon cap) us (n, s) = (m, t) \<Longrightarrow>
   circle_inv t \<and> sw_paused m = min cap (sw_lapsed m)"
proof (induction us arbitrary: n s)
  case (Cons u us)
  obtain n1 s1 where st: "consent_one soon cap u (n, s) = (n1, s1)" by fastforce
  from consent_one_keeps [OF Cons.prems(1) st Cons.prems(2)] Cons.IH [of s1 n1] Cons.prems(3) st
  show ?case by simp
qed simp

end
