(* ===== verification/Guardianship.thy ===== *)
theory Guardianship
  imports Sweeps
begin

text \<open>
  Guardian links and consent as a service: the requests, the step relation of an invitation, and
  that every operation keeps the joint invariant of conversations and groups.
\<close>

section \<open>Links\<close>

lemma link_guardian_frame [simp]:
  "users (snd (link_guardian g w rel c s)) = users s"
  "conversations (snd (link_guardian g w rel c s)) = conversations s"
  "participants (snd (link_guardian g w rel c s)) = participants s"
  "groups (snd (link_guardian g w rel c s)) = groups s"
  "group_memberships (snd (link_guardian g w rel c s)) = group_memberships s"
  "invites (snd (link_guardian g w rel c s)) = invites s"
  "consents (snd (link_guardian g w rel c s)) = consents s"
  "assurances (snd (link_guardian g w rel c s)) = assurances s"
  "clock (snd (link_guardian g w rel c s)) = clock s" "conf (snd (link_guardian g w rel c s)) = conf s"
  by (simp_all add: link_guardian_def Let_def)

lemma link_guardian_keeps:
  assumes "is_guardian_of s h v"
  shows "is_guardian_of (snd (link_guardian g w rel c s)) h v"
proof -
  obtain r where "r \<in> set (guardianships s)" "gr_guardian r = h" "gr_ward r = v" "gr_status r = LActive"
    using assms by (auto simp: is_guardian_of_def)
  then show ?thesis
    by (auto simp: link_guardian_def Let_def is_guardian_of_def ex_update_rows intro: bexI [of _ r])
qed

lemma link_guardian_grows:
  "seq s \<le> seq (snd (link_guardian g w rel c s))"
  "is_guardian_of (snd (link_guardian g w rel c s)) h v \<Longrightarrow>
     is_guardian_of s h v \<or> (h = u_id g \<and> v = w \<and> fst (link_guardian g w rel c s) = Inr ())"
  "fst (link_guardian g w rel c s) = Inr () \<Longrightarrow> is_guardian_of (snd (link_guardian g w rel c s)) (u_id g) w"
  by (auto simp: link_guardian_def Let_def is_guardian_of_def ex_update_rows split: if_splits)

lemma ward_ids_guardian: "w \<in> ward_ids s g \<longleftrightarrow> is_guardian_of s g w"
  by (auto simp: ward_ids_def is_guardian_of_def)

text \<open>More active links only add reasons for an observer to be there.\<close>

lemma circle_inv_links:
  assumes "circle_inv s" and "\<And>g w. is_guardian_of s g w \<Longrightarrow> is_guardian_of t g w"
    and same: "users t = users s" "conversations t = conversations s" "participants t = participants s"
      "groups t = groups s" "group_memberships t = group_memberships s" "seq s \<le> seq t"
  shows "circle_inv t"
proof (rule circle_invI)
  have "seats_inv t"
    by (rule seats_inv_cong [of t s]) (use assms(1) same in \<open>simp_all add: conv_keys_def circle_inv_def messaging_inv_def\<close>)
  moreover have "supervised t p" if "p \<in> set (participants t)" for p
  proof -
    have "supervised s p" using that assms(1) same(3) by (simp add: circle_inv_def messaging_inv_def)
    then show ?thesis
      using assms(2) same(1,3) by (auto simp: supervised_def ward_present_iff ward_ids_guardian has_cohort_row_def)
  qed
  ultimately show "messaging_inv t" by (simp add: messaging_inv_def)
  show "groups_inv t"
    by (rule groups_inv_cong [of t s]) (use assms(1) same in \<open>simp_all add: circle_inv_def\<close>)
qed

lemma link_guardian_inv: "circle_inv s \<Longrightarrow> circle_inv (snd (link_guardian g w rel c s))"
  by (rule circle_inv_links [OF _ link_guardian_keeps]) (use link_guardian_grows(1) in auto)

section \<open>Invitations\<close>

lemma close_invite_frame [simp]:
  "users (close_invite i st s) = users s" "conversations (close_invite i st s) = conversations s"
  "participants (close_invite i st s) = participants s" "groups (close_invite i st s) = groups s"
  "group_memberships (close_invite i st s) = group_memberships s" "seq (close_invite i st s) = seq s"
  "guardianships (close_invite i st s) = guardianships s" "clock (close_invite i st s) = clock s"
  "conf (close_invite i st s) = conf s" "consents (close_invite i st s) = consents s"
  "assurances (close_invite i st s) = assurances s"
  by (simp_all add: close_invite_def)

lemma close_invite_inv [simp]: "circle_inv s \<Longrightarrow> circle_inv (close_invite i st s)"
  by (rule circle_inv_cong) simp_all

lemma create_invite_inv: "circle_inv s \<Longrightarrow> circle_inv (snd (create_guardian_link_invite g w rel tk s))"
  by (auto simp: create_guardian_link_invite_def Let_def intro!: circle_inv_audit elim!: circle_inv_cong [rotated 7])

lemma accept_cases:
  obtains (refused) e where "accept_guardian_link_invite w tk s = raised e s"
  | (expired) i e where "pending_invite s tk = Some i"
      "accept_guardian_link_invite w tk s = raised e (close_invite (gi_id i) IExpired s)"
  | (linked) i g where "minor_onboarding_enabled s" "pending_invite s tk = Some i" "gi_ward i = u_id w"
      "clock s < gi_expires_at i" "user_row s (gi_guardian i) = Some g" "u_cohort g = Adult"
      "can_participate s g" "fst (link_guardian g (u_id w) (gi_relationship i) None s) = Inr ()"
      "accept_guardian_link_invite w tk s = returned () (record_audit ''guardian.link_accepted''
         (Some (u_id w)) (account_target (u_id g)) []
         (close_invite (gi_id i) IAccepted (snd (link_guardian g (u_id w) (gi_relationship i) None s))))"
proof (cases "minor_onboarding_enabled s")
  case False
  then show ?thesis by (intro refused) (auto simp: accept_guardian_link_invite_def)
next
  case on: True
  show ?thesis
  proof (cases "pending_invite s tk")
    case None
    with on show ?thesis by (intro refused) (auto simp: accept_guardian_link_invite_def)
  next
    case (Some i)
    show ?thesis
    proof (cases "gi_ward i \<noteq> u_id w")
      case True
      with on Some show ?thesis by (intro refused) (auto simp: accept_guardian_link_invite_def)
    next
      case False
      show ?thesis
      proof (cases "gi_expires_at i \<le> clock s")
        case True
        with on Some False show ?thesis by (intro expired) (auto simp: accept_guardian_link_invite_def)
      next
        case live: False
        show ?thesis
        proof (cases "user_row s (gi_guardian i)")
          case None
          with on Some False live show ?thesis by (intro refused) (auto simp: accept_guardian_link_invite_def)
        next
          case (Some g)
          let ?l = "link_guardian g (u_id w) (gi_relationship i) None s"
          show ?thesis
          proof (cases "u_cohort g = Adult \<and> can_participate s g \<and> fst ?l = Inr ()")
            case True
            with on \<open>pending_invite s tk = Some i\<close> False live Some show ?thesis
              by (intro linked [of i g]) (auto simp: accept_guardian_link_invite_def split: sum.splits prod.splits)
          next
            case no: False
            have "\<exists>e. accept_guardian_link_invite w tk s = raised e s"
              using no on \<open>pending_invite s tk = Some i\<close> False live Some
              by (auto simp: accept_guardian_link_invite_def split: sum.splits prod.splits)
            then show ?thesis using refused by blast
          qed
        qed
      qed
    qed
  qed
qed

lemma accept_invite_link_inv: "circle_inv s \<Longrightarrow> circle_inv (snd (accept_guardian_link_invite w tk s))"
  by (cases rule: accept_cases [of w tk s]) (simp_all add: link_guardian_inv)

lemma decline_link_inv: "circle_inv s \<Longrightarrow> circle_inv (snd (decline_guardian_link_invite w tk s))"
  by (simp add: decline_guardian_link_invite_def split: option.splits)

section \<open>Revocation and consent\<close>

definition unlinked :: "user \<Rightarrow> user \<Rightarrow> db \<Rightarrow> db" where
  "unlinked g w s = set_consents
     (\<lambda>c. pc_minor c = u_id w \<and> pc_guardian c = u_public_id g \<and> pc_status c = CActive)
     (\<lambda>c. c\<lparr> pc_status := CRevoked, pc_revoked_at := Some (clock s) \<rparr>)
     (s\<lparr> guardianships := update_rows (\<lambda>r. gr_guardian r = u_id g \<and> gr_ward r = u_id w)
          (\<lambda>r. r\<lparr> gr_status := LRevoked \<rparr>) (guardianships s) \<rparr>)"

definition unobserved :: "user \<Rightarrow> user \<Rightarrow> db \<Rightarrow> db" where
  "unobserved g w s = snd (drop_guardian_observers_for (u_id g) (u_id w) (unlinked g w s))"

lemma revoke_guardian_eq:
  "revoke_guardian g w s =
     (if can_participate (unobserved g w s) w then unobserved g w s
      else snd (remove_user_from_groups (u_id w) ''guardian_revoked''
             (snd (remove_user_from_conversations (u_id w) ''guardian_revoked'' (unobserved g w s)))))"
  by (simp add: revoke_guardian_def unobserved_def unlinked_def Let_def)

lemma unlinked_frame [simp]:
  "users (unlinked g w s) = users s" "conversations (unlinked g w s) = conversations s"
  "participants (unlinked g w s) = participants s" "groups (unlinked g w s) = groups s"
  "group_memberships (unlinked g w s) = group_memberships s" "seq (unlinked g w s) = seq s"
  "clock (unlinked g w s) = clock s" "conf (unlinked g w s) = conf s"
  "assurances (unlinked g w s) = assurances s" "invites (unlinked g w s) = invites s"
  by (simp_all add: unlinked_def set_consents_def)

lemma unlinked_guardian:
  "is_guardian_of (unlinked g w s) h v \<longleftrightarrow> is_guardian_of s h v \<and> \<not> (h = u_id g \<and> v = u_id w)"
  by (auto simp: is_guardian_of_def unlinked_def set_consents_def ex_update_rows split: if_splits)

lemma revoke_guardian_inv:
  assumes inv: "circle_inv s"
  shows "circle_inv (revoke_guardian g w s)"
proof -
  let ?t = "unlinked g w s"
  have seats: "seats_inv ?t"
    by (rule seats_inv_cong [of _ s]) (use inv in \<open>simp_all add: conv_keys_def circle_inv_def messaging_inv_def\<close>)
  have sup: "supervised ?t q" if q: "q \<in> set (participants ?t)" and ne: "pt_user q \<noteq> u_id g" for q
  proof -
    have "supervised s q" using q inv by (simp add: circle_inv_def messaging_inv_def)
    then show ?thesis
      using ne by (auto simp: supervised_def ward_present_iff ward_ids_guardian unlinked_guardian has_cohort_row_def)
  qed
  have "circle_inv (unobserved g w s)"
  proof (rule circle_invI)
    show "messaging_inv (unobserved g w s)"
      unfolding unobserved_def by (rule drop_guardian_observers_inv [OF seats sup])
    show "groups_inv (unobserved g w s)"
      unfolding unobserved_def
      by (rule groups_inv_cong [of _ s])
        (use inv eviction_seq(2) [of ?t "u_id g" "u_id w"] in \<open>simp_all add: circle_inv_def\<close>)
  qed
  then show ?thesis by (simp add: revoke_guardian_eq)
qed

lemma revoke_consent_inv: "circle_inv s \<Longrightarrow> circle_inv (snd (revoke_parental_consent g w s))"
  by (simp add: revoke_parental_consent_def Let_def)

text \<open>What a successful grant does to the two tables it writes.\<close>

definition granted :: "user \<Rightarrow> user \<Rightarrow> string \<Rightarrow> time \<Rightarrow> db \<Rightarrow> id \<times> db" where
  "granted g w scope until s =
     (case List.find (\<lambda>c. pc_minor c = u_id w \<and> pc_guardian c = u_public_id g) (consents s) of
        Some c \<Rightarrow> (pc_id c, set_consents (\<lambda>x. pc_id x = pc_id c)
          (\<lambda>x. x\<lparr> pc_status := CActive, pc_scope := scope, pc_granted_at := Some (clock s),
                 pc_expires_at := Some until, pc_revoked_at := None, pc_notice := RnNone \<rparr>) s)
      | None \<Rightarrow> (seq s, s\<lparr> consents := consents s @
          [\<lparr> pc_id = seq s, pc_minor = u_id w, pc_guardian = u_public_id g,
             pc_status = CActive, pc_scope = scope, pc_granted_at = Some (clock s),
             pc_expires_at = Some until, pc_revoked_at = None, pc_notice = RnNone \<rparr>],
          seq := Suc (seq s) \<rparr>))"

definition grant_allowed :: "user \<Rightarrow> user \<Rightarrow> db \<Rightarrow> bool" where
  "grant_allowed g w s \<longleftrightarrow> minor_onboarding_enabled s \<and> requires_parental_consent w \<and>
     u_cohort g = Adult \<and> can_participate s g \<and> is_guardian_of s (u_id g) (u_id w)"

definition consent_linked :: "user \<Rightarrow> user \<Rightarrow> id \<Rightarrow> db \<Rightarrow> db" where
  "consent_linked g w cid s = s\<lparr> guardianships := update_rows
     (\<lambda>r. gr_guardian r = u_id g \<and> gr_ward r = u_id w \<and> gr_status r = LActive)
     (\<lambda>r. r\<lparr> gr_consent := Some cid \<rparr>) (guardianships s) \<rparr>"

lemma grant_cases:
  obtains (refused) e where "grant_parental_consent g w scope ex s = raised e s" "\<not> grant_allowed g w s"
  | (granted) until where "grant_allowed g w s"
      "until = (case ex of Some e \<Rightarrow> e | None \<Rightarrow> clock s + days (st_consent_validity (conf s)))"
      "grant_parental_consent g w scope ex s =
         returned () (consent_linked g w (fst (granted g w scope until s)) (snd (granted g w scope until s)))"
proof (cases "grant_allowed g w s")
  case True
  then show ?thesis
    by (intro granted) (auto simp: grant_allowed_def grant_parental_consent_def granted_def consent_linked_def
        Let_def case_prod_beta)
next
  case False
  then have "\<exists>e. grant_parental_consent g w scope ex s = raised e s"
    by (auto simp: grant_allowed_def grant_parental_consent_def)
  with False refused show ?thesis by blast
qed

lemma granted_frame [simp]:
  "users (snd (granted g w sc u s)) = users s" "conversations (snd (granted g w sc u s)) = conversations s"
  "participants (snd (granted g w sc u s)) = participants s" "groups (snd (granted g w sc u s)) = groups s"
  "group_memberships (snd (granted g w sc u s)) = group_memberships s"
  "guardianships (snd (granted g w sc u s)) = guardianships s" "clock (snd (granted g w sc u s)) = clock s"
  "assurances (snd (granted g w sc u s)) = assurances s" "invites (snd (granted g w sc u s)) = invites s"
  "conf (snd (granted g w sc u s)) = conf s"
  by (simp_all add: granted_def set_consents_def split: option.splits)

lemma granted_seq: "seq s \<le> seq (snd (granted g w sc u s))"
  by (simp add: granted_def set_consents_def split: option.splits)

lemma consent_linked_frame [simp]:
  "users (consent_linked g w c s) = users s" "conversations (consent_linked g w c s) = conversations s"
  "participants (consent_linked g w c s) = participants s" "groups (consent_linked g w c s) = groups s"
  "group_memberships (consent_linked g w c s) = group_memberships s" "seq (consent_linked g w c s) = seq s"
  "clock (consent_linked g w c s) = clock s" "assurances (consent_linked g w c s) = assurances s"
  "consents (consent_linked g w c s) = consents s" "invites (consent_linked g w c s) = invites s"
  by (simp_all add: consent_linked_def)

lemma consent_linked_guardian: "is_guardian_of (consent_linked g w c s) h v = is_guardian_of s h v"
  by (simp add: is_guardian_of_def consent_linked_def ex_update_rows) (rule bex_cong; auto)

lemma grant_inv:
  assumes "circle_inv s"
  shows "circle_inv (snd (grant_parental_consent g w scope ex s))"
proof (cases rule: grant_cases [of g w scope ex s])
  case (granted until)
  have "circle_inv (snd (granted g w scope until s))"
    by (rule circle_inv_cong [OF _ _ _ _ _ _ granted_seq assms]) simp_all
  then have "circle_inv (consent_linked g w c (snd (granted g w scope until s)))" for c
    by (rule circle_inv_links) (simp_all add: consent_linked_guardian)
  with granted(3) show ?thesis by simp
qed (use assms in simp)

section \<open>The step relation of an invitation\<close>

text \<open>
  An open invitation may be refreshed by the guardian or closed once; a closed one never changes.
\<close>

inductive invite_step :: "invite \<Rightarrow> invite \<Rightarrow> bool" where
  refresh: "gi_status i = IPending \<Longrightarrow>
     invite_step i (i\<lparr> gi_relationship := r, gi_token := tk, gi_expires_at := e \<rparr>)"
| close: "gi_status i = IPending \<Longrightarrow> st \<noteq> IPending \<Longrightarrow>
     invite_step i (i\<lparr> gi_status := st, gi_responded_at := Some t \<rparr>)"

inductive_cases invite_stepE: "invite_step i j"

lemma invite_step_keys: "invite_step i j \<Longrightarrow>
   gi_id j = gi_id i \<and> gi_guardian j = gi_guardian i \<and> gi_ward j = gi_ward i \<and> gi_status i = IPending"
  by (elim invite_stepE) simp_all

lemma invite_steps_keys: "invite_step\<^sup>*\<^sup>* i j \<Longrightarrow>
   gi_id j = gi_id i \<and> gi_guardian j = gi_guardian i \<and> gi_ward j = gi_ward i \<and>
   (gi_status i \<noteq> IPending \<longrightarrow> j = i)"
  by (induction rule: rtranclp_induct) (auto dest: invite_step_keys)

definition invites_evolve :: "db \<Rightarrow> db \<Rightarrow> bool" where
  "invites_evolve s t \<longleftrightarrow> (\<forall>i \<in> set (invites s). \<exists>j \<in> set (invites t). invite_step\<^sup>*\<^sup>* i j)"

lemma invites_evolve_refl: "invites t = invites s \<Longrightarrow> invites_evolve s t"
  by (auto simp: invites_evolve_def)

lemma invites_evolve_trans: "invites_evolve s t \<Longrightarrow> invites_evolve t w \<Longrightarrow> invites_evolve s w"
  unfolding invites_evolve_def by (meson rtranclp_trans)

lemma invites_evolve_update:
  assumes "invites t = update_rows P f (invites s) @ xs"
    and "\<And>i. i \<in> set (invites s) \<Longrightarrow> P i \<Longrightarrow> invite_step i (f i)"
  shows "invites_evolve s t"
  unfolding invites_evolve_def
proof
  fix i assume i: "i \<in> set (invites s)"
  then have "(if P i then f i else i) \<in> set (invites t)"
    unfolding assms(1) set_append set_update_rows by blast
  moreover have "invite_step\<^sup>*\<^sup>* i (if P i then f i else i)" using assms(2) [OF i] by auto
  ultimately show "\<exists>j \<in> set (invites t). invite_step\<^sup>*\<^sup>* i j" by blast
qed

definition invites_unique :: "db \<Rightarrow> bool" where
  "invites_unique s \<longleftrightarrow> unique_by gi_id (invites s) \<and> (\<forall>i \<in> set (invites s). gi_id i < seq s)"

lemma pending_inviteD:
  "pending_invite s tk = Some i \<Longrightarrow> i \<in> set (invites s) \<and> gi_status i = IPending \<and> gi_token i = tk"
  by (auto simp: pending_invite_def dest: find_SomeD)

lemma close_evolves:
  assumes "invites_unique s" and "i \<in> set (invites s)" "gi_status i = IPending" "st \<noteq> IPending"
    and "invites t = invites s"
  shows "invites_evolve s (close_invite (gi_id i) st t)"
proof (rule invites_evolve_update)
  show "invites (close_invite (gi_id i) st t) = update_rows (\<lambda>x. gi_id x = gi_id i)
      (\<lambda>x. x\<lparr> gi_status := st, gi_responded_at := Some (clock t) \<rparr>) (invites s) @ []"
    by (simp add: close_invite_def assms(5))
  fix x assume "x \<in> set (invites s)" "gi_id x = gi_id i"
  with assms have "x = i" by (auto simp: invites_unique_def dest: unique_byD)
  with assms(3,4) show "invite_step x (x\<lparr> gi_status := st, gi_responded_at := Some (clock t) \<rparr>)"
    by (simp add: invite_step.close)
qed

lemma create_invite_evolves: "invites_evolve s (snd (create_guardian_link_invite g w rel tk s))"
proof -
  let ?mine = "\<lambda>i. gi_guardian i = u_id g \<and> gi_ward i = u_id w \<and> gi_status i = IPending"
  let ?f = "\<lambda>i. i\<lparr> gi_relationship := rel, gi_token := tk, gi_expires_at := clock s + days (st_invite_ttl (conf s)) \<rparr>"
  have "\<exists>xs. invites (snd (create_guardian_link_invite g w rel tk s)) = invites s @ xs \<or>
      invites (snd (create_guardian_link_invite g w rel tk s)) = update_rows ?mine ?f (invites s) @ xs"
    by (auto simp: create_guardian_link_invite_def Let_def)
  then obtain xs where "invites (snd (create_guardian_link_invite g w rel tk s)) = invites s @ xs \<or>
      invites (snd (create_guardian_link_invite g w rel tk s)) = update_rows ?mine ?f (invites s) @ xs" ..
  then show ?thesis
  proof
    assume "invites (snd (create_guardian_link_invite g w rel tk s)) = invites s @ xs"
    then show ?thesis by (auto simp: invites_evolve_def)
  next
    assume "invites (snd (create_guardian_link_invite g w rel tk s)) = update_rows ?mine ?f (invites s) @ xs"
    then show ?thesis by (rule invites_evolve_update) (simp add: invite_step.refresh)
  qed
qed

lemma accept_evolves:
  assumes "invites_unique s"
  shows "invites_evolve s (snd (accept_guardian_link_invite w tk s))"
proof (cases rule: accept_cases [of w tk s])
  case (expired i e)
  with close_evolves [OF assms, of i IExpired s] pending_inviteD [OF expired(1)] show ?thesis by simp
next
  case (linked i g)
  let ?l = "snd (link_guardian g (u_id w) (gi_relationship i) None s)"
  have "invites_evolve s (close_invite (gi_id i) IAccepted ?l)"
    using pending_inviteD [OF linked(2)] by (intro close_evolves [OF assms]) simp_all
  with linked(9) show ?thesis by (simp add: invites_evolve_def)
qed (simp add: invites_evolve_refl)

lemma decline_evolves:
  assumes "invites_unique s"
  shows "invites_evolve s (snd (decline_guardian_link_invite w tk s))"
  using close_evolves [OF assms]
  by (auto simp: decline_guardian_link_invite_def invites_evolve_refl split: option.splits dest: find_SomeD)

end
