(* ===== verification/Guardianship_Service.thy ===== *)
theory Guardianship_Service
  imports Guardianship
begin

text \<open>
  The account service as a whole: its requests, the interpretation of the service interfaces on
  it, and the properties of re-verification, sweeps, invitations and consent.
\<close>

section \<open>An interface: state that evolves\<close>

text \<open>A service whose every request relates the state before to the state after.\<close>

locale evolving = service exec inv for exec :: "'q \<Rightarrow> 's \<Rightarrow> 's" and inv :: "'s \<Rightarrow> bool" +
  fixes rel :: "'s \<Rightarrow> 's \<Rightarrow> bool"
  assumes rel_refl: "rel s s"
    and rel_trans: "rel s t \<Longrightarrow> rel t w \<Longrightarrow> rel s w"
    and exec_rel: "inv s \<Longrightarrow> rel s (exec q s)"
begin

lemma run_rel: "inv s \<Longrightarrow> rel s (run_requests exec qs s)"
proof (induction qs arbitrary: s)
  case Nil
  show ?case by (simp add: rel_refl)
next
  case (Cons q qs)
  then show ?case
    using rel_trans [OF exec_rel Cons.IH [OF exec_inv]] by simp
qed

end

section \<open>Requests\<close>

datatype family_request =
    Invite id id string string
  | Accept id string
  | Decline id string
  | Grant id id string "time option"
  | RevokeConsent id id
  | RevokeLink id id
  | ReverifySweep "time option"
  | ConsentSweep "time option"

fun family_exec :: "family_request \<Rightarrow> db \<Rightarrow> db" where
  "family_exec (Invite g w rel tk) s =
     with_member s g (\<lambda>g. with_member s w (\<lambda>w. snd (create_guardian_link_invite g w rel tk s)))"
| "family_exec (Accept w tk) s = with_member s w (\<lambda>w. snd (accept_guardian_link_invite w tk s))"
| "family_exec (Decline w tk) s = snd (decline_guardian_link_invite w tk s)"
| "family_exec (Grant g w scope ex) s =
     with_member s g (\<lambda>g. with_member s w (\<lambda>w. snd (grant_parental_consent g w scope ex s)))"
| "family_exec (RevokeConsent g w) s = snd (revoke_parental_consent g w s)"
| "family_exec (RevokeLink g w) s =
     with_member s g (\<lambda>g. with_member s w (\<lambda>w. revoke_guardian g w s))"
| "family_exec (ReverifySweep now) s =
     snd (run_reverify_sweep (case now of None \<Rightarrow> clock s | Some t \<Rightarrow> t) s)"
| "family_exec (ConsentSweep now) s =
     snd (run_consent_renewal_sweep (case now of None \<Rightarrow> clock s | Some t \<Rightarrow> t) s)"

lemma reverify_sweep_inv: "circle_inv s \<Longrightarrow> circle_inv (snd (run_reverify_sweep now s))"
  by (simp add: run_reverify_sweep_def Let_def case_prod_beta reverify_fold_keeps)

lemma consent_sweep_inv:
  assumes "circle_inv s"
  shows "circle_inv (snd (run_consent_renewal_sweep now s))"
proof -
  let ?z = "\<lparr> sw_nudged = 0, sw_paused = 0, sw_lapsed = 0 \<rparr>"
  obtain m t where st: "fold (consent_one (now + days (st_consent_days (conf s))) (st_consent_batch (conf s)))
      (consent_minors s) (?z, s) = (m, t)" by fastforce
  with consent_fold_keeps [OF assms _ st] show ?thesis
    by (simp add: run_consent_renewal_sweep_def Let_def case_prod_beta)
qed

lemma family_circle_inv: "circle_inv s \<Longrightarrow> circle_inv (family_exec q s)"
  by (cases q)
    (auto intro!: with_member_intro [where P = circle_inv] create_invite_inv accept_invite_link_inv
      decline_link_inv grant_inv revoke_consent_inv revoke_guardian_inv reverify_sweep_inv consent_sweep_inv)

text \<open>The tables and the counter of ids that an eviction, a sweep or a revocation leaves alone.\<close>

definition invites_kept :: "db \<Rightarrow> db \<Rightarrow> bool" where
  "invites_kept s t \<longleftrightarrow> invites t = invites s \<and> guardianships t = guardianships s \<and> seq s \<le> seq t"

lemma invites_kept_refl: "invites_kept s s"
  by (simp add: invites_kept_def)

lemma invites_kept_trans: "invites_kept s t \<Longrightarrow> invites_kept t w \<Longrightarrow> invites_kept s w"
  by (simp add: invites_kept_def)

lemma invites_kept_steps:
  "invites_kept s (snd (remove_user_from_conversations u r s))"
  "invites_kept s (snd (remove_user_from_groups u r s))"
  "invites_kept s (record_audit e a tg d s)" "invites_kept s (snd (notify r' k ti b ur s))"
  "invites_kept s (set_notice i n s)" "invites_kept s (set_consents P f s)"
  using eviction_seq(1) [of s u r] eviction_seq(3) [of s u r] notify_seq [of s r' k ti b ur]
  by (simp_all add: invites_kept_def set_notice_def set_consents_def record_audit_def Let_def)

lemma invites_kept_each: "invites_kept s (snd (notify_each rs k ti b u s))"
  by (induction rs arbitrary: s)
    (auto simp: invites_kept_refl intro: invites_kept_trans [OF invites_kept_steps(4)])

lemmas invites_kept_rules = invites_kept_refl invites_kept_steps invites_kept_each
  invites_kept_trans [OF _ invites_kept_steps(1)] invites_kept_trans [OF _ invites_kept_steps(2)]
  invites_kept_trans [OF _ invites_kept_steps(3)] invites_kept_trans [OF _ invites_kept_steps(4)]
  invites_kept_trans [OF _ invites_kept_steps(5)] invites_kept_trans [OF _ invites_kept_steps(6)]
  invites_kept_trans [OF _ invites_kept_each]

lemma pause_keeps_invites: "invites_kept s (pause_lapsed_minor u a s)"
  "invites_kept s (nudge_reverify_soon u a s)" "invites_kept s (pause_lapsed_consent u cs s)"
  "invites_kept s (nudge_consent_renewal u c s)"
  unfolding pause_lapsed_minor_def nudge_reverify_soon_def pause_lapsed_consent_def
    nudge_consent_renewal_def Let_def
  by (rule invites_kept_rules)+

lemma reverify_one_invites: "invites_kept w s \<Longrightarrow> invites_kept w (snd (reverify_one now soon cap u (n, s)))"
  by (cases rule: reverify_one_cases [of now s u soon n cap])
    (auto intro: invites_kept_trans pause_keeps_invites)

lemma consent_one_invites: "invites_kept w s \<Longrightarrow> invites_kept w (snd (consent_one soon cap u (n, s)))"
proof -
  assume k: "invites_kept w s"
  have nudges: "invites_kept w (snd (fold (\<lambda>c (n, s). (n\<lparr> sw_nudged := Suc (sw_nudged n) \<rparr>,
      nudge_consent_renewal u c s)) cs (n, s)))" for cs
    by (rule fold_snd_keeps [of "invites_kept w", OF _ k]) (auto intro: invites_kept_trans pause_keeps_invites(4))
  show ?thesis
    using k nudges invites_kept_trans [OF k pause_keeps_invites(3)]
    by (auto simp: consent_one_def Let_def)
qed

lemma sweeps_invites: "invites_kept s (snd (run_reverify_sweep now s))"
  "invites_kept s (snd (run_consent_renewal_sweep now s))"
proof -
  have "invites_kept s (snd (fold (reverify_one now soon cap) us (n, s)))" for soon cap us n
    by (rule fold_snd_keeps [of "invites_kept s"]) (simp_all add: reverify_one_invites invites_kept_refl)
  then show "invites_kept s (snd (run_reverify_sweep now s))"
    by (auto simp: run_reverify_sweep_def Let_def case_prod_beta intro!: invites_kept_trans [OF _ invites_kept_steps(3)])
  have "invites_kept s (snd (fold (consent_one soon cap) us (n, s)))" for soon cap us n
    by (rule fold_snd_keeps [of "invites_kept s"]) (simp_all add: consent_one_invites invites_kept_refl)
  then show "invites_kept s (snd (run_consent_renewal_sweep now s))"
    by (auto simp: run_consent_renewal_sweep_def Let_def case_prod_beta intro!: invites_kept_trans [OF _ invites_kept_steps(3)])
qed

section \<open>What a request may change of links and invitations\<close>

definition accepted_link :: "db \<Rightarrow> id \<Rightarrow> id \<Rightarrow> bool" where
  "accepted_link s g w \<longleftrightarrow>
     (\<exists>i \<in> set (invites s). gi_guardian i = g \<and> gi_ward i = w \<and> gi_status i = IAccepted)"

definition links_evolve :: "db \<Rightarrow> db \<Rightarrow> bool" where
  "links_evolve s t \<longleftrightarrow> invites_evolve s t \<and>
     (\<forall>g w. is_guardian_of t g w \<longrightarrow> is_guardian_of s g w \<or> accepted_link t g w)"

lemma accepted_persists: "invites_evolve s t \<Longrightarrow> accepted_link s g w \<Longrightarrow> accepted_link t g w"
  unfolding accepted_link_def invites_evolve_def
  by (metis invite_status.distinct(1) invite_steps_keys)

lemma links_evolve_refl: "links_evolve s s"
  by (simp add: links_evolve_def invites_evolve_refl)

lemma links_evolve_trans: "links_evolve s t \<Longrightarrow> links_evolve t w \<Longrightarrow> links_evolve s w"
  unfolding links_evolve_def using accepted_persists invites_evolve_trans by blast

lemma kept_evolves: "invites_kept s t \<Longrightarrow> links_evolve s t"
  by (simp add: invites_kept_def links_evolve_def invites_evolve_refl is_guardian_of_def)

lemma links_evolve_record [simp]: "links_evolve s (record_audit e a tg d t) = links_evolve s t"
  by (simp add: links_evolve_def invites_evolve_def is_guardian_of_def accepted_link_def)

lemma fewer_links: "invites t = invites s \<Longrightarrow> (\<And>g w. is_guardian_of t g w \<Longrightarrow> is_guardian_of s g w) \<Longrightarrow>
   links_evolve s t"
  by (simp add: links_evolve_def invites_evolve_refl)

lemma accept_links:
  assumes un: "invites_unique s"
  shows "links_evolve s (snd (accept_guardian_link_invite w tk s))"
proof (cases rule: accept_cases [of w tk s])
  case (refused e)
  then show ?thesis by (simp add: links_evolve_refl)
next
  case (expired i e)
  have "is_guardian_of (close_invite (gi_id i) IExpired s) = is_guardian_of s"
    by (simp add: is_guardian_of_def fun_eq_iff)
  with accept_evolves [OF un, of w tk] expired(2) show ?thesis by (simp add: links_evolve_def)
next
  case (linked i g)
  let ?l = "snd (link_guardian g (u_id w) (gi_relationship i) None s)"
  have i: "i \<in> set (invites s)" "gi_status i = IPending" using pending_inviteD [OF linked(2)] by blast+
  have g: "u_id g = gi_guardian i" using user_row_SomeD [OF linked(5)] by simp
  have "i\<lparr> gi_status := IAccepted, gi_responded_at := Some (clock ?l) \<rparr> \<in> set (invites (close_invite (gi_id i) IAccepted ?l))"
    using update_rows_memI [OF i(1), of "\<lambda>x. gi_id x = gi_id i"
        "\<lambda>x. x\<lparr> gi_status := IAccepted, gi_responded_at := Some (clock ?l) \<rparr>"]
    by (simp add: close_invite_def)
  then have acc: "accepted_link (close_invite (gi_id i) IAccepted ?l) (u_id g) (u_id w)"
    unfolding accepted_link_def using g linked(3) by (intro bexI) auto
  have "is_guardian_of (close_invite (gi_id i) IAccepted ?l) = is_guardian_of ?l"
    by (simp add: is_guardian_of_def fun_eq_iff)
  then have "links_evolve s (close_invite (gi_id i) IAccepted ?l)"
    using accept_evolves [OF un, of w tk] linked(9) acc
      link_guardian_grows(2) [of g "u_id w" "gi_relationship i" None s]
    by (auto simp: links_evolve_def invites_evolve_def)
  with linked(9) show ?thesis by simp
qed

lemma unobserved_kept: "invites_kept (unlinked g w s) (unobserved g w s)"
  using eviction_seq(2) [of "unlinked g w s" "u_id g" "u_id w"] by (simp add: unobserved_def invites_kept_def)

lemma revoke_links: "links_evolve s (revoke_guardian g w s)"
proof -
  have "links_evolve s (unlinked g w s)"
    by (rule fewer_links) (simp_all add: unlinked_guardian)
  then have "links_evolve s (unobserved g w s)"
    using kept_evolves [OF unobserved_kept] links_evolve_trans by blast
  then show ?thesis
    unfolding revoke_guardian_eq
    by (auto intro: links_evolve_trans
        kept_evolves [OF invites_kept_trans [OF invites_kept_steps(1) invites_kept_steps(2)]])
qed

lemma grant_links: "links_evolve s (snd (grant_parental_consent g w scope ex s))"
  by (cases rule: grant_cases [of g w scope ex s])
    (auto simp: links_evolve_refl consent_linked_guardian is_guardian_of_def [of "snd (granted _ _ _ _ _)"]
      is_guardian_of_def [of s] intro!: fewer_links)

lemma create_links: "links_evolve s (snd (create_guardian_link_invite g w rel tk s))"
proof -
  have "guardianships (snd (create_guardian_link_invite g w rel tk s)) = guardianships s"
    by (simp add: create_guardian_link_invite_def Let_def)
  then show ?thesis
    using create_invite_evolves by (simp add: links_evolve_def is_guardian_of_def)
qed

lemma decline_links:
  assumes "invites_unique s"
  shows "links_evolve s (snd (decline_guardian_link_invite w tk s))"
proof -
  have "guardianships (snd (decline_guardian_link_invite w tk s)) = guardianships s"
    by (simp add: decline_guardian_link_invite_def split: option.splits)
  then show ?thesis
    using decline_evolves [OF assms] by (simp add: links_evolve_def is_guardian_of_def)
qed

lemma revoke_consent_kept: "invites_kept s (snd (revoke_parental_consent g w s))"
  by (auto simp: revoke_parental_consent_def Let_def intro!: invites_kept_rules)

lemma family_exec_links: "invites_unique s \<Longrightarrow> links_evolve s (family_exec q s)"
  by (cases q)
    (auto intro!: with_member_intro [where P = "links_evolve s"] links_evolve_refl create_links accept_links
      decline_links grant_links revoke_links kept_evolves [OF sweeps_invites(1)]
      kept_evolves [OF sweeps_invites(2)] kept_evolves [OF revoke_consent_kept])

section \<open>Unique invitations\<close>

lemma invites_unique_kept: "invites_kept s t \<Longrightarrow> invites_unique s \<Longrightarrow> invites_unique t"
  by (auto simp: invites_unique_def invites_kept_def intro: less_le_trans)

lemma invites_unique_update:
  assumes "invites_unique s" and "invites t = update_rows P f (invites s)" and "seq s \<le> seq t"
    and "\<And>i. gi_id (f i) = gi_id i"
  shows "invites_unique t"
  using assms(1,3) by (auto simp: invites_unique_def assms(2,4) unique_by_update set_update_rows intro: less_le_trans)

lemma create_unique:
  assumes un: "invites_unique s"
  shows "invites_unique (snd (create_guardian_link_invite g w rel tk s))"
proof -
  have "invites_unique (record_audit e a tg d t)" if "invites_unique t" for e a tg d t
    using that by (rule invites_unique_kept [OF invites_kept_steps(3)])
  moreover have "invites_unique (s\<lparr> invites := update_rows P (\<lambda>i. i\<lparr> gi_relationship := rel,
      gi_token := tk, gi_expires_at := ex \<rparr>) (invites s) \<rparr>)" for P ex
    by (rule invites_unique_update [OF un, where P = P and f = "\<lambda>i. i\<lparr> gi_relationship := rel,
      gi_token := tk, gi_expires_at := ex \<rparr>"]) simp_all
  moreover have "invites_unique (s\<lparr> invites := invites s @ [i], seq := Suc (seq s) \<rparr>)" if "gi_id i = seq s" for i
    using un that by (auto simp: invites_unique_def less_Suc_eq)
  ultimately show ?thesis
    using un by (simp add: create_guardian_link_invite_def Let_def)
qed

lemma close_unique: "invites_unique s \<Longrightarrow> invites t = invites s \<Longrightarrow> seq s \<le> seq t \<Longrightarrow>
   invites_unique (close_invite i st t)"
  by (rule invites_unique_update [of s _ "\<lambda>x. gi_id x = i"
        "\<lambda>x. x\<lparr> gi_status := st, gi_responded_at := Some (clock t) \<rparr>"]) (simp_all add: close_invite_def)

lemma accept_unique:
  assumes un: "invites_unique s"
  shows "invites_unique (snd (accept_guardian_link_invite w tk s))"
proof (cases rule: accept_cases [of w tk s])
  case (linked i g)
  have "invites_unique (close_invite (gi_id i) IAccepted (snd (link_guardian g (u_id w) (gi_relationship i) None s)))"
    by (rule close_unique [OF un]) (simp_all only: link_guardian_frame link_guardian_grows(1))
  with linked(9) show ?thesis by (simp add: invites_unique_kept [OF invites_kept_steps(3)])
qed (use un in \<open>simp_all add: close_unique\<close>)

lemma other_unique:
  assumes un: "invites_unique s"
  shows "invites_unique (snd (decline_guardian_link_invite v tk s))"
    "invites_unique (snd (grant_parental_consent g w scope ex s))" "invites_unique (revoke_guardian g w s)"
proof -
  show "invites_unique (snd (decline_guardian_link_invite v tk s))"
    using un by (auto simp: decline_guardian_link_invite_def close_unique split: option.splits)
  show "invites_unique (snd (grant_parental_consent g w scope ex s))"
    by (cases rule: grant_cases [of g w scope ex s])
      (use un granted_seq [of s g w scope] in \<open>auto simp: invites_unique_def intro: less_le_trans\<close>)
  have "invites_unique (unlinked g w s)" using un by (simp add: invites_unique_def)
  moreover have "invites_kept (unlinked g w s) (revoke_guardian g w s)"
    using unobserved_kept [of g w s] by (auto simp: revoke_guardian_eq intro: invites_kept_rules)
  ultimately show "invites_unique (revoke_guardian g w s)" by (rule invites_unique_kept [rotated])
qed

lemma family_exec_unique: "invites_unique s \<Longrightarrow> invites_unique (family_exec q s)"
  by (cases q)
    (auto intro!: with_member_intro [where P = invites_unique] create_unique accept_unique other_unique
      intro: invites_unique_kept [OF sweeps_invites(1)] invites_unique_kept [OF sweeps_invites(2)]
        invites_unique_kept [OF revoke_consent_kept])

interpretation family: service family_exec circle_inv
  by unfold_locales (rule family_circle_inv)

interpretation links: evolving family_exec invites_unique links_evolve
  by unfold_locales
    (auto intro: family_exec_unique links_evolve_refl family_exec_links links_evolve_trans)

end
