(* ===== verification/Accounts_Properties.thy ===== *)
theory Accounts_Properties
  imports Guardianship_Service Messaging_Properties
begin

text \<open>
  The properties of the account lifecycle: re-verification, the sweep over stale proofs,
  invitations and guardian links, parental consent.
\<close>

section \<open>Re-verification\<close>

text \<open>
  C8: re-verification moves an account out of the rooms it no longer belongs to: when a new age proof
  changes its cohort from an assigned one, it is in no conversation and no group any more. Groups
  keep their cohort invariant for every account; messaging keeps its own for an account that never
  held a guardian observer's seat in a conversation, whose old seats ask for an adult.
\<close>

theorem reassurance_isolates:
  assumes "messaging_inv s" and "groups_inv s" and "u \<in> set (users s)" and "apply_assurance u r s = (u', t)"
  shows "u_cohort u' = assign_cohort (ar_age_band r) \<and> groups_inv t \<and>
    (u_cohort u' \<noteq> u_cohort u \<and> u_cohort u \<noteq> Unassigned \<longrightarrow>
       (\<forall>p \<in> set (participants t). pt_user p = u_id u \<longrightarrow> \<not> in_touch p) \<and>
       (\<forall>m \<in> set (group_memberships t). gm_user m = u_id u \<longrightarrow> gm_state m \<noteq> GmMember)) \<and>
    (never_observer s (u_id u) \<longrightarrow> messaging_inv t)"
proof -
  have u': "u' = recorded u r (clock s)" and t: "t = snd (apply_assurance u r s)"
    using assms(4) by (simp_all add: apply_assurance_eq Let_def)
  have c: "u_cohort u' = assign_cohort (ar_age_band r)" by (simp add: u' recorded_cohort)
  have inv: "circle_inv s" using assms(1,2) by blast
  have "\<forall>p \<in> set (participants t). pt_user p = u_id u \<longrightarrow> \<not> in_touch p"
    "\<forall>m \<in> set (group_memberships t). gm_user m = u_id u \<longrightarrow> gm_state m \<noteq> GmMember"
    if "u_cohort u' \<noteq> u_cohort u \<and> u_cohort u \<noteq> Unassigned"
    using that apply_assurance_evicts [of r u _ s] by (auto simp: c t)
  then show ?thesis
    using c apply_assurance_inv [OF inv assms(3), of r] by (simp add: t)
qed

text \<open>The child of the sample family is re-verified as sixteen.\<close>

definition teen_result :: assurance_result where
  "teen_result = \<lparr> ar_provider = ''eudi'', ar_method = ''openid4vp'', ar_age_band = Age16_17,
     ar_verified = True, ar_expires_at = None, ar_raw = [], ar_holder_sub = None \<rparr>"

definition pen_db :: db where
  "pen_db = chat_db\<lparr> groups := [], group_memberships := [] \<rparr>"

lemma pen_inv: "messaging_inv pen_db" "groups_inv pen_db"
proof -
  show "messaging_inv pen_db"
    by (rule messaging_inv_cong [OF _ _ _ _ _ chat_inv]) (simp_all add: pen_db_def conv_keys_def)
  show "groups_inv pen_db" by (simp add: groups_inv_def live_groups_def pen_db_def)
qed

theorem reassurance_isolates_witness:
  "let t = snd (apply_assurance sample_child teen_result pen_db) in
     messaging_inv t \<and> (\<forall>p \<in> set (participants t). pt_user p = 2 \<longrightarrow> \<not> in_touch p) \<and>
     (\<exists>p \<in> set (participants pen_db). pt_user p = 2 \<and> in_touch p)"
proof -
  obtain u' t where a: "apply_assurance sample_child teen_result pen_db = (u', t)" by fastforce
  have r: "u_id sample_child = 2" "u_cohort sample_child = Child" "sample_child \<in> set (users pen_db)"
    by (simp_all add: pen_db_def chat_db_def sample_child_def)
  have "never_observer pen_db 2" by (simp add: never_observer_def pen_db_def chat_db_def)
  with reassurance_isolates [OF pen_inv r(3) a] r have
    "messaging_inv t \<and> (\<forall>p \<in> set (participants t). pt_user p = 2 \<longrightarrow> \<not> in_touch p)"
    by (simp add: teen_result_def)
  moreover have "\<exists>p \<in> set (participants pen_db). pt_user p = 2 \<and> in_touch p"
    by (simp add: pen_db_def chat_db_def in_touch_def)
  ultimately show ?thesis using a by (simp add: Let_def)
qed

section \<open>The sweep\<close>

text \<open>
  What the nightly sweep over stale proofs does, exactly: it counts every verified minor whose
  latest proof has lapsed and was not handled, pauses as many of them as the cap allows and no
  more, and a second pass at the same time nudges nobody and finds exactly the ones left over.
\<close>

theorem reverify_sweep_exact:
  assumes "unique_by u_id (users s)" and "unique_by as_id (assurances s)"
    and "run_reverify_sweep now s = (n, t)"
  shows "sw_lapsed n = due now s (sweep_minors s) \<and>
    sw_paused n = min (st_reverify_batch (conf s)) (sw_lapsed n) \<and>
    sw_nudged (fst (run_reverify_sweep now t)) = 0 \<and>
    sw_lapsed (fst (run_reverify_sweep now t)) = sw_lapsed n - sw_paused n"
proof -
  let ?z = "\<lparr> sw_nudged = 0, sw_paused = 0, sw_lapsed = 0 \<rparr>" and ?cap = "st_reverify_batch (conf s)"
  let ?soon = "now + days (st_reverify_days (conf s))"
  obtain m w where f: "fold (reverify_one now ?soon ?cap) (sweep_minors s) (?z, s) = (m, w)" by fastforce
  have d: "distinct (map u_id (sweep_minors s))"
    using unique_by_filter [OF assms(1)] by (simp add: sweep_minors_def unique_by_def)
  have pu: "proofs_unique s" using assms(2) by (simp add: proofs_unique_def)
  note r = reverify_fold [OF d pu f]
  have n: "n = m" and wt: "users w = users t" "conf w = conf t" "assurances w = assurances t"
    using assms(3) f by (auto simp: run_reverify_sweep_def Let_def)
  have ms: "sweep_minors t = sweep_minors s" and ct: "conf t = conf s" and pt: "proofs_unique t"
    using r wt by (auto simp: sweep_minors_def proofs_unique_def)
  have same: "needs_pause now t i = needs_pause now w i" "needs_nudge now ?soon t i = needs_nudge now ?soon w i" for i
    using needs_cong [OF fun_cong [OF latest_assurance_cong [OF wt(3) [symmetric]]]] by blast+
  obtain m2 w2 where f2: "fold (reverify_one now ?soon ?cap) (sweep_minors s) (?z, t) = (m2, w2)" by fastforce
  note r2 = reverify_fold [OF d pt f2]
  have n2: "fst (run_reverify_sweep now t) = m2"
    using f2 by (simp add: run_reverify_sweep_def Let_def ms ct case_prod_beta)
  have "to_nudge now ?soon t (sweep_minors s) = 0"
    using r same by (auto simp: to_nudge_def count_rows_def filter_empty_conv)
  moreover have "due now t (sweep_minors s) = due now w (sweep_minors s)"
    by (simp add: due_def same)
  ultimately show ?thesis
    unfolding n n2 using r r2 by (auto split: if_splits)
qed

definition lapsed_db :: db where
  "lapsed_db = pen_db\<lparr> assurances := [\<lparr> as_id = 70, as_user = 2, as_provider = ''eudi'',
     as_method = ''openid4vp'', as_age_band = Under16, as_verified_at = 0, as_expires_at = Some 5,
     as_raw = [], as_notice = RvSoon \<rparr>] \<rparr>"

lemma lapsed_minors: "sweep_minors lapsed_db = [sample_child, sample_friend]"
  "needs_pause 10 lapsed_db 2" "\<not> needs_pause 10 lapsed_db 6"
  by (simp_all add: sweep_minors_def needs_pause_def latest_assurance_def lapsed_db_def pen_db_def chat_defs)

lemma lapsed_ids: "u_id sample_child = 2" "u_id sample_friend = 6"
  by (simp_all add: sample_child_def sample_friend_def)

lemma lapsed_keys: "unique_by u_id (users lapsed_db)" "unique_by as_id (assurances lapsed_db)"
  "st_reverify_batch (conf lapsed_db) = 1000" "due 10 lapsed_db (sweep_minors lapsed_db) = 1"
  by (simp_all add: due_def lapsed_minors lapsed_ids)
    (simp_all add: unique_by_def lapsed_db_def pen_db_def chat_defs)

theorem reverify_sweep_exact_witness:
  "sw_paused (fst (run_reverify_sweep 10 lapsed_db)) = 1 \<and>
   sw_lapsed (fst (run_reverify_sweep 10 (snd (run_reverify_sweep 10 lapsed_db)))) = 0"
proof -
  obtain n t where r: "run_reverify_sweep 10 lapsed_db = (n, t)" by fastforce
  from reverify_sweep_exact [OF lapsed_keys(1,2) r] show ?thesis
    by (simp add: r lapsed_keys)
qed

text \<open>
  C9: A lapsed proof has consequences: when the sweep's cap is not exceeded, every verified minor
  whose latest proof has lapsed unhandled is afterwards in no conversation and no group, and has
  been told by a notice that no setting mutes; the cohort invariants hold.
\<close>

theorem reverify_sweep_evicts:
  assumes "unique_by as_id (assurances s)" and "messaging_inv s" and "groups_inv s"
    and "run_reverify_sweep now s = (n, t)" and "sw_lapsed n \<le> st_reverify_batch (conf s)"
    and "u \<in> set (sweep_minors s)" and "needs_pause now s (u_id u)"
  shows "no_place t (u_id u) \<and> told t (u_id u) expired_title \<and> messaging_inv t \<and> groups_inv t"
proof -
  let ?z = "\<lparr> sw_nudged = 0, sw_paused = 0, sw_lapsed = 0 \<rparr>" and ?cap = "st_reverify_batch (conf s)"
  let ?soon = "now + days (st_reverify_days (conf s))"
  obtain m w where f: "fold (reverify_one now ?soon ?cap) (sweep_minors s) (?z, s) = (m, w)" by fastforce
  have "unique_by u_id (users s)" using assms(2) by (simp add: messaging_inv_def seats_inv_def)
  then have d: "distinct (map u_id (sweep_minors s))"
    using unique_by_filter by (auto simp: sweep_minors_def unique_by_def)
  have pu: "proofs_unique s" using assms(1) by (simp add: proofs_unique_def)
  have n: "n = m" and np: "no_place t i = no_place w i" and tld: "told t i = told w i" for i
    using assms(4) f by (auto simp: run_reverify_sweep_def Let_def split: if_splits)
  have room: "sw_paused ?z + due now s (sweep_minors s) \<le> ?cap"
    using reverify_fold [OF d pu f] assms(5) by (simp add: n)
  have "circle_inv t" using reverify_sweep_inv [of s now] assms(2,3,4) by auto
  then show ?thesis
    using reverify_fold_evicts [OF d pu room assms(6,7) f] by (simp add: np tld circle_inv_def)
qed

lemma lapsed_inv: "messaging_inv lapsed_db" "groups_inv lapsed_db"
proof -
  show "messaging_inv lapsed_db"
    by (rule messaging_inv_cong [OF _ _ _ _ _ pen_inv(1)]) (simp_all add: lapsed_db_def conv_keys_def)
  show "groups_inv lapsed_db"
    by (rule groups_inv_cong [OF _ _ _ _ pen_inv(2)]) (simp_all add: lapsed_db_def)
qed

theorem reverify_sweep_evicts_witness:
  "no_place (snd (run_reverify_sweep 10 lapsed_db)) 2 \<and> \<not> no_place lapsed_db 2 \<and>
   told (snd (run_reverify_sweep 10 lapsed_db)) 2 expired_title"
proof -
  obtain n t where r: "run_reverify_sweep 10 lapsed_db = (n, t)" by fastforce
  obtain m w where f: "fold (reverify_one 10 (10 + days (st_reverify_days (conf lapsed_db))) 1000) (sweep_minors lapsed_db)
      (\<lparr> sw_nudged = 0, sw_paused = 0, sw_lapsed = 0 \<rparr>, lapsed_db) = (m, w)" by fastforce
  have "distinct (map u_id (sweep_minors lapsed_db))" by (simp add: lapsed_minors lapsed_ids)
  from reverify_fold [OF this _ f] lapsed_keys(2,4) have "sw_lapsed m = 1" by (simp add: proofs_unique_def)
  then have cap: "sw_lapsed n \<le> st_reverify_batch (conf lapsed_db)"
    using r f by (auto simp: run_reverify_sweep_def Let_def lapsed_keys(3))
  have "sample_child \<in> set (sweep_minors lapsed_db)" by (simp add: lapsed_minors)
  from reverify_sweep_evicts [OF lapsed_keys(2) lapsed_inv r cap this] lapsed_minors(2)
  have "no_place t 2 \<and> told t 2 expired_title" by (simp add: lapsed_ids)
  moreover have "\<not> no_place lapsed_db 2"
    by (simp add: no_place_def lapsed_db_def pen_db_def chat_db_def in_touch_def)
  ultimately show ?thesis by (simp add: r)
qed

end
