(* ===== verification/Guardianship_Properties.thy ===== *)
theory Guardianship_Properties
  imports Accounts_Properties
begin

text \<open>
  The properties of guardian links and parental consent: what a link needs, how an invitation
  evolves, what a grant gives and what a revocation takes away.
\<close>

section \<open>Offers and links\<close>

definition offered :: "db \<Rightarrow> id \<Rightarrow> id \<Rightarrow> bool" where
  "offered s g w \<longleftrightarrow>
     (\<exists>i \<in> set (invites s). gi_guardian i = g \<and> gi_ward i = w \<and> gi_status i = IPending)"

lemma offered_kept: "invites t = invites s \<Longrightarrow> offered t g w = offered s g w"
  by (simp add: offered_def)

lemma offered_close: "offered (close_invite i st s) g w \<Longrightarrow> st \<noteq> IPending \<Longrightarrow> offered s g w"
  by (auto simp: offered_def close_invite_def ex_update_rows split: if_splits)

lemma offered_create: "offered (snd (create_guardian_link_invite g w rel tk s)) h v \<Longrightarrow>
    offered s h v \<or> (h = u_id g \<and> v = u_id w)"
  by (auto simp: create_guardian_link_invite_def Let_def offered_def ex_update_rows split: if_splits)

lemma offered_accept: "offered (snd (accept_guardian_link_invite w tk s)) h v \<Longrightarrow> offered s h v"
proof (cases rule: accept_cases [of w tk s])
  case (linked i g)
  assume "offered (snd (accept_guardian_link_invite w tk s)) h v"
  with linked(9) have "offered (close_invite (gi_id i) IAccepted
      (snd (link_guardian g (u_id w) (gi_relationship i) None s))) h v"
    by (simp add: offered_def)
  then have "offered (snd (link_guardian g (u_id w) (gi_relationship i) None s)) h v"
    by (rule offered_close) simp
  then show ?thesis by (simp add: offered_def)
qed (auto dest: offered_close)

lemma offered_decline: "offered (snd (decline_guardian_link_invite w tk s)) h v \<Longrightarrow> offered s h v"
  by (auto simp: decline_guardian_link_invite_def split: option.splits dest: offered_close)

lemma invites_other [simp]:
  "invites (snd (grant_parental_consent g w scope ex s)) = invites s"
  "invites (snd (revoke_parental_consent i j s)) = invites s"
  "invites (revoke_guardian g w s) = invites s"
  "invites (snd (run_reverify_sweep now s)) = invites s"
  "invites (snd (run_consent_renewal_sweep now s)) = invites s"
proof -
  show "invites (snd (grant_parental_consent g w scope ex s)) = invites s"
    by (cases rule: grant_cases [of g w scope ex s]) simp_all
  show "invites (revoke_guardian g w s) = invites s"
    using unobserved_kept [of g w s] by (simp add: revoke_guardian_eq invites_kept_def)
qed (use sweeps_invites revoke_consent_kept in \<open>simp_all add: invites_kept_def\<close>)

lemma step_offered: "offered (family_exec q s) g w \<Longrightarrow> offered s g w \<or> (\<exists>rel tk. q = Invite g w rel tk)"
proof (cases q)
  case (Invite a b rel tk)
  assume "offered (family_exec q s) g w"
  with Invite show ?thesis
    by (auto simp: with_member_def split: option.splits dest!: offered_create user_row_SomeD)
qed (auto simp: with_member_def offered_def [of "snd (grant_parental_consent _ _ _ _ _)"]
    offered_def [of "snd (revoke_parental_consent _ _ _)"] offered_def [of "revoke_guardian _ _ _"]
    offered_def [of "snd (run_reverify_sweep _ _)"] offered_def [of "snd (run_consent_renewal_sweep _ _)"]
    offered_def [of s] split: option.splits dest: offered_accept offered_decline)

lemma links_other:
  "is_guardian_of (snd (create_guardian_link_invite g w rel tk s)) = is_guardian_of s"
  "is_guardian_of (snd (decline_guardian_link_invite i tk s)) = is_guardian_of s"
  "is_guardian_of (snd (revoke_parental_consent i j s)) = is_guardian_of s"
  "is_guardian_of (snd (run_reverify_sweep now s)) = is_guardian_of s"
  "is_guardian_of (snd (run_consent_renewal_sweep now s)) = is_guardian_of s"
  using sweeps_invites [of s now] revoke_consent_kept [of s i j]
  by (simp_all add: is_guardian_of_def fun_eq_iff invites_kept_def create_guardian_link_invite_def
      decline_guardian_link_invite_def Let_def split: option.splits)

lemma links_grant: "is_guardian_of (snd (grant_parental_consent g w scope ex s)) = is_guardian_of s"
  by (cases rule: grant_cases [of g w scope ex s])
    (simp_all add: fun_eq_iff consent_linked_guardian, simp add: is_guardian_of_def)

lemma links_revoke: "is_guardian_of (revoke_guardian g w s) h v \<longleftrightarrow>
    is_guardian_of s h v \<and> \<not> (h = u_id g \<and> v = u_id w)"
proof -
  have "invites_kept (unlinked g w s) (revoke_guardian g w s)"
    using unobserved_kept [of g w s] by (auto simp: revoke_guardian_eq intro: invites_kept_rules)
  then have "is_guardian_of (revoke_guardian g w s) h v = is_guardian_of (unlinked g w s) h v"
    by (simp add: invites_kept_def is_guardian_of_def)
  then show ?thesis by (simp add: unlinked_guardian)
qed

lemma links_accept:
  assumes "is_guardian_of (snd (accept_guardian_link_invite w tk s)) h v"
  shows "is_guardian_of s h v \<or> (v = u_id w \<and> offered s h v)"
proof (cases rule: accept_cases [of w tk s])
  case (linked i g)
  have "is_guardian_of (snd (link_guardian g (u_id w) (gi_relationship i) None s)) h v"
    using assms linked(9) by (simp add: is_guardian_of_def)
  moreover have "offered s (u_id g) (u_id w)"
    using pending_inviteD [OF linked(2)] linked(3) user_row_SomeD [OF linked(5)]
    by (auto simp: offered_def)
  ultimately show ?thesis using link_guardian_grows(2) by blast
qed (use assms in \<open>simp_all add: is_guardian_of_def\<close>)

lemma step_link:
  assumes "is_guardian_of (family_exec q s) g w"
  shows "is_guardian_of s g w \<or> (\<exists>tk. q = Accept w tk) \<and> offered s g w"
  using assms
  by (cases q)
    (auto simp: with_member_def links_other links_grant links_revoke split: option.splits
      dest!: links_accept user_row_SomeD)

lemma run_link:
  assumes "is_guardian_of (run_requests family_exec qs s) g w"
  shows "is_guardian_of s g w \<or> (\<exists>tk. Accept w tk \<in> set qs) \<and>
    (offered s g w \<or> (\<exists>rel tk. Invite g w rel tk \<in> set qs))"
  using assms
proof (induction qs arbitrary: s)
  case (Cons q qs)
  then have "is_guardian_of (family_exec q s) g w \<or> (\<exists>tk. Accept w tk \<in> set qs) \<and>
      (offered (family_exec q s) g w \<or> (\<exists>rel tk. Invite g w rel tk \<in> set qs))"
    by simp
  then show ?case using step_link [of q s g w] step_offered [of q s g w] by auto
qed simp

text \<open>
  C10: Nobody becomes a guardian alone: along every run of the family services, a link that is
  active at the end and was not at the beginning took both sides - the ward accepted an invitation,
  and the guardian had one open for that ward or sent one.
\<close>

theorem no_link_without_consent:
  assumes "is_guardian_of (run_requests family_exec qs s) g w" and "\<not> is_guardian_of s g w"
  shows "(\<exists>tk. Accept w tk \<in> set qs) \<and> (offered s g w \<or> (\<exists>rel tk. Invite g w rel tk \<in> set qs))"
  using run_link [OF assms(1)] assms(2) by blast

text \<open>An adult with an open invitation for the friend of the sample family's child.\<close>

definition invite_db :: db where
  "invite_db = pen_db\<lparr> invites := [\<lparr> gi_id = 45, gi_guardian = 1, gi_ward = 6, gi_relationship = ''aunt'',
       gi_token = ''tok'', gi_status = IPending, gi_expires_at = 100, gi_responded_at = None \<rparr>] \<rparr>"

lemma invite_rows: "user_row invite_db 6 = Some sample_friend" "user_row invite_db 1 = Some sample_parent"
  "u_id sample_friend = 6" "u_id sample_parent = 1" "u_cohort sample_parent = Adult" "clock invite_db = 0"
  "minor_onboarding_enabled invite_db" "\<not> is_guardian_of invite_db 1 6" "can_participate invite_db sample_parent"
  "pending_invite invite_db ''tok'' = Some (hd (invites invite_db))" "gi_id (hd (invites invite_db)) = 45"
  "gi_ward (hd (invites invite_db)) = 6" "gi_guardian (hd (invites invite_db)) = 1"
  "gi_expires_at (hd (invites invite_db)) = 100"
  by (simp_all add: user_row_def minor_onboarding_enabled_def is_guardian_of_def can_participate_iff
      is_assurance_current_iff latest_assurance_def requires_parental_consent_def pending_invite_def
      invite_db_def pen_db_def chat_defs)

lemma invite_accepted:
  "\<exists>t. accept_guardian_link_invite sample_friend ''tok'' invite_db = returned () t \<and> is_guardian_of t 1 6"
proof (cases rule: accept_cases [of sample_friend "''tok''" invite_db])
  case (linked i g)
  let ?l = "snd (link_guardian g (u_id sample_friend) (gi_relationship i) None invite_db)"
  have "is_guardian_of ?l (u_id g) (u_id sample_friend)" using link_guardian_grows(3) linked(8) by blast
  moreover have "u_id g = 1" "u_id sample_friend = 6"
    using linked(2) user_row_SomeD [OF linked(5)] by (auto simp: invite_rows)
  ultimately show ?thesis using linked(9) by (simp add: is_guardian_of_def)
qed (auto simp: accept_guardian_link_invite_def invite_rows link_guardian_def Let_def split: if_splits simp del: One_nat_def)

theorem no_link_without_consent_witness:
  "offered invite_db 1 6 \<and> is_guardian_of (run_requests family_exec [Accept 6 ''tok''] invite_db) 1 6"
proof -
  obtain t where t: "accept_guardian_link_invite sample_friend ''tok'' invite_db = returned () t"
      "is_guardian_of t 1 6" using invite_accepted by blast
  then have g: "is_guardian_of (run_requests family_exec [Accept 6 ''tok''] invite_db) 1 6"
    by (simp add: with_member_def invite_rows)
  from no_link_without_consent [OF g invite_rows(8)] have "offered invite_db 1 6" by auto
  with g show ?thesis by simp
qed

text \<open>
  C11: An invitation runs through its life cycle and no other: along every run of the family
  services an invitation evolves by the steps refresh and close only, its parties never change,
  and one that was accepted, declined or expired stays exactly as it is.
\<close>

theorem invite_lifecycle:
  assumes "invites_unique s" and "i \<in> set (invites s)"
  shows "\<exists>j \<in> set (invites (run_requests family_exec qs s)). invite_step\<^sup>*\<^sup>* i j \<and>
    gi_guardian j = gi_guardian i \<and> gi_ward j = gi_ward i \<and> (gi_status i \<noteq> IPending \<longrightarrow> j = i)"
proof -
  have "invites_evolve s (run_requests family_exec qs s)"
    using links.run_rel [OF assms(1), of qs] by (simp add: links_evolve_def)
  with assms(2) show ?thesis unfolding invites_evolve_def using invite_steps_keys by blast
qed

theorem invite_lifecycle_witness:
  "\<exists>j \<in> set (invites (run_requests family_exec [Decline 6 ''tok'', Accept 6 ''tok''] invite_db)).
     invite_step\<^sup>*\<^sup>* (hd (invites invite_db)) j \<and> gi_guardian j = 1"
proof -
  have "invites_unique invite_db" "hd (invites invite_db) \<in> set (invites invite_db)"
    by (simp_all add: invites_unique_def unique_by_def invite_db_def pen_db_def chat_defs)
  from invite_lifecycle [OF this] show ?thesis using invite_rows(13) by fastforce
qed

section \<open>Taking away\<close>

text \<open>
  Ending a guardian link is complete: the link and every active consent that guardian gave for
  the ward are gone, the messaging and group invariants hold - in particular the former guardian
  observes no conversation on this ward's account any more - and a ward who may no longer take
  part is in no conversation and no group.
\<close>

theorem revoke_guardian_complete:
  assumes "messaging_inv s" and "groups_inv s" and "t = revoke_guardian g w s"
  shows "\<not> is_guardian_of t (u_id g) (u_id w) \<and>
    (\<forall>c \<in> set (consents t). pc_minor c = u_id w \<and> pc_guardian c = u_public_id g \<longrightarrow> pc_status c \<noteq> CActive) \<and>
    messaging_inv t \<and> groups_inv t \<and> (\<not> can_participate t w \<longrightarrow> no_place t (u_id w))"
proof -
  let ?o = "unobserved g w s"
  have c: "consents t = consents (unlinked g w s)" and np: "\<not> can_participate t w \<Longrightarrow> no_place t (u_id w)"
    using can_participate_cong [of "snd (remove_user_from_groups (u_id w) ''guardian_revoked''
        (snd (remove_user_from_conversations (u_id w) ''guardian_revoked'' ?o)))" ?o w]
    by (auto simp: assms(3) revoke_guardian_eq unobserved_def remove_leaves_no_place)
  have "circle_inv t" unfolding assms(3) using assms(1,2) by (intro revoke_guardian_inv) auto
  moreover have "\<forall>c \<in> set (consents t). pc_minor c = u_id w \<and> pc_guardian c = u_public_id g \<longrightarrow> pc_status c \<noteq> CActive"
    by (auto simp: c unlinked_def set_consents_def set_update_rows)
  ultimately show ?thesis
    using np by (simp add: circle_inv_def assms(3) links_revoke)
qed

theorem revoke_guardian_complete_witness:
  "let t = revoke_guardian sample_parent sample_child pen_db in
     is_guardian_of pen_db 1 2 \<and> \<not> is_guardian_of t 1 2 \<and> messaging_inv t \<and>
     no_place t 2"
proof -
  let ?t = "revoke_guardian sample_parent sample_child pen_db"
  have ids: "u_id sample_parent = 1" "u_id sample_child = 2"
    by (simp_all add: sample_parent_def sample_child_def)
  have c: "consents ?t = consents (unlinked sample_parent sample_child pen_db)"
    by (simp add: revoke_guardian_eq unobserved_def)
  have "\<not> can_participate ?t sample_child"
    by (simp add: can_participate_iff has_valid_parental_consent_def c requires_parental_consent_def)
      (simp add: unlinked_def set_consents_def consent_is_valid_def pen_db_def chat_defs)
  with revoke_guardian_complete [OF pen_inv refl, of sample_parent sample_child]
  show ?thesis by (simp add: ids Let_def) (simp add: is_guardian_of_def pen_db_def chat_defs)
qed

text \<open>
  Withdrawing consent takes effect at once: after a guardian withdraws it, the child has no
  valid consent from anybody, is in no conversation and no group, and the number of consents
  withdrawn is the result; a call by anyone else is refused and changes nothing.
\<close>

theorem revoke_consent_exact:
  "case revoke_parental_consent g w s of
     (Inl e, t) \<Rightarrow> t = s \<and> \<not> is_guardian_of s g w
   | (Inr n, t) \<Rightarrow> is_guardian_of s g w \<and> no_place t w \<and>
       n = length (filter (\<lambda>c. pc_minor c = w \<and> pc_status c = CActive) (consents s)) \<and>
       (\<forall>u. u_id u = w \<longrightarrow> \<not> has_valid_parental_consent t u)"
  by (auto simp: revoke_parental_consent_def Let_def remove_leaves_no_place count_rows_def
      has_valid_parental_consent_def set_consents_def set_update_rows consent_is_valid_def split: if_splits)

theorem revoke_consent_exact_witness:
  "let t = snd (revoke_parental_consent 1 2 pen_db) in
     has_valid_parental_consent pen_db sample_child \<and> \<not> has_valid_parental_consent t sample_child \<and>
     no_place t 2"
proof -
  obtain r t where r: "revoke_parental_consent 1 2 pen_db = (r, t)" by fastforce
  have "is_guardian_of pen_db 1 2" by (simp add: is_guardian_of_def pen_db_def chat_defs)
  then obtain n where "r = Inr n" using r by (auto simp: revoke_parental_consent_def Let_def)
  moreover have "u_id sample_child = 2" by (simp add: sample_child_def)
  ultimately have "no_place t 2 \<and> \<not> has_valid_parental_consent t sample_child"
    using revoke_consent_exact [of pen_db 1 2] r by (auto simp del: One_nat_def)
  moreover have "has_valid_parental_consent pen_db sample_child"
    by (simp add: has_valid_parental_consent_def consent_is_valid_def pen_db_def chat_defs)
  ultimately show ?thesis by (simp add: r del: One_nat_def)
qed

text \<open>
  What a grant of consent does: it is refused, without effect, unless onboarding of minors is
  on, the child needs consent and the caller is an eligible adult with an active link; when it
  succeeds the child, given a current age proof and an end that lies in the future, may take part
  from then on.
\<close>

theorem grant_consent_exact:
  assumes "is_assurance_current s w" and "\<forall>e. ex = Some e \<longrightarrow> clock s < e"
    and "ex = None \<longrightarrow> 0 < st_consent_validity (conf s)"
  shows "case grant_parental_consent g w scope ex s of
     (Inl e, t) \<Rightarrow> t = s \<and> \<not> grant_allowed g w s
   | (Inr _, t) \<Rightarrow> grant_allowed g w s \<and> can_participate t w \<and> is_guardian_of t = is_guardian_of s"
proof (cases rule: grant_cases [of g w scope ex s])
  case (granted until)
  let ?t = "snd (granted g w scope until s)"
  have later: "clock s < until" using granted(2) assms(2,3) by (auto simp: days_def seconds_def split: option.splits)
  have "\<exists>c \<in> set (consents ?t). pc_minor c = u_id w \<and> pc_status c = CActive \<and> pc_expires_at c = Some until"
  proof (cases "List.find (\<lambda>c. pc_minor c = u_id w \<and> pc_guardian c = u_public_id g) (consents s)")
    case None
    then show ?thesis by (simp add: granted_def)
  next
    case (Some c)
    from find_SomeD [OF Some] Some show ?thesis
      by (auto simp: granted_def set_consents_def ex_update_rows intro!: bexI [of _ c])
  qed
  then have "has_valid_parental_consent (consent_linked g w i ?t) w" for i
    using later by (auto simp: has_valid_parental_consent_def consent_is_valid_def intro!: bexI)
  moreover have "is_assurance_current (consent_linked g w i ?t) w" for i
    using assms(1) by (simp add: is_assurance_current_iff latest_assurance_def)
  ultimately have "can_participate (consent_linked g w i ?t) w" for i
    by (simp add: can_participate_iff)
  with granted(1,3) show ?thesis
    using links_grant [of g w scope ex s] by simp
qed simp

theorem grant_consent_exact_witness:
  "let s = pen_db\<lparr> consents := [] \<rparr> in \<not> can_participate s sample_child \<and>
     can_participate (snd (grant_parental_consent sample_parent sample_child ''all'' None s)) sample_child"
proof -
  let ?s = "pen_db\<lparr> consents := [] \<rparr>"
  have cur: "is_assurance_current ?s sample_child" "is_assurance_current ?s sample_parent"
    by (simp_all add: is_assurance_current_iff latest_assurance_def pen_db_def chat_defs)
  have "grant_allowed sample_parent sample_child ?s"
    using cur by (simp add: grant_allowed_def can_participate_iff)
      (simp add: minor_onboarding_enabled_def requires_parental_consent_def is_guardian_of_def pen_db_def chat_defs)
  moreover have "0 < st_consent_validity (conf ?s)" by (simp add: pen_db_def chat_defs)
  ultimately have "can_participate (snd (grant_parental_consent sample_parent sample_child ''all'' None ?s)) sample_child"
    using grant_consent_exact [OF cur(1), of None sample_parent "''all''"]
    by (auto split: prod.splits sum.splits)
  moreover have "\<not> can_participate ?s sample_child"
    by (simp add: can_participate_iff has_valid_parental_consent_def requires_parental_consent_def sample_child_def)
  ultimately show ?thesis by (simp add: Let_def)
qed

end
