(* ===== verification/Moderation.thy ===== *)
theory Moderation
  imports Identity
begin

text \<open>
  Moderation (apps/safety/services.py): triage of the report queue, the actions against an account
  or a piece of content, the nightly lifting of elapsed restrictions, the statement of reasons,
  appeals and their reversal, referrals to an authority. A target is the pair of its model's label
  and its id, as in the audit log; the labels that have an owner, an \<open>is_active\<close> or an
  \<open>is_hidden\<close> field are the ones below, any other target has none of them.
\<close>

section \<open>Targets\<close>

type_synonym target = "string \<times> id"

definition user_target :: "id \<Rightarrow> target" where
  "user_target i = (''accounts.user'', i)"

definition post_target :: "id \<Rightarrow> target" where
  "post_target i = (''social.post'', i)"

definition activity_target :: "id \<Rightarrow> target" where
  "activity_target i = (''social.activity'', i)"

lemmas target_defs = user_target_def post_target_def activity_target_def

definition activity_row :: "db \<Rightarrow> id \<Rightarrow> activity option" where
  "activity_row s i = List.find (\<lambda>a. ac_id a = i) (activities s)"

definition group_row :: "db \<Rightarrow> id \<Rightarrow> group option" where
  "group_row s i = List.find (\<lambda>g. gp_id g = i) (groups s)"

definition post_row :: "db \<Rightarrow> id \<Rightarrow> post option" where
  "post_row s i = List.find (\<lambda>p. po_id p = i) (posts s)"

definition target_exists :: "db \<Rightarrow> target \<Rightarrow> bool" where
  "target_exists s t =
     (if fst t = ''accounts.user'' then user_row s (snd t) \<noteq> None
      else if fst t = ''social.activity'' then activity_row s (snd t) \<noteq> None
      else if fst t = ''social.group'' then group_row s (snd t) \<noteq> None
      else if fst t = ''social.post'' then post_row s (snd t) \<noteq> None
      else True)"

text \<open>The foreign key read first among owner, author, sender and user.\<close>

definition affected_id :: "db \<Rightarrow> target \<Rightarrow> id option" where
  "affected_id s t =
     (if fst t = ''accounts.user'' then Some (snd t)
      else if fst t = ''social.activity'' then map_option ac_owner (activity_row s (snd t))
      else if fst t = ''social.group'' then map_option gp_owner (group_row s (snd t))
      else if fst t = ''social.post'' then map_option po_author (post_row s (snd t))
      else if fst t = ''messaging.message''
      then Option.bind (List.find (\<lambda>m. ms_id m = snd t) (messages s)) ms_sender
      else if fst t = ''social.membership''
      then map_option mb_user (List.find (\<lambda>m. mb_id m = snd t) (memberships s))
      else None)"

definition affected_user :: "db \<Rightarrow> target \<Rightarrow> user option" where
  "affected_user s t = Option.bind (affected_id s t) (user_row s)"

section \<open>Triage\<close>

fun triage_severity :: "reason_code \<Rightarrow> nat" where
  "triage_severity Csam = 5"
| "triage_severity Grooming = 5"
| "triage_severity OffPlatform = 3"
| "triage_severity Harassment = 2"
| "triage_severity Spam = 1"
| "triage_severity OtherReason = 0"

definition report_target :: "report \<Rightarrow> target" where
  "report_target r = (rp_target_type r, rp_target_id r)"

definition open_duplicates :: "db \<Rightarrow> report \<Rightarrow> nat" where
  "open_duplicates s r =
     count_rows (\<lambda>x. rp_status x = ROpen \<and> report_target x = report_target r) (reports s)"

record triage =
  tr_severity :: nat
  tr_child :: bool
  tr_duplicates :: nat
  tr_hint :: bool
  tr_terms :: "string list"

text \<open>\<open>terms\<close> is \<open>contact_hint_terms\<close>, the advisory keyword scan of a post's body.\<close>

definition triage_summary :: "(string \<Rightarrow> string list) \<Rightarrow> db \<Rightarrow> report \<Rightarrow> triage" where
  "triage_summary terms s r =
     (let affected = (if target_exists s (report_target r) then affected_user s (report_target r) else None);
          found = (if rp_target_type r = ''social.post''
                   then (case post_row s (rp_target_id r) of None \<Rightarrow> [] | Some p \<Rightarrow> terms (po_body p))
                   else [])
      in \<lparr> tr_severity = triage_severity (rp_reason r),
           tr_child = (case affected of None \<Rightarrow> False | Some u \<Rightarrow> u_cohort u = Child),
           tr_duplicates = open_duplicates s r, tr_hint = (found \<noteq> []), tr_terms = found \<rparr>)"

definition triage_rank :: "triage \<Rightarrow> nat \<times> nat \<times> nat \<times> nat" where
  "triage_rank t = (tr_severity t, of_bool (tr_child t), tr_duplicates t, of_bool (tr_hint t))"

text \<open>\<open>sort(key, reverse=True)\<close> is stable: rows with the same key stay in their order.\<close>

definition sort_down :: "('r \<Rightarrow> 'k::linorder) \<Rightarrow> 'r list \<Rightarrow> 'r list" where
  "sort_down k rs = rev (sort_key k (rev rs))"

definition triage_order :: "(string \<Rightarrow> string list) \<Rightarrow> db \<Rightarrow> report list \<Rightarrow> (report \<times> triage) list" where
  "triage_order terms s rs =
     sort_down (\<lambda>(r, t). (triage_rank t, rp_created_at r)) (map (\<lambda>r. (r, triage_summary terms s r)) rs)"

section \<open>Labels\<close>

fun mod_value :: "mod_kind \<Rightarrow> string" where
  "mod_value MoWarn = ''warn''"
| "mod_value MoRemove = ''remove''"
| "mod_value MoSuspend = ''suspend''"
| "mod_value MoTimedBan = ''timed_ban''"
| "mod_value MoBan = ''ban''"

fun mod_label :: "mod_kind \<Rightarrow> string" where
  "mod_label MoWarn = ''Warn''"
| "mod_label MoRemove = ''Remove content''"
| "mod_label MoSuspend = ''Suspend account''"
| "mod_label MoTimedBan = ''Timed ban''"
| "mod_label MoBan = ''Ban account''"

fun reason_label :: "reason_code \<Rightarrow> string" where
  "reason_label Grooming = ''Grooming / predatory contact''"
| "reason_label Harassment = ''Harassment / bullying''"
| "reason_label Csam = ''Child sexual abuse material''"
| "reason_label Spam = ''Spam''"
| "reason_label OffPlatform = ''Unsafe off-platform / meetup risk''"
| "reason_label OtherReason = ''Other''"

fun appeal_label :: "appeal_status \<Rightarrow> string" where
  "appeal_label ApPending = ''Pending review''"
| "appeal_label ApUpheld = ''Upheld (decision stands)''"
| "appeal_label ApOverturned = ''Overturned (decision reversed)''"

section \<open>Taking action\<close>

definition timed_restriction :: "mod_kind \<Rightarrow> bool" where
  "timed_restriction k \<longleftrightarrow> k \<in> {MoSuspend, MoTimedBan}"

definition account_sanction :: "mod_kind \<Rightarrow> bool" where
  "account_sanction k \<longleftrightarrow> k \<in> {MoSuspend, MoTimedBan, MoBan}"

definition set_active :: "id \<Rightarrow> bool \<Rightarrow> db \<Rightarrow> db" where
  "set_active i b s = s\<lparr> users := update_rows (\<lambda>u. u_id u = i) (\<lambda>u. u\<lparr> u_active := b \<rparr>) (users s) \<rparr>"

definition hideable :: "string \<Rightarrow> bool" where
  "hideable ty \<longleftrightarrow> ty \<in> {''social.activity'', ''social.group'', ''social.post''}"

definition set_hidden :: "target \<Rightarrow> bool \<Rightarrow> db \<Rightarrow> db" where
  "set_hidden t b s =
     (if fst t = ''social.activity''
      then s\<lparr> activities := update_rows (\<lambda>a. ac_id a = snd t) (\<lambda>a. a\<lparr> ac_hidden := b \<rparr>) (activities s) \<rparr>
      else if fst t = ''social.group''
      then s\<lparr> groups := update_rows (\<lambda>g. gp_id g = snd t) (\<lambda>g. g\<lparr> gp_hidden := b \<rparr>) (groups s) \<rparr>
      else if fst t = ''social.post''
      then s\<lparr> posts := update_rows (\<lambda>p. po_id p = snd t) (\<lambda>p. p\<lparr> po_hidden := b \<rparr>) (posts s) \<rparr>
      else s)"

definition target_hidden :: "db \<Rightarrow> target \<Rightarrow> bool" where
  "target_hidden s t =
     (if fst t = ''social.activity'' then (case activity_row s (snd t) of None \<Rightarrow> False | Some a \<Rightarrow> ac_hidden a)
      else if fst t = ''social.group'' then (case group_row s (snd t) of None \<Rightarrow> False | Some g \<Rightarrow> gp_hidden g)
      else if fst t = ''social.post'' then (case post_row s (snd t) of None \<Rightarrow> False | Some p \<Rightarrow> po_hidden p)
      else False)"

definition author_deleted :: "db \<Rightarrow> target \<Rightarrow> bool" where
  "author_deleted s t \<longleftrightarrow> fst t = ''social.post'' \<and>
     (case post_row s (snd t) of None \<Rightarrow> False | Some p \<Rightarrow> po_author_deleted p)"

definition notify_affected :: "target \<Rightarrow> string \<Rightarrow> string \<Rightarrow> db \<Rightarrow> db" where
  "notify_affected t title body s =
     (case affected_user s t of None \<Rightarrow> s | Some u \<Rightarrow> snd (notify (u_id u) Moderation title body [] s))"

definition notify_statement_of_reasons :: "target \<Rightarrow> mod_kind \<Rightarrow> reason_code \<Rightarrow> db \<Rightarrow> db" where
  "notify_statement_of_reasons t k reason =
     notify_affected t ''A moderation decision affected your content/account''
       (''Action taken: '' @ mod_label k @ ''. Reason: '' @ reason_label reason @ ''. '' @
        ''If you believe this decision is wrong, you may contest it.'')"

definition suspension_lifted_title :: string where
  "suspension_lifted_title = ''Your suspension has ended''"

definition notify_suspension_lifted :: "target \<Rightarrow> db \<Rightarrow> db" where
  "notify_suspension_lifted t = notify_affected t suspension_lifted_title
     (''Your account is active again and you can take part in activities. '' @ ''Thanks for your patience.'')"

definition close_report :: "id \<Rightarrow> id \<Rightarrow> report_status \<Rightarrow> db \<Rightarrow> db" where
  "close_report rid moderator st s = s\<lparr> reports := update_rows (\<lambda>r. rp_id r = rid)
     (\<lambda>r. r\<lparr> rp_status := st, rp_handled_by := Some moderator, rp_handled_at := Some (clock s) \<rparr>) (reports s) \<rparr>"

definition reporter_of :: "db \<Rightarrow> report \<Rightarrow> user option" where
  "reporter_of s r = Option.bind (rp_reporter r) (user_row s)"

definition option_list :: "'a option \<Rightarrow> 'a list" where
  "option_list x = (case x of None \<Rightarrow> [] | Some y \<Rightarrow> [y])"

definition enforce :: "target \<Rightarrow> mod_kind \<Rightarrow> db \<Rightarrow> db" where
  "enforce t k s =
     (if account_sanction k
      then (if fst t = ''accounts.user''
            then (let s1 = set_active (snd t) False s
                  in if k = MoBan then snd (ban_identity (snd t) s1) else s1)
            else s)
      else if k = MoRemove then set_hidden t True s
      else s)"

definition take_action ::
  "id \<Rightarrow> target \<Rightarrow> mod_kind \<Rightarrow> reason_code \<Rightarrow> string \<Rightarrow> report option \<Rightarrow> time option \<Rightarrow> db \<Rightarrow> mod_action \<times> db" where
  "take_action moderator t k reason notes report expires s =
     (let a = \<lparr> mo_id = seq s, mo_moderator = Some moderator, mo_target_type = fst t,
                mo_target_id = snd t, mo_action = k, mo_reason = reason, mo_notes = notes,
                mo_report = map_option rp_id report, mo_expires_at = expires, mo_lifted_at = None,
                mo_created_at = clock s \<rparr>;
          s1 = enforce t k (s\<lparr> mod_actions := mod_actions s @ [a], seq := Suc (seq s) \<rparr>);
          s2 = (case report of None \<Rightarrow> s1 | Some r \<Rightarrow> close_report (rp_id r) moderator RActioned s1);
          s3 = record_audit ''moderation.action'' (Some moderator) (Some t)
                 [(''action'', JStr (mod_value k)), (''reason'', JStr (reason_value reason))] s2;
          s4 = notify_statement_of_reasons t k reason s3;
          s5 = (case report of None \<Rightarrow> s4 | Some r \<Rightarrow>
                  notify_reporter (rp_reporter r) ''Your report was reviewed''
                    ''Thanks for your report. Our moderation team reviewed it and took action.'' s4)
      in (a, snd (alert_guardians_of_moderation
            (option_list (affected_user s5 t) @
             (case report of None \<Rightarrow> [] | Some r \<Rightarrow> option_list (reporter_of s5 r))) s5)))"

definition dismiss_report :: "id \<Rightarrow> report \<Rightarrow> string \<Rightarrow> db \<Rightarrow> db" where
  "dismiss_report moderator r resolution s =
     (let s1 = s\<lparr> reports := update_rows (\<lambda>x. rp_id x = rp_id r)
                 (\<lambda>x. x\<lparr> rp_status := RDismissed, rp_handled_by := Some moderator,
                        rp_handled_at := Some (clock s), rp_resolution := resolution \<rparr>) (reports s) \<rparr>;
          s2 = record_audit ''report.dismissed'' (Some moderator) (Some (''safety.report'', rp_id r)) [] s1;
          s3 = notify_reporter (rp_reporter r) ''Your report was reviewed''
                 (''Thanks for your report. Our moderation team reviewed it and found no action was '' @
                  ''needed.'') s2
      in snd (alert_guardians_of_moderation (option_list (reporter_of s3 r)) s3))"

section \<open>Lifting elapsed restrictions\<close>

definition mo_target :: "mod_action \<Rightarrow> target" where
  "mo_target a = (mo_target_type a, mo_target_id a)"

definition set_lifted :: "id \<Rightarrow> db \<Rightarrow> db" where
  "set_lifted aid s = s\<lparr> mod_actions := update_rows (\<lambda>a. mo_id a = aid)
     (\<lambda>a. a\<lparr> mo_lifted_at := Some (clock s) \<rparr>) (mod_actions s) \<rparr>"

definition standing :: "db \<Rightarrow> target \<Rightarrow> mod_action list" where
  "standing s t = filter (\<lambda>a. mo_target a = t \<and> mo_lifted_at a = None) (mod_actions s)"

definition after :: "time option \<Rightarrow> time \<Rightarrow> bool" where
  "after e now \<longleftrightarrow> (case e of None \<Rightarrow> False | Some x \<Rightarrow> now < x)"

definition elapsed :: "time \<Rightarrow> mod_action \<Rightarrow> bool" where
  "elapsed now a \<longleftrightarrow> timed_restriction (mo_action a) \<and> mo_lifted_at a = None \<and>
     (case mo_expires_at a of None \<Rightarrow> False | Some x \<Rightarrow> x \<le> now)"

definition lift_one :: "time \<Rightarrow> id \<Rightarrow> nat \<times> db \<Rightarrow> nat \<times> db" where
  "lift_one now aid st =
     (case st of (n, s) \<Rightarrow>
       case List.find (\<lambda>a. mo_id a = aid \<and> mo_lifted_at a = None) (mod_actions s) of
         None \<Rightarrow> (n, s)
       | Some a \<Rightarrow>
           (case (if mo_target_type a = ''accounts.user'' then user_row s (mo_target_id a) else None) of
              None \<Rightarrow> (n, set_lifted aid s)
            | Some u \<Rightarrow>
                let scope = standing s (mo_target a);
                    banned = (\<exists>x \<in> set scope. mo_action x = MoBan);
                    suspended = (\<exists>x \<in> set scope. timed_restriction (mo_action x) \<and> after (mo_expires_at x) now)
                in if \<not> banned \<and> \<not> suspended \<and> \<not> u_active u
                   then (Suc n, notify_suspension_lifted (mo_target a) (set_lifted aid
                           (record_audit ''moderation.suspension_lifted'' None (Some (mo_target a)) []
                              (set_active (u_id u) True s))))
                   else (n, set_lifted aid s)))"

definition lift_expired_suspensions :: "db \<Rightarrow> nat \<times> db" where
  "lift_expired_suspensions s =
     fold (lift_one (clock s)) (map mo_id (filter (elapsed (clock s)) (mod_actions s))) (0, s)"

section \<open>The statement of reasons\<close>

definition in_force :: "time \<Rightarrow> mod_action \<Rightarrow> bool" where
  "in_force now a \<longleftrightarrow> account_sanction (mo_action a) \<and> mo_lifted_at a = None \<and>
     (mo_action a = MoBan \<or> mo_expires_at a = None \<or> after (mo_expires_at a) now)"

definition account_restriction_for :: "db \<Rightarrow> id \<Rightarrow> mod_action option" where
  "account_restriction_for s uid =
     latest_row mo_created_at (filter (\<lambda>a. mo_target a = user_target uid \<and> in_force (clock s) a) (mod_actions s))"

definition appeal_of :: "db \<Rightarrow> id \<Rightarrow> appeal option" where
  "appeal_of s aid = List.find (\<lambda>p. ap_action p = aid) (appeals s)"

record statement =
  sm_action_id :: id
  sm_action :: string
  sm_reason :: string
  sm_created_at :: time
  sm_lifetime :: bool
  sm_lifts_at :: "time option"
  sm_appeal :: "appeal_status option"
  sm_appeal_label :: "string option"
  sm_can_appeal :: bool

definition restriction_statement_for :: "db \<Rightarrow> id \<Rightarrow> statement option" where
  "restriction_statement_for s uid =
     (case account_restriction_for s uid of
        None \<Rightarrow> None
      | Some a \<Rightarrow>
          let p = appeal_of s (mo_id a); forever = (mo_action a = MoBan)
          in Some \<lparr> sm_action_id = mo_id a, sm_action = mod_label (mo_action a),
                    sm_reason = reason_label (mo_reason a), sm_created_at = mo_created_at a,
                    sm_lifetime = forever, sm_lifts_at = (if forever then None else mo_expires_at a),
                    sm_appeal = map_option ap_status p,
                    sm_appeal_label = map_option (\<lambda>p. appeal_label (ap_status p)) p,
                    sm_can_appeal = (p = None) \<rparr>)"

section \<open>Appeals\<close>

datatype moderation_error = AppealError string | DoesNotExist

definition quoted :: "string \<Rightarrow> string \<Rightarrow> string" where
  "quoted a b = a @ [CHR 0x27] @ b"

definition file_appeal ::
  "id \<Rightarrow> mod_action \<Rightarrow> string \<Rightarrow> db \<Rightarrow> (moderation_error, appeal, db) outcome" where
  "file_appeal uid a text s =
     (let statement = strip text in
      if statement = [] then raised (AppealError ''Please tell us why you think this decision is wrong.'') s
      else if map_option u_id (if target_exists s (mo_target a) then affected_user s (mo_target a) else None) \<noteq> Some uid
      then raised (AppealError ''You can only contest a decision about your own account or content.'') s
      else if appeal_of s (mo_id a) \<noteq> None
      then raised (AppealError (quoted ''You'' ''ve already contested this decision; we'' @
             quoted [] ''re reviewing it.'')) s
      else
        let (ok, s1) = allow_action uid ''appeal'' 5 86400 s
        in if \<not> ok
           then raised (AppealError (quoted ''You'' ''ve contested several decisions recently; please wait a little.'')) s1
           else let p = \<lparr> ap_id = seq s1, ap_action = mo_id a, ap_appellant = Some uid,
                          ap_statement = take 2000 statement, ap_status = ApPending,
                          ap_decided_by = None, ap_notes = [], ap_decided_at = None,
                          ap_created_at = clock s1 \<rparr>
                in returned p (record_audit ''moderation.appeal_filed'' (Some uid)
                     (Some (''safety.moderationaction'', mo_id a)) []
                     (s1\<lparr> appeals := appeals s1 @ [p], seq := Suc (seq s1) \<rparr>)))"

record reversal =
  rv_reactivated :: bool
  rv_left_hidden :: bool

definition mark_lifted :: "mod_action \<Rightarrow> db \<Rightarrow> db" where
  "mark_lifted a s = (if mo_lifted_at a = None then set_lifted (mo_id a) s else s)"

definition reverse_account :: "mod_action \<Rightarrow> user \<Rightarrow> db \<Rightarrow> reversal \<times> db" where
  "reverse_account a u s =
     (let scope = filter (\<lambda>x. mo_id x \<noteq> mo_id a) (standing s (mo_target a));
          other_ban = (\<exists>x \<in> set scope. mo_action x = MoBan);
          other_timed = (\<exists>x \<in> set scope. timed_restriction (mo_action x) \<and>
             (mo_expires_at x = None \<or> after (mo_expires_at x) (clock s)));
          s1 = mark_lifted a s;
          back = (\<not> other_ban \<and> \<not> other_timed \<and> \<not> u_active u);
          s2 = (if back then set_active (u_id u) True s1 else s1);
          s3 = (if mo_action a = MoBan \<and> \<not> other_ban
                then snd (release_identity_ban (u_id u) None s2) else s2)
      in (\<lparr> rv_reactivated = back, rv_left_hidden = False \<rparr>, s3))"

definition reverse_content :: "mod_action \<Rightarrow> db \<Rightarrow> reversal \<times> db" where
  "reverse_content a s =
     (let t = mo_target a;
          other_remove = (\<exists>x \<in> set (standing s t). mo_id x \<noteq> mo_id a \<and> mo_action x = MoRemove);
          s1 = mark_lifted a s
      in if \<not> other_remove \<and> target_hidden s t
         then (if author_deleted s t
               then (\<lparr> rv_reactivated = False, rv_left_hidden = True \<rparr>,
                     record_audit ''moderation.reversal_left_hidden'' None (Some t)
                       [(''action_id'', JInt (int (mo_id a))), (''reason'', JStr ''author_deleted'')] s1)
               else (\<lparr> rv_reactivated = False, rv_left_hidden = False \<rparr>, set_hidden t False s1))
         else (\<lparr> rv_reactivated = False, rv_left_hidden = False \<rparr>, s1))"

definition reverse_action :: "mod_action \<Rightarrow> db \<Rightarrow> reversal \<times> db" where
  "reverse_action a s =
     (if \<not> target_exists s (mo_target a) then (\<lparr> rv_reactivated = False, rv_left_hidden = False \<rparr>, s)
      else if account_sanction (mo_action a) \<and> mo_target_type a = ''accounts.user''
      then (case user_row s (mo_target_id a) of
              None \<Rightarrow> (\<lparr> rv_reactivated = False, rv_left_hidden = False \<rparr>, s)
            | Some u \<Rightarrow> reverse_account a u s)
      else if mo_action a = MoRemove \<and> hideable (mo_target_type a) then reverse_content a s
      else (\<lparr> rv_reactivated = False, rv_left_hidden = False \<rparr>, s))"

definition notify_appeal_outcome :: "mod_action \<Rightarrow> bool \<Rightarrow> bool \<Rightarrow> db \<Rightarrow> db" where
  "notify_appeal_outcome a granted left_hidden s =
     (if \<not> target_exists s (mo_target a) then s
      else if granted
      then notify_affected (mo_target a) ''Your appeal succeeded''
             (if left_hidden
              then ''We reviewed your contest of a moderation decision and reversed it. '' @
                   ''Because you had deleted that message yourself, the message stays '' @
                   quoted ''deleted - reversing our decision doesn'' ''t undo your own deletion.''
              else ''We reviewed your contest of a moderation decision and reversed it. Any '' @
                   ''restriction from that decision has been removed.'') s
      else notify_affected (mo_target a) ''Your appeal was reviewed''
             (''We reviewed your contest of a moderation decision and the decision stands. '' @
              ''Thank you for letting us take another look.'') s)"

definition resolve_appeal ::
  "id \<Rightarrow> id \<Rightarrow> bool \<Rightarrow> string \<Rightarrow> db \<Rightarrow> (moderation_error, reversal option, db) outcome" where
  "resolve_appeal moderator pid grant notes s =
     (case List.find (\<lambda>p. ap_id p = pid) (appeals s) of
        None \<Rightarrow> raised DoesNotExist s
      | Some p \<Rightarrow>
          if ap_status p \<noteq> ApPending then raised (AppealError ''This appeal has already been decided.'') s
          else (case List.find (\<lambda>a. mo_id a = ap_action p) (mod_actions s) of
              None \<Rightarrow> raised DoesNotExist s
            | Some a \<Rightarrow>
                let s1 = s\<lparr> appeals := update_rows (\<lambda>x. ap_id x = pid)
                      (\<lambda>x. x\<lparr> ap_status := (if grant then ApOverturned else ApUpheld),
                             ap_decided_by := Some moderator, ap_decided_at := Some (clock s),
                             ap_notes := notes \<rparr>) (appeals s) \<rparr>;
                    (outcome, s2) = (if grant then map_prod Some id (reverse_action a s1) else (None, s1));
                    s3 = record_audit ''moderation.appeal_resolved'' (Some moderator)
                           (Some (''safety.moderationaction'', mo_id a)) [(''granted'', JBool grant)] s2;
                    s4 = notify_appeal_outcome a grant
                           (case outcome of None \<Rightarrow> False | Some r \<Rightarrow> rv_left_hidden r) s3
                in returned outcome (snd (alert_guardians_of_moderation
                     (option_list (if target_exists s4 (mo_target a) then affected_user s4 (mo_target a) else None)) s4))))"

record appeal_summary =
  as_action_label :: string
  as_reason_label :: string
  as_status :: appeal_status
  as_status_label :: string
  as_statement :: string
  as_created :: time
  as_decided :: "time option"

definition summary_of_appeal :: "mod_action \<Rightarrow> appeal \<Rightarrow> appeal_summary" where
  "summary_of_appeal a p = \<lparr> as_action_label = mod_label (mo_action a),
     as_reason_label = reason_label (mo_reason a), as_status = ap_status p,
     as_status_label = appeal_label (ap_status p), as_statement = ap_statement p,
     as_created = ap_created_at p, as_decided = ap_decided_at p \<rparr>"

definition recent :: "('r \<Rightarrow> time) \<Rightarrow> nat \<Rightarrow> 'r list \<Rightarrow> 'r list" where
  "recent k limit rs = take limit (sort_down k rs)"

definition appeals_for :: "db \<Rightarrow> id \<Rightarrow> nat \<Rightarrow> appeal_summary list" where
  "appeals_for s uid limit =
     List.map_filter (\<lambda>p. map_option (\<lambda>a. summary_of_appeal a p)
         (List.find (\<lambda>a. mo_id a = ap_action p) (mod_actions s)))
       (recent ap_created_at limit (filter (\<lambda>p. ap_appellant p = Some uid) (appeals s)))"

section \<open>Referrals\<close>

fun authority_value :: "authority \<Rightarrow> string" where
  "authority_value Inhope = ''inhope''"
| "authority_value Igpr = ''igpr''"
| "authority_value Police = ''police''"
| "authority_value OtherAuthority = ''other''"

fun authority_label :: "authority \<Rightarrow> string" where
  "authority_label Inhope = ''INHOPE / national hotline''"
| "authority_label Igpr = ''Romanian Police (IGPR)''"
| "authority_label Police = ''Other law enforcement''"
| "authority_label OtherAuthority = ''Other authority''"

definition create_authority_referral ::
  "id \<Rightarrow> user \<Rightarrow> reason_code \<Rightarrow> authority \<Rightarrow> report option \<Rightarrow> string \<Rightarrow> string \<Rightarrow> db \<Rightarrow> referral \<times> db" where
  "create_authority_referral moderator u reason auth report reference notes s =
     (let rid = seq s;
          s1 = record_audit ''authority.referral'' (Some moderator) (Some (user_target (u_id u)))
                 [(''reason'', JStr (reason_value reason)), (''authority'', JStr (authority_value auth))]
                 (s\<lparr> seq := Suc (seq s) \<rparr>);
          r = \<lparr> rf_id = rid, rf_subject = u_public_id u, rf_reason = reason, rf_authority = auth,
                rf_reference = reference, rf_report = map_option rp_id report, rf_by = Some moderator,
                rf_anchor = tip (audit_log s1), rf_notes = notes, rf_created_at = clock s \<rparr>
      in (r, s1\<lparr> referrals := referrals s1 @ [r] \<rparr>))"

record proof_pack =
  pk_subject :: string
  pk_reason :: string
  pk_authority :: string
  pk_reference :: string
  pk_created :: time
  pk_anchor :: string
  pk_valid :: bool

definition referral_proof_pack :: "db \<Rightarrow> referral \<Rightarrow> proof_pack" where
  "referral_proof_pack s r = \<lparr> pk_subject = rf_subject r, pk_reason = reason_label (rf_reason r),
     pk_authority = authority_label (rf_authority r), pk_reference = rf_reference r,
     pk_created = rf_created_at r, pk_anchor = rf_anchor r, pk_valid = verify_audit_chain s None \<rparr>"

section \<open>The record a user sees\<close>

definition targets_with_unlifted_remove :: "db \<Rightarrow> string \<Rightarrow> id list \<Rightarrow> id set" where
  "targets_with_unlifted_remove s model ids =
     mo_target_id ` {a \<in> set (mod_actions s). mo_target_type a = model \<and> mo_target_id a \<in> set ids \<and>
       mo_action a = MoRemove \<and> mo_lifted_at a = None}"

record decision =
  dc_action_id :: id
  dc_action :: string
  dc_reason :: string
  dc_scope :: string
  dc_created_at :: time
  dc_sanction :: bool
  dc_active :: bool
  dc_can_appeal :: bool
  dc_appeal_label :: "string option"
  dc_author_deleted :: bool

record report_line =
  rl_reason :: string
  rl_status :: report_status
  rl_created_at :: time
  rl_handled_at :: "time option"
  rl_detail :: string
  rl_resolution :: string

record safety_record =
  sf_decisions :: "decision list"
  sf_reports :: "report_line list"
  sf_decisions_total :: nat
  sf_decisions_truncated :: bool
  sf_reports_total :: nat
  sf_reports_truncated :: bool

definition own_actions :: "db \<Rightarrow> id \<Rightarrow> string \<Rightarrow> mod_action list" where
  "own_actions s uid ty = filter (\<lambda>a. mo_target_type a = ty \<and>
     (if ty = ''accounts.user'' then mo_target_id a = uid
      else if ty = ''social.activity'' then \<exists>x \<in> set (activities s). ac_id x = mo_target_id a \<and> ac_owner x = uid
      else \<exists>x \<in> set (posts s). po_id x = mo_target_id a \<and> po_author x = uid)) (mod_actions s)"

definition decision_of :: "db \<Rightarrow> mod_action \<Rightarrow> decision" where
  "decision_of s a =
     (let p = appeal_of s (mo_id a); sanction = account_sanction (mo_action a)
      in \<lparr> dc_action_id = mo_id a, dc_action = mod_label (mo_action a),
           dc_reason = reason_label (mo_reason a),
           dc_scope = (if mo_target_type a = ''accounts.user'' then ''your account''
             else if mo_target_type a = ''social.activity'' then ''one of your activities''
             else ''one of your posts''),
           dc_created_at = mo_created_at a, dc_sanction = sanction,
           dc_active = (sanction \<and> (mo_action a = MoBan \<or>
             (mo_expires_at a = None \<or> after (mo_expires_at a) (clock s)) \<and> mo_lifted_at a = None)),
           dc_can_appeal = (p = None), dc_appeal_label = map_option (\<lambda>p. appeal_label (ap_status p)) p,
           dc_author_deleted = (mo_target_type a = ''social.post'' \<and> mo_action a = MoRemove \<and>
             (\<exists>x \<in> set (posts s). po_id x = mo_target_id a \<and> po_author_deleted x \<and> po_hidden x)) \<rparr>)"

definition report_line_of :: "report \<Rightarrow> report_line" where
  "report_line_of r = \<lparr> rl_reason = reason_label (rp_reason r), rl_status = rp_status r,
     rl_created_at = rp_created_at r, rl_handled_at = rp_handled_at r, rl_detail = rp_detail r,
     rl_resolution = rp_resolution r \<rparr>"

definition safety_record_for :: "db \<Rightarrow> id \<Rightarrow> nat \<Rightarrow> safety_record" where
  "safety_record_for s uid limit =
     (let scopes = map (own_actions s uid) [''accounts.user'', ''social.activity'', ''social.post''];
          shown = take limit (sort_down mo_created_at (concat (map (recent mo_created_at limit) scopes)));
          mine = filter (\<lambda>r. rp_reporter r = Some uid) (reports s);
          lines = map report_line_of (recent rp_created_at limit mine);
          total = sum_list (map length scopes)
      in \<lparr> sf_decisions = map (decision_of s) shown, sf_reports = lines,
           sf_decisions_total = total, sf_decisions_truncated = (length shown < total),
           sf_reports_total = length mine, sf_reports_truncated = (length lines < length mine) \<rparr>)"

text \<open>The user's own audit trail, through a fixed table of labels.\<close>

definition activity_log_labels :: "(string \<times> string) list" where
  "activity_log_labels = [
     (''activity.arrived'', ''You marked yourself as arrived at an activity''),
     (''activity.cancelled'', ''You cancelled an activity you organised''),
     (''connection.requested'', ''You sent a connection request''),
     (''connection.accepted'', ''You accepted a connection''),
     (''connection.removed'', ''You removed a connection''),
     (''group.created'', ''You created a group''), (''group.joined'', ''You joined a group''),
     (''group.left'', ''You left a group''), (''group.archived'', ''You archived a group''),
     (''guardian.link_invited'', ''You sent a guardian-link invitation''),
     (''guardian.link_accepted'', ''You accepted a guardian link''),
     (''media.uploaded'', ''You uploaded a photo''), (''media.deleted'', ''You deleted a photo''),
     (''media.attachment_uploaded'', ''You uploaded a file to a conversation''),
     (''media.attachment_deleted'', ''You deleted an attachment''),
     (''messaging.direct_started'', ''You started a conversation''),
     (''messaging.group_started'', ''You started a group conversation''),
     (''messaging.invite_accepted'', ''You joined a conversation''),
     (''messaging.invite_declined'', ''You declined a conversation invitation''),
     (''messaging.key_registered'', ''You set up message encryption''),
     (''messaging.key_verified'', quoted ''You verified a contact'' ''s safety number''),
     (''messaging.left'', ''You left a conversation''),
     (''notification.preferences_updated'', ''You updated your notification settings''),
     (''post.self_deleted'', ''You deleted one of your posts''),
     (''user.blocked'', ''You blocked someone''), (''user.unblocked'', ''You unblocked someone'')]"

definition audit_log_for :: "db \<Rightarrow> id \<Rightarrow> nat \<Rightarrow> (string \<times> time) list" where
  "audit_log_for s uid limit =
     List.map_filter (\<lambda>r. map_option (\<lambda>l. (l, al_created_at r)) (map_of activity_log_labels (al_event r)))
       (take limit (rev (filter (\<lambda>r. al_actor_ref r = Some uid \<and>
          al_event r \<in> fst ` set activity_log_labels) (audit_log s))))"

end
