(* ===== verification/Moderation_Laws.thy ===== *)
theory Moderation_Laws
  imports Moderation Sweeps
begin

text \<open>
  Laws of moderation: what one step of the nightly sweep does to the accounts and the actions, the
  exact effect of the whole sweep, and the invariant that an account under a standing lifetime ban
  is inactive.
\<close>

section \<open>Frames\<close>

definition same_rows :: "db \<Rightarrow> db \<Rightarrow> bool" where
  "same_rows s t \<longleftrightarrow> users t = users s \<and> mod_actions t = mod_actions s \<and> appeals t = appeals s \<and>
     posts t = posts s \<and> activities t = activities s \<and> clock t = clock s \<and> seq s \<le> seq t"

lemma same_rows_refl [simp]: "same_rows s s"
  by (simp add: same_rows_def)

lemma same_rows_trans: "same_rows s t \<Longrightarrow> same_rows t w \<Longrightarrow> same_rows s w"
  by (simp add: same_rows_def)

lemma notify_same: "same_rows s (snd (notify r k ti b u s))"
  by (simp add: same_rows_def notify_def Let_def)

lemma notify_each_same: "same_rows s (snd (notify_each rs k ti b u s))"
  by (induction rs arbitrary: s) (auto simp: notify_each_Cons intro: same_rows_trans [OF notify_same])

lemma audit_same: "same_rows s (record_audit e a tg d s)"
  by (simp add: same_rows_def record_audit_def Let_def)

lemma notify_affected_same: "same_rows s (notify_affected t ti b s)"
  by (simp add: notify_affected_def notify_same split: option.splits)

lemma notify_reporter_same: "same_rows s (notify_reporter r ti b s)"
  by (simp add: notify_reporter_def notify_same split: option.splits)

lemma alert_same: "same_rows s (snd (alert_guardians_of_moderation us s))"
  by (simp add: alert_guardians_of_moderation_def Let_def notify_each_same)

lemma ban_identity_same: "same_rows s (snd (ban_identity u s))"
  by (auto simp: ban_identity_def same_rows_def record_audit_def Let_def split: option.splits)

lemma release_ban_same: "same_rows s (snd (release_identity_ban u a s))"
  by (auto simp: release_identity_ban_def same_rows_def record_audit_def Let_def split: option.splits)

lemmas same_rows_rules = same_rows_refl notify_same notify_each_same audit_same notify_affected_same
  notify_reporter_same alert_same ban_identity_same release_ban_same

lemma set_lifted_frame [simp]:
  "users (set_lifted i s) = users s" "appeals (set_lifted i s) = appeals s" "posts (set_lifted i s) = posts s"
  "activities (set_lifted i s) = activities s" "clock (set_lifted i s) = clock s" "seq (set_lifted i s) = seq s"
  by (simp_all add: set_lifted_def)

lemma set_active_frame [simp]:
  "mod_actions (set_active i b s) = mod_actions s" "appeals (set_active i b s) = appeals s"
  "posts (set_active i b s) = posts s" "activities (set_active i b s) = activities s"
  "clock (set_active i b s) = clock s" "seq (set_active i b s) = seq s"
  by (simp_all add: set_active_def)

lemma set_hidden_frame [simp]:
  "mod_actions (set_hidden t b s) = mod_actions s" "users (set_hidden t b s) = users s"
  "appeals (set_hidden t b s) = appeals s" "clock (set_hidden t b s) = clock s" "seq (set_hidden t b s) = seq s"
  by (simp_all add: set_hidden_def)

section \<open>What still restricts an account\<close>

definition banned_now :: "db \<Rightarrow> target \<Rightarrow> bool" where
  "banned_now s t \<longleftrightarrow> (\<exists>x \<in> set (standing s t). mo_action x = MoBan)"

definition suspended_until :: "time \<Rightarrow> db \<Rightarrow> target \<Rightarrow> bool" where
  "suspended_until now s t \<longleftrightarrow>
     (\<exists>x \<in> set (standing s t). timed_restriction (mo_action x) \<and> after (mo_expires_at x) now)"

lemma standing_iff: "x \<in> set (standing s t) \<longleftrightarrow> x \<in> set (mod_actions s) \<and> mo_target x = t \<and> mo_lifted_at x = None"
  by (auto simp: standing_def)

definition lift_row :: "time \<Rightarrow> mod_action \<Rightarrow> mod_action" where
  "lift_row now a = a\<lparr> mo_lifted_at := Some now \<rparr>"

lemma lift_row_simps [simp]: "mo_id (lift_row t a) = mo_id a" "mo_target (lift_row t a) = mo_target a"
  "mo_action (lift_row t a) = mo_action a" "mo_expires_at (lift_row t a) = mo_expires_at a"
  "mo_lifted_at (lift_row t a) = Some t"
  by (simp_all add: lift_row_def mo_target_def)

text \<open>Lifting elapsed actions changes neither the bans nor the suspensions that still run.\<close>

definition lifted_in :: "id set \<Rightarrow> time \<Rightarrow> mod_action list \<Rightarrow> mod_action list" where
  "lifted_in ids now as = update_rows (\<lambda>a. mo_id a \<in> ids \<and> mo_lifted_at a = None) (lift_row now) as"

lemma lifted_in_iff: "x \<in> set (lifted_in ids now as) \<and> mo_lifted_at x = None \<longleftrightarrow>
    x \<in> set as \<and> mo_id x \<notin> ids \<and> mo_lifted_at x = None"
  by (auto simp: lifted_in_def set_update_rows image_iff)

lemma lifted_in_lifted_in:
  "lifted_in ids now (lifted_in js now as) = lifted_in (ids \<union> js) now as"
  by (induction as) (auto simp: lifted_in_def)

lemma restrictions_lifted:
  assumes "mod_actions t = lifted_in ids now (mod_actions s)"
    and "\<And>a. a \<in> set (mod_actions s) \<Longrightarrow> mo_id a \<in> ids \<Longrightarrow> mo_lifted_at a = None \<Longrightarrow> elapsed now a"
  shows "banned_now t tg = banned_now s tg" "suspended_until now t tg = suspended_until now s tg"
proof -
  have st: "x \<in> set (standing t tg) \<longleftrightarrow> x \<in> set (standing s tg) \<and> mo_id x \<notin> ids" for x
    using lifted_in_iff [of x ids now "mod_actions s"] by (auto simp: standing_iff assms(1))
  have keep: "mo_id x \<notin> ids" if "x \<in> set (standing s tg)"
    "mo_action x = MoBan \<or> timed_restriction (mo_action x) \<and> after (mo_expires_at x) now" for x
  proof
    assume "mo_id x \<in> ids"
    with that(1) assms(2) have "elapsed now x" by (simp add: standing_iff)
    with that(2) show False by (auto simp: elapsed_def after_def timed_restriction_def split: option.splits)
  qed
  show "banned_now t tg = banned_now s tg" "suspended_until now t tg = suspended_until now s tg"
    using st keep unfolding banned_now_def suspended_until_def by blast+
qed

section \<open>One step of the sweep\<close>

definition restored :: "time \<Rightarrow> id set \<Rightarrow> db \<Rightarrow> user \<Rightarrow> bool" where
  "restored now ids s u \<longleftrightarrow> \<not> u_active u \<and> \<not> banned_now s (user_target (u_id u)) \<and>
     \<not> suspended_until now s (user_target (u_id u)) \<and>
     (\<exists>a \<in> set (mod_actions s). mo_id a \<in> ids \<and> mo_lifted_at a = None \<and> mo_target a = user_target (u_id u))"

definition reactivate :: "user \<Rightarrow> user" where
  "reactivate u = u\<lparr> u_active := True \<rparr>"

lemma reactivate_simps [simp]: "u_id (reactivate u) = u_id u" "u_active (reactivate u)"
  by (simp_all add: reactivate_def)

lemma lift_row_once:
  assumes "unique_by mo_id as" and "a \<in> set as" and "mo_id a = i" and "mo_lifted_at a = None"
  shows "update_rows (\<lambda>x. mo_id x = i) (\<lambda>x. x\<lparr> mo_lifted_at := Some t \<rparr>) as = lifted_in {i} t as"
proof -
  have "mo_lifted_at x = None" if "x \<in> set as" "mo_id x = i" for x
    using unique_byD [OF assms(1) that(1) assms(2)] that(2) assms(3,4) by simp
  then show ?thesis by (auto simp: lifted_in_def update_rows_def lift_row_def)
qed

lemma filter_one: "distinct xs \<Longrightarrow> x \<in> set xs \<Longrightarrow> filter (\<lambda>v. v = x) xs = [x]"
  by (induction xs) (auto simp: filter_empty_conv)

lemma lift_one_step:
  assumes un: "unique_by mo_id (mod_actions s)" "unique_by u_id (users s)" and now: "clock s = now"
    and el: "\<And>a. a \<in> set (mod_actions s) \<Longrightarrow> mo_id a = i \<Longrightarrow> mo_lifted_at a = None \<Longrightarrow> elapsed now a"
    and st: "lift_one now i (n, s) = (m, t)"
  shows "mod_actions t = lifted_in {i} now (mod_actions s) \<and>
    users t = update_rows (restored now {i} s) reactivate (users s) \<and> clock t = now \<and>
    m = n + count_rows (restored now {i} s) (users s)"
proof (cases "List.find (\<lambda>a. mo_id a = i \<and> mo_lifted_at a = None) (mod_actions s)")
  case None
  then have no: "\<not> (mo_id a = i \<and> mo_lifted_at a = None)" if "a \<in> set (mod_actions s)" for a
    using that by (blast dest: find_NoneD)
  then have "\<not> restored now {i} s u" for u by (auto simp: restored_def)
  moreover have "lifted_in {i} now (mod_actions s) = mod_actions s"
    unfolding lifted_in_def by (rule update_rows_none) (use no in auto)
  ultimately show ?thesis
    using st None now by (simp add: lift_one_def update_rows_none count_rows_def)
next
  case (Some a)
  then have a: "a \<in> set (mod_actions s)" "mo_id a = i" "mo_lifted_at a = None" by (auto dest: find_SomeD)
  note lift = lift_row_once [OF un(1) a]
  have only: "x = a" if "x \<in> set (mod_actions s)" "mo_id x \<in> {i}" for x
    using unique_byD [OF un(1) that(1) a(1)] that(2) a(2) by simp
  have "mo_id a \<in> {i}" using a(2) by simp
  then have ex: "(\<exists>x \<in> set (mod_actions s). mo_id x \<in> {i} \<and> mo_lifted_at x = None \<and> mo_target x = T) \<longleftrightarrow>
      mo_target a = T" for T
    using a(1,3) only by blast
  have res: "restored now {i} s u \<longleftrightarrow> \<not> u_active u \<and> \<not> banned_now s (mo_target a) \<and>
      \<not> suspended_until now s (mo_target a) \<and> mo_target a = user_target (u_id u)" for u
    unfolding restored_def ex by metis
  let ?tgt = "if mo_target_type a = ''accounts.user'' then user_row s (mo_target_id a) else None"
  show ?thesis
  proof (cases ?tgt)
    case None
    have "\<not> restored now {i} s u" if "u \<in> set (users s)" for u
    proof
      assume "restored now {i} s u"
      then have "mo_target_type a = ''accounts.user''" "mo_target_id a = u_id u"
        by (auto simp: res mo_target_def user_target_def)
      then show False using None unique_by_find [OF un(2) that] by (auto simp: user_row_def)
    qed
    then have "update_rows (restored now {i} s) reactivate (users s) = users s"
      "count_rows (restored now {i} s) (users s) = 0"
      by (auto simp: update_rows_none count_rows_def filter_empty_conv)
    then show ?thesis
      using st Some None lift now by (auto simp: lift_one_def set_lifted_def)
  next
    case (Some u)
    then have ty: "mo_target_type a = ''accounts.user''" and u: "u \<in> set (users s)" "u_id u = mo_target_id a"
      by (auto split: if_splits dest: user_row_SomeD)
    have tg: "mo_target a = user_target (u_id u)" by (simp add: mo_target_def user_target_def ty u)
    have one: "v = u" if "v \<in> set (users s)" "mo_target a = user_target (u_id v)" for v
      using unique_byD [OF un(2) that(1) u(1)] that(2) tg by (simp add: user_target_def)
    let ?revived = "\<not> banned_now s (mo_target a) \<and> \<not> suspended_until now s (mo_target a) \<and> \<not> u_active u"
    have same: "restored now {i} s v \<longleftrightarrow> ?revived \<and> v = u" if "v \<in> set (users s)" for v
      using one [OF that] tg by (auto simp: res)
    have iff: "v = u \<longleftrightarrow> u_id v = u_id u" if "v \<in> set (users s)" for v
      using unique_byD [OF un(2) that u(1)] by blast
    have us: "update_rows (restored now {i} s) reactivate (users s) =
        (if ?revived then users (set_active (u_id u) True s) else users s)"
    proof (cases ?revived)
      case True
      then have "(if restored now {i} s v then reactivate v else v) =
          (if u_id v = u_id u then v\<lparr> u_active := True \<rparr> else v)" if "v \<in> set (users s)" for v
        using same [OF that] iff [OF that] by (simp add: reactivate_def)
      then have "update_rows (restored now {i} s) reactivate (users s) = users (set_active (u_id u) True s)"
        by (simp add: update_rows_def set_active_def)
      with True show ?thesis by simp
    next
      case False
      then have "update_rows (restored now {i} s) reactivate (users s) = users s"
        using same by (intro update_rows_none) blast
      with False show ?thesis by (simp only: if_False)
    qed
    have "filter (restored now {i} s) (users s) = (if ?revived then filter (\<lambda>v. v = u) (users s) else [])"
      using same by (auto simp: filter_empty_conv intro!: filter_cong)
    moreover have "filter (\<lambda>v. v = u) (users s) = [u]"
      by (rule filter_one) (use un(2) u(1) in \<open>auto simp: unique_by_def distinct_map\<close>)
    ultimately have ct: "count_rows (restored now {i} s) (users s) = (if ?revived then 1 else 0)"
      by (simp add: count_rows_def)
    let ?w = "set_lifted i (record_audit ''moderation.suspension_lifted'' None (Some (mo_target a)) []
        (set_active (u_id u) True s))"
    have eq: "lift_one now i (n, s) = (if ?revived then (Suc n, notify_suspension_lifted (mo_target a) ?w)
        else (n, set_lifted i s))"
      using \<open>List.find _ _ = Some a\<close> Some by (simp add: lift_one_def banned_now_def suspended_until_def Let_def)
    show ?thesis
    proof (cases ?revived)
      case True
      from eq have "lift_one now i (n, s) = (Suc n, notify_suspension_lifted (mo_target a) ?w)"
        unfolding if_P [OF True] .
      with st have st': "(m, t) = (Suc n, notify_suspension_lifted (mo_target a) ?w)" by simp
      then have "same_rows ?w t" by (simp add: notify_suspension_lifted_def notify_affected_same)
      moreover have "users ?w = users (set_active (u_id u) True s)" "clock ?w = now"
        "mod_actions ?w = lifted_in {i} now (mod_actions s)"
        using lift now by (simp_all add: set_lifted_def record_audit_def Let_def)
      ultimately show ?thesis using st' us ct True by (simp add: same_rows_def)
    next
      case False
      from eq have "lift_one now i (n, s) = (n, set_lifted i s)" unfolding if_not_P [OF False] .
      with st have "(m, t) = (n, set_lifted i s)" by simp
      then show ?thesis using us ct False lift now by (auto simp: set_lifted_def)
    qed
  qed
qed

section \<open>The whole sweep\<close>

lemma unique_lifted_in [simp]: "unique_by mo_id (lifted_in ids now as) = unique_by mo_id as"
  by (simp add: lifted_in_def unique_by_update)

lemma update_rows_twice:
  assumes "\<And>r. r \<in> set rs \<Longrightarrow> R r \<longleftrightarrow> P r \<or> Q r" and "\<And>r. r \<in> set rs \<Longrightarrow> P r \<Longrightarrow> \<not> Q (f r)"
  shows "update_rows Q f (update_rows P f rs) = update_rows R f rs \<and>
    count_rows P rs + count_rows Q (update_rows P f rs) = count_rows R rs"
  using assms
proof (induction rs)
  case (Cons r rs)
  have ih: "update_rows Q f (update_rows P f rs) = update_rows R f rs"
    "count_rows P rs + count_rows Q (update_rows P f rs) = count_rows R rs"
    using Cons.IH Cons.prems by simp_all
  have r: "R r = (P r \<or> Q r)" "P r \<Longrightarrow> \<not> Q (f r)" using Cons.prems by simp_all
  then show ?case using ih by (cases "P r"; cases "Q r") simp_all
qed simp

lemma lift_fold:
  assumes "unique_by mo_id (mod_actions s)" and "unique_by u_id (users s)" and "clock s = now"
    and "\<And>a. a \<in> set (mod_actions s) \<Longrightarrow> mo_id a \<in> set ids \<Longrightarrow> mo_lifted_at a = None \<Longrightarrow> elapsed now a"
    and "fold (lift_one now) ids (n, s) = (m, t)"
  shows "mod_actions t = lifted_in (set ids) now (mod_actions s) \<and>
    users t = update_rows (restored now (set ids) s) reactivate (users s) \<and>
    m = n + count_rows (restored now (set ids) s) (users s)"
  using assms
proof (induction ids arbitrary: n s)
  case Nil
  have "\<not> restored now {} s u" for u by (simp add: restored_def)
  then show ?case using Nil.prems(5) by (simp add: lifted_in_def update_rows_none count_rows_def)
next
  case (Cons i ids)
  obtain k w where st: "lift_one now i (n, s) = (k, w)" by fastforce
  have "elapsed now a" if "a \<in> set (mod_actions s)" "mo_id a = i" "mo_lifted_at a = None" for a
    using that Cons.prems(4) by simp
  note lift_one_step [OF Cons.prems(1,2,3) this st]
  then have ma: "mod_actions w = lifted_in {i} now (mod_actions s)"
    and uw: "users w = update_rows (restored now {i} s) reactivate (users s)"
    and cw: "clock w = now" and k: "k = n + count_rows (restored now {i} s) (users s)"
    by blast+
  have un: "unique_by u_id (users w)" using Cons.prems(2) by (simp add: uw unique_by_update)
  have el: "elapsed now a" if "a \<in> set (mod_actions w)" "mo_id a \<in> set ids" "mo_lifted_at a = None" for a
    using that lifted_in_iff [of a "{i}" now "mod_actions s"] Cons.prems(4) ma by auto
  have rest: "fold (lift_one now) ids (k, w) = (m, t)" using Cons.prems(5) st by simp
  have ih: "mod_actions t = lifted_in (set ids) now (mod_actions w) \<and>
      users t = update_rows (restored now (set ids) w) reactivate (users w) \<and>
      m = k + count_rows (restored now (set ids) w) (users w)"
    by (rule Cons.IH [OF _ un cw el rest]) (simp add: ma Cons.prems(1))
  have still: "banned_now w tg = banned_now s tg" "suspended_until now w tg = suspended_until now s tg" for tg
    using restrictions_lifted [OF ma, of tg] Cons.prems(4) by auto
  have open': "x \<in> set (mod_actions w) \<and> mo_lifted_at x = None \<longleftrightarrow>
      x \<in> set (mod_actions s) \<and> mo_id x \<noteq> i \<and> mo_lifted_at x = None" for x
    using lifted_in_iff [of x "{i}" now "mod_actions s"] ma by simp
  have not_restored: "\<not> restored now js w (reactivate u)" for js u by (simp add: restored_def)
  have split: "restored now (set (i # ids)) s u \<longleftrightarrow> restored now {i} s u \<or> restored now (set ids) w u" for u
  proof -
    let ?T = "\<lambda>a. mo_target a = user_target (u_id u)"
    have "(\<exists>a \<in> set (mod_actions s). mo_id a \<in> set (i # ids) \<and> mo_lifted_at a = None \<and> ?T a) \<longleftrightarrow>
        (\<exists>a \<in> set (mod_actions s). mo_id a \<in> {i} \<and> mo_lifted_at a = None \<and> ?T a) \<or>
        (\<exists>a \<in> set (mod_actions w). mo_id a \<in> set ids \<and> mo_lifted_at a = None \<and> ?T a)"
      unfolding list.set insert_iff empty_iff using open' by blast
    then show ?thesis unfolding restored_def still by blast
  qed
  have "update_rows (restored now (set ids) w) reactivate (update_rows (restored now {i} s) reactivate (users s)) =
      update_rows (restored now (set (i # ids)) s) reactivate (users s) \<and>
      count_rows (restored now {i} s) (users s) +
        count_rows (restored now (set ids) w) (update_rows (restored now {i} s) reactivate (users s)) =
      count_rows (restored now (set (i # ids)) s) (users s)"
    by (rule update_rows_twice) (rule split, rule not_restored)
  with ih show ?case by (simp add: ma uw k lifted_in_lifted_in)
qed

lemma elapsed_ids:
  assumes "unique_by mo_id as" and "a \<in> set as"
  shows "mo_id a \<in> set (map mo_id (filter (elapsed now) as)) \<and> mo_lifted_at a = None \<longleftrightarrow> elapsed now a"
proof -
  have "elapsed now a" if "mo_id a \<in> set (map mo_id (filter (elapsed now) as))"
  proof -
    from that obtain b where b: "b \<in> set as" "elapsed now b" "mo_id b = mo_id a" by auto
    from unique_byD [OF assms(1) b(1) assms(2) b(3)] b(2) show ?thesis by simp
  qed
  moreover have "mo_id a \<in> set (map mo_id (filter (elapsed now) as))" "mo_lifted_at a = None" if "elapsed now a"
    using that assms(2) by (auto simp: elapsed_def)
  ultimately show ?thesis by blast
qed

lemma lift_expired_eq:
  assumes "unique_by mo_id (mod_actions s)" and "unique_by u_id (users s)"
    and "lift_expired_suspensions s = (n, t)"
    and "revived = (\<lambda>u. \<not> u_active u \<and> \<not> banned_now s (user_target (u_id u)) \<and>
       \<not> suspended_until (clock s) s (user_target (u_id u)) \<and>
       (\<exists>a \<in> set (mod_actions s). elapsed (clock s) a \<and> mo_target a = user_target (u_id u)))"
  shows "mod_actions t = update_rows (elapsed (clock s)) (lift_row (clock s)) (mod_actions s) \<and>
    users t = update_rows revived reactivate (users s) \<and> n = count_rows revived (users s)"
proof -
  let ?ids = "map mo_id (filter (elapsed (clock s)) (mod_actions s))"
  note ids = elapsed_ids [OF assms(1), of _ "clock s"]
  have "elapsed (clock s) a" if "a \<in> set (mod_actions s)" "mo_id a \<in> set ?ids" "mo_lifted_at a = None" for a
    using ids [OF that(1)] that(2,3) by blast
  note f = lift_fold [OF assms(1,2) refl this assms(3) [unfolded lift_expired_suspensions_def]]
  have r: "restored (clock s) (set ?ids) s = revived"
    unfolding restored_def assms(4) using ids by (intro ext) blast
  have "lifted_in (set ?ids) (clock s) (mod_actions s) =
      update_rows (elapsed (clock s)) (lift_row (clock s)) (mod_actions s)"
    unfolding lifted_in_def update_rows_def using ids by (intro map_cong refl) simp
  then show ?thesis using f unfolding r by (simp only: add_0)
qed


section \<open>A banned account is inactive\<close>

definition bans_hold :: "db \<Rightarrow> bool" where
  "bans_hold s \<longleftrightarrow> unique_by u_id (users s) \<and> unique_by mo_id (mod_actions s) \<and>
     (\<forall>a \<in> set (mod_actions s). mo_id a < seq s) \<and>
     (\<forall>u \<in> set (users s). banned_now s (user_target (u_id u)) \<longrightarrow> \<not> u_active u)"

lemma banned_now_cong: "mod_actions t = mod_actions s \<Longrightarrow> banned_now t = banned_now s"
  by (simp add: banned_now_def standing_def fun_eq_iff)

lemma bans_hold_same: "bans_hold s \<Longrightarrow> same_rows s t \<Longrightarrow> bans_hold t"
  unfolding bans_hold_def same_rows_def
  using banned_now_cong [of t s] by (auto intro: less_le_trans)

lemma bans_hold_cong: "bans_hold s \<Longrightarrow> users t = users s \<Longrightarrow> mod_actions t = mod_actions s \<Longrightarrow>
    seq s \<le> seq t \<Longrightarrow> bans_hold t"
  unfolding bans_hold_def using banned_now_cong [of t s] by (auto intro: less_le_trans)

lemma bans_hold_rules [service_intros]:
  "bans_hold s \<Longrightarrow> bans_hold (snd (notify r k ti b u s))"
  "bans_hold s \<Longrightarrow> bans_hold (record_audit e a tg d s)"
  "bans_hold s \<Longrightarrow> bans_hold (notify_affected tg' ti b s)"
  "bans_hold s \<Longrightarrow> bans_hold (notify_reporter r' ti b s)"
  "bans_hold s \<Longrightarrow> bans_hold (snd (alert_guardians_of_moderation us s))"
  "bans_hold s \<Longrightarrow> bans_hold (snd (ban_identity i s))"
  "bans_hold s \<Longrightarrow> bans_hold (snd (release_identity_ban i ac s))"
  by - (erule bans_hold_same, rule same_rows_rules)+

text \<open>Lifting removes standing bans only; deactivating an account is always safe.\<close>

lemma standing_lift: "x \<in> set (standing (set_lifted i s) tg) \<longleftrightarrow> x \<in> set (standing s tg) \<and> mo_id x \<noteq> i"
proof -
  have "x \<in> set (mod_actions (set_lifted i s)) \<and> mo_lifted_at x = None \<longleftrightarrow>
      x \<in> set (mod_actions s) \<and> mo_lifted_at x = None \<and> mo_id x \<noteq> i"
    by (auto simp: set_lifted_def set_update_rows image_iff)
  then show ?thesis unfolding standing_iff by blast
qed

lemma bans_hold_lift:
  assumes "bans_hold s"
  shows "bans_hold (set_lifted i s)"
proof -
  have "banned_now (set_lifted i s) tg \<Longrightarrow> banned_now s tg" for tg
    unfolding banned_now_def Bex_def standing_lift by blast
  with assms show ?thesis
    by (auto simp: bans_hold_def) (auto simp: set_lifted_def unique_by_update set_update_rows)
qed

lemma bans_hold_active:
  assumes "bans_hold s" and "b \<Longrightarrow> \<not> banned_now s (user_target i)"
  shows "bans_hold (set_active i b s)"
proof -
  have "banned_now (set_active i b s) = banned_now s" by (rule banned_now_cong) simp
  with assms show ?thesis
    by (auto simp: bans_hold_def) (auto simp: set_active_def unique_by_update set_update_rows split: if_splits)
qed

lemma bans_hold_hidden: "bans_hold s \<Longrightarrow> bans_hold (set_hidden tg b s)"
  by (erule bans_hold_cong) simp_all

lemma banned_now_lift: "banned_now (set_lifted i s) tg \<longleftrightarrow>
     (\<exists>x \<in> set (standing s tg). mo_id x \<noteq> i \<and> mo_action x = MoBan)"
  unfolding banned_now_def Bex_def standing_lift by blast

lemma fresh_action:
  assumes "bans_hold s" and "mo_id a = seq s"
    and "\<And>u. u \<in> set (users s) \<Longrightarrow> mo_action a = MoBan \<Longrightarrow> mo_target a = user_target (u_id u) \<Longrightarrow> \<not> u_active u"
  shows "bans_hold (s\<lparr> mod_actions := mod_actions s @ [a], seq := Suc (seq s) \<rparr>)"
proof -
  let ?t = "s\<lparr> mod_actions := mod_actions s @ [a], seq := Suc (seq s) \<rparr>"
  have ban: "banned_now ?t tg \<Longrightarrow> banned_now s tg \<or> mo_action a = MoBan \<and> mo_target a = tg" for tg
    by (auto simp: banned_now_def standing_def split: if_splits)
  show ?thesis
    unfolding bans_hold_def
  proof (intro conjI ballI impI)
    fix u assume "u \<in> set (users ?t)" "banned_now ?t (user_target (u_id u))"
    with ban [of "user_target (u_id u)"] assms(1,3) show "\<not> u_active u" by (auto simp: bans_hold_def)
  qed (use assms(1,2) in \<open>auto simp: bans_hold_def\<close>)
qed

text \<open>
  In \<open>take_action\<close> the row of the action is written first, so the invariant is restored by the
  deactivation that follows: the two steps commute.
\<close>

lemma enforce_commutes:
  "set_active i b (s\<lparr> mod_actions := xs, seq := n \<rparr>) = (set_active i b s)\<lparr> mod_actions := xs, seq := n \<rparr>"
  by (simp add: set_active_def)

lemma enforce_bans:
  assumes "bans_hold s" and "mo_id a = seq s" "mo_action a = k" "mo_target a = t"
  shows "bans_hold (enforce t k (s\<lparr> mod_actions := mod_actions s @ [a], seq := Suc (seq s) \<rparr>))"
proof (cases "k = MoBan \<and> fst t = ''accounts.user''")
  case True
  let ?d = "set_active (snd t) False s"
  have "bans_hold ?d" by (rule bans_hold_active [OF assms(1)]) simp
  moreover have "\<not> u_active u" if "u \<in> set (users ?d)" "mo_target a = user_target (u_id u)" for u
  proof -
    have i: "u_id u = snd t" using that(2) assms(4) by (simp add: user_target_def)
    have "u \<in> (\<lambda>v. if u_id v = snd t then v\<lparr> u_active := False \<rparr> else v) ` set (users s)"
      using that(1) by (simp add: set_active_def set_update_rows)
    then obtain v where "u = (if u_id v = snd t then v\<lparr> u_active := False \<rparr> else v)" by blast
    with i show ?thesis by (cases "u_id v = snd t") simp_all
  qed
  ultimately have "bans_hold (?d\<lparr> mod_actions := mod_actions ?d @ [a], seq := Suc (seq ?d) \<rparr>)"
    by (intro fresh_action) (use assms(2) in simp_all)
  then have "bans_hold (set_active (snd t) False (s\<lparr> mod_actions := mod_actions s @ [a], seq := Suc (seq s) \<rparr>))"
    unfolding enforce_commutes by simp
  from bans_hold_rules(6) [OF this] show ?thesis
    using True by (simp add: enforce_def account_sanction_def Let_def)
next
  case False
  have "bans_hold (s\<lparr> mod_actions := mod_actions s @ [a], seq := Suc (seq s) \<rparr>)"
    by (rule fresh_action [OF assms(1,2)]) (use False assms(3,4) in \<open>auto simp: user_target_def\<close>)
  then show ?thesis
    using False by (auto simp: enforce_def Let_def intro!: bans_hold_active bans_hold_hidden)
qed

lemma close_report_bans: "bans_hold s \<Longrightarrow> bans_hold (close_report i m st s)"
  by (erule bans_hold_cong) (simp_all add: close_report_def)

lemma case_report_bans:
  "bans_hold s \<Longrightarrow> bans_hold (case rep of None \<Rightarrow> s | Some r \<Rightarrow> close_report (rp_id r) m st s)"
  "bans_hold s \<Longrightarrow> bans_hold (case rep of None \<Rightarrow> s | Some r \<Rightarrow> notify_reporter (rp_reporter r) ti b s)"
  by (simp_all add: close_report_bans bans_hold_rules split: option.split)

lemma take_action_bans: "bans_hold s \<Longrightarrow> bans_hold (snd (take_action m t k re notes rep ex s))"
  unfolding take_action_def Let_def snd_conv notify_statement_of_reasons_def
  by (intro bans_hold_rules case_report_bans enforce_bans) (simp_all add: mo_target_def)

lemma dismiss_bans: "bans_hold s \<Longrightarrow> bans_hold (dismiss_report m r res s)"
  unfolding dismiss_report_def Let_def
  by (intro bans_hold_rules) (erule bans_hold_cong; simp)

lemma lift_one_bans:
  assumes "bans_hold s"
  shows "bans_hold (snd (lift_one now i (n, s)))"
proof -
  have "bans_hold (notify_suspension_lifted tg (set_lifted i
      (record_audit e ac tg' d (set_active (u_id u) True s))))"
    if "\<not> banned_now s (user_target (u_id u))" for tg e ac tg' d u
    unfolding notify_suspension_lifted_def
    by (intro bans_hold_rules bans_hold_lift bans_hold_active [OF assms]) (use that in simp)
  moreover have "mo_target a = user_target (u_id u)"
    if "mo_target_type a = ''accounts.user''" "user_row s (mo_target_id a) = Some u" for a u
    using that by (auto simp: mo_target_def user_target_def dest: user_row_SomeD)
  ultimately have "bans_hold (notify_suspension_lifted (mo_target a) (set_lifted i
      (record_audit e ac (Some (mo_target a)) d (set_active (u_id u) True s))))"
    if "mo_target_type a = ''accounts.user''" "user_row s (mo_target_id a) = Some u"
      "\<not> banned_now s (mo_target a)" for a u e ac d
    using that by metis
  then show ?thesis
    using assms bans_hold_lift [OF assms]
    by (simp add: lift_one_def Let_def banned_now_def split: option.split)
qed

lemma lift_expired_bans: "bans_hold s \<Longrightarrow> bans_hold (snd (lift_expired_suspensions s))"
  unfolding lift_expired_suspensions_def
  by (rule fold_snd_keeps [of bans_hold]) (simp_all add: lift_one_bans)

lemma file_appeal_bans: "bans_hold s \<Longrightarrow> bans_hold (snd (file_appeal u a tx s))"
proof -
  assume inv: "bans_hold s"
  let ?s1 = "snd (allow_action u ''appeal'' 5 86400 s)"
  obtain c where "?s1 = s\<lparr> cache := c \<rparr>" using allow_action_eq by blast
  then have "bans_hold ?s1" "bans_hold (?s1\<lparr> appeals := xs, seq := Suc (seq ?s1) \<rparr>)" for xs
    by (auto intro: bans_hold_cong [OF inv])
  with inv show ?thesis
    by (simp add: file_appeal_def Let_def case_prod_beta bans_hold_rules)
qed

lemma mark_lifted_bans: "bans_hold s \<Longrightarrow> bans_hold (mark_lifted a s)"
  by (simp add: mark_lifted_def bans_hold_lift)

text \<open>After the reversed action is lifted, only the other standing bans count.\<close>

lemma reverse_account_bans:
  assumes inv: "bans_hold s" and u: "mo_target a = user_target (u_id u)"
    and a: "a \<in> set (mod_actions s)"
  shows "bans_hold (snd (reverse_account a u s))"
proof -
  let ?other = "\<exists>x \<in> set (filter (\<lambda>x. mo_id x \<noteq> mo_id a) (standing s (mo_target a))). mo_action x = MoBan"
  have "banned_now (mark_lifted a s) (user_target (u_id u)) \<Longrightarrow> ?other"
  proof -
    assume b: "banned_now (mark_lifted a s) (user_target (u_id u))"
    show ?other
    proof (cases "mo_lifted_at a = None")
      case True
      with b u show ?thesis by (auto simp: mark_lifted_def banned_now_lift)
    next
      case False
      with b obtain x where x: "x \<in> set (standing s (mo_target a))" "mo_action x = MoBan"
        using u by (auto simp: mark_lifted_def banned_now_def)
      moreover have "mo_id x \<noteq> mo_id a"
        using x(1) False unique_byD [of mo_id "mod_actions s" x a] inv a
        by (auto simp: standing_iff bans_hold_def)
      ultimately show ?thesis by auto
    qed
  qed
  then have "bans_hold (set_active (u_id u) True (mark_lifted a s))" if "\<not> ?other"
    by (intro bans_hold_active mark_lifted_bans inv) (use that in blast)
  then show ?thesis
    using mark_lifted_bans [OF inv, of a]
    by (auto simp: reverse_account_def Let_def intro!: bans_hold_rules)
qed

lemma reverse_action_bans:
  assumes inv: "bans_hold s" and a: "a \<in> set (mod_actions s)"
  shows "bans_hold (snd (reverse_action a s))"
proof -
  have "bans_hold (snd (reverse_account a u s))"
    if "mo_target_type a = ''accounts.user''" "user_row s (mo_target_id a) = Some u" for u
    by (rule reverse_account_bans [OF inv _ a])
      (use that in \<open>auto simp: mo_target_def user_target_def dest: user_row_SomeD\<close>)
  moreover have "bans_hold (snd (reverse_content a s))"
    using mark_lifted_bans [OF inv, of a]
    by (simp add: reverse_content_def Let_def bans_hold_hidden bans_hold_rules)
  ultimately show ?thesis
    using inv by (auto simp: reverse_action_def split: option.splits)
qed

lemma resolve_appeal_bans:
  assumes "bans_hold s"
  shows "bans_hold (snd (resolve_appeal m pid g notes s))"
proof -
  have "bans_hold (s\<lparr> appeals := xs \<rparr>)" for xs by (rule bans_hold_cong [OF assms]) simp_all
  then have rev: "bans_hold (snd (reverse_action a (s\<lparr> appeals := xs \<rparr>)))" "bans_hold (s\<lparr> appeals := xs \<rparr>)"
    if "List.find P (mod_actions s) = Some a" for a xs P
    using find_SomeD [OF that] by (auto intro: reverse_action_bans)
  have out: "bans_hold (notify_appeal_outcome a gr lh t)" if "bans_hold t" for a gr lh t
    using that by (simp add: notify_appeal_outcome_def bans_hold_rules)
  show ?thesis
    using assms rev
    by (auto simp: resolve_appeal_def Let_def case_prod_beta split: option.splits
        intro!: bans_hold_rules out)
qed

end
