(* ===== verification/Moderation_Service.thy ===== *)
theory Moderation_Service
  imports Moderation_Laws Guardianship_Service
begin

text \<open>
  Moderation as a service: its requests, each loading the rows it acts on, and the interpretation
  of the service interfaces on it. Two invariants: a banned account is inactive, and an action has
  at most one appeal, whose decision is final.
\<close>

section \<open>Requests\<close>

datatype mod_request =
    TakeAction id target mod_kind reason_code string "id option" "time option"
  | Dismiss id id string
  | LiftExpired
  | FileAppeal id id string
  | ResolveAppeal id id bool string
  | Refer id id reason_code authority "id option" string string

definition report_row :: "db \<Rightarrow> id \<Rightarrow> report option" where
  "report_row s i = List.find (\<lambda>r. rp_id r = i) (reports s)"

definition action_row :: "db \<Rightarrow> id \<Rightarrow> mod_action option" where
  "action_row s i = List.find (\<lambda>a. mo_id a = i) (mod_actions s)"

fun mod_exec :: "mod_request \<Rightarrow> db \<Rightarrow> db" where
  "mod_exec (TakeAction m t k re notes rep ex) s =
     (if target_exists s t
      then snd (take_action m t k re notes (Option.bind rep (report_row s)) ex s) else s)"
| "mod_exec (Dismiss m rid res) s =
     (case report_row s rid of None \<Rightarrow> s | Some r \<Rightarrow> dismiss_report m r res s)"
| "mod_exec LiftExpired s = snd (lift_expired_suspensions s)"
| "mod_exec (FileAppeal u aid tx) s =
     (case action_row s aid of None \<Rightarrow> s | Some a \<Rightarrow> snd (file_appeal u a tx s))"
| "mod_exec (ResolveAppeal m pid g notes) s = snd (resolve_appeal m pid g notes s)"
| "mod_exec (Refer m u re auth rep ref notes) s =
     with_member s u (\<lambda>u. snd (create_authority_referral m u re auth (Option.bind rep (report_row s)) ref notes s))"

lemma referral_bans: "bans_hold s \<Longrightarrow> bans_hold (snd (create_authority_referral m u re auth rep ref notes s))"
  by (erule bans_hold_cong) (simp_all add: create_authority_referral_def Let_def record_audit_def)

lemma mod_exec_bans: "bans_hold s \<Longrightarrow> bans_hold (mod_exec q s)"
  by (cases q)
    (auto simp: take_action_bans dismiss_bans lift_expired_bans file_appeal_bans resolve_appeal_bans
      referral_bans with_member_def split: option.split)

interpretation bans: service mod_exec bans_hold
  by unfold_locales (rule mod_exec_bans)

section \<open>Appeals\<close>

definition appeals_inv :: "db \<Rightarrow> bool" where
  "appeals_inv s \<longleftrightarrow> unique_by ap_id (appeals s) \<and> unique_by ap_action (appeals s) \<and>
     (\<forall>p \<in> set (appeals s). ap_id p < seq s)"

text \<open>A later state keeps every appeal, and leaves one that is decided as it is.\<close>

definition appeals_settle :: "db \<Rightarrow> db \<Rightarrow> bool" where
  "appeals_settle s t \<longleftrightarrow> (\<forall>p \<in> set (appeals s). \<exists>q \<in> set (appeals t).
     ap_id q = ap_id p \<and> ap_action q = ap_action p \<and> ap_statement q = ap_statement p \<and>
     (ap_status p \<noteq> ApPending \<longrightarrow> q = p))"

lemma settle_refl: "appeals_settle s s"
  by (auto simp: appeals_settle_def)

lemma settle_trans: "appeals_settle s t \<Longrightarrow> appeals_settle t w \<Longrightarrow> appeals_settle s w"
  unfolding appeals_settle_def by metis

lemma settle_same: "appeals t = appeals s \<Longrightarrow> appeals_settle s t"
  by (auto simp: appeals_settle_def)

lemma appeals_inv_same: "appeals_inv s \<Longrightarrow> appeals t = appeals s \<Longrightarrow> seq s \<le> seq t \<Longrightarrow> appeals_inv t"
  by (auto simp: appeals_inv_def intro: less_le_trans)

text \<open>Everything but the two operations on appeals leaves them alone.\<close>

definition appeals_kept :: "db \<Rightarrow> db \<Rightarrow> bool" where
  "appeals_kept s t \<longleftrightarrow> appeals t = appeals s \<and> seq s \<le> seq t"

lemma kept_trans: "appeals_kept s t \<Longrightarrow> appeals_kept t w \<Longrightarrow> appeals_kept s w"
  by (simp add: appeals_kept_def)

lemma same_kept: "same_rows s t \<Longrightarrow> appeals_kept s t"
  by (simp add: same_rows_def appeals_kept_def)

lemmas kept_steps = same_rows_rules [THEN same_kept]
  same_rows_rules(2-) [THEN same_kept, THEN kept_trans [rotated]]

lemma kept_updates: "appeals_kept s (set_active i b s)" "appeals_kept s (set_hidden t b s)"
  "appeals_kept s (set_lifted i s)" "appeals_kept s (close_report i m st s)"
  by (simp_all add: appeals_kept_def close_report_def)

lemmas kept_rules = kept_steps kept_updates kept_updates [THEN kept_trans [rotated]]

lemma enforce_kept: "appeals_kept s (enforce t k s)"
  by (simp add: enforce_def Let_def kept_rules)

lemma case_report_kept:
  "appeals_kept w s \<Longrightarrow> appeals_kept w (case rep of None \<Rightarrow> s | Some r \<Rightarrow> close_report (rp_id r) m st s)"
  "appeals_kept w s \<Longrightarrow> appeals_kept w (case rep of None \<Rightarrow> s | Some r \<Rightarrow> notify_reporter (rp_reporter r) ti b s)"
  by (auto split: option.split intro: kept_rules)

lemma take_action_kept: "appeals_kept s (snd (take_action m t k re notes rep ex s))"
proof -
  have "appeals_kept s (enforce t k (s\<lparr> mod_actions := xs, seq := Suc (seq s) \<rparr>))" for xs
    using enforce_kept by (rule kept_trans [rotated]) (simp add: appeals_kept_def)
  then show ?thesis
    unfolding take_action_def Let_def snd_conv notify_statement_of_reasons_def
    by (intro kept_rules case_report_kept)
qed

lemma dismiss_kept: "appeals_kept s (dismiss_report m r res s)"
  unfolding dismiss_report_def Let_def
  by (intro kept_rules) (simp add: appeals_kept_def)

lemma lift_one_kept:
  assumes "appeals_kept w s"
  shows "appeals_kept w (snd (lift_one now i (n, s)))"
proof -
  have "appeals_kept w (set_lifted i s)"
    "appeals_kept w (notify_suspension_lifted tg (set_lifted i (record_audit e a tg' d (set_active j b s))))"
    for tg e a tg' d j b
    unfolding notify_suspension_lifted_def by (intro kept_rules assms)+
  with assms show ?thesis by (simp add: lift_one_def Let_def split: option.split)
qed

lemma lift_expired_kept: "appeals_kept s (snd (lift_expired_suspensions s))"
  unfolding lift_expired_suspensions_def
  by (rule fold_snd_keeps [of "appeals_kept s"]) (simp_all add: lift_one_kept kept_rules)

lemma referral_kept: "appeals_kept s (snd (create_authority_referral m u re auth rep ref notes s))"
  by (simp add: appeals_kept_def create_authority_referral_def Let_def record_audit_def)

lemma mark_kept: "appeals_kept s (mark_lifted a s)"
  by (simp add: mark_lifted_def kept_rules)

lemma reverse_kept: "appeals_kept s (snd (reverse_action a s))"
proof -
  note m = mark_kept [of s a]
  have act: "appeals_kept s (set_active i True (mark_lifted a s))" for i
    by (rule kept_trans [OF m kept_updates(1)])
  have rel: "appeals_kept s (snd (release_identity_ban i None t))" if "appeals_kept s t" for i t
    using that by (rule kept_rules)
  have "appeals_kept s (snd (reverse_account a u s))" for u
    using m act rel by (simp add: reverse_account_def Let_def)
  moreover have "appeals_kept s (snd (reverse_content a s))"
    using m kept_trans [OF m kept_updates(2)] kept_rules
    by (simp add: reverse_content_def Let_def)
  ultimately show ?thesis by (simp add: reverse_action_def kept_rules(1) split: option.split)
qed

lemma outcome_kept: "appeals_kept w s \<Longrightarrow> appeals_kept w (notify_appeal_outcome a g l s)"
  by (auto simp: notify_appeal_outcome_def intro!: kept_rules)

lemma file_appeal_cases:
  obtains (refused) "appeals_kept s (snd (file_appeal u a tx s))"
  | (filed) p where "appeal_of s (mo_id a) = None" "ap_action p = mo_id a" "ap_status p = ApPending"
      "ap_id p = seq s" "appeals (snd (file_appeal u a tx s)) = appeals s @ [p]"
      "Suc (seq s) \<le> seq (snd (file_appeal u a tx s))"
proof (cases "fst (allow_action u ''appeal'' 5 86400 s) \<and> appeal_of s (mo_id a) = None")
  case False
  moreover obtain c where "snd (allow_action u ''appeal'' 5 86400 s) = s\<lparr> cache := c \<rparr>"
    using allow_action_eq by blast
  ultimately show thesis
    by (intro refused) (auto simp: file_appeal_def Let_def case_prod_beta appeals_kept_def)
next
  case True
  moreover obtain c where c: "snd (allow_action u ''appeal'' 5 86400 s) = s\<lparr> cache := c \<rparr>"
    using allow_action_eq by blast
  ultimately have new: "appeals (snd (file_appeal u a tx s)) = appeals s @ [\<lparr> ap_id = seq s, ap_action = mo_id a,
        ap_appellant = Some u, ap_statement = take 2000 (strip tx), ap_status = ApPending, ap_decided_by = None,
        ap_notes = [], ap_decided_at = None, ap_created_at = clock s \<rparr>] \<and>
      Suc (seq s) \<le> seq (snd (file_appeal u a tx s)) \<or> snd (file_appeal u a tx s) = s"
    using True by (simp add: file_appeal_def Let_def case_prod_beta record_audit_def)
  show thesis
  proof (cases "snd (file_appeal u a tx s) = s")
    case True
    then show thesis by (intro refused) (simp add: appeals_kept_def)
  next
    case False
    with new \<open>_ \<and> appeal_of s (mo_id a) = None\<close> show thesis by (intro filed) simp_all
  qed
qed

lemma appeal_of_None: "appeal_of s i = None \<longleftrightarrow> i \<notin> ap_action ` set (appeals s)"
  by (auto simp: appeal_of_def find_None_iff)

lemma file_appeal_settles:
  assumes "appeals_inv s"
  shows "appeals_inv (snd (file_appeal u a tx s)) \<and> appeals_settle s (snd (file_appeal u a tx s))"
proof (cases rule: file_appeal_cases [of s u a tx])
  case refused
  with assms show ?thesis by (auto simp: appeals_kept_def intro: appeals_inv_same settle_same)
next
  case (filed p)
  have "ap_id p \<notin> ap_id ` set (appeals s)" using assms filed(4) by (auto simp: appeals_inv_def)
  moreover have "ap_id r < seq (snd (file_appeal u a tx s))" if "r \<in> insert p (set (appeals s))" for r
    using that assms filed(4,6) by (auto simp: appeals_inv_def)
  ultimately have "appeals_inv (snd (file_appeal u a tx s))"
    using assms filed(1,2,5) by (simp add: appeals_inv_def appeal_of_None)
  moreover have "appeals_settle s (snd (file_appeal u a tx s))"
    unfolding appeals_settle_def filed(5) by auto
  ultimately show ?thesis by blast
qed

lemma resolve_appeal_cases:
  obtains (refused) "isl (fst (resolve_appeal m pid g notes s))" "snd (resolve_appeal m pid g notes s) = s"
  | (decided) p a r t where "List.find (\<lambda>p. ap_id p = pid) (appeals s) = Some p" "ap_status p = ApPending"
      "action_row s (ap_action p) = Some a" "resolve_appeal m pid g notes s = returned r t"
      "appeals_kept (s\<lparr> appeals := update_rows (\<lambda>x. ap_id x = pid) (\<lambda>x. x\<lparr> ap_status := (if g then ApOverturned
         else ApUpheld), ap_decided_by := Some m, ap_decided_at := Some (clock s), ap_notes := notes \<rparr>)
         (appeals s) \<rparr>) t"
proof (cases "\<exists>p a. List.find (\<lambda>p. ap_id p = pid) (appeals s) = Some p \<and> ap_status p = ApPending \<and>
    action_row s (ap_action p) = Some a")
  case True
  then obtain p a where p: "List.find (\<lambda>p. ap_id p = pid) (appeals s) = Some p" "ap_status p = ApPending"
      "action_row s (ap_action p) = Some a" by blast
  let ?s = "s\<lparr> appeals := update_rows (\<lambda>x. ap_id x = pid) (\<lambda>x. x\<lparr> ap_status := (if g then ApOverturned
    else ApUpheld), ap_decided_by := Some m, ap_decided_at := Some (clock s), ap_notes := notes \<rparr>) (appeals s) \<rparr>"
  obtain r t where rt: "resolve_appeal m pid g notes s = returned r t"
    using p by (simp add: resolve_appeal_def action_row_def Let_def case_prod_beta)
  have "appeals_kept ?s (snd (resolve_appeal m pid g notes s))"
    using p reverse_kept [of ?s a]
    by (auto simp: resolve_appeal_def action_row_def Let_def case_prod_beta intro!: kept_rules outcome_kept)
  with p rt show thesis by (intro decided) simp_all
next
  case False
  then show thesis
    by (intro refused)
      (auto simp: resolve_appeal_def action_row_def split: option.splits)
qed

lemma resolve_appeal_settles:
  assumes inv: "appeals_inv s"
  shows "appeals_inv (snd (resolve_appeal m pid g notes s)) \<and> appeals_settle s (snd (resolve_appeal m pid g notes s))"
proof (cases rule: resolve_appeal_cases [of m pid g "notes" s])
  case refused
  with inv show ?thesis by (simp add: settle_refl)
next
  case (decided p a r t)
  let ?f = "\<lambda>x. x\<lparr> ap_status := (if g then ApOverturned else ApUpheld), ap_decided_by := Some m,
    ap_decided_at := Some (clock s), ap_notes := notes \<rparr>"
  let ?as = "update_rows (\<lambda>x. ap_id x = pid) ?f (appeals s)"
  have t: "appeals t = ?as" "seq s \<le> seq t" using decided(5) by (simp_all add: appeals_kept_def)
  have p: "p \<in> set (appeals s)" "ap_id p = pid" using find_SomeD [OF decided(1)] by simp_all
  have q: "ap_status q = ApPending" if "q \<in> set (appeals s)" "ap_id q = pid" for q
    using unique_byD [of ap_id, OF _ that(1) p(1)] inv that(2) p(2) decided(2) by (auto simp: appeals_inv_def)
  have "appeals_inv t"
    using inv t by (auto simp: appeals_inv_def unique_by_update set_update_rows intro: less_le_trans)
  moreover have "\<exists>y \<in> set ?as. ap_id y = ap_id x \<and> ap_action y = ap_action x \<and> ap_statement y = ap_statement x \<and>
      (ap_status x \<noteq> ApPending \<longrightarrow> y = x)" if "x \<in> set (appeals s)" for x
  proof (cases "ap_id x = pid")
    case True
    with that q have "?f x \<in> set ?as" "ap_status x = ApPending"
      by (auto simp: set_update_rows image_iff intro: bexI [of _ x])
    then show ?thesis by (intro bexI [of _ "?f x"]) auto
  next
    case False
    with that have "x \<in> set ?as" by (auto simp: set_update_rows image_iff intro: bexI [of _ x])
    then show ?thesis by auto
  qed
  ultimately show ?thesis using decided(4) by (simp add: appeals_settle_def t(1))
qed

lemma mod_exec_settles: "appeals_inv s \<Longrightarrow> appeals_inv (mod_exec q s) \<and> appeals_settle s (mod_exec q s)"
proof -
  assume inv: "appeals_inv s"
  have k: "appeals_inv t \<and> appeals_settle s t" if "appeals_kept s t" for t
    using inv that by (auto simp: appeals_kept_def intro: appeals_inv_same settle_same)
  show ?thesis
    using inv settle_refl [of s]
    by (cases q)
      (simp_all add: k take_action_kept dismiss_kept lift_expired_kept referral_kept file_appeal_settles
        resolve_appeal_settles with_member_def split: option.split)
qed

interpretation settled: evolving mod_exec appeals_inv appeals_settle
  by unfold_locales (auto simp: mod_exec_settles settle_refl intro: settle_trans)

end
