(* ===== verification/Moderation_Properties.thy ===== *)
theory Moderation_Properties
  imports Moderation_Service Guardianship_Properties
begin

text \<open>
  The properties of moderation: a ban keeps an account out whatever is requested, an appeal is
  decided once, and what the nightly lifting of elapsed restrictions does exactly.
\<close>

section \<open>A sample docket\<close>

text \<open>The child of the sample family is banned; the ban is under appeal.\<close>

definition docket :: "id \<Rightarrow> mod_kind \<Rightarrow> time option \<Rightarrow> mod_action" where
  "docket i k ex = \<lparr> mo_id = i, mo_moderator = Some 1, mo_target_type = ''accounts.user'', mo_target_id = 2,
     mo_action = k, mo_reason = Spam, mo_notes = [], mo_report = None, mo_expires_at = ex,
     mo_lifted_at = None, mo_created_at = 0 \<rparr>"

definition sample_appeal :: appeal where
  "sample_appeal = \<lparr> ap_id = 62, ap_action = 60, ap_appellant = Some 2, ap_statement = ''why'',
     ap_status = ApPending, ap_decided_by = None, ap_notes = [], ap_decided_at = None, ap_created_at = 0 \<rparr>"

definition docket_db :: "mod_action list \<Rightarrow> db" where
  "docket_db as = family_db\<lparr> seq := 70, clock := 10,
     users := [sample_parent, sample_child\<lparr> u_active := False \<rparr>], mod_actions := as, appeals := [sample_appeal] \<rparr>"

lemmas docket_defs = docket_db_def docket_def sample_appeal_def sample_defs

lemma docket_bans: "bans_hold (docket_db [docket 60 MoBan None])"
  by (simp add: bans_hold_def banned_now_def standing_def unique_by_def user_target_def mo_target_def docket_defs)

lemma docket_appeals: "appeals_inv (docket_db as)"
  by (simp add: appeals_inv_def unique_by_def docket_defs)

section \<open>Bans\<close>

text \<open>
  C12: A ban holds: along every run of moderation requests (new actions, the nightly sweep, appeals
  and their reversals), an account with a ban that was not lifted is inactive, and the statement of
  reasons shown to it names a restriction.
\<close>

theorem ban_holds:
  assumes "bans_hold s" and "t = run_requests mod_exec qs s" and "u \<in> set (users t)"
    and "a \<in> set (mod_actions t)" and "mo_target a = user_target (u_id u)"
    and "mo_action a = MoBan" and "mo_lifted_at a = None"
  shows "\<not> u_active u \<and> restriction_statement_for t (u_id u) \<noteq> None"
proof -
  have "bans_hold t" using bans.run_inv [OF assms(1), of qs] assms(2) by simp
  then have "\<not> u_active u" using assms(3-7) by (auto simp: bans_hold_def banned_now_def standing_iff)
  moreover have "account_restriction_for t (u_id u) \<noteq> None"
    using assms(4-7) by (auto simp: account_restriction_for_def in_force_def account_sanction_def filter_empty_conv)
  ultimately show ?thesis by (auto simp: restriction_statement_for_def Let_def split: option.split)
qed

theorem ban_holds_witness:
  "let s = docket_db [docket 60 MoBan None]; t = run_requests mod_exec [LiftExpired] s in
     users t = users s \<and> \<not> u_active (sample_child\<lparr> u_active := False \<rparr>) \<and> restriction_statement_for t 2 \<noteq> None"
proof -
  let ?s = "docket_db [docket 60 MoBan None]"
  let ?t = "run_requests mod_exec [LiftExpired] ?s"
  have "filter (elapsed (clock ?s)) (mod_actions ?s) = []"
    by (simp add: elapsed_def timed_restriction_def docket_defs)
  then have t: "?t = ?s" by (simp add: lift_expired_suspensions_def)
  have "sample_child\<lparr> u_active := False \<rparr> \<in> set (users ?t)" "docket 60 MoBan None \<in> set (mod_actions ?t)"
    unfolding t by (simp_all add: docket_db_def)
  from ban_holds [OF docket_bans refl this] t show ?thesis
    by (simp add: Let_def mo_target_def user_target_def docket_def sample_child_def)
qed

section \<open>Appeals\<close>

text \<open>
  C13: One appeal, one decision: along every run an action has at most one appeal, every appeal
  stays, one that was decided stays as it was decided, and a second decision is refused and
  changes nothing.
\<close>

theorem appeal_decided_once:
  assumes "appeals_inv s" and "t = run_requests mod_exec qs s"
  shows "unique_by ap_action (appeals t) \<and>
    (\<forall>p \<in> set (appeals s). ap_status p \<noteq> ApPending \<longrightarrow> p \<in> set (appeals t)) \<and>
    (\<forall>p \<in> set (appeals t). ap_status p \<noteq> ApPending \<longrightarrow>
       resolve_appeal m (ap_id p) g reasons t = raised (AppealError ''This appeal has already been decided.'') t)"
proof -
  have inv: "appeals_inv t" using settled.run_inv [OF assms(1), of qs] assms(2) by simp
  have "appeals_settle s t" using settled.run_rel [OF assms(1), of qs] assms(2) by simp
  then have "\<forall>p \<in> set (appeals s). ap_status p \<noteq> ApPending \<longrightarrow> p \<in> set (appeals t)"
    unfolding appeals_settle_def by blast
  moreover have "List.find (\<lambda>x. ap_id x = ap_id p) (appeals t) = Some p" if "p \<in> set (appeals t)" for p
    by (rule unique_by_find) (use inv that in \<open>simp_all add: appeals_inv_def\<close>)
  ultimately show ?thesis
    using inv by (auto simp: appeals_inv_def resolve_appeal_def)
qed

theorem appeal_decided_once_witness:
  "let s = docket_db [docket 60 MoBan None]; t = run_requests mod_exec [ResolveAppeal 1 62 False []] s in
     unique_by ap_action (appeals t) \<and> (\<exists>p. appeals t = [p] \<and> ap_status p = ApUpheld \<and>
       resolve_appeal 1 62 True [] t = raised (AppealError ''This appeal has already been decided.'') t)"
proof -
  let ?s = "docket_db [docket 60 MoBan None]"
  let ?t = "run_requests mod_exec [ResolveAppeal 1 62 False []] ?s"
  let ?p = "sample_appeal\<lparr> ap_status := ApUpheld, ap_decided_by := Some 1, ap_decided_at := Some 10 \<rparr>"
  have r: "List.find (\<lambda>p. ap_id p = 62) (appeals ?s) = Some sample_appeal" "ap_status sample_appeal = ApPending"
    "action_row ?s (ap_action sample_appeal) = Some (docket 60 MoBan None)"
    by (simp_all add: docket_defs action_row_def)
  have "appeals ?t = update_rows (\<lambda>x. ap_id x = 62) (\<lambda>x. x\<lparr> ap_status := ApUpheld, ap_decided_by := Some 1,
      ap_decided_at := Some (clock ?s), ap_notes := [] \<rparr>) (appeals ?s)"
  proof (cases rule: resolve_appeal_cases [of 1 62 False "[]" ?s])
    case refused
    then show ?thesis using r by (simp add: resolve_appeal_def action_row_def Let_def case_prod_beta)
  next
    case (decided p a r t)
    then show ?thesis by (simp add: appeals_kept_def)
  qed
  then have "appeals ?t = [?p]" by (simp add: docket_db_def sample_appeal_def)
  moreover have "ap_status ?p = ApUpheld" "ap_id ?p = 62" by (simp_all add: sample_appeal_def)
  ultimately show ?thesis
    using appeal_decided_once [OF docket_appeals refl, of "[ResolveAppeal 1 62 False []]" "[docket 60 MoBan None]" 1 True "[]"]
    by (auto simp: Let_def)
qed

section \<open>The nightly sweep\<close>

lemma lift_expired_clock: "clock (snd (lift_expired_suspensions s)) = clock s"
proof -
  have "clock (snd (lift_one now i (n, w))) = clock w" for now i n w
    using notify_affected_same
    by (auto simp: lift_one_def Let_def notify_suspension_lifted_def same_rows_def record_audit_def split: option.split)
  then show ?thesis
    unfolding lift_expired_suspensions_def
    by (rule_tac fold_snd_keeps [of "\<lambda>w. clock w = clock s"]) auto
qed

text \<open>
  C14: What the nightly lifting does, exactly: the timed restrictions whose end has passed are
  marked as lifted and no other; the accounts made active are the inactive ones with such a
  restriction, without a standing ban or a suspension with a later end; the count is theirs; and a
  second pass at the same time finds nothing to do.
\<close>

theorem lift_sweep_exact:
  assumes "unique_by mo_id (mod_actions s)" and "unique_by u_id (users s)"
    and "lift_expired_suspensions s = (n, t)"
    and "revived = (\<lambda>u. \<not> u_active u \<and> \<not> banned_now s (user_target (u_id u)) \<and>
       \<not> suspended_until (clock s) s (user_target (u_id u)) \<and>
       (\<exists>a \<in> set (mod_actions s). elapsed (clock s) a \<and> mo_target a = user_target (u_id u)))"
  shows "mod_actions t = update_rows (elapsed (clock s)) (\<lambda>a. a\<lparr> mo_lifted_at := Some (clock s) \<rparr>) (mod_actions s) \<and>
    users t = update_rows revived (\<lambda>u. u\<lparr> u_active := True \<rparr>) (users s) \<and> n = count_rows revived (users s) \<and>
    lift_expired_suspensions t = (0, t)"
proof -
  note e = lift_expired_eq [OF assms]
  have c: "clock t = clock s" using lift_expired_clock [of s] assms(3) by simp
  have "filter (elapsed (clock t)) (mod_actions t) = []"
    using e by (auto simp: c filter_empty_conv set_update_rows elapsed_def lift_row_def)
  then have "lift_expired_suspensions t = (0, t)" by (simp add: lift_expired_suspensions_def)
  moreover have "lift_row (clock s) = (\<lambda>a. a\<lparr> mo_lifted_at := Some (clock s) \<rparr>)" "reactivate = (\<lambda>u. u\<lparr> u_active := True \<rparr>)"
    by (simp_all add: fun_eq_iff lift_row_def reactivate_def)
  ultimately show ?thesis using e by simp
qed

definition elapsed_db :: db where
  "elapsed_db = docket_db [docket 60 MoTimedBan (Some 5), docket 61 MoSuspend None]"

lemma elapsed_rows: "unique_by mo_id (mod_actions elapsed_db)" "unique_by u_id (users elapsed_db)"
  "clock elapsed_db = 10" "mod_actions elapsed_db = [docket 60 MoTimedBan (Some 5), docket 61 MoSuspend None]"
  "users elapsed_db = [sample_parent, sample_child\<lparr> u_active := False \<rparr>]"
  by (simp_all add: elapsed_db_def unique_by_def docket_defs)

theorem lift_sweep_exact_witness:
  "let t = snd (lift_expired_suspensions elapsed_db) in
     users t = [sample_parent, sample_child] \<and> fst (lift_expired_suspensions elapsed_db) = 1 \<and>
     map mo_lifted_at (mod_actions t) = [Some 10, None] \<and> lift_expired_suspensions t = (0, t)"
proof -
  obtain n t where f: "lift_expired_suspensions elapsed_db = (n, t)" by fastforce
  have el: "elapsed 10 (docket 60 MoTimedBan (Some 5))" "\<not> elapsed 10 (docket 61 MoSuspend None)"
    by (simp_all add: elapsed_def timed_restriction_def docket_def)
  have st: "\<not> banned_now elapsed_db tg" "\<not> suspended_until 10 elapsed_db tg" for tg
    by (auto simp: banned_now_def suspended_until_def standing_def elapsed_rows after_def docket_def)
  have "u_active sample_parent" "\<not> u_active (sample_child\<lparr> u_active := False \<rparr>)" "u_id (sample_child\<lparr> u_active := False \<rparr>) = 2"
    "(sample_child\<lparr> u_active := False \<rparr>)\<lparr> u_active := True \<rparr> = sample_child"
    "mo_target (docket 60 MoTimedBan (Some 5)) = user_target 2"
    by (simp_all add: sample_defs docket_def mo_target_def user_target_def)
  with lift_sweep_exact [OF elapsed_rows(1,2) f refl] el st f show ?thesis
    by (simp add: elapsed_rows Let_def) (simp add: docket_def)
qed

text \<open>
  A suspension without an end does not survive the sweep: when an earlier timed restriction of
  the same account elapses, the account is made active again although the open-ended suspension is
  still in force - the statement of reasons keeps showing a restriction to an active account.
\<close>

theorem open_suspension_lapses:
  assumes "unique_by mo_id (mod_actions s)" and "unique_by u_id (users s)"
    and "u \<in> set (users s)" and "\<not> u_active u"
    and "\<not> banned_now s (user_target (u_id u))" and "\<not> suspended_until (clock s) s (user_target (u_id u))"
    and "a \<in> set (mod_actions s)" and "elapsed (clock s) a" and "mo_target a = user_target (u_id u)"
    and "b \<in> set (mod_actions s)" and "mo_action b = MoSuspend" and "mo_expires_at b = None"
    and "mo_lifted_at b = None" and "mo_target b = user_target (u_id u)"
    and "lift_expired_suspensions s = (n, t)"
  shows "u\<lparr> u_active := True \<rparr> \<in> set (users t) \<and> b \<in> set (mod_actions t) \<and> in_force (clock t) b \<and>
    restriction_statement_for t (u_id u) \<noteq> None"
proof -
  note e = lift_expired_eq [OF assms(1,2,15) refl]
  have act: "u\<lparr> u_active := True \<rparr> \<in> set (users t)"
    using e assms(3-9) by (force simp: set_update_rows reactivate_def)
  have b: "b \<in> set (mod_actions t)"
    using e assms(10,12) by (force simp: set_update_rows elapsed_def)
  have f: "in_force (clock t) b" using assms(11-13) by (simp add: in_force_def account_sanction_def)
  have "account_restriction_for t (u_id u) \<noteq> None"
    using b f assms(14) by (auto simp: account_restriction_for_def filter_empty_conv)
  with act b f show ?thesis by (auto simp: restriction_statement_for_def Let_def split: option.split)
qed

theorem open_suspension_lapses_witness:
  "let t = snd (lift_expired_suspensions elapsed_db) in
     sample_child \<in> set (users t) \<and> u_active sample_child \<and> restriction_statement_for t 2 \<noteq> None"
proof -
  obtain n t where f: "lift_expired_suspensions elapsed_db = (n, t)" by fastforce
  let ?u = "sample_child\<lparr> u_active := False \<rparr>" and ?a = "docket 60 MoTimedBan (Some 5)" and ?b = "docket 61 MoSuspend None"
  have "?u\<lparr> u_active := True \<rparr> \<in> set (users t) \<and> ?b \<in> set (mod_actions t) \<and> in_force (clock t) ?b \<and>
      restriction_statement_for t (u_id ?u) \<noteq> None"
    by (rule open_suspension_lapses [OF elapsed_rows(1,2) _ _ _ _ _ _ _ _ _ _ _ _ f, where a = ?a])
      (simp_all add: elapsed_rows elapsed_def timed_restriction_def mo_target_def user_target_def
        banned_now_def suspended_until_def standing_def after_def docket_def sample_child_def)
  moreover have "?u\<lparr> u_active := True \<rparr> = sample_child" "u_active sample_child" "u_id ?u = 2"
    by (simp_all add: sample_child_def)
  ultimately show ?thesis using f by (simp add: Let_def)
qed

section \<open>An overturned ban\<close>

lemma reverse_account_rows: "mod_actions (snd (reverse_account a u s)) = mod_actions (mark_lifted a s)"
  using release_ban_same by (auto simp: reverse_account_def Let_def same_rows_def)

lemma mark_lifted_rows: "mod_actions (mark_lifted a s) =
   (if mo_lifted_at a = None
    then update_rows (\<lambda>x. mo_id x = mo_id a) (\<lambda>x. x\<lparr> mo_lifted_at := Some (clock s) \<rparr>) (mod_actions s)
    else mod_actions s)"
  by (simp add: mark_lifted_def set_lifted_def)

text \<open>
  An overturned ban is shown as active: when the appeal against a ban of an account is granted,
  the ban is no longer in force, but the user's own safety record still lists it as active.
\<close>

theorem overturned_ban_shown_active:
  assumes "List.find (\<lambda>p. ap_id p = pid) (appeals s) = Some p" and "ap_status p = ApPending"
    and "action_row s (ap_action p) = Some a" and "mo_action a = MoBan"
    and "mo_target a = user_target (u_id u)" and "user_row s (u_id u) = Some u"
    and "resolve_appeal m pid True reasons s = (r, t)"
  shows "\<exists>b \<in> set (mod_actions t). mo_id b = mo_id a \<and> mo_target b = user_target (u_id u) \<and>
    \<not> in_force (clock t) b \<and> dc_active (decision_of t b)"
proof -
  have a: "a \<in> set (mod_actions s)" using find_SomeD [OF assms(3) [unfolded action_row_def]] by simp
  let ?s = "s\<lparr> appeals := update_rows (\<lambda>x. ap_id x = pid) (\<lambda>x. x\<lparr> ap_status := ApOverturned, ap_decided_by := Some m,
    ap_decided_at := Some (clock s), ap_notes := reasons \<rparr>) (appeals s) \<rparr>"
  have tt: "mo_target_type a = ''accounts.user''" "mo_target_id a = u_id u"
    using assms(5) by (simp_all add: mo_target_def user_target_def)
  have ex: "target_exists ?s (mo_target a)" "user_row ?s (mo_target_id a) = Some u"
    using assms(5,6) tt by (simp_all add: target_exists_def user_target_def user_row_def)
  then have rev: "mod_actions (snd (reverse_action a ?s)) = mod_actions (mark_lifted a ?s)"
    using tt assms(4) by (simp add: reverse_action_def account_sanction_def reverse_account_rows)
  have "same_rows (snd (reverse_action a ?s)) t"
  proof -
    have out: "same_rows w (notify_appeal_outcome b g l w)" for w b g l
      by (simp add: notify_appeal_outcome_def notify_affected_same)
    have "\<exists>us g l e ac tg d. t = snd (alert_guardians_of_moderation us
        (notify_appeal_outcome a g l (record_audit e ac tg d (snd (reverse_action a ?s)))))"
      using assms(1-3,7) unfolding resolve_appeal_def action_row_def Let_def case_prod_beta
      by (simp del: ex_simps) blast
    then show ?thesis
      using same_rows_trans [OF audit_same same_rows_trans [OF out alert_same]] by blast
  qed
  then have m: "mod_actions t = mod_actions (mark_lifted a ?s)" by (simp add: same_rows_def rev)
  obtain b where "b \<in> set (mod_actions t)" "mo_id b = mo_id a" "mo_target b = mo_target a" "mo_action b = MoBan"
      "mo_lifted_at b \<noteq> None"
  proof (cases "mo_lifted_at a")
    case None
    with a m show thesis
      by (intro that [of "a\<lparr> mo_lifted_at := Some (clock s) \<rparr>"])
        (auto simp: mark_lifted_rows mo_target_def assms(4) intro: update_rows_memI)
  next
    case (Some x)
    with a m assms(4) show thesis by (intro that [of a]) (simp_all add: mark_lifted_rows)
  qed
  then show ?thesis
    using assms(5) by (intro bexI [of _ b]) (simp_all add: in_force_def decision_of_def Let_def account_sanction_def)
qed

theorem overturned_ban_shown_active_witness:
  "let t = snd (resolve_appeal 1 62 True [] (docket_db [docket 60 MoBan None])) in
     \<exists>b \<in> set (mod_actions t). mo_id b = 60 \<and> \<not> in_force (clock t) b \<and> dc_active (decision_of t b)"
proof -
  let ?s = "docket_db [docket 60 MoBan None]" and ?u = "sample_child\<lparr> u_active := False \<rparr>"
  obtain r t where f: "resolve_appeal 1 62 True [] ?s = (r, t)" by fastforce
  have "\<exists>b \<in> set (mod_actions t). mo_id b = mo_id (docket 60 MoBan None) \<and> mo_target b = user_target (u_id ?u) \<and>
      \<not> in_force (clock t) b \<and> dc_active (decision_of t b)"
    by (rule overturned_ban_shown_active [OF _ _ _ _ _ _ f, of sample_appeal])
      (simp_all add: action_row_def user_row_def mo_target_def user_target_def docket_defs)
  then show ?thesis using f by (auto simp: Let_def docket_def)
qed

end
