(* ===== verification/Venues.thy ===== *)
theory Venues
  imports Eligibility Standing_Groups
begin

text \<open>
  Where a meetup may take place: the public visibility of a place and the crowd's closure reports
  (apps/places/services.py), the venues approved for children, and the category ancestry of an
  activity type (apps/taxonomy/services.py).
\<close>

section \<open>Closure reports\<close>

definition recent_closures :: "db \<Rightarrow> id \<Rightarrow> closure_report list" where
  "recent_closures s p = filter (\<lambda>r. cr_place r = p \<and>
     clock s - seconds (st_closure_decay (conf s)) \<le> cr_created_at r) (closure_reports s)"

definition place_is_closed :: "db \<Rightarrow> id \<Rightarrow> bool" where
  "place_is_closed s p \<longleftrightarrow> st_closure_threshold (conf s) \<le> length (recent_closures s p)"

text \<open>The closed set groups the reports, so a place without one is not in it.\<close>

definition closed_place :: "db \<Rightarrow> id \<Rightarrow> bool" where
  "closed_place s p \<longleftrightarrow> recent_closures s p \<noteq> [] \<and> st_closure_threshold (conf s) \<le> length (recent_closures s p)"

datatype places_error = PlacesNotEligible string

definition file_closure_report :: "user \<Rightarrow> id \<Rightarrow> db \<Rightarrow> (places_error, closure_report option, db) outcome" where
  "file_closure_report u p s =
     (if \<not> can_participate s u
      then raised (PlacesNotEligible ''Verified, consented participation is required to report a closed venue.'') s
      else let (ok, s1) = allow_action (u_id u) ''place_closure_report''
             (st_closure_limit (conf s)) (st_closure_window (conf s)) s
        in if \<not> ok then returned None s1
           else if \<exists>r \<in> set (recent_closures s1 p). cr_user r = u_id u then returned None s1
           else let r = \<lparr> cr_id = seq s1, cr_place = p, cr_user = u_id u, cr_created_at = clock s1 \<rparr>
             in returned (Some r) (s1\<lparr> closure_reports := closure_reports s1 @ [r], seq := Suc (seq s1) \<rparr>))"

definition clear_closure_reports :: "id \<Rightarrow> id option \<Rightarrow> db \<Rightarrow> nat \<times> db" where
  "clear_closure_reports p moderator s =
     (let n = count_rows (\<lambda>r. cr_place r = p) (closure_reports s);
          s1 = s\<lparr> closure_reports := filter (\<lambda>r. cr_place r \<noteq> p) (closure_reports s) \<rparr>
      in (n, case moderator of None \<Rightarrow> s1
           | Some m \<Rightarrow> record_audit ''place.closure_reports_cleared'' (Some m) (Some (''places.place'', p)) [] s1))"

section \<open>Public places\<close>

definition proposal_of_place :: "db \<Rightarrow> id \<Rightarrow> proposal option" where
  "proposal_of_place s p = List.find (\<lambda>x. pp_place x = p) (proposals s)"

definition publicly_visible :: "db \<Rightarrow> place \<Rightarrow> bool" where
  "publicly_visible s p \<longleftrightarrow>
     (pl_source p \<noteq> UserSubmitted \<or>
      (case proposal_of_place s (pl_id p) of None \<Rightarrow> False | Some x \<Rightarrow> pp_status x = PrPublished)) \<and>
     \<not> closed_place s (pl_id p)"

definition public_places :: "db \<Rightarrow> place list" where
  "public_places s = filter (publicly_visible s) (places s)"

definition place_row :: "db \<Rightarrow> id \<Rightarrow> place option" where
  "place_row s i = List.find (\<lambda>p. pl_id p = i) (places s)"

definition is_public_place :: "db \<Rightarrow> id \<Rightarrow> bool" where
  "is_public_place s i \<longleftrightarrow> (\<exists>p \<in> set (public_places s). pl_id p = i)"

definition own_pending_place :: "db \<Rightarrow> id \<Rightarrow> id \<Rightarrow> bool" where
  "own_pending_place s owner p \<longleftrightarrow>
     (\<exists>x \<in> set (proposals s). pp_place x = p \<and> pp_proposer x = owner \<and> pp_status x = PrPending)"

section \<open>Venues for children\<close>

definition tag_of :: "place \<Rightarrow> string \<Rightarrow> json option" where
  "tag_of p k = map_of (pl_tags p) k"

text \<open>
  A criterion whose value is \<open>None\<close> matches a missing tag as well as one that is \<open>None\<close>.
\<close>

definition tag_is :: "place \<Rightarrow> string \<times> json \<Rightarrow> bool" where
  "tag_is p c = (case c of (k, v) \<Rightarrow> (case tag_of p k of None \<Rightarrow> JNull | Some x \<Rightarrow> x) = v)"

definition overture_categories_of :: "place \<Rightarrow> json list" where
  "overture_categories_of p =
     filter (\<lambda>j. j \<noteq> JNull)
       ((case tag_of p ''overture:category'' of None \<Rightarrow> [] | Some c \<Rightarrow> [c]) @
        (case tag_of p ''overture:alternate'' of Some (JList xs) \<Rightarrow> xs | _ \<Rightarrow> []))"

definition class_allows :: "place \<Rightarrow> venue_class \<Rightarrow> bool" where
  "class_allows p c =
     (case pl_source p of
        Overture \<Rightarrow> \<exists>j \<in> set (overture_categories_of p). \<exists>x \<in> set (vc_overture c). j = JStr x
      | Osm \<Rightarrow> vc_osm_match c \<noteq> [] \<and> (\<forall>m \<in> set (vc_osm_match c). tag_is p m)
      | UserSubmitted \<Rightarrow> vc_osm_match c \<noteq> [] \<and> (\<forall>m \<in> set (vc_osm_match c). tag_is p m)
      | _ \<Rightarrow> False)"

definition staff_approved :: "db \<Rightarrow> place \<Rightarrow> bool" where
  "staff_approved s p \<longleftrightarrow> pl_id p \<in> set (approved_venues s)"

datatype child_venue = VenueAllowed | VenueUnknown

definition public_child_venue_class :: "db \<Rightarrow> place option \<Rightarrow> child_venue" where
  "public_child_venue_class s po =
     (case po of None \<Rightarrow> VenueUnknown
      | Some p \<Rightarrow>
          if staff_approved s p then VenueAllowed
          else if \<exists>c \<in> set (venue_classes s). vc_active c \<and> class_allows p c then VenueAllowed
          else VenueUnknown)"

definition is_child_safe_venue :: "db \<Rightarrow> place option \<Rightarrow> bool" where
  "is_child_safe_venue s po \<longleftrightarrow> public_child_venue_class s po = VenueAllowed"

definition child_venue_rationale :: "db \<Rightarrow> place option \<Rightarrow> string option" where
  "child_venue_rationale s po =
     (if \<not> is_child_safe_venue s po then None
      else if (case po of None \<Rightarrow> False | Some p \<Rightarrow> staff_approved s p) then Some ''staff_verified''
      else Some ''rule_match'')"

section \<open>Categories\<close>

definition category_row :: "db \<Rightarrow> id \<Rightarrow> category option" where
  "category_row s i = List.find (\<lambda>c. ct_id c = i) (categories s)"

text \<open>The walk to the root, at most sixteen steps, so a cyclic parent chain ends too.\<close>

fun ancestry :: "db \<Rightarrow> nat \<Rightarrow> id option \<Rightarrow> string list" where
  "ancestry s 0 c = []"
| "ancestry s (Suc n) None = []"
| "ancestry s (Suc n) (Some i) =
     (case category_row s i of None \<Rightarrow> [] | Some c \<Rightarrow> ct_slug c # ancestry s n (ct_parent c))"

definition category_ancestry_slugs :: "db \<Rightarrow> activity_type \<Rightarrow> string list" where
  "category_ancestry_slugs s ty = ancestry s 16 (Some (ty_category ty))"

definition type_row :: "db \<Rightarrow> id \<Rightarrow> activity_type option" where
  "type_row s i = List.find (\<lambda>t. ty_id t = i) (activity_types s)"

section \<open>One person cannot close a place\<close>

text \<open>Two reports of one person on one place are more than the decay window apart.\<close>

definition closures_apart :: "db \<Rightarrow> bool" where
  "closures_apart s \<longleftrightarrow> unique_by cr_id (closure_reports s) \<and>
     (\<forall>r \<in> set (closure_reports s). cr_id r < seq s \<and> cr_created_at r \<le> clock s) \<and>
     (\<forall>r \<in> set (closure_reports s). \<forall>t \<in> set (closure_reports s).
        cr_place r = cr_place t \<and> cr_user r = cr_user t \<and> cr_created_at r \<le> cr_created_at t \<and> r \<noteq> t \<longrightarrow>
        cr_created_at r + seconds (st_closure_decay (conf s)) < cr_created_at t)"

datatype closure_request = ReportClosed id id | ClearClosed id "id option" | Pass time

fun closure_exec :: "closure_request \<Rightarrow> db \<Rightarrow> db" where
  "closure_exec (ReportClosed u p) s =
     (case user_row s u of None \<Rightarrow> s | Some u \<Rightarrow> snd (file_closure_report u p s))"
| "closure_exec (ClearClosed p m) s = snd (clear_closure_reports p m s)"
| "closure_exec (Pass d) s = s\<lparr> clock := max (clock s) (clock s + d) \<rparr>"

lemma closures_apart_cong: "closures_apart s \<Longrightarrow> closure_reports t = closure_reports s \<Longrightarrow> conf t = conf s \<Longrightarrow>
   seq s \<le> seq t \<Longrightarrow> clock s \<le> clock t \<Longrightarrow> closures_apart t"
  unfolding closures_apart_def by (auto intro: less_le_trans order_trans)

lemma report_apart:
  assumes inv: "closures_apart s"
  shows "closures_apart (snd (file_closure_report u p s))"
proof -
  obtain c where s1: "snd (allow_action (u_id u) ''place_closure_report'' (st_closure_limit (conf s))
      (st_closure_window (conf s)) s) = s\<lparr> cache := c \<rparr>"
    using allow_action_eq by blast
  have keep: "closures_apart (s\<lparr> cache := c \<rparr>)" by (rule closures_apart_cong [OF inv]) simp_all
  let ?r = "\<lparr> cr_id = seq s, cr_place = p, cr_user = u_id u, cr_created_at = clock s \<rparr>"
  have "closures_apart (s\<lparr> cache := c, closure_reports := closure_reports s @ [?r], seq := Suc (seq s) \<rparr>)"
    if none: "\<forall>r \<in> set (recent_closures (s\<lparr> cache := c \<rparr>) p). cr_user r \<noteq> u_id u"
  proof -
    have far: "cr_created_at r + seconds (st_closure_decay (conf s)) < clock s"
      if "r \<in> set (closure_reports s)" "cr_place r = p" "cr_user r = u_id u" for r
      using none that by (auto simp: recent_closures_def)
    have "cr_id r \<noteq> seq s" "cr_created_at r \<le> clock s" if "r \<in> set (closure_reports s)" for r
      using inv that by (auto simp: closures_apart_def)
    note le = this
    have "clock s + seconds (st_closure_decay (conf s)) < cr_created_at t"
      if "t \<in> set (closure_reports s)" "cr_place t = p" "cr_user t = u_id u" "clock s \<le> cr_created_at t" for t
      using far [OF that(1-3)] le(2) [OF that(1)] that(4) by linarith
    with le show ?thesis
      using inv far by (auto simp: closures_apart_def less_Suc_eq image_iff)
  qed
  with keep inv s1 show ?thesis
    by (auto simp: file_closure_report_def Let_def case_prod_beta)
qed

lemma clear_apart: "closures_apart s \<Longrightarrow> closures_apart (snd (clear_closure_reports p m s))"
  by (auto simp: closures_apart_def clear_closure_reports_def Let_def record_audit_def unique_by_filter
      split: option.split)

lemma closure_exec_apart: "closures_apart s \<Longrightarrow> closures_apart (closure_exec q s)"
  by (cases q)
    (auto simp: report_apart clear_apart split: option.split intro: closures_apart_cong)

interpretation closures: service closure_exec closures_apart
  by unfold_locales (rule closure_exec_apart)

lemma recent_distinct:
  assumes inv: "closures_apart s"
  shows "distinct (map cr_user (recent_closures s p))"
proof -
  have d: "distinct (closure_reports s)"
    using inv by (simp add: closures_apart_def unique_by_def distinct_map)
  have "r = t" if "r \<in> set (recent_closures s p)" "t \<in> set (recent_closures s p)" "cr_user r = cr_user t" for r t
  proof (rule ccontr)
    assume "r \<noteq> t"
    have "r \<in> set (closure_reports s)" "t \<in> set (closure_reports s)" "cr_place r = cr_place t"
      "clock s - seconds (st_closure_decay (conf s)) \<le> cr_created_at r"
      "clock s - seconds (st_closure_decay (conf s)) \<le> cr_created_at t"
      using that by (auto simp: recent_closures_def)
    moreover from this inv have "cr_created_at r \<le> clock s" "cr_created_at t \<le> clock s"
      by (auto simp: closures_apart_def)
    moreover have "cr_created_at a + seconds (st_closure_decay (conf s)) < cr_created_at b"
      if "a \<in> set (closure_reports s)" "b \<in> set (closure_reports s)" "cr_place a = cr_place b" "cr_user a = cr_user b"
        "a \<noteq> b" "cr_created_at a \<le> cr_created_at b" for a b
      using inv that unfolding closures_apart_def by blast
    ultimately show False
      using \<open>r \<noteq> t\<close> that(3) by (cases "cr_created_at r \<le> cr_created_at t") fastforce+
  qed
  then show ?thesis
    using d by (auto simp: distinct_map inj_on_def recent_closures_def)
qed

end
