(* ===== verification/Activities.thy ===== *)
theory Activities
  imports Venues Guardrails Moderation
begin

text \<open>
  Activities (apps/social/services.py): who sees one, who holds a place in one, the gate a join
  passes, the guardian's preview of that gate, and the creation of an activity.
\<close>

section \<open>Discovery\<close>

definition visible_activities :: "db \<Rightarrow> user \<Rightarrow> activity list" where
  "visible_activities s v =
     (if \<not> has_cohort v then []
      else filter (\<lambda>a. ac_cohort a = u_cohort v \<and> \<not> ac_hidden a \<and>
             ac_owner a \<notin> blocked_user_ids s (u_id v)) (activities s))"

definition can_see_activity :: "user \<Rightarrow> activity \<Rightarrow> bool" where
  "can_see_activity v a \<longleftrightarrow> has_cohort v \<and> u_cohort v = ac_cohort a"

definition public_activities :: "db \<Rightarrow> activity list" where
  "public_activities s = sort_key ac_starts_at (filter (\<lambda>a. ac_cohort a = Adult \<and> ac_publicly_listed a \<and>
     ac_status a = AOpen \<and> \<not> ac_hidden a \<and> clock s \<le> ac_starts_at a \<and> is_active_user s (ac_owner a))
     (activities s))"

definition set_activity :: "id \<Rightarrow> (activity \<Rightarrow> activity) \<Rightarrow> db \<Rightarrow> db" where
  "set_activity i f s = s\<lparr> activities := update_rows (\<lambda>a. ac_id a = i) f (activities s) \<rparr>"

definition set_activity_listing :: "user \<Rightarrow> activity \<Rightarrow> bool \<Rightarrow> db \<Rightarrow> (social_error, unit, db) outcome" where
  "set_activity_listing owner a listed s =
     (if ac_owner a \<noteq> u_id owner then raised (NotAMember ''Only the organiser may change this.'') s
      else if ac_cohort a \<noteq> Adult
      then raised (InvalidState ''Only adult activities and groups can be listed publicly.'') s
      else returned () (record_audit ''activity.public_listing'' (Some (u_id owner))
             (Some (activity_target (ac_id a))) [(''listed'', JBool listed)]
             (set_activity (ac_id a) (\<lambda>x. x\<lparr> ac_publicly_listed := listed \<rparr>) s)))"

section \<open>Members\<close>

definition current_members :: "db \<Rightarrow> id \<Rightarrow> membership list" where
  "current_members s a = filter (\<lambda>m. mb_activity m = a \<and> mb_state m = SMember) (memberships s)"

definition visible_roster :: "db \<Rightarrow> id \<Rightarrow> id \<Rightarrow> membership list" where
  "visible_roster s v a = filter (\<lambda>m. mb_user m \<notin> blocked_user_ids s v) (current_members s a)"

definition voting_members :: "db \<Rightarrow> id \<Rightarrow> membership list" where
  "voting_members s a = filter (\<lambda>m. mb_role m \<noteq> MGuardian) (current_members s a)"

definition member_row :: "membership list \<Rightarrow> id \<Rightarrow> membership option" where
  "member_row ms u = List.find (\<lambda>m. mb_user m = u) ms"

definition is_organizer :: "db \<Rightarrow> id \<Rightarrow> activity \<Rightarrow> bool" where
  "is_organizer s u a \<longleftrightarrow> ac_owner a = u \<or>
     (\<exists>m \<in> set (current_members s (ac_id a)). mb_user m = u \<and> mb_role m = MCoOrganizer)"

definition participant_count :: "db \<Rightarrow> id \<Rightarrow> nat" where
  "participant_count s a = length (voting_members s a)"

definition open_positions :: "db \<Rightarrow> activity \<Rightarrow> nat option" where
  "open_positions s a = map_option (\<lambda>c. c - participant_count s (ac_id a)) (ac_capacity a)"

definition full :: "db \<Rightarrow> activity \<Rightarrow> bool" where
  "full s a \<longleftrightarrow> (case ac_capacity a of None \<Rightarrow> False | Some c \<Rightarrow> c \<le> participant_count s (ac_id a))"

definition taking_part :: "db \<Rightarrow> id \<Rightarrow> id \<Rightarrow> bool" where
  "taking_part s u a \<longleftrightarrow> (\<exists>m \<in> set (memberships s). mb_activity m = a \<and> mb_user m = u \<and> mb_state m \<noteq> SRemoved)"

section \<open>Progression\<close>

definition self_confirmed_meetup_count :: "db \<Rightarrow> id \<Rightarrow> nat" where
  "self_confirmed_meetup_count s u =
     count_rows (\<lambda>m. mb_user m = u \<and> mb_state m = SMember \<and> mb_met_at m \<noteq> None) (memberships s)"

definition progression_thresholds :: "nat list" where
  "progression_thresholds = [1, 3, 6, 12, 24]"

definition progression_level :: "nat \<Rightarrow> nat" where
  "progression_level n = count_rows (\<lambda>t. t \<le> n) progression_thresholds"

definition progression_intensity :: "nat \<Rightarrow> rat" where
  "progression_intensity n = of_nat (progression_level n) / of_nat (length progression_thresholds)"

definition progression_summary :: "db \<Rightarrow> id \<Rightarrow> nat \<times> nat \<times> nat" where
  "progression_summary s u =
     (let n = self_confirmed_meetup_count s u in (n, progression_level n, length progression_thresholds))"

section \<open>The join gate\<close>

definition venue_ok_for_child :: "db \<Rightarrow> activity \<Rightarrow> bool" where
  "venue_ok_for_child s a = is_child_safe_venue s (place_row s (ac_place a))"

definition type_ancestry :: "db \<Rightarrow> id \<Rightarrow> string list" where
  "type_ancestry s i = (case type_row s i of None \<Rightarrow> [] | Some t \<Rightarrow> category_ancestry_slugs s t)"

definition open_joins :: "db \<Rightarrow> id \<Rightarrow> nat" where
  "open_joins s u = count_rows (\<lambda>m. mb_user m = u \<and> mb_state m \<noteq> SRemoved \<and>
     (case activity_row s (mb_activity m) of None \<Rightarrow> False | Some a \<Rightarrow> ac_status a = AOpen)) (memberships s)"

definition facts_of :: "db \<Rightarrow> id \<Rightarrow> activity \<Rightarrow> meetup_facts" where
  "facts_of s u a = \<lparr> mf_accompanied = ac_guardian_accompanied a,
     mf_hour = local_hour (lib s) (ac_starts_at a), mf_weekday = local_isoweekday (lib s) (ac_starts_at a),
     mf_categories = type_ancestry s (ac_type a), mf_open_joins = open_joins s u \<rparr>"

definition passes_guardrails :: "db \<Rightarrow> id \<Rightarrow> activity \<Rightarrow> bool" where
  "passes_guardrails s u a = passes_limits (effective_guardrail s u) (facts_of s u a)"

definition can_join :: "db \<Rightarrow> user \<Rightarrow> activity \<Rightarrow> bool" where
  "can_join s u a =
     (if \<not> can_participate s u then False
      else if u_cohort u \<noteq> ac_cohort a then False
      else if ac_status a \<noteq> AOpen then False
      else if full s a then False
      else if taking_part s (u_id u) (ac_id a) then False
      else if ac_cohort a = Child \<and> st_child_public_only (conf s) \<and> \<not> venue_ok_for_child s a then False
      else if u_cohort u = Child \<and> \<not> passes_guardrails s (u_id u) a then False
      else True)"

text \<open>
  The guardian's preview: of the next fifty visible meetups, without those already joined or full,
  how many the ward could join.
\<close>

definition preview_candidates :: "db \<Rightarrow> user \<Rightarrow> nat \<Rightarrow> activity list" where
  "preview_candidates s w limit =
     filter (\<lambda>a. \<not> taking_part s (u_id w) (ac_id a) \<and> \<not> full s a)
       (take limit (sort_key ac_starts_at
         (filter (\<lambda>a. ac_status a = AOpen \<and> clock s \<le> ac_starts_at a) (visible_activities s w))))"

definition preview_eligible :: "db \<Rightarrow> user \<Rightarrow> activity \<Rightarrow> bool" where
  "preview_eligible s w a \<longleftrightarrow> can_participate s w \<and>
     (st_child_public_only (conf s) \<longrightarrow> venue_ok_for_child s a) \<and> passes_guardrails s (u_id w) a"

definition guardrail_preview :: "db \<Rightarrow> user \<Rightarrow> nat \<Rightarrow> (nat \<times> nat) option" where
  "guardrail_preview s w limit =
     (if u_cohort w \<noteq> Child then None
      else let cs = preview_candidates s w limit
        in Some (count_rows (preview_eligible s w) cs, length cs))"

definition category_envelope_allows :: "db \<Rightarrow> user \<Rightarrow> activity_type \<Rightarrow> bool" where
  "category_envelope_allows s u t =
     (if u_cohort u \<noteq> Child then True
      else case effective_guardrail s (u_id u) of
        None \<Rightarrow> True
      | Some l \<Rightarrow> type_in_category_envelope (li_categories l) (category_ancestry_slugs s t))"

section \<open>Creation\<close>

definition guardian_forbids :: social_error where
  "guardian_forbids = InvalidState (quoted ''Your guardian''
     (quoted ''s settings don'' ''t allow this kind of activity yet.''))"

fun clean_secondary :: "db \<Rightarrow> user \<Rightarrow> activity_type \<Rightarrow> activity_type list \<Rightarrow> activity_type list \<Rightarrow>
    social_error + activity_type list" where
  "clean_secondary s u t cleaned [] = Inr cleaned"
| "clean_secondary s u t cleaned (x # xs) =
     (if ty_id x = ty_id t \<or> ty_id x \<in> ty_id ` set cleaned then clean_secondary s u t cleaned xs
      else if \<not> ty_active x then Inl (InvalidState (quoted ''That activity type isn'' ''t available.''))
      else if \<not> category_envelope_allows s u x then Inl guardian_forbids
      else clean_secondary s u t (cleaned @ [x]) xs)"

definition max_secondary_types :: nat where
  "max_secondary_types = 2"

definition validated_secondary_types ::
  "db \<Rightarrow> user \<Rightarrow> activity_type \<Rightarrow> activity_type list \<Rightarrow> social_error + activity_type list" where
  "validated_secondary_types s u t xs =
     (case clean_secondary s u t [] xs of
        Inl e \<Rightarrow> Inl e
      | Inr ys \<Rightarrow> if max_secondary_types < length ys
                  then Inl (InvalidState ''Pick at most 2 extra activity types.'') else Inr ys)"

record activity_input =
  ai_place :: "place option"
  ai_type :: activity_type
  ai_title :: string
  ai_starts_at :: time
  ai_ends_at :: "time option"
  ai_description :: string
  ai_join_threshold :: "rat option"
  ai_capacity :: "nat option"
  ai_min_to_go :: "nat option"
  ai_accompanied :: bool
  ai_supervised :: bool
  ai_meeting_point :: string
  ai_what_to_bring :: string
  ai_organizer_note :: string
  ai_first_time_note :: string
  ai_secondary :: "activity_type list"
  ai_cost_band :: cost_band
  ai_cost_amount :: "int option"
  ai_cost_note :: string
  ai_difficulty :: difficulty
  ai_accessibility :: string
  ai_beginners :: bool

definition default_join_threshold :: rat where
  "default_join_threshold = 2 / 3"

definition priced :: "cost_band \<Rightarrow> bool" where
  "priced b \<longleftrightarrow> b = CostLow \<or> b = CostPaid"

definition exceeds :: "nat option \<Rightarrow> nat option \<Rightarrow> bool" where
  "exceeds m c \<longleftrightarrow> (case (m, c) of (Some x, Some y) \<Rightarrow> y < x | _ \<Rightarrow> False)"

definition ends_early :: "time \<Rightarrow> time option \<Rightarrow> bool" where
  "ends_early start e \<longleftrightarrow> (case e of None \<Rightarrow> False | Some x \<Rightarrow> x < start)"

definition min_over_capacity :: social_error where
  "min_over_capacity = InvalidState (quoted ''Minimum to happen can'' ''t be more than the capacity.'')"

definition place_unavailable :: social_error where
  "place_unavailable = InvalidState (quoted ''That place isn'' ''t available to organise an activity at yet.'')"

definition venue_not_approved :: social_error where
  "venue_not_approved = InvalidState (quoted ''This venue isn'' (quoted ''t on the approved list for children''
     (''s activities yet. Pick a library, park, school, sports or community venue - or ask a moderator to '' @
      ''approve this place.'')))"

text \<open>A place may be used when it is public, or is the adult organiser's own pending proposal.\<close>

definition place_allowed :: "db \<Rightarrow> user \<Rightarrow> cohort \<Rightarrow> bool \<Rightarrow> place option \<Rightarrow> bool" where
  "place_allowed s owner c accompanied po =
     (case po of
        None \<Rightarrow> False
      | Some p \<Rightarrow> is_public_place s (pl_id p) \<or>
          c = Adult \<and> \<not> accompanied \<and> own_pending_place s (u_id owner) (pl_id p))"

definition new_activity :: "user \<Rightarrow> activity_input \<Rightarrow> place \<Rightarrow> bool \<Rightarrow> db \<Rightarrow> activity" where
  "new_activity owner ai p accompanied s = \<lparr> ac_id = seq s, ac_owner = u_id owner, ac_place = pl_id p,
     ac_type = ty_id (ai_type ai), ac_secondary = [], ac_title = ai_title ai,
     ac_description = ai_description ai, ac_meeting_point = ai_meeting_point ai,
     ac_what_to_bring = ai_what_to_bring ai, ac_organizer_note = ai_organizer_note ai,
     ac_first_time_note = ai_first_time_note ai, ac_cost_band = ai_cost_band ai,
     ac_cost_amount = ai_cost_amount ai, ac_cost_note = ai_cost_note ai,
     ac_difficulty = ai_difficulty ai, ac_accessibility = ai_accessibility ai,
     ac_starts_at = ai_starts_at ai, ac_ends_at = ai_ends_at ai, ac_cohort = u_cohort owner,
     ac_join_threshold = (case ai_join_threshold ai of None \<Rightarrow> default_join_threshold | Some x \<Rightarrow> x),
     ac_owner_can_override = True, ac_capacity = ai_capacity ai, ac_min_to_go = ai_min_to_go ai,
     ac_go_confirmed_at = None, ac_guardian_accompanied = accompanied, ac_supervised = ai_supervised ai,
     ac_beginners_welcome = ai_beginners ai, ac_status = AOpen, ac_hidden = False,
     ac_publicly_listed = False, ac_series = None \<rparr>"

definition new_membership :: "id \<Rightarrow> id \<Rightarrow> id \<Rightarrow> mem_role \<Rightarrow> mem_state \<Rightarrow> time option \<Rightarrow> membership" where
  "new_membership i a u r st decided = \<lparr> mb_id = i, mb_activity = a, mb_user = u, mb_role = r,
     mb_state = st, mb_intent = IntentUnknown, mb_arrived_at = None, mb_transit = TransitNone,
     mb_departing_at = None, mb_met_at = None, mb_welcomed_at = None, mb_support_person = False,
     mb_decided_at = decided \<rparr>"

definition insert_activity :: "activity \<Rightarrow> db \<Rightarrow> db" where
  "insert_activity a s = s\<lparr> activities := activities s @ [a],
     memberships := memberships s @
       [new_membership (Suc (seq s)) (ac_id a) (ac_owner a) MOwner SMember (Some (clock s))],
     threads := threads s @ [\<lparr> th_id = Suc (Suc (seq s)), th_activity = Some (ac_id a), th_group = None \<rparr>],
     seq := seq s + 3 \<rparr>"

definition create_activity :: "user \<Rightarrow> activity_input \<Rightarrow> db \<Rightarrow> (social_error, activity, db) outcome" where
  "create_activity owner ai s =
     (let accompanied = ai_accompanied ai \<or> ai_supervised ai in
      if \<not> (can_participate s owner \<and> has_cohort owner)
      then raised (NotEligible ''User cannot create activities (needs verification/consent + a cohort).'') s
      else if ai_supervised ai \<and> u_cohort owner \<noteq> Child
      then raised (InvalidState (quoted ''Only children'' ''s activities can require a supervising guardian.'')) s
      else if accompanied \<and> u_cohort owner \<noteq> Child
      then raised (InvalidState (quoted ''Only children'' ''s activities can be guardian-accompanied.'')) s
      else if exceeds (ai_min_to_go ai) (ai_capacity ai) then raised min_over_capacity s
      else if ends_early (ai_starts_at ai) (ai_ends_at ai)
      then raised (InvalidState ''End time cannot be before the start time.'') s
      else if ai_cost_amount ai \<noteq> None \<and> \<not> priced (ai_cost_band ai)
      then raised (InvalidState ''A cost amount only makes sense for a low-cost or paid meetup.'') s
      else if \<not> place_allowed s owner (u_cohort owner) accompanied (ai_place ai)
      then raised place_unavailable s
      else if u_cohort owner = Child \<and> st_child_public_only (conf s) \<and> \<not> is_child_safe_venue s (ai_place ai)
      then raised venue_not_approved s
      else if \<not> category_envelope_allows s owner (ai_type ai) then raised guardian_forbids s
      else case ai_place ai of
          None \<Rightarrow> raised place_unavailable s
        | Some p \<Rightarrow>
            (case validated_secondary_types s owner (ai_type ai) (ai_secondary ai) of
               Inl e \<Rightarrow> raised e s
             | Inr extra \<Rightarrow>
                 let a = (new_activity owner ai p accompanied s)\<lparr> ac_secondary := map ty_id extra \<rparr>
                 in returned a (insert_activity a s)))"

section \<open>The organiser's facts about quorum and attendance\<close>

definition going_count :: "db \<Rightarrow> id \<Rightarrow> nat" where
  "going_count s a = count_rows (\<lambda>m. mb_intent m = Going) (voting_members s a)"

record attendance =
  at_going :: nat
  at_total :: nat
  at_min_to_go :: "nat option"
  at_met_minimum :: "bool option"
  at_remaining :: "nat option"

definition attendance_summary :: "db \<Rightarrow> activity \<Rightarrow> attendance" where
  "attendance_summary s a =
     (let going = going_count s (ac_id a);
          need = (if ac_status a = AOpen then ac_min_to_go a else None)
      in \<lparr> at_going = going, at_total = length (voting_members s (ac_id a)), at_min_to_go = need,
           at_met_minimum = map_option (\<lambda>n. n \<le> going) need,
           at_remaining = map_option (\<lambda>n. n - going) need \<rparr>)"

definition quorum_locked_without_meeting_point :: "activity \<Rightarrow> attendance \<Rightarrow> bool" where
  "quorum_locked_without_meeting_point a sm \<longleftrightarrow>
     at_met_minimum sm = Some True \<and> strip (ac_meeting_point a) = []"

definition met_confirmation_summary :: "db \<Rightarrow> id \<Rightarrow> nat \<times> nat" where
  "met_confirmation_summary s a =
     (count_rows (\<lambda>m. mb_met_at m \<noteq> None) (voting_members s a), length (voting_members s a))"

end
