(* ===== verification/Admission.thy ===== *)
theory Admission
  imports Activities
begin

text \<open>
  Joining an activity (apps/social/services.py): the request, the vote of the members, the
  organiser's override, the supervising guardian without whom a supervised children's activity
  admits nobody, leaving, and the roles of co-organiser and owner. A message quotes a title in
  ASCII quotation marks.
\<close>

definition in_quotes :: "string \<Rightarrow> string" where
  "in_quotes x = CHR 0x22 # x @ [CHR 0x22]"

definition activity_api_url :: "id \<Rightarrow> string" where
  "activity_api_url i = ''/api/social/activities/'' @ nat_str i @ ''/''"

definition activity_page_url :: "id \<Rightarrow> string" where
  "activity_page_url i = ''/activities/'' @ nat_str i @ ''/''"

definition set_membership :: "id \<Rightarrow> (membership \<Rightarrow> membership) \<Rightarrow> db \<Rightarrow> db" where
  "set_membership i f s = s\<lparr> memberships := update_rows (\<lambda>m. mb_id m = i) f (memberships s) \<rparr>"

section \<open>Requests\<close>

text \<open>The table has one row per activity and user, whatever its state: a second one is refused.\<close>

definition has_membership_row :: "db \<Rightarrow> id \<Rightarrow> id \<Rightarrow> bool" where
  "has_membership_row s a u \<longleftrightarrow> (\<exists>m \<in> set (memberships s). mb_activity m = a \<and> mb_user m = u)"

definition insert_membership :: "membership \<Rightarrow> db \<Rightarrow> db" where
  "insert_membership m s = s\<lparr> memberships := memberships s @ [m], seq := Suc (seq s) \<rparr>"

definition request_to_join :: "user \<Rightarrow> activity \<Rightarrow> db \<Rightarrow> (social_error, membership, db) outcome" where
  "request_to_join u a s =
     (if \<not> can_join s u a then raised (NotEligible ''User is not eligible to join this activity.'') s
      else if has_membership_row s (ac_id a) (u_id u) then raised social_error.IntegrityError s
      else let m = new_membership (seq s) (ac_id a) (u_id u) MMember SRequested None
        in returned m (snd (notify (ac_owner a) JoinRequested ''New join request''
             (display_or_username u @ '' asked to join '' @ in_quotes (ac_title a) @ ''.'') (activity_api_url (ac_id a))
             (insert_membership m s))))"

definition cleared :: "membership \<Rightarrow> membership" where
  "cleared m = m\<lparr> mb_state := SRemoved, mb_intent := IntentUnknown, mb_met_at := None,
     mb_transit := TransitNone, mb_departing_at := None, mb_support_person := False \<rparr>"

definition leave_activity :: "id \<Rightarrow> id \<Rightarrow> db \<Rightarrow> (social_error, id option, db) outcome" where
  "leave_activity u a s =
     (case List.find (\<lambda>m. mb_activity m = a \<and> mb_user m = u) (memberships s) of
        None \<Rightarrow> returned None s
      | Some m \<Rightarrow>
          if mb_state m = SRemoved then returned None s
          else if mb_role m = MOwner
          then raised (InvalidState ''The owner cannot leave their own activity.'') s
          else returned (Some (mb_id m)) (set_membership (mb_id m) cleared s))"

definition support_companions_allowed_cohorts :: "db \<Rightarrow> cohort set" where
  "support_companions_allowed_cohorts s = set (st_companion_cohorts (conf s)) - {Unassigned}"

definition set_support_companion :: "user \<Rightarrow> id \<Rightarrow> bool \<Rightarrow> db \<Rightarrow> (social_error, id, db) outcome" where
  "set_support_companion u a brings s =
     (case member_row (voting_members s a) (u_id u) of
        None \<Rightarrow> raised (NotAMember ''Only current members can set this.'') s
      | Some m \<Rightarrow>
          if \<not> can_participate s u
          then raised (NotEligible ''This requires verified, consented participation.'') s
          else if u_cohort u \<notin> support_companions_allowed_cohorts s
          then raised (NotEligible (quoted ''Bringing a support person isn'' ''t available for this group yet.'')) s
          else if mb_support_person m = brings then returned (mb_id m) s
          else returned (mb_id m) (set_membership (mb_id m) (\<lambda>x. x\<lparr> mb_support_person := brings \<rparr>) s))"

section \<open>Supervision\<close>

definition active_supervisor_present :: "db \<Rightarrow> activity \<Rightarrow> bool" where
  "active_supervisor_present s a \<longleftrightarrow> (\<exists>m \<in> set (current_members s (ac_id a)).
     mb_role m = MGuardian \<and> is_guardian_of s (mb_user m) (ac_owner a))"

definition supervision_satisfied :: "db \<Rightarrow> activity \<Rightarrow> bool" where
  "supervision_satisfied s a \<longleftrightarrow> (if \<not> ac_supervised a then True else active_supervisor_present s a)"

section \<open>Admission\<close>

definition is_genuinely_new :: "db \<Rightarrow> membership \<Rightarrow> bool" where
  "is_genuinely_new s m \<longleftrightarrow>
     \<not> (\<exists>x \<in> set (memberships s). mb_user x = mb_user m \<and> mb_state x = SMember \<and> mb_id x \<noteq> mb_id m)"

definition admit :: "activity \<Rightarrow> membership \<Rightarrow> db \<Rightarrow> db" where
  "admit a m s =
     (if \<not> supervision_satisfied s a then s
      else let new = (mb_welcomed_at m = None \<and> is_genuinely_new s m);
               s1 = set_membership (mb_id m) (\<lambda>x. x\<lparr> mb_state := SMember, mb_decided_at := Some (clock s),
                      mb_welcomed_at := (if new then Some (clock s) else mb_welcomed_at x) \<rparr>) s
        in snd (notify (mb_user m) JoinApproved (quoted ''You'' ''re in!'')
             (''You were admitted to '' @ in_quotes (ac_title a) @ ''.'' @
              (if new then '' New here? Say a quick hello in the thread and check the meetup logistics - '' @
                           ''the group is glad you joined.'' else []))
             (activity_api_url (ac_id a)) s1))"

definition approvals :: "db \<Rightarrow> id \<Rightarrow> nat" where
  "approvals s m = count_rows (\<lambda>v. jv_membership v = m \<and> jv_approve v) (join_votes s)"

definition vote_threshold_met :: "db \<Rightarrow> activity \<Rightarrow> membership \<Rightarrow> bool" where
  "vote_threshold_met s a m =
     (let n = length (voting_members s (ac_id a))
      in if n = 0 then False else ac_join_threshold a \<le> of_nat (approvals s (mb_id m)) / of_nat n)"

definition evaluate_vote :: "activity \<Rightarrow> membership \<Rightarrow> db \<Rightarrow> db" where
  "evaluate_vote a m s = (if vote_threshold_met s a m then admit a m s else s)"

definition requested_rows :: "db \<Rightarrow> id \<Rightarrow> membership list" where
  "requested_rows s a = filter (\<lambda>m. mb_activity m = a \<and> mb_state m = SRequested) (memberships s)"

definition settle_pending_joins :: "activity \<Rightarrow> db \<Rightarrow> db" where
  "settle_pending_joins a s = fold (evaluate_vote a) (requested_rows s (ac_id a)) s"

definition join_stuck_on_supervision :: "db \<Rightarrow> activity \<Rightarrow> bool" where
  "join_stuck_on_supervision s a \<longleftrightarrow>
     (if \<not> ac_supervised a \<or> supervision_satisfied s a then False
      else \<exists>m \<in> set (requested_rows s (ac_id a)). vote_threshold_met s a m)"

definition put_vote :: "id \<Rightarrow> id \<Rightarrow> bool \<Rightarrow> db \<Rightarrow> db" where
  "put_vote m voter approve s =
     (if \<exists>v \<in> set (join_votes s). jv_membership v = m \<and> jv_voter v = voter
      then s\<lparr> join_votes := update_rows (\<lambda>v. jv_membership v = m \<and> jv_voter v = voter)
                (\<lambda>v. v\<lparr> jv_approve := approve \<rparr>) (join_votes s) \<rparr>
      else s\<lparr> join_votes := join_votes s @
                [\<lparr> jv_id = seq s, jv_membership = m, jv_voter = voter, jv_approve = approve \<rparr>],
              seq := Suc (seq s) \<rparr>)"

definition cast_vote :: "id \<Rightarrow> activity \<Rightarrow> membership \<Rightarrow> bool \<Rightarrow> db \<Rightarrow> (social_error, unit, db) outcome" where
  "cast_vote voter a m approve s =
     (if mb_state m \<noteq> SRequested
      then raised (InvalidState ''This membership is not awaiting a join vote.'') s
      else if mb_user m = voter
      then raised (InvalidState ''A requester cannot vote on their own join request.'') s
      else if member_row (voting_members s (ac_id a)) voter = None
      then raised (NotAMember ''Only current members may vote on join requests.'') s
      else returned () (evaluate_vote a m (put_vote (mb_id m) voter approve s)))"

definition owner_admit :: "id \<Rightarrow> activity \<Rightarrow> membership \<Rightarrow> db \<Rightarrow> (social_error, unit, db) outcome" where
  "owner_admit owner a m s =
     (if \<not> is_organizer s owner a
      then raised (NotAMember ''Only the activity organiser may override.'') s
      else if \<not> ac_owner_can_override a
      then raised (InvalidState ''Owner override is disabled for this activity.'') s
      else if mb_state m \<noteq> SRequested
      then raised (InvalidState ''This membership is not awaiting a join vote.'') s
      else if \<not> supervision_satisfied s a
      then raised (InvalidState (quoted ''Add your guardian as this activity''
             ''s supervisor before admitting members.'')) s
      else returned () (admit a m s))"

section \<open>The supervising guardian\<close>

definition add_guardian :: "user \<Rightarrow> activity \<Rightarrow> user \<Rightarrow> db \<Rightarrow> (social_error, unit, db) outcome" where
  "add_guardian owner a g s =
     (if ac_owner a \<noteq> u_id owner
      then raised (NotAMember ''Only the activity owner may add a guardian.'') s
      else if \<not> ac_guardian_accompanied a \<or> ac_cohort a \<noteq> Child
      then raised (InvalidState ''This activity does not allow accompanying guardians.'') s
      else if u_cohort g \<noteq> Adult \<or> \<not> can_participate s g
      then raised (NotEligible ''A guardian must be a verified adult.'') s
      else if \<not> is_guardian_of s (u_id g) (u_id owner)
      then raised (NotEligible ''This adult is not a registered guardian of the activity owner.'') s
      else if taking_part s (u_id g) (ac_id a) then returned () s
      else if has_membership_row s (ac_id a) (u_id g) then raised social_error.IntegrityError s
      else let s1 = insert_membership (new_membership (seq s) (ac_id a) (u_id g) MGuardian SMember (Some (clock s))) s
        in returned () (if ac_supervised a then settle_pending_joins a s1 else s1))"

definition set_activity_supervision :: "user \<Rightarrow> activity \<Rightarrow> bool \<Rightarrow> db \<Rightarrow> (social_error, unit, db) outcome" where
  "set_activity_supervision owner a supervised s =
     (if ac_owner a \<noteq> u_id owner
      then raised (NotAMember ''Only the activity owner may change supervision.'') s
      else if ac_status a \<noteq> AOpen
      then raised (InvalidState (quoted ''Only an open activity'' ''s supervision can be changed.'')) s
      else if supervised \<and> ac_cohort a \<noteq> Child
      then raised (InvalidState (quoted ''Only children'' ''s activities can require a supervising guardian.'')) s
      else let f = (\<lambda>x. x\<lparr> ac_supervised := supervised,
                     ac_guardian_accompanied := (supervised \<or> ac_guardian_accompanied x) \<rparr>);
               s1 = record_audit ''activity.supervision_set'' (Some (u_id owner))
                      (Some (activity_target (ac_id a))) [(''supervised'', JBool supervised)]
                      (set_activity (ac_id a) f s)
        in returned () (settle_pending_joins (f a) s1))"

section \<open>Organisers\<close>

definition coorg_eligible :: "db \<Rightarrow> activity \<Rightarrow> user \<Rightarrow> membership option" where
  "coorg_eligible s a u =
     (if u_id u = ac_owner a then None
      else if u_cohort u \<noteq> ac_cohort a \<or> \<not> can_participate s u then None
      else member_row (voting_members s (ac_id a)) (u_id u))"

definition set_role :: "mem_role \<Rightarrow> membership \<Rightarrow> membership" where
  "set_role r m = m\<lparr> mb_role := r \<rparr>"

definition grant_co_organizer :: "user \<Rightarrow> activity \<Rightarrow> user \<Rightarrow> db \<Rightarrow> (social_error, id, db) outcome" where
  "grant_co_organizer owner a u s =
     (if ac_owner a \<noteq> u_id owner
      then raised (NotAMember ''Only the activity owner may grant co-organiser rights.'') s
      else if ac_cohort a \<noteq> Adult
      then raised (InvalidState ''Co-organisers are only available on adult activities.'') s
      else case coorg_eligible s a u of
          None \<Rightarrow> raised (NotAMember ''A co-organiser must be a current member of this activity.'') s
        | Some m \<Rightarrow>
            if mb_role m = MCoOrganizer then returned (mb_id m) s
            else returned (mb_id m) (snd (notify (u_id u) OrganizerRole (quoted ''You'' ''re now a co-organiser'')
                   (''You can now help run '' @ in_quotes (ac_title a) @
                    '' - edit details, admit members, and post announcements.'') (activity_page_url (ac_id a))
                   (record_audit ''activity.co_organizer_granted'' (Some (u_id owner))
                      (Some (activity_target (ac_id a))) [(''member_ref'', JInt (int (u_id u)))]
                      (set_membership (mb_id m) (set_role MCoOrganizer) s)))))"

definition revoke_co_organizer :: "user \<Rightarrow> activity \<Rightarrow> user \<Rightarrow> db \<Rightarrow> (social_error, id, db) outcome" where
  "revoke_co_organizer owner a u s =
     (if ac_owner a \<noteq> u_id owner
      then raised (NotAMember ''Only the activity owner may change co-organiser rights.'') s
      else case List.find (\<lambda>m. mb_user m = u_id u \<and> mb_role m = MCoOrganizer) (current_members s (ac_id a)) of
          None \<Rightarrow> raised (NotAMember ''That member is not a co-organiser.'') s
        | Some m \<Rightarrow> returned (mb_id m) (snd (notify (u_id u) OrganizerRole ''Your co-organiser role was removed''
                   (quoted ''You'' ''re still a member of '' @ in_quotes (ac_title a) @ ''.'') (activity_page_url (ac_id a))
                   (record_audit ''activity.co_organizer_revoked'' (Some (u_id owner))
                      (Some (activity_target (ac_id a))) [(''member_ref'', JInt (int (u_id u)))]
                      (set_membership (mb_id m) (set_role MMember) s)))))"

definition transfer_ownership :: "user \<Rightarrow> activity \<Rightarrow> user \<Rightarrow> db \<Rightarrow> (social_error, unit, db) outcome" where
  "transfer_ownership owner a u s =
     (if ac_owner a \<noteq> u_id owner
      then raised (NotAMember ''Only the current organiser may hand off the activity.'') s
      else if ac_cohort a \<noteq> Adult
      then raised (InvalidState ''Ownership hand-off is only available on adult activities.'') s
      else case coorg_eligible s a u of
          None \<Rightarrow> raised (NotAMember ''You can only hand off to a current member of this activity.'') s
        | Some m \<Rightarrow>
            let old = List.find (\<lambda>x. mb_user x = u_id owner \<and> mb_role x = MOwner) (current_members s (ac_id a));
                s1 = set_membership (mb_id m) (set_role MOwner)
                       (set_activity (ac_id a) (\<lambda>x. x\<lparr> ac_owner := u_id u \<rparr>) s);
                s2 = (case old of None \<Rightarrow> s1 | Some x \<Rightarrow> set_membership (mb_id x) (set_role MMember) s1);
                s3 = record_audit ''activity.ownership_transferred'' (Some (u_id owner))
                       (Some (activity_target (ac_id a))) [(''new_owner_ref'', JInt (int (u_id u)))] s2
            in returned () (snd (notify (u_id u) OrganizerRole (quoted ''You'' ''re now the organiser'')
                 (in_quotes (ac_title a) @ '' was handed over to you - you can now fully manage it.'')
                 (activity_page_url (ac_id a)) s3)))"

end
