(* ===== verification/Meetups.thy ===== *)
theory Meetups
  imports Admission Accounts
begin

text \<open>
  Running a meetup (apps/social/services.py): cancelling, completing, editing and moving it, the
  RSVP and the one-shot notice that it is on, the confirmation that it happened, and the ephemeral
  signals of arrival, transit and departure with their clearing (expire_arrivals.py).
\<close>

section \<open>Telling the members\<close>

definition notify_members :: "membership list \<Rightarrow> kind \<Rightarrow> string \<Rightarrow> string \<Rightarrow> string \<Rightarrow> db \<Rightarrow> db" where
  "notify_members ms k title body url s = snd (notify_each (map mb_user ms) k title body url s)"

definition others :: "id \<Rightarrow> membership list \<Rightarrow> membership list" where
  "others u ms = filter (\<lambda>m. mb_user m \<noteq> u) ms"

definition cancel_activity :: "id \<Rightarrow> activity \<Rightarrow> string \<Rightarrow> db \<Rightarrow> (social_error, unit, db) outcome" where
  "cancel_activity owner a reason s =
     (if \<not> is_organizer s owner a then raised (NotAMember ''Only the activity organiser may cancel it.'') s
      else if ac_status a \<noteq> AOpen then raised (InvalidState ''Only an open activity can be cancelled.'') s
      else let why = take 200 (strip reason);
               body = in_quotes (ac_title a) @ '' was cancelled by the organiser.'' @ (if why = [] then [] else '' '' @ why);
               s1 = set_activity (ac_id a) (\<lambda>x. x\<lparr> ac_status := ACancelled \<rparr>) s;
               s2 = notify_members (others owner (current_members s1 (ac_id a))) ActivityCancelled
                      ''An activity was cancelled'' body (activity_api_url (ac_id a)) s1
        in returned () (record_audit ''activity.cancelled'' (Some owner) (Some (activity_target (ac_id a)))
             [(''reason'', JStr why)] s2))"

definition complete_activity :: "activity \<Rightarrow> db \<Rightarrow> db" where
  "complete_activity a s =
     (if ac_status a \<noteq> AOpen then s else set_activity (ac_id a) (\<lambda>x. x\<lparr> ac_status := ACompleted \<rparr>) s)"

section \<open>The quorum\<close>

definition notify_meetup_confirmed :: "activity \<Rightarrow> db \<Rightarrow> db" where
  "notify_meetup_confirmed a s =
     notify_members (filter (\<lambda>m. mb_user m \<notin> blocked_user_ids s (ac_owner a)) (current_members s (ac_id a)))
       MeetupConfirmed ''A meetup is on''
       (in_quotes (ac_title a) @ quoted '' has enough people going - it'' ''s happening.'')
       (activity_api_url (ac_id a)) s"

definition maybe_confirm_meetup :: "id \<Rightarrow> db \<Rightarrow> db" where
  "maybe_confirm_meetup i s =
     (case activity_row s i of
        None \<Rightarrow> s
      | Some a \<Rightarrow>
          (case ac_min_to_go a of
             None \<Rightarrow> s
           | Some n \<Rightarrow>
               if ac_go_confirmed_at a \<noteq> None \<or> ac_status a \<noteq> AOpen \<or> going_count s i < n then s
               else notify_meetup_confirmed a
                      (set_activity i (\<lambda>x. x\<lparr> ac_go_confirmed_at := Some (clock s) \<rparr>) s)))"

definition set_attendance_intent :: "id \<Rightarrow> id \<Rightarrow> intent \<Rightarrow> db \<Rightarrow> (social_error, id, db) outcome" where
  "set_attendance_intent u a i s =
     (case member_row (current_members s a) u of
        None \<Rightarrow> raised (NotAMember ''Only current members can RSVP.'') s
      | Some m \<Rightarrow> returned (mb_id m)
          (maybe_confirm_meetup a (set_membership (mb_id m) (\<lambda>x. x\<lparr> mb_intent := i \<rparr>) s)))"

definition set_met_confirmed :: "id \<Rightarrow> activity \<Rightarrow> bool \<Rightarrow> db \<Rightarrow> (social_error, id, db) outcome" where
  "set_met_confirmed u a confirmed s =
     (case member_row (current_members s (ac_id a)) u of
        None \<Rightarrow> raised (NotAMember ''Only current members can confirm a meetup.'') s
      | Some m \<Rightarrow>
          if mb_role m = MGuardian
          then raised (NotEligible ''Guardians accompany activities as read-only supervisors.'') s
          else if ac_status a \<noteq> ACompleted
          then raised (InvalidState ''You can only confirm a meetup after it has finished.'') s
          else if confirmed \<and> mb_met_at m \<noteq> None then returned (mb_id m) s
          else returned (mb_id m) (set_membership (mb_id m)
                 (\<lambda>x. x\<lparr> mb_met_at := (if confirmed then Some (clock s) else None) \<rparr>) s))"

section \<open>Editing\<close>

text \<open>
  What an edit may change. A field is \<open>None\<close> when the edit does not name it; a nullable field
  is an option of its own.
\<close>

record activity_changes =
  ch_title :: "string option"
  ch_description :: "string option"
  ch_starts_at :: "time option"
  ch_ends_at :: "time option option"
  ch_capacity :: "nat option option"
  ch_min_to_go :: "nat option option"
  ch_meeting_point :: "string option"
  ch_what_to_bring :: "string option"
  ch_organizer_note :: "string option"
  ch_first_time_note :: "string option"
  ch_cost_band :: "cost_band option"
  ch_cost_amount :: "int option option"
  ch_cost_note :: "string option"
  ch_difficulty :: "difficulty option"
  ch_accessibility :: "string option"
  ch_beginners :: "bool option"
  ch_secondary :: "activity_type list option"

definition changed :: "'a option \<Rightarrow> 'a \<Rightarrow> 'a" where
  "changed c old = (case c of None \<Rightarrow> old | Some x \<Rightarrow> x)"

definition apply_changes :: "activity_changes \<Rightarrow> activity \<Rightarrow> activity" where
  "apply_changes c a = a\<lparr> ac_title := changed (ch_title c) (ac_title a),
     ac_description := changed (ch_description c) (ac_description a),
     ac_starts_at := changed (ch_starts_at c) (ac_starts_at a),
     ac_ends_at := changed (ch_ends_at c) (ac_ends_at a),
     ac_capacity := changed (ch_capacity c) (ac_capacity a),
     ac_min_to_go := changed (ch_min_to_go c) (ac_min_to_go a),
     ac_meeting_point := changed (ch_meeting_point c) (ac_meeting_point a),
     ac_what_to_bring := changed (ch_what_to_bring c) (ac_what_to_bring a),
     ac_organizer_note := changed (ch_organizer_note c) (ac_organizer_note a),
     ac_first_time_note := changed (ch_first_time_note c) (ac_first_time_note a),
     ac_cost_band := changed (ch_cost_band c) (ac_cost_band a),
     ac_cost_amount := changed (ch_cost_amount c) (ac_cost_amount a),
     ac_cost_note := changed (ch_cost_note c) (ac_cost_note a),
     ac_difficulty := changed (ch_difficulty c) (ac_difficulty a),
     ac_accessibility := changed (ch_accessibility c) (ac_accessibility a),
     ac_beginners_welcome := changed (ch_beginners c) (ac_beginners_welcome a) \<rparr>"

definition names_a_field :: "activity_changes \<Rightarrow> bool" where
  "names_a_field c \<longleftrightarrow> ch_title c \<noteq> None \<or> ch_description c \<noteq> None \<or> ch_starts_at c \<noteq> None \<or>
     ch_ends_at c \<noteq> None \<or> ch_capacity c \<noteq> None \<or> ch_min_to_go c \<noteq> None \<or> ch_meeting_point c \<noteq> None \<or>
     ch_what_to_bring c \<noteq> None \<or> ch_organizer_note c \<noteq> None \<or> ch_first_time_note c \<noteq> None \<or>
     ch_cost_band c \<noteq> None \<or> ch_cost_amount c \<noteq> None \<or> ch_cost_note c \<noteq> None \<or>
     ch_difficulty c \<noteq> None \<or> ch_accessibility c \<noteq> None \<or> ch_beginners c \<noteq> None"

definition supersede_reminders :: "id \<Rightarrow> db \<Rightarrow> db" where
  "supersede_reminders a s = s\<lparr> notifications := filter (\<lambda>n. \<not> (nt_kind n = EventReminder \<and>
     nt_url n = activity_api_url a)) (notifications s) \<rparr>"

definition below_count :: "db \<Rightarrow> id \<Rightarrow> nat option \<Rightarrow> bool" where
  "below_count s a c \<longleftrightarrow> (case c of None \<Rightarrow> False | Some n \<Rightarrow> n < participant_count s a)"

text \<open>The checks on the values an edit would leave behind.\<close>

definition edit_refused :: "db \<Rightarrow> activity \<Rightarrow> social_error option" where
  "edit_refused s b =
     (if ends_early (ac_starts_at b) (ac_ends_at b)
      then Some (InvalidState ''End time cannot be before the start time.'')
      else if below_count s (ac_id b) (ac_capacity b)
      then Some (InvalidState ''Capacity cannot be lower than the current number of participants.'')
      else if ac_cost_amount b \<noteq> None \<and> \<not> priced (ac_cost_band b)
      then Some (InvalidState ''A cost amount only makes sense for a low-cost or paid meetup.'')
      else if exceeds (ac_min_to_go b) (ac_capacity b) then Some min_over_capacity
      else None)"

definition store_changes :: "id \<Rightarrow> activity \<Rightarrow> activity_changes \<Rightarrow> db \<Rightarrow> db" where
  "store_changes owner a c s =
     (let b = apply_changes c a;
          s2 = set_activity (ac_id a) (apply_changes c) s;
          s3 = (if ch_min_to_go c \<noteq> None then maybe_confirm_meetup (ac_id a) s2 else s2)
      in if ac_starts_at b = ac_starts_at a then s3
         else let s4 = supersede_reminders (ac_id a) s3
           in notify_members (others owner (current_members s4 (ac_id a))) ActivityUpdated
                ''An activity you joined changed''
                (in_quotes (ac_title b) @ '' now starts '' @ minute_text (lib s) (ac_starts_at b) @ ''.'')
                (activity_api_url (ac_id a)) s4)"

definition update_activity :: "user \<Rightarrow> activity \<Rightarrow> activity_type \<Rightarrow> activity_changes \<Rightarrow> db \<Rightarrow> (social_error, unit, db) outcome" where
  "update_activity owner a ty c s =
     (if \<not> is_organizer s (u_id owner) a then raised (NotAMember ''Only the activity organiser may edit it.'') s
      else if ac_status a \<noteq> AOpen then raised (InvalidState ''Only an open activity can be edited.'') s
      else if ac_starts_at a \<le> clock s
      then raised (InvalidState ''This activity has already started and can no longer be edited.'') s
      else case (case ch_secondary c of None \<Rightarrow> Inr None
                 | Some xs \<Rightarrow> map_sum id Some (validated_secondary_types s owner ty xs)) of
          Inl e \<Rightarrow> raised e s
        | Inr extra \<Rightarrow>
            let s1 = (case extra of None \<Rightarrow> s
                      | Some ts \<Rightarrow> set_activity (ac_id a) (\<lambda>x. x\<lparr> ac_secondary := map ty_id ts \<rparr>) s)
            in case edit_refused s (apply_changes c a) of
                Some e \<Rightarrow> raised e s
              | None \<Rightarrow> returned () (if names_a_field c then store_changes (u_id owner) a c s1 else s1))"

section \<open>Moving\<close>

definition place_label :: "place \<Rightarrow> string" where
  "place_label p = (if pl_display_name p = [] then pl_name p else pl_display_name p)"

definition place_name :: "db \<Rightarrow> id \<Rightarrow> string" where
  "place_name s i = (case place_row s i of None \<Rightarrow> [] | Some p \<Rightarrow> place_label p)"

definition move_activity :: "user \<Rightarrow> activity \<Rightarrow> place option \<Rightarrow> db \<Rightarrow> (social_error, unit, db) outcome" where
  "move_activity owner a po s =
     (if \<not> is_organizer s (u_id owner) a then raised (NotAMember ''Only the activity organiser may move it.'') s
      else if ac_status a \<noteq> AOpen then raised (InvalidState ''Only an open activity can be moved.'') s
      else if ac_starts_at a \<le> clock s
      then raised (InvalidState ''This activity has already started and can no longer be moved.'') s
      else case po of
          None \<Rightarrow> raised (InvalidState ''Pick the venue to move to.'') s
        | Some p \<Rightarrow>
            if pl_id p = ac_place a then returned () s
            else if \<not> place_allowed s owner (ac_cohort a) (ac_guardian_accompanied a) po
            then raised place_unavailable s
            else if ac_cohort a = Child \<and> st_child_public_only (conf s) \<and> \<not> is_child_safe_venue s po
            then raised venue_not_approved s
            else let s1 = supersede_reminders (ac_id a) (set_activity (ac_id a) (\<lambda>x. x\<lparr> ac_place := pl_id p \<rparr>) s);
                     s2 = notify_members (others (u_id owner) (current_members s1 (ac_id a))) ActivityUpdated
                            ''An activity you joined changed''
                            (in_quotes (ac_title a) @ '' moved venue: now at '' @ place_label p @
                             '' (was '' @ place_name s (ac_place a) @ '').'') (activity_api_url (ac_id a)) s1
              in returned () (record_audit ''activity.moved'' (Some (u_id owner))
                   (Some (activity_target (ac_id a))) [] s2))"

section \<open>Arrival, transit, departure\<close>

definition arrival_window_open :: "db \<Rightarrow> activity \<Rightarrow> bool" where
  "arrival_window_open s a \<longleftrightarrow> ac_status a = AOpen \<and>
     ac_starts_at a - hours (st_arrival_before (conf s)) \<le> clock s \<and>
     clock s \<le> ac_starts_at a + hours (st_arrival_after (conf s))"

definition departure_window_open :: "db \<Rightarrow> activity \<Rightarrow> bool" where
  "departure_window_open s a \<longleftrightarrow> ac_status a = AOpen \<and> ac_starts_at a \<le> clock s \<and>
     clock s \<le> (case ac_ends_at a of None \<Rightarrow> ac_starts_at a + hours (st_departure_fallback (conf s)) | Some e \<Rightarrow> e) +
       hours (st_departure_after (conf s))"

text \<open>
  The unblocked ones among the other members and, for a child, the active guardians who were not
  among them, each once.
\<close>

definition guardians_besides :: "db \<Rightarrow> user \<Rightarrow> id list \<Rightarrow> id list" where
  "guardians_besides s u told = foldl (\<lambda>gs g.
     if g \<in> blocked_user_ids s (u_id u) \<or> g \<in> set told \<or> g \<in> set gs then gs else gs @ [g])
     [] (active_guardians s (u_id u))"

definition ping_audience :: "db \<Rightarrow> user \<Rightarrow> id \<Rightarrow> id list" where
  "ping_audience s u a =
     (let peers = filter (\<lambda>i. i \<notin> blocked_user_ids s (u_id u)) (map mb_user (others (u_id u) (current_members s a)))
      in peers @ (if u_cohort u = Child then guardians_besides s u peers else []))"

definition mark_arrived :: "user \<Rightarrow> activity \<Rightarrow> db \<Rightarrow> (social_error, id, db) outcome" where
  "mark_arrived u a s =
     (case member_row (current_members s (ac_id a)) (u_id u) of
        None \<Rightarrow> raised (NotAMember ''Only current members can mark themselves arrived.'') s
      | Some m \<Rightarrow>
          if \<not> can_participate s u
          then raised (NotEligible ''Marking arrival requires verified, consented participation.'') s
          else if ac_status a \<noteq> AOpen
          then raised (InvalidState ''You can only mark arrival for an active meetup.'') s
          else if \<not> arrival_window_open s a
          then raised (InvalidState ''Arrival can only be marked around the start time.'') s
          else if mb_arrived_at m \<noteq> None then returned (mb_id m) s
          else let s1 = set_membership (mb_id m) (\<lambda>x. x\<lparr> mb_arrived_at := Some (clock s) \<rparr>) s;
                   s2 = snd (notify_each (ping_audience s1 u (ac_id a)) Arrival ''Someone arrived''
                          (display_or_username u @ '' is at '' @ in_quotes (ac_title a) @ ''.'')
                          (activity_api_url (ac_id a)) s1)
            in returned (mb_id m) (record_audit ''activity.arrived'' (Some (u_id u))
                 (Some (activity_target (ac_id a))) [] s2))"

definition mark_departing :: "user \<Rightarrow> activity \<Rightarrow> db \<Rightarrow> (social_error, id, db) outcome" where
  "mark_departing u a s =
     (case member_row (current_members s (ac_id a)) (u_id u) of
        None \<Rightarrow> raised (NotAMember ''Only current members can mark themselves heading home.'') s
      | Some m \<Rightarrow>
          if \<not> can_participate s u
          then raised (NotEligible ''This requires verified, consented participation.'') s
          else if u_cohort u \<noteq> Child
          then raised (InvalidState ''Heading-home pings are for younger members with a guardian.'') s
          else if ac_status a \<noteq> AOpen
          then raised (InvalidState ''You can only do this for an active meetup.'') s
          else if \<not> departure_window_open s a
          then raised (InvalidState ''You can mark heading home once the meetup has started.'') s
          else if mb_departing_at m \<noteq> None then returned (mb_id m) s
          else let s1 = set_membership (mb_id m) (\<lambda>x. x\<lparr> mb_departing_at := Some (clock s) \<rparr>) s;
                   s2 = snd (notify_each (guardians_besides s1 u []) Arrival ''Someone is heading home''
                          (display_or_username u @ '' is heading home from '' @ in_quotes (ac_title a) @ ''.'')
                          ''/wards/'' s1)
            in returned (mb_id m) (record_audit ''activity.departing'' (Some (u_id u))
                 (Some (activity_target (ac_id a))) [] s2))"

fun transit_rank :: "transit \<Rightarrow> nat" where
  "transit_rank TransitNone = 0"
| "transit_rank OnMyWay = 1"
| "transit_rank RunningLate = 2"

fun transit_value :: "transit \<Rightarrow> string" where
  "transit_value TransitNone = ''none''"
| "transit_value OnMyWay = ''on_my_way''"
| "transit_value RunningLate = ''running_late''"

fun transit_copy :: "transit \<Rightarrow> (string \<times> string) option" where
  "transit_copy TransitNone = None"
| "transit_copy OnMyWay = Some (''Someone is on the way'', '' is on the way to '')"
| "transit_copy RunningLate = Some (''Someone is running late'', '' is running about 10 minutes late for '')"

definition set_transit_status :: "user \<Rightarrow> activity \<Rightarrow> transit \<Rightarrow> db \<Rightarrow> (social_error, id, db) outcome" where
  "set_transit_status u a st s =
     (case transit_copy st of
        None \<Rightarrow> raised (InvalidState ''Choose a valid status.'') s
      | Some (title, text) \<Rightarrow>
     (case member_row (current_members s (ac_id a)) (u_id u) of
        None \<Rightarrow> raised (NotAMember ''Only current members can share a status.'') s
      | Some m \<Rightarrow>
          if \<not> can_participate s u
          then raised (NotEligible ''Sharing a status requires verified, consented participation.'') s
          else if ac_status a \<noteq> AOpen
          then raised (InvalidState ''You can only share a status for an active meetup.'') s
          else if \<not> arrival_window_open s a
          then raised (InvalidState ''A status can only be shared around the start time.'') s
          else if transit_rank st \<le> transit_rank (mb_transit m) then returned (mb_id m) s
          else let s1 = set_membership (mb_id m) (\<lambda>x. x\<lparr> mb_transit := st \<rparr>) s;
                   s2 = snd (notify_each (ping_audience s1 u (ac_id a)) Arrival title
                          (display_or_username u @ text @ in_quotes (ac_title a) @ ''.'')
                          (activity_api_url (ac_id a)) s1)
            in returned (mb_id m) (record_audit ''activity.transit'' (Some (u_id u))
                 (Some (activity_target (ac_id a))) [(''reason'', JStr (transit_value st))] s2)))"

definition started_before :: "db \<Rightarrow> time \<Rightarrow> membership \<Rightarrow> bool" where
  "started_before s cutoff m \<longleftrightarrow>
     (case activity_row s (mb_activity m) of None \<Rightarrow> False | Some a \<Rightarrow> ac_starts_at a < cutoff)"

definition ended_before :: "db \<Rightarrow> time \<Rightarrow> membership \<Rightarrow> bool" where
  "ended_before s cutoff m \<longleftrightarrow>
     (case activity_row s (mb_activity m) of None \<Rightarrow> False
      | Some a \<Rightarrow> (case ac_ends_at a of None \<Rightarrow> ac_starts_at a | Some e \<Rightarrow> e) < cutoff)"

definition expire_arrivals :: "int \<Rightarrow> db \<Rightarrow> nat \<times> nat \<times> db" where
  "expire_arrivals retention s =
     (let cutoff = clock s - hours retention;
          stale = (\<lambda>m. started_before s cutoff m \<and> (mb_arrived_at m \<noteq> None \<or> mb_transit m \<noteq> TransitNone));
          gone = (\<lambda>m. mb_departing_at m \<noteq> None \<and> ended_before s cutoff m);
          ms1 = update_rows stale (\<lambda>m. m\<lparr> mb_arrived_at := None, mb_transit := TransitNone \<rparr>) (memberships s)
      in (count_rows stale (memberships s), count_rows gone ms1,
          s\<lparr> memberships := update_rows gone (\<lambda>m. m\<lparr> mb_departing_at := None \<rparr>) ms1 \<rparr>))"

end
