(* ===== verification/Calendar.thy ===== *)
theory Calendar
  imports Database
begin

text \<open>
  Wall-clock arithmetic of recurring meetups: the order of wall-clock readings, the length of a
  month (calendar.monthrange), the day after, \<open>_add_month\<close> and \<open>_advance_slot\<close> of
  apps/social/services.py. The time-zone conversions are the primitives \<open>localtime\<close> and
  \<open>make_aware\<close>; what is relied on of them is stated where it is used.
\<close>

section \<open>The order of wall-clock readings\<close>

instantiation naive :: linorder
begin

definition less_eq_naive :: "naive \<Rightarrow> naive \<Rightarrow> bool" where
  "less_eq_naive a b \<longleftrightarrow> (n_year a, n_month a, n_day a, n_time a) \<le> (n_year b, n_month b, n_day b, n_time b)"

definition less_naive :: "naive \<Rightarrow> naive \<Rightarrow> bool" where
  "less_naive a b \<longleftrightarrow> (n_year a, n_month a, n_day a, n_time a) < (n_year b, n_month b, n_day b, n_time b)"

instance
  by standard (auto simp: less_eq_naive_def less_naive_def naive.expand)

end

section \<open>Months\<close>

definition leap_year :: "nat \<Rightarrow> bool" where
  "leap_year y \<longleftrightarrow> y mod 4 = 0 \<and> (y mod 100 \<noteq> 0 \<or> y mod 400 = 0)"

definition month_length :: "nat \<Rightarrow> nat \<Rightarrow> nat" where
  "month_length y m = (if m = 2 then (if leap_year y then 29 else 28)
     else if m \<in> {4, 6, 9, 11} then 30 else 31)"

definition valid_date :: "naive \<Rightarrow> bool" where
  "valid_date n \<longleftrightarrow> 1 \<le> n_month n \<and> n_month n \<le> 12 \<and> 1 \<le> n_day n \<and>
     n_day n \<le> month_length (n_year n) (n_month n)"

lemma month_length_range: "28 \<le> month_length y m \<and> month_length y m \<le> 31"
  by (simp add: month_length_def)

definition next_month :: "nat \<times> nat \<Rightarrow> nat \<times> nat" where
  "next_month ym = (case ym of (y, m) \<Rightarrow> if 12 < m + 1 then (y + 1, 1) else (y, m + 1))"

text \<open>An anchor day that is absent or zero falls back to the day of the reading.\<close>

definition add_month :: "naive \<Rightarrow> nat option \<Rightarrow> naive" where
  "add_month n anchor =
     (let target = (case anchor of None \<Rightarrow> n_day n | Some d \<Rightarrow> if d = 0 then n_day n else d);
          (y, m) = next_month (n_year n, n_month n)
      in Naive y m (min target (month_length y m)) (n_time n))"

definition next_day :: "naive \<Rightarrow> naive" where
  "next_day n =
     (if n_day n < month_length (n_year n) (n_month n)
      then Naive (n_year n) (n_month n) (Suc (n_day n)) (n_time n)
      else (case next_month (n_year n, n_month n) of (y, m) \<Rightarrow> Naive y m 1 (n_time n)))"

definition plus_weeks :: "nat \<Rightarrow> naive \<Rightarrow> naive" where
  "plus_weeks k n = (next_day ^^ (7 * k)) n"

definition step_cadence :: "cadence \<Rightarrow> nat option \<Rightarrow> naive \<Rightarrow> naive" where
  "step_cadence c anchor n =
     (case c of Weekly \<Rightarrow> plus_weeks 1 n | Biweekly \<Rightarrow> plus_weeks 2 n | Monthly \<Rightarrow> add_month n anchor)"

definition advance_slot :: "prims \<Rightarrow> time \<Rightarrow> cadence \<Rightarrow> nat option \<Rightarrow> time" where
  "advance_slot p t c anchor = make_aware p (step_cadence c anchor (localtime p t))"

section \<open>Each step is a valid later date at the same time of the day\<close>

lemma next_month_greater: "n_month n \<le> 12 \<Longrightarrow> next_month (n_year n, n_month n) = (y, m) \<Longrightarrow>
   1 \<le> m \<and> m \<le> 12 \<and> (n_year n, n_month n) < (y, m)"
  by (auto simp: next_month_def split: if_splits)

lemma next_day_step:
  assumes "valid_date n"
  shows "valid_date (next_day n) \<and> n < next_day n \<and> n_time (next_day n) = n_time n"
proof (cases "n_day n < month_length (n_year n) (n_month n)")
  case True
  with assms show ?thesis by (simp add: next_day_def valid_date_def less_naive_def)
next
  case False
  obtain y m where ym: "next_month (n_year n, n_month n) = (y, m)" by fastforce
  have "1 \<le> m \<and> m \<le> 12 \<and> (n_year n, n_month n) < (y, m)"
    using next_month_greater [OF _ ym] assms by (simp add: valid_date_def)
  with False ym month_length_range [of y m] show ?thesis
    by (auto simp: next_day_def valid_date_def less_naive_def)
qed

lemma next_days_step:
  assumes "valid_date n"
  shows "valid_date ((next_day ^^ Suc k) n) \<and> n < (next_day ^^ Suc k) n \<and> n_time ((next_day ^^ Suc k) n) = n_time n"
proof (induction k)
  case 0
  from next_day_step [OF assms] show ?case by simp
next
  case (Suc k)
  then have "valid_date ((next_day ^^ Suc k) n)" by blast
  from next_day_step [OF this] Suc show ?case by (auto dest: less_trans)
qed

lemma add_month_step:
  assumes "valid_date n"
  shows "valid_date (add_month n anchor) \<and> n < add_month n anchor \<and> n_time (add_month n anchor) = n_time n"
proof -
  obtain y m where ym: "next_month (n_year n, n_month n) = (y, m)" by fastforce
  have "1 \<le> m \<and> m \<le> 12 \<and> (n_year n, n_month n) < (y, m)"
    using next_month_greater [OF _ ym] assms by (simp add: valid_date_def)
  moreover have "1 \<le> month_length y m" "1 \<le> n_day n" using month_length_range [of y m] assms by (simp_all add: valid_date_def)
  ultimately show ?thesis
    using ym by (auto simp: add_month_def Let_def valid_date_def less_naive_def split: option.split)
qed

lemma step_cadence_step:
  assumes "valid_date n"
  shows "valid_date (step_cadence c anchor n) \<and> n < step_cadence c anchor n \<and> n_time (step_cadence c anchor n) = n_time n"
  using next_days_step [OF assms, of 6] next_days_step [OF assms, of 13] add_month_step [OF assms]
  by (cases c) (simp_all add: step_cadence_def plus_weeks_def eval_nat_numeral)

section \<open>The anchor day\<close>

text \<open>The month after \<open>k\<close> steps, and the day a monthly series then falls on.\<close>

definition months_on :: "nat \<Rightarrow> naive \<Rightarrow> nat \<times> nat" where
  "months_on k n = (next_month ^^ k) (n_year n, n_month n)"

lemma add_months:
  assumes "0 < d"
  shows "(\<lambda>n. add_month n (Some d)) ^^ Suc k = (\<lambda>n. case months_on (Suc k) n of (y, m) \<Rightarrow>
     Naive y m (min d (month_length y m)) (n_time n))"
proof (rule ext)
  fix n
  show "((\<lambda>n. add_month n (Some d)) ^^ Suc k) n = (case months_on (Suc k) n of (y, m) \<Rightarrow>
      Naive y m (min d (month_length y m)) (n_time n))"
    using assms by (induction k) (auto simp: months_on_def add_month_def Let_def split: prod.splits)
qed

end
