(* ===== verification/Meetup_Series.thy ===== *)
theory Meetup_Series
  imports Admission Calendar
begin

text \<open>
  Recurring meetups (apps/social/services.py): the template, its states, and the nightly engine
  \<open>spawn_due_series\<close> that creates the next single instance of every due series through
  \<open>create_activity\<close>.
\<close>

section \<open>The template\<close>

definition series_target :: "id \<Rightarrow> (string \<times> id) option" where
  "series_target i = Some (''social.activityseries'', i)"

definition set_series :: "id \<Rightarrow> (series \<Rightarrow> series) \<Rightarrow> db \<Rightarrow> db" where
  "set_series i f s = s\<lparr> all_series := update_rows (\<lambda>x. sr_id x = i) f (all_series s) \<rparr>"

definition whole_minutes :: "time \<Rightarrow> time option \<Rightarrow> nat option" where
  "whole_minutes start e = (case e of None \<Rightarrow> None
     | Some x \<Rightarrow> if start < x then Some (nat ((x - start) div seconds 60)) else None)"

definition create_series :: "user \<Rightarrow> activity_input \<Rightarrow> cadence \<Rightarrow> db \<Rightarrow> (social_error, series, db) outcome" where
  "create_series owner ai c s =
     (let accompanied = ai_accompanied ai \<or> ai_supervised ai in
      if \<not> (can_participate s owner \<and> has_cohort owner)
      then raised (NotEligible ''User cannot create activity series (needs verification/consent + a cohort).'') s
      else if ai_supervised ai \<and> u_cohort owner \<noteq> Child
      then raised (InvalidState (quoted ''Only children'' ''s activities can require a supervising guardian.'')) s
      else if accompanied \<and> u_cohort owner \<noteq> Child
      then raised (InvalidState (quoted ''Only children'' ''s activities can be guardian-accompanied.'')) s
      else if exceeds (ai_min_to_go ai) (ai_capacity ai) then raised min_over_capacity s
      else if ai_cost_amount ai \<noteq> None \<and> \<not> priced (ai_cost_band ai)
      then raised (InvalidState ''A cost amount only makes sense for a low-cost or paid meetup.'') s
      else case ai_place ai of
          None \<Rightarrow> raised place_unavailable s
        | Some p \<Rightarrow>
            if \<not> is_public_place s (pl_id p) then raised place_unavailable s
            else if u_cohort owner = Child \<and> st_child_public_only (conf s) \<and> \<not> is_child_safe_venue s (Some p)
            then raised venue_not_approved s
            else if \<not> category_envelope_allows s owner (ai_type ai) then raised guardian_forbids s
            else let x = \<lparr> sr_id = seq s, sr_owner = u_id owner, sr_place = pl_id p, sr_type = ty_id (ai_type ai),
                          sr_cohort = u_cohort owner, sr_title = ai_title ai, sr_description = ai_description ai,
                          sr_meeting_point = ai_meeting_point ai, sr_what_to_bring = ai_what_to_bring ai,
                          sr_organizer_note = ai_organizer_note ai, sr_accessibility = ai_accessibility ai,
                          sr_next_note = [], sr_cost_band = ai_cost_band ai, sr_cost_amount = ai_cost_amount ai,
                          sr_cost_note = ai_cost_note ai, sr_difficulty = ai_difficulty ai,
                          sr_capacity = ai_capacity ai, sr_min_to_go = ai_min_to_go ai,
                          sr_join_threshold = (case ai_join_threshold ai of None \<Rightarrow> default_join_threshold | Some t \<Rightarrow> t),
                          sr_guardian_accompanied = accompanied, sr_supervised = ai_supervised ai,
                          sr_beginners_welcome = ai_beginners ai, sr_cadence = c,
                          sr_next_starts_at = ai_starts_at ai,
                          sr_anchor_day = n_day (localtime (lib s) (ai_starts_at ai)),
                          sr_duration = whole_minutes (ai_starts_at ai) (ai_ends_at ai), sr_status = SrActive \<rparr>
              in returned x (record_audit ''series.created'' (Some (u_id owner)) (series_target (sr_id x)) []
                   (s\<lparr> all_series := all_series s @ [x], seq := Suc (seq s) \<rparr>)))"

definition pause_series :: "id \<Rightarrow> series \<Rightarrow> db \<Rightarrow> (social_error, unit, db) outcome" where
  "pause_series owner x s =
     (if sr_owner x \<noteq> owner then raised (NotAMember ''Only the series owner may pause it.'') s
      else if sr_status x \<noteq> SrActive then raised (InvalidState ''Only an active series can be paused.'') s
      else returned () (record_audit ''series.paused'' (Some owner) (series_target (sr_id x)) []
             (set_series (sr_id x) (\<lambda>y. y\<lparr> sr_status := SrPaused \<rparr>) s)))"

definition resume_series :: "id \<Rightarrow> series \<Rightarrow> db \<Rightarrow> (social_error, unit, db) outcome" where
  "resume_series owner x s =
     (if sr_owner x \<noteq> owner then raised (NotAMember ''Only the series owner may resume it.'') s
      else if sr_status x \<noteq> SrPaused then raised (InvalidState ''Only a paused series can be resumed.'') s
      else returned () (record_audit ''series.resumed'' (Some owner) (series_target (sr_id x)) []
             (set_series (sr_id x) (\<lambda>y. y\<lparr> sr_status := SrActive \<rparr>) s)))"

definition set_next_instance_note :: "id \<Rightarrow> series \<Rightarrow> string \<Rightarrow> db \<Rightarrow> (social_error, unit, db) outcome" where
  "set_next_instance_note owner x note s =
     (if sr_owner x \<noteq> owner then raised (NotAMember ''Only the series owner may set the next-meetup note.'') s
      else if sr_status x = SrEnded then raised (InvalidState ''This series has ended.'') s
      else returned () (record_audit ''series.next_note_set'' (Some owner) (series_target (sr_id x)) []
             (set_series (sr_id x) (\<lambda>y. y\<lparr> sr_next_note := take 500 (strip note) \<rparr>) s)))"

definition end_series :: "id \<Rightarrow> series \<Rightarrow> db \<Rightarrow> (social_error, unit, db) outcome" where
  "end_series owner x s =
     (if sr_owner x \<noteq> owner then raised (NotAMember ''Only the series owner may end it.'') s
      else if sr_status x = SrEnded then raised (InvalidState ''This series has already ended.'') s
      else returned () (record_audit ''series.ended'' (Some owner) (series_target (sr_id x)) []
             (set_series (sr_id x) (\<lambda>y. y\<lparr> sr_status := SrEnded \<rparr>) s)))"

definition visible_series :: "db \<Rightarrow> user \<Rightarrow> series list" where
  "visible_series s v = (if u_staff v then all_series s else filter (\<lambda>x. sr_owner x = u_id v) (all_series s))"

section \<open>The nightly engine\<close>

text \<open>A cursor in the past moves forward slot by slot, at most 240 times.\<close>

fun fast_forward :: "prims \<Rightarrow> time \<Rightarrow> cadence \<Rightarrow> nat option \<Rightarrow> nat \<Rightarrow> time \<Rightarrow> time" where
  "fast_forward p now c anchor 0 t = t"
| "fast_forward p now c anchor (Suc k) t =
     (if t < now then fast_forward p now c anchor k (advance_slot p t c anchor) else t)"

definition instances_of :: "db \<Rightarrow> id \<Rightarrow> activity list" where
  "instances_of s i = filter (\<lambda>a. ac_series a = Some i) (activities s)"

definition joined_notes :: "string list \<Rightarrow> string" where
  "joined_notes parts = (case filter (\<lambda>x. x \<noteq> []) parts of [] \<Rightarrow> []
     | x # xs \<Rightarrow> concat (x # map (\<lambda>y. [CHR 0x0A, CHR 0x0A] @ y) xs))"

definition instance_input :: "series \<Rightarrow> place \<Rightarrow> activity_type \<Rightarrow> time \<Rightarrow> activity_input" where
  "instance_input x p ty start = \<lparr> ai_place = Some p, ai_type = ty, ai_title = sr_title x, ai_starts_at = start,
     ai_ends_at = (case sr_duration x of None \<Rightarrow> None | Some n \<Rightarrow> if n = 0 then None else Some (start + seconds (60 * int n))),
     ai_description = sr_description x, ai_join_threshold = Some (sr_join_threshold x),
     ai_capacity = sr_capacity x, ai_min_to_go = sr_min_to_go x, ai_accompanied = sr_guardian_accompanied x,
     ai_supervised = sr_supervised x, ai_meeting_point = sr_meeting_point x,
     ai_what_to_bring = sr_what_to_bring x, ai_organizer_note = joined_notes [sr_organizer_note x, sr_next_note x],
     ai_first_time_note = [], ai_secondary = [], ai_cost_band = sr_cost_band x,
     ai_cost_amount = sr_cost_amount x, ai_cost_note = sr_cost_note x, ai_difficulty = sr_difficulty x,
     ai_accessibility = sr_accessibility x, ai_beginners = sr_beginners_welcome x \<rparr>"

record spawn_counts =
  sp_spawned :: nat
  sp_skipped :: nat
  sp_paused :: nat

definition move_cursor :: "id \<Rightarrow> time \<Rightarrow> db \<Rightarrow> db" where
  "move_cursor i t s = set_series i (\<lambda>y. y\<lparr> sr_next_starts_at := t \<rparr>) s"

definition next_slot :: "db \<Rightarrow> series \<Rightarrow> time \<Rightarrow> time" where
  "next_slot s x t = advance_slot (lib s) t (sr_cadence x) (Some (sr_anchor_day x))"

definition spawn_instance :: "series \<Rightarrow> user \<Rightarrow> time \<Rightarrow> spawn_counts \<Rightarrow> db \<Rightarrow> spawn_counts \<times> db" where
  "spawn_instance x owner start n s =
     (case (place_row s (sr_place x), type_row s (sr_type x)) of
        (Some p, Some ty) \<Rightarrow>
          (case create_activity owner (instance_input x p ty start) s of
             (Inl e, _) \<Rightarrow> (n\<lparr> sp_skipped := Suc (sp_skipped n) \<rparr>, s)
           | (Inr a, s1) \<Rightarrow>
               (n\<lparr> sp_spawned := Suc (sp_spawned n) \<rparr>,
                record_audit ''series.spawned'' (Some (u_id owner)) (Some (activity_target (ac_id a)))
                  [(''series_id'', JInt (int (sr_id x)))]
                  (set_series (sr_id x) (\<lambda>y. y\<lparr> sr_next_note := [], sr_next_starts_at := next_slot s x start \<rparr>)
                    (set_activity (ac_id a) (\<lambda>b. b\<lparr> ac_series := Some (sr_id x) \<rparr>) s1))))
      | _ \<Rightarrow> (n\<lparr> sp_skipped := Suc (sp_skipped n) \<rparr>, s))"

definition spawn_one :: "time \<Rightarrow> time \<Rightarrow> nat \<Rightarrow> id \<Rightarrow> spawn_counts \<times> db \<Rightarrow> spawn_counts \<times> db" where
  "spawn_one now lead cap i st =
     (case st of (n, s) \<Rightarrow>
       if cap \<le> sp_spawned n then (n, s)
       else case List.find (\<lambda>x. sr_id x = i \<and> sr_status x = SrActive) (all_series s) of
          None \<Rightarrow> (n, s)
        | Some x \<Rightarrow>
            (case user_row s (sr_owner x) of
               None \<Rightarrow> (n\<lparr> sp_skipped := Suc (sp_skipped n) \<rparr>, s)
             | Some owner \<Rightarrow>
                 if u_cohort owner \<noteq> sr_cohort x
                 then (n\<lparr> sp_paused := Suc (sp_paused n) \<rparr>,
                       record_audit ''series.paused'' (Some (u_id owner)) (series_target i)
                         [(''reason'', JStr ''owner_cohort_drift'')]
                         (set_series i (\<lambda>y. y\<lparr> sr_status := SrPaused \<rparr>) s))
                 else if \<exists>a \<in> set (instances_of s i). now \<le> ac_starts_at a then (n, s)
                 else let t = fast_forward (lib s) now (sr_cadence x) (Some (sr_anchor_day x)) 240 (sr_next_starts_at x)
                   in if t < now then (n\<lparr> sp_skipped := Suc (sp_skipped n) \<rparr>, move_cursor i t s)
                      else if lead < t then (n, move_cursor i t s)
                      else if \<exists>a \<in> set (instances_of s i). ac_starts_at a = t
                      then (n, move_cursor i (next_slot s x t) s)
                      else spawn_instance x owner t n s))"

definition spawn_due_series :: "time \<Rightarrow> db \<Rightarrow> spawn_counts \<times> db" where
  "spawn_due_series now s =
     (let lead = now + days (st_series_lead (conf s));
          due = filter (\<lambda>x. sr_status x = SrActive \<and> sr_next_starts_at x \<le> lead) (all_series s);
          (n, t) = fold (spawn_one now lead (st_series_batch (conf s))) (map sr_id due)
                     (\<lparr> sp_spawned = 0, sp_skipped = 0, sp_paused = 0 \<rparr>, s)
      in (n, record_audit ''series.swept'' None None
            [(''spawned'', JInt (int (sp_spawned n))), (''skipped'', JInt (int (sp_skipped n))),
             (''paused'', JInt (int (sp_paused n)))] t))"

end
