(* ===== verification/Activities_Laws.thy ===== *)
theory Activities_Laws
  imports Meetups Meetup_Series Groups_Laws
begin

text \<open>
  The laws of activities: the invariant of the activity and membership tables, that every
  operation keeps it, and the requests of the service with the interpretation of its interface.
\<close>

section \<open>The invariant\<close>

text \<open>
  A place in an activity belongs to its cohort, with one exception: the adult guardian of the
  child who owns a guardian-accompanied children's activity.
\<close>

definition activity_ok :: "activity \<Rightarrow> bool" where
  "activity_ok a \<longleftrightarrow> (ac_supervised a \<longrightarrow> ac_guardian_accompanied a) \<and>
     (ac_guardian_accompanied a \<longrightarrow> ac_cohort a = Child) \<and>
     (ac_publicly_listed a \<longrightarrow> ac_cohort a = Adult) \<and> ac_cohort a \<noteq> Unassigned \<and>
     \<not> exceeds (ac_min_to_go a) (ac_capacity a)"

definition place_ok :: "db \<Rightarrow> activity \<Rightarrow> membership \<Rightarrow> bool" where
  "place_ok s a m \<longleftrightarrow>
     (if mb_role m = MGuardian
      then ac_cohort a = Child \<and> ac_guardian_accompanied a \<and> has_cohort_row s (mb_user m) Adult \<and>
        is_guardian_of s (mb_user m) (ac_owner a)
      else has_cohort_row s (mb_user m) (ac_cohort a))"

definition mem_key :: "membership \<Rightarrow> id \<times> id" where
  "mem_key m = (mb_activity m, mb_user m)"

definition meets_inv :: "db \<Rightarrow> bool" where
  "meets_inv s \<longleftrightarrow> unique_by ac_id (activities s) \<and> (\<forall>a \<in> set (activities s). ac_id a < seq s \<and> activity_ok a) \<and>
     unique_by mb_id (memberships s) \<and> unique_by mem_key (memberships s) \<and>
     (\<forall>m \<in> set (memberships s). mb_id m < seq s \<and> mb_activity m < seq s \<and>
        (mb_state m \<noteq> SRemoved \<longrightarrow> (\<exists>a \<in> set (activities s). ac_id a = mb_activity m \<and> place_ok s a m)))"

lemma place_ok_cong: "users t = users s \<Longrightarrow> guardianships t = guardianships s \<Longrightarrow> place_ok t a m = place_ok s a m"
  by (simp add: place_ok_def has_cohort_row_def is_guardian_of_def)

lemma meets_inv_cong: "meets_inv s \<Longrightarrow> users t = users s \<Longrightarrow> guardianships t = guardianships s \<Longrightarrow>
   activities t = activities s \<Longrightarrow> memberships t = memberships s \<Longrightarrow> seq s \<le> seq t \<Longrightarrow> meets_inv t"
  unfolding meets_inv_def using place_ok_cong [of t s] by (auto intro: less_le_trans)

text \<open>The tables an activity's place rests on.\<close>

definition meets_kept :: "db \<Rightarrow> db \<Rightarrow> bool" where
  "meets_kept s t \<longleftrightarrow> users t = users s \<and> guardianships t = guardianships s \<and> activities t = activities s \<and>
     memberships t = memberships s \<and> seq s \<le> seq t"

lemma meets_kept_refl: "meets_kept s s"
  by (simp add: meets_kept_def)

lemma meets_kept_trans: "meets_kept s t \<Longrightarrow> meets_kept t w \<Longrightarrow> meets_kept s w"
  by (simp add: meets_kept_def)

lemma kept_meets: "meets_inv s \<Longrightarrow> meets_kept s t \<Longrightarrow> meets_inv t"
  unfolding meets_kept_def by (blast intro: meets_inv_cong)

lemma notify_kept: "meets_kept s (snd (notify r k ti b u s))"
  by (simp add: meets_kept_def notify_def Let_def)

lemma notify_each_kept: "meets_kept s (snd (notify_each rs k ti b u s))"
  by (induction rs arbitrary: s)
    (auto simp: notify_each_Cons meets_kept_refl intro: meets_kept_trans [OF notify_kept])

lemma audit_kept: "meets_kept s (record_audit e a tg d s)"
  by (simp add: meets_kept_def record_audit_def Let_def)

lemma members_notified_kept: "meets_kept s (notify_members ms k ti b u s)"
  by (simp add: notify_members_def notify_each_kept)

lemma put_vote_kept: "meets_kept s (put_vote m v b s)"
  by (simp add: meets_kept_def put_vote_def)

lemma reminders_kept: "meets_kept s (supersede_reminders i s)"
  by (simp add: meets_kept_def supersede_reminders_def)

lemma set_series_kept: "meets_kept s (set_series i f s)"
  by (simp add: meets_kept_def set_series_def)

lemmas meets_rules [service_intros] = kept_meets [OF _ notify_kept] kept_meets [OF _ notify_each_kept]
  kept_meets [OF _ audit_kept] kept_meets [OF _ members_notified_kept] kept_meets [OF _ put_vote_kept]
  kept_meets [OF _ reminders_kept] kept_meets [OF _ set_series_kept]

section \<open>Changing a row\<close>

definition row_step :: "membership \<Rightarrow> membership \<Rightarrow> bool" where
  "row_step m n \<longleftrightarrow> mb_id n = mb_id m \<and> mem_key n = mem_key m \<and>
     (mb_state n \<noteq> SRemoved \<longrightarrow> mb_state m \<noteq> SRemoved \<and> (mb_role n = MGuardian \<longleftrightarrow> mb_role m = MGuardian))"

lemma place_ok_step: "place_ok s a m \<Longrightarrow> mem_key n = mem_key m \<Longrightarrow>
   (mb_role n = MGuardian \<longleftrightarrow> mb_role m = MGuardian) \<Longrightarrow> place_ok s a n"
  by (simp add: place_ok_def mem_key_def)

lemma update_memberships_inv:
  assumes inv: "meets_inv s" and st: "\<And>m. m \<in> set (memberships s) \<Longrightarrow> P m \<Longrightarrow> row_step m (f m)"
  shows "meets_inv (s\<lparr> memberships := update_rows P f (memberships s) \<rparr>)"
proof -
  let ?ms = "update_rows P f (memberships s)" and ?t = "s\<lparr> memberships := update_rows P f (memberships s) \<rparr>"
  have keys: "map mb_id ?ms = map mb_id (memberships s)" "map mem_key ?ms = map mem_key (memberships s)"
    using st by (auto simp: update_rows_def row_step_def)
  have "mb_id n < seq s \<and> mb_activity n < seq s \<and> (mb_state n \<noteq> SRemoved \<longrightarrow> (\<exists>a \<in> set (activities s). ac_id a = mb_activity n \<and> place_ok ?t a n))"
    if "n \<in> set ?ms" for n
  proof -
    have "n \<in> (\<lambda>m. if P m then f m else m) ` set (memberships s)" using that by (simp add: set_update_rows)
    then obtain m where m: "m \<in> set (memberships s)" "n = (if P m then f m else m)" by blast
    have r: "row_step m n" using st [OF m(1)] m(2) by (simp add: row_step_def)
    have old: "mb_id m < seq s" "mb_activity m < seq s" "mb_state m \<noteq> SRemoved \<Longrightarrow> \<exists>a \<in> set (activities s). ac_id a = mb_activity m \<and> place_ok s a m"
      using inv m(1) by (auto simp: meets_inv_def)
    have "place_ok ?t a x = place_ok s a x" for a x by (rule place_ok_cong) simp_all
    with r old show ?thesis
      unfolding row_step_def using place_ok_step [of s _ m n] by (auto simp: mem_key_def)
  qed
  with inv keys show ?thesis by (simp add: meets_inv_def unique_by_def)
qed

lemma set_membership_inv:
  assumes "meets_inv s" and "\<And>m. m \<in> set (memberships s) \<Longrightarrow> mb_id m = i \<Longrightarrow> row_step m (f m)"
  shows "meets_inv (set_membership i f s)"
  unfolding set_membership_def by (rule update_memberships_inv [OF assms(1)]) (use assms(2) in blast)

lemma member_id_eq: "meets_inv s \<Longrightarrow> m \<in> set (memberships s) \<Longrightarrow> n \<in> set (memberships s) \<Longrightarrow> mb_id m = mb_id n \<Longrightarrow> m = n"
  using unique_byD [of mb_id] by (auto simp: meets_inv_def)

lemma set_one_inv:
  assumes "meets_inv s" and "m \<in> set (memberships s)" and "row_step m (f m)"
  shows "meets_inv (set_membership (mb_id m) f s)"
  by (rule set_membership_inv [OF assms(1)]) (use assms member_id_eq in blast)

lemma flag_inv:
  assumes "meets_inv s" and "\<And>m. mb_id (f m) = mb_id m \<and> mem_key (f m) = mem_key m \<and> mb_state (f m) = mb_state m \<and>
    mb_role (f m) = mb_role m"
  shows "meets_inv (set_membership i f s)"
  by (rule set_membership_inv [OF assms(1)]) (simp add: row_step_def assms(2))

definition activity_step :: "activity \<Rightarrow> activity \<Rightarrow> bool" where
  "activity_step a b \<longleftrightarrow> ac_id b = ac_id a \<and> ac_cohort b = ac_cohort a \<and> activity_ok b \<and>
     (ac_guardian_accompanied a \<longrightarrow> ac_guardian_accompanied b) \<and> (ac_owner b = ac_owner a \<or> ac_cohort a \<noteq> Child)"

lemma set_activity_inv:
  assumes inv: "meets_inv s" and st: "\<And>a. a \<in> set (activities s) \<Longrightarrow> ac_id a = i \<Longrightarrow> activity_step a (f a)"
  shows "meets_inv (set_activity i f s)"
proof -
  let ?as = "update_rows (\<lambda>a. ac_id a = i) f (activities s)" and ?t = "set_activity i f s"
  have keys: "map ac_id ?as = map ac_id (activities s)"
    using st by (auto simp: update_rows_def activity_step_def)
  have "\<exists>b \<in> set ?as. ac_id b = ac_id a \<and> place_ok ?t b m" if "a \<in> set (activities s)" "place_ok s a m" for a m
  proof (cases "ac_id a = i")
    case True
    have "place_ok ?t (f a) m"
      using st [OF that(1) True] that(2)
      by (auto simp: place_ok_def activity_step_def set_activity_def has_cohort_row_def is_guardian_of_def split: if_splits)
    with st [OF that(1) True] True that(1) show ?thesis
      by (intro bexI [of _ "f a"]) (auto simp: activity_step_def set_update_rows image_iff intro: bexI [of _ a])
  next
    case False
    have "place_ok ?t a m = place_ok s a m" by (rule place_ok_cong) (simp_all add: set_activity_def)
    with False that show ?thesis
      by (intro bexI [of _ a]) (auto simp: set_update_rows image_iff intro: bexI [of _ a])
  qed
  moreover have "ac_id b < seq s \<and> activity_ok b" if "b \<in> set ?as" for b
    using that inv st by (auto simp: set_update_rows meets_inv_def activity_step_def split: if_splits)
  ultimately show ?thesis
    using inv keys unfolding meets_inv_def unique_by_def set_activity_def by simp metis
qed

lemma activity_id_eq: "meets_inv s \<Longrightarrow> a \<in> set (activities s) \<Longrightarrow> b \<in> set (activities s) \<Longrightarrow> ac_id a = ac_id b \<Longrightarrow> a = b"
  using unique_byD [of ac_id] by (auto simp: meets_inv_def)

lemma set_one_activity_inv:
  assumes "meets_inv s" and "a \<in> set (activities s)" and "activity_step a (f a)"
  shows "meets_inv (set_activity (ac_id a) f s)"
  by (rule set_activity_inv [OF assms(1)]) (use assms activity_id_eq in blast)

lemma activity_okD: "meets_inv s \<Longrightarrow> a \<in> set (activities s) \<Longrightarrow> activity_ok a"
  by (simp add: meets_inv_def)

lemma insert_membership_inv:
  assumes inv: "meets_inv s" and a: "a \<in> set (activities s)" "ac_id a = mb_activity m" "place_ok s a m"
    and m: "mb_id m = seq s" "\<not> has_membership_row s (mb_activity m) (mb_user m)"
  shows "meets_inv (insert_membership m s)"
proof -
  have ok: "place_ok (insert_membership m s) b n = place_ok s b n" for b n
    by (rule place_ok_cong) (simp_all add: insert_membership_def)
  have "mem_key m \<notin> mem_key ` set (memberships s)"
    using m(2) by (auto simp: mem_key_def has_membership_row_def)
  moreover have "mb_id m \<notin> mb_id ` set (memberships s)" using inv m(1) by (auto simp: meets_inv_def)
  ultimately show ?thesis
    using inv a m(1) unfolding meets_inv_def ok by (auto simp: insert_membership_def less_Suc_eq)
qed

lemma insert_activity_inv:
  assumes inv: "meets_inv s" and a: "ac_id a = seq s" "activity_ok a" "has_cohort_row s (ac_owner a) (ac_cohort a)"
  shows "meets_inv (insert_activity a s)"
proof -
  let ?m = "new_membership (Suc (seq s)) (ac_id a) (ac_owner a) MOwner SMember (Some (clock s))"
  have ok: "place_ok (insert_activity a s) b n = place_ok s b n" for b n
    by (rule place_ok_cong) (simp_all add: insert_activity_def)
  have m: "mb_id ?m = Suc (seq s)" "mb_activity ?m = seq s" "mb_user ?m = ac_owner a" "place_ok s a ?m"
    using a by (simp_all add: new_membership_def place_ok_def)
  have "mem_key n \<noteq> mem_key ?m" "mb_id n \<noteq> Suc (seq s)" if "n \<in> set (memberships s)" for n
    using inv that m(2) by (auto simp: meets_inv_def mem_key_def)
  then have "mem_key ?m \<notin> mem_key ` set (memberships s)" "Suc (seq s) \<notin> mb_id ` set (memberships s)"
    by (metis imageE)+
  with m(1) have new: "mem_key ?m \<notin> mem_key ` set (memberships s)" "mb_id ?m \<notin> mb_id ` set (memberships s)"
    by simp_all
  have fresh: "ac_id a \<notin> ac_id ` set (activities s)" using inv a(1) by (auto simp: meets_inv_def)
  show ?thesis
    using inv a m new fresh unfolding meets_inv_def ok
    by (auto simp: insert_activity_def less_Suc_eq)
qed

section \<open>Creating and joining\<close>

lemma has_cohort_rowI: "u \<in> set (users s) \<Longrightarrow> u_cohort u = c \<Longrightarrow> has_cohort_row s (u_id u) c"
  by (auto simp: has_cohort_row_def)

text \<open>A guard that was passed.\<close>

lemma guard_Inr: "((if b then raised e s else x) = returned a t) = (\<not> b \<and> x = returned a t)"
  by simp

lemma create_activity_cases:
  obtains (refused) e where "create_activity owner ai s = raised e s"
  | (created) a where "create_activity owner ai s = returned a (insert_activity a s)" "ac_id a = seq s"
      "ac_owner a = u_id owner" "ac_cohort a = u_cohort owner" "activity_ok a" "ac_starts_at a = ai_starts_at ai"
      "ac_series a = None"
proof (cases "fst (create_activity owner ai s)")
  case (Inl e)
  have "snd (create_activity owner ai s) = s" if "isl (fst (create_activity owner ai s))"
    using that by (auto simp: create_activity_def Let_def split: option.splits sum.splits)
  with Inl show thesis by (intro refused [of e]) (simp add: prod_eq_iff)
next
  case (Inr a)
  then obtain t where "create_activity owner ai s = returned a t" by (cases "create_activity owner ai s") simp
  then have "t = insert_activity a s \<and> ac_id a = seq s \<and>
      ac_owner a = u_id owner \<and> ac_cohort a = u_cohort owner \<and> activity_ok a \<and> ac_starts_at a = ai_starts_at ai \<and>
      ac_series a = None"
    unfolding create_activity_def Let_def guard_Inr
    by (auto simp: new_activity_def activity_ok_def has_cohort_def split: option.splits sum.splits)
  with \<open>create_activity owner ai s = returned a t\<close> have "create_activity owner ai s = returned a (insert_activity a s) \<and>
      ac_id a = seq s \<and> ac_owner a = u_id owner \<and> ac_cohort a = u_cohort owner \<and> activity_ok a \<and>
      ac_starts_at a = ai_starts_at ai \<and> ac_series a = None" by simp
  then show thesis by (intro created) blast+
qed

lemma create_activity_inv:
  assumes "meets_inv s" and "owner \<in> set (users s)"
  shows "meets_inv (snd (create_activity owner ai s))"
proof (cases rule: create_activity_cases [of owner ai s])
  case (refused e)
  with assms show ?thesis by simp
next
  case (created a)
  have "has_cohort_row s (ac_owner a) (ac_cohort a)"
    using assms(2) created(3,4) by (auto intro: has_cohort_rowI)
  with created assms show ?thesis by (simp add: insert_activity_inv)
qed

lemma can_joinD: "can_join s u a \<Longrightarrow> can_participate s u \<and> u_cohort u = ac_cohort a \<and> ac_status a = AOpen \<and>
   \<not> full s a \<and> \<not> taking_part s (u_id u) (ac_id a) \<and>
   (ac_cohort a = Child \<and> st_child_public_only (conf s) \<longrightarrow> venue_ok_for_child s a) \<and>
   (u_cohort u = Child \<longrightarrow> passes_guardrails s (u_id u) a)"
  by (auto simp: can_join_def split: if_splits)

lemma request_inv:
  assumes inv: "meets_inv s" and "u \<in> set (users s)" and "a \<in> set (activities s)"
  shows "meets_inv (snd (request_to_join u a s))"
proof -
  have "meets_inv (insert_membership (new_membership (seq s) (ac_id a) (u_id u) MMember SRequested None) s)"
    if "can_join s u a" "\<not> has_membership_row s (ac_id a) (u_id u)"
    by (rule insert_membership_inv [OF inv assms(3)])
      (use that assms(2) can_joinD [OF that(1)] in \<open>auto simp: new_membership_def place_ok_def intro: has_cohort_rowI\<close>)
  with inv show ?thesis
    by (simp add: request_to_join_def Let_def meets_rules)
qed

lemma withdraw_inv: "meets_inv s \<Longrightarrow> meets_inv (snd (leave_activity u a s))"
proof -
  assume inv: "meets_inv s"
  have "row_step m (cleared m)" for m by (simp add: row_step_def cleared_def mem_key_def)
  then have "meets_inv (set_membership i cleared s)" for i by (intro set_membership_inv inv)
  with inv show ?thesis by (simp add: leave_activity_def split: option.split)
qed

lemma companion_inv: "meets_inv s \<Longrightarrow> meets_inv (snd (set_support_companion u a b s))"
  by (auto simp: set_support_companion_def mem_key_def split: option.split intro: flag_inv)

section \<open>Admission\<close>

definition row_live :: "db \<Rightarrow> id \<Rightarrow> bool" where
  "row_live s i \<longleftrightarrow> (\<forall>m \<in> set (memberships s). mb_id m = i \<longrightarrow> mb_state m \<noteq> SRemoved)"

lemma row_live_kept: "meets_kept s t \<Longrightarrow> row_live t i = row_live s i"
  by (simp add: row_live_def meets_kept_def)

lemma requested_live: "meets_inv s \<Longrightarrow> m \<in> set (memberships s) \<Longrightarrow> mb_state m = SRequested \<Longrightarrow> row_live s (mb_id m)"
  unfolding row_live_def using member_id_eq by fastforce

lemma admit_inv:
  assumes "meets_inv s" and "row_live s (mb_id m)"
  shows "meets_inv (admit a m s)"
proof -
  have "meets_inv (set_membership (mb_id m) (\<lambda>x. x\<lparr> mb_state := SMember, mb_decided_at := d, mb_welcomed_at := w x \<rparr>) s)" for d w
    by (rule set_membership_inv [OF assms(1)]) (use assms(2) in \<open>auto simp: row_step_def mem_key_def row_live_def\<close>)
  with assms(1) show ?thesis by (simp add: admit_def Let_def meets_rules)
qed

lemma admit_live: "row_live s i \<Longrightarrow> row_live (admit a m s) i"
proof -
  assume live: "row_live s i"
  have "row_live (set_membership j (\<lambda>x. x\<lparr> mb_state := SMember, mb_decided_at := d, mb_welcomed_at := w x \<rparr>) s) i" for j d w
    using live by (auto simp: row_live_def set_membership_def set_update_rows split: if_splits)
  with live show ?thesis by (simp add: admit_def Let_def row_live_kept [OF notify_kept])
qed

lemma evaluate_inv: "meets_inv s \<Longrightarrow> row_live s (mb_id m) \<Longrightarrow> meets_inv (evaluate_vote a m s)"
  by (simp add: evaluate_vote_def admit_inv)

lemma evaluate_live: "row_live s i \<Longrightarrow> row_live (evaluate_vote a m s) i"
  by (simp add: evaluate_vote_def admit_live)

lemma settle_fold_inv:
  assumes "meets_inv s" and "\<forall>m \<in> set ms. row_live s (mb_id m)"
  shows "meets_inv (fold (evaluate_vote a) ms s)"
  using assms by (induction ms arbitrary: s) (simp_all add: evaluate_inv evaluate_live)

lemma settle_inv: "meets_inv s \<Longrightarrow> meets_inv (settle_pending_joins a s)"
  unfolding settle_pending_joins_def
  by (rule settle_fold_inv) (auto simp: requested_rows_def intro: requested_live)

lemma vote_inv:
  assumes "meets_inv s" and "m \<in> set (memberships s)"
  shows "meets_inv (snd (cast_vote v a m b s))"
proof -
  have "meets_inv (put_vote i v b s)" for i by (rule meets_rules(5) [OF assms(1)])
  moreover have "row_live (put_vote i v b s) (mb_id m)" if "mb_state m = SRequested" for i
    using requested_live [OF assms that] by (simp add: row_live_kept [OF put_vote_kept])
  ultimately show ?thesis using assms(1) by (simp add: cast_vote_def evaluate_inv)
qed

lemma owner_admit_inv:
  "meets_inv s \<Longrightarrow> m \<in> set (memberships s) \<Longrightarrow> meets_inv (snd (owner_admit u a m s))"
  by (simp add: owner_admit_def admit_inv requested_live)

lemma add_guardian_inv:
  assumes inv: "meets_inv s" and "g \<in> set (users s)" and "a \<in> set (activities s)"
  shows "meets_inv (snd (add_guardian owner a g s))"
proof -
  let ?m = "new_membership (seq s) (ac_id a) (u_id g) MGuardian SMember (Some (clock s))"
  have "meets_inv (insert_membership ?m s)"
    if "ac_guardian_accompanied a" "ac_cohort a = Child" "u_cohort g = Adult" "is_guardian_of s (u_id g) (ac_owner a)"
      "\<not> has_membership_row s (ac_id a) (u_id g)"
    by (rule insert_membership_inv [OF inv assms(3)])
      (use that assms(2) in \<open>auto simp: new_membership_def place_ok_def intro: has_cohort_rowI\<close>)
  with inv show ?thesis by (auto simp: add_guardian_def Let_def settle_inv)
qed

lemma supervision_inv:
  assumes inv: "meets_inv s" and a: "a \<in> set (activities s)"
  shows "meets_inv (snd (set_activity_supervision owner a b s))"
proof -
  let ?f = "\<lambda>x. x\<lparr> ac_supervised := b, ac_guardian_accompanied := (b \<or> ac_guardian_accompanied x) \<rparr>"
  have "activity_step a (?f a)" if "b \<Longrightarrow> ac_cohort a = Child"
    using activity_okD [OF inv a] that by (auto simp: activity_step_def activity_ok_def)
  then have "meets_inv (set_activity (ac_id a) ?f s)" if "b \<Longrightarrow> ac_cohort a = Child"
    by (intro set_one_activity_inv inv a) (use that in blast)
  with inv show ?thesis
    by (auto simp: set_activity_supervision_def Let_def settle_inv meets_rules)
qed

section \<open>Organisers\<close>

lemma set_role_step: "mb_role m \<noteq> MGuardian \<Longrightarrow> r \<noteq> MGuardian \<Longrightarrow> row_step m (set_role r m)"
  by (simp add: row_step_def set_role_def mem_key_def)

lemma set_role_inv: "meets_inv s \<Longrightarrow> m \<in> set (memberships s) \<Longrightarrow> mb_role m \<noteq> MGuardian \<Longrightarrow> r \<noteq> MGuardian \<Longrightarrow>
   meets_inv (set_membership (mb_id m) (set_role r) s)"
  by (simp add: set_one_inv set_role_step)

lemma member_row_D: "member_row ms u = Some m \<Longrightarrow> m \<in> set ms \<and> mb_user m = u"
  by (auto simp: member_row_def dest: find_SomeD)

lemma voting_member_iff: "m \<in> set (voting_members s a) \<longleftrightarrow> m \<in> set (memberships s) \<and> mb_activity m = a \<and>
   mb_state m = SMember \<and> mb_role m \<noteq> MGuardian"
  by (auto simp: voting_members_def current_members_def)

lemma coorg_D: "coorg_eligible s a u = Some m \<Longrightarrow> m \<in> set (memberships s) \<and> mb_role m \<noteq> MGuardian \<and>
   mb_state m = SMember \<and> u_cohort u = ac_cohort a \<and> can_participate s u"
  by (auto simp: coorg_eligible_def voting_member_iff dest!: member_row_D split: if_splits)

lemma promote_inv: "meets_inv s \<Longrightarrow> meets_inv (snd (grant_co_organizer owner a u s))"
  by (auto simp: grant_co_organizer_def meets_rules set_role_inv dest: coorg_D split: option.split)

lemma revoke_inv: "meets_inv s \<Longrightarrow> meets_inv (snd (revoke_co_organizer owner a u s))"
  by (auto simp: revoke_co_organizer_def current_members_def meets_rules set_role_inv dest!: find_SomeD split: option.split)

lemma transfer_inv:
  assumes inv: "meets_inv s" and a: "a \<in> set (activities s)"
  shows "meets_inv (snd (transfer_ownership owner a u s))"
proof -
  let ?s1 = "set_activity (ac_id a) (\<lambda>x. x\<lparr> ac_owner := u_id u \<rparr>) s"
  have s1: "meets_inv ?s1" if "ac_cohort a = Adult"
    by (rule set_one_activity_inv [OF inv a])
      (use activity_okD [OF inv a] that in \<open>auto simp: activity_step_def activity_ok_def\<close>)
  have s2: "meets_inv (set_membership (mb_id m) (set_role MOwner) ?s1)"
    if "ac_cohort a = Adult" "m \<in> set (memberships s)" "mb_role m \<noteq> MGuardian" for m
    by (rule set_role_inv [OF s1 [OF that(1)]]) (use that in \<open>simp_all add: set_activity_def\<close>)
  have s3: "meets_inv (set_membership (mb_id x) (set_role MMember) (set_membership (mb_id m) (set_role MOwner) ?s1))"
    if "ac_cohort a = Adult" "m \<in> set (memberships s)" "mb_role m \<noteq> MGuardian" "x \<in> set (memberships s)"
      "mb_role x = MOwner" for m x
  proof (rule set_membership_inv [OF s2 [OF that(1-3)]])
    fix y assume "y \<in> set (memberships (set_membership (mb_id m) (set_role MOwner) ?s1))" "mb_id y = mb_id x"
    then have "\<exists>z \<in> set (memberships s). mb_id z = mb_id x \<and> (y = z \<or> y = set_role MOwner z)"
      by (auto simp: set_membership_def set_activity_def set_update_rows set_role_def split: if_splits)
    then have "y = x \<or> y = set_role MOwner x" using member_id_eq [OF inv _ that(4)] by metis
    then have "mb_role y \<noteq> MGuardian" using that(5) by (auto simp: set_role_def)
    then show "row_step y (set_role MMember y)" by (simp add: set_role_step)
  qed
  have "meets_inv (case List.find (\<lambda>x. mb_user x = u_id owner \<and> mb_role x = MOwner) (current_members s (ac_id a)) of
      None \<Rightarrow> set_membership (mb_id m) (set_role MOwner) ?s1
    | Some x \<Rightarrow> set_membership (mb_id x) (set_role MMember) (set_membership (mb_id m) (set_role MOwner) ?s1))"
    if "ac_cohort a = Adult" "coorg_eligible s a u = Some m" for m
    using coorg_D [OF that(2)] that(1)
    by (auto simp: current_members_def intro!: s2 s3 dest!: find_SomeD split: option.split)
  with inv show ?thesis
    by (auto simp: transfer_ownership_def Let_def meets_rules split: option.split)
qed

lemma listing_inv:
  assumes inv: "meets_inv s" and a: "a \<in> set (activities s)"
  shows "meets_inv (snd (set_activity_listing owner a b s))"
proof -
  have "meets_inv (set_activity (ac_id a) (\<lambda>x. x\<lparr> ac_publicly_listed := b \<rparr>) s)" if "ac_cohort a = Adult"
    by (rule set_one_activity_inv [OF inv a])
      (use activity_okD [OF inv a] that in \<open>auto simp: activity_step_def activity_ok_def\<close>)
  with inv show ?thesis by (simp add: set_activity_listing_def meets_rules)
qed

section \<open>Running a meetup\<close>

lemma status_step: "activity_ok a \<Longrightarrow> activity_step a (a\<lparr> ac_status := st \<rparr>)"
  "activity_ok a \<Longrightarrow> activity_step a (a\<lparr> ac_go_confirmed_at := c \<rparr>)"
  "activity_ok a \<Longrightarrow> activity_step a (a\<lparr> ac_place := p \<rparr>)" "activity_ok a \<Longrightarrow> activity_step a (a\<lparr> ac_secondary := xs \<rparr>)"
  "activity_ok a \<Longrightarrow> activity_step a (a\<lparr> ac_series := sr \<rparr>)"
  by (simp_all add: activity_step_def activity_ok_def)

lemma status_inv: "meets_inv s \<Longrightarrow> meets_inv (set_activity i (\<lambda>x. x\<lparr> ac_status := st \<rparr>) s)"
  "meets_inv s \<Longrightarrow> meets_inv (set_activity i (\<lambda>x. x\<lparr> ac_go_confirmed_at := c \<rparr>) s)"
  "meets_inv s \<Longrightarrow> meets_inv (set_activity i (\<lambda>x. x\<lparr> ac_place := p \<rparr>) s)"
  "meets_inv s \<Longrightarrow> meets_inv (set_activity i (\<lambda>x. x\<lparr> ac_secondary := xs \<rparr>) s)"
  "meets_inv s \<Longrightarrow> meets_inv (set_activity i (\<lambda>x. x\<lparr> ac_series := sr \<rparr>) s)"
  by (simp_all add: set_activity_inv status_step activity_okD)

lemma cancel_inv: "meets_inv s \<Longrightarrow> meets_inv (snd (cancel_activity u a r s))"
  by (simp add: cancel_activity_def Let_def meets_rules status_inv)

lemma complete_inv: "meets_inv s \<Longrightarrow> meets_inv (complete_activity a s)"
  by (simp add: complete_activity_def status_inv)

lemma confirm_inv: "meets_inv s \<Longrightarrow> meets_inv (maybe_confirm_meetup i s)"
  by (auto simp: maybe_confirm_meetup_def notify_meetup_confirmed_def meets_rules status_inv split: option.split)

lemma signal_inv:
  assumes "meets_inv s"
  shows "meets_inv (set_membership i (\<lambda>x. x\<lparr> mb_intent := v \<rparr>) s)"
    "meets_inv (set_membership i (\<lambda>x. x\<lparr> mb_met_at := d \<rparr>) s)"
    "meets_inv (set_membership i (\<lambda>x. x\<lparr> mb_arrived_at := d \<rparr>) s)"
    "meets_inv (set_membership i (\<lambda>x. x\<lparr> mb_departing_at := d \<rparr>) s)"
    "meets_inv (set_membership i (\<lambda>x. x\<lparr> mb_transit := tr \<rparr>) s)"
  by (rule flag_inv [OF assms]; simp add: mem_key_def)+

lemma rsvp_inv: "meets_inv s \<Longrightarrow> meets_inv (snd (set_attendance_intent u a i s))"
  by (simp add: set_attendance_intent_def confirm_inv signal_inv split: option.split)

lemma met_inv: "meets_inv s \<Longrightarrow> meets_inv (snd (set_met_confirmed u a b s))"
  by (simp add: set_met_confirmed_def signal_inv split: option.split)

lemma arrive_inv: "meets_inv s \<Longrightarrow> meets_inv (snd (mark_arrived u a s))"
  by (simp add: mark_arrived_def Let_def signal_inv meets_rules split: option.split)

lemma depart_inv: "meets_inv s \<Longrightarrow> meets_inv (snd (mark_departing u a s))"
  by (simp add: mark_departing_def Let_def signal_inv meets_rules split: option.split)

lemma transit_inv: "meets_inv s \<Longrightarrow> meets_inv (snd (set_transit_status u a st s))"
  by (auto simp: set_transit_status_def Let_def signal_inv meets_rules split: option.split)

lemma expire_inv:
  assumes "meets_inv s"
  shows "meets_inv (snd (snd (expire_arrivals h s)))"
proof -
  have "meets_inv (s\<lparr> memberships := update_rows P (\<lambda>m. m\<lparr> mb_arrived_at := None, mb_transit := TransitNone \<rparr>)
      (memberships s) \<rparr>)" for P
    by (rule update_memberships_inv [OF assms]) (simp add: row_step_def mem_key_def)
  from update_memberships_inv [OF this] have "meets_inv (s\<lparr> memberships := update_rows Q (\<lambda>m. m\<lparr> mb_departing_at := None \<rparr>)
      (update_rows P (\<lambda>m. m\<lparr> mb_arrived_at := None, mb_transit := TransitNone \<rparr>) (memberships s)) \<rparr>)" for P Q
    by (simp add: row_step_def mem_key_def)
  then show ?thesis by (simp add: expire_arrivals_def Let_def)
qed

lemma apply_changes_simps [simp]: "ac_id (apply_changes c a) = ac_id a" "ac_cohort (apply_changes c a) = ac_cohort a"
  "ac_owner (apply_changes c a) = ac_owner a" "ac_supervised (apply_changes c a) = ac_supervised a"
  "ac_guardian_accompanied (apply_changes c a) = ac_guardian_accompanied a"
  "ac_publicly_listed (apply_changes c a) = ac_publicly_listed a" "ac_place (apply_changes c a) = ac_place a"
  "ac_type (apply_changes c a) = ac_type a"
  by (simp_all add: apply_changes_def)

lemma apply_changes_ok:
  assumes "activity_ok a" and "edit_refused s (apply_changes c a) = None"
  shows "activity_step a (apply_changes c a)"
  using assms by (auto simp: activity_step_def activity_ok_def edit_refused_def split: if_splits)

lemma secondary_step: "activity_step a b \<Longrightarrow> activity_step (a\<lparr> ac_secondary := xs \<rparr>) (b\<lparr> ac_secondary := ys \<rparr>)"
  by (auto simp: activity_step_def activity_ok_def)

lemma update_inv:
  assumes inv: "meets_inv s" and a: "a \<in> set (activities s)"
  shows "meets_inv (snd (update_activity owner a ty c s))"
proof -
  let ?s1 = "\<lambda>e. case e of None \<Rightarrow> s | Some ts \<Rightarrow> set_activity (ac_id a) (\<lambda>x. x\<lparr> ac_secondary := map ty_id ts \<rparr>) s"
  have s1: "meets_inv (?s1 e)" for e using inv by (simp add: status_inv split: option.split)
  have s2: "meets_inv (set_activity (ac_id a) (apply_changes c) (?s1 e))" if ok: "edit_refused s (apply_changes c a) = None" for e
  proof (rule set_activity_inv [OF s1])
    fix b assume "b \<in> set (activities (?s1 e))" "ac_id b = ac_id a"
    then have "b = a \<or> (\<exists>xs. b = a\<lparr> ac_secondary := xs \<rparr>)"
      using activity_id_eq [OF inv _ a]
      by (auto simp: set_activity_def set_update_rows split: option.splits if_splits)
    moreover have "activity_step (a\<lparr> ac_secondary := xs \<rparr>) (apply_changes c (a\<lparr> ac_secondary := xs \<rparr>))" for xs
    proof -
      have "apply_changes c (a\<lparr> ac_secondary := xs \<rparr>) = (apply_changes c a)\<lparr> ac_secondary := xs \<rparr>"
        by (simp add: apply_changes_def)
      then show ?thesis
        using secondary_step [OF apply_changes_ok [OF activity_okD [OF inv a] ok]] by simp
    qed
    ultimately show "activity_step b (apply_changes c b)"
      using apply_changes_ok [OF activity_okD [OF inv a] ok] by auto
  qed
  have s3: "meets_inv (store_changes (u_id owner) a c (?s1 e))" if "edit_refused s (apply_changes c a) = None" for e
    using s2 [OF that, of e] by (simp add: store_changes_def Let_def meets_rules confirm_inv)
  have "meets_inv (snd (case extra of Inl e \<Rightarrow> raised e s
      | Inr e \<Rightarrow> (case edit_refused s (apply_changes c a) of Some x \<Rightarrow> raised x s
          | None \<Rightarrow> returned () (if names_a_field c then store_changes (u_id owner) a c (?s1 e) else ?s1 e))))"
    for extra :: "social_error + activity_type list option"
    by (cases extra; cases "edit_refused s (apply_changes c a)"; cases "names_a_field c")
      (simp_all only: sum.case option.case snd_conv if_True if_False inv s1 s3)
  from this inv show ?thesis
    unfolding update_activity_def Let_def
    by (simp only: if_split [of "\<lambda>x. meets_inv (snd x)"] snd_conv simp_thms)
qed

lemma move_inv: "meets_inv s \<Longrightarrow> meets_inv (snd (move_activity owner a po s))"
  by (auto simp: move_activity_def Let_def meets_rules status_inv split: option.split)

section \<open>Series\<close>

lemma create_series_inv: "meets_inv s \<Longrightarrow> meets_inv (snd (create_series owner ai c s))"
proof -
  assume inv: "meets_inv s"
  have "meets_inv (s\<lparr> all_series := xs, seq := Suc (seq s) \<rparr>)" for xs
    by (rule meets_inv_cong [OF inv]) simp_all
  with inv show ?thesis by (auto simp: create_series_def Let_def meets_rules split: option.split)
qed

lemma series_state_inv: "meets_inv s \<Longrightarrow> meets_inv (snd (pause_series u x s))"
  "meets_inv s \<Longrightarrow> meets_inv (snd (resume_series u x s))" "meets_inv s \<Longrightarrow> meets_inv (snd (end_series u x s))"
  "meets_inv s \<Longrightarrow> meets_inv (snd (set_next_instance_note u x n s))"
  by (simp_all add: pause_series_def resume_series_def end_series_def set_next_instance_note_def meets_rules)

lemma move_cursor_inv: "meets_inv s \<Longrightarrow> meets_inv (move_cursor i t s)"
  by (simp add: move_cursor_def meets_rules)

lemma spawn_instance_inv:
  assumes inv: "meets_inv s" and owner: "owner \<in> set (users s)"
  shows "meets_inv (snd (spawn_instance x owner t n s))"
proof -
  have "meets_inv s1" if "create_activity owner ai s = (r, s1)" for ai r s1
    using create_activity_inv [OF inv owner, of ai] that by simp
  with inv show ?thesis
    by (auto simp: spawn_instance_def meets_rules status_inv split: option.split prod.split sum.split)
qed

lemma spawn_one_inv: "meets_inv s \<Longrightarrow> meets_inv (snd (spawn_one now lead cap i (n, s)))"
  by (auto simp: spawn_one_def Let_def meets_rules move_cursor_inv spawn_instance_inv split: option.split
      dest: user_row_SomeD)

lemma fold_pair_keeps:
  assumes "\<And>x n s. P s \<Longrightarrow> P (snd (f x (n, s)))" and "P s"
  shows "P (snd (fold f xs (n, s)))"
  using assms(2)
proof (induction xs arbitrary: n s)
  case (Cons x xs)
  obtain m t where "f x (n, s) = (m, t)" by fastforce
  with assms(1) [OF Cons.prems, of x n] Cons.IH [of t m] show ?case by simp
qed simp

lemma spawn_inv: "meets_inv s \<Longrightarrow> meets_inv (snd (spawn_due_series now s))"
  unfolding spawn_due_series_def Let_def case_prod_beta snd_conv
  by (rule meets_rules(3) [OF fold_pair_keeps [of meets_inv]]) (simp_all add: spawn_one_inv)

section \<open>Requests\<close>

datatype meet_request =
    Create id activity_input
  | Ask id id
  | Leave id id
  | Companion id id bool
  | Vote id id bool
  | Override id id
  | Seat id id id
  | Supervise id id bool
  | Promote id id id
  | Demote id id id
  | HandOver id id id
  | ListPublicly id id bool
  | Cancel id id string
  | Complete id
  | Edit id id activity_changes
  | Move id id "place option"
  | Rsvp id id intent
  | Met id id bool
  | Arrive id id
  | Depart id id
  | Signal id id transit
  | ExpireSignals int
  | CreateSeries id activity_input cadence
  | PauseSeries id id
  | ResumeSeries id id
  | EndSeries id id
  | NoteSeries id id string
  | Spawn
  | Later time

definition with_activity :: "db \<Rightarrow> id \<Rightarrow> (activity \<Rightarrow> db) \<Rightarrow> db" where
  "with_activity s i f = (case activity_row s i of None \<Rightarrow> s | Some a \<Rightarrow> f a)"

definition with_series :: "db \<Rightarrow> id \<Rightarrow> (series \<Rightarrow> db) \<Rightarrow> db" where
  "with_series s i f = (case List.find (\<lambda>x. sr_id x = i) (all_series s) of None \<Rightarrow> s | Some x \<Rightarrow> f x)"

text \<open>A request on a membership row loads the row and its activity.\<close>

definition with_place :: "db \<Rightarrow> id \<Rightarrow> (activity \<Rightarrow> membership \<Rightarrow> db) \<Rightarrow> db" where
  "with_place s i f = (case List.find (\<lambda>m. mb_id m = i) (memberships s) of None \<Rightarrow> s
     | Some m \<Rightarrow> with_activity s (mb_activity m) (\<lambda>a. f a m))"

definition edit_with_type :: "user \<Rightarrow> activity \<Rightarrow> activity_changes \<Rightarrow> db \<Rightarrow> db" where
  "edit_with_type u a c s = (case type_row s (ac_type a) of None \<Rightarrow> s | Some ty \<Rightarrow> snd (update_activity u a ty c s))"

fun meet_exec :: "meet_request \<Rightarrow> db \<Rightarrow> db" where
  "meet_exec (Create u ai) s = with_member s u (\<lambda>u. snd (create_activity u ai s))"
| "meet_exec (Ask u a) s = with_member s u (\<lambda>u. with_activity s a (\<lambda>a. snd (request_to_join u a s)))"
| "meet_exec (Leave u a) s = snd (leave_activity u a s)"
| "meet_exec (Companion u a b) s = with_member s u (\<lambda>u. snd (set_support_companion u a b s))"
| "meet_exec (Vote u m b) s = with_place s m (\<lambda>a m. snd (cast_vote u a m b s))"
| "meet_exec (Override u m) s = with_place s m (\<lambda>a m. snd (owner_admit u a m s))"
| "meet_exec (Seat u a g) s =
     with_member s u (\<lambda>u. with_member s g (\<lambda>g. with_activity s a (\<lambda>a. snd (add_guardian u a g s))))"
| "meet_exec (Supervise u a b) s =
     with_member s u (\<lambda>u. with_activity s a (\<lambda>a. snd (set_activity_supervision u a b s)))"
| "meet_exec (Promote u a v) s =
     with_member s u (\<lambda>u. with_member s v (\<lambda>v. with_activity s a (\<lambda>a. snd (grant_co_organizer u a v s))))"
| "meet_exec (Demote u a v) s =
     with_member s u (\<lambda>u. with_member s v (\<lambda>v. with_activity s a (\<lambda>a. snd (revoke_co_organizer u a v s))))"
| "meet_exec (HandOver u a v) s =
     with_member s u (\<lambda>u. with_member s v (\<lambda>v. with_activity s a (\<lambda>a. snd (transfer_ownership u a v s))))"
| "meet_exec (ListPublicly u a b) s =
     with_member s u (\<lambda>u. with_activity s a (\<lambda>a. snd (set_activity_listing u a b s)))"
| "meet_exec (Cancel u a r) s = with_activity s a (\<lambda>a. snd (cancel_activity u a r s))"
| "meet_exec (Complete a) s = with_activity s a (\<lambda>a. complete_activity a s)"
| "meet_exec (Edit u a c) s = with_member s u (\<lambda>u. with_activity s a (\<lambda>a. edit_with_type u a c s))"
| "meet_exec (Move u a p) s = with_member s u (\<lambda>u. with_activity s a (\<lambda>a. snd (move_activity u a p s)))"
| "meet_exec (Rsvp u a i) s = snd (set_attendance_intent u a i s)"
| "meet_exec (Met u a b) s = with_activity s a (\<lambda>a. snd (set_met_confirmed u a b s))"
| "meet_exec (Arrive u a) s = with_member s u (\<lambda>u. with_activity s a (\<lambda>a. snd (mark_arrived u a s)))"
| "meet_exec (Depart u a) s = with_member s u (\<lambda>u. with_activity s a (\<lambda>a. snd (mark_departing u a s)))"
| "meet_exec (Signal u a t) s = with_member s u (\<lambda>u. with_activity s a (\<lambda>a. snd (set_transit_status u a t s)))"
| "meet_exec (ExpireSignals h) s = snd (snd (expire_arrivals h s))"
| "meet_exec (CreateSeries u ai c) s = with_member s u (\<lambda>u. snd (create_series u ai c s))"
| "meet_exec (PauseSeries u x) s = with_series s x (\<lambda>x. snd (pause_series u x s))"
| "meet_exec (ResumeSeries u x) s = with_series s x (\<lambda>x. snd (resume_series u x s))"
| "meet_exec (EndSeries u x) s = with_series s x (\<lambda>x. snd (end_series u x s))"
| "meet_exec (NoteSeries u x n) s = with_series s x (\<lambda>x. snd (set_next_instance_note u x n s))"
| "meet_exec Spawn s = snd (spawn_due_series (clock s) s)"
| "meet_exec (Later d) s = s\<lparr> clock := max (clock s) (clock s + d) \<rparr>"

lemma with_activity_intro: "P s \<Longrightarrow> (\<And>a. a \<in> set (activities s) \<Longrightarrow> ac_id a = i \<Longrightarrow> P (f a)) \<Longrightarrow> P (with_activity s i f)"
  by (auto simp: with_activity_def activity_row_def split: option.splits dest: find_SomeD)

lemma with_series_intro: "P s \<Longrightarrow> (\<And>x. x \<in> set (all_series s) \<Longrightarrow> P (f x)) \<Longrightarrow> P (with_series s i f)"
  by (auto simp: with_series_def split: option.splits dest: find_SomeD)

lemma with_place_intro: "P s \<Longrightarrow> (\<And>a m. a \<in> set (activities s) \<Longrightarrow> m \<in> set (memberships s) \<Longrightarrow> ac_id a = mb_activity m \<Longrightarrow>
   mb_id m = i \<Longrightarrow> P (f a m)) \<Longrightarrow> P (with_place s i f)"
  by (auto simp: with_place_def split: option.splits dest!: find_SomeD intro!: with_activity_intro [where P = P])

lemma meet_exec_inv: "meets_inv s \<Longrightarrow> meets_inv (meet_exec q s)"
proof -
  assume inv: "meets_inv s"
  have "meets_inv (edit_with_type u a c s)" if "a \<in> set (activities s)" for u a c
    using update_inv [OF inv that] inv by (simp add: edit_with_type_def split: option.split)
  moreover have "meets_inv (s\<lparr> clock := t \<rparr>)" for t by (rule meets_inv_cong [OF inv]) simp_all
  ultimately show ?thesis
    using inv
    by (cases q)
      (auto intro!: with_member_intro [where P = meets_inv] with_activity_intro [where P = meets_inv]
        with_series_intro [where P = meets_inv] with_place_intro [where P = meets_inv]
        create_activity_inv request_inv withdraw_inv companion_inv vote_inv owner_admit_inv add_guardian_inv
        supervision_inv promote_inv revoke_inv transfer_inv listing_inv cancel_inv complete_inv move_inv
        rsvp_inv met_inv arrive_inv depart_inv transit_inv expire_inv create_series_inv series_state_inv spawn_inv)
qed

interpretation meets: service meet_exec meets_inv
  by unfold_locales (rule meet_exec_inv)

end
