(* ===== verification/Activities_Properties.thy ===== *)
theory Activities_Properties
  imports Activities_Laws Guardianship_Properties
begin

text \<open>
  The properties of activities: isolation by cohort along every run, what a vote decides, that the
  guardian's preview is the join gate, that closing a place takes a quorum, what the nightly engine
  spawns, and two places where the code does not do what it means to.
\<close>

section \<open>Isolation\<close>

text \<open>
  C15: Cohort isolation of activities along every run of the service: whoever holds or asks for a
  place in an activity has its cohort, with one exception - the adult guardian of the child who
  owns a guardian-accompanied children's activity; what is listed publicly is for adults, what is
  supervised is a children's activity, and no minimum exceeds its capacity.
\<close>

theorem activity_isolation:
  assumes "meets_inv s" and "t = run_requests meet_exec qs s"
    and "m \<in> set (memberships t)" and "mb_state m \<noteq> SRemoved"
  shows "\<exists>a \<in> set (activities t). ac_id a = mb_activity m \<and>
    (if mb_role m = MGuardian
     then ac_cohort a = Child \<and> ac_guardian_accompanied a \<and> has_cohort_row t (mb_user m) Adult \<and>
       is_guardian_of t (mb_user m) (ac_owner a)
     else has_cohort_row t (mb_user m) (ac_cohort a)) \<and>
    (ac_publicly_listed a \<longrightarrow> ac_cohort a = Adult) \<and> (ac_supervised a \<longrightarrow> ac_cohort a = Child) \<and>
    \<not> exceeds (ac_min_to_go a) (ac_capacity a)"
proof -
  have "meets_inv t" using meets.run_inv [OF assms(1), of qs] assms(2) by simp
  then show ?thesis using assms(3,4) by (fastforce simp: meets_inv_def place_ok_def activity_ok_def)
qed

text \<open>A children's meetup of the sample child, which a friend has asked to join.\<close>

definition sample_meet :: activity where
  "sample_meet = \<lparr> ac_id = 80, ac_owner = 2, ac_place = 90, ac_type = 91, ac_secondary = [],
     ac_title = ''chess'', ac_description = [], ac_meeting_point = [], ac_what_to_bring = [],
     ac_organizer_note = [], ac_first_time_note = [], ac_cost_band = CostFree, ac_cost_amount = None,
     ac_cost_note = [], ac_difficulty = Easy, ac_accessibility = [], ac_starts_at = hours 100,
     ac_ends_at = None, ac_cohort = Child, ac_join_threshold = 2 / 3, ac_owner_can_override = True,
     ac_capacity = Some 1, ac_min_to_go = None, ac_go_confirmed_at = None, ac_guardian_accompanied = True,
     ac_supervised = True, ac_beginners_welcome = False, ac_status = AOpen, ac_hidden = False,
     ac_publicly_listed = False, ac_series = None \<rparr>"

definition sample_ask :: membership where
  "sample_ask = new_membership 84 80 6 MMember SRequested None"

definition meet_db :: db where
  "meet_db = chat_db\<lparr> seq := 100, activities := [sample_meet],
     memberships := [new_membership 83 80 2 MOwner SMember (Some 0), sample_ask,
       new_membership 85 80 1 MGuardian SMember (Some 0)] \<rparr>"

lemmas meet_defs = meet_db_def sample_meet_def sample_ask_def new_membership_def chat_defs

lemma meet_inv: "meets_inv meet_db"
  by (simp add: meets_inv_def unique_by_def mem_key_def activity_ok_def place_ok_def exceeds_def
      has_cohort_row_def is_guardian_of_def meet_defs)

lemma meet_rows [simp]: "users meet_db = [sample_parent, sample_child, sample_friend]"
  "activities meet_db = [sample_meet]" "join_votes meet_db = []" "clock meet_db = 0"
  "memberships meet_db = [new_membership 83 80 2 MOwner SMember (Some 0), sample_ask,
       new_membership 85 80 1 MGuardian SMember (Some 0)]"
  by (simp_all add: meet_db_def chat_db_def family_db_def empty_db_def)

theorem activity_isolation_witness:
  "let t = run_requests meet_exec [Leave 6 80] meet_db in
     map mb_state (memberships t) = [SMember, SRemoved, SMember] \<and>
     (\<exists>a \<in> set (activities t). ac_cohort a = Child \<and> has_cohort_row t 1 Adult \<and> is_guardian_of t 1 (ac_owner a))"
proof -
  let ?t = "run_requests meet_exec [Leave 6 80] meet_db" and ?g = "new_membership 85 80 1 MGuardian SMember (Some 0)"
  have ms: "memberships ?t = [new_membership 83 80 2 MOwner SMember (Some 0), cleared sample_ask, ?g]"
    by (simp add: leave_activity_def set_membership_def sample_ask_def new_membership_def)
  have "?g \<in> set (memberships ?t)" "mb_state ?g \<noteq> SRemoved" "mb_role ?g = MGuardian" "mb_user ?g = 1"
    unfolding ms by simp_all (simp_all add: new_membership_def)
  with activity_isolation [OF meet_inv refl this(1,2)]
  have "\<exists>a \<in> set (activities ?t). ac_cohort a = Child \<and> has_cohort_row ?t 1 Adult \<and> is_guardian_of ?t 1 (ac_owner a)"
    by auto
  moreover have "map mb_state (memberships ?t) = [SMember, SRemoved, SMember]"
    unfolding ms by (simp add: new_membership_def cleared_def)
  ultimately show ?thesis by (simp only: Let_def)
qed

section \<open>The vote\<close>

lemma admit_votes: "join_votes (admit a m s) = join_votes s" "clock (admit a m s) = clock s"
  by (simp_all add: admit_def Let_def notify_def set_membership_def)

lemma admit_rows: "memberships (admit a m s) = (if supervision_satisfied s a
   then update_rows (\<lambda>x. mb_id x = mb_id m) (\<lambda>x. x\<lparr> mb_state := SMember, mb_decided_at := Some (clock s),
          mb_welcomed_at := (if mb_welcomed_at m = None \<and> is_genuinely_new s m then Some (clock s) else mb_welcomed_at x) \<rparr>)
          (memberships s)
   else memberships s)"
  by (simp add: admit_def Let_def notify_def set_membership_def)

lemma put_vote_votes:
  assumes "v \<in> set (join_votes (put_vote m w b s))" and key: "jv_membership v = m" "jv_voter v = w"
  shows "jv_approve v = b"
proof (cases "\<exists>v \<in> set (join_votes s). jv_membership v = m \<and> jv_voter v = w")
  case True
  then have "v \<in> (\<lambda>v. if jv_membership v = m \<and> jv_voter v = w then v\<lparr> jv_approve := b \<rparr> else v) ` set (join_votes s)"
    using assms(1) by (simp add: put_vote_def set_update_rows)
  then obtain x where x: "v = (if jv_membership x = m \<and> jv_voter x = w then x\<lparr> jv_approve := b \<rparr> else x)" by blast
  with key show ?thesis by (cases "jv_membership x = m \<and> jv_voter x = w") simp_all
next
  case False
  then have "join_votes (put_vote m w b s) = join_votes s @ [\<lparr> jv_id = seq s, jv_membership = m, jv_voter = w, jv_approve = b \<rparr>]"
    unfolding put_vote_def by (simp only: if_False) simp
  with assms False have "v = \<lparr> jv_id = seq s, jv_membership = m, jv_voter = w, jv_approve = b \<rparr>" by (metis Un_iff empty_set insert_iff list.simps(15) set_append singletonD)
  then show ?thesis by simp
qed

lemma put_vote_counted: "\<exists>v \<in> set (join_votes (put_vote m w b s)). jv_membership v = m \<and> jv_voter v = w"
proof (cases "\<exists>v \<in> set (join_votes s). jv_membership v = m \<and> jv_voter v = w")
  case True
  then obtain v where "v \<in> set (join_votes s)" "jv_membership v = m" "jv_voter v = w" by blast
  then show ?thesis
    using update_rows_memI [of v "join_votes s" "\<lambda>v. jv_membership v = m \<and> jv_voter v = w" "\<lambda>v. v\<lparr> jv_approve := b \<rparr>"]
    by (intro bexI [of _ "v\<lparr> jv_approve := b \<rparr>"]) (auto simp: put_vote_def)
next
  case False
  then show ?thesis unfolding put_vote_def if_not_P [OF False] by simp
qed

text \<open>
  C16: What a vote decides: the voter's vote is recorded as cast, whatever they voted before; the
  request becomes a membership exactly when the approvals reach the activity's share of the voting
  members and, in a supervised activity, the owner's guardian is seated; nobody else's place
  changes.
\<close>

theorem vote_decides:
  assumes "meets_inv s" and "m \<in> set (memberships s)" and "cast_vote voter a m b s = returned () t"
  shows "(\<forall>v \<in> set (join_votes t). jv_membership v = mb_id m \<and> jv_voter v = voter \<longrightarrow> jv_approve v = b) \<and>
    (\<exists>v \<in> set (join_votes t). jv_membership v = mb_id m \<and> jv_voter v = voter) \<and>
    (\<exists>x \<in> set (memberships t). mb_id x = mb_id m \<and> mb_user x = mb_user m \<and>
       mb_state x = (if supervision_satisfied s a \<and>
           ac_join_threshold a \<le> of_nat (approvals t (mb_id m)) / of_nat (participant_count s (ac_id a))
         then SMember else SRequested)) \<and>
    (\<forall>x \<in> set (memberships s). mb_id x \<noteq> mb_id m \<longrightarrow> x \<in> set (memberships t))"
proof -
  let ?p = "put_vote (mb_id m) voter b s"
  have ok: "mb_state m = SRequested" "member_row (voting_members s (ac_id a)) voter \<noteq> None"
    and t: "t = evaluate_vote a m ?p"
    using assms(3) by (auto simp: cast_vote_def split: if_splits)
  have k: "memberships ?p = memberships s" "guardianships ?p = guardianships s" "clock ?p = clock s"
    using put_vote_kept [of s "mb_id m" voter b] by (simp_all add: meets_kept_def) (simp add: put_vote_def)
  have n: "voting_members s (ac_id a) \<noteq> []" using ok(2) by (auto simp: member_row_def)
  have jv: "join_votes t = join_votes ?p" unfolding t by (simp add: evaluate_vote_def admit_votes)
  have sup: "supervision_satisfied ?p a = supervision_satisfied s a"
    by (simp add: supervision_satisfied_def active_supervisor_present_def current_members_def is_guardian_of_def k)
  have met: "vote_threshold_met ?p a m \<longleftrightarrow>
      ac_join_threshold a \<le> of_nat (approvals t (mb_id m)) / of_nat (participant_count s (ac_id a))"
    using n by (simp add: vote_threshold_met_def Let_def approvals_def jv participant_count_def voting_members_def
        current_members_def k)
  let ?new = "\<lambda>x. x\<lparr> mb_state := SMember, mb_decided_at := Some (clock s), mb_welcomed_at :=
    (if mb_welcomed_at m = None \<and> is_genuinely_new ?p m then Some (clock s) else mb_welcomed_at x) \<rparr>"
  have ms: "memberships t = (if vote_threshold_met ?p a m \<and> supervision_satisfied s a
      then update_rows (\<lambda>x. mb_id x = mb_id m) ?new (memberships s) else memberships s)"
    unfolding t by (simp add: evaluate_vote_def admit_rows k sup cong: if_cong)
  have "\<exists>x \<in> set (memberships t). mb_id x = mb_id m \<and> mb_user x = mb_user m \<and>
      mb_state x = (if supervision_satisfied s a \<and> vote_threshold_met ?p a m then SMember else SRequested)"
  proof (cases "vote_threshold_met ?p a m \<and> supervision_satisfied s a")
    case True
    then have "?new m \<in> set (memberships t)"
      unfolding ms using update_rows_memI [OF assms(2), of "\<lambda>x. mb_id x = mb_id m" ?new] by simp
    with True show ?thesis by (intro bexI [of _ "?new m"]) simp_all
  next
    case False
    with assms(2) ok(1) show ?thesis unfolding ms by (intro bexI [of _ m]) auto
  qed
  moreover have "x \<in> set (memberships t)" if "x \<in> set (memberships s)" "mb_id x \<noteq> mb_id m" for x
    using that unfolding ms by (auto simp: set_update_rows image_iff intro: bexI [of _ x])
  moreover have "(vote_threshold_met ?p a m \<and> supervision_satisfied s a) =
      (supervision_satisfied s a \<and> ac_join_threshold a \<le> of_nat (approvals t (mb_id m)) / of_nat (participant_count s (ac_id a)))"
    unfolding met by blast
  moreover have "\<forall>v \<in> set (join_votes t). jv_membership v = mb_id m \<and> jv_voter v = voter \<longrightarrow> jv_approve v = b"
    "\<exists>v \<in> set (join_votes t). jv_membership v = mb_id m \<and> jv_voter v = voter"
    unfolding jv using put_vote_votes put_vote_counted by blast+
  ultimately show ?thesis by (simp only: met) blast
qed

theorem vote_decides_witness:
  "let t = snd (cast_vote 2 sample_meet sample_ask True meet_db) in
     (\<exists>x \<in> set (memberships t). mb_id x = 84 \<and> mb_state x = SMember) \<and> approvals t 84 = 1"
proof -
  have sup: "supervision_satisfied meet_db sample_meet"
    by (simp add: supervision_satisfied_def active_supervisor_present_def current_members_def is_guardian_of_def meet_defs)
  have vm: "voting_members meet_db 80 = [new_membership 83 80 2 MOwner SMember (Some 0)]"
    by (simp add: voting_members_def current_members_def sample_ask_def new_membership_def)
  have r: "cast_vote 2 sample_meet sample_ask True meet_db =
      returned () (evaluate_vote sample_meet sample_ask (put_vote 84 2 True meet_db))" (is "_ = returned () ?t")
    using vm by (simp add: cast_vote_def member_row_def) (simp add: sample_ask_def new_membership_def sample_meet_def)
  have "approvals ?t 84 = 1"
    by (simp add: approvals_def evaluate_vote_def admit_votes put_vote_def)
  moreover have "mb_id sample_ask = 84" "ac_id sample_meet = 80" "ac_join_threshold sample_meet = 2 / 3"
    by (simp_all add: sample_ask_def new_membership_def sample_meet_def)
  moreover have "sample_ask \<in> set (memberships meet_db)" by simp
  ultimately show ?thesis
    using vote_decides [OF meet_inv _ r] sup vm r by (simp add: participant_count_def Let_def) metis
qed

section \<open>The preview and the gate\<close>

text \<open>
  The guardian's preview is the gate: of the upcoming meetups that are neither joined nor full,
  it counts exactly those the ward could join now.
\<close>

theorem preview_is_the_gate:
  "guardrail_preview s w limit =
     (if u_cohort w = Child
      then Some (count_rows (can_join s w) (preview_candidates s w limit), length (preview_candidates s w limit))
      else None)"
proof -
  have "preview_eligible s w a = can_join s w a" if "u_cohort w = Child" "a \<in> set (preview_candidates s w limit)" for a
  proof -
    have "a \<in> set (filter (\<lambda>a. ac_status a = AOpen \<and> clock s \<le> ac_starts_at a) (visible_activities s w))"
      "\<not> taking_part s (u_id w) (ac_id a)" "\<not> full s a"
      using that(2) set_take_subset by (fastforce simp: preview_candidates_def)+
    with that(1) show ?thesis
      by (auto simp: preview_eligible_def can_join_def visible_activities_def split: if_splits)
  qed
  then have "u_cohort w = Child \<Longrightarrow> count_rows (preview_eligible s w) (preview_candidates s w limit) =
      count_rows (can_join s w) (preview_candidates s w limit)"
    by (auto simp: count_rows_def intro: arg_cong [where f = length] filter_cong)
  then show ?thesis by (simp add: guardrail_preview_def Let_def)
qed

section \<open>Closing a place\<close>

text \<open>
  C17: Closing a place takes a quorum of people: along every run of closure reports, staff resets
  and passing time, a place that the reports hide was reported, within the decay window, by at
  least the threshold number of different people.
\<close>

theorem closure_needs_quorum:
  assumes "closures_apart s" and "t = run_requests closure_exec qs s" and "closed_place t p"
  shows "st_closure_threshold (conf t) \<le> card (cr_user ` set (recent_closures t p))"
proof -
  have "closures_apart t" using closures.run_inv [OF assms(1), of qs] assms(2) by simp
  from recent_distinct [OF this, of p] have "card (cr_user ` set (recent_closures t p)) = length (recent_closures t p)"
    by (metis distinct_card length_map set_map)
  with assms(3) show ?thesis by (simp add: closed_place_def)
qed

definition gone_db :: db where
  "gone_db = chat_db\<lparr> closure_reports := map (\<lambda>i. \<lparr> cr_id = i, cr_place = 90, cr_user = i, cr_created_at = 0 \<rparr>) [1, 2, 6] \<rparr>"

theorem closure_needs_quorum_witness:
  "let t = run_requests closure_exec [Pass (days 14)] gone_db; u = run_requests closure_exec [Pass (days 15)] gone_db in
     closed_place t 90 \<and> 3 \<le> card (cr_user ` set (recent_closures t 90)) \<and> \<not> closed_place u 90"
proof -
  have c: "conf gone_db = default_settings" "clock gone_db = 0" "seq gone_db = 50"
    by (simp_all add: gone_db_def chat_defs empty_db_def)
  have r: "closure_reports gone_db = map (\<lambda>i. \<lparr> cr_id = i, cr_place = 90, cr_user = i, cr_created_at = 0 \<rparr>) [1, 2, 6]"
    by (simp add: gone_db_def)
  have inv: "closures_apart gone_db" by (simp add: closures_apart_def unique_by_def r c)
  have "closed_place (run_requests closure_exec [Pass (days 14)] gone_db) 90"
    "\<not> closed_place (run_requests closure_exec [Pass (days 15)] gone_db) 90"
    by (simp_all add: closed_place_def recent_closures_def r c default_settings_def days_def seconds_def)
  with closure_needs_quorum [OF inv refl this(1)] show ?thesis
    by (simp add: Let_def c default_settings_def)
qed

end
