(* ===== verification/Admission_Properties.thy ===== *)
theory Admission_Properties
  imports Activities_Properties
begin

text \<open>
  Two places where admission does not do what it means to: a member who left can never ask again,
  because the row of their old place stays and the table admits one row per activity and user; and
  an approval checks nothing about the person it admits, so a request outlives a change of cohort.
\<close>

section \<open>Rows stay\<close>

lemma row_kept: "meets_kept s t \<Longrightarrow> has_membership_row t a u = has_membership_row s a u"
  by (simp add: has_membership_row_def meets_kept_def)

lemma row_frames [simp]:
  "has_membership_row (snd (notify r k ti b w s)) a u = has_membership_row s a u"
  "has_membership_row (snd (notify_each rs k ti b w s)) a u = has_membership_row s a u"
  "has_membership_row (record_audit e ac tg d s) a u = has_membership_row s a u"
  "has_membership_row (notify_members ms k ti b w s) a u = has_membership_row s a u"
  "has_membership_row (put_vote i v bo s) a u = has_membership_row s a u"
  "has_membership_row (supersede_reminders i s) a u = has_membership_row s a u"
  "has_membership_row (set_series i g s) a u = has_membership_row s a u"
  by (intro row_kept notify_kept notify_each_kept audit_kept members_notified_kept put_vote_kept
      reminders_kept set_series_kept)+

lemma row_set_activity [simp]: "has_membership_row (set_activity i f s) a u = has_membership_row s a u"
  by (simp add: has_membership_row_def set_activity_def)

lemma row_rows:
  "(\<And>m. mb_activity (f m) = mb_activity m) \<Longrightarrow> (\<And>m. mb_user (f m) = mb_user m) \<Longrightarrow>
   (\<exists>m \<in> set (update_rows P f rs). mb_activity m = a \<and> mb_user m = u) = (\<exists>m \<in> set rs. mb_activity m = a \<and> mb_user m = u)"
  by (simp add: ex_update_rows)

lemma row_set [simp]: "(\<And>m. mb_activity (f m) = mb_activity m) \<Longrightarrow> (\<And>m. mb_user (f m) = mb_user m) \<Longrightarrow>
   has_membership_row (set_membership i f s) a u = has_membership_row s a u"
  by (simp add: has_membership_row_def set_membership_def row_rows)

lemma row_insert: "has_membership_row s a u \<Longrightarrow> has_membership_row (insert_membership m s) a u"
  "has_membership_row s a u \<Longrightarrow> has_membership_row (insert_activity b s) a u"
  by (auto simp: has_membership_row_def insert_membership_def insert_activity_def)

lemma row_admit [simp]: "has_membership_row (admit b m s) a u = has_membership_row s a u"
  by (simp add: admit_def Let_def)

lemma row_settle [simp]: "has_membership_row (settle_pending_joins b s) a u = has_membership_row s a u"
proof -
  have "has_membership_row (fold (evaluate_vote b) ms s) a u = has_membership_row s a u" for ms
    by (induction ms arbitrary: s) (simp_all add: evaluate_vote_def)
  then show ?thesis by (simp add: settle_pending_joins_def)
qed

lemma row_confirm [simp]: "has_membership_row (maybe_confirm_meetup i s) a u = has_membership_row s a u"
  by (simp add: maybe_confirm_meetup_def notify_meetup_confirmed_def split: option.split)

lemma row_create: "has_membership_row s a u \<Longrightarrow> has_membership_row (snd (create_activity w ai s)) a u"
  by (cases rule: create_activity_cases [of w ai s]) (simp_all add: row_insert)

lemma row_join:
  "has_membership_row s a u \<Longrightarrow> has_membership_row (snd (request_to_join w b s)) a u"
  "has_membership_row s a u \<Longrightarrow> has_membership_row (snd (leave_activity i j s)) a u"
  "has_membership_row s a u \<Longrightarrow> has_membership_row (snd (set_support_companion w j br s)) a u"
  "has_membership_row s a u \<Longrightarrow> has_membership_row (snd (cast_vote i b m br s)) a u"
  "has_membership_row s a u \<Longrightarrow> has_membership_row (snd (owner_admit i b m s)) a u"
  "has_membership_row s a u \<Longrightarrow> has_membership_row (snd (add_guardian w b g s)) a u"
  "has_membership_row s a u \<Longrightarrow> has_membership_row (snd (set_activity_supervision w b br s)) a u"
  by (simp_all add: request_to_join_def leave_activity_def cleared_def set_support_companion_def cast_vote_def
      evaluate_vote_def owner_admit_def add_guardian_def set_activity_supervision_def Let_def row_insert
      split: option.split)

lemma row_roles:
  "has_membership_row s a u \<Longrightarrow> has_membership_row (snd (grant_co_organizer w b v s)) a u"
  "has_membership_row s a u \<Longrightarrow> has_membership_row (snd (revoke_co_organizer w b v s)) a u"
  "has_membership_row s a u \<Longrightarrow> has_membership_row (snd (transfer_ownership w b v s)) a u"
  "has_membership_row s a u \<Longrightarrow> has_membership_row (snd (set_activity_listing w b br s)) a u"
  by (simp_all add: grant_co_organizer_def revoke_co_organizer_def transfer_ownership_def set_activity_listing_def
      set_role_def Let_def split: option.split)

lemma row_meetup:
  "has_membership_row s a u \<Longrightarrow> has_membership_row (snd (cancel_activity i b r s)) a u"
  "has_membership_row s a u \<Longrightarrow> has_membership_row (complete_activity b s) a u"
  "has_membership_row s a u \<Longrightarrow> has_membership_row (snd (move_activity w b po s)) a u"
  "has_membership_row s a u \<Longrightarrow> has_membership_row (snd (set_attendance_intent i j n s)) a u"
  "has_membership_row s a u \<Longrightarrow> has_membership_row (snd (set_met_confirmed i b br s)) a u"
  "has_membership_row s a u \<Longrightarrow> has_membership_row (snd (mark_arrived w b s)) a u"
  "has_membership_row s a u \<Longrightarrow> has_membership_row (snd (mark_departing w b s)) a u"
  "has_membership_row s a u \<Longrightarrow> has_membership_row (snd (set_transit_status w b st s)) a u"
  "has_membership_row s a u \<Longrightarrow> has_membership_row (snd (snd (expire_arrivals h s))) a u"
  by (simp_all add: cancel_activity_def complete_activity_def move_activity_def set_attendance_intent_def
      set_met_confirmed_def mark_arrived_def mark_departing_def set_transit_status_def expire_arrivals_def Let_def
      split: option.split)
    (simp add: has_membership_row_def row_rows)

lemma row_edit: "has_membership_row s a u \<Longrightarrow> has_membership_row (snd (update_activity w b ty c s)) a u"
  by (simp add: update_activity_def store_changes_def Let_def split: option.split sum.split)

lemma row_series:
  "has_membership_row s a u \<Longrightarrow> has_membership_row (snd (create_series w ai c s)) a u"
  "has_membership_row s a u \<Longrightarrow> has_membership_row (snd (pause_series i x s)) a u"
  "has_membership_row s a u \<Longrightarrow> has_membership_row (snd (resume_series i x s)) a u"
  "has_membership_row s a u \<Longrightarrow> has_membership_row (snd (end_series i x s)) a u"
  "has_membership_row s a u \<Longrightarrow> has_membership_row (snd (set_next_instance_note i x n s)) a u"
  by (simp_all add: create_series_def pause_series_def resume_series_def end_series_def set_next_instance_note_def
      Let_def split: option.split)
    (simp_all add: has_membership_row_def)

lemma row_spawn_one: "has_membership_row s a u \<Longrightarrow> has_membership_row (snd (spawn_one now lead cap i (n, s))) a u"
proof -
  assume row: "has_membership_row s a u"
  have "has_membership_row s1 a u" if "create_activity w ai s = (r, s1)" for w ai r s1
    using row_create [OF row, of w ai] that by simp
  with row show ?thesis
    by (auto simp: spawn_one_def spawn_instance_def move_cursor_def Let_def split: option.split prod.split sum.split)
qed

lemma row_spawn: "has_membership_row s a u \<Longrightarrow> has_membership_row (snd (spawn_due_series now s)) a u"
  unfolding spawn_due_series_def Let_def case_prod_beta snd_conv row_frames
  by (rule fold_pair_keeps [of "\<lambda>s. has_membership_row s a u"]) (simp_all add: row_spawn_one)

lemma row_exec: "has_membership_row s a u \<Longrightarrow> has_membership_row (meet_exec q s) a u"
proof -
  let ?P = "\<lambda>s. has_membership_row s a u"
  assume row: "has_membership_row s a u"
  have "has_membership_row (edit_with_type w b c s) a u" for w b c
    using row_edit [OF row] row by (simp add: edit_with_type_def split: option.split)
  moreover have "has_membership_row (s\<lparr> clock := t \<rparr>) a u" for t using row by (simp add: has_membership_row_def)
  ultimately show ?thesis
    using row
    by (cases q)
      (auto intro!: with_member_intro [where P = ?P] with_activity_intro [where P = ?P]
        with_series_intro [where P = ?P] with_place_intro [where P = ?P]
        row_create row_join row_roles row_meetup row_series row_spawn)
qed

interpretation rows: service meet_exec "\<lambda>s. has_membership_row s a u"
  by unfold_locales (rule row_exec)

section \<open>Leaving is for good\<close>

text \<open>
  C19: A member who left an activity can never ask to join it again: whatever happens after they
  left, a request of theirs that passes the gate fails on the uniqueness of the membership row
  that leaving keeps, although leaving resets that row so that re-joining starts clean.
\<close>

theorem rejoin_refused:
  assumes "leave_activity (u_id v) (ac_id a) s = returned (Some i) t" and "w = run_requests meet_exec qs t"
  shows "request_to_join v a w =
    (if can_join w v a then raised social_error.IntegrityError w
     else raised (NotEligible ''User is not eligible to join this activity.'') w)"
proof -
  have "has_membership_row s (ac_id a) (u_id v)"
    using assms(1) by (auto simp: leave_activity_def has_membership_row_def split: option.splits if_splits dest!: find_SomeD)
  then have "has_membership_row t (ac_id a) (u_id v)"
    using row_join(2) [of s "ac_id a" "u_id v" "u_id v" "ac_id a"] assms(1) by simp
  then have "has_membership_row w (ac_id a) (u_id v)"
    using rows.run_inv assms(2) by blast
  then show ?thesis by (simp add: request_to_join_def)
qed

definition open_meet :: activity where
  "open_meet = sample_meet\<lparr> ac_owner := 7, ac_cohort := Adult, ac_capacity := None,
     ac_guardian_accompanied := False, ac_supervised := False \<rparr>"

definition seated_parent :: membership where
  "seated_parent = new_membership 84 80 1 MMember SMember (Some 0)"

definition left_db :: db where
  "left_db = meet_db\<lparr> activities := [open_meet], memberships := [seated_parent] \<rparr>"

theorem rejoin_refused_witness:
  "\<exists>t. leave_activity 1 80 left_db = returned (Some 84) t \<and> can_join t sample_parent open_meet \<and>
     request_to_join sample_parent open_meet t = raised social_error.IntegrityError t"
proof -
  let ?t = "set_membership 84 cleared left_db"
  have ids: "u_id sample_parent = 1" "ac_id open_meet = 80" "u_cohort sample_parent = Adult"
    by (simp_all add: open_meet_def sample_meet_def sample_parent_def)
  have ms: "memberships ?t = [cleared seated_parent]"
    by (simp add: set_membership_def left_db_def seated_parent_def new_membership_def)
  have l: "leave_activity (u_id sample_parent) (ac_id open_meet) left_db = returned (Some 84) ?t"
    by (simp add: ids leave_activity_def left_db_def seated_parent_def new_membership_def)
  have "can_participate ?t sample_parent"
    by (simp add: can_participate_iff is_assurance_current_iff latest_assurance_def requires_parental_consent_def
        set_membership_def left_db_def meet_db_def chat_defs)
  then have j: "can_join ?t sample_parent open_meet"
    by (simp add: can_join_def ids full_def taking_part_def ms)
      (simp add: open_meet_def sample_meet_def cleared_def)
  have "run_requests meet_exec [] ?t = ?t" by simp
  from rejoin_refused [OF l this [symmetric]] j l show ?thesis by (auto simp: ids)
qed

section \<open>An approval asks nothing\<close>

lemma assurance_places:
  "apply_assurance v r s = (v', t) \<Longrightarrow> memberships t = memberships s \<and> activities t = activities s \<and>
     guardianships t = guardianships s"
  by (auto simp: apply_assurance_eq evicted_def proof_saved_def Let_def split: if_splits)

lemma assurance_cohort:
  "apply_assurance v r s = (v', t) \<Longrightarrow> v \<in> set (users s) \<Longrightarrow>
     u_cohort v' = assign_cohort (ar_age_band r) \<and> has_cohort_row t (u_id v) (assign_cohort (ar_age_band r))"
  using saved_rows [of v r s "u_id v" "assign_cohort (ar_age_band r)"]
  by (auto simp: apply_assurance_eq evicted_def recorded_cohort has_cohort_row_def Let_def split: if_splits)

text \<open>
  C20: An approval asks nothing about the person it admits: after a new age proof has moved a user to
  another cohort, their pending request still stands, and the organiser's approval succeeds and
  seats them, whatever the cohort of the activity, whether or not they may take part and whether or
  not a place is left. All it needs is that the activity lets its organiser override and has the
  supervision it asks for.
\<close>

theorem stale_request_admitted:
  assumes "v \<in> set (users s)" and "m \<in> set (memberships s)" and "mb_user m = u_id v" and "mb_state m = SRequested"
    and "apply_assurance v r s = (v', t)" and "is_organizer t org a" and "ac_owner_can_override a" and "supervision_satisfied t a"
  shows "\<exists>w. owner_admit org a m t = returned () w \<and>
    (\<exists>x \<in> set (memberships w). mb_id x = mb_id m \<and> mb_user x = u_id v \<and> mb_state x = SMember) \<and>
    has_cohort_row w (u_id v) (assign_cohort (ar_age_band r))"
proof -
  note t = assurance_places [OF assms(5)] and c = assurance_cohort [OF assms(5,1)]
  let ?w = "admit a m t"
  have ok: "owner_admit org a m t = returned () ?w" using assms(4,6-8) by (simp add: owner_admit_def)
  let ?new = "\<lambda>x. x\<lparr> mb_state := SMember, mb_decided_at := Some (clock t), mb_welcomed_at :=
    (if mb_welcomed_at m = None \<and> is_genuinely_new t m then Some (clock t) else mb_welcomed_at x) \<rparr>"
  have "?new m \<in> set (memberships ?w)"
    using update_rows_memI [of m "memberships t" "\<lambda>x. mb_id x = mb_id m" ?new] assms(2) t
    by (simp add: admit_rows assms(8))
  moreover have "users ?w = users t"
    by (simp add: admit_def Let_def notify_def set_membership_def)
  ultimately show ?thesis
    using assms(3) c ok by (intro exI [of _ ?w] conjI bexI [of _ "?new m"]) (simp_all add: has_cohort_row_def)
qed

definition grown_up :: assurance_result where
  "grown_up = \<lparr> ar_provider = ''eudi'', ar_method = ''m'', ar_age_band = BandAdult, ar_verified = True,
     ar_expires_at = None, ar_raw = [], ar_holder_sub = None \<rparr>"

theorem stale_request_admitted_witness:
  "let (v, t) = apply_assurance sample_friend grown_up meet_db in
     ac_cohort sample_meet = Child \<and> full t sample_meet \<and> (\<exists>w. owner_admit 2 sample_meet sample_ask t = returned () w \<and>
       (\<exists>x \<in> set (memberships w). mb_id x = 84 \<and> mb_user x = 6 \<and> mb_state x = SMember) \<and> has_cohort_row w 6 Adult)"
proof -
  obtain v t where vt: "apply_assurance sample_friend grown_up meet_db = (v, t)" by fastforce
  note k = assurance_places [OF vt]
  have "supervision_satisfied t sample_meet"
    using k by (simp add: supervision_satisfied_def active_supervisor_present_def current_members_def is_guardian_of_def)
      (simp add: meet_defs)
  moreover have "is_organizer t 2 sample_meet" "ac_owner_can_override sample_meet" "mb_state sample_ask = SRequested"
    by (simp_all add: is_organizer_def sample_meet_def sample_ask_def new_membership_def)
  moreover have "sample_friend \<in> set (users meet_db)" "sample_ask \<in> set (memberships meet_db)" "mb_user sample_ask = u_id sample_friend"
    by (simp_all add: sample_ask_def new_membership_def sample_friend_def)
  ultimately have "\<exists>w. owner_admit 2 sample_meet sample_ask t = returned () w \<and>
      (\<exists>x \<in> set (memberships w). mb_id x = mb_id sample_ask \<and> mb_user x = u_id sample_friend \<and> mb_state x = SMember) \<and>
      has_cohort_row w (u_id sample_friend) (assign_cohort (ar_age_band grown_up))"
    using stale_request_admitted [OF _ _ _ _ vt] by blast
  moreover have "mb_id sample_ask = 84" "u_id sample_friend = 6" "assign_cohort (ar_age_band grown_up) = Adult"
    by (simp_all add: grown_up_def sample_friend_def sample_ask_def new_membership_def)
  moreover have "full t sample_meet" "ac_cohort sample_meet = Child"
    using k by (auto simp: full_def participant_count_def voting_members_def current_members_def sample_meet_def
        sample_ask_def new_membership_def)
  ultimately show ?thesis by (simp add: vt)
qed

end
