(* ===== verification/Series_Properties.thy ===== *)
theory Series_Properties
  imports Activities_Laws Guardianship_Properties
begin

text \<open>
  What the nightly engine of recurring meetups creates: one upcoming instance per active series,
  inside the lead window, in the cohort its owner has now, and no more than the cap.
\<close>

section \<open>Templates\<close>

definition template_step :: "series \<Rightarrow> series \<Rightarrow> bool" where
  "template_step x y \<longleftrightarrow> sr_id y = sr_id x \<and> sr_owner y = sr_owner x \<and> sr_cohort y = sr_cohort x \<and>
     (sr_status y = SrActive \<longrightarrow> sr_status x = SrActive)"

definition templates :: "db \<Rightarrow> db \<Rightarrow> bool" where
  "templates s t \<longleftrightarrow> (\<forall>y \<in> set (all_series t). \<exists>x \<in> set (all_series s). template_step x y)"

lemma templates_refl [simp]: "templates s s"
  by (auto simp: templates_def template_step_def)

lemma templates_trans: "templates s t \<Longrightarrow> templates t w \<Longrightarrow> templates s w"
  unfolding templates_def template_step_def by (metis (no_types, lifting))

lemma templates_cong: "all_series t = all_series w \<Longrightarrow> templates s t = templates s w"
  by (simp add: templates_def)

lemma templates_audit [simp]: "templates s (record_audit e a tg d t) = templates s t"
  by (rule templates_cong) (simp add: record_audit_def Let_def)

lemma templates_activity [simp]: "templates s (set_activity i f t) = templates s t"
  "templates s (insert_activity a t) = templates s t"
  by (rule templates_cong, simp add: set_activity_def insert_activity_def)+

lemma templates_set: "(\<And>x. template_step x (f x)) \<Longrightarrow> templates s t \<Longrightarrow> templates s (set_series i f t)"
  by (rule templates_trans [of s t])
    (auto simp: templates_def set_series_def set_update_rows template_step_def)

section \<open>One series\<close>

definition spawned_well :: "time \<Rightarrow> time \<Rightarrow> db \<Rightarrow> activity \<Rightarrow> bool" where
  "spawned_well now lead s a \<longleftrightarrow> (\<exists>x \<in> set (all_series s). ac_series a = Some (sr_id x) \<and>
     sr_status x = SrActive \<and> ac_owner a = sr_owner x \<and> ac_cohort a = sr_cohort x \<and>
     has_cohort_row s (sr_owner x) (sr_cohort x) \<and> now \<le> ac_starts_at a \<and> ac_starts_at a \<le> lead \<and>
     (\<forall>b \<in> set (activities s). ac_series b = Some (sr_id x) \<longrightarrow> ac_starts_at b < now))"

lemma spawned_well_earlier:
  assumes "spawned_well now lead t a" and "templates s t" and "users t = users s" and "set (activities s) \<subseteq> set (activities t)"
  shows "spawned_well now lead s a"
proof -
  obtain y where y: "y \<in> set (all_series t)" "ac_series a = Some (sr_id y)" "sr_status y = SrActive"
      "ac_owner a = sr_owner y" "ac_cohort a = sr_cohort y" "has_cohort_row t (sr_owner y) (sr_cohort y)"
      "now \<le> ac_starts_at a" "ac_starts_at a \<le> lead" "\<forall>b \<in> set (activities t). ac_series b = Some (sr_id y) \<longrightarrow> ac_starts_at b < now"
    using assms(1) by (auto simp: spawned_well_def)
  obtain x where "x \<in> set (all_series s)" "template_step x y" using assms(2) y(1) by (auto simp: templates_def)
  with y assms(3,4) show ?thesis
    unfolding spawned_well_def template_step_def has_cohort_row_def
    by (intro bexI [of _ x]) (simp_all, blast)
qed

lemma set_new_activity:
  assumes "meets_inv s" and "ac_id a = seq s"
  shows "activities (set_activity (ac_id a) f (insert_activity a s)) = activities s @ [f a]"
proof -
  have "update_rows (\<lambda>b. ac_id b = ac_id a) f (activities s) = activities s"
    using assms by (auto simp: update_rows_def meets_inv_def intro!: map_idI)
  then show ?thesis by (simp add: set_activity_def insert_activity_def update_rows_def)
qed

definition spawn_step :: "time \<Rightarrow> time \<Rightarrow> nat \<Rightarrow> id \<Rightarrow> spawn_counts \<times> db \<Rightarrow> spawn_counts \<times> db \<Rightarrow> bool" where
  "spawn_step now lead cap i p q \<longleftrightarrow> users (snd q) = users (snd p) \<and> templates (snd p) (snd q) \<and>
     (activities (snd q) = activities (snd p) \<and> sp_spawned (fst q) = sp_spawned (fst p) \<or>
      (\<exists>a. activities (snd q) = activities (snd p) @ [a] \<and> ac_series a = Some i \<and>
         sp_spawned (fst q) = Suc (sp_spawned (fst p)) \<and> sp_spawned (fst p) < cap \<and> spawned_well now lead (snd p) a))"

lemma spawn_step_idle [intro]: "users t = users s \<Longrightarrow> templates s t \<Longrightarrow> activities t = activities s \<Longrightarrow>
   sp_spawned m = sp_spawned n \<Longrightarrow> spawn_step now lead cap i (n, s) (m, t)"
  by (simp add: spawn_step_def)

lemma series_frames [simp]:
  "users (set_series i f s) = users s" "activities (set_series i f s) = activities s"
  "users (move_cursor i t s) = users s" "activities (move_cursor i t s) = activities s"
  "users (set_activity i g s) = users s" "users (insert_activity a s) = users s"
  "users (record_audit e ac tg d s) = users s" "activities (record_audit e ac tg d s) = activities s"
  by (simp_all add: set_series_def move_cursor_def set_activity_def insert_activity_def record_audit_def Let_def)

lemma templates_cursor [simp]: "templates s (move_cursor i t s)"
  by (auto simp: move_cursor_def template_step_def intro!: templates_set)

lemma spawn_instance_step:
  assumes inv: "meets_inv s" and x: "x \<in> set (all_series s)" "sr_id x = i" "sr_status x = SrActive"
    and owner: "user_row s (sr_owner x) = Some w" "u_cohort w = sr_cohort x"
    and none: "\<not> (\<exists>a \<in> set (instances_of s i). now \<le> ac_starts_at a)"
    and t: "now \<le> t" "t \<le> lead" and cap: "sp_spawned n < cap"
  shows "spawn_step now lead cap i (n, s) (spawn_instance x w t n s)"
proof (cases "place_row s (sr_place x)"; cases "type_row s (sr_type x)")
  fix p ty assume p: "place_row s (sr_place x) = Some p" "type_row s (sr_type x) = Some ty"
  show ?thesis
  proof (cases rule: create_activity_cases [of w "instance_input x p ty t" s])
    case (refused e)
    with p show ?thesis by (auto simp: spawn_instance_def)
  next
    case (created a)
    let ?b = "a\<lparr> ac_series := Some (sr_id x) \<rparr>"
    let ?q = "spawn_instance x w t n s"
    have "spawned_well now lead s ?b"
      unfolding spawned_well_def
    proof (intro bexI [OF _ x(1)] conjI ballI impI)
      show "has_cohort_row s (sr_owner x) (sr_cohort x)"
        using user_row_SomeD [OF owner(1)] owner(2) by (auto simp: has_cohort_row_def)
      fix b assume "b \<in> set (activities s)" "ac_series b = Some (sr_id x)"
      then show "ac_starts_at b < now" using none x(2) by (auto simp: instances_of_def)
    qed (use created x owner t user_row_SomeD [OF owner(1)] in \<open>simp_all add: instance_input_def\<close>)
    moreover have "activities (snd ?q) = activities s @ [?b]"
      using set_new_activity [OF inv created(2)] by (simp add: spawn_instance_def p created(1))
    moreover have "users (snd ?q) = users s" "sp_spawned (fst ?q) = Suc (sp_spawned n)"
      by (simp_all add: spawn_instance_def p created(1))
    moreover have "templates s (snd ?q)"
      by (simp add: spawn_instance_def p created(1)) (intro templates_set, simp_all add: template_step_def)
    ultimately show ?thesis using x(2) cap unfolding spawn_step_def fst_conv snd_conv
      by (intro conjI disjI2 exI [of _ ?b]) simp_all
  qed
qed (auto simp: spawn_instance_def)

lemma spawn_one_step:
  assumes inv: "meets_inv s"
  shows "spawn_step now lead cap i (n, s) (spawn_one now lead cap i (n, s))"
proof (cases "List.find (\<lambda>x. sr_id x = i \<and> sr_status x = SrActive) (all_series s)")
  case None
  then show ?thesis by (auto simp: spawn_one_def)
next
  case (Some x)
  then have x: "x \<in> set (all_series s)" "sr_id x = i" "sr_status x = SrActive" by (auto dest: find_SomeD)
  have drift: "templates s (set_series i (\<lambda>y. y\<lparr> sr_status := SrPaused \<rparr>) s)"
    by (rule templates_set) (simp_all add: template_step_def)
  show ?thesis
  proof (cases "user_row s (sr_owner x)")
    case None
    with Some show ?thesis by (auto simp: spawn_one_def)
  next
    case (Some w)
    note row = this
    let ?t = "fast_forward (lib s) now (sr_cadence x) (Some (sr_anchor_day x)) 240 (sr_next_starts_at x)"
    have "spawn_step now lead cap i (n, s) (spawn_instance x w ?t n s)"
      if "sp_spawned n < cap" "u_cohort w = sr_cohort x" "\<not> (\<exists>a \<in> set (instances_of s i). now \<le> ac_starts_at a)"
        "now \<le> ?t" "?t \<le> lead"
      by (rule spawn_instance_step [OF inv x row that(2,3,4,5,1)])
    with drift show ?thesis
      by (auto simp: spawn_one_def Let_def \<open>List.find _ _ = Some x\<close> row not_le not_less)
  qed
qed

section \<open>The tick\<close>

definition tick_ok :: "time \<Rightarrow> time \<Rightarrow> nat \<Rightarrow> db \<Rightarrow> id list \<Rightarrow> spawn_counts \<times> db \<Rightarrow> bool" where
  "tick_ok now lead cap s is q \<longleftrightarrow> meets_inv (snd q) \<and> users (snd q) = users s \<and> templates s (snd q) \<and>
     sp_spawned (fst q) \<le> cap \<and>
     (\<exists>new. activities (snd q) = activities s @ new \<and> length new = sp_spawned (fst q) \<and>
        distinct (map ac_series new) \<and> ac_series ` set new \<subseteq> Some ` set is \<and>
        (\<forall>a \<in> set new. spawned_well now lead s a))"

lemma tick_step:
  assumes ok: "tick_ok now lead cap s is (n, t)" and i: "i \<notin> set is"
  shows "tick_ok now lead cap s (is @ [i]) (spawn_one now lead cap i (n, t))"
proof -
  obtain m w where q: "spawn_one now lead cap i (n, t) = (m, w)" by fastforce
  have inv: "meets_inv t" "users t = users s" "templates s t" "sp_spawned n \<le> cap" using ok by (simp_all add: tick_ok_def)
  obtain new where new: "activities t = activities s @ new" "length new = sp_spawned n" "distinct (map ac_series new)"
      "ac_series ` set new \<subseteq> Some ` set is" "\<forall>a \<in> set new. spawned_well now lead s a"
    using ok by (auto simp: tick_ok_def)
  have st: "users w = users t" "templates t w"
    "activities w = activities t \<and> sp_spawned m = sp_spawned n \<or>
      (\<exists>a. activities w = activities t @ [a] \<and> ac_series a = Some i \<and> sp_spawned m = Suc (sp_spawned n) \<and>
         sp_spawned n < cap \<and> spawned_well now lead t a)"
    using spawn_one_step [OF inv(1), of now lead cap i n] by (simp_all add: spawn_step_def q)
  have base: "meets_inv w" "users w = users s" "templates s w"
    using spawn_one_inv [OF inv(1), of now lead cap i n] inv st templates_trans by (auto simp: q)
  have fresh: "Some i \<notin> ac_series ` set new" using new(4) i by auto
  from st(3) show ?thesis
  proof (elim disjE exE conjE)
    assume "activities w = activities t" "sp_spawned m = sp_spawned n"
    with base new inv(4) show ?thesis unfolding q tick_ok_def fst_conv snd_conv
      by (intro conjI exI [of _ new]) auto
  next
    fix a assume a: "activities w = activities t @ [a]" "ac_series a = Some i" "sp_spawned m = Suc (sp_spawned n)"
      "sp_spawned n < cap" "spawned_well now lead t a"
    have "spawned_well now lead s a"
      by (rule spawned_well_earlier [OF a(5) inv(3,2)]) (simp add: new(1))
    with a base new fresh show ?thesis unfolding q tick_ok_def fst_conv snd_conv
      by (intro conjI exI [of _ "new @ [a]"]) auto
  qed
qed

lemma tick_fold:
  assumes "tick_ok now lead cap s is q" and "distinct (is @ js)"
  shows "tick_ok now lead cap s (is @ js) (fold (spawn_one now lead cap) js q)"
  using assms
proof (induction js arbitrary: "is" q)
  case (Cons j js)
  obtain n t where q: "q = (n, t)" by fastforce
  have "tick_ok now lead cap s (is @ [j]) (spawn_one now lead cap j q)"
    using Cons.prems tick_step [of now lead cap s "is" n t j] by (simp add: q)
  from Cons.IH [OF this] Cons.prems(2) show ?case by simp
qed simp

text \<open>
  C18: What the nightly engine of recurring meetups creates: it only appends activities, as many as
  it counts and never more than the cap; each belongs to a different series that was active and had
  no upcoming instance, starts between now and the end of the lead window, and is the series
  owner's, in the cohort that the series was made for and the owner still has.
\<close>

theorem spawn_window:
  assumes "meets_inv s" and "unique_by sr_id (all_series s)" and "spawn_due_series now s = (n, t)"
  shows "\<exists>new. activities t = activities s @ new \<and> length new = sp_spawned n \<and>
    sp_spawned n \<le> st_series_batch (conf s) \<and> distinct (map ac_series new) \<and>
    (\<forall>a \<in> set new. \<exists>x \<in> set (all_series s). ac_series a = Some (sr_id x) \<and> sr_status x = SrActive \<and>
       ac_owner a = sr_owner x \<and> ac_cohort a = sr_cohort x \<and> has_cohort_row s (sr_owner x) (sr_cohort x) \<and>
       now \<le> ac_starts_at a \<and> ac_starts_at a \<le> now + days (st_series_lead (conf s)) \<and>
       (\<forall>b \<in> set (activities s). ac_series b = Some (sr_id x) \<longrightarrow> ac_starts_at b < now))"
proof -
  let ?lead = "now + days (st_series_lead (conf s))" and ?cap = "st_series_batch (conf s)"
  let ?ids = "map sr_id (filter (\<lambda>x. sr_status x = SrActive \<and> sr_next_starts_at x \<le> ?lead) (all_series s))"
  let ?q = "fold (spawn_one now ?lead ?cap) ?ids (\<lparr> sp_spawned = 0, sp_skipped = 0, sp_paused = 0 \<rparr>, s)"
  have "tick_ok now ?lead ?cap s [] (\<lparr> sp_spawned = 0, sp_skipped = 0, sp_paused = 0 \<rparr>, s)"
    using assms(1) by (simp add: tick_ok_def)
  moreover have "distinct ([] @ ?ids)" using assms(2) by (simp add: unique_by_def distinct_map_filter)
  ultimately have "tick_ok now ?lead ?cap s ([] @ ?ids) ?q" by (rule tick_fold)
  moreover obtain m w where q: "?q = (m, w)" by fastforce
  moreover have "n = m" "activities t = activities w"
    using assms(3) unfolding spawn_due_series_def Let_def q prod.case by auto
  ultimately show ?thesis unfolding tick_ok_def spawned_well_def by auto
qed

text \<open>A weekly chess evening of the sample parent, due in an hour.\<close>

definition sample_place :: place where
  "sample_place = \<lparr> pl_id = 90, pl_name = ''cafe'', pl_display_name = ''cafe'', pl_source = Osm, pl_tags = [] \<rparr>"

definition sample_type :: activity_type where
  "sample_type = \<lparr> ty_id = 91, ty_slug = ''chess'', ty_name = ''chess'', ty_category = 92, ty_active = True \<rparr>"

definition sample_series :: series where
  "sample_series = \<lparr> sr_id = 60, sr_owner = 1, sr_place = 90, sr_type = 91, sr_cohort = Adult, sr_title = ''chess'',
     sr_description = [], sr_meeting_point = [], sr_what_to_bring = [], sr_organizer_note = [], sr_accessibility = [],
     sr_next_note = [], sr_cost_band = CostFree, sr_cost_amount = None, sr_cost_note = [], sr_difficulty = Easy,
     sr_capacity = None, sr_min_to_go = None, sr_join_threshold = 1, sr_guardian_accompanied = False,
     sr_supervised = False, sr_beginners_welcome = False, sr_cadence = Weekly, sr_next_starts_at = hours 1,
     sr_anchor_day = 1, sr_duration = None, sr_status = SrActive \<rparr>"

definition series_db :: db where
  "series_db = chat_db\<lparr> places := [sample_place], activity_types := [sample_type], all_series := [sample_series] \<rparr>"

lemma series_rows: "activities series_db = []" "memberships series_db = []" "all_series series_db = [sample_series]"
  "conf series_db = default_settings" "place_row series_db 90 = Some sample_place"
  "type_row series_db 91 = Some sample_type" "user_row series_db 1 = Some sample_parent"
  by (simp_all add: series_db_def place_row_def type_row_def user_row_def sample_place_def sample_type_def chat_defs)

lemma series_inv: "meets_inv series_db"
  by (simp add: meets_inv_def unique_by_def series_rows)

lemma series_spawns: "\<exists>a t. create_activity sample_parent (instance_input sample_series sample_place sample_type (hours 1)) series_db = returned a t"
proof -
  have "can_participate series_db sample_parent"
    by (simp add: can_participate_iff is_assurance_current_iff latest_assurance_def requires_parental_consent_def
        series_db_def chat_defs)
  moreover have "is_public_place series_db 90"
    by (simp add: is_public_place_def public_places_def publicly_visible_def closed_place_def recent_closures_def
        series_db_def sample_place_def chat_defs)
  moreover have "u_cohort sample_parent = Adult" by (simp add: sample_parent_def)
  ultimately show ?thesis
    by (simp add: create_activity_def Let_def instance_input_def sample_series_def has_cohort_def exceeds_def ends_early_def
        place_allowed_def category_envelope_allows_def validated_secondary_types_def sample_place_def)
qed

lemma series_due: "fst (spawn_due_series 0 series_db) = \<lparr> sp_spawned = 1, sp_skipped = 0, sp_paused = 0 \<rparr>"
proof -
  let ?n = "\<lparr> sp_spawned = 0, sp_skipped = 0, sp_paused = 0 \<rparr>"
  have row: "sr_id sample_series = 60" "sr_status sample_series = SrActive" "sr_owner sample_series = 1"
    "sr_cohort sample_series = Adult" "sr_place sample_series = 90" "sr_type sample_series = 91"
    "sr_next_starts_at sample_series = hours 1" "u_cohort sample_parent = Adult"
    by (simp_all add: sample_series_def sample_parent_def)
  have ff: "fast_forward p 0 c d 240 (hours 1) = hours 1" for p c d
    by (simp add: eval_nat_numeral hours_def seconds_def)
  have times: "0 \<le> hours 1" "hours 1 \<le> days (st_series_lead default_settings)" "0 < st_series_batch default_settings"
    by (simp_all add: hours_def days_def seconds_def default_settings_def)
  obtain a t where c: "create_activity sample_parent (instance_input sample_series sample_place sample_type (hours 1)) series_db = returned a t"
    using series_spawns by blast
  have "fst (spawn_one 0 (days (st_series_lead default_settings)) (st_series_batch default_settings) 60 (?n, series_db)) = ?n\<lparr> sp_spawned := 1 \<rparr>"
    using times by (simp add: spawn_one_def Let_def series_rows row ff instances_of_def spawn_instance_def c del: One_nat_def)
  with times show ?thesis
    by (simp add: spawn_due_series_def Let_def series_rows row case_prod_beta)
qed

theorem spawn_window_witness:
  "\<exists>a. activities (snd (spawn_due_series 0 series_db)) = [a] \<and> ac_series a = Some 60 \<and> ac_owner a = 1 \<and>
     ac_cohort a = Adult \<and> 0 \<le> ac_starts_at a \<and> ac_starts_at a \<le> days 14"
proof -
  obtain n t where r: "spawn_due_series 0 series_db = (n, t)" by fastforce
  have "unique_by sr_id (all_series series_db)" by (simp add: unique_by_def series_rows)
  from spawn_window [OF series_inv this r] series_due r show ?thesis
    by (auto simp: series_rows length_Suc_conv default_settings_def sample_series_def)
qed

end
