(* ===== verification/Threads.thy ===== *)
theory Threads
  imports Admission
begin

text \<open>
  The conversation of an activity or a standing group (apps/social/services.py), with the default
  message policy (apps/chat/policy.py): the write gate, replies, mentions, shares, the bounded
  page, editing and deleting, announcements and the fixed questions of a minor group. The owner of
  a thread is an activity or a group; the events table (apps/events) is an argument of what reads
  it. Live delivery is transport and stores nothing. A word character is an ASCII letter, a digit
  or an underscore; the ellipsis is three dots.
\<close>

section \<open>The owner of a thread\<close>

datatype thread_owner = ActivityThread activity | GroupThread group

fun owner_user :: "thread_owner \<Rightarrow> id" where
  "owner_user (ActivityThread a) = ac_owner a"
| "owner_user (GroupThread g) = gp_owner g"

fun owner_cohort :: "thread_owner \<Rightarrow> cohort" where
  "owner_cohort (ActivityThread a) = ac_cohort a"
| "owner_cohort (GroupThread g) = gp_cohort g"

fun owner_hidden :: "thread_owner \<Rightarrow> bool" where
  "owner_hidden (ActivityThread a) = ac_hidden a"
| "owner_hidden (GroupThread g) = gp_hidden g"

fun owner_title :: "thread_owner \<Rightarrow> string" where
  "owner_title (ActivityThread a) = ac_title a"
| "owner_title (GroupThread g) = gp_title g"

fun is_thread_frozen :: "thread_owner \<Rightarrow> bool" where
  "is_thread_frozen (ActivityThread a) \<longleftrightarrow> ac_status a = ACancelled"
| "is_thread_frozen (GroupThread g) \<longleftrightarrow> gp_status g \<noteq> GActive"

text \<open>The current members of a thread's owner; a seat of a group is never a guardian's.\<close>

fun thread_members :: "db \<Rightarrow> thread_owner \<Rightarrow> (id \<times> bool) list" where
  "thread_members s (ActivityThread a) =
     map (\<lambda>m. (mb_user m, mb_role m = MGuardian)) (current_members s (ac_id a))"
| "thread_members s (GroupThread g) =
     map (\<lambda>m. (gm_user m, False))
       (filter (\<lambda>m. gm_group m = gp_id g \<and> gm_state m = GmMember) (group_memberships s))"

text \<open>The seat of a user: whether it is a guardian's.\<close>

definition thread_seat :: "db \<Rightarrow> thread_owner \<Rightarrow> id \<Rightarrow> bool option" where
  "thread_seat s w u = map_of (thread_members s w) u"

fun thread_id_of :: "db \<Rightarrow> thread_owner \<Rightarrow> id option" where
  "thread_id_of s (ActivityThread a) =
     map_option th_id (List.find (\<lambda>t. th_activity t = Some (ac_id a)) (threads s))"
| "thread_id_of s (GroupThread g) =
     map_option th_id (List.find (\<lambda>t. th_group t = Some (gp_id g)) (threads s))"

definition owner_object :: "db \<Rightarrow> id \<Rightarrow> thread_owner option" where
  "owner_object s t =
     (case List.find (\<lambda>x. th_id x = t) (threads s) of
        None \<Rightarrow> None
      | Some x \<Rightarrow>
          (case th_activity x of
             Some a \<Rightarrow> map_option ActivityThread (activity_row s a)
           | None \<Rightarrow>
               (case th_group x of None \<Rightarrow> None | Some g \<Rightarrow> map_option GroupThread (group_row s g))))"

fun announcement_only :: "thread_owner \<Rightarrow> bool" where
  "announcement_only (ActivityThread a) = False"
| "announcement_only (GroupThread g) = is_minor (gp_cohort g)"

fun thread_organizer :: "db \<Rightarrow> id \<Rightarrow> thread_owner \<Rightarrow> bool" where
  "thread_organizer s u (ActivityThread a) = is_organizer s u a"
| "thread_organizer s u (GroupThread g) \<longleftrightarrow> gp_owner g = u"

section \<open>Reading\<close>

definition can_read_thread :: "db \<Rightarrow> user \<Rightarrow> thread_owner \<Rightarrow> bool" where
  "can_read_thread s u w =
     (if \<not> u_active u then False
      else if owner_hidden w then False
      else if u_cohort u \<noteq> owner_cohort w then False
      else if \<not> can_participate s u then False
      else if thread_seat s w (u_id u) = None then False
      else if u_id u \<noteq> owner_user w \<and> is_blocked s (u_id u) (owner_user w) then False
      else True)"

definition post_by_id :: "db \<Rightarrow> id option \<Rightarrow> post option" where
  "post_by_id s i = (case i of None \<Rightarrow> None | Some p \<Rightarrow> post_row s p)"

definition is_edited :: "post \<Rightarrow> bool" where
  "is_edited p \<longleftrightarrow> po_created_at p < po_updated_at p"

text \<open>
  The page: the newest visible top-level posts before the anchor, oldest first, each with its
  visible replies; whether older ones are left, and the cursor to them.
\<close>

definition post_key :: "post \<Rightarrow> time \<times> id" where
  "post_key p = (po_created_at p, po_id p)"

definition top_posts :: "db \<Rightarrow> id \<Rightarrow> post list" where
  "top_posts s t = filter (\<lambda>p. po_thread p = t \<and> \<not> po_hidden p \<and> \<not> po_announcement p \<and> po_reply_to p = None) (posts s)"

definition visible_replies :: "db \<Rightarrow> id \<Rightarrow> post list" where
  "visible_replies s p = sort_key po_created_at (filter (\<lambda>r. po_reply_to r = Some p \<and> \<not> po_hidden r) (posts s))"

definition before_anchor :: "db \<Rightarrow> id \<Rightarrow> id option \<Rightarrow> post list \<Rightarrow> post list" where
  "before_anchor s t before ps =
     (case post_by_id s before of
        None \<Rightarrow> ps
      | Some a \<Rightarrow> if po_thread a \<noteq> t then ps else filter (\<lambda>p. post_key p < post_key a) ps)"

record thread_window =
  tw_posts :: "(post \<times> post list) list"
  tw_older :: bool
  tw_cursor :: "id option"

definition thread_page :: "db \<Rightarrow> id \<Rightarrow> id option \<Rightarrow> nat \<Rightarrow> thread_window" where
  "thread_page s t before limit =
     (let n = (if limit = 0 then st_thread_page (conf s) else limit);
          down = rev (sort_key post_key (before_anchor s t before (top_posts s t)));
          older = n < length down;
          page = take n down
      in \<lparr> tw_posts = map (\<lambda>p. (p, visible_replies s (po_id p))) (rev page), tw_older = older,
           tw_cursor = (if older \<and> page \<noteq> [] then Some (po_id (last page)) else None) \<rparr>)"

definition shown_posts :: "thread_window \<Rightarrow> post set" where
  "shown_posts w = (\<Union>(p, rs) \<in> set (tw_posts w). insert p (set rs))"

definition rstrip :: "string \<Rightarrow> string" where
  "rstrip x = rev (dropWhile py_space (rev x))"

definition shortened :: "nat \<Rightarrow> string \<Rightarrow> string" where
  "shortened n x = (if n < length x then rstrip (take (n - 1) x) @ ''...'' else x)"

definition author_name :: "db \<Rightarrow> id \<Rightarrow> string" where
  "author_name s u = (case user_row s u of None \<Rightarrow> [] | Some v \<Rightarrow> display_or_username v)"

definition reply_snippet :: "db \<Rightarrow> nat \<Rightarrow> post \<Rightarrow> (string \<times> string \<times> id) option" where
  "reply_snippet s n p =
     (case post_by_id s (po_reply_to p) of
        None \<Rightarrow> None
      | Some q \<Rightarrow>
          if po_hidden q then Some (author_name s (po_author q), ''(message removed)'', po_id q)
          else Some (author_name s (po_author q),
                 shortened n (map (\<lambda>c. if c = CHR 0x0A then CHR '' '' else c) (strip (po_body q))), po_id q))"

section \<open>The message policy\<close>

definition message_policy :: "db \<Rightarrow> string \<Rightarrow> string + string" where
  "message_policy s body =
     (let text = strip body in
      if text = [] then Inl ''Message is empty.''
      else if st_chat_max (conf s) < length text
      then Inl (''Message exceeds '' @ nat_str (st_chat_max (conf s)) @ '' characters.'')
      else Inr text)"

section \<open>Mentions\<close>

definition word_char :: "char \<Rightarrow> bool" where
  "word_char c \<longleftrightarrow> (let n = of_char c :: nat in
     48 \<le> n \<and> n \<le> 57 \<or> 65 \<le> n \<and> n \<le> 90 \<or> 97 \<le> n \<and> n \<le> 122 \<or> n = 95)"

definition handle_char :: "char \<Rightarrow> bool" where
  "handle_char c \<longleftrightarrow> word_char c \<or> c = CHR ''.'' \<or> c = CHR ''-''"

definition lower_char :: "char \<Rightarrow> char" where
  "lower_char c = (let n = of_char c :: nat in if 65 \<le> n \<and> n \<le> 90 then char_of (n + 32) else c)"

definition lower_case :: "string \<Rightarrow> string" where
  "lower_case = map lower_char"

text \<open>
  \<open>findall\<close> of an at sign not preceded by a word character or another at sign, with the handle
  of at most 150 characters after it; \<open>glued\<close> tells whether the last character was such.
\<close>

function mention_tokens :: "bool \<Rightarrow> string \<Rightarrow> string list" where
  "mention_tokens glued [] = []"
| "mention_tokens glued (c # cs) =
     (if c = CHR ''@'' \<and> \<not> glued
      then let token = take 150 (takeWhile handle_char cs)
        in if token = [] then mention_tokens True cs
           else token # mention_tokens (word_char (last token)) (drop (length token) cs)
      else mention_tokens (word_char c \<or> c = CHR ''@'') cs)"
  by pat_completeness auto
termination
  by (relation "measure (\<lambda>(g, cs). length cs)") auto

definition mention_roster :: "db \<Rightarrow> id \<Rightarrow> string \<rightharpoonup> user" where
  "mention_roster s a = map_of (rev (List.map_filter
     (\<lambda>m. map_option (\<lambda>u. (lower_case (u_username u), u)) (user_row s (mb_user m))) (voting_members s a)))"

fun resolve_tokens :: "(string \<rightharpoonup> user) \<Rightarrow> id \<Rightarrow> id list \<Rightarrow> string list \<Rightarrow> user list" where
  "resolve_tokens roster author seen [] = []"
| "resolve_tokens roster author seen (t # ts) =
     (case roster (lower_case t) of
        None \<Rightarrow> resolve_tokens roster author seen ts
      | Some u \<Rightarrow>
          if u_id u \<in> set seen then resolve_tokens roster author seen ts
          else if u_id u = author then resolve_tokens roster author seen ts
          else u # resolve_tokens roster author (u_id u # seen) ts)"

definition resolve_mentions :: "db \<Rightarrow> id \<Rightarrow> string \<Rightarrow> id \<Rightarrow> user list" where
  "resolve_mentions s a body author = resolve_tokens (mention_roster s a) author [] (mention_tokens False body)"

fun ping_mentioned :: "user \<Rightarrow> thread_owner \<Rightarrow> post \<Rightarrow> db \<Rightarrow> db" where
  "ping_mentioned author (GroupThread g) p s = s"
| "ping_mentioned author (ActivityThread a) p s =
     snd (notify_each (map u_id (filter (\<lambda>u. u_id u \<notin> blocked_user_ids s (u_id author))
            (resolve_mentions s (ac_id a) (po_body p) (u_id author))))
       Mention (display_or_username author @ '' mentioned you'') (take 140 (po_body p))
       (activity_page_url (ac_id a) @ ''#post-'' @ nat_str (po_id p)) s)"

section \<open>Shares\<close>

datatype lifecycle = Scheduled | Rescheduled | Postponed | EventCancelled | SoldOut | MovedOnline
  | EventExpired | UpstreamRemoved | LifecycleUnknown

record event =
  ev_id :: id
  ev_place :: "id option"
  ev_lifecycle :: lifecycle
  ev_held :: bool
  ev_tombstone :: bool

definition event_is_discoverable :: "event \<Rightarrow> bool" where
  "event_is_discoverable e \<longleftrightarrow> \<not> ev_tombstone e \<and> \<not> ev_held e \<and>
     ev_lifecycle e \<in> {Scheduled, Rescheduled, SoldOut}"

definition event_place_public :: "db \<Rightarrow> event \<Rightarrow> bool" where
  "event_place_public s e \<longleftrightarrow> (case ev_place e of None \<Rightarrow> True | Some p \<Rightarrow> is_public_place s p)"

definition events_with_public_places :: "db \<Rightarrow> event list \<Rightarrow> event list" where
  "events_with_public_places s evs =
     filter (\<lambda>e. event_place_public s e \<and> \<not> ev_tombstone e \<and> \<not> ev_held e) evs"

record share =
  sh_activity :: "id option"
  sh_place :: "id option"
  sh_event :: "id option"

definition no_share :: share where
  "no_share = \<lparr> sh_activity = None, sh_place = None, sh_event = None \<rparr>"

definition cannot_share :: social_error where
  "cannot_share = InvalidState (quoted ''You can'' ''t share that.'')"

definition shareable_activity :: "user \<Rightarrow> activity \<Rightarrow> bool" where
  "shareable_activity author a \<longleftrightarrow> \<not> ac_hidden a \<and> ac_status a \<noteq> ACancelled \<and> can_see_activity author a"

definition validate_share :: "event list \<Rightarrow> db \<Rightarrow> user \<Rightarrow> share \<Rightarrow> social_error + share" where
  "validate_share evs s author sh =
     (case (sh_activity sh, sh_place sh, sh_event sh) of
        (None, None, None) \<Rightarrow> Inr no_share
      | (Some a, None, None) \<Rightarrow>
          (case activity_row s a of
             None \<Rightarrow> Inl cannot_share
           | Some x \<Rightarrow> if shareable_activity author x then Inr sh else Inl cannot_share)
      | (None, Some p, None) \<Rightarrow> if is_public_place s p then Inr sh else Inl cannot_share
      | (None, None, Some e) \<Rightarrow>
          (case List.find (\<lambda>x. ev_id x = e) (events_with_public_places s evs) of
             None \<Rightarrow> Inl cannot_share
           | Some x \<Rightarrow> if event_is_discoverable x then Inr sh else Inl cannot_share)
      | _ \<Rightarrow> Inl (InvalidState ''Share one thing at a time.''))"

text \<open>What a reader sees of a share now: a card, or the stub of a target that is gone.\<close>

datatype card = Gone | ActivityCard id | PlaceCard id | EventCard id

definition share_card :: "event list \<Rightarrow> db \<Rightarrow> post \<Rightarrow> card option" where
  "share_card evs s p =
     (case po_shared_activity p of
        Some a \<Rightarrow> Some (case activity_row s a of
            None \<Rightarrow> Gone
          | Some x \<Rightarrow> if ac_hidden x \<or> ac_status x = ACancelled then Gone else ActivityCard a)
      | None \<Rightarrow>
          (case po_shared_place p of
             Some q \<Rightarrow> Some (if is_public_place s q then PlaceCard q else Gone)
           | None \<Rightarrow>
               (case po_shared_event p of
                  None \<Rightarrow> None
                | Some e \<Rightarrow> Some (case List.find (\<lambda>x. ev_id x = e) evs of
                      None \<Rightarrow> Gone
                    | Some x \<Rightarrow> if event_is_discoverable x \<and> event_place_public s x then EventCard e else Gone))))"

section \<open>Writing\<close>

definition cannot_reply :: social_error where
  "cannot_reply = InvalidState (quoted ''You can'' ''t reply to that message.'')"

definition validate_reply_to :: "db \<Rightarrow> id \<Rightarrow> id option \<Rightarrow> social_error + id option" where
  "validate_reply_to s t reply =
     (case reply of
        None \<Rightarrow> Inr None
      | Some r \<Rightarrow>
          (case post_row s r of
             None \<Rightarrow> Inl cannot_reply
           | Some p \<Rightarrow>
               if po_thread p \<noteq> t \<or> po_hidden p \<or> po_announcement p then Inl cannot_reply
               else Inr (Some (case po_reply_to p of None \<Rightarrow> po_id p | Some q \<Rightarrow> q))))"

definition new_post :: "id \<Rightarrow> id \<Rightarrow> string \<Rightarrow> bool \<Rightarrow> id option \<Rightarrow> share \<Rightarrow> db \<Rightarrow> post" where
  "new_post t author body announcement parent sh s = \<lparr> po_id = seq s, po_thread = t, po_author = author,
     po_body = body, po_announcement = announcement, po_hidden = False, po_author_deleted = False,
     po_reply_to = parent, po_shared_activity = sh_activity sh, po_shared_place = sh_place sh,
     po_shared_event = sh_event sh, po_created_at = clock s, po_updated_at = clock s \<rparr>"

definition insert_post :: "post \<Rightarrow> db \<Rightarrow> db" where
  "insert_post p s = s\<lparr> posts := posts s @ [p], seq := Suc (seq s) \<rparr>"

definition unavailable :: social_error where
  "unavailable = InvalidState ''This activity is no longer available.''"

definition closed_thread :: social_error where
  "closed_thread = InvalidState ''This conversation is closed.''"

definition read_only_guardian :: social_error where
  "read_only_guardian = NotEligible ''Guardians accompany activities as read-only supervisors.''"

text \<open>The gates before the rate limit, in the order of the code.\<close>

definition post_gate :: "db \<Rightarrow> user \<Rightarrow> thread_owner \<Rightarrow> social_error option" where
  "post_gate s u w =
     (case thread_seat s w (u_id u) of
        None \<Rightarrow> Some (NotAMember ''Only current members can post in the activity thread.'')
      | Some guardian \<Rightarrow>
          if guardian then Some read_only_guardian
          else if announcement_only w
          then Some (NotEligible (quoted ''This group'' ''s thread is announcement-only; the organiser posts updates here.''))
          else if \<not> can_participate s u then Some (NotEligible ''Posting requires verified, consented participation.'')
          else if owner_hidden w then Some unavailable
          else if is_thread_frozen w then Some closed_thread
          else if u_id u \<noteq> owner_user w \<and> is_blocked s (u_id u) (owner_user w) then Some unavailable
          else None)"

text \<open>The body to store: what the policy made of it, or nothing for an attachment or a share.\<close>

definition accepted_body :: "db \<Rightarrow> string \<Rightarrow> bool \<Rightarrow> bool \<Rightarrow> social_error + string" where
  "accepted_body s body allow_empty shares =
     (case message_policy s body of
        Inr text \<Rightarrow> Inr text
      | Inl reason \<Rightarrow> if (allow_empty \<or> shares) \<and> strip body = [] then Inr [] else Inl (InvalidState reason))"

record post_request =
  pr_body :: string
  pr_reply :: "id option"
  pr_allow_empty :: bool
  pr_ping :: bool
  pr_share :: share

definition post_to_thread :: "event list \<Rightarrow> user \<Rightarrow> thread_owner \<Rightarrow> id \<Rightarrow> post_request \<Rightarrow> db \<Rightarrow>
    (social_error, post, db) outcome" where
  "post_to_thread evs u w t q s =
     (case post_gate s u w of
        Some e \<Rightarrow> raised e s
      | None \<Rightarrow>
          let (ok, s1) = allow_action (u_id u) ''thread_post'' (st_post_limit (conf s)) (st_post_window (conf s)) s
          in if \<not> ok then raised (InvalidState ''You are posting too quickly; slow down.'') s1
             else case validate_share evs s1 u (pr_share q) of
                 Inl e \<Rightarrow> raised e s1
               | Inr sh \<Rightarrow>
                   (case accepted_body s1 (pr_body q) (pr_allow_empty q) (sh \<noteq> no_share) of
                      Inl e \<Rightarrow> raised e s1
                    | Inr body \<Rightarrow>
                        (case validate_reply_to s1 t (pr_reply q) of
                           Inl e \<Rightarrow> raised e s1
                         | Inr parent \<Rightarrow>
                             let p = new_post t (u_id u) body False parent sh s1;
                                 s2 = insert_post p s1
                             in returned p (if pr_ping q then ping_mentioned u w p s2 else s2))))"

definition set_post :: "id \<Rightarrow> (post \<Rightarrow> post) \<Rightarrow> db \<Rightarrow> db" where
  "set_post i f s = s\<lparr> posts := update_rows (\<lambda>p. po_id p = i) f (posts s) \<rparr>"

definition edit_post :: "user \<Rightarrow> post \<Rightarrow> thread_owner \<Rightarrow> string \<Rightarrow> db \<Rightarrow> (social_error, unit, db) outcome" where
  "edit_post u p w body s =
     (if po_author p \<noteq> u_id u then raised (NotEligible ''You can only edit your own messages.'') s
      else if po_hidden p \<or> po_announcement p
      then raised (InvalidState (quoted ''This message can'' ''t be edited.'')) s
      else if thread_seat s w (u_id u) = None
      then raised (NotAMember ''Only current members can edit a message.'') s
      else if \<not> can_participate s u
      then raised (NotEligible ''Editing requires verified, consented participation.'') s
      else if is_thread_frozen w then raised closed_thread s
      else case message_policy s body of
          Inl reason \<Rightarrow> raised (InvalidState reason) s
        | Inr text \<Rightarrow> returned () (set_post (po_id p) (\<lambda>x. x\<lparr> po_body := text, po_updated_at := clock s \<rparr>) s))"

text \<open>An appeal against a standing removal of the post is undecided.\<close>

definition contested :: "db \<Rightarrow> id \<Rightarrow> bool" where
  "contested s i \<longleftrightarrow> (\<exists>x \<in> set (appeals s). ap_status x = ApPending \<and>
     (\<exists>a \<in> set (mod_actions s). mo_id a = ap_action x \<and> mo_action a = MoRemove \<and> mo_lifted_at a = None \<and>
        mo_target a = post_target i))"

definition contesting :: social_error where
  "contesting = NotEligible (quoted ''You'' (quoted ''re contesting the moderation decision that hid this message, so it wasn''
     (''t deleted. If your contest succeeds and nothing else is holding the message, it will come back - '' @
      ''you can delete it then if you still want to.'')))"

definition self_deleted :: "id \<Rightarrow> id \<Rightarrow> db \<Rightarrow> db" where
  "self_deleted u i = record_audit ''post.self_deleted'' (Some u) (Some (post_target i)) []"

text \<open>The row is read again under its lock; the result tells whether a standing removal held it.\<close>

definition delete_own_post :: "id \<Rightarrow> post \<Rightarrow> db \<Rightarrow> (social_error, bool, db) outcome" where
  "delete_own_post u p s =
     (if po_author p \<noteq> u then raised (NotEligible ''You can only delete your own messages.'') s
      else let row = (case post_row s (po_id p) of None \<Rightarrow> p | Some x \<Rightarrow> x) in
        if po_hidden row
        then (if po_author_deleted row then returned False s
              else let standing_remove = po_id p \<in> targets_with_unlifted_remove s ''social.post'' [po_id p]
                in if standing_remove \<and> contested s (po_id p) then raised contesting s
                   else returned standing_remove (self_deleted u (po_id p)
                          (set_post (po_id p) (\<lambda>x. x\<lparr> po_author_deleted := True \<rparr>) s)))
        else returned False (self_deleted u (po_id p)
               (set_post (po_id p) (\<lambda>x. x\<lparr> po_hidden := True, po_author_deleted := True, po_updated_at := clock s \<rparr>) s)))"

definition typing_identity :: "db \<Rightarrow> user \<Rightarrow> thread_owner \<Rightarrow> (id \<times> string) option" where
  "typing_identity s u w =
     (case thread_seat s w (u_id u) of
        None \<Rightarrow> None
      | Some guardian \<Rightarrow>
          if guardian \<or> announcement_only w \<or> is_thread_frozen w then None
          else Some (u_id u, display_or_username u))"

section \<open>Announcements and questions\<close>

fun announcement_kind :: "thread_owner \<Rightarrow> kind" where
  "announcement_kind (ActivityThread a) = Announcement"
| "announcement_kind (GroupThread g) = GroupAnnouncement"

definition group_page_url :: "id \<Rightarrow> string" where
  "group_page_url g = ''/groups/'' @ nat_str g @ ''/''"

fun announcement_url :: "thread_owner \<Rightarrow> string" where
  "announcement_url (ActivityThread a) = activity_api_url (ac_id a)"
| "announcement_url (GroupThread g) = group_page_url (gp_id g)"

fun announcement_title :: "thread_owner \<Rightarrow> string" where
  "announcement_title (ActivityThread a) = ''Announcement: '' @ ac_title a"
| "announcement_title (GroupThread g) = ''Group announcement: '' @ gp_title g"

definition post_announcement :: "user \<Rightarrow> thread_owner \<Rightarrow> id \<Rightarrow> string \<Rightarrow> db \<Rightarrow> (social_error, post, db) outcome" where
  "post_announcement u w t body s =
     (if \<not> thread_organizer s (u_id u) w then raised (NotAMember ''Only the organiser can post an announcement.'') s
      else if \<not> can_participate s u
      then raised (NotEligible ''Posting requires verified, consented participation.'') s
      else if thread_seat s w (u_id u) = None
      then raised (NotAMember ''Only a current member can post an announcement.'') s
      else if is_thread_frozen w then raised closed_thread s
      else let p = new_post t (u_id u) body True None no_share s;
               s1 = insert_post p s;
               recipients = filter (\<lambda>v. v \<noteq> u_id u \<and> v \<notin> blocked_user_ids s1 (u_id u)) (map fst (thread_members s1 w))
        in returned p (snd (notify_each recipients (announcement_kind w) (announcement_title w)
             (shortened 140 (strip body)) (announcement_url w) s1)))"

datatype question = NextMeetup | WhereToMeet | WhatToBring | HowItWorks | MoreInfo

fun question_value :: "question \<Rightarrow> string" where
  "question_value NextMeetup = ''next_meetup''"
| "question_value WhereToMeet = ''where''"
| "question_value WhatToBring = ''what_to_bring''"
| "question_value HowItWorks = ''how_it_works''"
| "question_value MoreInfo = ''more_info''"

fun question_label :: "question \<Rightarrow> string" where
  "question_label NextMeetup = ''When is the next meetup?''"
| "question_label WhereToMeet = ''Where exactly do we meet?''"
| "question_label WhatToBring = ''What should I bring?''"
| "question_label HowItWorks = quoted ''I'' ''m new here - how does this group work?''"
| "question_label MoreInfo = quoted ''Could you post more about what'' ''s coming up?''"

definition question_of :: "string \<Rightarrow> question option" where
  "question_of x = List.find (\<lambda>k. question_value k = x) [NextMeetup, WhereToMeet, WhatToBring, HowItWorks, MoreInfo]"

definition group_ask_organiser :: "user \<Rightarrow> group \<Rightarrow> string \<Rightarrow> db \<Rightarrow> (social_error, bool, db) outcome" where
  "group_ask_organiser u g choice s =
     (if \<not> is_minor (gp_cohort g)
      then raised (NotEligible ''Asking the organiser is only for under-18 groups.'') s
      else if gp_status g \<noteq> GActive \<or> gp_hidden g then raised (InvalidState (quoted ''This group isn'' ''t active.'')) s
      else if \<not> (\<exists>m \<in> set (group_memberships s). gm_group m = gp_id g \<and> gm_user m = u_id u \<and> gm_role m = GMember \<and>
                 gm_state m = GmMember)
      then raised (NotAMember ''Join the group to ask its organiser a question.'') s
      else if \<not> can_participate s u
      then raised (NotEligible ''Verified, consented participation is required.'') s
      else if \<not> gp_staff_curated g \<or> \<not> (case user_row s (gp_owner g) of None \<Rightarrow> False | Some v \<Rightarrow> u_staff v)
      then raised (NotEligible ''This group has no staff organiser to receive questions.'') s
      else if u_id u \<noteq> gp_owner g \<and> is_blocked s (u_id u) (gp_owner g)
      then raised (NotEligible ''This group is no longer available.'') s
      else case question_of choice of
          None \<Rightarrow> raised (InvalidState ''Pick one of the listed questions.'') s
        | Some k \<Rightarrow>
            let (ok, s1) = allow_action (u_id u) ''group_question'' (st_question_limit (conf s)) (st_question_window (conf s)) s
            in if \<not> ok
               then raised (InvalidState (quoted ''You'' ''ve sent a few questions already - please wait a while.'')) s1
               else let s2 = record_audit ''group.question_asked'' (Some (u_id u)) (group_target (gp_id g))
                              [(''prompt'', JStr (question_value k))] s1;
                        (n, s3) = notify (gp_owner g) GroupQuestion (''New question in '' @ gp_title g)
                              (''A member asks: '' @ question_label k) (group_page_url (gp_id g)) s2
                    in returned (n \<noteq> None) s3)"

end
