(* ===== verification/Sentiment.thy ===== *)
theory Sentiment
  imports Threads
begin

text \<open>
  The plural sentiment of a conversation (apps/social/services.py, apps/social/sentiment.py): the
  members' appreciation, dissent and concern rows, the sentences a footer shows, the daily and
  weekly derivation of the footers, the restorative ladder for concerns with its sensors, and the
  purge of the raw rows. The tables and settings only these jobs use are the fields of
  \<open>sentiment\<close>. A date is the number of its day, an ISO week the number of its week: the
  code compares them only.
\<close>

section \<open>The members' rows\<close>

text \<open>The fixed catalog: facet and latched sentence, in display order.\<close>

definition reaction_facets :: "(string \<times> string) list" where
  "reaction_facets = [(''helped_me'', ''People found this helpful.''),
     (''felt_welcome'', ''People felt welcome here.''),
     (''made_me_smile'', ''This made people smile.''),
     (''want_to_come'', ''This makes people want to come.''),
     (''got_me_thinking'', ''This got people thinking.'')]"

definition facet_slugs :: "string list" where
  "facet_slugs = map fst reaction_facets"

definition dissent_sentence :: string where
  "dissent_sentence = ''Some see this differently.''"

definition allowed_reactions :: "db \<Rightarrow> string list" where
  "allowed_reactions s =
     (if st_facets (conf s) \<noteq> [] then filter (\<lambda>x. x \<in> set facet_slugs) (st_facets (conf s)) else facet_slugs)"

definition react_refusal :: "db \<Rightarrow> user \<Rightarrow> post \<Rightarrow> thread_owner \<Rightarrow> social_error option" where
  "react_refusal s u p w =
     (if po_hidden p then Some (InvalidState (quoted ''You can'' ''t react to that message.''))
      else if owner_hidden w then Some unavailable
      else case thread_seat s w (u_id u) of
          None \<Rightarrow> Some (NotAMember ''Only current members can react.'')
        | Some guardian \<Rightarrow>
            if guardian then Some read_only_guardian
            else if \<not> can_participate s u
            then Some (NotEligible ''Reacting requires verified, consented participation.'')
            else if is_thread_frozen w then Some closed_thread
            else if u_id u \<noteq> owner_user w \<and> is_blocked s (u_id u) (owner_user w) then Some unavailable
            else None)"

definition thread_write_gate :: "user \<Rightarrow> post \<Rightarrow> thread_owner \<Rightarrow> db \<Rightarrow> (social_error, unit, db) outcome" where
  "thread_write_gate u p w s =
     (case react_refusal s u p w of
        Some e \<Rightarrow> raised e s
      | None \<Rightarrow>
          let (ok, s1) = allow_action (u_id u) ''thread_react'' (st_react_limit (conf s)) (st_react_window (conf s)) s
          in if \<not> ok then raised (InvalidState ''You are reacting too quickly; slow down.'') s1 else returned () s1)"

definition toggle_reaction :: "user \<Rightarrow> post \<Rightarrow> thread_owner \<Rightarrow> string \<Rightarrow> db \<Rightarrow> (social_error, bool, db) outcome" where
  "toggle_reaction u p w facet s =
     (if facet \<notin> set (allowed_reactions s)
      then raised (InvalidState (quoted ''That reaction isn'' ''t available.'')) s
      else case thread_write_gate u p w s of
          (Inl e, s1) \<Rightarrow> raised e s1
        | (Inr _, s1) \<Rightarrow>
            let mine = (\<lambda>r. re_post r = po_id p \<and> re_user r = u_id u \<and> re_facet r = facet);
                had = (\<exists>r \<in> set (reactions s1). mine r);
                s2 = s1\<lparr> reactions := (if had then filter (\<lambda>r. \<not> mine r) (reactions s1)
                       else reactions s1 @ [\<lparr> re_post = po_id p, re_user = u_id u, re_facet = facet, re_created_at = clock s1 \<rparr>]) \<rparr>
            in returned (\<not> had) (record_audit ''post.reaction_toggled'' (Some (u_id u)) (Some (post_target (po_id p)))
                 [(''facet'', JStr facet), (''added'', JBool (\<not> had))] s2))"

text \<open>Dissent and concern toggle one row per post and user; a child takes part in neither.\<close>

definition toggled :: "id \<Rightarrow> id \<Rightarrow> time \<Rightarrow> post_flag list \<Rightarrow> bool \<times> post_flag list" where
  "toggled p u now rows =
     (if \<exists>r \<in> set rows. fl_post r = p \<and> fl_user r = u
      then (False, filter (\<lambda>r. \<not> (fl_post r = p \<and> fl_user r = u)) rows)
      else (True, rows @ [\<lparr> fl_post = p, fl_user = u, fl_created_at = now \<rparr>]))"

definition no_children :: "user \<Rightarrow> thread_owner \<Rightarrow> bool" where
  "no_children u w \<longleftrightarrow> u_cohort u \<noteq> Child \<and> owner_cohort w \<noteq> Child"

definition toggle_dissent :: "user \<Rightarrow> post \<Rightarrow> thread_owner \<Rightarrow> db \<Rightarrow> (social_error, bool, db) outcome" where
  "toggle_dissent u p w s =
     (case thread_write_gate u p w s of
        (Inl e, s1) \<Rightarrow> raised e s1
      | (Inr _, s1) \<Rightarrow>
          if \<not> no_children u w then raised read_only_guardian s1
          else let (added, rows) = toggled (po_id p) (u_id u) (clock s1) (dissents s1)
            in returned added (record_audit ''post.dissent_toggled'' (Some (u_id u)) (Some (post_target (po_id p)))
                 [(''added'', JBool added)] (s1\<lparr> dissents := rows \<rparr>)))"

definition record_concern :: "user \<Rightarrow> post \<Rightarrow> thread_owner \<Rightarrow> db \<Rightarrow> (social_error, bool, db) outcome" where
  "record_concern u p w s =
     (case thread_write_gate u p w s of
        (Inl e, s1) \<Rightarrow> raised e s1
      | (Inr _, s1) \<Rightarrow>
          if \<not> no_children u w then raised read_only_guardian s1
          else let (added, rows) = toggled (po_id p) (u_id u) (clock s1) (concerns s1)
            in returned added (record_audit ''post.concern_toggled'' (Some (u_id u)) (Some (post_target (po_id p)))
                 [(''added'', JBool added)] (s1\<lparr> concerns := rows \<rparr>)))"

definition reactions_for_posts :: "db \<Rightarrow> id \<Rightarrow> id \<Rightarrow> string set" where
  "reactions_for_posts s viewer p = re_facet ` {r \<in> set (reactions s). re_post r = p \<and> re_user r = viewer}"

definition dissent_concern_mine :: "db \<Rightarrow> id \<Rightarrow> id \<Rightarrow> bool \<times> bool" where
  "dissent_concern_mine s viewer p =
     (\<exists>r \<in> set (dissents s). fl_post r = p \<and> fl_user r = viewer, \<exists>r \<in> set (concerns s). fl_post r = p \<and> fl_user r = viewer)"

text \<open>Who could react: members without guardians and without anyone in a block with the owner.\<close>

definition eligible_audience_count :: "db \<Rightarrow> thread_owner \<Rightarrow> nat" where
  "eligible_audience_count s w =
     count_rows (\<lambda>(u, guardian). \<not> guardian \<and> u \<notin> blocked_user_ids s (owner_user w)) (thread_members s w)"

section \<open>The footers\<close>

text \<open>A latched facet carries the day it latched; \<open>None\<close> is a stored date that does not parse.\<close>

record footer =
  ft_post :: id
  ft_latched :: "(string \<times> int option) list"
  ft_permanent :: "string list"
  ft_active :: bool
  ft_hits :: nat
  ft_misses :: nat
  ft_week :: "int option"

record concern_state =
  cs_post :: id
  cs_note_sent_at :: "time option"
  cs_barred :: bool

datatype review_kind = ConcernEscalated | TeenConcern | SensorCoordinated | SensorPileon

datatype review_status = RvOpen | RvReviewed | RvDismissed | RvEscalated

record review =
  rv_id :: id
  rv_kind :: review_kind
  rv_post :: "id option"
  rv_subject :: "id option"
  rv_payload :: "(string \<times> json) list"
  rv_status :: review_status
  rv_created_at :: time

record knobs =
  kn_k_adult :: nat
  kn_k_teen :: nat
  kn_dissent_k :: nat
  kn_dissent_floor :: nat
  kn_to_latch :: nat
  kn_to_lapse :: nat
  kn_k1 :: nat
  kn_k2 :: nat
  kn_concern_teen :: nat
  kn_concern_floor :: nat
  kn_cooldown :: int
  kn_retention :: int

definition default_knobs :: knobs where
  "default_knobs = \<lparr> kn_k_adult = 5, kn_k_teen = 8, kn_dissent_k = 6, kn_dissent_floor = 12, kn_to_latch = 2,
     kn_to_lapse = 2, kn_k1 = 2, kn_k2 = 4, kn_concern_teen = 3, kn_concern_floor = 8, kn_cooldown = 14,
     kn_retention = 90 \<rparr>"

record sentiment =
  sn_db :: db
  sn_knobs :: knobs
  sn_footers :: "footer list"
  sn_states :: "concern_state list"
  sn_reviews :: "review list"
  sn_markers :: "string \<rightharpoonup> time"

definition on_db :: "(db \<Rightarrow> db) \<Rightarrow> sentiment \<Rightarrow> sentiment" where
  "on_db f s = s\<lparr> sn_db := f (sn_db s) \<rparr>"

definition footer_row :: "sentiment \<Rightarrow> id \<Rightarrow> footer option" where
  "footer_row s p = List.find (\<lambda>f. ft_post f = p) (sn_footers s)"

definition new_footer :: "id \<Rightarrow> footer" where
  "new_footer p = \<lparr> ft_post = p, ft_latched = [], ft_permanent = [], ft_active = False, ft_hits = 0, ft_misses = 0,
     ft_week = None \<rparr>"

definition set_footer :: "footer \<Rightarrow> sentiment \<Rightarrow> sentiment" where
  "set_footer f s = s\<lparr> sn_footers :=
     (if footer_row s (ft_post f) = None then sn_footers s @ [f]
      else update_rows (\<lambda>g. ft_post g = ft_post f) (\<lambda>_. f) (sn_footers s)) \<rparr>"

definition footer_or_new :: "sentiment \<Rightarrow> id \<Rightarrow> footer" where
  "footer_or_new s p = (case footer_row s p of None \<Rightarrow> new_footer p | Some f \<Rightarrow> f)"

definition footer_lines :: "footer \<Rightarrow> cohort \<Rightarrow> cohort \<Rightarrow> bool \<Rightarrow> string list" where
  "footer_lines f thread viewer announcement =
     (if thread = Child \<or> viewer = Child then []
      else take 2 (map snd (filter (\<lambda>(x, l). x \<in> fst ` set (ft_latched f) \<or> x \<in> set (ft_permanent f)) reaction_facets)) @
        (if ft_active f \<and> thread = Adult \<and> \<not> announcement then [dissent_sentence] else []))"

definition sentiment_footer_for :: "sentiment \<Rightarrow> post \<Rightarrow> thread_owner \<Rightarrow> user \<Rightarrow> string list" where
  "sentiment_footer_for s p w v =
     (if po_hidden p then []
      else if owner_hidden w then []
      else case footer_row s (po_id p) of
          None \<Rightarrow> []
        | Some f \<Rightarrow> footer_lines f (owner_cohort w) (u_cohort v) (po_announcement p))"

section \<open>Cadence\<close>

definition day_of :: "time \<Rightarrow> int" where
  "day_of t = t div days 1"

text \<open>Day 0 is a Thursday and ISO weeks begin on Mondays.\<close>

definition week_of :: "time \<Rightarrow> int" where
  "week_of t = (day_of t + 3) div 7"

definition claim_daily :: "string \<Rightarrow> time \<Rightarrow> sentiment \<Rightarrow> bool \<times> sentiment" where
  "claim_daily name now s =
     (if (case sn_markers s name of None \<Rightarrow> False | Some t \<Rightarrow> now - t < days 1) then (False, s)
      else (True, s\<lparr> sn_markers := (sn_markers s)(name \<mapsto> now) \<rparr>))"

definition weekly_due :: "string \<Rightarrow> time \<Rightarrow> sentiment \<Rightarrow> bool" where
  "weekly_due name now s \<longleftrightarrow> (case sn_markers s name of None \<Rightarrow> True | Some t \<Rightarrow> week_of t \<noteq> week_of now)"

definition stamp_weekly :: "string \<Rightarrow> time \<Rightarrow> sentiment \<Rightarrow> sentiment" where
  "stamp_weekly name now s = s\<lparr> sn_markers := (sn_markers s)(name \<mapsto> now) \<rparr>"

section \<open>Deriving the footers\<close>

definition candidate_posts :: "sentiment \<Rightarrow> post list" where
  "candidate_posts s = sort_key po_created_at (filter (\<lambda>p. \<not> po_hidden p \<and>
     (po_id p \<in> re_post ` set (reactions (sn_db s)) \<or> po_id p \<in> fl_post ` set (dissents (sn_db s)) \<or>
      po_id p \<in> ft_post ` set (sn_footers s))) (posts (sn_db s)))"

definition facet_count :: "db \<Rightarrow> id \<Rightarrow> string \<Rightarrow> nat" where
  "facet_count s p x = card (re_user ` {r \<in> set (reactions s). re_post r = p \<and> re_facet r = x})"

record tally =
  ta_latched :: nat
  ta_unlatched :: nat
  ta_permanent :: nat

definition no_tally :: tally where
  "no_tally = \<lparr> ta_latched = 0, ta_unlatched = 0, ta_permanent = 0 \<rparr>"

definition age_of :: "int option \<Rightarrow> int \<Rightarrow> int" where
  "age_of since today = (case since of None \<Rightarrow> 0 | Some d \<Rightarrow> today - d)"

text \<open>One facet: keep, graduate, drop or latch it.\<close>

definition latch_step :: "(string \<Rightarrow> nat) \<Rightarrow> nat \<Rightarrow> nat \<Rightarrow> int \<Rightarrow> int \<Rightarrow> (string \<rightharpoonup> int option) \<Rightarrow> string \<Rightarrow>
    (string \<times> int option) list \<times> string list \<times> tally \<Rightarrow> (string \<times> int option) list \<times> string list \<times> tally" where
  "latch_step counts k audience retention today existing x st =
     (case st of (pairs, perm, n) \<Rightarrow>
       (case existing x of
          Some since \<Rightarrow>
            if k \<le> counts x then (pairs @ [(x, since)], perm, n)
            else if x \<in> set perm then (pairs, perm, n)
            else if retention \<le> age_of since today
            then (pairs, perm @ [x], n\<lparr> ta_permanent := Suc (ta_permanent n) \<rparr>)
            else (pairs, perm, n\<lparr> ta_unlatched := Suc (ta_unlatched n) \<rparr>)
        | None \<Rightarrow>
            if k \<le> counts x \<and> 2 * k \<le> audience
            then (pairs @ [(x, Some today)], perm, n\<lparr> ta_latched := Suc (ta_latched n) \<rparr>)
            else (pairs, perm, n)))"

text \<open>The second loop: a facet held past the retention window graduates.\<close>

definition graduate_step :: "int \<Rightarrow> int \<Rightarrow> string \<times> int option \<Rightarrow>
    (string \<times> int option) list \<times> string list \<times> tally \<Rightarrow> (string \<times> int option) list \<times> string list \<times> tally" where
  "graduate_step retention today xd st =
     (case (xd, st) of ((x, since), pairs, perm, n) \<Rightarrow>
        let d = (case since of None \<Rightarrow> Some today | Some y \<Rightarrow> Some y)
        in if retention \<le> age_of d today \<and> x \<notin> set perm
           then (pairs, perm @ [x], n\<lparr> ta_permanent := Suc (ta_permanent n) \<rparr>)
           else (pairs @ [(x, d)], perm, n))"

definition recompute_appreciation :: "footer \<Rightarrow> (string \<Rightarrow> nat) \<Rightarrow> nat \<Rightarrow> nat \<Rightarrow> int \<Rightarrow> int \<Rightarrow> footer \<times> tally" where
  "recompute_appreciation f counts k audience retention today =
     (let existing = map_of (rev (ft_latched f));
          (pairs, perm, n) = fold (latch_step counts k audience retention today existing) facet_slugs
                               ([], remdups (ft_permanent f), no_tally);
          (kept, perm2, n2) = fold (graduate_step retention today) pairs ([], perm, n)
      in (f\<lparr> ft_latched := kept, ft_permanent := sort_key (\<lambda>x. x) perm2 \<rparr>, n2))"

definition add_tally :: "tally \<Rightarrow> tally \<Rightarrow> tally" where
  "add_tally m n = \<lparr> ta_latched = ta_latched m + ta_latched n, ta_unlatched = ta_unlatched m + ta_unlatched n,
     ta_permanent = ta_permanent m + ta_permanent n \<rparr>"

definition recompute_one :: "time \<Rightarrow> post \<Rightarrow> tally \<times> sentiment \<Rightarrow> tally \<times> sentiment" where
  "recompute_one now p st =
     (case st of (n, s) \<Rightarrow>
       (case owner_object (sn_db s) (po_thread p) of
          None \<Rightarrow> (n, s)
        | Some w \<Rightarrow>
            if owner_hidden w then (n, s)
            else if owner_cohort w \<notin> {Adult, Teen}
            then (n, s\<lparr> sn_footers := filter (\<lambda>f. ft_post f \<noteq> po_id p) (sn_footers s) \<rparr>)
            else let k = (if owner_cohort w = Adult then kn_k_adult (sn_knobs s) else kn_k_teen (sn_knobs s));
                     (f, m) = recompute_appreciation (footer_or_new s (po_id p)) (facet_count (sn_db s) (po_id p)) k
                                (eligible_audience_count (sn_db s) w) (kn_retention (sn_knobs s)) (day_of now)
              in (add_tally n m, set_footer f s)))"

text \<open>The weekly step, on adult threads only and never for an announcement.\<close>

definition dissent_count :: "db \<Rightarrow> id \<Rightarrow> nat" where
  "dissent_count s p = card (fl_user ` {r \<in> set (dissents s). fl_post r = p})"

definition advance_window :: "knobs \<Rightarrow> bool \<Rightarrow> int \<Rightarrow> footer \<Rightarrow> footer" where
  "advance_window kn hit week f =
     (let hits = (if hit then Suc (ft_hits f) else 0); misses = (if hit then 0 else Suc (ft_misses f));
          active = (if kn_to_latch kn \<le> hits then True else if kn_to_lapse kn \<le> misses then False else ft_active f)
      in f\<lparr> ft_hits := hits, ft_misses := misses, ft_active := active, ft_week := Some week \<rparr>)"

definition dissent_one :: "time \<Rightarrow> post \<Rightarrow> sentiment \<Rightarrow> sentiment" where
  "dissent_one now p s =
     (case owner_object (sn_db s) (po_thread p) of
        None \<Rightarrow> s
      | Some w \<Rightarrow>
          if owner_hidden w \<or> owner_cohort w \<noteq> Adult \<or> po_announcement p then s
          else let f = footer_or_new s (po_id p) in
            if ft_week f = Some (week_of now) then set_footer f s
            else let hit = (kn_dissent_k (sn_knobs s) \<le> dissent_count (sn_db s) (po_id p) \<and>
                            kn_dissent_floor (sn_knobs s) \<le> eligible_audience_count (sn_db s) w)
              in set_footer (advance_window (sn_knobs s) hit (week_of now) f) s)"

definition recompute_post_sentiment :: "time \<Rightarrow> sentiment \<Rightarrow> tally option \<times> sentiment" where
  "recompute_post_sentiment now s =
     (case claim_daily ''post_sentiment_daily'' now s of
        (False, s1) \<Rightarrow> (None, s1)
      | (True, s1) \<Rightarrow>
          let ps = candidate_posts s1;
              (n, s2) = fold (recompute_one now) ps (no_tally, s1);
              s3 = (if weekly_due ''post_sentiment_weekly'' now s2
                    then stamp_weekly ''post_sentiment_weekly'' now (fold (dissent_one now) ps s2) else s2)
          in (Some n, on_db (record_audit ''post_sentiment.recomputed'' None None
                [(''latched'', JInt (int (ta_latched n))), (''unlatched'', JInt (int (ta_unlatched n))),
                 (''permanent'', JInt (int (ta_permanent n))), (''posts'', JInt (int (length ps)))]) s3))"

section \<open>Purging the rows\<close>

text \<open>
  The delete loop: collect a batch of matching rows, delete them, stop when none is left; no value
  would mean that the loop does not end.
\<close>

fun delete_first :: "nat \<Rightarrow> ('r \<Rightarrow> bool) \<Rightarrow> 'r list \<Rightarrow> 'r list" where
  "delete_first n P [] = []"
| "delete_first n P (r # rs) =
     (if P r then (case n of 0 \<Rightarrow> r # rs | Suc k \<Rightarrow> delete_first k P rs) else r # delete_first n P rs)"

partial_function (option) batched_delete :: "nat \<Rightarrow> ('r \<Rightarrow> bool) \<Rightarrow> nat \<Rightarrow> 'r list \<Rightarrow> (nat \<times> 'r list) option" where
  "batched_delete batch P deleted rs =
     (let ids = take batch (filter P rs)
      in if ids = [] then Some (deleted, rs)
         else batched_delete batch P (deleted + length ids) (delete_first batch P rs))"

definition purge_stale_reaction_rows :: "time \<Rightarrow> sentiment \<Rightarrow> ((nat \<times> nat \<times> nat) option \<times> sentiment) option" where
  "purge_stale_reaction_rows now s =
     (case claim_daily ''reaction_purge_daily'' now s of
        (False, s1) \<Rightarrow> Some (None, s1)
      | (True, s1) \<Rightarrow>
          let cutoff = now - days (kn_retention (sn_knobs s1))
          in (case batched_delete 1000 (\<lambda>r. re_created_at r < cutoff) 0 (reactions (sn_db s1)) of
                None \<Rightarrow> None
              | Some (a, rs) \<Rightarrow>
                  (case batched_delete 1000 (\<lambda>r. fl_created_at r < cutoff) 0 (dissents (sn_db s1)) of
                     None \<Rightarrow> None
                   | Some (b, ds) \<Rightarrow>
                       (case batched_delete 1000 (\<lambda>r. fl_created_at r < cutoff) 0 (concerns (sn_db s1)) of
                          None \<Rightarrow> None
                        | Some (c, cs) \<Rightarrow>
                            Some (Some (a, b, c), on_db (\<lambda>x. record_audit ''reaction.rows_purged'' None None
                              [(''reactions'', JInt (int a)), (''dissents'', JInt (int b)), (''concerns'', JInt (int c))]
                              (x\<lparr> reactions := rs, dissents := ds, concerns := cs \<rparr>)) s1)))))"

end
