(* ===== verification/Concerns.thy ===== *)
theory Concerns
  imports Sentiment
begin

text \<open>
  The restorative ladder for conduct concerns and the sensors around it (apps/social/sentiment.py):
  one capped private note to an adult author, a moderator queue above it, and the detection of
  pile-ons and of coordinated flagging, which turns on the flaggers and not on their target.
\<close>

section \<open>Reviews\<close>

definition open_review :: "review_kind \<Rightarrow> (review \<Rightarrow> bool) \<Rightarrow> id option \<Rightarrow> id option \<Rightarrow> (string \<times> json) list \<Rightarrow>
    sentiment \<Rightarrow> bool \<times> sentiment" where
  "open_review k same p subject payload s =
     (if \<exists>r \<in> set (sn_reviews s). rv_kind r = k \<and> rv_status r = RvOpen \<and> same r then (False, s)
      else (True, s\<lparr> sn_reviews := sn_reviews s @
              [\<lparr> rv_id = seq (sn_db s), rv_kind = k, rv_post = p, rv_subject = subject, rv_payload = payload,
                 rv_status = RvOpen, rv_created_at = clock (sn_db s) \<rparr>],
            sn_db := (sn_db s)\<lparr> seq := Suc (seq (sn_db s)) \<rparr> \<rparr>))"

definition alert_moderators :: "string \<Rightarrow> string \<Rightarrow> sentiment \<Rightarrow> sentiment" where
  "alert_moderators title body = on_db (\<lambda>d. snd (notify_moderators ModAlert title body ''/moderation/'' d))"

text \<open>A review that was opened is announced to the moderators.\<close>

definition open_alerted :: "review_kind \<Rightarrow> (review \<Rightarrow> bool) \<Rightarrow> id option \<Rightarrow> id option \<Rightarrow> (string \<times> json) list \<Rightarrow>
    string \<Rightarrow> string \<Rightarrow> sentiment \<Rightarrow> bool \<times> sentiment" where
  "open_alerted k same p subject payload title body s =
     (case open_review k same p subject payload s of
        (False, s1) \<Rightarrow> (False, s1)
      | (True, s1) \<Rightarrow> (True, alert_moderators title body s1))"

section \<open>Sensors\<close>

definition flag_author :: "db \<Rightarrow> post_flag \<Rightarrow> id option" where
  "flag_author s r = map_option po_author (post_row s (fl_post r))"

definition recent_flags :: "time \<Rightarrow> post_flag list \<Rightarrow> post_flag list" where
  "recent_flags start rs = filter (\<lambda>r. start \<le> fl_created_at r) rs"

text \<open>Whoever concerned posts of five or more authors in the window is not counted.\<close>

definition downweighted_flaggers :: "db \<Rightarrow> time \<Rightarrow> id set" where
  "downweighted_flaggers s start =
     (let rs = recent_flags start (concerns s)
      in {u \<in> fl_user ` set rs. 5 \<le> card (flag_author s ` {r \<in> set rs. fl_user r = u})})"

definition ids_json :: "id list \<Rightarrow> json" where
  "ids_json xs = JList (map (\<lambda>i. JInt (int i)) xs)"

text \<open>The flagged posts of an author, and the authors in the order they appear.\<close>

definition flagged_authors :: "db \<Rightarrow> post_flag list \<Rightarrow> id list" where
  "flagged_authors s rs = rev (remdups (rev (List.map_filter (flag_author s) rs)))"

definition flagged_posts :: "db \<Rightarrow> post_flag list \<Rightarrow> id \<Rightarrow> id list" where
  "flagged_posts s rs a = sort (remdups (map fl_post (filter (\<lambda>r. flag_author s r = Some a) rs)))"

definition pileon_one :: "post_flag list \<Rightarrow> id \<Rightarrow> (id set \<times> nat) \<times> sentiment \<Rightarrow> (id set \<times> nat) \<times> sentiment" where
  "pileon_one rs a st =
     (case st of ((protected, n), s) \<Rightarrow>
       let ps = flagged_posts (sn_db s) rs a in
       if length ps < 3 then ((protected, n), s)
       else case open_alerted SensorPileon (\<lambda>r. rv_subject r = Some a) None (Some a)
                   [(''post_ids'', ids_json ps), (''window_days'', JInt 7)]
                   ''A member may need protective review''
                   ''One member is drawing concern flags across several posts. Please look.'' s of
           (False, s1) \<Rightarrow> ((insert a protected, n), s1)
         | (True, s1) \<Rightarrow> ((insert a protected, Suc n), s1))"

definition already_protected :: "sentiment \<Rightarrow> id set" where
  "already_protected s = (\<Union>r \<in> {r \<in> set (sn_reviews s). rv_kind r = SensorPileon \<and> rv_status r = RvOpen}. set_option (rv_subject r))"

definition sensor_pileon :: "time \<Rightarrow> sentiment \<Rightarrow> (id set \<times> nat) \<times> sentiment" where
  "sensor_pileon now s =
     (let rs = recent_flags (now - days 7) (concerns (sn_db s))
      in fold (pileon_one rs) (flagged_authors (sn_db s) rs) ((already_protected s, 0), s))"

text \<open>The posts of an author that a user flagged; pairs of heavy flaggers share at least three.\<close>

definition hits_on :: "db \<Rightarrow> post_flag list \<Rightarrow> id \<Rightarrow> id \<Rightarrow> id set" where
  "hits_on s rs a u = fl_post ` {r \<in> set rs. flag_author s r = Some a \<and> fl_user r = u}"

definition flaggers_of :: "db \<Rightarrow> post_flag list \<Rightarrow> id \<Rightarrow> id set" where
  "flaggers_of s rs a = fl_user ` {r \<in> set rs. flag_author s r = Some a}"

definition common_posts :: "db \<Rightarrow> post_flag list \<Rightarrow> id \<Rightarrow> id set" where
  "common_posts s rs a =
     (\<Union>u \<in> flaggers_of s rs a. \<Union>v \<in> {v \<in> flaggers_of s rs a. v \<noteq> u \<and> 3 \<le> card (hits_on s rs a u \<inter> hits_on s rs a v)}.
        hits_on s rs a u \<inter> hits_on s rs a v)"

definition overlap :: "db \<Rightarrow> post_flag list \<Rightarrow> id \<Rightarrow> id set" where
  "overlap s rs a = {u \<in> flaggers_of s rs a. common_posts s rs a \<subseteq> hits_on s rs a u}"

definition coordinated_one :: "post_flag list \<Rightarrow> id \<Rightarrow> nat \<times> sentiment \<Rightarrow> nat \<times> sentiment" where
  "coordinated_one rs a st =
     (case st of (n, s) \<Rightarrow>
       let common = common_posts (sn_db s) rs a; all = overlap (sn_db s) rs a in
       if common = {} then (n, s)
       else if card all < 2 then (n, s)
       else case open_alerted SensorCoordinated (\<lambda>r. map_of (rv_payload r) ''author_id'' = Some (JInt (int a))) None None
                   [(''author_id'', JInt (int a)), (''post_ids'', ids_json (sorted_list_of_set common)),
                    (''window_days'', JInt 14), (''flagger_set_size'', JInt (int (card all)))]
                   ''Possible coordinated flagging''
                   ''The same members are flagging one author across several posts. Review it.'' s of
           (False, s1) \<Rightarrow> (n, s1)
         | (True, s1) \<Rightarrow> (Suc n, s1))"

definition sensor_coordinated :: "time \<Rightarrow> sentiment \<Rightarrow> nat \<times> sentiment" where
  "sensor_coordinated now s =
     (let rs = recent_flags (now - days 14) (concerns (sn_db s)) @ recent_flags (now - days 14) (dissents (sn_db s))
      in fold (coordinated_one rs) (flagged_authors (sn_db s) rs) (0, s))"

section \<open>The ladder\<close>

definition state_row :: "sentiment \<Rightarrow> id \<Rightarrow> concern_state option" where
  "state_row s p = List.find (\<lambda>c. cs_post c = p) (sn_states s)"

text \<open>\<open>get_or_create\<close>.\<close>

definition state_of :: "sentiment \<Rightarrow> id \<Rightarrow> concern_state \<times> sentiment" where
  "state_of s p =
     (case state_row s p of
        Some c \<Rightarrow> (c, s)
      | None \<Rightarrow> let c = \<lparr> cs_post = p, cs_note_sent_at = None, cs_barred = False \<rparr>
                in (c, s\<lparr> sn_states := sn_states s @ [c] \<rparr>))"

definition set_state :: "id \<Rightarrow> (concern_state \<Rightarrow> concern_state) \<Rightarrow> sentiment \<Rightarrow> sentiment" where
  "set_state p f s = s\<lparr> sn_states := update_rows (\<lambda>c. cs_post c = p) f (sn_states s) \<rparr>"

definition author_of :: "db \<Rightarrow> id \<Rightarrow> id option" where
  "author_of s p = map_option po_author (post_row s p)"

definition recent_formative_note :: "sentiment \<Rightarrow> id \<Rightarrow> time \<Rightarrow> bool" where
  "recent_formative_note s author now \<longleftrightarrow> (\<exists>c \<in> set (sn_states s). author_of (sn_db s) (cs_post c) = Some author \<and>
     (case cs_note_sent_at c of None \<Rightarrow> False | Some t \<Rightarrow> now - days (kn_cooldown (sn_knobs s)) \<le> t))"

fun thread_url :: "thread_owner \<Rightarrow> string" where
  "thread_url (ActivityThread a) = activity_page_url (ac_id a)"
| "thread_url (GroupThread g) = group_page_url (gp_id g)"

definition formative_note_title :: string where
  "formative_note_title = ''A quiet note about one of your posts''"

definition formative_note_body :: string where
  "formative_note_body =
     quoted ''A few members felt one of your recent posts didn'' ''t quite fit the spirit of this group. '' @
     ''No one has reported anything, nothing is hidden, and no names or numbers are attached - '' @
     quoted ''this is just a friendly heads-up so you can take another look if you'' ''d like. If you edit '' @
     quoted ''the post, this note won'' (quoted ''t come back for it. You'' ''re a valued part of this group; this is '') @
     ''about one post, not about you.''"

definition edited_since :: "time option \<Rightarrow> post \<Rightarrow> bool" where
  "edited_since t p \<longleftrightarrow> (case t of None \<Rightarrow> False | Some x \<Rightarrow> x < po_updated_at p)"

definition may_note :: "sentiment \<Rightarrow> post \<Rightarrow> thread_owner \<Rightarrow> concern_state \<Rightarrow> nat \<Rightarrow> time \<Rightarrow> id set \<Rightarrow> bool" where
  "may_note s p w c n now protected \<longleftrightarrow> kn_k1 (sn_knobs s) \<le> n \<and>
     kn_concern_floor (sn_knobs s) \<le> eligible_audience_count (sn_db s) w \<and> cs_note_sent_at c = None \<and> \<not> cs_barred c \<and>
     po_author p \<notin> protected \<and> \<not> recent_formative_note s (po_author p) now"

text \<open>\<open>noted\<close> holds the authors protected in this run and those noted in it.\<close>

definition adult_ladder :: "post \<Rightarrow> thread_owner \<Rightarrow> nat \<Rightarrow> time \<Rightarrow> id set \<times> sentiment \<Rightarrow> nat \<times> id set \<times> sentiment" where
  "adult_ladder p w n now st =
     (case st of (noted, s) \<Rightarrow>
       let (c, s1) = state_of s (po_id p);
           bar = (edited_since (cs_note_sent_at c) p \<and> \<not> cs_barred c);
           c2 = (if bar then c\<lparr> cs_barred := True \<rparr> else c);
           s2 = (if bar then set_state (po_id p) (\<lambda>x. x\<lparr> cs_barred := True \<rparr>) s1 else s1)
       in if \<not> may_note s2 p w c2 n now noted then (0, noted, s2)
          else let (note, d) = notify (po_author p) FormativeNote formative_note_title formative_note_body (thread_url w) (sn_db s2);
                   s3 = set_state (po_id p) (\<lambda>x. x\<lparr> cs_note_sent_at := Some now \<rparr>) (s2\<lparr> sn_db := d \<rparr>);
                   event = (if note = None then ''concern.formative_note_muted'' else ''concern.formative_note_sent'')
               in (if note = None then 0 else 1, insert (po_author p) noted,
                   on_db (record_audit event None (Some (post_target (po_id p))) []) s3))"

definition adult_escalation :: "post \<Rightarrow> nat \<Rightarrow> sentiment \<Rightarrow> bool \<times> sentiment" where
  "adult_escalation p n s =
     (let barred = (case state_row s (po_id p) of None \<Rightarrow> False | Some c \<Rightarrow> cs_barred c \<and> kn_k1 (sn_knobs s) \<le> n)
      in if \<not> (kn_k2 (sn_knobs s) \<le> n \<or> barred) then (False, s)
         else open_alerted ConcernEscalated (\<lambda>r. rv_post r = Some (po_id p)) (Some (po_id p)) (Some (po_author p))
                [(''barred_recross'', JBool barred)] ''A concern needs a human look''
                ''A post drew repeated concern flags. Review it in the moderation queue.'' s)"

definition teen_review :: "post \<Rightarrow> sentiment \<Rightarrow> bool \<times> sentiment" where
  "teen_review p s = open_alerted TeenConcern (\<lambda>r. rv_post r = Some (po_id p)) (Some (po_id p)) (Some (po_author p))
     [(''window_days'', JInt (kn_cooldown (sn_knobs s)))] ''A teen post may need a gentle human relay''
     (quoted ''A few members felt a teen'' ''s post might be off-topic. See the queue.'') s"

record ladder =
  ld_notes :: nat
  ld_escalated :: nat
  ld_teen :: nat

text \<open>The flaggers whose concern is younger than the last edit, without the discounted ones.\<close>

definition counted_flaggers :: "db \<Rightarrow> id set \<Rightarrow> post \<Rightarrow> id set" where
  "counted_flaggers s discounted p =
     fl_user ` {r \<in> set (concerns s). fl_post r = po_id p \<and> po_updated_at p < fl_created_at r} - discounted"

definition ladder_one :: "time \<Rightarrow> id set \<Rightarrow> post \<Rightarrow> ladder \<times> id set \<times> sentiment \<Rightarrow> ladder \<times> id set \<times> sentiment" where
  "ladder_one now discounted p st =
     (case st of (l, noted, s) \<Rightarrow>
       if po_hidden p then (l, noted, s)
       else case owner_object (sn_db s) (po_thread p) of
          None \<Rightarrow> (l, noted, s)
        | Some w \<Rightarrow>
            if owner_hidden w then (l, noted, s)
            else let n = card (counted_flaggers (sn_db s) discounted p) in
              if owner_cohort w = Teen
              then (if n < kn_concern_teen (sn_knobs s) then (l, noted, s)
                    else (case teen_review p s of
                        (True, s1) \<Rightarrow> (l\<lparr> ld_teen := Suc (ld_teen l) \<rparr>, noted, s1)
                      | (False, s1) \<Rightarrow> (l, noted, s1)))
              else if owner_cohort w \<noteq> Adult then (l, noted, s)
              else let (k, noted1, s1) = adult_ladder p w n now (noted, s);
                       (esc, s2) = adult_escalation p n s1
                in (l\<lparr> ld_notes := ld_notes l + k, ld_escalated := ld_escalated l + (if esc then 1 else 0) \<rparr>, noted1, s2))"

record concern_summary =
  sy_ladder :: ladder
  sy_coordinated :: nat
  sy_pileon :: nat

definition flagged_post_rows :: "db \<Rightarrow> post list" where
  "flagged_post_rows s = sort_key po_created_at (filter (\<lambda>p. po_id p \<in> fl_post ` set (concerns s)) (posts s))"

definition evaluate_concerns :: "time \<Rightarrow> sentiment \<Rightarrow> concern_summary option \<times> sentiment" where
  "evaluate_concerns now s =
     (case claim_daily ''concerns_daily'' now s of
        (False, s1) \<Rightarrow> (None, s1)
      | (True, s1) \<Rightarrow>
          let discounted = downweighted_flaggers (sn_db s1) (now - days (kn_cooldown (sn_knobs s1)));
              ((protected, piled), s2) = sensor_pileon now s1;
              (coordinated, s3) = sensor_coordinated now s2;
              (l, noted, s4) = fold (ladder_one now discounted) (flagged_post_rows (sn_db s3))
                                 (\<lparr> ld_notes = 0, ld_escalated = 0, ld_teen = 0 \<rparr>, protected, s3)
          in (Some \<lparr> sy_ladder = l, sy_coordinated = coordinated, sy_pileon = piled \<rparr>,
              on_db (record_audit ''concerns.evaluated'' None None
                [(''notes'', JInt (int (ld_notes l))), (''escalated'', JInt (int (ld_escalated l))),
                 (''teen'', JInt (int (ld_teen l))), (''coordinated'', JInt (int coordinated)),
                 (''pileon'', JInt (int piled))]) s4))"

end
