(* ===== verification/Threads_Laws.thy ===== *)
theory Threads_Laws
  imports Concerns Moderation_Service Groups_Laws
begin

text \<open>
  The laws of conversations: what one step may do to a post that exists, the well-formedness of
  replies, and the requests of the thread service together with those of moderation, with the
  interpretation of their interface.
\<close>

section \<open>Posts\<close>

text \<open>A step keeps who wrote a post, where, and what it answers; an author's deletion is for good.\<close>

definition post_step :: "post \<Rightarrow> post \<Rightarrow> bool" where
  "post_step p q \<longleftrightarrow> po_id q = po_id p \<and> po_thread q = po_thread p \<and> po_author q = po_author p \<and>
     po_announcement q = po_announcement p \<and> po_reply_to q = po_reply_to p \<and> po_created_at q = po_created_at p \<and>
     (po_author_deleted p \<longrightarrow> po_author_deleted q) \<and>
     ((po_author_deleted p \<longrightarrow> po_hidden p) \<longrightarrow> po_author_deleted q \<longrightarrow> po_hidden q)"

lemma post_step_refl [simp]: "post_step p p"
  by (simp add: post_step_def)

lemma post_step_trans: "post_step p q \<Longrightarrow> post_step q r \<Longrightarrow> post_step p r"
  by (auto simp: post_step_def)

definition posts_step :: "db \<Rightarrow> db \<Rightarrow> bool" where
  "posts_step s t \<longleftrightarrow> seq s \<le> seq t \<and> clock s \<le> clock t \<and> list_all2 post_step (posts s) (posts t)"

lemma posts_same: "posts t = posts s \<Longrightarrow> seq s \<le> seq t \<Longrightarrow> clock s \<le> clock t \<Longrightarrow> posts_step s t"
  by (simp add: posts_step_def list.rel_refl)

lemma posts_step_refl [simp]: "posts_step s s"
  by (simp add: posts_same)

lemma posts_step_trans: "posts_step s t \<Longrightarrow> posts_step t w \<Longrightarrow> posts_step s w"
  unfolding posts_step_def using list_all2_trans [of post_step post_step post_step] post_step_trans by (meson order.trans)

lemma list_all2_update:
  "(\<And>x. x \<in> set xs \<Longrightarrow> P x \<Longrightarrow> R x (f x)) \<Longrightarrow> (\<And>x. R x x) \<Longrightarrow> list_all2 R xs (update_rows P f xs)"
  by (induction xs) auto

lemma set_post_step:
  "(\<And>p. p \<in> set (posts s) \<Longrightarrow> po_id p = i \<Longrightarrow> post_step p (f p)) \<Longrightarrow> posts_step s (set_post i f s)"
  by (simp add: posts_step_def set_post_def list_all2_update)

definition reply_ok :: "post list \<Rightarrow> post \<Rightarrow> bool" where
  "reply_ok ps p \<longleftrightarrow> (case po_reply_to p of None \<Rightarrow> True
     | Some r \<Rightarrow> \<not> po_announcement p \<and> (\<exists>q \<in> set ps. po_id q = r \<and> po_thread q = po_thread p \<and> po_reply_to q = None \<and>
         \<not> po_announcement q))"

definition threads_inv :: "db \<Rightarrow> bool" where
  "threads_inv s \<longleftrightarrow> unique_by po_id (posts s) \<and>
     (\<forall>p \<in> set (posts s). po_id p < seq s \<and> (po_author_deleted p \<longrightarrow> po_hidden p) \<and> reply_ok (posts s) p)"

lemma threads_inv_step:
  assumes inv: "threads_inv s" and st: "posts_step s t"
  shows "threads_inv t"
proof -
  have rel: "list_all2 post_step (posts s) (posts t)" and sq: "seq s \<le> seq t" using st by (simp_all add: posts_step_def)
  have ids: "map po_id (posts t) = map po_id (posts s)"
    using rel by (induction rule: list_all2_induct) (simp_all add: post_step_def)
  have before: "\<exists>p \<in> set (posts s). post_step p q" if "q \<in> set (posts t)" for q
    using rel that by (induction rule: list_all2_induct) auto
  have later: "\<exists>q \<in> set (posts t). post_step p q" if "p \<in> set (posts s)" for p
    using rel that by (induction rule: list_all2_induct) auto
  have "po_id q < seq t \<and> (po_author_deleted q \<longrightarrow> po_hidden q) \<and> reply_ok (posts t) q" if q: "q \<in> set (posts t)" for q
  proof -
    obtain p where p: "p \<in> set (posts s)" "post_step p q" using before [OF q] by blast
    have old: "po_id p < seq s" "po_author_deleted p \<longrightarrow> po_hidden p" "reply_ok (posts s) p"
      using inv p(1) by (simp_all add: threads_inv_def)
    have "reply_ok (posts t) q"
    proof (cases "po_reply_to p")
      case (Some r)
      with old(3) obtain u where u: "u \<in> set (posts s)" "po_id u = r" "po_thread u = po_thread p" "po_reply_to u = None"
          "\<not> po_announcement u" "\<not> po_announcement p" by (auto simp: reply_ok_def)
      from later [OF u(1)] obtain v where "v \<in> set (posts t)" "post_step u v" by blast
      with u p(2) Some show ?thesis by (auto simp: reply_ok_def post_step_def)
    qed (use p(2) in \<open>simp add: reply_ok_def post_step_def\<close>)
    with old p(2) sq show ?thesis by (auto simp: post_step_def)
  qed
  with inv ids show ?thesis by (simp add: threads_inv_def unique_by_def)
qed

lemma threads_inv_insert:
  assumes inv: "threads_inv s" and p: "po_id p = seq s" "\<not> po_author_deleted p" "reply_ok (posts s) p"
  shows "threads_inv (insert_post p s)"
proof -
  have "reply_ok (posts s @ [p]) q" if "reply_ok (posts s) q" for q
    using that by (auto simp: reply_ok_def split: option.splits)
  moreover have "po_id p \<notin> po_id ` set (posts s)" using inv p(1) by (auto simp: threads_inv_def)
  ultimately show ?thesis
    using inv p by (auto simp: threads_inv_def insert_post_def less_Suc_eq)
qed

text \<open>Later states keep every post, as steps leave it, and may have more; time does not go back.\<close>

definition posts_evolve :: "db \<Rightarrow> db \<Rightarrow> bool" where
  "posts_evolve s t \<longleftrightarrow> clock s \<le> clock t \<and> (\<forall>p \<in> set (posts s). \<exists>q \<in> set (posts t). post_step p q)"

lemma posts_evolve_refl [simp]: "posts_evolve s s"
  unfolding posts_evolve_def using post_step_refl by blast

lemma posts_evolve_trans: "posts_evolve s t \<Longrightarrow> posts_evolve t w \<Longrightarrow> posts_evolve s w"
  unfolding posts_evolve_def using post_step_trans by (meson order.trans)

lemma step_evolves: "posts_step s t \<Longrightarrow> posts_evolve s t"
proof -
  assume st: "posts_step s t"
  then have "list_all2 post_step (posts s) (posts t)" by (simp add: posts_step_def)
  then have "\<forall>p \<in> set (posts s). \<exists>q \<in> set (posts t). post_step p q"
    by (induction rule: list_all2_induct) auto
  with st show ?thesis by (simp add: posts_evolve_def posts_step_def)
qed

lemma insert_evolves: "posts_evolve s (insert_post p s)"
  unfolding posts_evolve_def insert_post_def using post_step_refl by fastforce

section \<open>Frames\<close>

lemma notify_posts: "posts_step s (snd (notify r k ti b u s))"
  by (rule posts_same) (simp_all add: notify_def Let_def)

lemma notify_each_posts: "posts_step s (snd (notify_each rs k ti b u s))"
  by (induction rs arbitrary: s) (auto simp: notify_each_Cons intro: posts_step_trans [OF notify_posts])

lemma posts_record_audit [simp]: "posts (record_audit e a tg d s) = posts s"
  by (simp add: record_audit_def Let_def)

lemma audit_posts: "posts_step s (record_audit e a tg d s)"
  by (rule posts_same) (simp_all add: record_audit_def Let_def)

lemma allow_posts: "posts_step s (snd (allow_action u a l w s))"
proof -
  obtain c where "snd (allow_action u a l w s) = s\<lparr> cache := c \<rparr>" using allow_action_eq by blast
  then show ?thesis by (simp add: posts_same)
qed

lemma same_rows_posts: "same_rows s t \<Longrightarrow> posts_step s t"
  by (simp add: same_rows_def posts_same)

lemma ping_posts: "posts_step s (ping_mentioned u w p s)"
  by (cases w) (simp_all add: notify_each_posts)

lemmas posts_rules = posts_step_refl notify_posts notify_each_posts audit_posts allow_posts ping_posts

section \<open>Writing\<close>

lemma post_to_thread_cases:
  obtains (refused) e t where "post_to_thread evs u w tid q s = raised e t" "posts_step s t"
  | (posted) p sh body parent s1 t where "post_to_thread evs u w tid q s = returned p t" "post_gate s u w = None"
      "allow_action (u_id u) ''thread_post'' (st_post_limit (conf s)) (st_post_window (conf s)) s = (True, s1)"
      "validate_share evs s1 u (pr_share q) = Inr sh" "accepted_body s1 (pr_body q) (pr_allow_empty q) (sh \<noteq> no_share) = Inr body"
      "validate_reply_to s1 tid (pr_reply q) = Inr parent" "p = new_post tid (u_id u) body False parent sh s1"
      "t = (if pr_ping q then ping_mentioned u w p (insert_post p s1) else insert_post p s1)"
proof (cases "post_gate s u w")
  case (Some e)
  then show thesis by (intro refused [of e s]) (simp_all add: post_to_thread_def)
next
  case None
  note gate = this
  obtain ok s1 where r: "allow_action (u_id u) ''thread_post'' (st_post_limit (conf s)) (st_post_window (conf s)) s = (ok, s1)"
    by fastforce
  have k: "posts_step s s1" using allow_posts r by (metis snd_conv)
  show thesis
  proof (cases "\<exists>sh body parent. ok \<and> validate_share evs s1 u (pr_share q) = Inr sh \<and>
      accepted_body s1 (pr_body q) (pr_allow_empty q) (sh \<noteq> no_share) = Inr body \<and>
      validate_reply_to s1 tid (pr_reply q) = Inr parent")
    case True
    then obtain sh body parent where v: "ok" "validate_share evs s1 u (pr_share q) = Inr sh"
        "accepted_body s1 (pr_body q) (pr_allow_empty q) (sh \<noteq> no_share) = Inr body"
        "validate_reply_to s1 tid (pr_reply q) = Inr parent" by blast
    show thesis
      by (rule posted [OF _ gate _ v(2-4) refl refl]) (use gate r v in \<open>simp_all add: post_to_thread_def Let_def\<close>)
  next
    case False
    have "\<exists>e. post_to_thread evs u w tid q s = raised e s1"
      using gate r False by (auto simp: post_to_thread_def Let_def split: sum.split)
    then show thesis using k refused by blast
  qed
qed

lemma valid_reply: "validate_reply_to s t r = Inr (Some i) \<Longrightarrow> threads_inv s \<Longrightarrow>
   \<exists>q \<in> set (posts s). po_id q = i \<and> po_thread q = t \<and> po_reply_to q = None \<and> \<not> po_announcement q"
proof -
  assume v: "validate_reply_to s t r = Inr (Some i)" and inv: "threads_inv s"
  obtain j p where p: "post_row s j = Some p" "po_thread p = t" "\<not> po_announcement p"
      "i = (case po_reply_to p of None \<Rightarrow> po_id p | Some q \<Rightarrow> q)"
    using v by (auto simp: validate_reply_to_def split: option.splits if_splits)
  have m: "p \<in> set (posts s)" using p(1) by (auto simp: post_row_def dest: find_SomeD)
  show ?thesis
  proof (cases "po_reply_to p")
    case None
    with p m show ?thesis by auto
  next
    case (Some k)
    have "reply_ok (posts s) p" using inv m by (simp add: threads_inv_def)
    with Some p show ?thesis by (auto simp: reply_ok_def)
  qed
qed

definition keeps_posts :: "db \<Rightarrow> db \<Rightarrow> bool" where
  "keeps_posts s t \<longleftrightarrow> threads_inv t \<and> posts_evolve s t"

lemma keeps_step: "threads_inv s \<Longrightarrow> posts_step s t \<Longrightarrow> keeps_posts s t"
  by (simp add: keeps_posts_def threads_inv_step step_evolves)

lemma write_keeps:
  assumes inv: "threads_inv s"
  shows "keeps_posts s (snd (post_to_thread evs u w tid q s))"
proof (cases rule: post_to_thread_cases [of evs u w tid q s])
  case (refused e t)
  with inv show ?thesis by (simp add: keeps_step)
next
  case (posted p sh body parent s1 t)
  have k: "posts_step s s1" using allow_posts posted(3) by (metis snd_conv)
  have inv1: "threads_inv s1" by (rule threads_inv_step [OF inv k])
  have "reply_ok (posts s1) p"
    using valid_reply [OF _ inv1] posted(6,7) by (cases parent) (auto simp: reply_ok_def new_post_def)
  then have "threads_inv (insert_post p s1)"
    by (intro threads_inv_insert [OF inv1]) (simp_all add: posted(7) new_post_def)
  moreover have "posts_step (insert_post p s1) t" by (simp add: posted(8) ping_posts)
  ultimately have "threads_inv t" "posts_evolve (insert_post p s1) t"
    by (simp_all add: threads_inv_step step_evolves)
  then show ?thesis
    using posted(1) posts_evolve_trans [OF step_evolves [OF k] posts_evolve_trans [OF insert_evolves]]
    by (simp add: keeps_posts_def)
qed

lemma edit_step: "posts_step s (snd (edit_post u p w body s))"
proof -
  have "posts_step s (set_post i (\<lambda>x. x\<lparr> po_body := b, po_updated_at := t \<rparr>) s)" for i b t
    by (rule set_post_step) (simp add: post_step_def)
  then show ?thesis by (simp add: edit_post_def split: sum.split)
qed

lemma threads_row: "threads_inv s \<Longrightarrow> x \<in> set (posts s) \<Longrightarrow> post_row s (po_id x) = Some x"
  unfolding post_row_def threads_inv_def by (blast intro: unique_by_find)

lemma delete_step:
  assumes "threads_inv s"
  shows "posts_step s (snd (delete_own_post u p s))"
proof -
  have shown: "posts_step s (set_post i (\<lambda>x. x\<lparr> po_hidden := True, po_author_deleted := True, po_updated_at := t \<rparr>) s)" for i t
    by (rule set_post_step) (simp add: post_step_def)
  have "posts_step s (set_post (po_id p) (\<lambda>x. x\<lparr> po_author_deleted := True \<rparr>) s)"
    if "po_hidden (case post_row s (po_id p) of None \<Rightarrow> p | Some x \<Rightarrow> x)"
  proof (rule set_post_step)
    fix x assume "x \<in> set (posts s)" "po_id x = po_id p"
    with that threads_row [OF assms] have "po_hidden x" by force
    then show "post_step x (x\<lparr> po_author_deleted := True \<rparr>)" by (simp add: post_step_def)
  qed
  with shown show ?thesis
    by (auto simp: delete_own_post_def Let_def self_deleted_def intro: posts_step_trans [OF _ audit_posts])
qed

lemma insert_keeps:
  assumes "threads_inv s" "posts_step s s1" "po_id p = seq s1" "\<not> po_author_deleted p" "reply_ok (posts s1) p"
    and "posts_step (insert_post p s1) t"
  shows "keeps_posts s t"
  using threads_inv_insert [OF threads_inv_step [OF assms(1,2)] assms(3-5)] assms(2,6)
  unfolding keeps_posts_def
  by (blast intro: threads_inv_step posts_evolve_trans step_evolves insert_evolves)

lemma announce_keeps:
  assumes inv: "threads_inv s"
  shows "keeps_posts s (snd (post_announcement u w t body s))"
proof -
  let ?p = "new_post t (u_id u) body True None no_share s"
  have "keeps_posts s (snd (notify_each rs k ti b url (insert_post ?p s)))" for rs k ti b url
    by (rule insert_keeps [OF inv posts_step_refl _ _ _ notify_each_posts])
      (simp_all add: new_post_def reply_ok_def)
  with keeps_step [OF inv] show ?thesis by (simp add: post_announcement_def Let_def)
qed

lemma ask_step: "posts_step s (snd (group_ask_organiser u g c s))"
proof -
  obtain ok s1 where r: "allow_action (u_id u) ''group_question'' (st_question_limit (conf s)) (st_question_window (conf s)) s
      = (ok, s1)" by fastforce
  have k: "posts_step s s1" using allow_posts r by (metis snd_conv)
  have "posts_step s (snd (notify w k' ti b url (record_audit e a tg d s1)))" for w k' ti b url e a tg d
    by (rule posts_step_trans [OF k posts_step_trans [OF audit_posts notify_posts]])
  with k r show ?thesis
    by (auto simp: group_ask_organiser_def Let_def case_prod_beta split: option.split)
qed

section \<open>Feelings\<close>

lemma gate_step: "posts_step s (snd (thread_write_gate u p w s))"
proof -
  obtain ok s1 where r: "allow_action (u_id u) ''thread_react'' (st_react_limit (conf s)) (st_react_window (conf s)) s = (ok, s1)"
    by fastforce
  have "posts_step s s1" using allow_posts r by (metis snd_conv)
  with r show ?thesis by (simp add: thread_write_gate_def split: option.split)
qed

lemma gated_step:
  assumes "\<And>s1. posts_step s1 (snd (k s1))"
  shows "posts_step s (snd (case thread_write_gate u p w s of (Inl e, s1) \<Rightarrow> raised e s1 | (Inr _, s1) \<Rightarrow> k s1))"
  using gate_step [of s u p w] assms
  by (cases "thread_write_gate u p w s") (auto split: sum.split intro: posts_step_trans)

lemma rows_posts:
  "posts_step s (record_audit e a tg d (s\<lparr> reactions := x \<rparr>))"
  "posts_step s (record_audit e a tg d (s\<lparr> dissents := y \<rparr>))"
  "posts_step s (record_audit e a tg d (s\<lparr> concerns := y \<rparr>))"
  by (rule posts_same; simp add: record_audit_def Let_def)+

lemma react_step: "posts_step s (snd (toggle_reaction u p w facet s))"
  by (simp add: toggle_reaction_def Let_def gated_step rows_posts)

lemma dissent_step: "posts_step s (snd (toggle_dissent u p w s))"
  unfolding toggle_dissent_def by (rule gated_step) (simp add: Let_def rows_posts split: prod.split)

lemma concern_step: "posts_step s (snd (record_concern u p w s))"
  unfolding record_concern_def by (rule gated_step) (simp add: Let_def rows_posts split: prod.split)

section \<open>Moderation\<close>

lemma hidden_step:
  assumes "threads_inv s" and "b \<or> \<not> author_deleted s t"
  shows "posts_step s (set_hidden t b s)"
proof -
  have "list_all2 post_step (posts s) (update_rows (\<lambda>p. po_id p = snd t) (\<lambda>p. p\<lparr> po_hidden := b \<rparr>) (posts s))"
    if "fst t = ''social.post''"
  proof (rule list_all2_update)
    fix x assume "x \<in> set (posts s)" "po_id x = snd t"
    then have "post_row s (snd t) = Some x" using threads_row [OF assms(1)] by force
    with assms(2) that show "post_step x (x\<lparr> po_hidden := b \<rparr>)"
      by (auto simp: post_step_def author_deleted_def)
  qed simp
  then show ?thesis by (simp add: posts_step_def set_hidden_def list.rel_refl)
qed

lemmas later_posts = same_rows_rules(2-) [THEN same_rows_posts, THEN posts_step_trans [rotated]]

lemma later_updates:
  "posts_step w s \<Longrightarrow> posts_step w (set_active i b s)" "posts_step w s \<Longrightarrow> posts_step w (set_lifted j s)"
  "posts_step w s \<Longrightarrow> posts_step w (close_report k m st s)" "posts_step w s \<Longrightarrow> posts_step w (mark_lifted a s)"
  by (simp_all add: posts_step_def close_report_def mark_lifted_def)

lemma later_case:
  "posts_step w s \<Longrightarrow> posts_step w (case rep of None \<Rightarrow> s | Some r \<Rightarrow> close_report (rp_id r) m st s)"
  "posts_step w s \<Longrightarrow> posts_step w (case rep of None \<Rightarrow> s | Some r \<Rightarrow> notify_reporter (rp_reporter r) ti b s)"
  by (auto split: option.split intro: later_updates later_posts)

lemma enforce_step:
  assumes "threads_inv w" "posts_step w s"
  shows "posts_step w (enforce t k s)"
proof -
  have "posts_step w (set_hidden t True s)"
    by (rule posts_step_trans [OF assms(2) hidden_step]) (simp_all add: threads_inv_step [OF assms])
  with assms(2) show ?thesis by (simp add: enforce_def Let_def later_updates later_posts)
qed

lemma take_action_step:
  assumes "threads_inv s"
  shows "posts_step s (snd (take_action m t k re notes rep ex s))"
proof -
  have "posts_step s (enforce t k (s\<lparr> mod_actions := xs, seq := Suc (seq s) \<rparr>))" for xs
    by (rule enforce_step [OF assms]) (simp add: posts_same)
  then show ?thesis
    unfolding take_action_def Let_def snd_conv notify_statement_of_reasons_def
    by (intro later_posts later_case)
qed

lemma dismiss_step: "posts_step s (dismiss_report m r res s)"
  unfolding dismiss_report_def Let_def
  by (intro later_posts) (simp add: posts_same)

lemma lift_one_step_posts:
  assumes "posts_step w s"
  shows "posts_step w (snd (lift_one now i (n, s)))"
proof -
  have "posts_step w (set_lifted i s)"
    "posts_step w (notify_suspension_lifted tg (set_lifted i (record_audit e a tg' d (set_active j b s))))"
    for tg e a tg' d j b
    unfolding notify_suspension_lifted_def by (intro later_updates later_posts assms)+
  with assms show ?thesis by (simp add: lift_one_def Let_def split: option.split)
qed

lemma lift_expired_step: "posts_step s (snd (lift_expired_suspensions s))"
  unfolding lift_expired_suspensions_def
  by (rule fold_snd_keeps [of "posts_step s"]) (simp_all add: lift_one_step_posts)

lemma reverse_step:
  assumes "threads_inv s"
  shows "posts_step s (snd (reverse_action a s))"
proof -
  note m = later_updates(4) [OF posts_step_refl, of s a]
  have same: "author_deleted (mark_lifted a s) t = author_deleted s t" for t
    by (simp add: author_deleted_def post_row_def mark_lifted_def)
  have "posts_step s (snd (reverse_account a u s))" for u
    using m by (simp add: reverse_account_def Let_def later_updates later_posts)
  moreover have "posts_step s (snd (reverse_content a s))"
    using m posts_step_trans [OF m hidden_step [OF threads_inv_step [OF assms m]]]
    by (simp add: reverse_content_def Let_def same later_posts)
  ultimately show ?thesis by (simp add: reverse_action_def split: option.split)
qed

lemma file_appeal_step: "posts_step s (snd (file_appeal u a tx s))"
proof -
  obtain ok s1 where r: "allow_action u ''appeal'' 5 86400 s = (ok, s1)" by fastforce
  have "posts_step s s1" using allow_posts r by (metis snd_conv)
  then have "posts_step s (record_audit e x tg d (s1\<lparr> appeals := xs, seq := Suc (seq s1) \<rparr>))" for e x tg d xs
    by (intro later_posts) (simp add: posts_step_def)
  with r \<open>posts_step s s1\<close> show ?thesis by (simp add: file_appeal_def Let_def)
qed

lemma resolve_appeal_step:
  assumes "threads_inv s"
  shows "posts_step s (snd (resolve_appeal m pid g notes s))"
proof -
  have base: "posts_step s (s\<lparr> appeals := xs \<rparr>)" for xs by (rule posts_same) simp_all
  have rev: "posts_step s (snd (reverse_action a (s\<lparr> appeals := xs \<rparr>)))" for a xs
    by (rule posts_step_trans [OF base reverse_step [OF threads_inv_step [OF assms base]]])
  have told: "posts_step s (snd (alert_guardians_of_moderation us (notify_appeal_outcome a g l (record_audit e x tg d t))))"
    if "posts_step s t" for us a g l e x tg d t
    using that unfolding notify_appeal_outcome_def by (auto intro!: later_posts)
  show ?thesis
    by (cases g; simp add: resolve_appeal_def Let_def case_prod_beta told rev base split: option.split)
qed

lemma referral_step: "posts_step s (snd (create_authority_referral m u re auth rep ref notes s))"
  by (simp add: posts_step_def list.rel_refl create_authority_referral_def Let_def record_audit_def)

lemma mod_exec_step: "threads_inv s \<Longrightarrow> posts_step s (mod_exec q s)"
  by (cases q)
    (auto simp: take_action_step dismiss_step lift_expired_step file_appeal_step resolve_appeal_step referral_step
      with_member_def split: option.split)

section \<open>The service\<close>

text \<open>A request loads its rows by id; the clock moves only in \<open>Pass\<close>.\<close>

datatype thread_request =
    WritePost id id post_request
  | EditPost id id string
  | DeletePost id id
  | Announce id id string
  | AskOrganiser id id string
  | ReactTo id id string
  | Dissent id id
  | RaiseConcern id id
  | Moderate mod_request
  | Pass time

definition with_thread :: "db \<Rightarrow> id \<Rightarrow> (thread_owner \<Rightarrow> db) \<Rightarrow> db" where
  "with_thread s t k = (case owner_object s t of None \<Rightarrow> s | Some w \<Rightarrow> k w)"

definition with_post :: "db \<Rightarrow> id \<Rightarrow> (post \<Rightarrow> thread_owner \<Rightarrow> db) \<Rightarrow> db" where
  "with_post s i k = (case post_row s i of None \<Rightarrow> s | Some p \<Rightarrow> with_thread s (po_thread p) (k p))"

fun thread_exec :: "event list \<Rightarrow> thread_request \<Rightarrow> db \<Rightarrow> db" where
  "thread_exec evs (WritePost u t q) s =
     with_member s u (\<lambda>u. with_thread s t (\<lambda>w. snd (post_to_thread evs u w t q s)))"
| "thread_exec evs (EditPost u p body) s =
     with_member s u (\<lambda>u. with_post s p (\<lambda>p w. snd (edit_post u p w body s)))"
| "thread_exec evs (DeletePost u p) s = with_post s p (\<lambda>p w. snd (delete_own_post u p s))"
| "thread_exec evs (Announce u t body) s =
     with_member s u (\<lambda>u. with_thread s t (\<lambda>w. snd (post_announcement u w t body s)))"
| "thread_exec evs (AskOrganiser u g c) s =
     with_member s u (\<lambda>u. case group_row s g of None \<Rightarrow> s | Some g \<Rightarrow> snd (group_ask_organiser u g c s))"
| "thread_exec evs (ReactTo u p facet) s =
     with_member s u (\<lambda>u. with_post s p (\<lambda>p w. snd (toggle_reaction u p w facet s)))"
| "thread_exec evs (Dissent u p) s =
     with_member s u (\<lambda>u. with_post s p (\<lambda>p w. snd (toggle_dissent u p w s)))"
| "thread_exec evs (RaiseConcern u p) s =
     with_member s u (\<lambda>u. with_post s p (\<lambda>p w. snd (record_concern u p w s)))"
| "thread_exec evs (Moderate q) s = mod_exec q s"
| "thread_exec evs (Pass t) s = s\<lparr> clock := max (clock s) t \<rparr>"

lemma thread_exec_keeps:
  assumes "threads_inv s"
  shows "keeps_posts s (thread_exec evs q s)"
proof -
  note k = keeps_step [OF assms]
  have "posts_step s (s\<lparr> clock := max (clock s) t \<rparr>)" for t by (rule posts_same) simp_all
  then show ?thesis
    using write_keeps [OF assms] announce_keeps [OF assms] k [OF edit_step] k [OF delete_step [OF assms]]
      k [OF ask_step] k [OF react_step] k [OF dissent_step] k [OF concern_step] k [OF mod_exec_step [OF assms]]
      k [OF posts_step_refl] k
    by (cases q) (simp_all add: with_member_def with_post_def with_thread_def split: option.split)
qed

interpretation talk: evolving "thread_exec evs" threads_inv posts_evolve for evs
  by unfold_locales (use thread_exec_keeps in \<open>auto simp: keeps_posts_def intro: posts_evolve_trans\<close>)

end
