(* ===== verification/Threads_Properties.thy ===== *)
theory Threads_Properties
  imports Threads_Laws Admission_Properties
begin

text \<open>
  The properties of conversations: the shape replies keep, that what an author deleted never comes
  back, that mentions resolve to the members they name, and who may still write after a new age
  proof.
\<close>

text \<open>A children's meetup with its conversation: a message of the owner, deleted, and a reply to it.\<close>

definition talk_db :: db where
  "talk_db = (empty_db toy_lib)\<lparr> seq := 100, users := [sample_parent, sample_child, sample_friend],
     activities := [sample_meet], threads := [\<lparr> th_id = 86, th_activity = Some 80, th_group = None \<rparr>],
     memberships := [new_membership 83 80 2 MOwner SMember (Some 0), new_membership 84 80 6 MMember SMember (Some 0)],
     posts := [\<lparr> po_id = 87, po_thread = 86, po_author = 2, po_body = ''hi'', po_announcement = False, po_hidden = True,
         po_author_deleted = True, po_reply_to = None, po_shared_activity = None, po_shared_place = None,
         po_shared_event = None, po_created_at = 0, po_updated_at = 0 \<rparr>,
       \<lparr> po_id = 88, po_thread = 86, po_author = 6, po_body = ''yo'', po_announcement = False, po_hidden = False,
         po_author_deleted = False, po_reply_to = Some 87, po_shared_activity = None, po_shared_place = None,
         po_shared_event = None, po_created_at = 0, po_updated_at = 0 \<rparr>] \<rparr>"

lemma talk_inv: "threads_inv talk_db"
  by (simp add: threads_inv_def reply_ok_def unique_by_def talk_db_def)

section \<open>Along every run\<close>

text \<open>
  C21: along every run of thread and moderation requests a conversation keeps its shape: post ids
  are unique, and a reply answers a top-level message of the same conversation, never another
  reply and never an announcement, and is not an announcement itself.
\<close>

theorem thread_shape:
  assumes "threads_inv s" and "t = run_requests (thread_exec evs) qs s"
  shows "unique_by po_id (posts t) \<and> (\<forall>p \<in> set (posts t). case po_reply_to p of
      None \<Rightarrow> True
    | Some r \<Rightarrow> \<not> po_announcement p \<and> (\<exists>q \<in> set (posts t). po_id q = r \<and> po_thread q = po_thread p \<and>
         po_reply_to q = None \<and> \<not> po_announcement q))"
proof -
  have "threads_inv t" using talk.run_inv [OF assms(1)] assms(2) by simp
  then show ?thesis by (simp add: threads_inv_def reply_ok_def)
qed

text \<open>
  C22: what an author deleted stays deleted: along every run of requests, an appeal that overturns
  a removal included, the message stays hidden and marked as deleted by its author, and no page of
  any conversation shows it, neither as a message nor as a reply.
\<close>

theorem deleted_stays_hidden:
  assumes "threads_inv s" and "p \<in> set (posts s)" and "po_author_deleted p"
    and "t = run_requests (thread_exec evs) qs s"
  shows "(\<exists>q. post_row t (po_id p) = Some q \<and> po_hidden q \<and> po_author_deleted q \<and> po_author q = po_author p) \<and>
    (\<forall>x \<in> shown_posts (thread_page t tid before limit). po_id x \<noteq> po_id p)"
proof -
  have inv: "threads_inv t" using talk.run_inv [OF assms(1)] assms(4) by simp
  have "posts_evolve s t" using talk.run_rel [OF assms(1)] assms(4) by simp
  then obtain q where q: "q \<in> set (posts t)" "post_step p q" using assms(2) by (auto simp: posts_evolve_def)
  then have "po_author_deleted q" "po_id q = po_id p" "po_author q = po_author p"
    using assms(3) by (auto simp: post_step_def)
  with inv q(1) have row: "po_hidden q" "post_row t (po_id p) = Some q" "po_author_deleted q" "po_author q = po_author p"
    using threads_row [OF inv q(1)] by (auto simp: threads_inv_def)
  have "x \<in> set (posts t) \<and> \<not> po_hidden x" if "x \<in> shown_posts (thread_page t tid before limit)" for x
    using that
    by (auto simp: shown_posts_def thread_page_def Let_def visible_replies_def top_posts_def before_anchor_def
        dest!: in_set_takeD split: option.splits if_splits)
  then have "\<forall>x \<in> shown_posts (thread_page t tid before limit). po_id x \<noteq> po_id p"
    using row(1,2) threads_row [OF inv] by force
  with row show ?thesis by blast
qed

theorem thread_shape_witness:
  "map po_reply_to (posts (run_requests (thread_exec []) [Pass 5, DeletePost 6 88] talk_db)) = [None, Some 87] \<and>
   unique_by po_id (posts (run_requests (thread_exec []) [Pass 5, DeletePost 6 88] talk_db))"
proof -
  let ?t = "run_requests (thread_exec []) [Pass 5, DeletePost 6 88] talk_db"
  have "map po_reply_to (posts ?t) = [None, Some 87]"
    by (simp add: with_post_def with_thread_def owner_object_def activity_row_def post_row_def delete_own_post_def
        set_post_def self_deleted_def talk_db_def empty_db_def sample_meet_def Let_def)
  with thread_shape [OF talk_inv refl, of "[]" "[Pass 5, DeletePost 6 88]"] show ?thesis by blast
qed

theorem deleted_stays_hidden_witness:
  "po_id (hd (posts talk_db)) = 87 \<and>
   (\<exists>q. post_row (run_requests (thread_exec []) [Pass 5] talk_db) 87 = Some q \<and> po_hidden q \<and> po_author_deleted q)"
proof -
  have p: "hd (posts talk_db) \<in> set (posts talk_db)" "po_author_deleted (hd (posts talk_db))" "po_id (hd (posts talk_db)) = 87"
    by (simp_all add: talk_db_def)
  from deleted_stays_hidden [OF talk_inv p(1,2) refl, of "[]" "[Pass 5]" 0 None 0]
  show ?thesis unfolding p(3) by blast
qed

section \<open>Mentions\<close>

lemma space_splits [simp]: "\<not> handle_char (CHR '' '')" "\<not> word_char (CHR '' '')"
  by (simp_all add: handle_char_def word_char_def)

lemma tokens_mention:
  assumes "h \<noteq> []" "\<forall>c \<in> set h. handle_char c" "length h \<le> 150"
  shows "mention_tokens False (CHR ''@'' # h @ CHR '' '' # cs) = h # mention_tokens False cs"
proof -
  have "take 150 (takeWhile handle_char (h @ CHR '' '' # cs)) = h"
    using assms by (simp add: takeWhile_append2)
  then show ?thesis using assms(1) by (simp add: Let_def)
qed

lemma tokens_prose:
  "CHR ''@'' \<notin> set x \<Longrightarrow> mention_tokens glued (x @ cs) = mention_tokens (if x = [] then glued else word_char (last x)) cs"
  by (induction x arbitrary: glued) auto

text \<open>
  A message that mentions: stretches of prose, each followed by an at sign, a handle and a space, and a
  rest. Prose has no at sign and does not end in a word character; the name of a plain handle is not
  empty, at most 150 characters long and made of the characters of a handle.
\<close>

definition prose :: "string \<Rightarrow> bool" where
  "prose x \<longleftrightarrow> CHR ''@'' \<notin> set x \<and> (x \<noteq> [] \<longrightarrow> \<not> word_char (last x))"

definition mention_text :: "(string \<times> user) list \<Rightarrow> string \<Rightarrow> string" where
  "mention_text ms rest = concat (map (\<lambda>(x, u). x @ CHR ''@'' # u_username u @ '' '') ms) @ rest"

definition plain_handle :: "user \<Rightarrow> bool" where
  "plain_handle u \<longleftrightarrow> u_username u \<noteq> [] \<and> length (u_username u) \<le> 150 \<and> (\<forall>c \<in> set (u_username u). handle_char c)"

lemma mention_text_tokens:
  assumes "\<forall>(x, u) \<in> set ms. prose x \<and> plain_handle u" and "CHR ''@'' \<notin> set rest"
  shows "mention_tokens False (mention_text ms rest) = map (\<lambda>m. u_username (snd m)) ms"
  using assms(1)
proof (induction ms)
  case Nil
  have "mention_tokens g [] = []" for g by simp
  with assms(2) tokens_prose [of rest False "[]"] show ?case by (simp add: mention_text_def)
next
  case (Cons m ms)
  obtain x u where m: "m = (x, u)" by (cases m)
  with Cons.prems have "prose x" "plain_handle u" by simp_all
  then have "mention_tokens False (x @ CHR ''@'' # u_username u @ CHR '' '' # mention_text ms rest) =
      u_username u # mention_tokens False (mention_text ms rest)"
    using tokens_prose [of x False] tokens_mention [of "u_username u" "mention_text ms rest"]
    by (auto simp: prose_def plain_handle_def)
  with Cons m show ?case by (simp add: mention_text_def)
qed

lemma resolve_all:
  assumes "\<forall>u \<in> set us. roster (lower_case (u_username u)) = Some u" "distinct (map u_id us)" "\<forall>u \<in> set us. u_id u \<notin> set seen"
  shows "resolve_tokens roster author seen (map u_username us) = filter (\<lambda>u. u_id u \<noteq> author) us"
  using assms
proof (induction us arbitrary: seen)
  case (Cons u us)
  have "\<forall>x \<in> set us. u_id x \<noteq> u_id u" using Cons.prems(2) by (auto simp: image_iff)
  with Cons.IH [of "u_id u # seen"] Cons.IH [of seen] Cons.prems show ?case by simp
qed simp

text \<open>
  C23: in a message of prose and mentions, where every handle is that of a member, written as an at sign
  before the name and a space after it, the mentions resolve to exactly those members, in the order
  they are named and without the author. The prose has no at sign and never ends in a word character
  before a mention; the names are made of handle characters, at most 150 of them; each member is named
  once; and no two members' names differ in their case only.
\<close>

theorem mention_roundtrip:
  assumes "distinct (map (\<lambda>u. lower_case (u_username u)) members)"
    and "members = List.map_filter (\<lambda>m. user_row s (mb_user m)) (voting_members s a)"
    and "snd ` set ms \<subseteq> set members" and "distinct (map (\<lambda>m. u_id (snd m)) ms)"
    and "\<forall>(x, u) \<in> set ms. prose x \<and> plain_handle u" and "CHR ''@'' \<notin> set rest"
  shows "resolve_mentions s a (mention_text ms rest) author = filter (\<lambda>u. u_id u \<noteq> author) (map snd ms)"
proof -
  have keys: "List.map_filter (\<lambda>m. map_option (\<lambda>u. (lower_case (u_username u), u)) (f m)) xs =
      map (\<lambda>u. (lower_case (u_username u), u)) (List.map_filter f xs)" for f :: "membership \<Rightarrow> user option" and xs
    by (induction xs) (auto simp: List.map_filter_simps split: option.split)
  have "mention_roster s a (lower_case (u_username u)) = Some u" if "u \<in> set (map snd ms)" for u
  proof -
    have "distinct (map fst (rev (map (\<lambda>u. (lower_case (u_username u), u)) members)))"
      using assms(1) by (simp add: rev_map [symmetric] comp_def)
    moreover have "(lower_case (u_username u), u) \<in> set (rev (map (\<lambda>u. (lower_case (u_username u), u)) members))"
      using that assms(3) by auto
    ultimately show ?thesis unfolding mention_roster_def keys assms(2) [symmetric] by (rule map_of_is_SomeI)
  qed
  moreover have "map (\<lambda>m. u_username (snd m)) ms = map u_username (map snd ms)" by simp
  ultimately show ?thesis
    unfolding resolve_mentions_def mention_text_tokens [OF assms(5,6)] using assms(4)
    by (simp only: ) (intro resolve_all, simp_all add: comp_def)
qed

theorem mention_roundtrip_witness:
  "mention_text [(''hey '', sample_friend), (''('', sample_child)] '')'' = ''hey @friend (@kid )'' \<and>
   resolve_mentions talk_db 80 (mention_text [(''hey '', sample_friend), (''('', sample_child)] '')'') 2 = [sample_friend]"
proof -
  have m: "List.map_filter (\<lambda>m. user_row talk_db (mb_user m)) (voting_members talk_db 80) = [sample_child, sample_friend]"
    by (simp add: voting_members_def current_members_def user_row_def talk_db_def empty_db_def new_membership_def
        sample_child_def sample_friend_def sample_parent_def List.map_filter_simps)
  show ?thesis
    using mention_roundtrip [OF _ m [symmetric], of "[(''hey '', sample_friend), (''('', sample_child)]" "'')''" 2]
    by (simp add: sample_child_def sample_friend_def mention_text_def plain_handle_def prose_def handle_char_def word_char_def
        lower_case_def lower_char_def)
qed

section \<open>After a new age proof\<close>

lemma assurance_post_gate:
  "apply_assurance v r s = (v', t) \<Longrightarrow> thread_seat t (ActivityThread a) u = thread_seat s (ActivityThread a) u \<and>
     u_id v' = u_id v"
  using assurance_places [of v r s v' t]
  by (auto simp: apply_assurance_eq evicted_def proof_saved_def recorded_def recompute_cohort_def thread_seat_def current_members_def Let_def split: if_splits)

text \<open>
  C24: writing asks for less than reading: a member whom a new age proof has moved to another
  cohort may not read the conversation of the activity any more, but what they write there is
  still accepted and stored for its members, although the read gate is meant to be the single gate
  for reading and writing.
\<close>

theorem stale_member_posts:
  assumes "apply_assurance v r s = (v', t)" and "v \<in> set (users s)" and "assign_cohort (ar_age_band r) \<noteq> ac_cohort a"
    and "thread_seat s (ActivityThread a) (u_id v) = Some False" and "can_participate t v'"
    and "\<not> ac_hidden a" and "ac_status a \<noteq> ACancelled" and "\<not> is_blocked t (u_id v) (ac_owner a)"
    and "allow_action (u_id v) ''thread_post'' (st_post_limit (conf t)) (st_post_window (conf t)) t = (True, w)"
    and "message_policy w body = Inr text"
    and "q = \<lparr> pr_body = body, pr_reply = None, pr_allow_empty = False, pr_ping = False, pr_share = no_share \<rparr>"
  shows "\<not> can_read_thread t v' (ActivityThread a) \<and>
    (\<exists>p z. post_to_thread evs v' (ActivityThread a) tid q t = returned p z \<and> p \<in> set (posts z) \<and>
       po_thread p = tid \<and> po_author p = u_id v \<and> po_body p = text \<and> \<not> po_hidden p)"
proof -
  note g = assurance_post_gate [OF assms(1)]
  have c: "u_cohort v' = assign_cohort (ar_age_band r)" using assurance_cohort [OF assms(1,2)] by blast
  then have "\<not> can_read_thread t v' (ActivityThread a)" using assms(3) by (simp add: can_read_thread_def)
  moreover have "post_gate t v' (ActivityThread a) = None"
    using g assms(4-8) by (simp add: post_gate_def)
  ultimately show ?thesis
    using assms(9-11) g
    by (auto simp: post_to_thread_def validate_share_def no_share_def accepted_body_def validate_reply_to_def
        Let_def new_post_def insert_post_def)
qed

theorem stale_member_posts_witness:
  "let (v, t) = apply_assurance sample_friend grown_up talk_db in
     ac_cohort sample_meet = Child \<and> \<not> can_read_thread t v (ActivityThread sample_meet) \<and>
     (\<exists>p z. post_to_thread [] v (ActivityThread sample_meet) 86 \<lparr> pr_body = ''hey'', pr_reply = None,
        pr_allow_empty = False, pr_ping = False, pr_share = no_share \<rparr> t = returned p z \<and> p \<in> set (posts z))"
proof -
  obtain v t where vt: "apply_assurance sample_friend grown_up talk_db = (v, t)" by fastforce
  let ?a = "ActivityThread sample_meet" and ?v = "sample_friend\<lparr> u_age_band := BandAdult, u_cohort := Adult \<rparr>"
  have v: "v = ?v" "cache t = (\<lambda>_. None)" "conf t = default_settings" "blocks t = []" "clock t = 0" "consents t = []"
    "map as_user (assurances t) = [6]" "map as_expires_at (assurances t) = [None]"
    using vt by (auto simp: apply_assurance_eq evicted_def proof_saved_def recorded_def recompute_cohort_def Let_def
        remove_user_from_conversations_def remove_user_from_groups_def talk_db_def empty_db_def sample_friend_def
        sample_child_def grown_up_def)
  have in_db: "sample_friend \<in> set (users talk_db)" by (simp add: talk_db_def)
  have c: "assign_cohort (ar_age_band grown_up) \<noteq> ac_cohort sample_meet" "\<not> ac_hidden sample_meet"
    "ac_status sample_meet \<noteq> ACancelled"
    by (simp_all add: grown_up_def sample_meet_def)
  have seat: "thread_seat talk_db ?a (u_id sample_friend) = Some False"
    by (simp add: thread_seat_def current_members_def talk_db_def new_membership_def sample_friend_def sample_meet_def)
  have par: "can_participate t v"
    using v(6-8) by (auto simp: can_participate_iff is_assurance_current_iff latest_assurance_def requires_parental_consent_def
        v(1) sample_friend_def sample_child_def dest!: latest_row_max)
  have nb: "\<not> is_blocked t (u_id sample_friend) (ac_owner sample_meet)" by (simp add: is_blocked_def v(4))
  obtain w where w: "allow_action (u_id sample_friend) ''thread_post'' (st_post_limit (conf t)) (st_post_window (conf t)) t
      = (True, w)"
    by (simp add: allow_action_def cache_live_def v(2,3) default_settings_def)
  then have "conf w = conf t" by (auto simp: allow_action_def split: if_splits option.splits)
  then have m: "message_policy w ''hey'' = Inr ''hey''"
    by (simp add: message_policy_def v(3) strip_def py_space_def default_settings_def)
  show ?thesis
    using stale_member_posts [OF vt in_db c(1) seat par c(2,3) nb w m refl, of "[]" 86] by (auto simp: vt)
      (simp add: sample_meet_def)
qed

end
