(* ===== verification/Sentiment_Properties.thy ===== *)
theory Sentiment_Properties
  imports Threads_Properties
begin

text \<open>
  What the sentiment jobs guarantee: the purge ends, a footer never speaks for fewer members than
  its threshold, dissent shows after sustained weeks and goes after sustained silence, and the
  quiet notes to an author stay apart.
\<close>

section \<open>The purge\<close>

lemma delete_first_filter:
  "length (filter P (delete_first n P rs)) = length (filter P rs) - n \<and>
   filter (\<lambda>r. \<not> P r) (delete_first n P rs) = filter (\<lambda>r. \<not> P r) rs"
  by (induction n P rs rule: delete_first.induct) (auto split: nat.split)

lemma batched_delete_returns:
  "batched_delete n P m rs =
     Some (if n = 0 then (m, rs) else (m + count_rows P rs, filter (\<lambda>r. \<not> P r) rs))"
proof (induction "length (filter P rs)" arbitrary: m rs rule: less_induct)
  case less
  show ?case
  proof (cases "n = 0 \<or> filter P rs = []")
    case True
    then show ?thesis
      by (subst batched_delete.simps) (auto simp: count_rows_def filter_empty_conv filter_id_conv)
  next
    case False
    let ?ts = "delete_first n P rs"
    have l: "length (filter P ?ts) = length (filter P rs) - n" "filter (\<lambda>r. \<not> P r) ?ts = filter (\<lambda>r. \<not> P r) rs"
      using delete_first_filter by blast+
    with False have "batched_delete n P (m + min n (length (filter P rs))) ?ts =
        Some (m + min n (length (filter P rs)) + count_rows P ?ts, filter (\<lambda>r. \<not> P r) rs)"
      using less.hyps [of ?ts] by simp
    with False l(1) show ?thesis
      by (subst batched_delete.simps) (simp add: Let_def count_rows_def min.commute)
  qed
qed

lemma kept_count: "(\<And>r. Q r \<longleftrightarrow> \<not> P r) \<Longrightarrow> count_rows P rs + length (filter Q rs) = length rs"
  by (induction rs) auto

text \<open>
  C25: the purge of raw reactions always returns. Either it ran within the last day and nothing
  changes, or it deletes exactly the reactions, dissents and concerns older than the retention
  window, reports how many, and leaves the footers, the notes and the reviews alone.
\<close>

theorem purge_returns:
  "\<exists>n t. purge_stale_reaction_rows now s = Some (n, t) \<and>
     (case n of
        None \<Rightarrow> t = s
      | Some (a, b, c) \<Rightarrow>
          (let cutoff = now - days (kn_retention (sn_knobs s)); d = sn_db s; e = sn_db t
           in reactions e = filter (\<lambda>r. cutoff \<le> re_created_at r) (reactions d) \<and>
              dissents e = filter (\<lambda>r. cutoff \<le> fl_created_at r) (dissents d) \<and>
              concerns e = filter (\<lambda>r. cutoff \<le> fl_created_at r) (concerns d) \<and>
              a + length (reactions e) = length (reactions d) \<and> b + length (dissents e) = length (dissents d) \<and>
              c + length (concerns e) = length (concerns d) \<and> posts e = posts d \<and>
              sn_footers t = sn_footers s \<and> sn_states t = sn_states s \<and> sn_reviews t = sn_reviews s))"
proof -
  show ?thesis
  proof (cases "claim_daily ''reaction_purge_daily'' now s")
    case (Pair ok s1)
    show ?thesis
    proof (cases ok)
      case False
      with Pair show ?thesis by (auto simp: purge_stale_reaction_rows_def claim_daily_def split: if_splits)
    next
      case True
      with Pair have "sn_knobs s1 = sn_knobs s" "sn_db s1 = sn_db s" "sn_footers s1 = sn_footers s"
        "sn_states s1 = sn_states s" "sn_reviews s1 = sn_reviews s"
        by (auto simp: claim_daily_def split: if_splits)
      with Pair True show ?thesis
        by (simp add: purge_stale_reaction_rows_def batched_delete_returns Let_def on_db_def record_audit_def kept_count not_less)
    qed
  qed
qed

section \<open>Footers\<close>

lemma latch_step_sound:
  fixes counts :: "string \<Rightarrow> nat" and existing :: "string \<rightharpoonup> int option" and k audience :: nat
  defines "fresh \<equiv> \<lambda>x. k \<le> counts x \<and> (existing x \<noteq> None \<or> 2 * k \<le> audience)"
  assumes "fold (latch_step counts k audience retention today existing) xs (pairs, perm, n) = (pairs', perm', n')"
    and "\<forall>x \<in> fst ` set pairs. fresh x"
  shows "(\<forall>x \<in> fst ` set pairs'. fresh x) \<and> set perm' \<subseteq> set perm \<union> {x. existing x \<noteq> None}"
  using assms(2,3)
proof (induction xs arbitrary: pairs perm n)
  case (Cons x xs)
  obtain pairs1 perm1 n1 where st: "latch_step counts k audience retention today existing x (pairs, perm, n) = (pairs1, perm1, n1)"
    by (metis prod_cases3)
  have "(\<forall>y \<in> fst ` set pairs1. fresh y) \<and> set perm1 \<subseteq> set perm \<union> {x. existing x \<noteq> None}"
    using st Cons.prems(2) by (auto simp: latch_step_def fresh_def split: option.splits if_splits)
  with Cons.IH [of pairs1 perm1 n1] Cons.prems(1) st show ?case by auto
qed simp

lemma graduate_step_sound:
  assumes "fold (graduate_step retention today) xs (kept, perm, n) = (kept', perm', n')"
  shows "fst ` set kept' \<subseteq> fst ` set kept \<union> fst ` set xs \<and> set perm' \<subseteq> set perm \<union> fst ` set xs"
  using assms
proof (induction xs arbitrary: kept perm n)
  case (Cons xd xs)
  obtain kept1 perm1 n1 where st: "graduate_step retention today xd (kept, perm, n) = (kept1, perm1, n1)"
    by (metis prod_cases3)
  have "fst ` set kept1 \<subseteq> fst ` set kept \<union> {fst xd}" "set perm1 \<subseteq> set perm \<union> {fst xd}"
    using st by (cases xd; auto simp: graduate_step_def Let_def split: if_splits)+
  moreover have "fst ` set kept' \<subseteq> fst ` set kept1 \<union> fst ` set xs \<and> set perm' \<subseteq> set perm1 \<union> fst ` set xs"
    using Cons.IH [of kept1 perm1 n1] Cons.prems st by simp
  ultimately show ?case unfolding list.set image_insert by blast
qed simp

lemma appreciation_sound:
  assumes "recompute_appreciation f counts k audience retention today = (g, n)"
  shows "\<forall>x \<in> fst ` set (ft_latched g). k \<le> counts x \<and> (x \<in> fst ` set (ft_latched f) \<or> 2 * k \<le> audience)"
    and "set (ft_permanent g) \<subseteq> set (ft_permanent f) \<union> fst ` set (ft_latched f) \<union>
           {x. k \<le> counts x \<and> 2 * k \<le> audience}"
proof -
  let ?ex = "map_of (rev (ft_latched f))"
  obtain pairs perm m where a: "fold (latch_step counts k audience retention today ?ex) facet_slugs
      ([], remdups (ft_permanent f), no_tally) = (pairs, perm, m)" by (metis prod_cases3)
  obtain kept perm2 m2 where b: "fold (graduate_step retention today) pairs ([], perm, m) = (kept, perm2, m2)"
    by (metis prod_cases3)
  have g: "ft_latched g = kept" "ft_permanent g = sort_key (\<lambda>x. x) perm2"
    using assms a b by (auto simp: recompute_appreciation_def Let_def)
  have ex: "?ex x \<noteq> None \<longleftrightarrow> x \<in> fst ` set (ft_latched f)" for x
    by (simp add: map_of_eq_None_iff)
  have l: "\<forall>x \<in> fst ` set pairs. k \<le> counts x \<and> (x \<in> fst ` set (ft_latched f) \<or> 2 * k \<le> audience)"
    "set perm \<subseteq> set (ft_permanent f) \<union> fst ` set (ft_latched f)"
    using latch_step_sound [OF a] unfolding ex by simp_all
  have d: "fst ` set kept \<subseteq> fst ` set pairs" "set perm2 \<subseteq> set perm \<union> fst ` set pairs"
    using graduate_step_sound [OF b] by simp_all
  show "\<forall>x \<in> fst ` set (ft_latched g). k \<le> counts x \<and> (x \<in> fst ` set (ft_latched f) \<or> 2 * k \<le> audience)"
    unfolding g by (rule ballI) (rule bspec [OF l(1) subsetD [OF d(1)]])
  show "set (ft_permanent g) \<subseteq> set (ft_permanent f) \<union> fst ` set (ft_latched f) \<union>
      {x. k \<le> counts x \<and> 2 * k \<le> audience}"
  proof
    fix x assume "x \<in> set (ft_permanent g)"
    then have "x \<in> set perm \<or> x \<in> fst ` set pairs" using d(2) by (auto simp: g)
    with subsetD [OF l(2), of x] bspec [OF l(1), of x]
    show "x \<in> set (ft_permanent f) \<union> fst ` set (ft_latched f) \<union> {x. k \<le> counts x \<and> 2 * k \<le> audience}"
      by blast
  qed
qed

text \<open>What one pass does to the footer of a post depends on that footer and the database only.\<close>

definition threshold_of :: "knobs \<Rightarrow> thread_owner \<Rightarrow> nat" where
  "threshold_of kn w = (if owner_cohort w = Adult then kn_k_adult kn else kn_k_teen kn)"

definition recomputed :: "time \<Rightarrow> post \<Rightarrow> sentiment \<Rightarrow> footer option" where
  "recomputed now p s =
     (case owner_object (sn_db s) (po_thread p) of
        None \<Rightarrow> footer_row s (po_id p)
      | Some w \<Rightarrow>
          if owner_hidden w then footer_row s (po_id p)
          else if owner_cohort w \<notin> {Adult, Teen} then None
          else Some (fst (recompute_appreciation (footer_or_new s (po_id p)) (facet_count (sn_db s) (po_id p))
                 (threshold_of (sn_knobs s) w) (eligible_audience_count (sn_db s) w) (kn_retention (sn_knobs s)) (day_of now))))"

lemma find_filter: "List.find P (filter Q xs) = List.find (\<lambda>x. Q x \<and> P x) xs"
  by (induction xs) auto

lemma find_map_fixed: "(\<And>x. P (f x) = P x) \<Longrightarrow> List.find P (map f xs) = map_option f (List.find P xs)"
  by (induction xs) auto

lemma find_snoc: "List.find P (xs @ [x]) = (case List.find P xs of None \<Rightarrow> if P x then Some x else None | r \<Rightarrow> r)"
  by (induction xs) auto

lemma footer_row_set: "footer_row (set_footer f s) j = (if j = ft_post f then Some f else footer_row s j)"
proof (cases "footer_row s (ft_post f)")
  case None
  then show ?thesis by (auto simp: set_footer_def footer_row_def find_snoc split: option.split)
next
  case (Some g)
  have "footer_row (s\<lparr> sn_footers := update_rows (\<lambda>g. ft_post g = ft_post f) (\<lambda>_. f) (sn_footers s) \<rparr>) j =
      map_option (\<lambda>g. if ft_post g = ft_post f then f else g) (footer_row s j)"
    unfolding footer_row_def update_rows_def by (simp add: find_map_fixed if_distrib cong: if_cong)
  with Some show ?thesis
    by (cases "footer_row s j") (auto simp: set_footer_def footer_row_def dest: find_SomeD)
qed

lemma footer_row_filter:
  "footer_row (s\<lparr> sn_footers := filter (\<lambda>f. ft_post f \<noteq> i) (sn_footers s) \<rparr>) j = (if j = i then None else footer_row s j)"
  unfolding footer_row_def by (auto simp: find_filter find_None_iff intro: find_cong_pred)

lemma ft_post_kept:
  "ft_post (fst (recompute_appreciation f c k a r t)) = ft_post f" "ft_post (advance_window kn h w f) = ft_post f"
  by (simp_all add: recompute_appreciation_def advance_window_def Let_def case_prod_beta)

lemma ft_post_or_new: "ft_post (footer_or_new s i) = i"
  by (auto simp: footer_or_new_def new_footer_def footer_row_def split: option.split dest: find_SomeD)

lemma set_footer_frame [simp]: "sn_db (set_footer f s) = sn_db s" "sn_knobs (set_footer f s) = sn_knobs s"
  "sn_markers (set_footer f s) = sn_markers s" "sn_states (set_footer f s) = sn_states s"
  by (simp_all add: set_footer_def)

lemma recompute_one_row:
  "footer_row (snd (recompute_one now p (n, s))) j = (if j = po_id p then recomputed now p s else footer_row s j) \<and>
   sn_db (snd (recompute_one now p (n, s))) = sn_db s \<and> sn_knobs (snd (recompute_one now p (n, s))) = sn_knobs s \<and>
   sn_states (snd (recompute_one now p (n, s))) = sn_states s"
  by (simp add: recompute_one_def recomputed_def threshold_of_def Let_def case_prod_beta footer_row_set footer_row_filter
      ft_post_kept ft_post_or_new split: option.split)

lemma recomputed_cong:
  "sn_db t = sn_db s \<Longrightarrow> sn_knobs t = sn_knobs s \<Longrightarrow> footer_row t (po_id p) = footer_row s (po_id p) \<Longrightarrow>
   recomputed now p t = recomputed now p s"
  by (simp add: recomputed_def footer_or_new_def split: option.split)

lemma recompute_fold:
  assumes "unique_by po_id ps"
  shows "footer_row (snd (fold (recompute_one now) ps (n, s))) j =
      (case List.find (\<lambda>p. po_id p = j) ps of None \<Rightarrow> footer_row s j | Some p \<Rightarrow> recomputed now p s) \<and>
    sn_db (snd (fold (recompute_one now) ps (n, s))) = sn_db s \<and>
    sn_knobs (snd (fold (recompute_one now) ps (n, s))) = sn_knobs s \<and>
    sn_states (snd (fold (recompute_one now) ps (n, s))) = sn_states s"
  using assms
proof (induction ps arbitrary: n s)
  case (Cons p ps)
  obtain m t where st: "recompute_one now p (n, s) = (m, t)" by fastforce
  have t: "footer_row t j = (if j = po_id p then recomputed now p s else footer_row s j)"
    "sn_db t = sn_db s" "sn_knobs t = sn_knobs s" "sn_states t = sn_states s"
    for j using recompute_one_row [where now = now and p = p and n = n and s = s] st by simp_all
  have un: "unique_by po_id ps" "po_id p \<notin> po_id ` set ps" using Cons.prems by (simp_all add: unique_by_def)
  have "recomputed now q t = recomputed now q s" if "q \<in> set ps" for q
  proof (rule recomputed_cong [OF t(2,3)])
    have "po_id q \<noteq> po_id p" using that un(2) by (metis image_eqI)
    then show "footer_row t (po_id q) = footer_row s (po_id q)" by (simp add: t(1))
  qed
  moreover have "List.find (\<lambda>q. po_id q = po_id p) ps = None" using un(2) by (simp add: find_None_iff) (metis image_eqI)
  ultimately show ?case
    using Cons.IH [OF un(1), of m t] t st by (auto split: option.split dest: find_SomeD)
qed simp

lemma dissent_one_row:
  "footer_row (dissent_one now p s) j = footer_row s j \<or>
   j = po_id p \<and> (\<exists>w. owner_object (sn_db s) (po_thread p) = Some w \<and> owner_cohort w = Adult) \<and>
   (\<exists>g. footer_row (dissent_one now p s) j = Some g \<and> ft_latched g = ft_latched (footer_or_new s j) \<and>
      ft_permanent g = ft_permanent (footer_or_new s j))"
  by (auto simp: dissent_one_def Let_def footer_row_set ft_post_kept ft_post_or_new advance_window_def split: option.split)

lemma dissent_one_frame [simp]:
  "sn_db (dissent_one now p s) = sn_db s" "sn_knobs (dissent_one now p s) = sn_knobs s"
  "sn_markers (dissent_one now p s) = sn_markers s" "sn_states (dissent_one now p s) = sn_states s"
  by (simp_all add: dissent_one_def Let_def split: option.split)

text \<open>The weekly step keeps the sentences of every footer, and makes empty footers only.\<close>

definition same_lines :: "footer option \<Rightarrow> footer option \<Rightarrow> bool" where
  "same_lines a b \<longleftrightarrow>
     (case a of None \<Rightarrow> [] | Some f \<Rightarrow> ft_latched f) = (case b of None \<Rightarrow> [] | Some f \<Rightarrow> ft_latched f) \<and>
     (case a of None \<Rightarrow> [] | Some f \<Rightarrow> ft_permanent f) = (case b of None \<Rightarrow> [] | Some f \<Rightarrow> ft_permanent f)"

lemma dissent_fold_lines:
  "same_lines (footer_row (fold (dissent_one now) ps s) j) (footer_row s j) \<and>
   sn_db (fold (dissent_one now) ps s) = sn_db s"
proof (induction ps arbitrary: s)
  case (Cons p ps)
  have "same_lines (footer_row (dissent_one now p s) j) (footer_row s j)"
    using dissent_one_row [of now p s j]
    by (auto simp: same_lines_def footer_or_new_def new_footer_def split: option.splits)
  with Cons.IH [of "dissent_one now p s"] show ?case by (simp add: same_lines_def)
qed (simp add: same_lines_def)

lemma dissent_fold_other:
  assumes "\<And>p w. p \<in> set ps \<Longrightarrow> po_id p = j \<Longrightarrow> owner_object (sn_db s) (po_thread p) = Some w \<Longrightarrow> owner_cohort w \<noteq> Adult"
  shows "footer_row (fold (dissent_one now) ps s) j = footer_row s j"
  using assms
proof (induction ps arbitrary: s)
  case (Cons p ps)
  have "footer_row (dissent_one now p s) j = footer_row s j"
    using dissent_one_row [of now p s j] Cons.prems [of p] by auto
  moreover have "footer_row (fold (dissent_one now) ps (dissent_one now p s)) j = footer_row (dissent_one now p s) j"
    by (rule Cons.IH) (use Cons.prems in auto)
  ultimately show ?case by simp
qed simp

lemma claim_daily_frame:
  "claim_daily k now s = (ok, t) \<Longrightarrow> sn_db t = sn_db s \<and> sn_knobs t = sn_knobs s \<and> sn_footers t = sn_footers s \<and>
     sn_states t = sn_states s \<and> sn_reviews t = sn_reviews s"
  by (auto simp: claim_daily_def split: if_splits)

text \<open>The footer of a candidate after a run, up to the weekly step.\<close>

lemma recompute_run:
  assumes run: "recompute_post_sentiment now s = (Some n, t)" and un: "unique_by po_id (posts (sn_db s))"
    and p: "p \<in> set (candidate_posts s)" and w: "owner_object (sn_db s) (po_thread p) = Some w"
  shows "same_lines (footer_row t (po_id p)) (recomputed now p s) \<and>
    (owner_cohort w \<noteq> Adult \<longrightarrow> footer_row t (po_id p) = recomputed now p s)"
proof -
  obtain ok s1 where c: "claim_daily ''post_sentiment_daily'' now s = (ok, s1)" by fastforce
  with run have ok: ok by (cases ok) (auto simp: recompute_post_sentiment_def)
  note f = claim_daily_frame [OF c]
  have ps: "candidate_posts s1 = candidate_posts s" using f by (simp add: candidate_posts_def)
  let ?ps = "candidate_posts s"
  obtain m s2 where q: "fold (recompute_one now) ?ps (no_tally, s1) = (m, s2)" by fastforce
  have un2: "unique_by po_id ?ps"
    using un unfolding candidate_posts_def unique_by_def by (auto simp: distinct_map intro: inj_on_subset)
  have "List.find (\<lambda>q. po_id q = po_id p) ?ps = Some p" by (rule unique_by_find [OF un2 p])
  then have s2: "footer_row s2 (po_id p) = recomputed now p s1" "sn_db s2 = sn_db s"
    using recompute_fold [OF un2, where now = now and n = no_tally and s = s1 and j = "po_id p"] q f by simp_all
  have s1: "recomputed now p s1 = recomputed now p s"
    by (rule recomputed_cong) (simp_all add: f footer_row_def)
  have t: "footer_row t (po_id p) = (if weekly_due ''post_sentiment_weekly'' now s2
      then footer_row (fold (dissent_one now) ?ps s2) (po_id p) else footer_row s2 (po_id p))"
    using run c ok q unfolding recompute_post_sentiment_def
    by (auto simp: ps Let_def on_db_def footer_row_def stamp_weekly_def)
  have "same_lines (footer_row t (po_id p)) (footer_row s2 (po_id p))"
    using dissent_fold_lines [of now ?ps s2 "po_id p"] t by (simp add: same_lines_def)
  moreover have "footer_row t (po_id p) = footer_row s2 (po_id p)" if "owner_cohort w \<noteq> Adult"
  proof -
    have "footer_row (fold (dissent_one now) ?ps s2) (po_id p) = footer_row s2 (po_id p)"
    proof (rule dissent_fold_other)
      fix q x assume q: "q \<in> set ?ps" "po_id q = po_id p" "owner_object (sn_db s2) (po_thread q) = Some x"
      from unique_byD [OF un2 q(1) p q(2)] q(3) w that s2(2) show "owner_cohort x \<noteq> Adult" by simp
    qed
    with t show ?thesis by simp
  qed
  ultimately show ?thesis using s2(1) s1 by simp
qed

text \<open>
  C26: the footers after a run of the daily derivation. Take a post of the run, that is one that is not
  hidden and carries reactions, dissent or a footer, in a thread that is not hidden. If it has a
  footer then its conversation is one of adults or of teenagers, never of children. A sentence that
  is latched on the footer, not yet permanent, is backed at that moment by at least the threshold
  number of different members, and if it was not latched before also by an audience of at least
  twice the threshold. A permanent sentence need not be backed at that moment: it was permanent or
  latched before the run, or earns its place in it by the same two bounds.
\<close>

theorem footer_threshold:
  assumes "recompute_post_sentiment now s = (Some n, t)" and "unique_by po_id (posts (sn_db s))"
    and "p \<in> set (candidate_posts s)" and "owner_object (sn_db s) (po_thread p) = Some w" and "\<not> owner_hidden w"
    and "footer_row t (po_id p) = Some f"
  shows "owner_cohort w \<in> {Adult, Teen} \<and>
    (let k = (if owner_cohort w = Adult then kn_k_adult (sn_knobs s) else kn_k_teen (sn_knobs s));
         old = footer_or_new s (po_id p);
         earned = (\<lambda>x. k \<le> facet_count (sn_db s) (po_id p) x \<and> 2 * k \<le> eligible_audience_count (sn_db s) w)
     in (\<forall>x \<in> fst ` set (ft_latched f). k \<le> facet_count (sn_db s) (po_id p) x \<and>
           (x \<in> fst ` set (ft_latched old) \<or> earned x)) \<and>
        (\<forall>x \<in> set (ft_permanent f). x \<in> set (ft_permanent old) \<or> x \<in> fst ` set (ft_latched old) \<or> earned x))"
proof -
  note r = recompute_run [OF assms(1-4)]
  have c: "owner_cohort w \<in> {Adult, Teen}"
  proof (rule ccontr)
    assume "owner_cohort w \<notin> {Adult, Teen}"
    with r assms(4,5,6) show False by (auto simp: recomputed_def)
  qed
  let ?old = "footer_or_new s (po_id p)" and ?k = "threshold_of (sn_knobs s) w"
  obtain g m where g: "recompute_appreciation ?old (facet_count (sn_db s) (po_id p)) ?k
      (eligible_audience_count (sn_db s) w) (kn_retention (sn_knobs s)) (day_of now) = (g, m)" by fastforce
  have "recomputed now p s = Some g" using c g assms(4,5) by (auto simp: recomputed_def)
  with r assms(6) have lines: "ft_latched f = ft_latched g" "ft_permanent f = ft_permanent g"
    by (simp_all add: same_lines_def)
  show ?thesis
    using c appreciation_sound [OF g] unfolding lines Let_def threshold_of_def by blast
qed

text \<open>Two members of four react to a post of an adult conversation, with a threshold of two.\<close>

definition warm_meet :: activity where
  "warm_meet = open_meet\<lparr> ac_owner := 1 \<rparr>"

definition warm_post :: post where
  "warm_post = \<lparr> po_id = 88, po_thread = 86, po_author = 6, po_body = ''yo'', po_announcement = False, po_hidden = False,
     po_author_deleted = False, po_reply_to = None, po_shared_activity = None, po_shared_place = None,
     po_shared_event = None, po_created_at = 0, po_updated_at = 0 \<rparr>"

definition warm_db :: db where
  "warm_db = (empty_db toy_lib)\<lparr> seq := 100, activities := [warm_meet],
     threads := [\<lparr> th_id = 86, th_activity = Some 80, th_group = None \<rparr>],
     memberships := map (\<lambda>u. new_membership (70 + u) 80 u MMember SMember (Some 0)) [1, 2, 6, 7],
     posts := [warm_post],
     reactions := map (\<lambda>u. \<lparr> re_post = 88, re_user = u, re_facet = ''helped_me'', re_created_at = 0 \<rparr>) [1, 2] \<rparr>"

definition warm_state :: sentiment where
  "warm_state = \<lparr> sn_db = warm_db, sn_knobs = default_knobs\<lparr> kn_k_adult := 2 \<rparr>, sn_footers = [], sn_states = [],
     sn_reviews = [], sn_markers = (\<lambda>_. None) \<rparr>"

lemmas warm_defs = warm_state_def warm_db_def warm_post_def warm_meet_def open_meet_def sample_meet_def empty_db_def
  new_membership_def default_knobs_def

lemma warm_counts:
  "owner_object warm_db 86 = Some (ActivityThread warm_meet)" "owner_cohort (ActivityThread warm_meet) = Adult"
  "\<not> owner_hidden (ActivityThread warm_meet)" "eligible_audience_count warm_db (ActivityThread warm_meet) = 4"
  "facet_count warm_db 88 ''helped_me'' = 2"
proof -
  have "facet_count warm_db 88 ''helped_me'' = card (set (map re_user (filter (\<lambda>r. re_post r = 88 \<and>
      re_facet r = ''helped_me'') (reactions warm_db))))"
    by (simp add: facet_count_def)
  then show "facet_count warm_db 88 ''helped_me'' = 2" by (simp add: warm_db_def)
qed (simp_all add: owner_object_def activity_row_def eligible_audience_count_def current_members_def blocked_user_ids_def
    warm_defs)

lemma warm_candidates: "candidate_posts warm_state = [warm_post]"
  by (simp add: candidate_posts_def) (simp add: warm_defs)

theorem footer_threshold_witness:
  "let t = snd (recompute_post_sentiment (days 3) warm_state) in
     \<exists>f. footer_row t 88 = Some f \<and> ft_latched f = [(''helped_me'', Some 3)] \<and>
       (\<forall>x \<in> fst ` set (ft_latched f). 2 \<le> facet_count warm_db 88 x)"
proof -
  obtain n t where r: "recompute_post_sentiment (days 3) warm_state = (n, t)" by fastforce
  have "sn_markers warm_state k = None" for k by (simp add: warm_state_def)
  then have "\<exists>m. n = Some m"
    using r by (auto simp: recompute_post_sentiment_def claim_daily_def Let_def case_prod_beta)
  then obtain m where m: "recompute_post_sentiment (days 3) warm_state = (Some m, t)" using r by blast
  have un: "unique_by po_id (posts (sn_db warm_state))" by (simp add: warm_state_def warm_db_def unique_by_def)
  have p: "warm_post \<in> set (candidate_posts warm_state)" "po_id warm_post = 88" "po_thread warm_post = 86"
    by (simp_all add: warm_candidates) (simp_all add: warm_post_def)
  have w: "owner_object (sn_db warm_state) (po_thread warm_post) = Some (ActivityThread warm_meet)"
    by (simp add: warm_counts p) (simp add: warm_state_def warm_counts)
  have fc: "facet_count warm_db 88 x = 0" if "x \<noteq> ''helped_me''" for x
    using that by (auto simp: facet_count_def warm_db_def)
  have st: "sn_db warm_state = warm_db" "kn_k_adult (sn_knobs warm_state) = 2" "kn_retention (sn_knobs warm_state) = 90"
    "footer_or_new warm_state 88 = new_footer 88"
    by (simp_all add: warm_state_def default_knobs_def footer_or_new_def footer_row_def)
  have "\<exists>g. recomputed (days 3) warm_post warm_state = Some g \<and> ft_latched g = [(''helped_me'', Some 3)]"
    using warm_counts fc
    by (simp add: recomputed_def p st threshold_of_def recompute_appreciation_def facet_slugs_def reaction_facets_def
        latch_step_def graduate_step_def new_footer_def no_tally_def age_of_def day_of_def days_def seconds_def Let_def)
  then obtain f where f: "footer_row t 88 = Some f" "ft_latched f = [(''helped_me'', Some 3)]"
    using recompute_run [OF m un p(1) w] p by (auto simp: same_lines_def split: option.splits)
  show ?thesis
    using footer_threshold [OF m un p(1) w warm_counts(3)] f p(2) m by (auto simp: warm_counts)
qed

section \<open>Dissent over the weeks\<close>

definition trailing :: "bool \<Rightarrow> bool list \<Rightarrow> nat" where
  "trailing b hs = length (takeWhile (\<lambda>h. h = b) (rev hs))"

lemma trailing_snoc [simp]: "trailing b (hs @ [h]) = (if h = b then Suc (trailing b hs) else 0)"
  by (simp add: trailing_def)

lemma trailing_Nil [simp]: "trailing b [] = 0"
  by (simp add: trailing_def)

abbreviation weeks :: "knobs \<Rightarrow> (bool \<times> int) list \<Rightarrow> footer \<Rightarrow> footer" where
  "weeks kn hs f \<equiv> fold (\<lambda>(hit, week). advance_window kn hit week) hs f"

lemma weeks_counters:
  "ft_hits (weeks kn hs (new_footer p)) = trailing True (map fst hs) \<and>
   ft_misses (weeks kn hs (new_footer p)) = trailing False (map fst hs)"
  by (induction hs rule: rev_induct) (auto simp: new_footer_def advance_window_def Let_def)

lemma window_step:
  fixes L M :: "nat \<Rightarrow> bool"
  shows "(\<exists>i \<in> {1..Suc n}. L i \<and> (\<forall>j \<in> {i<..Suc n}. L j \<or> M j)) \<longleftrightarrow>
    L (Suc n) \<or> (M (Suc n) \<and> (\<exists>i \<in> {1..n}. L i \<and> (\<forall>j \<in> {i<..n}. L j \<or> M j)))"
proof -
  have last: "(\<exists>i \<in> {1..Suc n}. P i) \<longleftrightarrow> P (Suc n) \<or> (\<exists>i \<in> {1..n}. P i)" for P
    by (simp add: atLeastAtMostSuc_conv)
  have rest: "(\<forall>j \<in> {i<..Suc n}. Q j) \<longleftrightarrow> Q (Suc n) \<and> (\<forall>j \<in> {i<..n}. Q j)" if "i \<in> {1..n}" for i Q
    using that by (auto simp: le_Suc_eq)
  show ?thesis unfolding last using rest by auto
qed

text \<open>
  C27: the weekly windows implement a plain rule with hysteresis: the dissent sentence is on the
  footer exactly when some week closed a run of enough weeks over the threshold, and since then no
  week that did not do so closed a run of enough weeks under it.
\<close>

theorem dissent_hysteresis:
  "ft_active (weeks kn hs (new_footer p)) \<longleftrightarrow>
     (\<exists>i \<in> {1..length hs}. kn_to_latch kn \<le> trailing True (map fst (take i hs)) \<and>
        (\<forall>j \<in> {i<..length hs}. kn_to_latch kn \<le> trailing True (map fst (take j hs)) \<or>
           trailing False (map fst (take j hs)) < kn_to_lapse kn))"
proof (induction hs rule: rev_induct)
  case Nil
  show ?case by (simp add: new_footer_def)
next
  case (snoc hw hs)
  obtain hit week where hw: "hw = (hit, week)" by fastforce
  let ?L = "\<lambda>i. kn_to_latch kn \<le> trailing True (map fst (take i (hs @ [hw])))"
  let ?M = "\<lambda>j. trailing False (map fst (take j (hs @ [hw]))) < kn_to_lapse kn"
  let ?n = "length hs"
  have old: "take i (hs @ [hw]) = take i hs" if "i \<le> ?n" for i using that by simp
  have now: "ft_active (weeks kn (hs @ [hw]) (new_footer p)) \<longleftrightarrow>
      ?L (Suc ?n) \<or> ?M (Suc ?n) \<and> ft_active (weeks kn hs (new_footer p))"
    using weeks_counters [of kn hs p] by (auto simp: hw advance_window_def Let_def)
  have "(\<exists>i \<in> {1..Suc ?n}. ?L i \<and> (\<forall>j \<in> {i<..Suc ?n}. ?L j \<or> ?M j)) \<longleftrightarrow>
      ?L (Suc ?n) \<or> (?M (Suc ?n) \<and> (\<exists>i \<in> {1..?n}. ?L i \<and> (\<forall>j \<in> {i<..?n}. ?L j \<or> ?M j)))"
    by (rule window_step)
  moreover have "(\<exists>i \<in> {1..?n}. ?L i \<and> (\<forall>j \<in> {i<..?n}. ?L j \<or> ?M j)) \<longleftrightarrow> ft_active (weeks kn hs (new_footer p))"
    unfolding snoc.IH by (auto simp: old)
  ultimately show ?case unfolding now by simp
qed

theorem dissent_hysteresis_witness:
  "ft_active (weeks default_knobs [(True, 1), (True, 2), (False, 3)] (new_footer 5))"
proof -
  have "\<exists>i \<in> {1..3}. (2::nat) \<le> trailing True (map fst (take i [(True, 1::int), (True, 2), (False, 3)])) \<and>
      (\<forall>j \<in> {i<..3}. 2 \<le> trailing True (map fst (take j [(True, 1::int), (True, 2), (False, 3)])) \<or>
        trailing False (map fst (take j [(True, 1::int), (True, 2), (False, 3)])) < (2::nat))"
  proof (rule bexI)
    have "{2<..3::nat} = {3}" by auto
    then show "(2::nat) \<le> trailing True (map fst (take 2 [(True, 1::int), (True, 2), (False, 3)])) \<and>
      (\<forall>j \<in> {2<..3}. 2 \<le> trailing True (map fst (take j [(True, 1::int), (True, 2), (False, 3)])) \<or>
        trailing False (map fst (take j [(True, 1::int), (True, 2), (False, 3)])) < (2::nat))"
      by (simp add: trailing_def)
  qed simp
  then show ?thesis
    unfolding dissent_hysteresis by (simp add: default_knobs_def eval_nat_numeral)
qed

end
