(* ===== verification/Concerns_Properties.thy ===== *)
theory Concerns_Properties
  imports Sentiment_Properties
begin

text \<open>
  The quiet notes of the concern ladder: the requests and jobs that touch a conversation as one
  service, the invariant that keeps the notes to an author apart, and the property.
\<close>

section \<open>The service\<close>

datatype job = Talk thread_request | EvaluateConcerns | RecomputeSentiment | PurgeReactions

fun job_exec :: "event list \<Rightarrow> job \<Rightarrow> sentiment \<Rightarrow> sentiment" where
  "job_exec evs (Talk q) s = on_db (thread_exec evs q) s"
| "job_exec evs EvaluateConcerns s = snd (evaluate_concerns (clock (sn_db s)) s)"
| "job_exec evs RecomputeSentiment s = snd (recompute_post_sentiment (clock (sn_db s)) s)"
| "job_exec evs PurgeReactions s =
     (case purge_stale_reaction_rows (clock (sn_db s)) s of None \<Rightarrow> s | Some r \<Rightarrow> snd r)"

definition notes_apart :: "sentiment \<Rightarrow> bool" where
  "notes_apart s \<longleftrightarrow> (\<forall>c \<in> set (sn_states s). \<forall>d \<in> set (sn_states s). \<forall>x y. cs_post c \<noteq> cs_post d \<longrightarrow>
     cs_note_sent_at c = Some x \<longrightarrow> cs_note_sent_at d = Some y \<longrightarrow>
     author_of (sn_db s) (cs_post c) = author_of (sn_db s) (cs_post d) \<longrightarrow> days (kn_cooldown (sn_knobs s)) < \<bar>x - y\<bar>)"

definition notes_inv :: "sentiment \<Rightarrow> bool" where
  "notes_inv s \<longleftrightarrow> threads_inv (sn_db s) \<and> unique_by cs_post (sn_states s) \<and>
     (\<forall>c \<in> set (sn_states s). cs_post c \<in> po_id ` set (posts (sn_db s))) \<and> notes_apart s"

definition notes_kept :: "sentiment \<Rightarrow> sentiment \<Rightarrow> bool" where
  "notes_kept s t \<longleftrightarrow> sn_knobs t = sn_knobs s \<and> (\<forall>c \<in> set (sn_states s). \<exists>d \<in> set (sn_states t).
     cs_post d = cs_post c \<and> (cs_note_sent_at c \<noteq> None \<longrightarrow> cs_note_sent_at d = cs_note_sent_at c) \<and>
     (cs_barred c \<longrightarrow> cs_barred d))"

lemma notes_kept_refl [simp]: "notes_kept s s"
  by (auto simp: notes_kept_def)

lemma notes_kept_trans: "notes_kept s t \<Longrightarrow> notes_kept t w \<Longrightarrow> notes_kept s w"
  unfolding notes_kept_def by (metis (no_types, lifting))

definition good_step :: "sentiment \<Rightarrow> sentiment \<Rightarrow> bool" where
  "good_step s t \<longleftrightarrow> notes_inv t \<and> notes_kept s t \<and> posts_evolve (sn_db s) (sn_db t)"

lemma good_trans: "good_step s t \<Longrightarrow> good_step t w \<Longrightarrow> good_step s w"
  unfolding good_step_def using notes_kept_trans posts_evolve_trans by blast

lemma good_refl: "notes_inv s \<Longrightarrow> good_step s s"
  by (simp add: good_step_def)

section \<open>Steps that leave the notes alone\<close>

lemma author_evolves:
  assumes "threads_inv s" "threads_inv t" "posts_evolve s t" "p \<in> set (posts s)"
  shows "author_of t (po_id p) = Some (po_author p)"
proof -
  obtain q where "q \<in> set (posts t)" "post_step p q" using assms(3,4) by (auto simp: posts_evolve_def)
  then show ?thesis using threads_row [OF assms(2)] by (force simp: author_of_def post_step_def)
qed

lemma quiet_good:
  assumes inv: "notes_inv s" and st: "sn_states t = sn_states s" "sn_knobs t = sn_knobs s"
    and db: "threads_inv (sn_db t)" "posts_evolve (sn_db s) (sn_db t)"
  shows "good_step s t"
proof -
  have inv': "threads_inv (sn_db s)" using inv by (simp add: notes_inv_def)
  have au: "author_of (sn_db t) (cs_post c) = author_of (sn_db s) (cs_post c)" if "c \<in> set (sn_states s)" for c
  proof -
    obtain p where p: "p \<in> set (posts (sn_db s))" "cs_post c = po_id p" using inv \<open>c \<in> _\<close> by (auto simp: notes_inv_def)
    show ?thesis
      using author_evolves [OF inv' db p(1)] author_evolves [OF inv' inv' posts_evolve_refl p(1)] p(2) by simp
  qed
  have "po_id ` set (posts (sn_db s)) \<subseteq> po_id ` set (posts (sn_db t))"
  proof
    fix i assume "i \<in> po_id ` set (posts (sn_db s))"
    then obtain p where "p \<in> set (posts (sn_db s))" "i = po_id p" by blast
    moreover then obtain q where "q \<in> set (posts (sn_db t))" "post_step p q" using db(2) by (auto simp: posts_evolve_def)
    ultimately show "i \<in> po_id ` set (posts (sn_db t))" by (auto simp: post_step_def intro: rev_image_eqI)
  qed
  moreover have "notes_apart t"
    using inv au unfolding notes_inv_def notes_apart_def st by simp
  ultimately show ?thesis
    using inv st db unfolding good_step_def notes_inv_def notes_kept_def by auto
qed

lemma quiet_step:
  "notes_inv s \<Longrightarrow> sn_states t = sn_states s \<Longrightarrow> sn_knobs t = sn_knobs s \<Longrightarrow> posts_step (sn_db s) (sn_db t) \<Longrightarrow> good_step s t"
  by (rule quiet_good) (auto simp: notes_inv_def intro: threads_inv_step step_evolves)

lemma moderators_posts: "posts_step s (snd (notify_moderators k ti b u s))"
  by (simp add: notify_moderators_def notify_each_posts)

lemma open_alerted_good: "notes_inv s \<Longrightarrow> good_step s (snd (open_alerted k same p sub pl ti b s))"
proof (rule quiet_step)
  have "posts_step d (snd (notify_moderators ModAlert ti b u (d\<lparr> seq := Suc (seq d) \<rparr>)))" for d u
    by (rule posts_step_trans [OF _ moderators_posts]) (simp add: posts_same)
  then show "posts_step (sn_db s) (sn_db (snd (open_alerted k same p sub pl ti b s)))"
    by (simp add: open_alerted_def open_review_def alert_moderators_def on_db_def)
qed (simp_all add: open_alerted_def open_review_def alert_moderators_def on_db_def)

lemma good_alerted: "good_step t (snd r) \<Longrightarrow>
   good_step t (snd (case r of (False, s1) \<Rightarrow> (x, s1) | (True, s1) \<Rightarrow> (y, s1)))"
  by (cases r) (auto split: bool.split)

lemma good_fold:
  assumes "\<And>x acc t. good_step s t \<Longrightarrow> good_step t (snd (f x (acc, t)))" and "good_step s t"
  shows "good_step s (snd (fold f xs (acc, t)))"
  using assms(2)
proof (induction xs arbitrary: acc t)
  case (Cons x xs)
  obtain acc' u where st: "f x (acc, t) = (acc', u)" by fastforce
  have "good_step s u" using good_trans [OF Cons.prems assms(1) [OF Cons.prems, of x acc]] st by simp
  with Cons.IH st show ?case by simp
qed simp

lemma pileon_good:
  assumes "notes_inv s"
  shows "good_step s (snd (sensor_pileon now s))"
proof -
  have "good_step t (snd (pileon_one rs a (acc, t)))" if "good_step s t" for rs a acc t
  proof -
    have inv: "notes_inv t" using that by (simp add: good_step_def)
    show ?thesis
      by (cases acc) (simp add: pileon_one_def Let_def good_alerted open_alerted_good [OF inv] good_refl [OF inv])
  qed
  note step = this
  show ?thesis
    unfolding sensor_pileon_def Let_def by (rule good_fold [OF step good_refl [OF assms]])
qed

lemma coordinated_good:
  assumes "notes_inv s"
  shows "good_step s (snd (sensor_coordinated now s))"
proof -
  have "good_step t (snd (coordinated_one rs a (acc, t)))" if "good_step s t" for rs a acc t
  proof -
    have inv: "notes_inv t" using that by (simp add: good_step_def)
    show ?thesis
      by (simp add: coordinated_one_def Let_def good_alerted open_alerted_good [OF inv] good_refl [OF inv])
  qed
  note step = this
  show ?thesis
    unfolding sensor_coordinated_def Let_def by (rule good_fold [OF step good_refl [OF assms]])
qed

section \<open>The ladder\<close>

lemma set_state_frame [simp]: "sn_db (set_state i f s) = sn_db s" "sn_knobs (set_state i f s) = sn_knobs s"
  "sn_states (set_state i f s) = update_rows (\<lambda>c. cs_post c = i) f (sn_states s)"
  "set_state i f (s\<lparr> sn_db := d \<rparr>) = (set_state i f s)\<lparr> sn_db := d \<rparr>"
  by (simp_all add: set_state_def)

lemma state_of_good:
  assumes inv: "notes_inv s" and p: "i \<in> po_id ` set (posts (sn_db s))" and st: "state_of s i = (c, t)"
  shows "good_step s t \<and> c \<in> set (sn_states t) \<and> cs_post c = i \<and> sn_db t = sn_db s"
proof (cases "state_row s i")
  case (Some d)
  then show ?thesis using st good_refl [OF inv] by (auto simp: state_of_def state_row_def dest: find_SomeD)
next
  case None
  then have new: "i \<notin> cs_post ` set (sn_states s)" by (auto simp: state_row_def find_None_iff)
  have c: "c = \<lparr> cs_post = i, cs_note_sent_at = None, cs_barred = False \<rparr>" and t: "t = s\<lparr> sn_states := sn_states s @ [c] \<rparr>"
    using st None by (auto simp: state_of_def Let_def)
  have "notes_inv t"
    using inv p new by (auto simp: notes_inv_def notes_apart_def t c)
  moreover have "notes_kept s t" by (auto simp: notes_kept_def t)
  ultimately show ?thesis by (simp add: good_step_def) (simp add: t c)
qed

text \<open>An update of one row that keeps its post; a note goes out only when none is recent.\<close>

lemma set_state_good:
  assumes inv: "notes_inv s"
    and f: "\<And>c. cs_post (f c) = cs_post c \<and> (cs_note_sent_at c \<noteq> None \<longrightarrow> cs_note_sent_at (f c) = cs_note_sent_at c) \<and>
      (cs_barred c \<longrightarrow> cs_barred (f c))"
    and apart: "notes_apart (set_state i f s)"
  shows "good_step s (set_state i f s)"
proof -
  have "unique_by cs_post (update_rows (\<lambda>c. cs_post c = i) f (sn_states s))"
    using inv f by (simp add: unique_by_update notes_inv_def)
  moreover have "cs_post c \<in> po_id ` set (posts (sn_db s))" if "c \<in> set (update_rows (\<lambda>c. cs_post c = i) f (sn_states s))" for c
    using that inv f by (auto simp: set_update_rows notes_inv_def)
  moreover have "notes_kept s (set_state i f s)"
  proof -
    have "(if cs_post c = i then f c else c) \<in> set (update_rows (\<lambda>c. cs_post c = i) f (sn_states s))"
      if "c \<in> set (sn_states s)" for c using that by (simp add: set_update_rows)
    with f show ?thesis unfolding notes_kept_def set_state_frame by (metis (no_types, lifting))
  qed
  ultimately show ?thesis using inv apart by (simp add: good_step_def notes_inv_def)
qed

lemma bar_good:
  assumes "notes_inv s"
  shows "good_step s (set_state i (\<lambda>c. c\<lparr> cs_barred := True \<rparr>) s)"
  using assms by (intro set_state_good) (auto simp: notes_inv_def notes_apart_def set_update_rows)

lemma note_good:
  assumes inv: "notes_inv s" and c: "c \<in> set (sn_states s)" "cs_note_sent_at c = None"
    and quiet: "\<not> recent_formative_note s a now" "author_of (sn_db s) (cs_post c) = Some a"
  shows "good_step s (set_state (cs_post c) (\<lambda>x. x\<lparr> cs_note_sent_at := Some now \<rparr>) s)"
proof -
  have only: "d = c" if "d \<in> set (sn_states s)" "cs_post d = cs_post c" for d
    using inv that c(1) by (auto simp: notes_inv_def intro: unique_byD)
  have old: "days (kn_cooldown (sn_knobs s)) < \<bar>x - now\<bar>" "days (kn_cooldown (sn_knobs s)) < \<bar>now - x\<bar>"
    if "d \<in> set (sn_states s)" "cs_note_sent_at d = Some x" "author_of (sn_db s) (cs_post d) = Some a" for d x
  proof -
    have "\<not> now - days (kn_cooldown (sn_knobs s)) \<le> x"
      using quiet(1) that by (fastforce simp: recent_formative_note_def)
    then show "days (kn_cooldown (sn_knobs s)) < \<bar>x - now\<bar>" "days (kn_cooldown (sn_knobs s)) < \<bar>now - x\<bar>" by linarith+
  qed
  have f: "update_rows (\<lambda>d. cs_post d = cs_post c) (\<lambda>x. x\<lparr> cs_note_sent_at := Some now \<rparr>) (sn_states s) =
      update_rows (\<lambda>d. cs_post d = cs_post c)
        (\<lambda>x. if cs_note_sent_at x = None then x\<lparr> cs_note_sent_at := Some now \<rparr> else x) (sn_states s)"
    unfolding update_rows_def using c(2) by (intro map_cong refl) (auto dest: only)
  have apart: "notes_apart (set_state (cs_post c) (\<lambda>x. x\<lparr> cs_note_sent_at := Some now \<rparr>) s)"
    unfolding notes_apart_def set_state_frame
  proof (intro ballI allI impI)
    let ?rows = "update_rows (\<lambda>d. cs_post d = cs_post c) (\<lambda>x. x\<lparr> cs_note_sent_at := Some now \<rparr>) (sn_states s)"
    fix d e x y assume d: "d \<in> set ?rows" "e \<in> set ?rows" "cs_post d \<noteq> cs_post e" "cs_note_sent_at d = Some x"
      "cs_note_sent_at e = Some y" "author_of (sn_db s) (cs_post d) = author_of (sn_db s) (cs_post e)"
    have row: "z \<in> set (sn_states s) \<and> cs_post z \<noteq> cs_post c \<or> cs_post z = cs_post c \<and> cs_note_sent_at z = Some now"
      if "z \<in> set ?rows" for z using that by (auto simp: set_update_rows)
    from row [OF d(1)] row [OF d(2)] show "days (kn_cooldown (sn_knobs s)) < \<bar>x - y\<bar>"
      using d(3-6) old quiet(2) inv unfolding notes_inv_def notes_apart_def by (elim disjE conjE) auto
  qed
  have eq: "set_state (cs_post c) (\<lambda>x. x\<lparr> cs_note_sent_at := Some now \<rparr>) s = set_state (cs_post c)
      (\<lambda>x. if cs_note_sent_at x = None then x\<lparr> cs_note_sent_at := Some now \<rparr> else x) s"
    unfolding set_state_def f ..
  show ?thesis unfolding eq by (rule set_state_good [OF inv]) (use apart eq in auto)
qed

lemma audit_good: "notes_inv s \<Longrightarrow> good_step s (on_db (record_audit e a tg d) s)"
  by (rule quiet_step) (simp_all add: on_db_def audit_posts)

lemma adult_ladder_good:
  assumes inv: "notes_inv s" and q: "q \<in> set (posts (sn_db s))" "po_id q = po_id p" "po_author q = po_author p"
    and st: "adult_ladder p w n now (noted, s) = (k, noted', t)"
  shows "good_step s t"
proof -
  let ?i = "po_id p"
  obtain c s1 where c: "state_of s ?i = (c, s1)" by fastforce
  have "?i \<in> po_id ` set (posts (sn_db s))" using q(1,2) by (metis imageI)
  then have s1: "good_step s s1" "c \<in> set (sn_states s1)" "cs_post c = ?i" "sn_db s1 = sn_db s"
    using state_of_good [OF inv _ c] by simp_all
  define bar where "bar = (edited_since (cs_note_sent_at c) p \<and> \<not> cs_barred c)"
  define c2 where "c2 = (if bar then c\<lparr> cs_barred := True \<rparr> else c)"
  define s2 where "s2 = (if bar then set_state ?i (\<lambda>x. x\<lparr> cs_barred := True \<rparr>) s1 else s1)"
  have inv1: "notes_inv s1" using s1(1) by (simp add: good_step_def)
  have s2: "good_step s1 s2" "sn_db s2 = sn_db s" using bar_good [OF inv1] good_refl [OF inv1] s1(4) by (simp_all add: s2_def)
  have c2: "c2 \<in> set (sn_states s2)" "cs_post c2 = ?i"
    using s1(2,3) by (auto simp: s2_def c2_def set_update_rows)
  note upto = good_trans [OF s1(1) s2(1)]
  have inv2: "notes_inv s2" using s2(1) by (simp add: good_step_def)
  show ?thesis
  proof (cases "may_note s2 p w c2 n now noted")
    case False
    then have "t = s2" using st c by (auto simp: adult_ladder_def Let_def bar_def c2_def s2_def)
    with upto show ?thesis by simp
  next
    case True
    obtain nt d where d: "notify (po_author p) FormativeNote formative_note_title formative_note_body (thread_url w) (sn_db s2)
        = (nt, d)" by fastforce
    let ?s3 = "set_state ?i (\<lambda>x. x\<lparr> cs_note_sent_at := Some now \<rparr>) s2"
    have t: "\<exists>e. t = on_db (record_audit e None (Some (post_target ?i)) []) (?s3\<lparr> sn_db := d \<rparr>)"
      using st c d True by (auto simp: adult_ladder_def Let_def bar_def c2_def s2_def split: if_splits)
    have "author_of (sn_db s2) ?i = Some (po_author p)"
      using inv q threads_row [of "sn_db s" q] by (simp add: author_of_def s2(2) notes_inv_def)
    moreover have "\<not> recent_formative_note s2 (po_author p) now" "cs_note_sent_at c2 = None"
      using True by (simp_all add: may_note_def)
    ultimately have good: "good_step s2 ?s3"
      using note_good [OF inv2 c2(1), of "po_author p" now] unfolding c2(2) by blast
    then have "notes_inv ?s3" by (simp add: good_step_def)
    moreover have "posts_step (sn_db s2) d" using notify_posts d by (metis snd_conv)
    ultimately have "good_step ?s3 (?s3\<lparr> sn_db := d \<rparr>)" by (intro quiet_step) simp_all
    moreover then have "notes_inv (?s3\<lparr> sn_db := d \<rparr>)" by (simp add: good_step_def)
    ultimately show ?thesis
      using t good_trans [OF upto good_trans [OF good good_trans [OF _ audit_good]]] by blast
  qed
qed

lemma escalation_good: "notes_inv s \<Longrightarrow> good_step s (snd (adult_escalation p n s))"
  by (simp add: adult_escalation_def Let_def good_refl open_alerted_good)

lemma ladder_one_good:
  assumes inv: "notes_inv s" and q: "q \<in> set (posts (sn_db s))" "po_id q = po_id p" "po_author q = po_author p"
  shows "good_step s (snd (snd (ladder_one now ds p (l, noted, s))))"
proof -
  have teen: "good_step s (snd (teen_review p s))" unfolding teen_review_def by (rule open_alerted_good [OF inv])
  have adult: "good_step s (snd (adult_escalation p n (snd (snd (adult_ladder p w n now (noted, s))))))" for n w
  proof -
    obtain k noted' t where st: "adult_ladder p w n now (noted, s) = (k, noted', t)" by (metis prod_cases3)
    note g = adult_ladder_good [OF inv q st]
    then have "notes_inv t" by (simp add: good_step_def)
    from good_trans [OF g escalation_good [OF this]] st show ?thesis by simp
  qed
  show ?thesis
    using teen adult good_refl [OF inv]
    by (auto simp: ladder_one_def Let_def case_prod_beta split: option.split bool.split)
qed

lemma ladder_fold_good:
  "\<forall>p \<in> set ps. p \<in> set (posts (sn_db s)) \<Longrightarrow> good_step s t \<Longrightarrow>
   good_step s (snd (snd (fold (ladder_one now ds) ps (l, noted, t))))"
proof (induction ps arbitrary: l noted t)
  case (Cons p ps)
  have inv: "notes_inv t" and ev: "posts_evolve (sn_db s) (sn_db t)" using Cons.prems(2) by (simp_all add: good_step_def)
  obtain q where q: "q \<in> set (posts (sn_db t))" "po_id q = po_id p" "po_author q = po_author p"
    using ev Cons.prems(1) by (auto simp: posts_evolve_def post_step_def)
  obtain l' noted' u where st: "ladder_one now ds p (l, noted, t) = (l', noted', u)" by (metis prod_cases3)
  have "good_step s u" using good_trans [OF Cons.prems(2) ladder_one_good [OF inv q, of now ds l noted]] st by simp
  with Cons.IH Cons.prems(1) st show ?case by simp
qed simp

lemma claim_good: "notes_inv s \<Longrightarrow> claim_daily k now s = (ok, t) \<Longrightarrow> good_step s t"
  by (rule quiet_step) (auto dest: claim_daily_frame)

lemma evaluate_good:
  assumes inv: "notes_inv s"
  shows "good_step s (snd (evaluate_concerns now s))"
proof -
  obtain ok s1 where c: "claim_daily ''concerns_daily'' now s = (ok, s1)" by fastforce
  note g1 = claim_good [OF inv c]
  obtain protected piled s2 where p: "sensor_pileon now s1 = ((protected, piled), s2)" by (metis prod_cases3 prod.collapse)
  obtain coord s3 where k: "sensor_coordinated now s2 = (coord, s3)" by fastforce
  let ?ds = "downweighted_flaggers (sn_db s1) (now - days (kn_cooldown (sn_knobs s1)))"
  let ?l = "\<lparr> ld_notes = 0, ld_escalated = 0, ld_teen = 0 \<rparr>"
  obtain l noted s4 where f: "fold (ladder_one now ?ds) (flagged_post_rows (sn_db s3)) (?l, protected, s3) = (l, noted, s4)"
    by (metis prod_cases3)
  have "good_step s1 s2" using pileon_good [of s1 now] g1 p by (simp add: good_step_def)
  moreover then have "good_step s2 s3" using coordinated_good [of s2 now] k by (simp add: good_step_def)
  moreover then have "good_step s3 s4"
    using ladder_fold_good [of "flagged_post_rows (sn_db s3)" s3 s3 now ?ds ?l protected] f good_refl [of s3]
    by (simp add: good_step_def flagged_post_rows_def)
  ultimately have g4: "good_step s s4" using g1 good_trans by blast
  then have "good_step s (on_db (record_audit e None None x) s4)" for e x
    using good_trans [OF g4 audit_good] by (simp add: good_step_def)
  with g1 c p k f show ?thesis by (cases ok) (simp_all add: evaluate_concerns_def Let_def)
qed

lemma dissent_fold_frame [simp]:
  "sn_states (fold (dissent_one now) ps s) = sn_states s" "sn_knobs (fold (dissent_one now) ps s) = sn_knobs s"
  "sn_db (fold (dissent_one now) ps s) = sn_db s"
  by (induction ps arbitrary: s) simp_all

lemma recompute_good:
  assumes inv: "notes_inv s"
  shows "good_step s (snd (recompute_post_sentiment now s))"
proof -
  obtain ok s1 where c: "claim_daily ''post_sentiment_daily'' now s = (ok, s1)" by fastforce
  note g1 = claim_good [OF inv c]
  then have inv1: "notes_inv s1" by (simp add: good_step_def)
  have "good_step t (snd (recompute_one now p (n, t)))" if "good_step s1 t" for p n t
    using that recompute_one_row [where now = now and p = p and n = n and s = t]
    by (intro quiet_step) (simp_all add: good_step_def)
  note step = this
  obtain n s2 where f: "fold (recompute_one now) (candidate_posts s1) (no_tally, s1) = (n, s2)" by fastforce
  have g2: "good_step s1 s2" using good_fold [of s1 "recompute_one now" s1 "candidate_posts s1" no_tally, OF step good_refl [OF inv1]] f by simp
  then have "good_step s2 (on_db (record_audit e None None x) (if b
      then stamp_weekly k now (fold (dissent_one now) (candidate_posts s1) s2) else s2))" for e x b k
    by (intro quiet_step) (simp_all add: good_step_def on_db_def stamp_weekly_def audit_posts)
  from good_trans [OF g1 good_trans [OF g2 this]] g1 c f show ?thesis
    by (cases ok) (simp_all add: recompute_post_sentiment_def Let_def)
qed

lemma purge_good:
  assumes inv: "notes_inv s"
  shows "good_step s (case purge_stale_reaction_rows now s of None \<Rightarrow> s | Some r \<Rightarrow> snd r)"
proof -
  obtain ok s1 where c: "claim_daily ''reaction_purge_daily'' now s = (ok, s1)" by fastforce
  note g1 = claim_good [OF inv c]
  have "good_step s1 (on_db (\<lambda>x. record_audit e None None j (x\<lparr> reactions := r, dissents := d, concerns := k \<rparr>)) s1)" for e j r d k
    by (rule quiet_step) (use g1 in \<open>simp_all add: good_step_def on_db_def posts_same\<close>)
  from good_trans [OF g1 this] g1 c show ?thesis
    by (cases ok) (simp_all add: purge_stale_reaction_rows_def batched_delete_returns Let_def)
qed

lemma job_good: "notes_inv s \<Longrightarrow> good_step s (job_exec evs q s)"
proof (cases q)
  case (Talk r)
  assume inv: "notes_inv s"
  then have "keeps_posts (sn_db s) (thread_exec evs r (sn_db s))" by (intro thread_exec_keeps) (simp add: notes_inv_def)
  with inv Talk show ?thesis by (simp add: on_db_def keeps_posts_def quiet_good)
qed (simp_all add: evaluate_good recompute_good purge_good)

interpretation notes_log: evolving "job_exec evs" notes_inv notes_kept for evs
  by unfold_locales (use job_good in \<open>auto simp: good_step_def intro: notes_kept_trans\<close>)

text \<open>
  C28: the quiet notes of the concern ladder stay rare: along every run of messages, reactions,
  concerns, moderation and nightly jobs a post has at most one note and its time never changes, and
  two notes to the same author, about different posts, lie more than the cooldown apart.
\<close>

theorem notes_capped:
  assumes "threads_inv (sn_db s)" and "sn_states s = []"
    and "t = run_requests (job_exec evs) qs s" and "w = run_requests (job_exec evs) rs t"
    and "c \<in> set (sn_states t)" and "cs_note_sent_at c = Some x"
  shows "(\<exists>c' \<in> set (sn_states w). cs_post c' = cs_post c \<and> cs_note_sent_at c' = Some x) \<and>
    (\<forall>d \<in> set (sn_states w). \<forall>y. cs_note_sent_at d = Some y \<longrightarrow>
       author_of (sn_db w) (cs_post d) = author_of (sn_db w) (cs_post c) \<longrightarrow>
       cs_post d = cs_post c \<and> y = x \<or> days (kn_cooldown (sn_knobs w)) < \<bar>x - y\<bar>)"
proof -
  have "notes_inv s" using assms(1,2) by (simp add: notes_inv_def notes_apart_def)
  then have inv: "notes_inv t" using notes_log.run_inv assms(3) by blast
  then have inv': "notes_inv w" using notes_log.run_inv assms(4) by blast
  have "notes_kept t w" using notes_log.run_rel [OF inv] assms(4) by blast
  then obtain e where e: "e \<in> set (sn_states w)" "cs_post e = cs_post c" "cs_note_sent_at e = Some x"
    using assms(5,6) by (auto simp: notes_kept_def)
  have "cs_post d = cs_post c \<and> y = x \<or> days (kn_cooldown (sn_knobs w)) < \<bar>x - y\<bar>"
    if d: "d \<in> set (sn_states w)" "cs_note_sent_at d = Some y"
      "author_of (sn_db w) (cs_post d) = author_of (sn_db w) (cs_post c)" for d y
  proof (cases "cs_post d = cs_post c")
    case True
    then have "d = e" using inv' d(1) e by (auto simp: notes_inv_def intro: unique_byD)
    with d(2) e show ?thesis by simp
  next
    case False
    with inv' d e show ?thesis unfolding notes_inv_def notes_apart_def by (metis abs_minus_commute)
  qed
  with e show ?thesis by blast
qed

text \<open>Two members raise a concern about the warm post; the audience floor is lowered to four.\<close>

definition worried_state :: sentiment where
  "worried_state = warm_state\<lparr> sn_knobs := default_knobs\<lparr> kn_concern_floor := 4 \<rparr>,
     sn_db := warm_db\<lparr> clock := days 20, concerns := map (\<lambda>u. \<lparr> fl_post = 88, fl_user = u, fl_created_at = days 19 \<rparr>) [1, 2] \<rparr> \<rparr>"

lemma worried_rows:
  "posts (sn_db worried_state) = [warm_post]" "clock (sn_db worried_state) = days 20"
  "concerns (sn_db worried_state) = [\<lparr> fl_post = 88, fl_user = 1, fl_created_at = days 19 \<rparr>,
     \<lparr> fl_post = 88, fl_user = 2, fl_created_at = days 19 \<rparr>]"
  "dissents (sn_db worried_state) = []" "sn_states worried_state = []" "sn_markers worried_state k = None"
  "po_id warm_post = 88" "po_author warm_post = 6" "po_hidden warm_post = False" "po_updated_at warm_post = 0"
  "po_thread warm_post = 86" "kn_cooldown (sn_knobs worried_state) = 14" "kn_k1 (sn_knobs worried_state) = 2"
  "kn_k2 (sn_knobs worried_state) = 4" "kn_concern_floor (sn_knobs worried_state) = 4" "sn_reviews worried_state = []"
  by (simp_all add: worried_state_def warm_state_def warm_db_def empty_db_def warm_post_def default_knobs_def)

lemma worried_thread:
  "owner_object (sn_db worried_state) 86 = Some (ActivityThread warm_meet)"
  "eligible_audience_count (sn_db worried_state) (ActivityThread warm_meet) = 4"
  "flag_author (sn_db worried_state) r = (if fl_post r = 88 then Some 6 else None)"
  "author_of (sn_db worried_state) 88 = Some 6"
  using warm_counts
  by (simp_all add: worried_state_def warm_state_def owner_object_def activity_row_def eligible_audience_count_def
      current_members_def blocked_user_ids_def flag_author_def author_of_def post_row_def warm_db_def worried_rows)

lemma worried_recent: "n \<le> days 19 \<Longrightarrow> recent_flags n (concerns (sn_db worried_state)) = concerns (sn_db worried_state)"
  by (simp add: recent_flags_def worried_rows)

lemma few:
  assumes "A \<subseteq> {x}" and "2 \<le> n"
  shows "\<not> n \<le> card A"
proof -
  have "card A \<le> card {x}" by (rule card_mono) (use assms(1) in auto)
  with assms(2) show ?thesis by simp
qed

lemma worried_downweighted: "n \<le> days 19 \<Longrightarrow> downweighted_flaggers (sn_db worried_state) n = {}"
proof -
  have "\<not> 5 \<le> card (flag_author (sn_db worried_state) ` {r \<in> set (concerns (sn_db worried_state)). fl_user r = u})" for u
    by (rule few [of _ "Some 6"]) (auto simp: worried_thread worried_rows)
  then show "n \<le> days 19 \<Longrightarrow> downweighted_flaggers (sn_db worried_state) n = {}"
    unfolding downweighted_flaggers_def Let_def by (simp only: worried_recent) blast
qed

lemma worried_sensors:
  assumes s: "s = worried_state\<lparr> sn_markers := m \<rparr>"
  shows "sensor_pileon (days 20) s = (({}, 0), s)" and "sensor_coordinated (days 20) s = (0, s)"
proof -
  have db: "sn_db s = sn_db worried_state" "sn_reviews s = []" by (simp_all add: s worried_rows)
  have r7: "recent_flags (days 20 - days 7) (concerns (sn_db worried_state)) = concerns (sn_db worried_state)"
    by (rule worried_recent) (simp add: days_def seconds_def)
  have r14: "recent_flags (days 20 - days 14) (concerns (sn_db worried_state)) = concerns (sn_db worried_state)"
    by (rule worried_recent) (simp add: days_def seconds_def)
  have au: "flagged_authors (sn_db worried_state) (concerns (sn_db worried_state)) = [6]"
    by (simp add: flagged_authors_def List.map_filter_simps worried_thread worried_rows)
  have po: "flagged_posts (sn_db worried_state) (concerns (sn_db worried_state)) 6 = [88]"
    by (simp add: flagged_posts_def worried_thread worried_rows)
  show "sensor_pileon (days 20) s = (({}, 0), s)"
    by (simp add: sensor_pileon_def Let_def db r7 au pileon_one_def po already_protected_def)
  have "\<not> 3 \<le> card (hits_on (sn_db worried_state) (concerns (sn_db worried_state)) 6 u \<inter> h)" for u h
    by (rule few [of _ 88]) (auto simp: hits_on_def worried_thread worried_rows)
  then have common: "common_posts (sn_db worried_state) (concerns (sn_db worried_state)) 6 = {}"
    unfolding common_posts_def by blast
  have nd: "recent_flags n (dissents (sn_db worried_state)) = []" for n by (simp add: recent_flags_def worried_rows)
  show "sensor_coordinated (days 20) s = (0, s)"
    by (simp add: sensor_coordinated_def Let_def db r14 nd au coordinated_one_def common)
qed

lemma worried_ladder:
  assumes s: "s = worried_state\<lparr> sn_markers := m \<rparr>"
  shows "\<exists>l noted t. fold (ladder_one (days 20) {}) (flagged_post_rows (sn_db s)) (l0, {}, s) = (l, noted, t) \<and>
    sn_states t = [\<lparr> cs_post = 88, cs_note_sent_at = Some (days 20), cs_barred = False \<rparr>]"
proof -
  let ?c = "\<lparr> cs_post = 88, cs_note_sent_at = None, cs_barred = False \<rparr>"
  let ?t = "s\<lparr> sn_states := [?c] \<rparr>"
  have db: "sn_db s = sn_db worried_state" "sn_states s = []" "sn_knobs s = sn_knobs worried_state"
    by (simp_all add: s worried_rows)
  have ps: "flagged_post_rows (sn_db s) = [warm_post]"
    by (simp add: flagged_post_rows_def db) (simp add: worried_rows)
  have "counted_flaggers (sn_db s) {} warm_post = set (map fl_user (filter (\<lambda>r. fl_post r = po_id warm_post \<and>
      po_updated_at warm_post < fl_created_at r) (concerns (sn_db s))))"
    by (auto simp: counted_flaggers_def)
  also have "\<dots> = {1, 2}" by (simp add: db worried_rows days_def seconds_def)
  finally have n: "card (counted_flaggers (sn_db s) {} warm_post) = 2" by simp
  have st: "state_of s 88 = (?c, ?t)" by (simp add: state_of_def state_row_def db Let_def)
  have may: "may_note ?t warm_post (ActivityThread warm_meet) ?c 2 (days 20) {}"
    by (simp add: may_note_def db worried_rows worried_thread recent_formative_note_def)
  obtain nt d where d: "notify 6 FormativeNote formative_note_title formative_note_body
      (thread_url (ActivityThread warm_meet)) (sn_db worried_state) = (nt, d)" by fastforce
  obtain k noted t where a: "adult_ladder warm_post (ActivityThread warm_meet) 2 (days 20) ({}, s) = (k, noted, t)"
    and t: "sn_states t = [\<lparr> cs_post = 88, cs_note_sent_at = Some (days 20), cs_barred = False \<rparr>]"
      "sn_knobs t = sn_knobs worried_state"
    using may d by (simp add: adult_ladder_def Let_def worried_rows st edited_since_def db on_db_def)
  have "adult_escalation warm_post 2 t = (False, t)"
    by (simp add: adult_escalation_def state_row_def t worried_rows)
  with a t show ?thesis
    by (simp add: ps [unfolded db] ladder_one_def n [unfolded db] db worried_rows worried_thread warm_counts [simplified] Let_def)
qed

theorem notes_capped_witness:
  "let t = job_exec [] EvaluateConcerns worried_state; w = job_exec [] (Talk (Pass (days 40))) t in
     \<exists>c \<in> set (sn_states w). cs_post c = 88 \<and> cs_note_sent_at c = Some (days 20)"
proof -
  let ?s1 = "worried_state\<lparr> sn_markers := [''concerns_daily'' \<mapsto> days 20] \<rparr>"
  have c: "claim_daily ''concerns_daily'' (days 20) worried_state = (True, ?s1)"
    by (simp add: claim_daily_def worried_rows) (simp add: worried_state_def warm_state_def)
  have ds: "downweighted_flaggers (sn_db ?s1) (days 20 - days (kn_cooldown (sn_knobs ?s1))) = {}"
    using worried_downweighted [of "days 20 - days 14"] by (simp add: worried_rows) (simp add: days_def seconds_def)
  obtain l noted t where f: "fold (ladder_one (days 20) {}) (flagged_post_rows (sn_db ?s1))
      (\<lparr> ld_notes = 0, ld_escalated = 0, ld_teen = 0 \<rparr>, {}, ?s1) = (l, noted, t)"
    and t: "sn_states t = [\<lparr> cs_post = 88, cs_note_sent_at = Some (days 20), cs_barred = False \<rparr>]"
    using worried_ladder [OF refl] by blast
  have r: "sn_states (job_exec [] EvaluateConcerns worried_state) =
      [\<lparr> cs_post = 88, cs_note_sent_at = Some (days 20), cs_barred = False \<rparr>]"
    unfolding job_exec.simps worried_rows evaluate_concerns_def c prod.case bool.case Let_def ds worried_sensors [OF refl] f
    by (simp add: on_db_def t)
  have "threads_inv (sn_db worried_state)"
    by (simp add: threads_inv_def worried_rows reply_ok_def unique_by_def)
      (simp add: worried_state_def warm_state_def warm_db_def warm_post_def empty_db_def)
  from notes_capped [OF this worried_rows(5), of "job_exec [] EvaluateConcerns worried_state" "[]" "[EvaluateConcerns]"
      _ "[Talk (Pass (days 40))]" _ "days 20"] r
  show ?thesis by (simp add: Let_def)
qed

end
