(* ===== verification/Connections.thy ===== *)
theory Connections
  imports Threads Messaging
begin

text \<open>
  apps/connections/services.py: the deliberate link between two people of one cohort who have
  shared an activity. A directed request becomes the connection when the other side agrees.
  Case-insensitive search folds ASCII letters, and rows without an order come in primary-key order.
\<close>

datatype connection_error = ConnNotEligible string | ConnInvalidState string | ConnMessaging messaging_error

section \<open>The gate\<close>

definition allowed_cohorts :: "db \<Rightarrow> cohort set" where
  "allowed_cohorts s = set (st_connection_cohorts (conf s)) - {Unassigned}"

definition peer_activity_ids :: "db \<Rightarrow> id \<Rightarrow> id set" where
  "peer_activity_ids s u =
     mb_activity ` {m \<in> set (memberships s). mb_user m = u \<and> mb_state m = SMember \<and> mb_role m \<noteq> MGuardian}"

definition shares_activity :: "db \<Rightarrow> id \<Rightarrow> id \<Rightarrow> bool" where
  "shares_activity s a b \<longleftrightarrow> (\<exists>m \<in> set (memberships s). mb_user m = b \<and> mb_state m = SMember \<and>
     mb_activity m \<in> peer_activity_ids s a \<and> mb_role m \<noteq> MGuardian)"

definition can_connect :: "db \<Rightarrow> user \<Rightarrow> user \<Rightarrow> bool" where
  "can_connect s a b =
     (if u_id a = u_id b then False
      else if \<not> u_active b then False
      else if u_cohort a = Unassigned \<or> u_cohort b = Unassigned then False
      else if u_cohort a \<noteq> u_cohort b then False
      else if u_cohort a \<notin> allowed_cohorts s \<or> u_cohort b \<notin> allowed_cohorts s then False
      else if \<not> can_participate s a \<or> \<not> can_participate s b then False
      else if is_blocked s (u_id a) (u_id b) then False
      else shares_activity s (u_id a) (u_id b))"

definition between :: "id \<Rightarrow> id \<Rightarrow> connection \<Rightarrow> bool" where
  "between a b c \<longleftrightarrow> cn_requester c = a \<and> cn_addressee c = b \<or> cn_requester c = b \<and> cn_addressee c = a"

definition are_connected :: "db \<Rightarrow> id \<Rightarrow> id \<Rightarrow> bool" where
  "are_connected s a b \<longleftrightarrow> (\<exists>c \<in> set (connections s). cn_status c = CnAccepted \<and> between a b c)"

definition conn_open :: "connection \<Rightarrow> bool" where
  "conn_open c \<longleftrightarrow> cn_status c \<in> {CnPending, CnAccepted}"

definition related_user_ids :: "db \<Rightarrow> id \<Rightarrow> id set" where
  "related_user_ids s u =
     (\<Union>c \<in> {c \<in> set (connections s). conn_open c \<and> (cn_requester c = u \<or> cn_addressee c = u)}.
        {cn_requester c, cn_addressee c})"

section \<open>Search\<close>

fun contains :: "string \<Rightarrow> string \<Rightarrow> bool" where
  "contains q [] = (q = [])"
| "contains q (c # cs) = (take (length q) (c # cs) = q \<or> contains q cs)"

definition icontains :: "string \<Rightarrow> string \<Rightarrow> bool" where
  "icontains q x = contains (lower_case q) (lower_case x)"

definition search_connectable :: "db \<Rightarrow> user \<Rightarrow> string \<Rightarrow> nat \<Rightarrow> user list" where
  "search_connectable s u query limit =
     (let q = strip query in
      if length q < 2 \<or> u_cohort u \<notin> allowed_cohorts s then []
      else let co = mb_user ` {m \<in> set (memberships s). mb_activity m \<in> peer_activity_ids s (u_id u) \<and>
                      mb_state m = SMember \<and> mb_role m \<noteq> MGuardian};
               pool = filter (\<lambda>v. u_id v \<in> co \<and> u_cohort v = u_cohort u \<and> u_active v \<and>
                        (icontains q (u_display_name v) \<or> icontains q (u_username v)) \<and> u_id v \<noteq> u_id u) (users s);
               excluded = blocked_user_ids s (u_id u) \<union> related_user_ids s (u_id u)
           in take limit (filter (\<lambda>v. u_id v \<notin> excluded) (take (limit * 3) pool)))"

section \<open>Requests\<close>

definition connection_row :: "db \<Rightarrow> id \<Rightarrow> connection option" where
  "connection_row s i = List.find (\<lambda>c. cn_id c = i) (connections s)"

definition set_connection :: "id \<Rightarrow> conn_status \<Rightarrow> time option \<Rightarrow> db \<Rightarrow> db" where
  "set_connection i st t s = s\<lparr> connections :=
     update_rows (\<lambda>c. cn_id c = i) (\<lambda>c. c\<lparr> cn_status := st, cn_decided_at := t \<rparr>) (connections s) \<rparr>"

definition cannot_connect :: connection_error where
  "cannot_connect = ConnNotEligible (quoted ''You can'' ''t connect with this person.'')"

definition notify_accepted :: "connection \<Rightarrow> user \<Rightarrow> db \<Rightarrow> db" where
  "notify_accepted c by_user s =
     snd (notify (if u_id by_user = cn_addressee c then cn_requester c else cn_addressee c) ConnectionAccepted
       (display_or_username by_user @ '' accepted your connection'') [] ''/connections/'' s)"

text \<open>The row becomes the connection; the other side is told.\<close>

definition accept_row :: "connection \<Rightarrow> user \<Rightarrow> id \<Rightarrow> db \<Rightarrow> db" where
  "accept_row c by_user other s = notify_accepted c by_user
     (record_audit ''connection.accepted'' (Some (u_id by_user)) (Some (user_target other)) []
        (set_connection (cn_id c) CnAccepted (Some (clock s)) s))"

text \<open>The row of the pair is written, the request audited and the addressee told.\<close>

definition update_or_create :: "connection option \<Rightarrow> id \<Rightarrow> id \<Rightarrow> db \<Rightarrow> id \<times> db" where
  "update_or_create existing a b s =
     (case existing of
        Some c \<Rightarrow> (cn_id c, set_connection (cn_id c) CnPending None s)
      | None \<Rightarrow> (seq s, s\<lparr> connections := connections s @ [\<lparr> cn_id = seq s, cn_requester = a, cn_addressee = b,
            cn_status = CnPending, cn_created_at = clock s, cn_decided_at = None \<rparr>], seq := Suc (seq s) \<rparr>))"

definition send_request :: "connection option \<Rightarrow> user \<Rightarrow> user \<Rightarrow> db \<Rightarrow> id \<times> db" where
  "send_request existing a b s =
     (let (i, s1) = update_or_create existing (u_id a) (u_id b) s
      in (i, snd (notify (u_id b) ConnectionRequest (display_or_username a @ '' would like to connect'') []
                ''/connections/''
                (record_audit ''connection.requested'' (Some (u_id a)) (Some (user_target (u_id b))) [] s1))))"

definition request_connection :: "user \<Rightarrow> user \<Rightarrow> db \<Rightarrow> (connection_error, id, db) outcome" where
  "request_connection a b s =
     (if \<not> can_connect s a b then raised cannot_connect s
      else if are_connected s (u_id a) (u_id b) then raised (ConnInvalidState (quoted ''You'' ''re already connected.'')) s
      else let existing = List.find (\<lambda>c. cn_requester c = u_id a \<and> cn_addressee c = u_id b) (connections s) in
        if (case existing of None \<Rightarrow> False | Some c \<Rightarrow> cn_status c = CnPending) then returned (cn_id (the existing)) s
        else case List.find (\<lambda>c. cn_requester c = u_id b \<and> cn_addressee c = u_id a \<and> cn_status c = CnPending) (connections s) of
            Some r \<Rightarrow> returned (cn_id r) (accept_row r a (u_id b) s)
          | None \<Rightarrow>
              let (ok, s1) = allow_action (u_id a) ''connection_request'' (st_connection_limit (conf s))
                    (st_connection_window (conf s)) s
              in if \<not> ok
                 then raised (ConnNotEligible (quoted ''You'' ''re sending connection requests too quickly; slow down.'')) s1
                 else let (i, s2) = send_request existing a b s1 in returned i s2)"

definition not_pending :: connection_error where
  "not_pending = ConnInvalidState ''This request is no longer pending.''"

definition respond_to_connection :: "user \<Rightarrow> connection \<Rightarrow> bool \<Rightarrow> db \<Rightarrow> (connection_error, unit, db) outcome" where
  "respond_to_connection v c accept s =
     (if cn_addressee c \<noteq> u_id v then raised (ConnNotEligible (quoted ''That isn'' ''t your request to answer.'')) s
      else if cn_status c \<noteq> CnPending then raised not_pending s
      else if accept
      then (case user_row s (cn_requester c) of
              None \<Rightarrow> raised cannot_connect s
            | Some r \<Rightarrow> if \<not> can_connect s v r then raised cannot_connect s
                        else returned () (accept_row c v (cn_requester c) s))
      else returned () (set_connection (cn_id c) CnDeclined (Some (clock s)) s))"

definition withdraw_request :: "user \<Rightarrow> connection \<Rightarrow> db \<Rightarrow> (connection_error, unit, db) outcome" where
  "withdraw_request u c s =
     (if cn_requester c \<noteq> u_id u then raised (ConnNotEligible (quoted ''That isn'' ''t your request to withdraw.'')) s
      else if cn_status c \<noteq> CnPending then raised not_pending s
      else returned () (set_connection (cn_id c) CnWithdrawn (Some (clock s)) s))"

definition remove_connection :: "id \<Rightarrow> id \<Rightarrow> db \<Rightarrow> db" where
  "remove_connection u other s =
     (let hit = (\<lambda>c. cn_status c = CnAccepted \<and> between u other c);
          s1 = s\<lparr> connections := update_rows hit (\<lambda>c. c\<lparr> cn_status := CnRemoved, cn_decided_at := Some (clock s) \<rparr>)
                     (connections s) \<rparr>
      in if count_rows hit (connections s) = 0 then s1
         else record_audit ''connection.removed'' (Some u) (Some (user_target other)) [] s1)"

section \<open>Reading\<close>

definition connections_for :: "db \<Rightarrow> id \<Rightarrow> id list" where
  "connections_for s u =
     filter (\<lambda>v. v \<notin> blocked_user_ids s u)
       (map (\<lambda>c. if cn_requester c = u then cn_addressee c else cn_requester c)
          (filter (\<lambda>c. cn_status c = CnAccepted \<and> (cn_requester c = u \<or> cn_addressee c = u)) (connections s)))"

definition pending_incoming :: "db \<Rightarrow> id \<Rightarrow> connection list" where
  "pending_incoming s u = sort_down cn_created_at (filter (\<lambda>c. cn_addressee c = u \<and> cn_status c = CnPending) (connections s))"

definition pending_outgoing :: "db \<Rightarrow> id \<Rightarrow> connection list" where
  "pending_outgoing s u = sort_down cn_created_at (filter (\<lambda>c. cn_requester c = u \<and> cn_status c = CnPending) (connections s))"

definition open_conversation :: "user \<Rightarrow> user \<Rightarrow> db \<Rightarrow> (connection_error, conversation, db) outcome" where
  "open_conversation u other s =
     (if \<not> are_connected s (u_id u) (u_id other)
      then raised (ConnNotEligible ''Connect with this person before starting a chat.'') s
      else case start_direct u other s of
          (Inl e, t) \<Rightarrow> raised (ConnMessaging e) t
        | (Inr c, t) \<Rightarrow> returned c t)"

definition connections_enabled_for :: "db \<Rightarrow> user \<Rightarrow> bool" where
  "connections_enabled_for s u \<longleftrightarrow> u_cohort u \<in> allowed_cohorts s"

end
