(* ===== verification/Connections_Frames.thy ===== *)
theory Connections_Frames
  imports Connections Threads_Properties
begin

text \<open>
  What the rest of the application does to the connection table. Blocks, age proofs, guardian links
  and consent, moderation: none of their operations writes it, and none gives an id back.
\<close>

section \<open>A frame\<close>

definition bonds_kept :: "db \<Rightarrow> db \<Rightarrow> bool" where
  "bonds_kept s t \<longleftrightarrow> connections t = connections s \<and> seq s \<le> seq t"

lemma bonds_refl: "bonds_kept s s"
  by (simp add: bonds_kept_def)

lemma bonds_trans: "bonds_kept s t \<Longrightarrow> bonds_kept t w \<Longrightarrow> bonds_kept s w"
  by (simp add: bonds_kept_def)

lemma bonds_steps:
  "bonds_kept s (snd (remove_user_from_conversations u r s))" "bonds_kept s (snd (remove_user_from_groups u r s))"
  "bonds_kept s (snd (drop_guardian_observers_for g w s))"
  "bonds_kept s (record_audit e a tg d s)" "bonds_kept s (snd (notify r' k ti b ur s))"
  "bonds_kept s (snd (allow_action i ac l wi s))"
  using eviction_seq(1) [of s u r] eviction_seq(2) [of s g w] eviction_seq(3) [of s u r] notify_seq [of s r' k ti b ur]
  by (simp_all add: bonds_kept_def record_audit_def Let_def)

lemma bonds_each: "bonds_kept s (snd (notify_each rs k ti b u s))"
  by (induction rs arbitrary: s) (auto simp: bonds_refl notify_each_Cons intro: bonds_trans [OF bonds_steps(5)])

lemma bonds_updates:
  "bonds_kept s (set_notice i n s)" "bonds_kept s (set_consents P f s)" "bonds_kept s (set_active i b s)"
  "bonds_kept s (set_hidden tg b s)" "bonds_kept s (set_lifted i s)" "bonds_kept s (close_report i m st s)"
  "bonds_kept s (close_invite i ist s)"
  by (simp_all add: bonds_kept_def set_notice_def set_consents_def set_active_def set_hidden_def set_lifted_def
      close_report_def close_invite_def)

lemma bonds_told:
  "bonds_kept s (notify_affected tg ti b s)" "bonds_kept s (notify_reporter rp ti b s)"
  "bonds_kept s (snd (alert_guardians_of_moderation us s))"
  by (simp_all add: notify_affected_def notify_reporter_def alert_guardians_of_moderation_def Let_def
      bonds_refl bonds_steps bonds_each split: option.split)

lemma bonds_bans: "bonds_kept s (snd (ban_identity u s))" "bonds_kept s (snd (release_identity_ban u a s))"
  by (simp_all add: ban_identity_def release_identity_ban_def bonds_kept_def record_audit_def Let_def
      split: option.split)

lemmas bonds_basic = bonds_steps bonds_each bonds_updates bonds_told bonds_bans
lemmas bonds_rules = bonds_refl bonds_basic bonds_basic [THEN bonds_trans [rotated]]

section \<open>Blocks and age proofs\<close>

lemma bonds_block: "bonds_kept s (snd (block_user a b s))" "bonds_kept s (unblock_user a b s)"
  by (auto simp: block_user_def unblock_user_def Let_def bonds_refl bonds_kept_def record_audit_def)

lemma bonds_prove: "bonds_kept s (snd (apply_assurance u r s))"
proof -
  have "bonds_kept s (proof_saved u r s)" by (simp add: bonds_kept_def proof_saved_def)
  moreover from this have "bonds_kept s (evicted u r s)" unfolding evicted_def by (intro bonds_rules)
  ultimately have "bonds_kept s (if assign_cohort (ar_age_band r) \<noteq> u_cohort u \<and> u_cohort u \<noteq> Unassigned
      then evicted u r s else proof_saved u r s)" by simp
  then show ?thesis by (auto simp: apply_assurance_eq Let_def bonds_kept_def)
qed

section \<open>Guardian links and consent\<close>

lemma bonds_pause: "bonds_kept s (pause_lapsed_minor u a s)" "bonds_kept s (nudge_reverify_soon u a s)"
  "bonds_kept s (pause_lapsed_consent u cs s)" "bonds_kept s (nudge_consent_renewal u c s)"
  unfolding pause_lapsed_minor_def nudge_reverify_soon_def pause_lapsed_consent_def nudge_consent_renewal_def Let_def
  by (rule bonds_rules)+

lemma bonds_reverify_one: "bonds_kept w s \<Longrightarrow> bonds_kept w (snd (reverify_one now soon cap u (n, s)))"
  by (cases rule: reverify_one_cases [of now s u soon n cap]) (auto intro: bonds_trans bonds_pause)

lemma bonds_consent_one: "bonds_kept w s \<Longrightarrow> bonds_kept w (snd (consent_one soon cap u (n, s)))"
proof -
  assume k: "bonds_kept w s"
  have nudges: "bonds_kept w (snd (fold (\<lambda>c (n, s). (n\<lparr> sw_nudged := Suc (sw_nudged n) \<rparr>,
      nudge_consent_renewal u c s)) cs (n, s)))" for cs
    by (rule fold_snd_keeps [of "bonds_kept w", OF _ k]) (auto intro: bonds_trans bonds_pause(4))
  show ?thesis
    using k nudges bonds_trans [OF k bonds_pause(3)] by (auto simp: consent_one_def Let_def)
qed

lemma bonds_sweeps: "bonds_kept s (snd (run_reverify_sweep now s))" "bonds_kept s (snd (run_consent_renewal_sweep now s))"
proof -
  have "bonds_kept s (snd (fold (reverify_one now soon cap) us (n, s)))" for soon cap us n
    by (rule fold_snd_keeps [of "bonds_kept s"]) (simp_all add: bonds_reverify_one bonds_refl)
  then show "bonds_kept s (snd (run_reverify_sweep now s))"
    by (auto simp: run_reverify_sweep_def Let_def case_prod_beta intro!: bonds_rules)
  have "bonds_kept s (snd (fold (consent_one soon cap) us (n, s)))" for soon cap us n
    by (rule fold_snd_keeps [of "bonds_kept s"]) (simp_all add: bonds_consent_one bonds_refl)
  then show "bonds_kept s (snd (run_consent_renewal_sweep now s))"
    by (auto simp: run_consent_renewal_sweep_def Let_def case_prod_beta intro!: bonds_rules)
qed

lemma bonds_revoke: "bonds_kept s (revoke_guardian g w s)" "bonds_kept s (snd (revoke_parental_consent gi wi s))"
proof -
  have "bonds_kept s (unlinked g w s)" by (simp add: unlinked_def bonds_kept_def set_consents_def)
  then have "bonds_kept s (unobserved g w s)" unfolding unobserved_def by (intro bonds_rules)
  then show "bonds_kept s (revoke_guardian g w s)"
    unfolding revoke_guardian_eq by (auto intro!: bonds_rules)
  show "bonds_kept s (snd (revoke_parental_consent gi wi s))"
    by (auto simp: revoke_parental_consent_def Let_def intro!: bonds_rules)
qed

lemma bonds_invites: "bonds_kept s (snd (create_guardian_link_invite g w rel tk s))"
  "bonds_kept s (snd (accept_guardian_link_invite w tk s))" "bonds_kept s (snd (decline_guardian_link_invite vi tk s))"
  "bonds_kept s (snd (grant_parental_consent g w scope ex s))"
proof -
  show "bonds_kept s (snd (create_guardian_link_invite g w rel tk s))"
    by (simp add: create_guardian_link_invite_def Let_def bonds_kept_def record_audit_def)
  show "bonds_kept s (snd (decline_guardian_link_invite vi tk s))"
    by (auto simp: decline_guardian_link_invite_def intro!: bonds_rules split: option.split)
  have "bonds_kept s (snd (link_guardian a b c d s))" for a b c d
    using link_guardian_grows(1) [of s a b c d]
    by (auto simp: bonds_kept_def link_guardian_def Let_def split: option.splits)
  then show "bonds_kept s (snd (accept_guardian_link_invite w tk s))"
    by (cases rule: accept_cases [of w tk s])
      (auto intro: bonds_rules bonds_trans [OF bonds_trans [OF _ bonds_updates(7)] bonds_steps(4)])
  show "bonds_kept s (snd (grant_parental_consent g w scope ex s))"
    by (cases rule: grant_cases [of g w scope ex s])
      (auto simp: bonds_kept_def granted_def consent_linked_def set_consents_def split: option.split)
qed

lemma family_exec_bonds: "bonds_kept s (family_exec q s)"
  by (cases q) (simp_all add: with_member_def bonds_refl bonds_invites bonds_revoke bonds_sweeps split: option.split)

section \<open>Moderation\<close>

lemma bonds_enforce: "bonds_kept s (enforce t k s)"
  by (simp add: enforce_def Let_def bonds_rules)

lemma bonds_case_report:
  "bonds_kept w s \<Longrightarrow> bonds_kept w (case rep of None \<Rightarrow> s | Some r \<Rightarrow> close_report (rp_id r) m st s)"
  "bonds_kept w s \<Longrightarrow> bonds_kept w (case rep of None \<Rightarrow> s | Some r \<Rightarrow> notify_reporter (rp_reporter r) ti b s)"
  by (auto split: option.split intro: bonds_rules)

lemma bonds_take_action: "bonds_kept s (snd (take_action m t k re notes rep ex s))"
proof -
  have "bonds_kept s (enforce t k (s\<lparr> mod_actions := xs, seq := Suc (seq s) \<rparr>))" for xs
    using bonds_enforce by (rule bonds_trans [rotated]) (simp add: bonds_kept_def)
  then show ?thesis
    unfolding take_action_def Let_def snd_conv notify_statement_of_reasons_def
    by (intro bonds_rules bonds_case_report)
qed

lemma bonds_dismiss: "bonds_kept s (dismiss_report m r res s)"
  unfolding dismiss_report_def Let_def
  by (intro bonds_rules) (simp add: bonds_kept_def)

lemma bonds_lift_one:
  assumes "bonds_kept w s"
  shows "bonds_kept w (snd (lift_one now i (n, s)))"
proof -
  have "bonds_kept w (set_lifted i s)"
    "bonds_kept w (notify_suspension_lifted tg (set_lifted i (record_audit e a tg' d (set_active j b s))))"
    for tg e a tg' d j b
    unfolding notify_suspension_lifted_def by (intro bonds_rules assms)+
  with assms show ?thesis by (simp add: lift_one_def Let_def split: option.split)
qed

lemma bonds_lift_expired: "bonds_kept s (snd (lift_expired_suspensions s))"
  unfolding lift_expired_suspensions_def
  by (rule fold_snd_keeps [of "bonds_kept s"]) (simp_all add: bonds_lift_one bonds_refl)

lemma bonds_reverse: "bonds_kept s (snd (reverse_action a s))"
proof -
  have m: "bonds_kept s (mark_lifted a s)" by (simp add: mark_lifted_def bonds_rules)
  have act: "bonds_kept s (set_active i True (mark_lifted a s))" for i
    by (rule bonds_trans [OF m bonds_updates(3)])
  have rel: "bonds_kept s (snd (release_identity_ban i None t))" if "bonds_kept s t" for i t
    using that by (rule bonds_rules)
  have "bonds_kept s (snd (reverse_account a u s))" for u
    using m act rel by (simp add: reverse_account_def Let_def)
  moreover have "bonds_kept s (snd (reverse_content a s))"
    using m bonds_trans [OF m bonds_updates(4)] bonds_rules
    by (simp add: reverse_content_def Let_def)
  ultimately show ?thesis by (simp add: reverse_action_def bonds_refl split: option.split)
qed

lemma bonds_file_appeal: "bonds_kept s (snd (file_appeal u a tx s))"
  by (simp add: file_appeal_def Let_def case_prod_beta bonds_kept_def record_audit_def)

lemma bonds_resolve_appeal: "bonds_kept s (snd (resolve_appeal m pid g notes s))"
proof -
  have base: "bonds_kept s (s\<lparr> appeals := xs \<rparr>)" for xs by (simp add: bonds_kept_def)
  have rev: "bonds_kept s (snd (reverse_action a (s\<lparr> appeals := xs \<rparr>)))" for a xs
    by (rule bonds_trans [OF base bonds_reverse])
  have told: "bonds_kept s (snd (alert_guardians_of_moderation us (notify_appeal_outcome a g l (record_audit e x tg d t))))"
    if "bonds_kept s t" for us a g l e x tg d t
    using that unfolding notify_appeal_outcome_def by (auto intro!: bonds_rules)
  show ?thesis
    by (cases g; simp add: resolve_appeal_def Let_def case_prod_beta told rev base bonds_refl split: option.split)
qed

lemma bonds_referral: "bonds_kept s (snd (create_authority_referral m u re auth rep ref notes s))"
  by (simp add: bonds_kept_def create_authority_referral_def Let_def record_audit_def)

lemma mod_exec_bonds: "bonds_kept s (mod_exec q s)"
  by (cases q)
    (simp_all add: with_member_def bonds_refl bonds_take_action bonds_dismiss bonds_lift_expired bonds_file_appeal
      bonds_resolve_appeal bonds_referral split: option.split)

end
