(* ===== verification/Connections_Properties.thy ===== *)
theory Connections_Properties
  imports Connections_Frames
begin

text \<open>
  The laws of connections: the requests of the service and the operations of the rest of the
  application that bear on who may connect, the well-formedness of the connection rows, how a link
  comes about, and what ends one.
\<close>

section \<open>Requests\<close>

text \<open>
  Next to the requests of apps/connections stand those of safety, accounts and moderation that change
  who may connect. \<open>EraseAccount\<close> is the \<open>target.delete()\<close> at the end of an erasure: the account
  row goes, and CASCADE takes every connection row that names it. \<open>Elsewhere\<close> is a step of any other
  part of the application; none of them names the connection table.
\<close>

datatype link_request =
    AskLink id id
  | AnswerLink id id bool
  | WithdrawLink id id
  | Unlink id id
  | BlockPerson id id
  | UnblockPerson id id
  | AgeProof id assurance_result
  | FamilyStep family_request
  | ModStep mod_request
  | EraseAccount id
  | Elsewhere "db \<Rightarrow> db"

definition with_link :: "db \<Rightarrow> id \<Rightarrow> (connection \<Rightarrow> db) \<Rightarrow> db" where
  "with_link s i k = (case connection_row s i of None \<Rightarrow> s | Some c \<Rightarrow> k c)"

fun link_exec :: "link_request \<Rightarrow> db \<Rightarrow> db" where
  "link_exec (AskLink a b) s = with_member s a (\<lambda>u. with_member s b (\<lambda>v. snd (request_connection u v s)))"
| "link_exec (AnswerLink v c ok) s = with_member s v (\<lambda>v. with_link s c (\<lambda>c. snd (respond_to_connection v c ok s)))"
| "link_exec (WithdrawLink u c) s = with_member s u (\<lambda>u. with_link s c (\<lambda>c. snd (withdraw_request u c s)))"
| "link_exec (Unlink u v) s = remove_connection u v s"
| "link_exec (BlockPerson u v) s = snd (block_user u v s)"
| "link_exec (UnblockPerson u v) s = unblock_user u v s"
| "link_exec (AgeProof u r) s = with_member s u (\<lambda>u. snd (apply_assurance u r s))"
| "link_exec (FamilyStep q) s = family_exec q s"
| "link_exec (ModStep q) s = mod_exec q s"
| "link_exec (EraseAccount u) s = s\<lparr> users := filter (\<lambda>x. u_id x \<noteq> u) (users s),
     connections := filter (\<lambda>c. cn_requester c \<noteq> u \<and> cn_addressee c \<noteq> u) (connections s) \<rparr>"
| "link_exec (Elsewhere f) s = (f s)\<lparr> connections := connections s, seq := max (seq s) (seq (f s)) \<rparr>"

section \<open>Moves of the table\<close>

text \<open>
  What one request does to the table: nothing, one row to a new status, the accepted rows of a pair
  removed, the rows of an erased account dropped, or a new row.
\<close>

definition set_status :: "id \<Rightarrow> conn_status \<Rightarrow> time option \<Rightarrow> connection list \<Rightarrow> connection list" where
  "set_status i st t = update_rows (\<lambda>c. cn_id c = i) (\<lambda>c. c\<lparr> cn_status := st, cn_decided_at := t \<rparr>)"

lemma set_connection_rows [simp]:
  "connections (set_connection i st t s) = set_status i st t (connections s)" "seq (set_connection i st t s) = seq s"
  by (simp_all add: set_connection_def set_status_def)

lemma accept_row_frame [simp]:
  "connections (accept_row c u o' s) = set_status (cn_id c) CnAccepted (Some (clock s)) (connections s)"
  "seq s \<le> seq (accept_row c u o' s)"
proof -
  show "connections (accept_row c u o' s) = set_status (cn_id c) CnAccepted (Some (clock s)) (connections s)"
    by (simp add: accept_row_def notify_accepted_def)
  show "seq s \<le> seq (accept_row c u o' s)"
    by (simp add: accept_row_def notify_accepted_def notify_def record_audit_def Let_def)
qed

definition link_gate :: "db \<Rightarrow> id \<Rightarrow> id \<Rightarrow> bool" where
  "link_gate s a b \<longleftrightarrow> (\<exists>u v. user_row s a = Some u \<and> user_row s b = Some v \<and> can_connect s u v)"

definition agrees :: "link_request \<Rightarrow> connection \<Rightarrow> bool" where
  "agrees q c \<longleftrightarrow> q = AskLink (cn_addressee c) (cn_requester c) \<or> q = AnswerLink (cn_addressee c) (cn_id c) True"

definition fresh_pair :: "id \<Rightarrow> id \<Rightarrow> connection list \<Rightarrow> bool" where
  "fresh_pair a b cs \<longleftrightarrow> a \<noteq> b \<and> (\<forall>c \<in> set cs. conn_open c \<longrightarrow> \<not> between a b c)"

inductive link_move :: "link_request \<Rightarrow> db \<Rightarrow> connection list \<Rightarrow> bool" where
  Stay: "link_move q s (connections s)"
| Accept: "c \<in> set (connections s) \<Longrightarrow> cn_status c = CnPending \<Longrightarrow> agrees q c \<Longrightarrow>
    link_gate s (cn_addressee c) (cn_requester c) \<Longrightarrow> link_move q s (set_status (cn_id c) CnAccepted t (connections s))"
| Close: "c \<in> set (connections s) \<Longrightarrow> cn_status c = CnPending \<Longrightarrow> st \<notin> {CnPending, CnAccepted} \<Longrightarrow>
    link_move q s (set_status (cn_id c) st t (connections s))"
| Remove: "q = Unlink a b \<Longrightarrow> link_move q s (update_rows (\<lambda>c. cn_status c = CnAccepted \<and> between a b c)
    (\<lambda>c. c\<lparr> cn_status := CnRemoved, cn_decided_at := t \<rparr>) (connections s))"
| Cascade: "q = EraseAccount u \<Longrightarrow>
    link_move q s (filter (\<lambda>c. cn_requester c \<noteq> u \<and> cn_addressee c \<noteq> u) (connections s))"
| Reopen: "q = AskLink (cn_requester c) (cn_addressee c) \<Longrightarrow> c \<in> set (connections s) \<Longrightarrow>
    link_gate s (cn_requester c) (cn_addressee c) \<Longrightarrow> fresh_pair (cn_requester c) (cn_addressee c) (connections s) \<Longrightarrow>
    link_move q s (set_status (cn_id c) CnPending t (connections s))"
| Open: "q = AskLink (cn_requester c) (cn_addressee c) \<Longrightarrow> cn_id c = seq s \<Longrightarrow> cn_status c = CnPending \<Longrightarrow>
    link_gate s (cn_requester c) (cn_addressee c) \<Longrightarrow> fresh_pair (cn_requester c) (cn_addressee c) (connections s) \<Longrightarrow>
    (\<forall>d \<in> set (connections s). (cn_requester d, cn_addressee d) \<noteq> (cn_requester c, cn_addressee c)) \<Longrightarrow>
    link_move q s (connections s @ [c])"

lemma can_connect_distinct: "can_connect s u v \<Longrightarrow> u_id u \<noteq> u_id v"
  by (simp add: can_connect_def split: if_splits)

lemma user_row_id: "user_row s i = Some u \<Longrightarrow> u_id u = i"
  using find_SomeD by (fastforce simp: user_row_def)

text \<open>The pair has no open row once the checks before the insert have passed.\<close>

lemma fresh_after_checks:
  assumes "u_id u \<noteq> u_id v" "\<not> are_connected s (u_id u) (u_id v)"
    and ex: "\<not> (case List.find (\<lambda>c. cn_requester c = u_id u \<and> cn_addressee c = u_id v) (connections s) of
        None \<Rightarrow> False | Some c \<Rightarrow> cn_status c = CnPending)"
    and rv: "List.find (\<lambda>c. cn_requester c = u_id v \<and> cn_addressee c = u_id u \<and> cn_status c = CnPending) (connections s) = None"
    and uq: "unique_by (\<lambda>c. (cn_requester c, cn_addressee c)) (connections s)"
  shows "fresh_pair (u_id u) (u_id v) (connections s)"
proof -
  have "\<not> between (u_id u) (u_id v) c" if c: "c \<in> set (connections s)" "conn_open c" for c
  proof
    assume b: "between (u_id u) (u_id v) c"
    with c assms(2) have p: "cn_status c = CnPending" by (auto simp: are_connected_def conn_open_def)
    from b consider "cn_requester c = u_id u" "cn_addressee c = u_id v" | "cn_requester c = u_id v" "cn_addressee c = u_id u"
      by (auto simp: between_def)
    then show False
    proof cases
      case 1
      with unique_by_find [OF uq c(1)] ex p show False by simp
    next
      case 2
      with find_NoneD [OF rv c(1)] p show False by simp
    qed
  qed
  with assms(1) show ?thesis by (simp add: fresh_pair_def)
qed

definition conn_inv :: "db \<Rightarrow> bool" where
  "conn_inv s \<longleftrightarrow> unique_by cn_id (connections s) \<and> unique_by (\<lambda>c. (cn_requester c, cn_addressee c)) (connections s) \<and>
     (\<forall>c \<in> set (connections s). cn_id c < seq s \<and> cn_requester c \<noteq> cn_addressee c) \<and>
     (\<forall>c \<in> set (connections s). \<forall>d \<in> set (connections s).
        conn_open c \<and> conn_open d \<and> between (cn_requester c) (cn_addressee c) d \<longrightarrow> c = d)"

text \<open>An outcome of a request is one of the moves, and ids stay below the sequence.\<close>

definition link_result :: "link_request \<Rightarrow> db \<Rightarrow> db \<Rightarrow> bool" where
  "link_result q s t \<longleftrightarrow> link_move q s (connections t) \<and> seq s \<le> seq t \<and> (\<forall>c \<in> set (connections t). cn_id c < seq t)"

lemma set_status_ids: "map cn_id (set_status i st t cs) = map cn_id cs"
  by (simp add: set_status_def map_update_rows)

lemma set_status_id_less:
  "(\<forall>c \<in> set (set_status i st t cs). cn_id c < n) \<longleftrightarrow> (\<forall>c \<in> set cs. cn_id c < n)"
  by (induction cs) (simp_all add: set_status_def)

lemma link_resultI:
  "link_move q s (connections t) \<Longrightarrow> seq s \<le> seq t \<Longrightarrow> (\<And>c. c \<in> set (connections t) \<Longrightarrow> cn_id c < seq t) \<Longrightarrow>
   link_result q s t"
  by (simp add: link_result_def)

lemma status_result:
  assumes "conn_inv s" "link_move q s (set_status i st tm (connections s))" "connections t = set_status i st tm (connections s)"
    "seq s \<le> seq t"
  shows "link_result q s t"
proof (rule link_resultI)
  have "\<forall>c \<in> set (connections s). cn_id c < seq t" using assms(1,4) by (fastforce simp: conn_inv_def)
  then show "\<And>c. c \<in> set (connections t) \<Longrightarrow> cn_id c < seq t"
    using assms(3) set_status_id_less [of i st tm "connections s" "seq t"] by simp
qed (use assms in simp_all)

lemma stay_result: "conn_inv s \<Longrightarrow> connections t = connections s \<Longrightarrow> seq s \<le> seq t \<Longrightarrow> link_result q s t"
  by (rule link_resultI) (fastforce simp: conn_inv_def intro: link_move.Stay)+

lemma kept_result: "conn_inv s \<Longrightarrow> bonds_kept s t \<Longrightarrow> link_result q s t"
  by (rule stay_result) (simp_all add: bonds_kept_def)

lemma send_request_frame:
  "connections (snd (send_request e u v s)) = connections (snd (update_or_create e (u_id u) (u_id v) s))"
  "seq (snd (update_or_create e (u_id u) (u_id v) s)) \<le> seq (snd (send_request e u v s))"
proof -
  show "connections (snd (send_request e u v s)) = connections (snd (update_or_create e (u_id u) (u_id v) s))"
    by (simp add: send_request_def split: prod.splits)
  show "seq (snd (update_or_create e (u_id u) (u_id v) s)) \<le> seq (snd (send_request e u v s))"
    by (simp add: send_request_def notify_def Let_def split: prod.splits)
qed

lemma request_result:
  assumes inv: "conn_inv s" and u: "user_row s a = Some u" and v: "user_row s b = Some v"
  shows "link_result (AskLink a b) s (snd (request_connection u v s))"
proof -
  note ids = user_row_id [OF u] user_row_id [OF v]
  let ?ex = "List.find (\<lambda>c. cn_requester c = u_id u \<and> cn_addressee c = u_id v) (connections s)"
  let ?rv = "List.find (\<lambda>c. cn_requester c = u_id v \<and> cn_addressee c = u_id u \<and> cn_status c = CnPending) (connections s)"
  let ?al = "allow_action (u_id u) ''connection_request'' (st_connection_limit (conf s)) (st_connection_window (conf s)) s"
  consider (refused) "\<not> can_connect s u v \<or> are_connected s (u_id u) (u_id v) \<or>
        (case ?ex of None \<Rightarrow> False | Some c \<Rightarrow> cn_status c = CnPending)"
    | (answered) r where "can_connect s u v" "\<not> are_connected s (u_id u) (u_id v)"
        "\<not> (case ?ex of None \<Rightarrow> False | Some c \<Rightarrow> cn_status c = CnPending)" "?rv = Some r"
    | (asked) "can_connect s u v" "\<not> are_connected s (u_id u) (u_id v)"
        "\<not> (case ?ex of None \<Rightarrow> False | Some c \<Rightarrow> cn_status c = CnPending)" "?rv = None"
    by blast
  then show ?thesis
  proof cases
    case refused
    then have "snd (request_connection u v s) = s"
      by (auto simp: request_connection_def Let_def)
    with inv show ?thesis by (simp add: stay_result)
  next
    case answered
    then have t: "snd (request_connection u v s) = accept_row r u (u_id v) s"
      by (simp add: request_connection_def Let_def)
    have r: "r \<in> set (connections s)" "cn_requester r = b" "cn_addressee r = a" "cn_status r = CnPending"
      using find_SomeD [OF answered(4)] ids by auto
    show ?thesis
      unfolding t
      by (rule status_result [OF inv, of _ "cn_id r" CnAccepted "Some (clock s)"])
        (use r u v answered(1) in \<open>auto intro!: link_move.Accept simp: agrees_def link_gate_def\<close>)
  next
    case asked
    then have t: "snd (request_connection u v s) = (if fst ?al then snd (send_request ?ex u v (snd ?al)) else snd ?al)"
      by (simp add: request_connection_def Let_def split: prod.splits)
    have fresh: "fresh_pair a b (connections s)"
      using fresh_after_checks [OF can_connect_distinct [OF asked(1)] asked(2,3,4)] inv ids by (simp add: conn_inv_def)
    have gate: "link_gate s a b" using u v asked(1) by (auto simp: link_gate_def)
    show ?thesis
    proof (cases "fst ?al")
      case False
      with t inv show ?thesis by (simp add: stay_result)
    next
      case ok: True
      show ?thesis
      proof (cases ?ex)
        case (Some c)
        have c: "c \<in> set (connections s)" "cn_requester c = a" "cn_addressee c = b"
          using find_SomeD [OF Some] ids by auto
        have "snd (update_or_create ?ex (u_id u) (u_id v) (snd ?al)) = set_connection (cn_id c) CnPending None (snd ?al)"
          using Some by (simp add: update_or_create_def)
        then show ?thesis
          using t ok send_request_frame [of ?ex u v "snd ?al"] c fresh gate
          by (auto intro!: status_result [OF inv, of _ "cn_id c" CnPending None] link_move.Reopen)
      next
        case None
        let ?c = "\<lparr> cn_id = seq s, cn_requester = a, cn_addressee = b, cn_status = CnPending, cn_created_at = clock s,
            cn_decided_at = None \<rparr>"
        have cs: "connections (snd (request_connection u v s)) = connections s @ [?c]"
          and sq: "seq s < seq (snd (request_connection u v s))"
          using t ok send_request_frame [of ?ex u v "snd ?al"] None ids by (simp_all add: update_or_create_def)
        have new: "(cn_requester d, cn_addressee d) \<noteq> (a, b)" if "d \<in> set (connections s)" for d
          using find_NoneD [OF None that] ids by auto
        show ?thesis
        proof (rule link_resultI)
          show "link_move (AskLink a b) s (connections (snd (request_connection u v s)))"
            unfolding cs by (rule link_move.Open) (use fresh gate new in auto)
          show "\<And>c. c \<in> set (connections (snd (request_connection u v s))) \<Longrightarrow> cn_id c < seq (snd (request_connection u v s))"
            using inv sq unfolding cs by (fastforce simp: conn_inv_def)
        qed (use sq in simp)
      qed
    qed
  qed
qed

lemma link_exec_result: "conn_inv s \<Longrightarrow> link_result q s (link_exec q s)"
proof -
  assume inv: "conn_inv s"
  show ?thesis
  proof (cases q)
    case (AskLink a b)
    with inv request_result [OF inv] show ?thesis
      by (auto simp: with_member_def stay_result split: option.splits)
  next
    case (AnswerLink a i ok)
    show ?thesis
    proof (cases "\<exists>u c. user_row s a = Some u \<and> connection_row s i = Some c \<and> cn_addressee c = u_id u \<and> cn_status c = CnPending")
      case False
      then show ?thesis
        using inv AnswerLink by (auto simp: with_member_def with_link_def respond_to_connection_def stay_result split: option.splits)
    next
      case True
      then obtain u c where u: "user_row s a = Some u" and i: "connection_row s i = Some c"
        and c: "cn_addressee c = u_id u" "cn_status c = CnPending" by blast
      have cs: "c \<in> set (connections s)" "cn_id c = i" using find_SomeD i by (fastforce simp: connection_row_def)+
      have t: "link_exec q s = (if ok then case user_row s (cn_requester c) of None \<Rightarrow> s
            | Some r \<Rightarrow> if can_connect s u r then accept_row c u (cn_requester c) s else s
          else set_connection (cn_id c) CnDeclined (Some (clock s)) s)"
        using AnswerLink u i c by (simp add: with_member_def with_link_def respond_to_connection_def split: option.splits)
      show ?thesis
      proof (cases "\<exists>r. ok \<and> user_row s (cn_requester c) = Some r \<and> can_connect s u r")
        case True
        then obtain r where r: "ok" "user_row s (cn_requester c) = Some r" "can_connect s u r" by blast
        show ?thesis
          by (rule status_result [OF inv, of _ "cn_id c" CnAccepted "Some (clock s)"])
            (use t r cs c u AnswerLink user_row_id [OF u] in
              \<open>auto intro!: link_move.Accept simp: agrees_def link_gate_def\<close>)
      next
        case False
        then have "link_exec q s = s \<or> link_exec q s = set_connection (cn_id c) CnDeclined (Some (clock s)) s"
          using t by (auto split: option.splits)
        then show ?thesis
          using inv cs(1) c(2) by (auto intro: stay_result status_result [OF inv] link_move.Close)
      qed
    qed
  next
    case (WithdrawLink a i)
    then have "link_exec q s = s \<or> (\<exists>c \<in> set (connections s). cn_status c = CnPending \<and>
        link_exec q s = set_connection (cn_id c) CnWithdrawn (Some (clock s)) s)"
      using find_SomeD [of _ "connections s"]
      by (fastforce simp: with_member_def with_link_def withdraw_request_def connection_row_def split: option.splits)
    then show ?thesis
      using inv by (auto intro: stay_result status_result [OF inv] link_move.Close)
  next
    case (Unlink a b)
    then show ?thesis
      using inv by (auto simp: remove_connection_def Let_def link_result_def conn_inv_def set_update_rows less_Suc_eq
          intro: link_move.Remove)
  next
    case (AgeProof u r)
    with inv bonds_prove show ?thesis
      by (auto simp: with_member_def kept_result bonds_refl split: option.split)
  next
    case (EraseAccount u)
    with inv show ?thesis
      by (auto simp: conn_inv_def intro!: link_resultI link_move.Cascade)
  qed (use inv in \<open>simp_all add: stay_result kept_result bonds_block family_exec_bonds mod_exec_bonds\<close>)
qed

section \<open>Well-formed rows\<close>

lemma set_status_cases:
  "d \<in> set (set_status i st t cs) \<Longrightarrow>
   (d \<in> set cs \<and> cn_id d \<noteq> i) \<or> (\<exists>c \<in> set cs. cn_id c = i \<and> d = c\<lparr> cn_status := st, cn_decided_at := t \<rparr>)"
  by (auto simp: set_status_def set_update_rows)

lemma set_status_keys:
  "map (\<lambda>c. (cn_requester c, cn_addressee c)) (set_status i st t cs) = map (\<lambda>c. (cn_requester c, cn_addressee c)) cs"
  by (simp add: set_status_def map_update_rows)

definition links_ok :: "connection list \<Rightarrow> bool" where
  "links_ok cs \<longleftrightarrow> unique_by cn_id cs \<and> unique_by (\<lambda>c. (cn_requester c, cn_addressee c)) cs \<and>
     (\<forall>c \<in> set cs. cn_requester c \<noteq> cn_addressee c) \<and>
     (\<forall>c \<in> set cs. \<forall>d \<in> set cs. conn_open c \<and> conn_open d \<and> between (cn_requester c) (cn_addressee c) d \<longrightarrow> c = d)"

lemma conn_inv_links: "conn_inv s \<longleftrightarrow> links_ok (connections s) \<and> (\<forall>c \<in> set (connections s). cn_id c < seq s)"
  by (auto simp: conn_inv_def links_ok_def)

lemma between_sym: "between a b c \<longleftrightarrow> between b a c"
  by (auto simp: between_def)

lemma between_pair:
  "between (cn_requester c) (cn_addressee c) d \<longleftrightarrow> between (cn_requester d) (cn_addressee d) c"
  by (auto simp: between_def)

text \<open>A step that gives each row a new status keeps the rows well-formed when it opens only a fresh pair.\<close>

lemma links_ok_map:
  assumes ok: "links_ok cs"
    and same: "\<And>c. c \<in> set cs \<Longrightarrow> cn_id (f c) = cn_id c \<and> cn_requester (f c) = cn_requester c \<and> cn_addressee (f c) = cn_addressee c"
    and opens: "\<And>c. c \<in> set cs \<Longrightarrow> conn_open (f c) \<Longrightarrow> \<not> conn_open c \<Longrightarrow>
      fresh_pair (cn_requester c) (cn_addressee c) cs \<and> (\<forall>d \<in> set cs. d \<noteq> c \<longrightarrow> f d = d)"
  shows "links_ok (map f cs)"
proof -
  have maps: "map cn_id (map f cs) = map cn_id cs"
    "map (\<lambda>c. (cn_requester c, cn_addressee c)) (map f cs) = map (\<lambda>c. (cn_requester c, cn_addressee c)) cs"
    using same by simp_all
  have one: "c = d" if c: "c \<in> set cs" "conn_open (f c)" and d: "d \<in> set cs" "conn_open (f d)"
      and b: "between (cn_requester c) (cn_addressee c) d" for c d
  proof (rule ccontr)
    assume ne: "c \<noteq> d"
    consider "conn_open c" "conn_open d" | "\<not> conn_open c" | "\<not> conn_open d" by blast
    then show False
    proof cases
      case 1
      with ok c d b ne show False by (auto simp: links_ok_def)
    next
      case 2
      with opens [OF c] d ne have "conn_open d" "fresh_pair (cn_requester c) (cn_addressee c) cs" by auto
      with d b show False by (auto simp: fresh_pair_def)
    next
      case 3
      with opens [OF d] c ne have "conn_open c" "fresh_pair (cn_requester d) (cn_addressee d) cs" by auto
      with c b between_pair [of c d] show False by (auto simp: fresh_pair_def)
    qed
  qed
  have btw: "between (cn_requester (f c)) (cn_addressee (f c)) (f d) \<longleftrightarrow> between (cn_requester c) (cn_addressee c) d"
    if "c \<in> set cs" "d \<in> set cs" for c d
    using same [OF that(1)] same [OF that(2)] by (simp add: between_def)
  show ?thesis
    unfolding links_ok_def unique_by_def maps
  proof (intro conjI ballI impI)
    show "distinct (map cn_id cs)" "distinct (map (\<lambda>c. (cn_requester c, cn_addressee c)) cs)"
      using ok by (simp_all add: links_ok_def unique_by_def)
    show "cn_requester c \<noteq> cn_addressee c" if "c \<in> set (map f cs)" for c
      using that ok same by (auto simp: links_ok_def)
    show "c = d" if cd: "c \<in> set (map f cs)" "d \<in> set (map f cs)"
      "conn_open c \<and> conn_open d \<and> between (cn_requester c) (cn_addressee c) d" for c d
    proof -
      obtain x y where xy: "x \<in> set cs" "c = f x" "y \<in> set cs" "d = f y" using cd(1,2) by auto
      with cd(3) btw one show ?thesis by blast
    qed
  qed
qed

lemma links_ok_filter: "links_ok cs \<Longrightarrow> links_ok (filter P cs)"
  by (auto simp: links_ok_def unique_by_def distinct_map_filter)

lemma fresh_not_open: "fresh_pair (cn_requester c) (cn_addressee c) cs \<Longrightarrow> c \<in> set cs \<Longrightarrow> \<not> conn_open c"
  by (auto simp: fresh_pair_def between_def)

lemma links_ok_move:
  assumes ok: "links_ok (connections s)" and lt: "\<forall>c \<in> set (connections s). cn_id c < seq s"
    and mv: "link_move q s cs"
  shows "links_ok cs"
  using mv
proof cases
  case Stay
  with ok show ?thesis by simp
next
  case (Accept c t)
  have ids: "unique_by cn_id (connections s)" using ok by (simp add: links_ok_def)
  show ?thesis
    unfolding Accept(1) set_status_def update_rows_def
    by (rule links_ok_map [OF ok])
      (use Accept unique_byD [OF ids] in \<open>auto simp: conn_open_def split: if_splits\<close>)
next
  case (Close c st t)
  show ?thesis
    unfolding Close(1) set_status_def update_rows_def
    by (rule links_ok_map [OF ok]) (use Close in \<open>auto simp: conn_open_def split: if_splits\<close>)
next
  case (Remove a b t)
  show ?thesis
    unfolding Remove(1) update_rows_def
    by (rule links_ok_map [OF ok]) (auto simp: conn_open_def split: if_splits)
next
  case (Cascade u)
  with ok show ?thesis by (simp add: links_ok_filter)
next
  case (Reopen c t)
  have ids: "unique_by cn_id (connections s)" using ok by (simp add: links_ok_def)
  have only: "d = c" if "d \<in> set (connections s)" "cn_id d = cn_id c" for d
    using unique_byD [OF ids that(1) Reopen(3) that(2)] .
  show ?thesis
    unfolding Reopen(1) set_status_def update_rows_def
  proof (rule links_ok_map [OF ok])
    fix d assume d: "d \<in> set (connections s)" "\<not> conn_open d"
      "conn_open (if cn_id d = cn_id c then d\<lparr> cn_status := CnPending, cn_decided_at := t \<rparr> else d)"
    then have "cn_id d = cn_id c" by (auto split: if_splits)
    with only d(1) have "d = c" by blast
    with Reopen(5) only show "fresh_pair (cn_requester d) (cn_addressee d) (connections s) \<and>
        (\<forall>e \<in> set (connections s). e \<noteq> d \<longrightarrow>
          (if cn_id e = cn_id c then e\<lparr> cn_status := CnPending, cn_decided_at := t \<rparr> else e) = e)" by auto
  qed simp
next
  case (Open c)
  have "between (cn_requester d) (cn_addressee d) c \<longrightarrow> \<not> conn_open d" if "d \<in> set (connections s)" for d
    using Open(6) that between_pair [of c d] by (auto simp: fresh_pair_def)
  moreover have "cn_id c \<notin> cn_id ` set (connections s)" using lt Open(3) by auto
  moreover have "(cn_requester c, cn_addressee c) \<notin> (\<lambda>c. (cn_requester c, cn_addressee c)) ` set (connections s)"
    using Open(7) by auto
  moreover have "cn_requester c \<noteq> cn_addressee c" using Open(6) by (simp add: fresh_pair_def)
  ultimately show ?thesis
    using ok Open(6) unfolding Open(1) links_ok_def by (auto simp: fresh_pair_def)
qed

lemma link_exec_inv: "conn_inv s \<Longrightarrow> conn_inv (link_exec q s)"
  using link_exec_result [of s q] links_ok_move [of s q] unfolding link_result_def conn_inv_links by blast

interpretation bonds: service link_exec conn_inv
  by unfold_locales (rule link_exec_inv)

section \<open>How a link comes about and ends\<close>

text \<open>Where a row of the new table comes from.\<close>

definition same_pair :: "connection \<Rightarrow> connection \<Rightarrow> bool" where
  "same_pair c d \<longleftrightarrow> cn_id d = cn_id c \<and> cn_requester d = cn_requester c \<and> cn_addressee d = cn_addressee c"

lemma link_move_origin:
  assumes mv: "link_move q s cs" and ids: "unique_by cn_id (connections s)" and d: "d \<in> set cs" "conn_open d"
  shows "(\<exists>c \<in> set (connections s). same_pair c d \<and> cn_status d = cn_status c) \<or>
    (cn_status d = CnPending \<and> q = AskLink (cn_requester d) (cn_addressee d) \<and> link_gate s (cn_requester d) (cn_addressee d)) \<or>
    (cn_status d = CnAccepted \<and> agrees q d \<and> link_gate s (cn_addressee d) (cn_requester d) \<and>
      (\<exists>c \<in> set (connections s). same_pair c d \<and> cn_status c = CnPending))"
  using mv
proof cases
  case Stay
  with d show ?thesis by (auto simp: same_pair_def)
next
  case (Accept c t)
  from set_status_cases [OF d(1) [unfolded Accept(1)]] show ?thesis
  proof
    assume "\<exists>x \<in> set (connections s). cn_id x = cn_id c \<and> d = x\<lparr> cn_status := CnAccepted, cn_decided_at := t \<rparr>"
    then have "d = c\<lparr> cn_status := CnAccepted, cn_decided_at := t \<rparr>"
      using unique_byD [OF ids _ Accept(2)] by blast
    with Accept show ?thesis by (auto simp: same_pair_def agrees_def)
  qed (auto simp: same_pair_def)
next
  case (Close c st t)
  from set_status_cases [OF d(1) [unfolded Close(1)]] d(2) Close(4) show ?thesis
    by (auto simp: same_pair_def conn_open_def)
next
  case (Remove a b t)
  from d show ?thesis unfolding Remove(1) by (auto simp: set_update_rows same_pair_def conn_open_def)
next
  case (Cascade u)
  with d show ?thesis by (auto simp: same_pair_def)
next
  case (Reopen c t)
  from set_status_cases [OF d(1) [unfolded Reopen(1)]] show ?thesis
  proof
    assume "\<exists>x \<in> set (connections s). cn_id x = cn_id c \<and> d = x\<lparr> cn_status := CnPending, cn_decided_at := t \<rparr>"
    then have "d = c\<lparr> cn_status := CnPending, cn_decided_at := t \<rparr>"
      using unique_byD [OF ids _ Reopen(3)] by blast
    with Reopen show ?thesis by simp
  qed (auto simp: same_pair_def)
next
  case (Open c)
  with d show ?thesis by (auto simp: same_pair_def)
qed

text \<open>An accepted row stays accepted unless one of the two removes the connection or leaves for good.\<close>

lemma link_move_keeps:
  assumes mv: "link_move q s cs" and ids: "unique_by cn_id (connections s)"
    and c: "c \<in> set (connections s)" "cn_status c = CnAccepted" and q: "\<And>a b. q = Unlink a b \<Longrightarrow> \<not> between a b c"
      "\<And>u. q = EraseAccount u \<Longrightarrow> cn_requester c \<noteq> u \<and> cn_addressee c \<noteq> u"
  shows "c \<in> set cs"
proof -
  have kept: "c \<in> set (set_status (cn_id d) st t (connections s))"
    if "d \<in> set (connections s)" "d \<noteq> c" for d st t
    using unique_byD [OF ids c(1) that(1)] that(2) c(1) by (auto simp: set_status_def set_update_rows)
  show ?thesis
    using mv
  proof cases
    case (Reopen d t)
    then have "d \<noteq> c" using fresh_not_open [OF Reopen(5) Reopen(3)] c(2) by (auto simp: conn_open_def)
    with Reopen kept show ?thesis by blast
  next
    case (Remove a b t)
    with q(1) c show ?thesis by (auto simp: set_update_rows)
  next
    case (Cascade u)
    with q(2) c show ?thesis by simp
  next
    case (Accept d t)
    then have "d \<noteq> c" using c(2) by auto
    with Accept kept show ?thesis by blast
  next
    case (Close d st t)
    then have "d \<noteq> c" using c(2) by auto
    with Close kept show ?thesis by blast
  qed (use c in simp_all)
qed

definition ended_by :: "id \<Rightarrow> id \<Rightarrow> link_request \<Rightarrow> bool" where
  "ended_by a b q \<longleftrightarrow> q \<in> {Unlink a b, Unlink b a, EraseAccount a, EraseAccount b}"

lemma link_lasts_step:
  assumes inv: "conn_inv s" and on: "are_connected s a b" and q: "\<not> ended_by a b q"
  shows "are_connected (link_exec q s) a b"
proof -
  obtain c where c: "c \<in> set (connections s)" "cn_status c = CnAccepted" "between a b c"
    using on by (auto simp: are_connected_def)
  have "c \<in> set (connections (link_exec q s))"
  proof (rule link_move_keeps [OF _ _ c(1,2)])
    show "link_move q s (connections (link_exec q s))" using link_exec_result [OF inv] by (simp add: link_result_def)
    show "unique_by cn_id (connections s)" using inv by (simp add: conn_inv_def)
    show "\<And>x y. q = Unlink x y \<Longrightarrow> \<not> between x y c" using q c(3) by (auto simp: ended_by_def between_def)
    show "\<And>u. q = EraseAccount u \<Longrightarrow> cn_requester c \<noteq> u \<and> cn_addressee c \<noteq> u"
      using q c(3) by (auto simp: ended_by_def between_def)
  qed
  with c show ?thesis by (auto simp: are_connected_def)
qed

text \<open>Who is connected is listed, unless blocked.\<close>

lemma connected_sym: "are_connected s a b = are_connected s b a"
  by (simp add: are_connected_def between_sym)

lemma blocked_ids: "b \<in> blocked_user_ids s a \<longleftrightarrow> is_blocked s a b"
  by (force simp: blocked_user_ids_def is_blocked_def)

lemma listed_iff: "are_connected s a b \<Longrightarrow> b \<in> set (connections_for s a) \<longleftrightarrow> \<not> is_blocked s a b"
  by (force simp: connections_for_def are_connected_def between_def blocked_ids)

text \<open>A row that is open was asked for by its requester, and an accepted one agreed to by its addressee.\<close>

lemma run_snoc: "run_requests f (qs @ [q]) s = f q (run_requests f qs s)"
  by (induction qs arbitrary: s) simp_all

definition asked :: "link_request list \<Rightarrow> db \<Rightarrow> id \<Rightarrow> id \<Rightarrow> bool" where
  "asked qs s a b \<longleftrightarrow> (\<exists>ps ms. qs = ps @ AskLink a b # ms \<and> link_gate (run_requests link_exec ps s) a b)"

definition answered :: "link_request list \<Rightarrow> db \<Rightarrow> connection \<Rightarrow> bool" where
  "answered qs s c \<longleftrightarrow> (\<exists>ps q ms. qs = ps @ q # ms \<and> agrees q c \<and> asked ps s (cn_requester c) (cn_addressee c) \<and>
     link_gate (run_requests link_exec ps s) (cn_addressee c) (cn_requester c))"

lemma asked_snoc: "asked qs s a b \<Longrightarrow> asked (qs @ [q]) s a b"
  unfolding asked_def by fastforce

lemma answered_snoc: "answered qs s c \<Longrightarrow> answered (qs @ [q]) s c"
  unfolding answered_def by fastforce

lemma answered_pair: "answered qs s c \<Longrightarrow> same_pair c d \<Longrightarrow> answered qs s d"
  by (simp add: answered_def same_pair_def agrees_def)

lemma link_history:
  assumes start: "connections s = []"
  shows "\<forall>c \<in> set (connections (run_requests link_exec qs s)).
    (conn_open c \<longrightarrow> asked qs s (cn_requester c) (cn_addressee c)) \<and> (cn_status c = CnAccepted \<longrightarrow> answered qs s c)"
proof (induction qs rule: rev_induct)
  case Nil
  with start show ?case by simp
next
  case (snoc q qs)
  let ?t = "run_requests link_exec qs s"
  have inv: "conn_inv ?t" by (rule bonds.run_inv) (simp add: conn_inv_def start)
  then have ids: "unique_by cn_id (connections ?t)" by (simp add: conn_inv_def)
  have mv: "link_move q ?t (connections (link_exec q ?t))" using link_exec_result [OF inv] by (simp add: link_result_def)
  show ?case
    unfolding run_snoc
  proof (intro ballI conjI impI)
    fix d assume d: "d \<in> set (connections (link_exec q ?t))"
    have from_open: "asked (qs @ [q]) s (cn_requester d) (cn_addressee d)"
      if "c \<in> set (connections ?t)" "same_pair c d" "conn_open c" for c
      using snoc that asked_snoc by (auto simp: same_pair_def)
    show "asked (qs @ [q]) s (cn_requester d) (cn_addressee d)" if "conn_open d"
      using link_move_origin [OF mv ids d that]
    proof (elim disjE bexE conjE)
      assume "q = AskLink (cn_requester d) (cn_addressee d)" "link_gate ?t (cn_requester d) (cn_addressee d)"
      then show ?thesis unfolding asked_def by blast
    qed (use that from_open in \<open>auto simp: conn_open_def\<close>)
    show "answered (qs @ [q]) s d" if a: "cn_status d = CnAccepted"
    proof -
      have "conn_open d" using a by (simp add: conn_open_def)
      from link_move_origin [OF mv ids d this] show ?thesis
      proof (elim disjE bexE conjE)
        fix c assume "c \<in> set (connections ?t)" "same_pair c d" "cn_status d = cn_status c"
        with a snoc have "answered qs s c" by simp
        from answered_snoc [OF answered_pair [OF this \<open>same_pair c d\<close>]] show ?thesis .
      next
        fix c assume "agrees q d" "link_gate ?t (cn_addressee d) (cn_requester d)"
          and c: "c \<in> set (connections ?t)" "same_pair c d" "cn_status c = CnPending"
        moreover have "asked qs s (cn_requester d) (cn_addressee d)"
          using c snoc by (auto simp: same_pair_def conn_open_def)
        ultimately show ?thesis unfolding answered_def by blast
      qed (use a in simp)
    qed
  qed
qed

section \<open>Sample rows\<close>

definition link_pal :: user where
  "link_pal = sample_parent\<lparr> u_id := 7, u_public_id := ''q'', u_username := ''pal'' \<rparr>"

definition link_db :: db where
  "link_db = (empty_db toy_lib)\<lparr> seq := 100, users := [sample_parent, link_pal],
     memberships := [new_membership 83 80 1 MOwner SMember (Some 0), new_membership 84 80 7 MMember SMember (Some 0)] \<rparr>"

lemmas link_sample_defs = link_db_def link_pal_def sample_parent_def empty_db_def toy_lib_def default_settings_def

lemma link_db_tables:
  "memberships link_db = [new_membership 83 80 1 MOwner SMember (Some 0), new_membership 84 80 7 MMember SMember (Some 0)]"
  "users link_db = [sample_parent, link_pal]" "connections link_db = []" "blocks link_db = []" "assurances link_db = []"
  "seq link_db = 100" "clock link_db = 0" "cache link_db = Map.empty"
  "st_connection_cohorts (conf link_db) = [Adult, Teen, Child]" "st_connection_limit (conf link_db) = 20"
  by (simp_all add: link_sample_defs)

lemma link_db_gate: "can_connect link_db sample_parent link_pal" "can_connect link_db link_pal sample_parent"
proof -
  have "can_participate link_db sample_parent" "can_participate link_db link_pal"
    by (simp_all add: can_participate_def is_assurance_current_def latest_assurance_def requires_parental_consent_def
        link_db_tables link_pal_def sample_parent_def)
  moreover have "shares_activity link_db 1 7" "shares_activity link_db 7 1"
    by (simp_all add: shares_activity_def peer_activity_ids_def link_db_tables new_membership_def image_iff conj_disj_distribR
        ex_disj_distrib del: One_nat_def)
  moreover have "\<not> is_blocked link_db i j" for i j by (simp add: is_blocked_def link_db_tables)
  moreover have "Adult \<in> allowed_cohorts link_db" by (simp add: allowed_cohorts_def link_db_tables)
  ultimately show "can_connect link_db sample_parent link_pal" "can_connect link_db link_pal sample_parent"
    by (simp_all add: can_connect_def link_pal_def sample_parent_def del: One_nat_def)
qed

lemma link_db_rows [simp]: "user_row link_db 1 = Some sample_parent" "user_row link_db 7 = Some link_pal"
  "connections link_db = []"
  by (simp_all add: user_row_def link_sample_defs)

lemma link_db_inv: "conn_inv link_db"
  by (simp add: conn_inv_def)

definition linked_row :: "conn_status \<Rightarrow> time option \<Rightarrow> connection" where
  "linked_row st t = \<lparr> cn_id = 100, cn_requester = 1, cn_addressee = 7, cn_status = st, cn_created_at = 0, cn_decided_at = t \<rparr>"

lemma asked_rows:
  "connections (link_exec (AskLink 1 7) link_db) = [linked_row CnPending None]"
proof -
  let ?al = "allow_action 1 ''connection_request'' (st_connection_limit (conf link_db)) (st_connection_window (conf link_db)) link_db"
  have "fst ?al" by (simp add: allow_action_def cache_live_def link_db_tables del: One_nat_def)
  moreover have "u_id sample_parent = 1" "u_id link_pal = 7" by (simp_all add: sample_parent_def link_pal_def)
  moreover obtain t1 where "?al = (fst ?al, t1)" by (cases ?al) simp
  ultimately have "link_exec (AskLink 1 7) link_db = snd (send_request None sample_parent link_pal (snd ?al))"
    using link_db_gate by (simp add: with_member_def request_connection_def are_connected_def split_beta del: One_nat_def)
  then show ?thesis
    by (simp add: send_request_frame update_or_create_def linked_row_def link_db_tables sample_parent_def link_pal_def
        del: One_nat_def)
qed

lemma participate_frame: "can_participate (s\<lparr> connections := cs, seq := n \<rparr>) u = can_participate s u"
proof -
  have "latest_assurance (s\<lparr> connections := cs, seq := n \<rparr>) i = latest_assurance s i" for i
    by (simp add: latest_assurance_def)
  then have "is_assurance_current (s\<lparr> connections := cs, seq := n \<rparr>) u = is_assurance_current s u"
    by (simp add: is_assurance_current_def split: option.split)
  moreover have "has_valid_parental_consent (s\<lparr> connections := cs, seq := n \<rparr>) u = has_valid_parental_consent s u"
    by (simp add: has_valid_parental_consent_def)
  ultimately show ?thesis by (simp add: can_participate_def)
qed

lemma can_connect_frame [simp]: "can_connect (s\<lparr> connections := cs, seq := n \<rparr>) u v = can_connect s u v"
proof -
  have "shares_activity (s\<lparr> connections := cs, seq := n \<rparr>) i j = shares_activity s i j" for i j
    by (simp add: shares_activity_def peer_activity_ids_def)
  moreover have "is_blocked (s\<lparr> connections := cs, seq := n \<rparr>) i j = is_blocked s i j" for i j
    by (simp add: is_blocked_def)
  ultimately show ?thesis
    by (simp add: can_connect_def participate_frame allowed_cohorts_def)
qed

text \<open>The parent asks, the rest of the application is as at first, and the pal agrees.\<close>

definition link_days :: "link_request list" where
  "link_days = [AskLink 1 7, Elsewhere (\<lambda>_. link_db), AnswerLink 7 100 True]"

lemma link_days_rows: "connections (run_requests link_exec link_days link_db) = [linked_row CnAccepted (Some 0)]"
proof -
  let ?n = "max (seq (link_exec (AskLink 1 7) link_db)) (seq link_db)"
  have s2: "link_exec (Elsewhere (\<lambda>_. link_db)) (link_exec (AskLink 1 7) link_db) =
      link_db\<lparr> connections := [linked_row CnPending None], seq := ?n \<rparr>"
    by (simp only: link_exec.simps(11) asked_rows)
  have u: "u_id link_pal = 7" "u_id sample_parent = 1" by (simp_all add: link_pal_def sample_parent_def)
  show ?thesis
    unfolding link_days_def run_requests.simps s2
    by (simp add: with_member_def with_link_def connection_row_def user_row_def link_db_tables linked_row_def u
        link_db_gate respond_to_connection_def set_status_def del: One_nat_def)
qed

section \<open>Properties\<close>

text \<open>
  Along every run of connection requests, with anything happening to the rest of the application
  in between, at most one request or connection is open between two people, in either direction.
\<close>

theorem one_open_link:
  assumes "conn_inv s"
  shows "distinct (map (\<lambda>c. {cn_requester c, cn_addressee c}) (filter conn_open (connections (run_requests link_exec qs s))))"
proof -
  let ?cs = "connections (run_requests link_exec qs s)"
  have "conn_inv (run_requests link_exec qs s)" by (rule bonds.run_inv [OF assms])
  then have ok: "links_ok ?cs" by (simp add: conn_inv_links)
  then have "distinct ?cs" using distinct_map by (auto simp: links_ok_def unique_by_def)
  moreover have "inj_on (\<lambda>c. {cn_requester c, cn_addressee c}) (set (filter conn_open ?cs))"
  proof (rule inj_onI)
    fix c d assume "c \<in> set (filter conn_open ?cs)" "d \<in> set (filter conn_open ?cs)"
      "{cn_requester c, cn_addressee c} = {cn_requester d, cn_addressee d}"
    with ok show "c = d" by (auto simp: links_ok_def between_def doubleton_eq_iff)
  qed
  ultimately show ?thesis by (simp add: distinct_map)
qed

theorem one_open_link_witness:
  "distinct (map (\<lambda>c. {cn_requester c, cn_addressee c}) (filter conn_open (connections (run_requests link_exec link_days link_db)))) \<and>
   connections (run_requests link_exec link_days link_db) = [linked_row CnAccepted (Some 0)]"
  using one_open_link [OF link_db_inv] link_days_rows by simp

text \<open>
  C29: a connection takes two: when no connection existed at the start, an accepted one was asked for
  by its requester and later agreed to by its addressee (by accepting, or by asking back), and at both
  moments the full gate held between the two: one enabled cohort, both allowed to take part, no
  block, and an activity in which both are peers.
\<close>

theorem link_takes_both:
  assumes "connections s = []" and "c \<in> set (connections (run_requests link_exec qs s))" and "cn_status c = CnAccepted"
  shows "\<exists>ps ms r rest. qs = ps @ AskLink (cn_requester c) (cn_addressee c) # ms @ r # rest \<and>
    (r = AskLink (cn_addressee c) (cn_requester c) \<or> r = AnswerLink (cn_addressee c) (cn_id c) True) \<and>
    link_gate (run_requests link_exec ps s) (cn_requester c) (cn_addressee c) \<and>
    link_gate (run_requests link_exec (ps @ AskLink (cn_requester c) (cn_addressee c) # ms) s) (cn_addressee c) (cn_requester c)"
proof -
  have "answered qs s c" using link_history [OF assms(1)] assms(2,3) by blast
  then obtain us r rest where r: "qs = us @ r # rest" "agrees r c" "asked us s (cn_requester c) (cn_addressee c)"
    "link_gate (run_requests link_exec us s) (cn_addressee c) (cn_requester c)" by (auto simp: answered_def)
  then obtain ps ms where "us = ps @ AskLink (cn_requester c) (cn_addressee c) # ms"
    "link_gate (run_requests link_exec ps s) (cn_requester c) (cn_addressee c)" by (auto simp: asked_def)
  with r show ?thesis by (auto simp: agrees_def)
qed

theorem link_takes_both_witness:
  "\<exists>ps ms r rest. link_days = ps @ AskLink 1 7 # ms @ r # rest \<and> (r = AskLink 7 1 \<or> r = AnswerLink 7 100 True) \<and>
    link_gate (run_requests link_exec ps link_db) 1 7 \<and> link_gate (run_requests link_exec (ps @ AskLink 1 7 # ms) link_db) 7 1"
  using link_takes_both [of link_db "linked_row CnAccepted (Some 0)" link_days] link_days_rows
  by (simp add: linked_row_def del: One_nat_def)

text \<open>
  C30: no block, age proof, lapse or revocation of consent, suspension or ban ends a connection: along
  every run of the requests of connections, blocking, age proofs, guardianship and moderation in which
  neither of the two removes the other and neither account is erased, the two stay connected, even
  when their cohorts are no longer the same, and each is listed to the other exactly when no block
  stands between them.
\<close>

theorem link_outlives_all_else:
  assumes "conn_inv s" and "are_connected s a b" and "t = run_requests link_exec qs s"
    and "\<forall>q \<in> set qs. q \<notin> {Unlink a b, Unlink b a, EraseAccount a, EraseAccount b} \<and> q \<notin> range Elsewhere"
  shows "are_connected t a b \<and>
    (b \<in> set (connections_for t a) \<longleftrightarrow> \<not> is_blocked t a b) \<and> (a \<in> set (connections_for t b) \<longleftrightarrow> \<not> is_blocked t a b)"
proof -
  have on: "are_connected t a b"
    using assms
  proof (induction qs arbitrary: s)
    case (Cons q qs)
    then have "conn_inv (link_exec q s)" "are_connected (link_exec q s) a b"
      using link_exec_inv link_lasts_step by (auto simp: ended_by_def)
    with Cons show ?case by simp
  qed simp
  then show ?thesis by (simp add: listed_iff connected_sym is_blocked_sym [of t b])
qed

definition linked_db :: db where
  "linked_db = link_db\<lparr> connections := [linked_row CnAccepted (Some 0)], seq := 101 \<rparr>"

definition teen_proof :: assurance_result where
  "teen_proof = \<lparr> ar_provider = ''eudi'', ar_method = ''openid4vp'', ar_age_band = Age16_17,
     ar_verified = True, ar_expires_at = None, ar_raw = [], ar_holder_sub = None \<rparr>"

definition apart :: "link_request list" where
  "apart = [AgeProof 7 teen_proof, BlockPerson 1 7]"

theorem link_outlives_all_else_witness:
  "let t = run_requests link_exec apart linked_db in
    are_connected t 1 7 \<and> map u_cohort (users t) = [Adult, Teen] \<and> is_blocked t 1 7 \<and> 7 \<notin> set (connections_for t 1)"
proof -
  let ?t = "run_requests link_exec apart linked_db"
  have ok: "conn_inv linked_db" "are_connected linked_db 1 7"
    by (simp_all add: conn_inv_def are_connected_def between_def linked_db_def linked_row_def unique_by_def del: One_nat_def)
  have users: "users (snd (block_user a b s)) = users s" for a b s by (simp add: block_user_def)
  have "map u_cohort (users (snd (apply_assurance link_pal teen_proof linked_db))) = [Adult, Teen]"
    by (simp add: apply_assurance_eq evicted_def proof_saved_def recorded_cohort teen_proof_def Let_def linked_db_def
        link_db_tables link_pal_def sample_parent_def)
  moreover have "user_row linked_db 7 = Some link_pal"
    by (simp add: user_row_def linked_db_def link_db_tables link_pal_def sample_parent_def)
  ultimately have "map u_cohort (users ?t) = [Adult, Teen]" by (simp add: apart_def with_member_def users)
  moreover have "is_blocked ?t 1 7"
    by (simp add: apart_def block_user_blocks del: One_nat_def)
  ultimately show ?thesis using link_outlives_all_else [OF ok refl, of apart]
    by (auto simp: apart_def Let_def)
qed

end
