(* ===== verification/Deferred_Tasks.thy ===== *)
theory Deferred_Tasks
  imports Prelude
begin

text \<open>
  apps/ops/tasks.py and apps/ops/models.py: work recorded with the business write that caused it
  and run later, with bounded retries. What a handler does is an argument: from a payload and a
  state of the application it returns an error, with its writes rolled back, or the new state and the
  tasks it enqueues. The registry maps a kind to its handler. A worker that is killed while it runs a
  task leaves no trace: its transaction is rolled back.
\<close>

section \<open>Tasks\<close>

datatype task_status = TPending | TDone | TFailed

record 'p task =
  tk_id :: nat
  tk_kind :: string
  tk_payload :: 'p
  tk_status :: task_status
  tk_attempts :: nat
  tk_max_attempts :: nat
  tk_available_at :: time
  tk_started_at :: "time option"
  tk_finished_at :: "time option"
  tk_last_error :: string
  tk_dedup_key :: string

record task_settings =
  ts_max_attempts :: nat
  ts_backoff_base :: nat
  ts_max_backoff :: nat
  ts_batch :: nat

definition default_task_settings :: task_settings where
  "default_task_settings = \<lparr> ts_max_attempts = 5, ts_backoff_base = 30, ts_max_backoff = 3600, ts_batch = 100 \<rparr>"

text \<open>A task to enqueue: kind, payload, delay, time, number of attempts and deduplication key.\<close>

datatype 'p order = Order string 'p "time option" "time option" "nat option" string

type_synonym ('p, 'a) handler = "'p \<Rightarrow> 'a \<Rightarrow> string + 'a \<times> 'p order list"

record ('p, 'a) worker =
  wk_tasks :: "'p task list"
  wk_next :: nat
  wk_clock :: time
  wk_conf :: task_settings
  wk_registry :: "string \<rightharpoonup> ('p, 'a) handler"
  wk_app :: 'a

definition pending_twin :: "('p, 'a) worker \<Rightarrow> string \<Rightarrow> string \<Rightarrow> 'p task option" where
  "pending_twin s kind key =
     List.find (\<lambda>t. tk_kind t = kind \<and> tk_dedup_key t = key \<and> tk_status t = TPending) (wk_tasks s)"

text \<open>A kind has one handler; the same handler may be registered again.\<close>

definition register :: "('h \<Rightarrow> 'h \<Rightarrow> bool) \<Rightarrow> string \<Rightarrow> 'h \<Rightarrow> (string \<rightharpoonup> 'h) \<Rightarrow> (string \<rightharpoonup> 'h) option" where
  "register same kind h reg =
     (case reg kind of
        Some h' \<Rightarrow> if same h' h then Some (reg(kind \<mapsto> h)) else None
      | None \<Rightarrow> Some (reg(kind \<mapsto> h)))"

section \<open>Enqueueing\<close>

definition no_handler :: "string \<Rightarrow> string" where
  "no_handler kind = ''no handler registered for deferred-task kind '' @ [CHR 0x27] @ kind @ [CHR 0x27]"

text \<open>A time to run at, or a delay from now, or now; the result is the id of the row.\<close>

definition new_task :: "nat \<Rightarrow> string \<Rightarrow> 'p \<Rightarrow> nat \<Rightarrow> time \<Rightarrow> string \<Rightarrow> 'p task" where
  "new_task i kind payload max_attempts available_at key =
     \<lparr> tk_id = i, tk_kind = kind, tk_payload = payload, tk_status = TPending, tk_attempts = 0,
       tk_max_attempts = max_attempts, tk_available_at = available_at, tk_started_at = None, tk_finished_at = None,
       tk_last_error = [], tk_dedup_key = key \<rparr>"

definition enqueue :: "string \<Rightarrow> 'p \<Rightarrow> time option \<Rightarrow> time option \<Rightarrow> nat option \<Rightarrow> string \<Rightarrow> ('p, 'a) worker \<Rightarrow>
    (string, nat, ('p, 'a) worker) outcome" where
  "enqueue kind payload delay available_at max_attempts key s =
     (if wk_registry s kind = None
      then raised (no_handler kind) s
      else let attempts = (case max_attempts of None \<Rightarrow> ts_max_attempts (wk_conf s) | Some n \<Rightarrow> n);
               run_at = (case available_at of
                       Some t \<Rightarrow> t
                     | None \<Rightarrow> (case delay of Some d \<Rightarrow> wk_clock s + d | None \<Rightarrow> wk_clock s))
        in case (if key = [] then None else pending_twin s kind key) of
             Some t \<Rightarrow> returned (tk_id t) s
           | None \<Rightarrow> returned (wk_next s) (s\<lparr> wk_next := Suc (wk_next s),
               wk_tasks := wk_tasks s @ [new_task (wk_next s) kind payload attempts run_at key] \<rparr>))"

fun place_orders :: "'p order list \<Rightarrow> ('p, 'a) worker \<Rightarrow> (string, unit, ('p, 'a) worker) outcome" where
  "place_orders [] s = returned () s"
| "place_orders (Order kind payload delay available_at max_attempts key # os) s =
     (case enqueue kind payload delay available_at max_attempts key s of
        (Inl e, t) \<Rightarrow> raised e t
      | (Inr _, t) \<Rightarrow> place_orders os t)"

section \<open>Running\<close>

definition backoff_seconds :: "task_settings \<Rightarrow> nat \<Rightarrow> nat" where
  "backoff_seconds c attempts = min (ts_backoff_base c * 2 ^ (attempts - 1)) (ts_max_backoff c)"

definition format_error :: "string \<Rightarrow> string" where
  "format_error e = take 2000 e"

definition task_due :: "time \<Rightarrow> 'p task \<Rightarrow> bool" where
  "task_due now t \<longleftrightarrow> tk_status t = TPending \<and> tk_available_at t \<le> now"

text \<open>The oldest due task, by the time it became available and its id.\<close>

definition next_due :: "('p, 'a) worker \<Rightarrow> 'p task option" where
  "next_due s = (case sort_key (\<lambda>t. (tk_available_at t, tk_id t)) (filter (task_due (wk_clock s)) (wk_tasks s)) of
     [] \<Rightarrow> None | t # _ \<Rightarrow> Some t)"

definition save_task :: "'p task \<Rightarrow> ('p, 'a) worker \<Rightarrow> ('p, 'a) worker" where
  "save_task t s = s\<lparr> wk_tasks := update_rows (\<lambda>x. tk_id x = tk_id t) (\<lambda>_. t) (wk_tasks s) \<rparr>"

datatype run_result = RunDone | RunRetried | RunFailed

definition record_task_failure :: "'p task \<Rightarrow> string \<Rightarrow> ('p, 'a) worker \<Rightarrow> run_result \<times> ('p, 'a) worker" where
  "record_task_failure t e s =
     (let t1 = t\<lparr> tk_last_error := format_error e \<rparr> in
      if tk_max_attempts t1 \<le> tk_attempts t1
      then (RunFailed, save_task (t1\<lparr> tk_status := TFailed, tk_finished_at := Some (wk_clock s) \<rparr>) s)
      else (RunRetried, save_task (t1\<lparr> tk_available_at :=
              wk_clock s + seconds (int (backoff_seconds (wk_conf s) (tk_attempts t1))) \<rparr>) s))"

definition claimed :: "('p, 'a) worker \<Rightarrow> 'p task \<Rightarrow> 'p task" where
  "claimed s t = t\<lparr> tk_attempts := Suc (tk_attempts t),
     tk_started_at := (case tk_started_at t of None \<Rightarrow> Some (wk_clock s) | x \<Rightarrow> x) \<rparr>"

text \<open>
  The row of a task stays as it was until its handler has returned, so that what the handler
  enqueues meets it as pending; what a handler that raises did is rolled back.
\<close>

definition run_one :: "('p, 'a) worker \<Rightarrow> (run_result \<times> ('p, 'a) worker) option" where
  "run_one s =
     (case next_due s of
        None \<Rightarrow> None
      | Some t0 \<Rightarrow>
          let t = claimed s t0 in
          Some (case wk_registry s (tk_kind t) of
                  None \<Rightarrow> record_task_failure t (''LookupError: '' @ no_handler (tk_kind t)) s
                | Some h \<Rightarrow>
                    (case h (tk_payload t) (wk_app s) of
                       Inl e \<Rightarrow> record_task_failure t e s
                     | Inr (a, os) \<Rightarrow>
                         (case place_orders os s of
                            (Inl e, _) \<Rightarrow> record_task_failure t (''ValueError: '' @ e) s
                          | (Inr _, w) \<Rightarrow> (RunDone, (save_task (t\<lparr> tk_status := TDone,
                                tk_finished_at := Some (wk_clock s), tk_last_error := [] \<rparr>) w)\<lparr> wk_app := a \<rparr>)))))"

record run_summary =
  rs_claimed :: nat
  rs_done :: nat
  rs_retried :: nat
  rs_failed :: nat

definition no_runs :: run_summary where
  "no_runs = \<lparr> rs_claimed = 0, rs_done = 0, rs_retried = 0, rs_failed = 0 \<rparr>"

fun count_run :: "run_result \<Rightarrow> run_summary \<Rightarrow> run_summary" where
  "count_run RunDone n = n\<lparr> rs_claimed := Suc (rs_claimed n), rs_done := Suc (rs_done n) \<rparr>"
| "count_run RunRetried n = n\<lparr> rs_claimed := Suc (rs_claimed n), rs_retried := Suc (rs_retried n) \<rparr>"
| "count_run RunFailed n = n\<lparr> rs_claimed := Suc (rs_claimed n), rs_failed := Suc (rs_failed n) \<rparr>"

fun run_up_to :: "nat \<Rightarrow> run_summary \<Rightarrow> ('p, 'a) worker \<Rightarrow> run_summary \<times> ('p, 'a) worker" where
  "run_up_to 0 n s = (n, s)"
| "run_up_to (Suc k) n s =
     (case run_one s of None \<Rightarrow> (n, s) | Some (r, t) \<Rightarrow> run_up_to k (count_run r n) t)"

definition run_pending_tasks :: "nat option \<Rightarrow> ('p, 'a) worker \<Rightarrow> run_summary \<times> ('p, 'a) worker" where
  "run_pending_tasks limit s =
     run_up_to (case limit of None \<Rightarrow> ts_batch (wk_conf s) | Some n \<Rightarrow> n) no_runs s"

end
