(* ===== verification/Deferred_Properties.thy ===== *)
theory Deferred_Properties
  imports Deferred_Tasks
begin

text \<open>
  The laws of deferred tasks: the invariant of the table under every sequence of enqueues and drains,
  finished tasks stay as they are, and a worker that runs often enough finishes every task.
\<close>

section \<open>Claiming\<close>

lemma next_due_Some:
  assumes "next_due s = Some t"
  shows "t \<in> set (wk_tasks s)" "task_due (wk_clock s) t"
    "u \<in> set (wk_tasks s) \<Longrightarrow> task_due (wk_clock s) u \<Longrightarrow> (tk_available_at t, tk_id t) \<le> (tk_available_at u, tk_id u)"
proof -
  let ?k = "\<lambda>t. (tk_available_at t, tk_id t)" and ?ts = "filter (task_due (wk_clock s)) (wk_tasks s)"
  obtain rest where st: "sort_key ?k ?ts = t # rest"
    using assms by (auto simp: next_due_def split: list.splits)
  then have "set ?ts = insert t (set rest)" by (metis list.simps(15) set_sort)
  moreover have "sorted (map ?k (t # rest))" using sorted_sort_key [of ?k ?ts] st by simp
  ultimately have all: "\<And>u. u \<in> set ?ts \<Longrightarrow> ?k t \<le> ?k u" and mem: "t \<in> set ?ts" by auto
  from mem show "t \<in> set (wk_tasks s)" "task_due (wk_clock s) t" by auto
  show "u \<in> set (wk_tasks s) \<Longrightarrow> task_due (wk_clock s) u \<Longrightarrow> (tk_available_at t, tk_id t) \<le> (tk_available_at u, tk_id u)"
    using all [of u] by simp
qed

lemma next_due_None: "next_due s = None \<longleftrightarrow> (\<forall>t \<in> set (wk_tasks s). \<not> task_due (wk_clock s) t)"
proof -
  have "next_due s = None \<longleftrightarrow> filter (task_due (wk_clock s)) (wk_tasks s) = []"
    by (auto simp: next_due_def split: list.split) (metis set_empty set_sort)+
  then show ?thesis by (auto simp: filter_empty_conv)
qed

text \<open>One run replaces the row it claimed and leaves the others alone.\<close>

definition run_step :: "('p, 'a) worker \<Rightarrow> 'p task \<Rightarrow> 'p task \<Rightarrow> run_result \<Rightarrow> bool" where
  "run_step s t u r \<longleftrightarrow> tk_id u = tk_id t \<and> tk_kind u = tk_kind t \<and> tk_dedup_key u = tk_dedup_key t \<and>
     tk_payload u = tk_payload t \<and>
     tk_max_attempts u = tk_max_attempts t \<and> tk_attempts u = Suc (tk_attempts t) \<and> tk_started_at u \<noteq> None \<and>
     (case r of
        RunDone \<Rightarrow> tk_status u = TDone \<and> tk_finished_at u = Some (wk_clock s)
      | RunFailed \<Rightarrow> tk_status u = TFailed \<and> tk_finished_at u = Some (wk_clock s) \<and> tk_max_attempts t \<le> Suc (tk_attempts t)
      | RunRetried \<Rightarrow> tk_status u = tk_status t \<and> tk_finished_at u = tk_finished_at t \<and>
          Suc (tk_attempts t) < tk_max_attempts t \<and>
          tk_available_at u = wk_clock s + seconds (int (backoff_seconds (wk_conf s) (tk_attempts u))))"

lemma record_task_failure_step:
  assumes "record_task_failure (claimed s t) e s = (r, w)"
  shows "\<exists>u. run_step s t u r \<and> w = save_task u s"
proof -
  let ?t = "(claimed s t)\<lparr> tk_last_error := format_error e \<rparr>"
  let ?f = "?t\<lparr> tk_status := TFailed, tk_finished_at := Some (wk_clock s) \<rparr>"
  let ?p = "?t\<lparr> tk_available_at := wk_clock s + seconds (int (backoff_seconds (wk_conf s) (tk_attempts ?t))) \<rparr>"
  have start: "tk_started_at (claimed s t) \<noteq> None" by (simp add: claimed_def split: option.split)
  show ?thesis
  proof (cases "tk_max_attempts t \<le> Suc (tk_attempts t)")
    case True
    then have "r = RunFailed \<and> w = save_task ?f s" using assms by (auto simp: record_task_failure_def Let_def claimed_def)
    moreover have "run_step s t ?f RunFailed" using start True by (simp add: run_step_def claimed_def)
    ultimately show ?thesis by blast
  next
    case False
    then have "r = RunRetried \<and> w = save_task ?p s" using assms by (auto simp: record_task_failure_def Let_def claimed_def)
    moreover have "run_step s t ?p RunRetried" using start False by (simp add: run_step_def claimed_def)
    ultimately show ?thesis by blast
  qed
qed

text \<open>What a handler enqueues is appended to the table.\<close>

lemma enqueue_appends:
  assumes "enqueue kind payload delay at_time m key s = (r, v)"
  shows "(\<exists>ts. wk_tasks v = wk_tasks s @ ts) \<and> wk_clock v = wk_clock s \<and> wk_conf v = wk_conf s \<and> wk_registry v = wk_registry s"
  using assms by (auto simp: enqueue_def Let_def split: if_splits option.splits)

lemma orders_append:
  "place_orders os s = (r, v) \<Longrightarrow>
   (\<exists>ts. wk_tasks v = wk_tasks s @ ts) \<and> wk_clock v = wk_clock s \<and> wk_conf v = wk_conf s \<and> wk_registry v = wk_registry s"
proof (induction os s rule: place_orders.induct)
  case (2 kind payload delay at_time m key os s)
  obtain x t where e: "enqueue kind payload delay at_time m key s = (x, t)" by fastforce
  note one = enqueue_appends [OF e]
  show ?case
  proof (cases x)
    case (Inl y)
    with 2 e one show ?thesis by auto
  next
    case (Inr y)
    have "(\<exists>ts. wk_tasks v = wk_tasks t @ ts) \<and> wk_clock v = wk_clock t \<and> wk_conf v = wk_conf t \<and> wk_registry v = wk_registry t"
      by (rule "2.IH" [OF e [symmetric] Inr]) (use 2(2) e Inr in simp)
    with one show ?thesis by auto
  qed
qed simp

lemma orders_keep: "place_orders os s = (r, v) \<Longrightarrow> set (wk_tasks s) \<subseteq> set (wk_tasks v)"
  using orders_append [of os s r v] by fastforce

lemma run_one_step:
  assumes "run_one s = Some (r, w)"
  obtains t u a os v where "next_due s = Some t" "place_orders os s = (Inr (), v)" "run_step s t u r"
    "w = (save_task u v)\<lparr> wk_app := a \<rparr>"
    "os = [] \<or> (\<exists>h b. wk_registry s (tk_kind t) = Some h \<and> h (tk_payload t) (wk_app s) = Inr (b, os))"
proof -
  obtain t where t: "next_due s = Some t" using assms by (auto simp: run_one_def split: option.splits)
  have kind: "tk_kind (claimed s t) = tk_kind t" "tk_payload (claimed s t) = tk_payload t" by (simp_all add: claimed_def)
  note result = that
  have failed: thesis if f: "record_task_failure (claimed s t) e s = (r, w)" for e
  proof -
    from record_task_failure_step [OF f] obtain u where u: "run_step s t u r" "w = save_task u s" by blast
    show thesis
      by (rule result [of t "[]" s u "wk_app s"]) (use t u in \<open>simp_all add: save_task_def\<close>)
  qed
  show thesis
  proof (cases "wk_registry s (tk_kind t)")
    case None
    then have "record_task_failure (claimed s t) (''LookupError: '' @ no_handler (tk_kind t)) s = (r, w)"
      using assms t kind by (simp add: run_one_def Let_def)
    then show thesis by (rule failed)
  next
    case (Some h)
    show thesis
    proof (cases "h (tk_payload t) (wk_app s)")
      case (Inl e)
      then have "record_task_failure (claimed s t) e s = (r, w)" using assms t Some kind by (simp add: run_one_def Let_def)
      then show thesis by (rule failed)
    next
      case (Inr p)
      obtain a os where p: "p = (a, os)" by (cases p)
      obtain x v where v: "place_orders os s = (x, v)" by fastforce
      show thesis
      proof (cases x)
        case (Inl e)
        then have "record_task_failure (claimed s t) (''ValueError: '' @ e) s = (r, w)"
          using assms t Some Inr p v kind by (simp add: run_one_def Let_def)
        then show thesis by (rule failed)
      next
        case (Inr y)
        note ok = this
        let ?u = "(claimed s t)\<lparr> tk_status := TDone, tk_finished_at := Some (wk_clock s), tk_last_error := [] \<rparr>"
        have "run_step s t ?u RunDone"
          by (auto simp: run_step_def claimed_def split: option.splits)
        moreover have "r = RunDone" "w = (save_task ?u v)\<lparr> wk_app := a \<rparr>"
          using assms t Some \<open>h (tk_payload t) (wk_app s) = Inr p\<close> p v ok kind by (simp_all add: run_one_def Let_def)
        ultimately show thesis using result [of t os v ?u a] t v ok Some \<open>h (tk_payload t) (wk_app s) = Inr p\<close> p by auto
      qed
    qed
  qed
qed

section \<open>The invariant\<close>

definition task_ok :: "'p task \<Rightarrow> bool" where
  "task_ok t \<longleftrightarrow> (case tk_status t of
       TPending \<Rightarrow> (tk_attempts t = 0 \<or> tk_attempts t < tk_max_attempts t) \<and> tk_finished_at t = None
     | TDone \<Rightarrow> 0 < tk_attempts t \<and> tk_attempts t \<le> max 1 (tk_max_attempts t) \<and> tk_finished_at t \<noteq> None
     | TFailed \<Rightarrow> tk_attempts t = max 1 (tk_max_attempts t) \<and> tk_finished_at t \<noteq> None)"

definition same_slot :: "'p task \<Rightarrow> 'p task \<Rightarrow> bool" where
  "same_slot t u \<longleftrightarrow> tk_status t = TPending \<and> tk_status u = TPending \<and> tk_kind t = tk_kind u \<and>
     tk_dedup_key t = tk_dedup_key u \<and> tk_dedup_key t \<noteq> []"

definition tasks_inv :: "('p, 'a) worker \<Rightarrow> bool" where
  "tasks_inv s \<longleftrightarrow> unique_by tk_id (wk_tasks s) \<and>
     (\<forall>t \<in> set (wk_tasks s). tk_id t < wk_next s \<and> task_ok t) \<and>
     (\<forall>t \<in> set (wk_tasks s). \<forall>u \<in> set (wk_tasks s). same_slot t u \<longrightarrow> t = u)"

lemma saved_task_rows:
  assumes "unique_by tk_id ts" "t \<in> set ts" "tk_id u = tk_id t"
  shows "set (update_rows (\<lambda>x. tk_id x = tk_id u) (\<lambda>_. u) ts) = insert u (set ts - {t})"
proof -
  have "x = t" if "x \<in> set ts" "tk_id x = tk_id u" for x
    using unique_byD [OF assms(1) that(1) assms(2)] that(2) assms(3) by simp
  with assms(2,3) show ?thesis by (auto simp: set_update_rows)
qed

lemma run_step_ok: "run_step s t u r \<Longrightarrow> task_ok t \<Longrightarrow> tk_status t = TPending \<Longrightarrow> task_ok u"
  by (cases r) (auto simp: run_step_def task_ok_def)

lemma run_step_slot: "run_step s t u r \<Longrightarrow> tk_status t = TPending \<Longrightarrow> same_slot u x \<Longrightarrow> same_slot t x"
  by (auto simp: run_step_def same_slot_def)

lemma same_slot_sym: "same_slot t u \<Longrightarrow> same_slot u t"
  by (auto simp: same_slot_def)

lemma save_task_rows [simp]:
  "wk_tasks ((save_task u s)\<lparr> wk_app := a \<rparr>) = update_rows (\<lambda>x. tk_id x = tk_id u) (\<lambda>_. u) (wk_tasks s)"
  "wk_next ((save_task u s)\<lparr> wk_app := a \<rparr>) = wk_next s" "wk_clock ((save_task u s)\<lparr> wk_app := a \<rparr>) = wk_clock s"
  "wk_conf ((save_task u s)\<lparr> wk_app := a \<rparr>) = wk_conf s"
  by (simp_all add: save_task_def)

lemma enqueue_inv:
  assumes inv: "tasks_inv s"
  shows "tasks_inv (snd (enqueue kind payload delay at_time m key s))"
proof (cases "wk_registry s kind = None \<or> (key \<noteq> [] \<and> pending_twin s kind key \<noteq> None)")
  case True
  then have "snd (enqueue kind payload delay at_time m key s) = s" by (auto simp: enqueue_def Let_def)
  with inv show ?thesis by simp
next
  case False
  let ?t = "new_task (wk_next s) kind payload (case m of None \<Rightarrow> ts_max_attempts (wk_conf s) | Some n \<Rightarrow> n)
      (case at_time of Some t \<Rightarrow> t | None \<Rightarrow> (case delay of Some d \<Rightarrow> wk_clock s + d | None \<Rightarrow> wk_clock s)) key"
  obtain t where teq: "t = ?t" by blast
  then have t: "tk_id t = wk_next s" "tk_kind t = kind" "tk_dedup_key t = key" "tk_status t = TPending"
      "tk_attempts t = 0" "tk_finished_at t = None" by (simp_all add: new_task_def)
  have w: "snd (enqueue kind payload delay at_time m key s) = s\<lparr> wk_next := Suc (wk_next s), wk_tasks := wk_tasks s @ [t] \<rparr>"
    unfolding teq using False by (auto simp: enqueue_def Let_def)
  have alone: "\<not> same_slot x t" if x: "x \<in> set (wk_tasks s)" for x
  proof
    assume "same_slot x t"
    then have "key \<noteq> []" "tk_kind x = kind \<and> tk_dedup_key x = key \<and> tk_status x = TPending"
      using t by (auto simp: same_slot_def)
    moreover from this False have "pending_twin s kind key = None" by simp
    ultimately show False using find_NoneD [OF _ x] unfolding pending_twin_def by blast
  qed
  have "tk_id t \<notin> tk_id ` set (wk_tasks s)" using inv t(1) by (auto simp: tasks_inv_def)
  with inv t alone same_slot_sym show ?thesis
    unfolding w by (auto simp: tasks_inv_def task_ok_def less_Suc_eq)
qed

lemma orders_inv: "tasks_inv s \<Longrightarrow> place_orders os s = (r, v) \<Longrightarrow> tasks_inv v"
proof (induction os s rule: place_orders.induct)
  case (2 kind payload delay at_time m key os s)
  obtain x t where e: "enqueue kind payload delay at_time m key s = (x, t)" by fastforce
  have "tasks_inv t" using enqueue_inv [OF 2(2), of kind payload delay at_time m key] e by simp
  with 2(1) [OF e [symmetric]] 2(3) e show ?case by (cases x) auto
qed simp

lemma run_one_inv:
  assumes inv: "tasks_inv s" and run: "run_one s = Some (r, w)"
  shows "tasks_inv w"
proof -
  obtain t u a os v where t: "next_due s = Some t" and os: "place_orders os s = (Inr (), v)" and st: "run_step s t u r"
    and w: "w = (save_task u v)\<lparr> wk_app := a \<rparr>"
    by (rule run_one_step [OF run], rule that)
  have iv: "tasks_inv v" by (rule orders_inv [OF inv os])
  have mem: "t \<in> set (wk_tasks v)" and pend: "tk_status t = TPending"
    using next_due_Some(1,2) [OF t] orders_keep [OF os] by (auto simp: task_due_def)
  have id: "tk_id u = tk_id t" using st by (simp add: run_step_def)
  have uq: "unique_by tk_id (wk_tasks v)" using iv by (simp add: tasks_inv_def)
  have rows: "set (wk_tasks w) = insert u (set (wk_tasks v) - {t})"
    unfolding w save_task_rows by (rule saved_task_rows [OF uq mem id])
  have "unique_by tk_id (wk_tasks w)"
    unfolding w save_task_rows using uq by (subst unique_by_update) simp_all
  moreover have "\<forall>x \<in> set (wk_tasks w). tk_id x < wk_next w \<and> task_ok x"
    using iv mem id run_step_ok [OF st _ pend] unfolding rows by (auto simp: tasks_inv_def w)
  moreover have "x = y" if "x \<in> set (wk_tasks w)" "y \<in> set (wk_tasks w)" "same_slot x y" for x y
  proof -
    have old: "\<And>x y. x \<in> set (wk_tasks v) \<Longrightarrow> y \<in> set (wk_tasks v) \<Longrightarrow> same_slot x y \<Longrightarrow> x = y"
      using iv by (simp add: tasks_inv_def)
    have no: "\<not> same_slot u x" if "x \<in> set (wk_tasks v) - {t}" for x
      using old [OF mem] run_step_slot [OF st pend] that by blast
    from that no old show ?thesis unfolding rows using same_slot_sym by blast
  qed
  ultimately show ?thesis by (auto simp: tasks_inv_def)
qed

lemma run_up_to_keeps:
  assumes step: "\<And>s r w. P s \<Longrightarrow> run_one s = Some (r, w) \<Longrightarrow> P w"
  shows "P s \<Longrightarrow> P (snd (run_up_to k n s))"
proof (induction k arbitrary: n s)
  case (Suc k)
  then show ?case by (auto split: option.split intro: step)
qed simp

section \<open>Requests\<close>

datatype ('p, 'a) task_request =
    Enqueue string 'p "time option" "time option" "nat option" string
  | Drain "nat option"
  | Later time
  | Deploy "string \<rightharpoonup> ('p, 'a) handler"
  | AppWork "'a \<Rightarrow> 'a"

fun task_exec :: "('p, 'a) task_request \<Rightarrow> ('p, 'a) worker \<Rightarrow> ('p, 'a) worker" where
  "task_exec (Enqueue kind payload delay at_time m key) s = snd (enqueue kind payload delay at_time m key s)"
| "task_exec (Drain limit) s = snd (run_pending_tasks limit s)"
| "task_exec (Later t) s = s\<lparr> wk_clock := max (wk_clock s) t \<rparr>"
| "task_exec (Deploy reg) s = s\<lparr> wk_registry := reg \<rparr>"
| "task_exec (AppWork f) s = s\<lparr> wk_app := f (wk_app s) \<rparr>"

lemma task_exec_inv: "tasks_inv s \<Longrightarrow> tasks_inv (task_exec q s)"
proof (cases q)
  case (Drain l)
  assume "tasks_inv s"
  then have "tasks_inv (snd (run_up_to k n s))" for k n
    by (rule run_up_to_keeps [of tasks_inv, rotated]) (rule run_one_inv)
  with Drain show ?thesis by (simp add: run_pending_tasks_def)
qed (simp_all add: enqueue_inv, simp_all add: tasks_inv_def)

interpretation queue_of: service task_exec tasks_inv
  by unfold_locales (rule task_exec_inv)

text \<open>A finished task is never touched again, and no row is lost.\<close>

definition task_evolves :: "('p, 'a) worker \<Rightarrow> ('p, 'a) worker \<Rightarrow> bool" where
  "task_evolves s w \<longleftrightarrow> (\<forall>t \<in> set (wk_tasks s). tk_status t \<noteq> TPending \<longrightarrow> t \<in> set (wk_tasks w)) \<and>
     (\<forall>t \<in> set (wk_tasks s). \<exists>u \<in> set (wk_tasks w). tk_id u = tk_id t \<and> tk_attempts t \<le> tk_attempts u)"

lemma task_evolves_refl [simp]: "task_evolves s s"
  by (auto simp: task_evolves_def)

lemma task_evolves_trans: "task_evolves s w \<Longrightarrow> task_evolves w v \<Longrightarrow> task_evolves s v"
  unfolding task_evolves_def
proof (intro conjI ballI impI; elim conjE)
  fix t assume "\<forall>t \<in> set (wk_tasks s). \<exists>u \<in> set (wk_tasks w). tk_id u = tk_id t \<and> tk_attempts t \<le> tk_attempts u"
    and later: "\<forall>t \<in> set (wk_tasks w). \<exists>u \<in> set (wk_tasks v). tk_id u = tk_id t \<and> tk_attempts t \<le> tk_attempts u"
    and "t \<in> set (wk_tasks s)"
  then obtain u where u: "u \<in> set (wk_tasks w)" "tk_id u = tk_id t" "tk_attempts t \<le> tk_attempts u" by blast
  with later obtain x where "x \<in> set (wk_tasks v)" "tk_id x = tk_id u" "tk_attempts u \<le> tk_attempts x" by blast
  with u show "\<exists>u \<in> set (wk_tasks v). tk_id u = tk_id t \<and> tk_attempts t \<le> tk_attempts u" by (auto intro!: bexI [of _ x])
qed blast

lemma task_evolves_same: "set (wk_tasks s) \<subseteq> set (wk_tasks w) \<Longrightarrow> task_evolves s w"
  by (auto simp: task_evolves_def)

lemma run_one_evolves:
  assumes inv: "tasks_inv s" and run: "run_one s = Some (r, w)"
  shows "task_evolves s w"
proof -
  obtain t u a os v where t: "next_due s = Some t" and os: "place_orders os s = (Inr (), v)" and st: "run_step s t u r"
    and w: "w = (save_task u v)\<lparr> wk_app := a \<rparr>"
    by (rule run_one_step [OF run], rule that)
  have iv: "tasks_inv v" by (rule orders_inv [OF inv os])
  have mem: "t \<in> set (wk_tasks v)" and pend: "tk_status t = TPending"
    using next_due_Some(1,2) [OF t] orders_keep [OF os] by (auto simp: task_due_def)
  have "unique_by tk_id (wk_tasks v)" "tk_id u = tk_id t" "tk_attempts t \<le> tk_attempts u"
    using iv st by (simp_all add: tasks_inv_def run_step_def)
  then have "set (wk_tasks w) = insert u (set (wk_tasks v) - {t})" "tk_id u = tk_id t" "tk_attempts t \<le> tk_attempts u"
    unfolding w save_task_rows using saved_task_rows [of "wk_tasks v" t u] mem by simp_all
  with pend have "task_evolves v w" by (auto simp: task_evolves_def)
  moreover have "task_evolves s v" by (rule task_evolves_same [OF orders_keep [OF os]])
  ultimately show ?thesis using task_evolves_trans by blast
qed

lemma task_exec_evolves: "tasks_inv s \<Longrightarrow> task_evolves s (task_exec q s)"
proof (cases q)
  case (Enqueue kind payload delay at_time m key)
  then show ?thesis by (auto simp: enqueue_def Let_def intro!: task_evolves_same split: option.splits)
next
  case (Drain l)
  assume inv: "tasks_inv s"
  have "tasks_inv (snd (run_up_to k n s)) \<and> task_evolves s (snd (run_up_to k n s))" for k n
    by (rule run_up_to_keeps [of "\<lambda>w. tasks_inv w \<and> task_evolves s w"])
      (use inv in \<open>auto intro: run_one_inv task_evolves_trans run_one_evolves\<close>)
  with Drain show ?thesis by (simp add: run_pending_tasks_def)
qed (simp_all add: task_evolves_same)

section \<open>Progress\<close>

text \<open>The runs a task may still take; a run takes one from the task it claims.\<close>

definition runs_left :: "'p task \<Rightarrow> nat" where
  "runs_left t = (if tk_status t = TPending then max 1 (tk_max_attempts t) - tk_attempts t else 0)"

definition work :: "('p, 'a) worker \<Rightarrow> nat" where
  "work s = sum_list (map runs_left (wk_tasks s))"

lemma sum_update_less:
  fixes f :: "'r \<Rightarrow> nat"
  assumes "unique_by k xs" "x \<in> set xs" "k y = k x" "f y < f x"
  shows "sum_list (map f (update_rows (\<lambda>z. k z = k y) (\<lambda>_. y) xs)) < sum_list (map f xs)"
  using assms
proof (induction xs)
  case (Cons z zs)
  show ?case
  proof (cases "z = x")
    case True
    have "update_rows (\<lambda>z. k z = k y) (\<lambda>_. y) zs = zs"
      by (rule update_rows_none) (use Cons.prems True in \<open>auto simp: unique_by_def image_iff\<close>)
    with True Cons.prems show ?thesis by simp
  next
    case False
    with Cons have "x \<in> set zs" "k z \<noteq> k y" by (auto simp: unique_by_def)
    with Cons show ?thesis by (auto simp: unique_by_def)
  qed
qed simp

lemma runs_left_step: "run_step s t u r \<Longrightarrow> tk_status t = TPending \<Longrightarrow> task_ok t \<Longrightarrow> runs_left u < runs_left t"
  by (cases r) (auto simp: run_step_def runs_left_def task_ok_def max_def)

text \<open>Handlers that enqueue nothing.\<close>

definition orderless :: "('p, 'a) worker \<Rightarrow> bool" where
  "orderless s \<longleftrightarrow> (\<forall>k h p a b os. wk_registry s k = Some h \<longrightarrow> h p a = Inr (b, os) \<longrightarrow> os = [])"

lemma orderless_step:
  assumes "orderless s" and "run_one s = Some (r, w)"
  obtains t u a where "next_due s = Some t" "run_step s t u r" "w = (save_task u s)\<lparr> wk_app := a \<rparr>"
proof -
  obtain t u a os v where st: "next_due s = Some t" "place_orders os s = (Inr (), v)" "run_step s t u r"
      "w = (save_task u v)\<lparr> wk_app := a \<rparr>"
      "os = [] \<or> (\<exists>h b. wk_registry s (tk_kind t) = Some h \<and> h (tk_payload t) (wk_app s) = Inr (b, os))"
    using run_one_step [OF assms(2)] .
  have "os = []" using st(5) assms(1) by (auto simp: orderless_def)
  with st(2) have "v = s" by simp
  with st that show thesis by blast
qed

lemma run_one_quiet: "orderless s \<Longrightarrow> run_one s = Some (r, w) \<Longrightarrow> orderless w"
proof -
  assume calm: "orderless s" and run: "run_one s = Some (r, w)"
  obtain t u a where "w = (save_task u s)\<lparr> wk_app := a \<rparr>" using orderless_step [OF calm run] by blast
  then have "wk_registry w = wk_registry s" by (simp add: save_task_def)
  with calm show "orderless w" by (simp add: orderless_def)
qed

lemma run_one_work:
  assumes inv: "tasks_inv s" and calm: "orderless s" and run: "run_one s = Some (r, w)"
  shows "work w < work s"
proof -
  obtain t u a where t: "next_due s = Some t" and st: "run_step s t u r" and w: "w = (save_task u s)\<lparr> wk_app := a \<rparr>"
    using orderless_step [OF calm run] by blast
  have mem: "t \<in> set (wk_tasks s)" and pend: "tk_status t = TPending"
    using next_due_Some(1,2) [OF t] by (auto simp: task_due_def)
  have "runs_left u < runs_left t" using runs_left_step [OF st pend] inv mem by (simp add: tasks_inv_def)
  then show ?thesis
    unfolding work_def w save_task_rows
    by (intro sum_update_less [of tk_id]) (use inv mem st in \<open>simp_all add: tasks_inv_def run_step_def\<close>)
qed

definition nearly_due :: "('p, 'a) worker \<Rightarrow> bool" where
  "nearly_due s \<longleftrightarrow> (\<forall>t \<in> set (wk_tasks s). tk_status t = TPending \<longrightarrow>
     tk_available_at t \<le> wk_clock s + seconds (int (ts_max_backoff (wk_conf s))))"

lemma backoff_le: "backoff_seconds c n \<le> ts_max_backoff c"
  by (simp add: backoff_seconds_def)

lemma run_one_near:
  assumes inv: "tasks_inv s" and calm: "orderless s" and near: "nearly_due s" and run: "run_one s = Some (r, w)"
  shows "nearly_due w"
proof -
  obtain t u a where t: "next_due s = Some t" and st: "run_step s t u r" and w: "w = (save_task u s)\<lparr> wk_app := a \<rparr>"
    using orderless_step [OF calm run] by blast
  have mem: "t \<in> set (wk_tasks s)" using next_due_Some(1) [OF t] .
  have rows: "set (wk_tasks w) = insert u (set (wk_tasks s) - {t})"
    unfolding w save_task_rows using inv mem st by (intro saved_task_rows) (simp_all add: tasks_inv_def run_step_def)
  have "tk_available_at u \<le> wk_clock s + seconds (int (ts_max_backoff (wk_conf s)))" if "tk_status u = TPending"
    using st that backoff_le [of "wk_conf s" "tk_attempts u"]
    by (cases r) (simp_all add: run_step_def seconds_def)
  with near rows show ?thesis by (auto simp: nearly_due_def w)
qed

text \<open>One round: the longest backoff passes and the worker drains.\<close>

definition worker_round :: "nat \<Rightarrow> ('p, 'a) worker \<Rightarrow> ('p, 'a) worker" where
  "worker_round limit s = snd (run_pending_tasks (Some limit)
     (s\<lparr> wk_clock := wk_clock s + seconds (int (ts_max_backoff (wk_conf s))) \<rparr>))"

definition tasks_over :: "('p, 'a) worker \<Rightarrow> bool" where
  "tasks_over s \<longleftrightarrow> (\<forall>t \<in> set (wk_tasks s). tk_status t \<noteq> TPending)"

definition latest_due :: "('p, 'a) worker \<Rightarrow> time" where
  "latest_due s = fold (\<lambda>t. max (tk_available_at t)) (filter (\<lambda>t. tk_status t = TPending) (wk_tasks s)) (wk_clock s)"

lemma fold_max_ge: "(m \<le> fold (\<lambda>t. max (f t)) ts m) \<and> (\<forall>t \<in> set ts. f t \<le> fold (\<lambda>t. max (f t)) ts m)" for m :: "'b :: linorder"
proof (induction ts arbitrary: m)
  case (Cons t ts)
  from Cons [of "max (f t) m"] show ?case by auto
qed simp

lemma latest_near: "nearly_due (s\<lparr> wk_clock := latest_due s \<rparr>)"
proof -
  have "tk_available_at t \<le> latest_due s" if "t \<in> set (wk_tasks s)" "tk_status t = TPending" for t
    using that fold_max_ge [of "wk_clock s" tk_available_at "filter (\<lambda>t. tk_status t = TPending) (wk_tasks s)"]
    by (simp add: latest_due_def)
  then show ?thesis by (force simp: nearly_due_def seconds_def)
qed

lemma run_up_to_work:
  "tasks_inv s \<Longrightarrow> orderless s \<Longrightarrow> work (snd (run_up_to k n s)) \<le> work s"
proof (induction k arbitrary: n s)
  case (Suc k)
  show ?case
  proof (cases "run_one s")
    case (Some p)
    obtain r w where p: "p = (r, w)" by (cases p)
    with Some Suc.prems have "tasks_inv w" "orderless w" "work w < work s" by (auto intro: run_one_inv run_one_work run_one_quiet)
    with Suc.IH [of w "count_run r n"] Some p show ?thesis by simp
  qed simp
qed simp

lemma run_up_to_work_less:
  assumes "tasks_inv s" "orderless s" "next_due s \<noteq> None"
  shows "work (snd (run_up_to (Suc k) n s)) < work s"
proof -
  have "run_one s \<noteq> None" using assms(3) by (auto simp: run_one_def Let_def)
  then obtain q where "run_one s = Some q" by blast
  then obtain r w where p: "run_one s = Some (r, w)" by (cases q) simp
  then have "tasks_inv w" "orderless w" "work w < work s" using assms(1,2) by (auto intro: run_one_inv run_one_work run_one_quiet)
  with run_up_to_work [of w k "count_run r n"] p show ?thesis by simp
qed

lemma worker_round_keeps:
  assumes inv: "tasks_inv s" and calm: "orderless s" and near: "nearly_due s" and lim: "0 < limit"
  shows "tasks_inv (worker_round limit s)" "orderless (worker_round limit s)" "nearly_due (worker_round limit s)"
    "\<not> tasks_over s \<Longrightarrow> work (worker_round limit s) < work s" "tasks_over s \<Longrightarrow> tasks_over (worker_round limit s)"
proof -
  let ?s = "s\<lparr> wk_clock := wk_clock s + seconds (int (ts_max_backoff (wk_conf s))) \<rparr>"
  have s: "tasks_inv ?s" "orderless ?s" "nearly_due ?s"
    using inv calm near by (auto simp: tasks_inv_def nearly_due_def seconds_def orderless_def)
  have "tasks_inv (snd (run_up_to k n ?s)) \<and> orderless (snd (run_up_to k n ?s)) \<and> nearly_due (snd (run_up_to k n ?s))" for k n
    by (rule run_up_to_keeps [of "\<lambda>w. tasks_inv w \<and> orderless w \<and> nearly_due w"])
      (use s in \<open>auto intro: run_one_inv run_one_near run_one_quiet\<close>)
  then show "tasks_inv (worker_round limit s)" "orderless (worker_round limit s)" "nearly_due (worker_round limit s)"
    by (simp_all add: worker_round_def run_pending_tasks_def)
  obtain k where k: "limit = Suc k" using lim by (cases limit) auto
  show "work (worker_round limit s) < work s" if "\<not> tasks_over s"
  proof -
    have "next_due ?s \<noteq> None" using that near by (auto simp: next_due_None tasks_over_def nearly_due_def task_due_def)
    from run_up_to_work_less [OF s(1,2) this] show ?thesis by (simp add: worker_round_def run_pending_tasks_def k work_def)
  qed
  show "tasks_over (worker_round limit s)" if "tasks_over s"
  proof -
    have "next_due ?s = None" using that by (auto simp: next_due_None tasks_over_def task_due_def)
    then have "run_one ?s = None" by (simp add: run_one_def)
    with that show ?thesis by (simp add: worker_round_def run_pending_tasks_def k tasks_over_def)
  qed
qed

section \<open>Sample rows\<close>

text \<open>A handler that always fails, one that counts, and a task of each kind and of an unknown one.\<close>

definition sample_registry :: "string \<rightharpoonup> (nat, nat) handler" where
  "sample_registry k = (if k = ''fail'' then Some (\<lambda>p a. Inl ''ValueError: no'') else if k = ''count'' then Some (\<lambda>p a. Inr (a + p, []))
     else None)"

definition sample_worker :: "(nat, nat) worker" where
  "sample_worker = \<lparr> wk_tasks = [new_task 1 ''fail'' 0 2 0 ''u1'', new_task 2 ''count'' 3 5 0 [], new_task 3 ''gone'' 0 1 0 []],
     wk_next = 4, wk_clock = 0, wk_conf = default_task_settings, wk_registry = sample_registry, wk_app = 0 \<rparr>"

lemma sample_worker_inv: "tasks_inv sample_worker" "orderless sample_worker" "work sample_worker = 8" "latest_due sample_worker = 0"
  by (auto simp: tasks_inv_def orderless_def latest_due_def work_def runs_left_def sample_worker_def sample_registry_def new_task_def
      unique_by_def task_ok_def same_slot_def default_task_settings_def split: if_splits)

lemmas drain_simps = run_pending_tasks_def run_one_def next_due_def sample_worker_def new_task_def task_due_def claimed_def
  sample_registry_def record_task_failure_def Let_def save_task_def numeral_3_eq_3 backoff_seconds_def default_task_settings_def
  seconds_def

section \<open>Properties\<close>

text \<open>
  C31: along every run of enqueues, drains and deployments a task is tried at most as often as it
  allows (once, when it allows none); it is given up exactly when those tries are used, a task that
  waits has tries left, and no two waiting tasks of one kind share a deduplication key.
\<close>

theorem tries_are_bounded:
  assumes "tasks_inv s" and "w = run_requests task_exec qs s"
  shows "\<forall>t \<in> set (wk_tasks w). tk_attempts t \<le> max 1 (tk_max_attempts t) \<and>
      (tk_status t = TFailed \<longrightarrow> tk_attempts t = max 1 (tk_max_attempts t)) \<and>
      (tk_status t = TPending \<longrightarrow> tk_attempts t < max 1 (tk_max_attempts t)) \<and>
      (\<forall>u \<in> set (wk_tasks w). same_slot t u \<longrightarrow> t = u)"
proof -
  have "tasks_inv w" using queue_of.run_inv [OF assms(1)] assms(2) by simp
  then have ok: "\<And>t. t \<in> set (wk_tasks w) \<Longrightarrow> task_ok t"
    and slot: "\<And>t u. t \<in> set (wk_tasks w) \<Longrightarrow> u \<in> set (wk_tasks w) \<Longrightarrow> same_slot t u \<Longrightarrow> t = u"
    by (simp_all add: tasks_inv_def)
  show ?thesis
  proof (intro ballI conjI impI)
    fix t assume t: "t \<in> set (wk_tasks w)"
    show "tk_attempts t \<le> max 1 (tk_max_attempts t)" using ok [OF t] by (cases "tk_status t") (auto simp: task_ok_def)
    show "tk_attempts t = max 1 (tk_max_attempts t)" if "tk_status t = TFailed" using ok [OF t] that by (simp add: task_ok_def)
    show "tk_attempts t < max 1 (tk_max_attempts t)" if "tk_status t = TPending"
      using ok [OF t] that by (auto simp: task_ok_def)
    show "t = u" if "u \<in> set (wk_tasks w)" "same_slot t u" for u using slot t that .
  qed
qed

theorem tries_are_bounded_witness:
  "map (\<lambda>t. (tk_status t, tk_attempts t)) (wk_tasks (run_requests task_exec [Drain (Some 3), Later (seconds 30), Drain (Some 1)] sample_worker)) =
     [(TFailed, 2), (TDone, 1), (TFailed, 1)] \<and>
   map (\<lambda>t. tk_attempts t \<le> max 1 (tk_max_attempts t))
     (wk_tasks (run_requests task_exec [Drain (Some 3), Later (seconds 30), Drain (Some 1)] sample_worker)) = [True, True, True]"
proof -
  let ?w = "run_requests task_exec [Drain (Some 3), Later (seconds 30), Drain (Some 1)] sample_worker"
  have shape: "map (\<lambda>t. (tk_status t, tk_attempts t)) (wk_tasks ?w) = [(TFailed, 2), (TDone, 1), (TFailed, 1)]"
    by (simp add: drain_simps)
  then have "length (map (\<lambda>t. (tk_status t, tk_attempts t)) (wk_tasks ?w)) = 3" by (simp only:) simp
  then have "length (wk_tasks ?w) = 3" by (simp only: length_map)
  moreover have "map (\<lambda>t. tk_attempts t \<le> max 1 (tk_max_attempts t)) (wk_tasks ?w) = map (\<lambda>t. True) (wk_tasks ?w)"
    using tries_are_bounded [OF sample_worker_inv(1) refl, of "[Drain (Some 3), Later (seconds 30), Drain (Some 1)]"]
    by (intro map_cong) auto
  ultimately show ?thesis using shape by (simp add: map_replicate_const numeral_3_eq_3)
qed

text \<open>
  A task that is done or given up is never claimed, changed or removed by later enqueues, drains
  and deployments, whatever its handler has become.
\<close>

theorem finished_is_final:
  assumes "tasks_inv s" and "t \<in> set (wk_tasks s)" and "tk_status t \<noteq> TPending"
  shows "t \<in> set (wk_tasks (run_requests task_exec qs s))"
proof -
  have "tasks_inv s \<Longrightarrow> task_evolves s (run_requests task_exec qs s)" for s
  proof (induction qs arbitrary: s)
    case (Cons q qs)
    then show ?case using task_exec_inv task_exec_evolves task_evolves_trans by fastforce
  qed simp
  with assms show ?thesis by (simp add: task_evolves_def)
qed

definition finished_worker :: "(nat, nat) worker" where
  "finished_worker = run_requests task_exec [Drain (Some 3)] sample_worker"

theorem finished_is_final_witness:
  "map tk_status (wk_tasks finished_worker) = [TPending, TDone, TFailed] \<and>
   wk_tasks finished_worker ! 2 \<in> set (wk_tasks (run_requests task_exec [Later 9, Drain None] finished_worker))"
proof -
  have st: "map tk_status (wk_tasks finished_worker) = [TPending, TDone, TFailed]" by (simp add: finished_worker_def drain_simps)
  have len: "length (map tk_status (wk_tasks finished_worker)) = 3" unfolding st by simp
  have inv: "tasks_inv finished_worker" unfolding finished_worker_def by (rule queue_of.run_inv [OF sample_worker_inv(1)])
  have mem: "wk_tasks finished_worker ! 2 \<in> set (wk_tasks finished_worker)" using len by simp
  have "tk_status (wk_tasks finished_worker ! 2) = map tk_status (wk_tasks finished_worker) ! 2"
    using len by (subst nth_map) simp_all
  then have "tk_status (wk_tasks finished_worker ! 2) \<noteq> TPending" unfolding st by simp
  from conjI [OF st finished_is_final [OF inv mem this]] show ?thesis .
qed

text \<open>
  C32: once every waiting task has become available, a worker that drains again and again, at least one
  task at a time and with the longest backoff between its rounds, comes to the end of every task:
  after as many rounds as there are tries left each is done or given up, whatever the handlers do
  short of enqueueing tasks of their own.
\<close>

theorem worker_finishes:
  assumes "tasks_inv s" and "orderless s" and "0 < limit" and "work s \<le> n"
  shows "tasks_over ((worker_round limit ^^ n) (s\<lparr> wk_clock := latest_due s \<rparr>))"
proof -
  let ?s = "s\<lparr> wk_clock := latest_due s \<rparr>"
  have start: "tasks_inv ?s" "orderless ?s" "nearly_due ?s" "work ?s = work s"
    using assms(1,2) latest_near by (simp_all add: tasks_inv_def orderless_def work_def)
  let ?w = "\<lambda>n. (worker_round limit ^^ n) ?s"
  have "tasks_inv (?w n) \<and> orderless (?w n) \<and> nearly_due (?w n) \<and> (tasks_over (?w n) \<or> work (?w n) + n \<le> work ?s)" for n
  proof (induction n)
    case (Suc n)
    then show ?case
      using worker_round_keeps [of "?w n" limit] assms(3) by (cases "tasks_over (?w n)") auto
  qed (use start in simp)
  from this [of n] have near: "tasks_over (?w n) \<or> work (?w n) + n \<le> work s" and inv: "tasks_inv (?w n)"
    using start(4) by auto
  have "tasks_over w" if w: "work w = 0" "tasks_inv w" for w :: "('a, 'b) worker"
    unfolding tasks_over_def
  proof
    fix t assume "t \<in> set (wk_tasks w)"
    with w have "runs_left t = 0" "task_ok t" by (auto simp: work_def tasks_inv_def)
    then show "tk_status t \<noteq> TPending" by (auto simp: runs_left_def task_ok_def)
  qed
  with near inv assms(4) show ?thesis by auto
qed

theorem worker_finishes_witness: "tasks_over ((worker_round 1 ^^ 8) (sample_worker\<lparr> wk_clock := 0 \<rparr>))"
  using worker_finishes [OF sample_worker_inv(1,2), of 1 8] by (simp add: sample_worker_inv(3,4) del: One_nat_def)

end
