(* ===== verification/Providers.thy ===== *)
theory Providers
  imports Prelude
begin

text \<open>
  apps/ops/resilience.py: calls to trusted providers, with a circuit breaker per provider and bounded
  retries. A breaker is a state that its lock makes every operation update atomically; the
  monotonic clock is an argument. What a provider answers to each request, and how long it takes, is
  an argument of the retry loop.
\<close>

section \<open>The circuit breaker\<close>

datatype cb_state = CbClosed | CbOpen | CbHalfOpen

record breaker =
  cb_threshold :: int
  cb_cooldown :: time
  cb_success_threshold :: nat
  cb_half_open_max :: nat
  cb_state :: cb_state
  cb_failures :: nat
  cb_successes :: nat
  cb_open_until :: time
  cb_probes :: nat

definition new_breaker :: "int \<Rightarrow> time \<Rightarrow> int \<Rightarrow> int \<Rightarrow> breaker" where
  "new_breaker threshold cooldown success_threshold half_open_max =
     \<lparr> cb_threshold = threshold, cb_cooldown = cooldown, cb_success_threshold = nat (max 1 success_threshold),
       cb_half_open_max = nat (max 1 half_open_max), cb_state = CbClosed, cb_failures = 0, cb_successes = 0,
       cb_open_until = 0, cb_probes = 0 \<rparr>"

text \<open>The registry keeps the first breaker made for a key.\<close>

definition get_breaker :: "string \<Rightarrow> breaker \<Rightarrow> (string \<rightharpoonup> breaker) \<Rightarrow> breaker \<times> (string \<rightharpoonup> breaker)" where
  "get_breaker key fresh reg = (case reg key of Some b \<Rightarrow> (b, reg) | None \<Rightarrow> (fresh, reg(key \<mapsto> fresh)))"

definition default_breaker :: breaker where
  "default_breaker = new_breaker 5 (seconds 30) 1 1"

definition open_locked :: "time \<Rightarrow> breaker \<Rightarrow> breaker" where
  "open_locked now b = b\<lparr> cb_state := CbOpen, cb_open_until := now + cb_cooldown b, cb_successes := 0, cb_probes := 0 \<rparr>"

definition reset_locked :: "breaker \<Rightarrow> breaker" where
  "reset_locked b =
     b\<lparr> cb_state := CbClosed, cb_failures := 0, cb_successes := 0, cb_probes := 0, cb_open_until := 0 \<rparr>"

definition take_probe :: "breaker \<Rightarrow> bool \<times> breaker" where
  "take_probe b =
     (if cb_state b = CbHalfOpen
      then if cb_half_open_max b \<le> cb_probes b then (False, b) else (True, b\<lparr> cb_probes := Suc (cb_probes b) \<rparr>)
      else (True, b))"

definition allow :: "time \<Rightarrow> breaker \<Rightarrow> bool \<times> breaker" where
  "allow now b =
     (if cb_state b = CbOpen
      then if now < cb_open_until b then (False, b)
           else take_probe (b\<lparr> cb_state := CbHalfOpen, cb_successes := 0, cb_probes := 0 \<rparr>)
      else take_probe b)"

definition record_success :: "breaker \<Rightarrow> breaker" where
  "record_success b =
     (if cb_state b = CbHalfOpen
      then let b1 = b\<lparr> cb_probes := cb_probes b - 1, cb_successes := Suc (cb_successes b) \<rparr> in
           if cb_success_threshold b1 \<le> cb_successes b1 then reset_locked b1 else b1
      else b\<lparr> cb_failures := 0 \<rparr>)"

definition record_failure :: "time \<Rightarrow> breaker \<Rightarrow> breaker" where
  "record_failure now b =
     (if cb_state b = CbHalfOpen then open_locked now (b\<lparr> cb_probes := cb_probes b - 1 \<rparr>)
      else let b1 = b\<lparr> cb_failures := Suc (cb_failures b) \<rparr> in
           if cb_threshold b1 \<le> int (cb_failures b1) then open_locked now b1 else b1)"

section \<open>Requests with retries\<close>

text \<open>
  What a request comes to: a response with its status, or an exception of the HTTP library that is
  a connection error, a timeout, both (a timeout while connecting) or neither.
\<close>

datatype reply = Response int | Broken bool bool string

record retry_policy =
  rt_max_attempts :: int
  rt_backoff :: time
  rt_on_status :: "int list"
  rt_timeouts :: bool

definition default_policy :: retry_policy where
  "default_policy = \<lparr> rt_max_attempts = 3, rt_backoff = 500000, rt_on_status = [500, 502, 503, 504], rt_timeouts = True \<rparr>"

text \<open>The provider: the reply to the n-th request and the time it takes; the log of replies received.\<close>

record exchange =
  ex_reply :: "nat \<Rightarrow> reply"
  ex_takes :: "nat \<Rightarrow> time"
  ex_now :: time
  ex_log :: "reply list"

definition send :: "exchange \<Rightarrow> reply \<times> exchange" where
  "send x = (let n = length (ex_log x); r = ex_reply x n
     in (r, x\<lparr> ex_now := ex_now x + ex_takes x n, ex_log := ex_log x @ [r] \<rparr>))"

definition pause :: "time \<Rightarrow> exchange \<Rightarrow> exchange" where
  "pause d x = x\<lparr> ex_now := ex_now x + d \<rparr>"

definition safe_to_retry :: "retry_policy \<Rightarrow> bool \<Rightarrow> bool \<Rightarrow> bool" where
  "safe_to_retry p connection timed_out \<longleftrightarrow> connection \<or> rt_timeouts p \<and> timed_out"

datatype verdict = Answered int | ClientError int | GaveUp

text \<open>The loop from one attempt on, with the number of attempts that remain, this one included.\<close>

fun try_from :: "retry_policy \<Rightarrow> nat \<Rightarrow> nat \<Rightarrow> exchange \<Rightarrow> verdict \<times> exchange" where
  "try_from p attempt 0 x = (GaveUp, x)"
| "try_from p attempt (Suc left) x =
     (let (r, y) = send x in
      case r of
        Broken connection timed_out _ \<Rightarrow>
          if safe_to_retry p connection timed_out \<and> 0 < left
          then try_from p (Suc attempt) left (pause (rt_backoff p * int attempt) y)
          else (GaveUp, y)
      | Response status \<Rightarrow>
          if status \<in> set (rt_on_status p) \<and> 0 < left
          then try_from p (Suc attempt) left (pause (rt_backoff p * int attempt) y)
          else if 400 \<le> status \<and> status < 500 then (ClientError status, y)
          else if 500 \<le> status then (GaveUp, y)
          else (Answered status, y))"

definition settle :: "verdict \<Rightarrow> time \<Rightarrow> breaker \<Rightarrow> breaker" where
  "settle v now b = (if v = GaveUp then record_failure now b else record_success b)"

datatype call_result = Got int | HttpError int | ProviderUnavailable

fun result_of :: "verdict \<Rightarrow> call_result" where
  "result_of (Answered n) = Got n"
| "result_of (ClientError n) = HttpError n"
| "result_of GaveUp = ProviderUnavailable"

text \<open>The whole call; the caller names the key of a breaker, or none.\<close>

definition request_with_retries :: "retry_policy \<Rightarrow> string \<Rightarrow> (string \<rightharpoonup> breaker) \<Rightarrow> exchange \<Rightarrow>
    call_result \<times> (string \<rightharpoonup> breaker) \<times> exchange" where
  "request_with_retries p key reg x =
     (if key = []
      then let (v, y) = try_from p 1 (nat (rt_max_attempts p)) x in (result_of v, reg, y)
      else let (b, reg1) = get_breaker key default_breaker reg;
               (ok, b1) = allow (ex_now x) b
           in if \<not> ok then (ProviderUnavailable, reg1(key \<mapsto> b1), x)
              else let (v, y) = try_from p 1 (nat (rt_max_attempts p)) x
                   in (result_of v, reg1(key \<mapsto> settle v (ex_now y) b1), y))"

section \<open>Callers in one process\<close>

text \<open>
  Several callers share a breaker: a call that is let through is in flight until its outcome is
  recorded, and the others go on meanwhile. A call is let through as a probe or as an ordinary one.
\<close>

datatype call_kind = Ordinary | Probe

record callers =
  co_breaker :: breaker
  co_now :: time
  co_flight :: "call_kind list"

datatype call_event = Admit call_kind | Refuse | Succeed call_kind | Fail call_kind | Wait | ForceClosed

definition kind_of :: "breaker \<Rightarrow> call_kind" where
  "kind_of b = (if cb_state b = CbHalfOpen then Probe else Ordinary)"

inductive call_step :: "callers \<Rightarrow> call_event \<Rightarrow> callers \<Rightarrow> bool" where
  Admit: "allow (co_now s) (co_breaker s) = (True, b) \<Longrightarrow>
    call_step s (Admit (kind_of b)) (s\<lparr> co_breaker := b, co_flight := kind_of b # co_flight s \<rparr>)"
| Refuse: "allow (co_now s) (co_breaker s) = (False, b) \<Longrightarrow> call_step s Refuse (s\<lparr> co_breaker := b \<rparr>)"
| Succeed: "k \<in> set (co_flight s) \<Longrightarrow>
    call_step s (Succeed k) (s\<lparr> co_breaker := record_success (co_breaker s), co_flight := remove1 k (co_flight s) \<rparr>)"
| Fail: "k \<in> set (co_flight s) \<Longrightarrow>
    call_step s (Fail k) (s\<lparr> co_breaker := record_failure (co_now s) (co_breaker s), co_flight := remove1 k (co_flight s) \<rparr>)"
| Wait: "co_now s \<le> t \<Longrightarrow> call_step s Wait (s\<lparr> co_now := t \<rparr>)"
| ForceClosed: "call_step s ForceClosed (s\<lparr> co_breaker := reset_locked (co_breaker s) \<rparr>)"

inductive calls :: "callers \<Rightarrow> call_event list \<Rightarrow> callers \<Rightarrow> bool" where
  Quiet: "calls s [] s"
| More: "calls s es t \<Longrightarrow> call_step t e u \<Longrightarrow> calls s (es @ [e]) u"

inductive_cases call_step_cases: "call_step s e t"
inductive_cases quiet_calls: "calls s [] t"

definition idle_callers :: "breaker \<Rightarrow> time \<Rightarrow> callers" where
  "idle_callers b t = \<lparr> co_breaker = b, co_now = t, co_flight = [] \<rparr>"

end
