(* ===== verification/Providers_Properties.thy ===== *)
theory Providers_Properties
  imports Providers
begin

text \<open>
  The laws of provider calls: what the retry loop may send, and the invariant of a breaker under
  every interleaving of its callers.
\<close>

section \<open>The retry loop\<close>

definition retryable :: "retry_policy \<Rightarrow> reply \<Rightarrow> bool" where
  "retryable p r = (case r of Response n \<Rightarrow> n \<in> set (rt_on_status p) | Broken c t _ \<Rightarrow> safe_to_retry p c t)"

text \<open>What the last reply means to the caller.\<close>

fun verdict_of :: "reply \<Rightarrow> verdict" where
  "verdict_of (Response n) = (if 400 \<le> n \<and> n < 500 then ClientError n else if 500 \<le> n then GaveUp else Answered n)"
| "verdict_of (Broken _ _ _) = GaveUp"

lemma send_log: "send x = (ex_reply x (length (ex_log x)), snd (send x))"
  "ex_log (snd (send x)) = ex_log x @ [ex_reply x (length (ex_log x))]"
  "ex_reply (snd (send x)) = ex_reply x"
  by (simp_all add: send_def Let_def)

lemma pause_log [simp]: "ex_log (pause d x) = ex_log x" "ex_reply (pause d x) = ex_reply x"
  by (simp_all add: pause_def)

lemma try_from_Suc:
  "try_from p k (Suc n) x =
     (let r = ex_reply x (length (ex_log x)); y = snd (send x) in
      if retryable p r \<and> 0 < n then try_from p (Suc k) n (pause (rt_backoff p * int k) y) else (verdict_of r, y))"
  by (subst try_from.simps(2), subst send_log(1))
    (simp add: Let_def retryable_def split: reply.split)

declare try_from.simps(2) [simp del]

definition exchange_ok :: "retry_policy \<Rightarrow> nat \<Rightarrow> reply list \<Rightarrow> verdict \<Rightarrow> bool" where
  "exchange_ok p n rs v \<longleftrightarrow> length rs \<le> n \<and> (\<forall>r \<in> set (butlast rs). retryable p r) \<and>
     v = (if rs = [] then GaveUp else verdict_of (List.last rs)) \<and>
     (length rs < n \<longrightarrow> rs \<noteq> [] \<and> \<not> retryable p (List.last rs))"

lemma try_from_log:
  "\<exists>rs. ex_log (snd (try_from p k n x)) = ex_log x @ rs \<and> exchange_ok p n rs (fst (try_from p k n x))"
proof (induction n arbitrary: k x)
  case 0
  then show ?case by (simp add: exchange_ok_def)
next
  case (Suc n)
  let ?r = "ex_reply x (length (ex_log x))" and ?y = "snd (send x)"
  show ?case
  proof (cases "retryable p ?r \<and> 0 < n")
    case True
    let ?z = "pause (rt_backoff p * int k) ?y"
    obtain rs where rs: "ex_log (snd (try_from p (Suc k) n ?z)) = ex_log ?z @ rs"
      "exchange_ok p n rs (fst (try_from p (Suc k) n ?z))" using Suc by blast
    have "rs \<noteq> []" using rs(2) True by (cases rs) (auto simp: exchange_ok_def)
    then have "exchange_ok p (Suc n) (?r # rs) (fst (try_from p (Suc k) n ?z))"
      using rs(2) True by (auto simp: exchange_ok_def)
    with rs(1) True show ?thesis
      by (intro exI [of _ "?r # rs"]) (simp add: try_from_Suc Let_def send_log(2,3))
  next
    case False
    then show ?thesis
      by (intro exI [of _ "[?r]"]) (auto simp: try_from_Suc Let_def send_log(2,3) exchange_ok_def)
  qed
qed

section \<open>The breaker\<close>

definition breaker_inv :: "callers \<Rightarrow> bool" where
  "breaker_inv s \<longleftrightarrow> (let b = co_breaker s in
     cb_probes b \<le> cb_half_open_max b \<and> cb_probes b \<le> count_list (co_flight s) Probe \<and>
     (cb_state b \<noteq> CbHalfOpen \<longrightarrow> cb_probes b = 0) \<and>
     (cb_state b = CbClosed \<longrightarrow> cb_failures b = 0 \<or> int (cb_failures b) < cb_threshold b) \<and>
     (cb_state b = CbOpen \<longrightarrow> cb_open_until b \<le> co_now s + cb_cooldown b) \<and>
     cb_successes b < cb_success_threshold b \<and> 0 < cb_half_open_max b)"

lemmas breaker_defs = allow_def take_probe_def record_success_def record_failure_def open_locked_def reset_locked_def Let_def

lemma count_remove1: "x \<in> set xs \<Longrightarrow> count_list (remove1 x xs) y = (if x = y then count_list xs y - 1 else count_list xs y)"
  by (induction xs) (auto simp: count_list_0_iff)

lemma count_pos: "x \<in> set xs \<Longrightarrow> 0 < count_list xs x"
  by (induction xs) auto

lemma breaker_inv_step: "call_step s e t \<Longrightarrow> breaker_inv s \<Longrightarrow> breaker_inv t"
proof (induction rule: call_step.induct)
  case (Admit s b)
  then show ?case by (auto simp: breaker_inv_def breaker_defs kind_of_def split: if_splits)
next
  case (Refuse s b)
  then show ?case by (auto simp: breaker_inv_def breaker_defs split: if_splits)
next
  case (Succeed k s)
  then show ?case
    using count_pos [of Probe "co_flight s"]
    by (cases k) (auto simp: breaker_inv_def breaker_defs count_remove1 split: if_splits)
next
  case (Fail k s)
  then show ?case
    using count_pos [of Probe "co_flight s"]
    by (cases k) (auto simp: breaker_inv_def breaker_defs count_remove1 split: if_splits)
next
  case (Wait s t)
  then show ?case by (auto simp: breaker_inv_def Let_def)
next
  case (ForceClosed s)
  then show ?case by (auto simp: breaker_inv_def breaker_defs)
qed

lemma breaker_inv_start: "breaker_inv (idle_callers (new_breaker th cd st hm) t)"
  by (simp add: breaker_inv_def idle_callers_def new_breaker_def less_max_iff_disj)

lemma breaker_inv_calls: "calls s es t \<Longrightarrow> breaker_inv s \<Longrightarrow> breaker_inv t"
  by (induction rule: calls.induct) (auto intro: breaker_inv_step)

lemma call_step_settings: "call_step s e t \<Longrightarrow> cb_cooldown (co_breaker t) = cb_cooldown (co_breaker s) \<and> co_now s \<le> co_now t"
  by (induction rule: call_step.induct) (auto simp: breaker_defs split: if_splits)

lemma calls_time: "calls s es t \<Longrightarrow> co_now s \<le> co_now t"
  by (induction rule: calls.induct) (use call_step_settings order_trans in blast)+

lemma open_step:
  assumes "call_step s e t" "breaker_inv s" "cb_state (co_breaker s) = CbOpen" "co_now s < cb_open_until (co_breaker s)"
    "e \<noteq> ForceClosed"
  shows "(\<forall>k. e \<noteq> Admit k) \<and> cb_state (co_breaker t) = CbOpen \<and> cb_open_until (co_breaker s) \<le> cb_open_until (co_breaker t)"
  using assms by (cases rule: call_step.cases) (auto simp: breaker_defs breaker_inv_def split: if_splits)

lemma open_calls:
  assumes "calls s es t" "breaker_inv s" "cb_state (co_breaker s) = CbOpen" "co_now t < cb_open_until (co_breaker s)"
    "ForceClosed \<notin> set es"
  shows "(\<forall>k. Admit k \<notin> set es) \<and> cb_state (co_breaker t) = CbOpen \<and> cb_open_until (co_breaker s) \<le> cb_open_until (co_breaker t)"
  using assms
proof (induction rule: calls.induct)
  case (Quiet s)
  then show ?case by simp
next
  case (More s es t e u)
  then have "co_now t \<le> co_now u" using call_step_settings by blast
  with More have prev: "\<forall>k. Admit k \<notin> set es" "cb_state (co_breaker t) = CbOpen"
    "cb_open_until (co_breaker s) \<le> cb_open_until (co_breaker t)" by auto
  have "breaker_inv t" by (rule breaker_inv_calls [OF More(1,4)])
  moreover have "co_now t < cb_open_until (co_breaker t)" using prev(3) \<open>co_now t \<le> co_now u\<close> More(6) by simp
  moreover have "e \<noteq> ForceClosed" using More(7) by auto
  ultimately have "(\<forall>k. e \<noteq> Admit k) \<and> cb_state (co_breaker u) = CbOpen \<and>
      cb_open_until (co_breaker t) \<le> cb_open_until (co_breaker u)"
    by (intro open_step [OF More(2) _ prev(2)])
  with prev show ?case by auto
qed

section \<open>Recovery\<close>

definition good_probe :: "time \<Rightarrow> breaker \<Rightarrow> breaker" where
  "good_probe now b = record_success (snd (allow now b))"

lemma half_open_rounds:
  assumes "cb_state b = CbHalfOpen" "cb_probes b = 0" "0 < cb_half_open_max b"
    "cb_successes b + n < cb_success_threshold b"
  shows "(good_probe now ^^ n) b = b\<lparr> cb_successes := cb_successes b + n \<rparr>"
  using assms(4)
proof (induction n)
  case 0
  then show ?case by simp
next
  case (Suc n)
  with assms(1-3) show ?case by (simp add: good_probe_def breaker_defs)
qed

lemma probe_round:
  assumes "cb_state b = CbHalfOpen" "cb_probes b = 0" "0 < cb_half_open_max b"
  shows "fst (allow now b)" and "Suc (cb_successes b) = cb_success_threshold b \<Longrightarrow> cb_state (good_probe now b) = CbClosed"
  using assms by (simp_all add: good_probe_def breaker_defs)

section \<open>Properties\<close>

text \<open>
  C33: while the breaker of a provider is open and its cooldown lasts, no call is let through, whatever
  the callers already under way report and in whatever order they do; the cooldown is never cut short,
  except by the administrator's reset.
\<close>

theorem open_fails_fast:
  assumes "calls (idle_callers (new_breaker th cd st hm) t0) past s" and "cb_state (co_breaker s) = CbOpen"
    and "calls s es t" and "co_now t < cb_open_until (co_breaker s)" and "ForceClosed \<notin> set es"
  shows "(\<forall>k. Admit k \<notin> set es) \<and> cb_state (co_breaker t) = CbOpen \<and>
    cb_open_until (co_breaker s) \<le> cb_open_until (co_breaker t)"
  by (rule open_calls [OF assms(3) breaker_inv_calls [OF assms(1) breaker_inv_start] assms(2,4,5)])

text \<open>The first call fails at once and opens a breaker of threshold 1; the next one is refused.\<close>

definition tripped :: callers where
  "tripped = \<lparr> co_breaker = open_locked 0 (new_breaker 1 30 2 1\<lparr> cb_failures := 1 \<rparr>), co_now = 0, co_flight = [] \<rparr>"

lemma call_step_eq: "call_step s e t \<Longrightarrow> t = u \<Longrightarrow> call_step s e u"
  by simp

lemma admit_step:
  "allow (co_now s) (co_breaker s) = (True, b) \<Longrightarrow> k = kind_of b \<Longrightarrow>
   t = s\<lparr> co_breaker := b, co_flight := k # co_flight s \<rparr> \<Longrightarrow> call_step s (Admit k) t"
  using call_step.Admit by simp

lemma one_call: "call_step s e t \<Longrightarrow> calls s [e] t"
  using calls.More [OF calls.Quiet] by simp

lemma more_calls: "calls s es t \<Longrightarrow> call_step t e u \<Longrightarrow> fs = es @ [e] \<Longrightarrow> calls s fs u"
  using calls.More by simp

lemma tripped_calls: "calls (idle_callers (new_breaker 1 30 2 1) 0) [Admit Ordinary, Fail Ordinary] tripped"
proof -
  let ?b = "new_breaker 1 30 2 1"
  have "call_step (idle_callers ?b 0) (Admit (kind_of ?b)) ((idle_callers ?b 0)\<lparr> co_breaker := ?b, co_flight := [kind_of ?b] \<rparr>)"
    using call_step.Admit [of "idle_callers ?b 0" ?b] by (simp add: idle_callers_def breaker_defs new_breaker_def)
  moreover have "kind_of ?b = Ordinary" by (simp add: kind_of_def new_breaker_def)
  ultimately have "calls (idle_callers ?b 0) [Admit Ordinary] ((idle_callers ?b 0)\<lparr> co_breaker := ?b, co_flight := [Ordinary] \<rparr>)"
    by (simp add: one_call)
  then show ?thesis
  proof (rule more_calls)
    show "call_step ((idle_callers ?b 0)\<lparr> co_breaker := ?b, co_flight := [Ordinary] \<rparr>) (Fail Ordinary) tripped"
      by (rule call_step_eq [OF call_step.Fail]) (simp_all add: tripped_def idle_callers_def breaker_defs new_breaker_def)
  qed simp
qed

theorem open_fails_fast_witness:
  "calls tripped [Refuse] tripped \<and> cb_state (co_breaker tripped) = CbOpen \<and>
   (Admit Ordinary \<notin> set [Refuse]) \<and> cb_open_until (co_breaker tripped) = 30"
proof -
  have r: "calls tripped [Refuse] tripped"
    by (rule one_call, rule call_step_eq [OF call_step.Refuse])
      (simp_all add: tripped_def breaker_defs new_breaker_def)
  have "cb_state (co_breaker tripped) = CbOpen" "co_now tripped < cb_open_until (co_breaker tripped)"
    by (simp_all add: tripped_def open_locked_def new_breaker_def)
  with open_fails_fast [OF tripped_calls _ r] show ?thesis
    using r by (simp add: tripped_def open_locked_def new_breaker_def)
qed

text \<open>
  C34: what a call may send: at most the attempts the caller allows, a further request only after a
  reply the policy allows to retry, and the result is the one the last reply calls for. With no
  statuses to retry and no retry of timeouts, as for a request that must not be sent twice, every
  request but the last ended in a connection error.
\<close>

theorem retries_are_safe:
  "\<exists>rs. ex_log (snd (snd (request_with_retries p key reg x))) = ex_log x @ rs \<and>
     length rs \<le> nat (rt_max_attempts p) \<and> (\<forall>i < length rs - 1. retryable p (rs ! i)) \<and>
     (rs \<noteq> [] \<longrightarrow> fst (request_with_retries p key reg x) = result_of (verdict_of (List.last rs))) \<and>
     (rs = [] \<longrightarrow> fst (request_with_retries p key reg x) = ProviderUnavailable) \<and>
     (rt_on_status p = [] \<and> \<not> rt_timeouts p \<longrightarrow> (\<forall>i < length rs - 1. \<exists>t e. rs ! i = Broken True t e))"
proof -
  let ?n = "nat (rt_max_attempts p)"
  obtain rs where rs: "ex_log (snd (try_from p 1 ?n x)) = ex_log x @ rs" "exchange_ok p ?n rs (fst (try_from p 1 ?n x))"
    using try_from_log by blast
  have out: "fst (request_with_retries p key reg x) = result_of (fst (try_from p 1 ?n x)) \<and>
        snd (snd (request_with_retries p key reg x)) = snd (try_from p 1 ?n x) \<or>
      fst (request_with_retries p key reg x) = ProviderUnavailable \<and> snd (snd (request_with_retries p key reg x)) = x"
    by (simp add: request_with_retries_def split_beta Let_def)
  have mid: "retryable p (rs ! i)" if "i < length rs - 1" for i
    using rs(2) nth_mem [of i "butlast rs"] that by (simp add: exchange_ok_def nth_butlast)
  have strict: "\<exists>t e. r = Broken True t e" if "retryable p r" "rt_on_status p = []" "\<not> rt_timeouts p" for r
    using that by (cases r) (auto simp: retryable_def safe_to_retry_def)
  from out show ?thesis
  proof
    assume "fst (request_with_retries p key reg x) = result_of (fst (try_from p 1 ?n x)) \<and>
        snd (snd (request_with_retries p key reg x)) = snd (try_from p 1 ?n x)"
    with rs mid strict show ?thesis by (intro exI [of _ rs]) (auto simp: exchange_ok_def)
  next
    assume "fst (request_with_retries p key reg x) = ProviderUnavailable \<and> snd (snd (request_with_retries p key reg x)) = x"
    then show ?thesis by (intro exI [of _ "[]"]) simp
  qed
qed

definition charge_policy :: retry_policy where
  "charge_policy = \<lparr> rt_max_attempts = 3, rt_backoff = 1, rt_on_status = [], rt_timeouts = False \<rparr>"

text \<open>The first request does not connect, the second times out after it was sent.\<close>

definition flaky :: exchange where
  "flaky = \<lparr> ex_reply = (\<lambda>n. if n = 0 then Broken True False [] else Broken False True []), ex_takes = (\<lambda>_. 1), ex_now = 0,
     ex_log = [] \<rparr>"

theorem retries_are_safe_witness:
  "ex_log (snd (snd (request_with_retries charge_policy [] Map.empty flaky))) = [Broken True False [], Broken False True []] \<and>
   fst (request_with_retries charge_policy [] Map.empty flaky) = ProviderUnavailable \<and>
   (\<exists>t e. [Broken True False [], Broken False True []] ! 0 = Broken True t e)"
proof -
  let ?q = "request_with_retries charge_policy [] Map.empty flaky"
  have log: "ex_log (snd (snd ?q)) = [Broken True False [], Broken False True []]"
    by (simp add: request_with_retries_def split_beta try_from_Suc numeral_3_eq_3 charge_policy_def retryable_def safe_to_retry_def
        flaky_def send_def pause_def Let_def)
  from retries_are_safe [of charge_policy "[]" Map.empty flaky] log show ?thesis
    by (auto simp: flaky_def charge_policy_def)
qed

text \<open>
  An outcome reported late counts as a probe's. In a trial period with every slot taken no call is
  let through; when a call admitted before the breaker opened then succeeds, and one more success does
  not close the breaker, the slot of a probe still under way is freed, the next call is let through,
  and more probes are in flight than the breaker allows.
\<close>

theorem late_outcome_frees_probe:
  assumes "calls (idle_callers (new_breaker th cd st hm) t0) es s" and "cb_state (co_breaker s) = CbHalfOpen"
    and "cb_half_open_max (co_breaker s) \<le> cb_probes (co_breaker s)"
    and "Suc (cb_successes (co_breaker s)) < cb_success_threshold (co_breaker s)" and "Ordinary \<in> set (co_flight s)"
  shows "\<not> fst (allow (co_now s) (co_breaker s)) \<and>
    (\<forall>t. call_step s (Succeed Ordinary) t \<longrightarrow> fst (allow (co_now t) (co_breaker t))) \<and>
    (\<exists>t u. call_step s (Succeed Ordinary) t \<and> call_step t (Admit Probe) u \<and> cb_state (co_breaker u) = CbHalfOpen \<and>
       cb_half_open_max (co_breaker u) < count_list (co_flight u) Probe)"
proof -
  let ?b = "co_breaker s"
  let ?t = "s\<lparr> co_breaker := record_success ?b, co_flight := remove1 Ordinary (co_flight s) \<rparr>"
  have inv: "breaker_inv s" by (rule breaker_inv_calls [OF assms(1) breaker_inv_start])
  have refused: "\<not> fst (allow (co_now s) ?b)" using assms(2,3) by (simp add: breaker_defs)
  obtain c where let_in: "allow (co_now s) (record_success ?b) = (True, c)" "cb_state c = CbHalfOpen"
      "cb_half_open_max c = cb_half_open_max ?b"
  proof
    have "\<not> cb_half_open_max ?b \<le> cb_probes ?b - 1" "cb_success_threshold ?b \<le> Suc (cb_successes ?b) \<longleftrightarrow> False"
      using inv assms(4) by (auto simp: breaker_inv_def Let_def)
    with assms(2) show "allow (co_now s) (record_success ?b) = (True, ?b\<lparr> cb_probes := Suc (cb_probes ?b - 1),
        cb_successes := Suc (cb_successes ?b) \<rparr>)" by (simp add: breaker_defs)
  qed (use assms(2) in simp_all)
  have late: "call_step s (Succeed Ordinary) ?t" by (rule call_step.Succeed [OF assms(5)])
  have probe: "call_step ?t (Admit Probe) (?t\<lparr> co_breaker := c, co_flight := Probe # co_flight ?t \<rparr>)"
    by (rule admit_step) (use let_in in \<open>simp_all add: kind_of_def\<close>)
  have "cb_half_open_max ?b < count_list (Probe # co_flight ?t) Probe"
    using inv assms(3) by (simp add: breaker_inv_def count_remove1 [OF assms(5)] Let_def)
  then have "\<exists>t u. call_step s (Succeed Ordinary) t \<and> call_step t (Admit Probe) u \<and> cb_state (co_breaker u) = CbHalfOpen \<and>
       cb_half_open_max (co_breaker u) < count_list (co_flight u) Probe"
    using late probe let_in(2,3) by (intro exI [of _ ?t] exI conjI) (assumption, assumption, simp_all)
  moreover have "fst (allow (co_now t) (co_breaker t))" if "call_step s (Succeed Ordinary) t" for t
    using that let_in(1) by (cases rule: call_step.cases) simp_all
  ultimately show ?thesis using refused by blast
qed

text \<open>Two calls on a breaker of threshold 1; one fails, the trial period begins, the other succeeds.\<close>

theorem late_outcome_frees_probe_witness:
  "\<exists>s t u. cb_half_open_max (co_breaker s) = 1 \<and> call_step s (Succeed Ordinary) t \<and> call_step t (Admit Probe) u \<and>
     1 < count_list (co_flight u) Probe"
proof -
  let ?b = "new_breaker 1 30 2 1" and ?s = "\<lambda>b n fl. \<lparr> co_breaker = b, co_now = n, co_flight = fl \<rparr>"
  let ?o = "\<lparr> cb_threshold = 1, cb_cooldown = 30, cb_success_threshold = 2, cb_half_open_max = 1, cb_state = CbOpen,
      cb_failures = 1, cb_successes = 0, cb_open_until = 30, cb_probes = 0 \<rparr>"
  let ?h = "?o\<lparr> cb_state := CbHalfOpen, cb_probes := 1 \<rparr>"
  note defs = breaker_defs new_breaker_def kind_of_def idle_callers_def
  have c0: "calls (idle_callers ?b 0) [Admit Ordinary] (?s ?b 0 [Ordinary])"
    by (rule one_call, rule admit_step) (simp_all add: defs)
  have c1: "calls (idle_callers ?b 0) [Admit Ordinary, Admit Ordinary] (?s ?b 0 [Ordinary, Ordinary])"
    by (rule more_calls [OF c0 admit_step]) (simp_all add: defs)
  have c2: "calls (idle_callers ?b 0) [Admit Ordinary, Admit Ordinary, Fail Ordinary] (?s ?o 0 [Ordinary])"
    by (rule more_calls [OF c1 call_step_eq [OF call_step.Fail]]) (simp_all add: defs)
  have c3: "calls (idle_callers ?b 0) [Admit Ordinary, Admit Ordinary, Fail Ordinary, Wait] (?s ?o 30 [Ordinary])"
    by (rule more_calls [OF c2 call_step_eq [OF call_step.Wait [of _ 30]]]) simp_all
  have c4: "calls (idle_callers ?b 0) [Admit Ordinary, Admit Ordinary, Fail Ordinary, Wait, Admit Probe]
      (?s ?h 30 [Probe, Ordinary])"
    by (rule more_calls [OF c3 admit_step]) (simp_all add: defs)
  define z where "z = ?s ?h 30 [Probe, Ordinary]"
  have z: "cb_state (co_breaker z) = CbHalfOpen" "cb_half_open_max (co_breaker z) = 1" "cb_probes (co_breaker z) = 1"
      "cb_successes (co_breaker z) = 0" "cb_success_threshold (co_breaker z) = 2" "Ordinary \<in> set (co_flight z)"
    by (simp_all add: z_def)
  from late_outcome_frees_probe [OF c4 [folded z_def] z(1)] obtain t u where
    tu: "call_step z (Succeed Ordinary) t" "call_step t (Admit Probe) u" "cb_half_open_max (co_breaker u) < count_list (co_flight u) Probe"
    using z by auto
  then have "cb_half_open_max (co_breaker u) = 1"
    using z by (auto elim!: call_step_cases simp: breaker_defs split: if_splits)
  with tu z(2) show ?thesis by metis
qed

end
