(* ===== verification/Opening_Hours.thy ===== *)
theory Opening_Hours
  imports Prelude
begin

text \<open>
  apps/places/enrichment/opening_hours.py: the common subset of the OpenStreetMap notation, parsed
  into the minutes of each day of the week. A day is 0 for Monday to 6 for Sunday.
\<close>

section \<open>Strings\<close>

text \<open>\<open>str.split(c)\<close> for the characters of a predicate, \<open>str.split()\<close>, and \<open>str.split(c, 1)\<close>.\<close>

fun split_on :: "(char \<Rightarrow> bool) \<Rightarrow> string \<Rightarrow> string list" where
  "split_on P [] = [[]]"
| "split_on P (c # cs) =
     (if P c then [] # split_on P cs
      else case split_on P cs of [] \<Rightarrow> [[c]] | w # ws \<Rightarrow> (c # w) # ws)"

definition words_of :: "string \<Rightarrow> string list" where
  "words_of x = filter (\<lambda>w. w \<noteq> []) (split_on py_space x)"

definition split_once :: "char \<Rightarrow> string \<Rightarrow> (string \<times> string) option" where
  "split_once c x = (case dropWhile (\<lambda>a. a \<noteq> c) x of [] \<Rightarrow> None | _ # r \<Rightarrow> Some (takeWhile (\<lambda>a. a \<noteq> c) x, r))"

definition rstrip_char :: "char \<Rightarrow> string \<Rightarrow> string" where
  "rstrip_char c x = rev (dropWhile (\<lambda>a. a = c) (rev x))"

definition lower :: "string \<Rightarrow> string" where
  "lower = map (\<lambda>c. let n = of_char c :: nat in if 65 \<le> n \<and> n \<le> 90 then char_of (n + 32) else c)"

section \<open>Parsing\<close>

definition day_names :: "string list" where
  "day_names = [''mo'', ''tu'', ''we'', ''th'', ''fr'', ''sa'', ''su'']"

definition day_index :: "string \<Rightarrow> nat option" where
  "day_index d = map_of (zip day_names [0..<7]) d"

definition minutes_of :: "nat \<Rightarrow> nat \<Rightarrow> nat option" where
  "minutes_of hour minute =
     (if hour = 24 \<and> minute = 0 then Some 1440
      else if 23 < hour \<or> 59 < minute then None
      else Some (hour * 60 + minute))"

definition to_minutes :: "string \<Rightarrow> nat option" where
  "to_minutes value =
     (case strip value of
        [h, c, m, n] \<Rightarrow>
          (case (digit_of h, digit_of m, digit_of n) of
             (Some h, Some m, Some n) \<Rightarrow> if c = CHR '':'' then minutes_of h (10 * m + n) else None
           | _ \<Rightarrow> None)
      | [h, k, c, m, n] \<Rightarrow>
          (case (digit_of h, digit_of k, digit_of m, digit_of n) of
             (Some h, Some k, Some m, Some n) \<Rightarrow> if c = CHR '':'' then minutes_of (10 * h + k) (10 * m + n) else None
           | _ \<Rightarrow> None)
      | _ \<Rightarrow> None)"

definition day_span :: "nat \<Rightarrow> nat \<Rightarrow> nat list" where
  "day_span i j = (if i \<le> j then [i..<Suc j] else [i..<7] @ [0..<Suc j])"

fun expand_parts :: "string list \<Rightarrow> nat list option" where
  "expand_parts [] = Some []"
| "expand_parts (p # ps) =
     (let part = strip p in
      if part = [] then None
      else case (case split_once CHR ''-'' part of
                   Some (a, b) \<Rightarrow>
                     (case (day_index a, day_index b) of (Some i, Some j) \<Rightarrow> Some (day_span i j) | _ \<Rightarrow> None)
                 | None \<Rightarrow> map_option (\<lambda>i. [i]) (day_index part)) of
          None \<Rightarrow> None
        | Some ds \<Rightarrow> map_option (\<lambda>rest. ds @ rest) (expand_parts ps))"

definition expand_days :: "string \<Rightarrow> nat list option" where
  "expand_days spec = expand_parts (split_on (\<lambda>c. c = CHR '','') spec)"

type_synonym schedule = "(nat \<times> nat) list list"

definition no_hours :: schedule where
  "no_hours = replicate 7 []"

definition put_at :: "nat \<Rightarrow> nat \<times> nat \<Rightarrow> schedule \<Rightarrow> schedule" where
  "put_at d w sch = sch[d := sch ! d @ [w]]"

definition add_interval :: "nat \<Rightarrow> nat \<Rightarrow> nat \<Rightarrow> schedule \<Rightarrow> schedule" where
  "add_interval day start stop sch =
     (if start < stop then put_at day (start, stop) sch
      else if stop < start then put_at ((day + 1) mod 7) (0, stop) (put_at day (start, 1440) sch)
      else sch)"

text \<open>The windows of one rule, on all its days; anything unreadable makes the whole text unreadable.\<close>

fun add_windows :: "nat list \<Rightarrow> string list \<Rightarrow> schedule \<Rightarrow> schedule option" where
  "add_windows ds [] sch = Some sch"
| "add_windows ds (w # ws) sch =
     (case split_once CHR ''-'' w of
        None \<Rightarrow> None
      | Some (a, b) \<Rightarrow>
          (case (to_minutes a, to_minutes b) of
             (Some start, Some stop) \<Rightarrow> add_windows ds ws (fold (\<lambda>d. add_interval d start stop) ds sch)
           | _ \<Rightarrow> None))"

definition windows_of :: "string list \<Rightarrow> string list" where
  "windows_of specs = concat (map (\<lambda>sp. split_on (\<lambda>c. c = CHR '','') (rstrip_char CHR '','' sp)) specs)"

fun parse_rules :: "string list \<Rightarrow> bool \<Rightarrow> schedule \<Rightarrow> (bool \<times> schedule) option" where
  "parse_rules [] parsed_any sch = Some (parsed_any, sch)"
| "parse_rules (r # rs) parsed_any sch =
     (case words_of (strip r) of
        [] \<Rightarrow> parse_rules rs parsed_any sch
      | [_] \<Rightarrow> None
      | day_spec # specs \<Rightarrow>
          (case expand_days day_spec of
             None \<Rightarrow> None
           | Some ds \<Rightarrow>
               if ds = [] then None
               else if specs = [''off''] \<or> specs = [''closed''] then parse_rules rs True sch
               else (case add_windows ds (windows_of specs) sch of
                       None \<Rightarrow> None
                     | Some sch' \<Rightarrow> parse_rules rs True sch')))"

definition always_open :: schedule where
  "always_open = replicate 7 [(0, 1440)]"

definition parse_opening_hours :: "string \<Rightarrow> schedule option" where
  "parse_opening_hours raw =
     (if strip raw = [] then None
      else let text = lower (strip raw) in
        if text \<in> {''24/7'', ''24/7 open'', ''mo-su 00:00-24:00''} then Some always_open
        else case parse_rules (split_on (\<lambda>c. c = CHR '';'') text) False no_hours of
            None \<Rightarrow> None
          | Some (parsed_any, sch) \<Rightarrow> if parsed_any then Some sch else None)"

section \<open>Answering\<close>

definition is_open_at :: "schedule option \<Rightarrow> nat \<Rightarrow> nat \<Rightarrow> bool option" where
  "is_open_at sch day minute =
     (case sch of
        None \<Rightarrow> None
      | Some s \<Rightarrow> if s = [] then None else Some (\<exists>(a, b) \<in> set (s ! day). a \<le> minute \<and> minute < b))"

section \<open>A reference semantics\<close>

text \<open>
  The rules as data, a rule being its days and its windows, and when one of them is in force: a window
  that ends before it starts runs over midnight into the next day.
\<close>

definition window_open :: "nat \<Rightarrow> nat \<Rightarrow> nat \<Rightarrow> nat \<Rightarrow> nat \<Rightarrow> bool" where
  "window_open d start stop day minute \<longleftrightarrow>
     (if start \<le> stop then day = d \<and> start \<le> minute \<and> minute < stop
      else day = d \<and> start \<le> minute \<or> day = (d + 1) mod 7 \<and> minute < stop)"

type_synonym hour_rule = "nat list \<times> (nat \<times> nat) list"

definition rule_open :: "hour_rule \<Rightarrow> nat \<Rightarrow> nat \<Rightarrow> bool" where
  "rule_open r day minute \<longleftrightarrow> (\<exists>d \<in> set (fst r). \<exists>(a, b) \<in> set (snd r). window_open d a b day minute)"

fun read_windows :: "string list \<Rightarrow> (nat \<times> nat) list option" where
  "read_windows [] = Some []"
| "read_windows (w # ws) =
     (case split_once CHR ''-'' w of
        None \<Rightarrow> None
      | Some (a, b) \<Rightarrow>
          (case (to_minutes a, to_minutes b) of
             (Some x, Some y) \<Rightarrow> map_option (\<lambda>rest. (x, y) # rest) (read_windows ws)
           | _ \<Rightarrow> None))"

fun read_rules :: "string list \<Rightarrow> hour_rule list option" where
  "read_rules [] = Some []"
| "read_rules (r # rs) =
     (case words_of (strip r) of
        [] \<Rightarrow> read_rules rs
      | [_] \<Rightarrow> None
      | day_spec # specs \<Rightarrow>
          (case expand_days day_spec of
             None \<Rightarrow> None
           | Some ds \<Rightarrow>
               if ds = [] then None
               else (case (if specs = [''off''] \<or> specs = [''closed''] then Some [] else read_windows (windows_of specs)) of
                       None \<Rightarrow> None
                     | Some ws \<Rightarrow> map_option (\<lambda>rest. (ds, ws) # rest) (read_rules rs))))"

definition hour_rules :: "string \<Rightarrow> hour_rule list option" where
  "hour_rules raw =
     (let text = lower (strip raw) in
      if text \<in> {''24/7'', ''24/7 open'', ''mo-su 00:00-24:00''} then Some [([0..<7], [(0, 1440)])]
      else read_rules (split_on (\<lambda>c. c = CHR '';'') text))"

section \<open>The schedule means the rules\<close>

definition covers :: "schedule \<Rightarrow> nat \<Rightarrow> nat \<Rightarrow> bool" where
  "covers sch day minute \<longleftrightarrow> (\<exists>(a, b) \<in> set (sch ! day). a \<le> minute \<and> minute < b)"

definition apply_rule :: "hour_rule \<Rightarrow> schedule \<Rightarrow> schedule" where
  "apply_rule r = fold (\<lambda>(a, b). fold (\<lambda>d. add_interval d a b) (fst r)) (snd r)"

lemma add_windows_read:
  "add_windows ds ws sch = map_option (\<lambda>tr. apply_rule (ds, tr) sch) (read_windows ws)"
  by (induction ds ws sch rule: add_windows.induct)
    (auto simp: apply_rule_def option.map_comp comp_def split: option.splits)

lemma parse_rules_read:
  "parse_rules rs p sch = map_option (\<lambda>hs. (p \<or> hs \<noteq> [], fold apply_rule hs sch)) (read_rules rs)"
proof (induction rs arbitrary: p sch)
  case Nil
  then show ?case by simp
next
  case (Cons r rs)
  then show ?case
    by (auto simp: add_windows_read apply_rule_def option.map_comp comp_def split: list.splits option.splits)
qed

lemma day_index_less: "day_index d = Some i \<Longrightarrow> i < 7"
  unfolding day_index_def by (drule map_of_SomeD) (auto dest: set_zip_rightD)

lemma expand_parts_less: "expand_parts ps = Some ds \<Longrightarrow> d \<in> set ds \<Longrightarrow> d < 7"
proof (induction ps arbitrary: ds)
  case (Cons p ps)
  then show ?case
    by (auto simp: Let_def day_span_def split: if_splits option.splits prod.splits dest!: day_index_less)
qed simp

lemma minutes_le: "to_minutes x = Some n \<Longrightarrow> n \<le> 1440"
  by (auto simp: to_minutes_def minutes_of_def Let_def split: list.splits option.splits if_splits)

lemma read_windows_le: "read_windows ws = Some tr \<Longrightarrow> (a, b) \<in> set tr \<Longrightarrow> a \<le> 1440 \<and> b \<le> 1440"
  by (induction ws arbitrary: tr) (auto split: option.splits prod.splits dest!: minutes_le)

definition rule_ok :: "hour_rule \<Rightarrow> bool" where
  "rule_ok r \<longleftrightarrow> (\<forall>d \<in> set (fst r). d < 7) \<and> (\<forall>(a, b) \<in> set (snd r). a \<le> 1440 \<and> b \<le> 1440)"

lemma read_rules_ok: "read_rules rs = Some hs \<Longrightarrow> r \<in> set hs \<Longrightarrow> rule_ok r"
proof (induction rs arbitrary: hs)
  case (Cons x rs)
  show ?case
  proof (cases "words_of (strip x)")
    case Nil
    with Cons show ?thesis by simp
  next
    case (Cons w sp)
    note x = this
    with Cons.prems(1) obtain ds ws rest where p: "sp \<noteq> []" "expand_days w = Some ds" "hs = (ds, ws) # rest"
        "read_rules rs = Some rest" "ws = [] \<or> read_windows (windows_of sp) = Some ws"
      by (auto split: list.splits option.splits if_splits)
    have "rule_ok (ds, ws)"
      using p expand_parts_less read_windows_le unfolding rule_ok_def expand_days_def by fastforce
    with p Cons.IH [OF p(4)] Cons.prems(2) show ?thesis by auto
  qed
qed simp

lemma length_add_interval [simp]: "length (add_interval d a b sch) = length sch"
  by (simp add: add_interval_def put_at_def)

lemma covers_put:
  "d < length sch \<Longrightarrow> covers (put_at d (a, b) sch) day minute \<longleftrightarrow>
   covers sch day minute \<or> day = d \<and> a \<le> minute \<and> minute < b"
  by (cases "day = d") (auto simp: covers_def put_at_def)

lemma covers_add_interval:
  assumes "length sch = 7" "d < 7" "minute < 1440"
  shows "covers (add_interval d a b sch) day minute \<longleftrightarrow> covers sch day minute \<or> window_open d a b day minute"
proof -
  have "(d + 1) mod 7 < length (put_at d (a, 1440) sch)" using assms by (simp add: put_at_def)
  with assms show ?thesis
    by (auto simp: add_interval_def covers_put window_open_def)
qed

lemma covers_fold_days:
  "length sch = 7 \<Longrightarrow> \<forall>d \<in> set ds. d < 7 \<Longrightarrow> minute < 1440 \<Longrightarrow>
   length (fold (\<lambda>d. add_interval d a b) ds sch) = 7 \<and>
   (covers (fold (\<lambda>d. add_interval d a b) ds sch) day minute \<longleftrightarrow>
     covers sch day minute \<or> (\<exists>d \<in> set ds. window_open d a b day minute))"
  by (induction ds arbitrary: sch) (auto simp: covers_add_interval)

lemma covers_apply_rule:
  assumes "\<forall>d \<in> set (fst r). d < 7" "minute < 1440" "length sch = 7"
  shows "length (apply_rule r sch) = 7 \<and>
    (covers (apply_rule r sch) day minute \<longleftrightarrow> covers sch day minute \<or> rule_open r day minute)"
proof -
  obtain ds ws where r: "r = (ds, ws)" by (cases r)
  have "length (fold (\<lambda>(a, b). fold (\<lambda>d. add_interval d a b) ds) ws sch) = 7 \<and>
    (covers (fold (\<lambda>(a, b). fold (\<lambda>d. add_interval d a b) ds) ws sch) day minute \<longleftrightarrow>
      covers sch day minute \<or> (\<exists>w \<in> set ws. \<exists>d \<in> set ds. window_open d (fst w) (snd w) day minute))"
    using assms(3)
  proof (induction ws arbitrary: sch)
    case (Cons w ws)
    let ?t = "fold (\<lambda>d. add_interval d (fst w) (snd w)) ds sch"
    have "length ?t = 7 \<and> (covers ?t day minute \<longleftrightarrow> covers sch day minute \<or>
        (\<exists>d \<in> set ds. window_open d (fst w) (snd w) day minute))"
      by (rule covers_fold_days) (use assms(1,2) Cons.prems r in auto)
    with Cons.IH [of ?t] show ?case by (simp add: case_prod_beta)
  qed simp
  moreover have "rule_open r day minute \<longleftrightarrow> (\<exists>w \<in> set ws. \<exists>d \<in> set ds. window_open d (fst w) (snd w) day minute)"
    unfolding rule_open_def r by (simp add: case_prod_beta) blast
  ultimately show ?thesis by (simp add: apply_rule_def r)
qed

lemma covers_rules:
  "length sch = 7 \<Longrightarrow> \<forall>r \<in> set hs. rule_ok r \<Longrightarrow> minute < 1440 \<Longrightarrow>
   length (fold apply_rule hs sch) = 7 \<and>
   (covers (fold apply_rule hs sch) day minute \<longleftrightarrow> covers sch day minute \<or> (\<exists>r \<in> set hs. rule_open r day minute))"
proof (induction hs arbitrary: sch)
  case (Cons r hs)
  have "length (apply_rule r sch) = 7 \<and>
    (covers (apply_rule r sch) day minute \<longleftrightarrow> covers sch day minute \<or> rule_open r day minute)"
    by (rule covers_apply_rule) (use Cons.prems in \<open>auto simp: rule_ok_def\<close>)
  with Cons.IH [of "apply_rule r sch"] Cons.prems show ?case by auto
qed simp

lemma not_covered: "day < 7 \<Longrightarrow> \<not> covers no_hours day minute"
  by (simp add: covers_def no_hours_def)

section \<open>Properties\<close>

text \<open>
  C36: what the parser makes of opening hours is what the rules mean: it succeeds exactly when the text
  has a rule and all of them are readable, and a venue then counts as open at a minute of the week
  exactly when a window of some rule is in force, a window that ends before it starts running on after
  midnight, Sunday's into Monday.
\<close>

theorem hours_mean_rules:
  assumes "day < 7" and "minute < 1440" and "strip raw \<noteq> []"
  shows "is_open_at (parse_opening_hours raw) day minute =
    (case hour_rules raw of
       None \<Rightarrow> None
     | Some hs \<Rightarrow> if hs = [] then None else Some (\<exists>r \<in> set hs. rule_open r day minute))"
proof (cases "lower (strip raw) \<in> {''24/7'', ''24/7 open'', ''mo-su 00:00-24:00''}")
  case True
  then show ?thesis
    using assms by (auto simp: parse_opening_hours_def hour_rules_def is_open_at_def always_open_def Let_def rule_open_def
        window_open_def)
next
  case False
  let ?rs = "split_on (\<lambda>c. c = CHR '';'') (lower (strip raw))"
  have p: "parse_opening_hours raw = (case read_rules ?rs of None \<Rightarrow> None
      | Some hs \<Rightarrow> if hs = [] then None else Some (fold apply_rule hs no_hours))"
    using False assms(3) by (auto simp: parse_opening_hours_def Let_def parse_rules_read split: option.split)
  show ?thesis
  proof (cases "read_rules ?rs")
    case None
    with p False show ?thesis by (simp add: hour_rules_def is_open_at_def Let_def)
  next
    case (Some hs)
    have "length (fold apply_rule hs no_hours) = 7 \<and> (covers (fold apply_rule hs no_hours) day minute \<longleftrightarrow>
        covers no_hours day minute \<or> (\<exists>r \<in> set hs. rule_open r day minute))"
      by (rule covers_rules) (use assms read_rules_ok [OF Some] in \<open>auto simp: no_hours_def\<close>)
    then have "fold apply_rule hs no_hours \<noteq> []" "covers (fold apply_rule hs no_hours) day minute \<longleftrightarrow>
        (\<exists>r \<in> set hs. rule_open r day minute)"
      using not_covered [OF assms(1)] by auto
    with p Some False show ?thesis by (simp add: hour_rules_def is_open_at_def Let_def covers_def)
  qed
qed

theorem hours_mean_rules_witness:
  "is_open_at (parse_opening_hours ''Fr-Sa 20:00-02:00'') 6 60 = Some True \<and>
   is_open_at (parse_opening_hours ''Fr-Sa 20:00-02:00'') 0 60 = Some False"
proof -
  have r: "hour_rules ''Fr-Sa 20:00-02:00'' = Some [([4, 5], [(1200, 120)])]" "strip ''Fr-Sa 20:00-02:00'' \<noteq> []"
    by code_simp+
  show ?thesis
    using hours_mean_rules [of 6 60 "''Fr-Sa 20:00-02:00''"] hours_mean_rules [of 0 60 "''Fr-Sa 20:00-02:00''"] r
    by (simp add: rule_open_def window_open_def)
qed

lemma parse_rules_append:
  "parse_rules (rs @ rs') p sch =
    (case parse_rules rs p sch of None \<Rightarrow> None | Some (q, t) \<Rightarrow> parse_rules rs' q t)"
  by (induction rs p sch rule: parse_rules.induct) (auto split: list.split option.split)

lemma split_on_plain: "\<forall>c \<in> set y. \<not> P c \<Longrightarrow> split_on P y = [y]"
  by (induction y) simp_all

lemma split_on_append: "P c \<Longrightarrow> split_on P (x @ c # y) = split_on P x @ split_on P y"
proof (induction x)
  case (Cons a x)
  have "split_on P x \<noteq> []" by (induction x) (auto split: list.split)
  with Cons show ?case by (auto split: list.split)
qed simp

lemma strip_same:
  assumes "\<not> py_space (hd x)" "\<not> py_space (List.last x)"
  shows "strip x = x"
proof (cases "x = []")
  case False
  then have "dropWhile py_space x = x" using assms(1) by (cases x) auto
  moreover have "dropWhile py_space (rev x) = rev x"
    using assms(2) False by (cases "rev x") (auto simp: hd_rev [symmetric])
  ultimately show ?thesis by (simp add: strip_def)
qed (simp add: strip_def)

lemma strip_ends:
  assumes "strip x = x" "x \<noteq> []"
  shows "\<not> py_space (hd x)" "\<not> py_space (List.last x)"
proof -
  have l: "length (dropWhile py_space (rev (dropWhile py_space x))) \<le> length (dropWhile py_space x)"
    using length_dropWhile_le [of py_space "rev (dropWhile py_space x)"] by simp
  have "length (strip x) = length x" using assms(1) by simp
  with l have full: "length (dropWhile py_space x) = length x"
    using length_dropWhile_le [of py_space x] by (simp add: strip_def)
  then show h: "\<not> py_space (hd x)"
    using assms(2) length_dropWhile_le [of py_space "tl x"] by (cases x) (auto split: if_splits)
  then have d: "dropWhile py_space x = x" using assms(2) by (cases x) auto
  with assms(1) have "dropWhile py_space (rev x) = rev x" by (metis rev_rev_ident strip_def)
  then show "\<not> py_space (List.last x)"
    using assms(2) hd_dropWhile [of py_space "rev x"] by (auto simp: hd_rev)
qed

definition lower_one :: "char \<Rightarrow> char" where
  "lower_one c = (let n = of_char c :: nat in if 65 \<le> n \<and> n \<le> 90 then char_of (n + 32) else c)"

lemma lower_map: "lower x = map lower_one x"
  by (simp add: lower_def lower_one_def)

lemma lower_one_code:
  "of_char (lower_one c) = (let n = of_char c :: nat in if 65 \<le> n \<and> n \<le> 90 then n + 32 else n)"
  by (simp add: lower_one_def Let_def)

lemma lower_one_space: "py_space (lower_one c) = py_space c"
  unfolding py_space_def lower_one_code by (auto simp: Let_def)

lemma lower_strip: "x \<noteq> [] \<Longrightarrow> strip x = x \<Longrightarrow> strip (lower x) = lower x"
proof -
  assume x: "x \<noteq> []" "strip x = x"
  have "hd (lower x) = lower_one (hd x)" "List.last (lower x) = lower_one (List.last x)"
    using x(1) by (simp_all add: lower_map hd_map last_map)
  with strip_ends [OF x(2,1)] show ?thesis by (intro strip_same) (simp_all add: lower_one_space)
qed

lemma lower_separator:
  assumes "CHR '';'' \<in> set (lower x)"
  shows "CHR '';'' \<in> set x"
proof -
  obtain c where c: "c \<in> set x" "lower_one c = CHR '';''" using assms by (auto simp: lower_map)
  have code: "(let n = of_char c :: nat in if 65 \<le> n \<and> n \<le> 90 then n + 32 else n) = 59"
    using lower_one_code [of c] c(2) by simp
  then have "\<not> (65 \<le> (of_char c :: nat) \<and> of_char c \<le> (90 :: nat))" by (auto simp: Let_def)
  then have "lower_one c = c" by (auto simp: lower_one_def Let_def)
  with c show ?thesis by simp
qed

text \<open>A rule that closes the venue on some days: a day specification and \<open>off\<close> or \<open>closed\<close>.\<close>

definition closing_days :: "string \<Rightarrow> nat list" where
  "closing_days r =
     (let ws = words_of (lower r) in
      if length ws = 2 \<and> List.last ws \<in> {''off'', ''closed''}
      then (case expand_days (hd ws) of None \<Rightarrow> [] | Some ds \<Rightarrow> ds) else [])"

lemma parse_by_rules:
  assumes "strip raw = raw" "raw \<noteq> []" "lower raw \<notin> {''24/7'', ''24/7 open'', ''mo-su 00:00-24:00''}"
  shows "parse_opening_hours raw =
    (case parse_rules (split_on (\<lambda>c. c = CHR '';'') (lower raw)) False no_hours of
       None \<Rightarrow> None | Some (any, sch) \<Rightarrow> if any then Some sch else None)"
  unfolding parse_opening_hours_def Let_def assms(1) if_not_P [OF assms(2)] if_not_P [OF assms(3)] ..

lemma closing_parsed:
  assumes "d \<in> set (closing_days r)" and "strip (lower r) = lower r"
  shows "parse_rules [CHR '' '' # lower r] p sch = Some (True, sch)"
proof -
  have d: "d \<in> set (closing_days r)" by (rule assms(1))
  have len: "length (words_of (lower r)) = 2"
  proof (rule ccontr)
    assume "length (words_of (lower r)) \<noteq> 2"
    then have "closing_days r = []" by (simp add: closing_days_def Let_def)
    with d show False by simp
  qed
  obtain e w where ew: "words_of (lower r) = [e, w]" using len by (auto simp: numeral_2_eq_2 length_Suc_conv)
  have w: "w \<in> {''off'', ''closed''}"
  proof (rule ccontr)
    assume "w \<notin> {''off'', ''closed''}"
    then have "closing_days r = []" using ew by (simp add: closing_days_def Let_def)
    with d show False by simp
  qed
  then have "closing_days r = (case expand_days e of None \<Rightarrow> [] | Some ds \<Rightarrow> ds)"
    using ew by (simp add: closing_days_def Let_def)
  with d obtain ds where r: "expand_days e = Some ds" "ds \<noteq> []" by (cases "expand_days e") force+
  have "strip (CHR '' '' # lower r) = strip (lower r)" by (simp add: strip_def py_space_def)
  with r ew w assms(2) show ?thesis by auto
qed

text \<open>
  A closing rule does nothing: when opening hours that the parser reads rule by rule are followed by
  a rule that closes the venue on some days (off or closed), they are parsed as if that rule were
  not there, so the venue counts as open on those days at the hours of the earlier rules.
\<close>

theorem closing_rule_ignored:
  assumes "parse_opening_hours raw = Some sch" and "strip raw = raw"
    and "lower raw \<notin> {''24/7'', ''24/7 open'', ''mo-su 00:00-24:00''}"
    and "d \<in> set (closing_days r)" and "strip r = r" and "CHR '';'' \<notin> set r"
  shows "parse_opening_hours (raw @ ''; '' @ r) = Some sch \<and>
    (is_open_at (Some sch) d minute = Some True \<longrightarrow>
       is_open_at (parse_opening_hours (raw @ ''; '' @ r)) d minute = Some True)"
proof -
  let ?x = "raw @ ''; '' @ r" and ?sep = "\<lambda>c. c = CHR '';''"
  have r: "r \<noteq> []"
  proof
    assume "r = []"
    then have "closing_days r = []" by (simp add: closing_days_def lower_def words_of_def Let_def)
    with assms(4) show False by simp
  qed
  have raw: "raw \<noteq> []" using assms(1,2) by (auto simp: parse_opening_hours_def)
  have "\<not> py_space (hd ?x)" "\<not> py_space (List.last ?x)"
    using strip_ends(1) [OF assms(2) raw] strip_ends(2) [OF assms(5) r] raw r by simp_all
  then have x: "strip ?x = ?x" by (rule strip_same)
  have low: "lower ?x = lower raw @ CHR '';'' # CHR '' '' # lower r"
    by (simp add: lower_map lower_one_def)
  have plain: "lower ?x \<notin> {''24/7'', ''24/7 open'', ''mo-su 00:00-24:00''}"
  proof
    assume "lower ?x \<in> {''24/7'', ''24/7 open'', ''mo-su 00:00-24:00''}"
    then have "CHR '';'' \<notin> set (lower ?x)" by auto
    moreover have "CHR '';'' \<in> set (lower ?x)" unfolding low by simp
    ultimately show False by blast
  qed
  have "(case parse_rules (split_on ?sep (lower raw)) False no_hours of
      None \<Rightarrow> None | Some (any, t) \<Rightarrow> if any then Some t else None) = Some sch"
    using assms(1) parse_by_rules [OF assms(2) raw assms(3)] by simp
  then obtain q where q: "parse_rules (split_on ?sep (lower raw)) False no_hours = Some (q, sch)"
    by (cases "parse_rules (split_on ?sep (lower raw)) False no_hours") (simp_all split: prod.splits if_split_asm)
  have "\<forall>c \<in> set (CHR '' '' # lower r). \<not> ?sep c" using lower_separator [of r] assms(6) by auto
  then have one: "split_on ?sep (CHR '' '' # lower r) = [CHR '' '' # lower r]" by (rule split_on_plain)
  have "parse_rules (split_on ?sep (lower ?x)) False no_hours = Some (True, sch)"
    unfolding low split_on_append [of ?sep "CHR '';''", OF refl] one parse_rules_append q
    using closing_parsed [OF assms(4) lower_strip [OF r assms(5)]] by simp
  then have "parse_opening_hours ?x = Some sch" using parse_by_rules [OF x _ plain] raw by simp
  then show ?thesis by simp
qed

theorem closing_rule_ignored_witness:
  "is_open_at (parse_opening_hours (''Mo-Su 08:00-22:00'' @ ''; '' @ ''Su off'')) 6 600 = Some True"
proof -
  have "is_open_at (parse_opening_hours ''Mo-Su 08:00-22:00'') 6 600 = Some True" by code_simp
  then obtain sch where sch: "parse_opening_hours ''Mo-Su 08:00-22:00'' = Some sch" "is_open_at (Some sch) 6 600 = Some True"
    by (cases "parse_opening_hours ''Mo-Su 08:00-22:00''") (simp_all add: is_open_at_def)
  have "6 \<in> set (closing_days ''Su off'')" by code_simp
  moreover have "strip ''Mo-Su 08:00-22:00'' = ''Mo-Su 08:00-22:00''" "strip ''Su off'' = ''Su off''" by code_simp+
  moreover have "lower ''Mo-Su 08:00-22:00'' \<notin> {''24/7'', ''24/7 open'', ''mo-su 00:00-24:00''}" by code_simp
  ultimately show ?thesis using closing_rule_ignored [OF sch(1), of 6 "''Su off''" 600] sch(2) by simp
qed

end
