(* ===== verification/Venue_Overlays.thy ===== *)
theory Venue_Overlays
  imports Activities Opening_Hours Threads
begin

text \<open>
  apps/places/services.py: what members and venue owners add to a place without changing its
  imported row. Accessibility facts, crowd votes on venue facts, reports of wrong opening hours,
  corrections behind a quorum, and the claims of venue owners. The tables of these overlays extend
  the database; the columns of a place that only they read are a function of its id.
\<close>

section \<open>Rows (apps/places/models.py)\<close>

datatype fact_state = FactTrue | FactFalse | FactLimited | FactUnknown

datatype fact_key =
    DrinkingWater | Toilets | LitAtNight | IndoorShelter | Fenced | Shade | Playground
  | BikeParking | CarParking | BusTramNearby

record fact_vote =
  fv_id :: id
  fv_place :: id
  fv_user :: id
  fv_key :: fact_key
  fv_value :: bool

record hours_report =
  hr_id :: id
  hr_place :: id
  hr_user :: id
  hr_created_at :: time

datatype correction_field = CorrName | CorrAddress | CorrHours

datatype correction_status = CorrPending | CorrPublished | CorrRejected

record correction =
  co_id :: id
  co_place :: id
  co_proposer :: id
  co_field :: correction_field
  co_value :: string
  co_required :: nat
  co_status :: correction_status
  co_created_at :: time
  co_published_at :: "time option"

record access_pref =
  xp_user :: id
  xp_step_free :: bool
  xp_toilet :: bool
  xp_hearing_loop :: bool
  xp_quiet :: bool

record partner =
  pa_id :: id
  pa_name :: string
  pa_kind :: string
  pa_place :: "id option"
  pa_website :: string
  pa_verified :: bool
  pa_active :: bool

datatype claim_status = ClPending | ClApproved | ClRejected

record claim =
  cl_id :: id
  cl_place :: id
  cl_claimant :: id
  cl_org_name :: string
  cl_kind :: string
  cl_website :: string
  cl_email :: string
  cl_cui :: string
  cl_evidence :: string
  cl_status :: claim_status
  cl_partner :: "id option"
  cl_decided_by :: "id option"
  cl_decided_at :: "time option"

record place_columns =
  px_address :: string
  px_hours_raw :: string
  px_hours :: schedule
  px_website :: string

record venue_settings =
  vs_hours_threshold :: nat
  vs_hours_decay :: int
  vs_hours_limit :: int
  vs_hours_window :: int
  vs_fact_quorum :: nat
  vs_fact_limit :: int
  vs_fact_window :: int
  vs_correction_quorum :: nat

definition default_venue_settings :: venue_settings where
  "default_venue_settings = \<lparr> vs_hours_threshold = 3, vs_hours_decay = 14 * 24 * 3600, vs_hours_limit = 10,
     vs_hours_window = 3600, vs_fact_quorum = 3, vs_fact_limit = 40, vs_fact_window = 3600, vs_correction_quorum = 3 \<rparr>"

record venues =
  vn_db :: db
  vn_conf :: venue_settings
  vn_columns :: "id \<Rightarrow> place_columns"
  vn_reports :: "hours_report list"
  vn_votes :: "fact_vote list"
  vn_corrections :: "correction list"
  vn_confirms :: "(id \<times> id) list"
  vn_prefs :: "access_pref list"
  vn_partners :: "partner list"
  vn_claims :: "claim list"

datatype venue_error =
    VenuesNotEligible string | VenuesInvalid string | VenuesError string | ClaimError string | ManyPartners

definition with_db :: "(db \<Rightarrow> db) \<Rightarrow> venues \<Rightarrow> venues" where
  "with_db f s = s\<lparr> vn_db := f (vn_db s) \<rparr>"

text \<open>A fresh id of the database's sequence.\<close>

definition next_id :: "venues \<Rightarrow> id" where
  "next_id s = seq (vn_db s)"

definition take_id :: "venues \<Rightarrow> venues" where
  "take_id s = with_db (\<lambda>d. d\<lparr> seq := Suc (seq d) \<rparr>) s"

definition place_target :: "id \<Rightarrow> string \<times> id" where
  "place_target p = (''places.place'', p)"

section \<open>Accessibility\<close>

definition tristate :: "bool \<Rightarrow> json option \<Rightarrow> fact_state" where
  "tristate allow_limited v =
     (case v of
        Some (JStr x) \<Rightarrow>
          (let y = lower (strip x) in
           if y = ''yes'' then FactTrue
           else if y = ''no'' then FactFalse
           else if allow_limited \<and> y = ''limited'' then FactLimited
           else FactUnknown)
      | _ \<Rightarrow> FactUnknown)"

record access_facts =
  af_step_free :: fact_state
  af_toilet :: fact_state
  af_changing_table :: fact_state
  af_tactile :: fact_state
  af_hearing_loop :: fact_state
  af_door :: fact_state

definition accessibility_facts :: "place \<Rightarrow> access_facts" where
  "accessibility_facts p =
     \<lparr> af_step_free = tristate True (tag_of p ''wheelchair''),
       af_toilet = tristate False (tag_of p ''toilets:wheelchair''),
       af_changing_table = tristate False (tag_of p ''changing_table''),
       af_tactile = tristate False (tag_of p ''tactile_paving''),
       af_hearing_loop = tristate False (tag_of p ''hearing_loop''),
       af_door = tristate False (tag_of p ''automatic_door'') \<rparr>"

definition accessibility_facts_display :: "place \<Rightarrow> (string \<times> string \<times> fact_state) list" where
  "accessibility_facts_display p =
     (let f = accessibility_facts p in
      [(''step_free'', ''Step-free access'', af_step_free f),
       (''accessible_toilet'', ''Accessible toilet'', af_toilet f),
       (''changing_table'', ''Baby changing table'', af_changing_table f),
       (''tactile_paving'', ''Tactile paving'', af_tactile f),
       (''hearing_loop'', ''Hearing loop'', af_hearing_loop f),
       (''automatic_door'', ''Automatic door'', af_door f)])"

fun plain_state :: "fact_state \<Rightarrow> string" where
  "plain_state FactTrue = ''yes''"
| "plain_state FactFalse = ''no''"
| "plain_state FactLimited = ''limited''"
| "plain_state FactUnknown = ''not recorded''"

datatype access_match = AccessMatch | AccessMismatch | AccessUnknown

definition needs_of :: "access_facts \<Rightarrow> access_pref \<Rightarrow> fact_state list" where
  "needs_of f p = (if xp_step_free p then [af_step_free f] else []) @ (if xp_toilet p then [af_toilet f] else []) @
     (if xp_hearing_loop p then [af_hearing_loop f] else [])"

definition matches_access_preference :: "access_facts \<Rightarrow> access_pref option \<Rightarrow> access_match" where
  "matches_access_preference f pref =
     (case pref of
        None \<Rightarrow> AccessUnknown
      | Some p \<Rightarrow>
          let needs = needs_of f p in
          if needs = [] then AccessUnknown
          else if FactFalse \<in> set needs then AccessMismatch
          else if \<forall>x \<in> set needs. x = FactTrue then AccessMatch
          else AccessUnknown)"

definition get_access_preference :: "venues \<Rightarrow> id \<Rightarrow> access_pref option" where
  "get_access_preference s u = List.find (\<lambda>x. xp_user x = u) (vn_prefs s)"

definition set_access_preference :: "access_pref \<Rightarrow> venues \<Rightarrow> venues" where
  "set_access_preference p s =
     (if \<exists>x \<in> set (vn_prefs s). xp_user x = xp_user p
      then s\<lparr> vn_prefs := update_rows (\<lambda>x. xp_user x = xp_user p) (\<lambda>_. p) (vn_prefs s) \<rparr>
      else s\<lparr> vn_prefs := vn_prefs s @ [p] \<rparr>)"

definition has_access_need :: "access_pref option \<Rightarrow> bool" where
  "has_access_need pref \<longleftrightarrow> (case pref of None \<Rightarrow> False | Some p \<Rightarrow> xp_step_free p \<or> xp_toilet p \<or> xp_hearing_loop p)"

definition sort_by_access_match :: "place list \<Rightarrow> access_pref option \<Rightarrow> place list" where
  "sort_by_access_match ps pref =
     (if \<not> has_access_need pref then ps
      else let m = (\<lambda>p. matches_access_preference (accessibility_facts p) pref = AccessMatch)
           in filter m ps @ filter (\<lambda>p. \<not> m p) ps)"

section \<open>Facts about a venue\<close>

definition fact_keys :: "fact_key list" where
  "fact_keys = [DrinkingWater, Toilets, LitAtNight, IndoorShelter, Fenced, Shade, Playground, BikeParking, CarParking,
     BusTramNearby]"

fun fact_value :: "fact_key \<Rightarrow> string" where
  "fact_value DrinkingWater = ''drinking_water''"
| "fact_value Toilets = ''toilets''"
| "fact_value LitAtNight = ''lit_at_night''"
| "fact_value IndoorShelter = ''indoor_shelter''"
| "fact_value Fenced = ''fenced''"
| "fact_value Shade = ''shade''"
| "fact_value Playground = ''playground''"
| "fact_value BikeParking = ''bike_parking''"
| "fact_value CarParking = ''car_parking''"
| "fact_value BusTramNearby = ''bus_tram_nearby''"

definition fact_of_string :: "string \<Rightarrow> fact_key option" where
  "fact_of_string x = List.find (\<lambda>k. fact_value k = x) fact_keys"

text \<open>The map data a fact is read from first: a yes/no tag, a tag with one telling value, or none.\<close>

datatype fact_source = YesNoTag string | TagPresent string string | CrowdOnly

fun fact_osm :: "fact_key \<Rightarrow> fact_source" where
  "fact_osm DrinkingWater = YesNoTag ''drinking_water''"
| "fact_osm Toilets = YesNoTag ''toilets''"
| "fact_osm LitAtNight = YesNoTag ''lit''"
| "fact_osm Playground = TagPresent ''leisure'' ''playground''"
| "fact_osm Fenced = TagPresent ''barrier'' ''fence''"
| "fact_osm Shade = TagPresent ''natural'' ''tree''"
| "fact_osm IndoorShelter = CrowdOnly"
| "fact_osm BikeParking = YesNoTag ''bicycle_parking''"
| "fact_osm CarParking = YesNoTag ''parking''"
| "fact_osm BusTramNearby = CrowdOnly"

definition kid_facts :: "fact_key list" where
  "kid_facts = [Toilets, Fenced, Playground, DrinkingWater]"

definition osm_fact_state :: "place \<Rightarrow> fact_key \<Rightarrow> fact_state" where
  "osm_fact_state p k =
     (case fact_osm k of
        YesNoTag t \<Rightarrow> tristate False (tag_of p t)
      | TagPresent t v \<Rightarrow> if tag_of p t = Some (JStr v) then FactTrue else FactUnknown
      | CrowdOnly \<Rightarrow> FactUnknown)"

definition crowd_state :: "venues \<Rightarrow> nat \<Rightarrow> nat \<Rightarrow> fact_state" where
  "crowd_state s yes no =
     (if max yes no < vs_fact_quorum (vn_conf s) \<or> yes = no then FactUnknown
      else if no < yes then FactTrue else FactFalse)"

definition fact_tally :: "venues \<Rightarrow> id \<Rightarrow> fact_key \<Rightarrow> bool \<Rightarrow> nat" where
  "fact_tally s p k v = count_rows (\<lambda>x. fv_place x = p \<and> fv_key x = k \<and> fv_value x = v) (vn_votes s)"

definition place_fact_status :: "venues \<Rightarrow> place \<Rightarrow> fact_key \<Rightarrow> fact_state" where
  "place_fact_status s p k =
     (if osm_fact_state p k \<noteq> FactUnknown then osm_fact_state p k
      else crowd_state s (fact_tally s (pl_id p) k True) (fact_tally s (pl_id p) k False))"

definition venue_facts :: "venues \<Rightarrow> place \<Rightarrow> (fact_key \<times> fact_state) list" where
  "venue_facts s p = map (\<lambda>k. (k, place_fact_status s p k)) fact_keys"

definition my_vote :: "venues \<Rightarrow> id \<Rightarrow> fact_key \<Rightarrow> id \<Rightarrow> bool option" where
  "my_vote s p k u =
     map_option fv_value (List.find (\<lambda>x. fv_place x = p \<and> fv_user x = u \<and> fv_key x = k) (vn_votes s))"

record fact_summary =
  fs_key :: fact_key
  fs_state :: fact_state
  fs_yes :: nat
  fs_no :: nat
  fs_required :: nat
  fs_mine :: "bool option"
  fs_osm :: bool

definition fact_vote_summary :: "venues \<Rightarrow> place \<Rightarrow> id option \<Rightarrow> fact_key \<Rightarrow> fact_summary" where
  "fact_vote_summary s p viewer k =
     \<lparr> fs_key = k, fs_state = place_fact_status s p k, fs_yes = fact_tally s (pl_id p) k True, fs_no = fact_tally s (pl_id p) k False,
       fs_required = vs_fact_quorum (vn_conf s),
       fs_mine = (case viewer of None \<Rightarrow> None | Some u \<Rightarrow> my_vote s (pl_id p) k u),
       fs_osm = (osm_fact_state p k \<noteq> FactUnknown) \<rparr>"

definition venue_facts_detail :: "venues \<Rightarrow> place \<Rightarrow> id option \<Rightarrow> fact_summary list" where
  "venue_facts_detail s p viewer = map (fact_vote_summary s p viewer) fact_keys"

definition has_kid_facts :: "venues \<Rightarrow> place \<Rightarrow> bool" where
  "has_kid_facts s p \<longleftrightarrow> (\<exists>k \<in> set kid_facts. place_fact_status s p k = FactTrue)"

definition put_fact_vote :: "id \<Rightarrow> id \<Rightarrow> fact_key \<Rightarrow> bool \<Rightarrow> venues \<Rightarrow> venues" where
  "put_fact_vote p u k v s =
     (if \<exists>x \<in> set (vn_votes s). fv_place x = p \<and> fv_user x = u \<and> fv_key x = k
      then s\<lparr> vn_votes := update_rows (\<lambda>x. fv_place x = p \<and> fv_user x = u \<and> fv_key x = k) (\<lambda>x. x\<lparr> fv_value := v \<rparr>) (vn_votes s) \<rparr>
      else take_id (s\<lparr> vn_votes := vn_votes s @
        [\<lparr> fv_id = next_id s, fv_place = p, fv_user = u, fv_key = k, fv_value = v \<rparr>] \<rparr>))"

definition not_published :: venue_error where
  "not_published = VenuesError (quoted ''This place isn'' ''t published yet.'')"

definition vote_on_fact :: "user \<Rightarrow> place \<Rightarrow> string \<Rightarrow> bool \<Rightarrow> venues \<Rightarrow> (venue_error, unit, venues) outcome" where
  "vote_on_fact u p key v s =
     (case fact_of_string key of
        None \<Rightarrow> raised (VenuesError ''Unknown venue fact.'') s
      | Some k \<Rightarrow>
          if \<not> can_participate (vn_db s) u
          then raised (VenuesNotEligible ''Verified, consented participation is required to vote on a place.'') s
          else if \<not> is_public_place (vn_db s) (pl_id p) then raised not_published s
          else let (ok, d) = allow_action (u_id u) ''place_fact_vote'' (vs_fact_limit (vn_conf s)) (vs_fact_window (vn_conf s))
                     (vn_db s);
                   s1 = s\<lparr> vn_db := d \<rparr>
               in if \<not> ok then raised (VenuesError (quoted ''You'' ''re voting too quickly; please try again later.'')) s1
                  else returned () (put_fact_vote (pl_id p) (u_id u) k v s1))"

section \<open>Corrections, as a reader sees them\<close>

definition published_corrections :: "venues \<Rightarrow> id \<Rightarrow> correction_field \<Rightarrow> correction list" where
  "published_corrections s p f =
     filter (\<lambda>c. co_place c = p \<and> co_field c = f \<and> co_status c = CorrPublished) (vn_corrections s)"

definition published_time :: "correction \<Rightarrow> time" where
  "published_time c = (case co_published_at c of None \<Rightarrow> co_created_at c | Some t \<Rightarrow> t)"

definition applied_correction :: "venues \<Rightarrow> id \<Rightarrow> correction_field \<Rightarrow> string" where
  "applied_correction s p f =
     (case latest_row (\<lambda>c. (published_time c, co_id c)) (published_corrections s p f) of
        None \<Rightarrow> [] | Some c \<Rightarrow> co_value c)"

definition or_else :: "string \<Rightarrow> string \<Rightarrow> string" where
  "or_else x y = (if x = [] then y else x)"

definition display_name :: "venues \<Rightarrow> place \<Rightarrow> string" where
  "display_name s p = or_else (applied_correction s (pl_id p) CorrName) (pl_name p)"

definition display_address :: "venues \<Rightarrow> place \<Rightarrow> string" where
  "display_address s p = or_else (applied_correction s (pl_id p) CorrAddress) (px_address (vn_columns s (pl_id p)))"

definition display_opening_hours :: "venues \<Rightarrow> place \<Rightarrow> schedule option" where
  "display_opening_hours s p =
     (let corrected = applied_correction s (pl_id p) CorrHours in
      if corrected \<noteq> [] then parse_opening_hours corrected else Some (px_hours (vn_columns s (pl_id p))))"

definition posted_hours_text :: "venues \<Rightarrow> place \<Rightarrow> string" where
  "posted_hours_text s p = or_else (applied_correction s (pl_id p) CorrHours) (px_hours_raw (vn_columns s (pl_id p)))"

definition place_plain_brief :: "venues \<Rightarrow> place \<Rightarrow> (string \<times> fact_state) list \<Rightarrow> (string \<times> string) list" where
  "place_plain_brief s p rows =
     (''Place'', display_name s p) #
     (let address = strip (display_address s p) in
      if address = [] then [] else [(''Where'', ''It is at '' @ address @ ''.'')]) @
     map (\<lambda>(label, state). (label, plain_state state))
       (map (\<lambda>(_, label, state). (label, state)) (accessibility_facts_display p) @ rows)"

section \<open>Reports of wrong opening hours\<close>

definition recent_hours_reports :: "venues \<Rightarrow> id \<Rightarrow> hours_report list" where
  "recent_hours_reports s p = filter (\<lambda>r. hr_place r = p \<and>
     clock (vn_db s) - seconds (vs_hours_decay (vn_conf s)) \<le> hr_created_at r) (vn_reports s)"

definition hours_reliable :: "venues \<Rightarrow> id \<Rightarrow> bool" where
  "hours_reliable s p \<longleftrightarrow> length (recent_hours_reports s p) < vs_hours_threshold (vn_conf s)"

datatype open_status = OpenNow | ClosedNow | HoursUnverified

definition local_day :: "db \<Rightarrow> nat" where
  "local_day d = local_isoweekday (lib d) (clock d) - 1"

definition local_minute :: "db \<Rightarrow> nat" where
  "local_minute d = nat (n_time (localtime (lib d) (clock d)) div seconds 60)"

definition open_now_status :: "venues \<Rightarrow> place \<Rightarrow> open_status option" where
  "open_now_status s p =
     (case is_open_at (display_opening_hours s p) (local_day (vn_db s)) (local_minute (vn_db s)) of
        None \<Rightarrow> None
      | Some b \<Rightarrow> Some (if \<not> hours_reliable s (pl_id p) then HoursUnverified else if b then OpenNow else ClosedNow))"

definition file_open_now_report :: "user \<Rightarrow> id \<Rightarrow> venues \<Rightarrow> (venue_error, hours_report option, venues) outcome" where
  "file_open_now_report u p s =
     (if \<not> can_participate (vn_db s) u
      then raised (VenuesNotEligible ''Verified, consented participation is required to report hours.'') s
      else let (ok, d) = allow_action (u_id u) ''open_now_report'' (vs_hours_limit (vn_conf s)) (vs_hours_window (vn_conf s))
                 (vn_db s);
               s1 = s\<lparr> vn_db := d \<rparr>
           in if \<not> ok then returned None s1
              else if \<exists>r \<in> set (recent_hours_reports s1 p). hr_user r = u_id u then returned None s1
              else let r = \<lparr> hr_id = next_id s1, hr_place = p, hr_user = u_id u, hr_created_at = clock (vn_db s1) \<rparr>
                   in returned (Some r) (take_id (s1\<lparr> vn_reports := vn_reports s1 @ [r] \<rparr>)))"

definition clear_open_now_reports :: "id \<Rightarrow> id option \<Rightarrow> venues \<Rightarrow> nat \<times> venues" where
  "clear_open_now_reports p moderator s =
     (let n = count_rows (\<lambda>r. hr_place r = p) (vn_reports s);
          s1 = s\<lparr> vn_reports := filter (\<lambda>r. hr_place r \<noteq> p) (vn_reports s) \<rparr>
      in (n, case moderator of None \<Rightarrow> s1
           | Some m \<Rightarrow> with_db (record_audit ''place.open_now_reports_cleared'' (Some m) (Some (place_target p)) []) s1))"

section \<open>Corrections behind a quorum\<close>

fun field_value :: "correction_field \<Rightarrow> string" where
  "field_value CorrName = ''name''"
| "field_value CorrAddress = ''address''"
| "field_value CorrHours = ''hours''"

definition field_of_string :: "string \<Rightarrow> correction_field option" where
  "field_of_string x = List.find (\<lambda>f. field_value f = x) [CorrName, CorrAddress, CorrHours]"

definition correction_row :: "venues \<Rightarrow> id \<Rightarrow> correction option" where
  "correction_row s i = List.find (\<lambda>c. co_id c = i) (vn_corrections s)"

definition propose_place_correction :: "user \<Rightarrow> place \<Rightarrow> string \<Rightarrow> string \<Rightarrow> venues \<Rightarrow> (venue_error, correction, venues) outcome" where
  "propose_place_correction u p field proposed s =
     (case field_of_string field of
        None \<Rightarrow> raised (VenuesError ''You can only correct the name, address or opening hours.'') s
      | Some f \<Rightarrow>
          let value = take 255 (strip proposed) in
          if \<not> can_participate (vn_db s) u
          then raised (VenuesNotEligible ''Verified, consented participation is required to suggest a correction.'') s
          else if \<not> is_public_place (vn_db s) (pl_id p) then raised not_published s
          else if value = [] then raised (VenuesError ''Enter the corrected value.'') s
          else if f = CorrHours \<and> parse_opening_hours value = None
          then raised (VenuesError (quoted ''Enter valid opening hours, e.g. '' (quoted ''Mo-Fr 09:00-18:00; Sa 10:00-14:00'' ''.''))) s
          else if \<exists>c \<in> set (vn_corrections s). co_place c = pl_id p \<and> co_field c = f \<and> co_status c = CorrPending
          then raised (VenuesError (quoted ''There'' ''s already an open correction for this field.'')) s
          else let c = \<lparr> co_id = next_id s, co_place = pl_id p, co_proposer = u_id u, co_field = f, co_value = value,
                     co_required = vs_correction_quorum (vn_conf s), co_status = CorrPending,
                     co_created_at = clock (vn_db s), co_published_at = None \<rparr>
               in returned c
                    (with_db (record_audit ''place.correction_proposed'' (Some (u_id u)) (Some (place_target (pl_id p)))
                       [(''field'', JStr (field_value f))])
                     (take_id (s\<lparr> vn_corrections := vn_corrections s @ [c] \<rparr>))))"

definition set_correction :: "id \<Rightarrow> correction_status \<Rightarrow> time option \<Rightarrow> venues \<Rightarrow> venues" where
  "set_correction i st t s = s\<lparr> vn_corrections :=
     update_rows (\<lambda>c. co_id c = i) (\<lambda>c. c\<lparr> co_status := st, co_published_at := t \<rparr>) (vn_corrections s) \<rparr>"

text \<open>Corrected hours leave no report about the old ones behind.\<close>

definition publish_correction :: "correction \<Rightarrow> venues \<Rightarrow> venues" where
  "publish_correction c s =
     (let s1 = set_correction (co_id c) CorrPublished (Some (clock (vn_db s))) s
      in if co_field c = CorrHours then snd (clear_open_now_reports (co_place c) None s1) else s1)"

definition confirms_of :: "venues \<Rightarrow> id \<Rightarrow> nat" where
  "confirms_of s i = count_rows (\<lambda>x. fst x = i) (vn_confirms s)"

definition put_confirm :: "id \<Rightarrow> id \<Rightarrow> venues \<Rightarrow> venues" where
  "put_confirm i u s = (if (i, u) \<in> set (vn_confirms s) then s else s\<lparr> vn_confirms := vn_confirms s @ [(i, u)] \<rparr>)"

definition confirm_place_correction :: "user \<Rightarrow> correction \<Rightarrow> venues \<Rightarrow> (venue_error, unit, venues) outcome" where
  "confirm_place_correction u c s =
     (if co_status c \<noteq> CorrPending then raised (VenuesInvalid ''This correction is no longer open for confirmation.'') s
      else if co_proposer c = u_id u then raised (VenuesInvalid ''The proposer cannot confirm their own correction.'') s
      else if \<not> can_participate (vn_db s) u
      then raised (VenuesNotEligible ''Verified, consented participation is required to confirm a correction.'') s
      else let s1 = put_confirm (co_id c) (u_id u) s
           in returned () (if co_required c \<le> confirms_of s1 (co_id c) then publish_correction c s1 else s1))"

definition staff_publish_correction :: "user \<Rightarrow> correction \<Rightarrow> venues \<Rightarrow> (venue_error, unit, venues) outcome" where
  "staff_publish_correction u c s =
     (if \<not> u_staff u then raised (VenuesNotEligible ''Only staff may publish a correction.'') s
      else if co_status c \<noteq> CorrPending then raised (VenuesInvalid ''This correction is not pending.'') s
      else returned () (with_db (record_audit ''place.correction_published'' (Some (u_id u)) (Some (place_target (co_place c))) [])
             (publish_correction c s)))"

definition staff_reject_correction :: "user \<Rightarrow> correction \<Rightarrow> string \<Rightarrow> venues \<Rightarrow> (venue_error, unit, venues) outcome" where
  "staff_reject_correction u c reason s =
     (if \<not> u_staff u then raised (VenuesNotEligible ''Only staff may reject a correction.'') s
      else if co_status c = CorrRejected then raised (VenuesInvalid ''This correction is already rejected.'') s
      else returned () (with_db (record_audit ''place.correction_rejected'' (Some (u_id u)) (Some (place_target (co_place c)))
               [(''reason'', JStr reason)])
             (set_correction (co_id c) CorrRejected None s)))"

text \<open>The open corrections of a place as counts, and what the viewer did about each.\<close>

record correction_card =
  cc_id :: id
  cc_field :: correction_field
  cc_value :: string
  cc_confirms :: nat
  cc_required :: nat
  cc_mine :: bool
  cc_confirmed :: bool

definition card_of :: "venues \<Rightarrow> id option \<Rightarrow> correction \<Rightarrow> correction_card" where
  "card_of s viewer c =
     \<lparr> cc_id = co_id c, cc_field = co_field c, cc_value = co_value c, cc_confirms = confirms_of s (co_id c),
       cc_required = co_required c, cc_mine = (viewer = Some (co_proposer c)),
       cc_confirmed = (case viewer of None \<Rightarrow> False | Some u \<Rightarrow> (co_id c, u) \<in> set (vn_confirms s)) \<rparr>"

definition pending_corrections :: "venues \<Rightarrow> id \<Rightarrow> id option \<Rightarrow> correction_card list" where
  "pending_corrections s p viewer = map (card_of s viewer) (sort_key (\<lambda>c. field_value (co_field c))
     (filter (\<lambda>c. co_place c = p \<and> co_status c = CorrPending) (vn_corrections s)))"

datatype venue_flag = FlagClosed | FlagHoursUnverified | FlagCorrectionPending

definition venue_quality_flags :: "venues \<Rightarrow> place \<Rightarrow> venue_flag list" where
  "venue_quality_flags s p =
     (if place_is_closed (vn_db s) (pl_id p) then [FlagClosed]
      else if open_now_status s p = Some HoursUnverified then [FlagHoursUnverified] else []) @
     (if pending_corrections s (pl_id p) None = [] then [] else [FlagCorrectionPending])"

section \<open>Claims of venue owners\<close>

definition safe_external_url :: "string \<Rightarrow> string" where
  "safe_external_url v =
     (let c = strip v; l = lower c in
      if prefix ''http://'' l \<or> prefix ''https://'' l then c else [])"

definition public_partner :: "partner \<Rightarrow> bool" where
  "public_partner x \<longleftrightarrow> pa_verified x \<and> pa_active x"

definition partner_for_place :: "venues \<Rightarrow> id \<Rightarrow> partner option" where
  "partner_for_place s p =
     (case sort_key pa_name (filter (\<lambda>x. public_partner x \<and> pa_place x = Some p) (vn_partners s)) of
        [] \<Rightarrow> None | x # _ \<Rightarrow> Some x)"

definition official_partner_for_place :: "venues \<Rightarrow> id \<Rightarrow> partner option" where
  "official_partner_for_place s p =
     List.find (\<lambda>x. public_partner x \<and> pa_place x = Some p \<and> pa_kind x = ''business'') (vn_partners s)"

definition file_place_claim :: "user \<Rightarrow> place \<Rightarrow> string \<Rightarrow> string \<Rightarrow> string \<Rightarrow> string \<Rightarrow> string \<Rightarrow> string \<Rightarrow> venues \<Rightarrow>
    (venue_error, claim, venues) outcome" where
  "file_place_claim u p org_name kind website email cui evidence s =
     (if \<not> can_participate (vn_db s) u \<or> u_cohort u \<noteq> Adult
      then raised (ClaimError ''Only verified adult accounts can claim a venue.'') s
      else if \<not> is_public_place (vn_db s) (pl_id p) then raised (ClaimError ''Only public venues can be claimed.'') s
      else if strip org_name = [] then raised (ClaimError ''The organisation name is required.'') s
      else if \<exists>c \<in> set (vn_claims s). cl_place c = pl_id p \<and> cl_claimant c = u_id u \<and> cl_status c = ClPending
      then raised (ClaimError ''You already have a pending claim for this venue.'') s
      else let c = \<lparr> cl_id = next_id s, cl_place = pl_id p, cl_claimant = u_id u, cl_org_name = take 255 (strip org_name),
                 cl_kind = or_else kind ''business'', cl_website = safe_external_url website, cl_email = email,
                 cl_cui = take 16 (strip cui), cl_evidence = take 500 (strip evidence), cl_status = ClPending,
                 cl_partner = None, cl_decided_by = None, cl_decided_at = None \<rparr>
           in returned c
                (with_db (record_audit ''places.claim_filed'' (Some (u_id u)) (Some (place_target (pl_id p)))
                   [(''claim_id'', JInt (int (cl_id c)))])
                 (take_id (s\<lparr> vn_claims := vn_claims s @ [c] \<rparr>))))"

definition set_claim :: "id \<Rightarrow> (claim \<Rightarrow> claim) \<Rightarrow> venues \<Rightarrow> venues" where
  "set_claim i f s = s\<lparr> vn_claims := update_rows (\<lambda>c. cl_id c = i) f (vn_claims s) \<rparr>"

text \<open>The partner of this name at the place, made or refreshed; several such rows make the lookup raise.\<close>

definition put_partner :: "claim \<Rightarrow> venues \<Rightarrow> (venue_error, id, venues) outcome" where
  "put_partner c s =
     (let same = (\<lambda>x. pa_place x = Some (cl_place c) \<and> pa_name x = cl_org_name c) in
      case filter same (vn_partners s) of
        [] \<Rightarrow> returned (next_id s) (take_id (s\<lparr> vn_partners := vn_partners s @
               [\<lparr> pa_id = next_id s, pa_name = cl_org_name c, pa_kind = cl_kind c, pa_place = Some (cl_place c),
                  pa_website = safe_external_url (cl_website c), pa_verified = True, pa_active = True \<rparr>] \<rparr>))
      | [x] \<Rightarrow> returned (pa_id x) (s\<lparr> vn_partners := update_rows same
               (\<lambda>x. x\<lparr> pa_kind := cl_kind c, pa_website := safe_external_url (cl_website c), pa_verified := True,
                  pa_active := True \<rparr>) (vn_partners s) \<rparr>)
      | _ \<Rightarrow> raised ManyPartners s)"

definition backfill_website :: "claim \<Rightarrow> venues \<Rightarrow> venues" where
  "backfill_website c s =
     (let x = vn_columns s (cl_place c) in
      if px_website x = [] \<and> cl_website c \<noteq> []
      then s\<lparr> vn_columns := (vn_columns s)(cl_place c := x\<lparr> px_website := safe_external_url (cl_website c) \<rparr>) \<rparr>
      else s)"

definition place_url :: "id \<Rightarrow> string" where
  "place_url p = ''/places/'' @ nat_str p @ ''/''"

definition name_of_place :: "venues \<Rightarrow> id \<Rightarrow> string" where
  "name_of_place s p = (case place_row (vn_db s) p of None \<Rightarrow> [] | Some x \<Rightarrow> display_name s x)"

definition approve_place_claim :: "user \<Rightarrow> claim \<Rightarrow> venues \<Rightarrow> (venue_error, unit, venues) outcome" where
  "approve_place_claim u c s =
     (if \<not> u_staff u then raised (ClaimError ''Only staff can decide venue claims.'') s
      else if cl_status c \<noteq> ClPending then raised (ClaimError ''This claim was already decided.'') s
      else case put_partner c s of
          (Inl e, t) \<Rightarrow> raised e t
        | (Inr pid, t) \<Rightarrow>
            let t1 = set_claim (cl_id c) (\<lambda>x. x\<lparr> cl_status := ClApproved, cl_partner := Some pid,
                   cl_decided_by := Some (u_id u), cl_decided_at := Some (clock (vn_db s)) \<rparr>) t;
                t2 = with_db (record_audit ''places.claim_approved'' (Some (u_id u)) (Some (place_target (cl_place c)))
                   [(''claim_id'', JInt (int (cl_id c)))]) (backfill_website c t1)
            in returned () (with_db (\<lambda>d. snd (notify (cl_claimant c) System ''Your venue claim was approved''
                 (cl_org_name c @ '' now stewards '' @ in_quotes (name_of_place t2 (cl_place c)) @ ''.'')
                 (place_url (cl_place c)) d)) t2))"

definition reject_place_claim :: "user \<Rightarrow> claim \<Rightarrow> string \<Rightarrow> venues \<Rightarrow> (venue_error, unit, venues) outcome" where
  "reject_place_claim u c reason s =
     (if \<not> u_staff u then raised (ClaimError ''Only staff can decide venue claims.'') s
      else if cl_status c \<noteq> ClPending then raised (ClaimError ''This claim was already decided.'') s
      else let t1 = set_claim (cl_id c) (\<lambda>x. x\<lparr> cl_status := ClRejected, cl_decided_by := Some (u_id u),
                 cl_decided_at := Some (clock (vn_db s)) \<rparr>) s;
               t2 = with_db (record_audit ''places.claim_rejected'' (Some (u_id u)) (Some (place_target (cl_place c)))
                 [(''claim_id'', JInt (int (cl_id c))), (''reason'', JStr reason)]) t1;
               body = (if strip reason = [] then quoted ''It couldn'' ''t be verified.''
                       else quoted ''It couldn'' ''t be verified: '' @ take 200 (strip reason))
           in returned () (with_db (\<lambda>d. snd (notify (cl_claimant c) System ''Your venue claim was not approved'' body
                (place_url (cl_place c)) d)) t2))"

definition approved_business_claim_for :: "venues \<Rightarrow> id \<Rightarrow> id \<Rightarrow> claim option" where
  "approved_business_claim_for s u p =
     latest_row (\<lambda>c. case cl_decided_at c of None \<Rightarrow> (True, 0) | Some t \<Rightarrow> (False, t))
       (filter (\<lambda>c. cl_place c = p \<and> cl_claimant c = u \<and> cl_status c = ClApproved \<and> cl_kind c = ''business'' \<and>
          (\<exists>x \<in> set (vn_partners s). cl_partner c = Some (pa_id x) \<and> public_partner x \<and> pa_place x = Some p))
        (vn_claims s))"

end
