(* ===== verification/Venue_Overlays_Properties.thy ===== *)
theory Venue_Overlays_Properties
  imports Venue_Overlays Venues Connections_Properties
begin

text \<open>
  The laws of the venue overlays: the requests of the service, between which the rest of the
  application may change everything but the overlay tables; the constraints of the tables; the
  quorum behind a correction; and facts decided by members.
\<close>

section \<open>Requests\<close>

datatype venue_request =
    VoteFact id id string bool
  | ReportHours id id
  | ClearHours id "id option"
  | Propose id id string string
  | Confirm id id
  | StaffPublish id id
  | StaffReject id id string
  | FileClaim id id string string string string string string
  | ApproveClaim id id
  | RejectClaim id id string
  | PreferAccess access_pref
  | VenueElsewhere "venues \<Rightarrow> venues"

definition with_person :: "venues \<Rightarrow> id \<Rightarrow> (user \<Rightarrow> venues) \<Rightarrow> venues" where
  "with_person s i k = (case user_row (vn_db s) i of None \<Rightarrow> s | Some u \<Rightarrow> k u)"

definition with_venue :: "venues \<Rightarrow> id \<Rightarrow> (place \<Rightarrow> venues) \<Rightarrow> venues" where
  "with_venue s i k = (case place_row (vn_db s) i of None \<Rightarrow> s | Some p \<Rightarrow> k p)"

definition with_correction :: "venues \<Rightarrow> id \<Rightarrow> (correction \<Rightarrow> venues) \<Rightarrow> venues" where
  "with_correction s i k = (case correction_row s i of None \<Rightarrow> s | Some c \<Rightarrow> k c)"

definition claim_row :: "venues \<Rightarrow> id \<Rightarrow> claim option" where
  "claim_row s i = List.find (\<lambda>c. cl_id c = i) (vn_claims s)"

definition with_claim :: "venues \<Rightarrow> id \<Rightarrow> (claim \<Rightarrow> venues) \<Rightarrow> venues" where
  "with_claim s i k = (case claim_row s i of None \<Rightarrow> s | Some c \<Rightarrow> k c)"

text \<open>Anything else: accounts, places, partners and the imported columns, but no overlay row and no setting.\<close>

definition venue_elsewhere :: "(venues \<Rightarrow> venues) \<Rightarrow> venues \<Rightarrow> venues" where
  "venue_elsewhere f s = s\<lparr> vn_db := (vn_db (f s))\<lparr> seq := max (next_id s) (next_id (f s)) \<rparr>,
     vn_columns := vn_columns (f s), vn_partners := vn_partners (f s) \<rparr>"

fun venue_exec :: "venue_request \<Rightarrow> venues \<Rightarrow> venues" where
  "venue_exec (VoteFact u p key v) s = with_person s u (\<lambda>u. with_venue s p (\<lambda>p. snd (vote_on_fact u p key v s)))"
| "venue_exec (ReportHours u p) s = with_person s u (\<lambda>u. snd (file_open_now_report u p s))"
| "venue_exec (ClearHours p m) s = snd (clear_open_now_reports p m s)"
| "venue_exec (Propose u p f v) s =
     with_person s u (\<lambda>u. with_venue s p (\<lambda>p. snd (propose_place_correction u p f v s)))"
| "venue_exec (Confirm u c) s = with_person s u (\<lambda>u. with_correction s c (\<lambda>c. snd (confirm_place_correction u c s)))"
| "venue_exec (StaffPublish u c) s = with_person s u (\<lambda>u. with_correction s c (\<lambda>c. snd (staff_publish_correction u c s)))"
| "venue_exec (StaffReject u c r) s = with_person s u (\<lambda>u. with_correction s c (\<lambda>c. snd (staff_reject_correction u c r s)))"
| "venue_exec (FileClaim u p a b c d e f) s =
     with_person s u (\<lambda>u. with_venue s p (\<lambda>p. snd (file_place_claim u p a b c d e f s)))"
| "venue_exec (ApproveClaim u c) s = with_person s u (\<lambda>u. with_claim s c (\<lambda>c. snd (approve_place_claim u c s)))"
| "venue_exec (RejectClaim u c r) s = with_person s u (\<lambda>u. with_claim s c (\<lambda>c. snd (reject_place_claim u c r s)))"
| "venue_exec (PreferAccess p) s = set_access_preference p s"
| "venue_exec (VenueElsewhere f) s = venue_elsewhere f s"

section \<open>Moves of the correction tables\<close>

definition corrections_ok :: "nat \<Rightarrow> correction list \<Rightarrow> (id \<times> id) list \<Rightarrow> bool" where
  "corrections_ok n cs cf \<longleftrightarrow> unique_by co_id cs \<and> (\<forall>c \<in> set cs. co_id c < n) \<and> distinct cf \<and> (\<forall>x \<in> set cf. fst x < n) \<and>
     (\<forall>c \<in> set cs. (co_id c, co_proposer c) \<notin> set cf) \<and>
     unique_by (\<lambda>c. (co_place c, co_field c)) (filter (\<lambda>c. co_status c = CorrPending) cs)"

definition restatus :: "id \<Rightarrow> correction_status \<Rightarrow> time option \<Rightarrow> correction list \<Rightarrow> correction list" where
  "restatus i st t = update_rows (\<lambda>c. co_id c = i) (\<lambda>c. c\<lparr> co_status := st, co_published_at := t \<rparr>)"

definition add_once :: "'a \<Rightarrow> 'a list \<Rightarrow> 'a list" where
  "add_once x xs = (if x \<in> set xs then xs else xs @ [x])"

text \<open>
  What one request does to the two tables, given the quorum of the settings, and whether staff
  published by hand.
\<close>

inductive corr_move :: "bool \<Rightarrow> nat \<Rightarrow> nat \<Rightarrow> correction list \<Rightarrow> (id \<times> id) list \<Rightarrow> correction list \<Rightarrow> (id \<times> id) list \<Rightarrow> bool"
  for staff q n cs cf where
  CorrStay: "corr_move staff q n cs cf cs cf"
| CorrOpen: "co_id c = n \<Longrightarrow> co_status c = CorrPending \<Longrightarrow> co_required c = q \<Longrightarrow>
    (\<forall>d \<in> set cs. \<not> (co_place d = co_place c \<and> co_field d = co_field c \<and> co_status d = CorrPending)) \<Longrightarrow>
    corr_move staff q n cs cf (cs @ [c]) cf"
| CorrConfirm: "c \<in> set cs \<Longrightarrow> co_status c = CorrPending \<Longrightarrow> co_proposer c \<noteq> u \<Longrightarrow>
    count_rows (\<lambda>x. fst x = co_id c) (add_once (co_id c, u) cf) < co_required c \<Longrightarrow>
    corr_move staff q n cs cf cs (add_once (co_id c, u) cf)"
| CorrQuorum: "c \<in> set cs \<Longrightarrow> co_status c = CorrPending \<Longrightarrow> co_proposer c \<noteq> u \<Longrightarrow>
    co_required c \<le> count_rows (\<lambda>x. fst x = co_id c) (add_once (co_id c, u) cf) \<Longrightarrow>
    corr_move staff q n cs cf (restatus (co_id c) CorrPublished t cs) (add_once (co_id c, u) cf)"
| CorrByHand: "staff \<Longrightarrow> c \<in> set cs \<Longrightarrow> co_status c = CorrPending \<Longrightarrow>
    corr_move staff q n cs cf (restatus (co_id c) CorrPublished t cs) cf"
| CorrReject: "c \<in> set cs \<Longrightarrow> corr_move staff q n cs cf (restatus (co_id c) CorrRejected None cs) cf"

lemma restatus_mem:
  "d \<in> set (restatus i st t cs) \<longleftrightarrow>
   (d \<in> set cs \<and> co_id d \<noteq> i) \<or> (\<exists>c \<in> set cs. co_id c = i \<and> d = c\<lparr> co_status := st, co_published_at := t \<rparr>)"
  by (auto simp: restatus_def set_update_rows image_iff split: if_splits)

lemma set_add_once [simp]: "set (add_once x xs) = insert x (set xs)"
  by (auto simp: add_once_def)

lemma distinct_add_once [simp]: "distinct (add_once x xs) = distinct xs"
  by (auto simp: add_once_def)

lemma count_add_once: "count_rows P xs \<le> count_rows P (add_once x xs)"
  by (simp add: add_once_def)

lemma pending_restatus:
  "st \<noteq> CorrPending \<Longrightarrow> filter (\<lambda>c. co_status c = CorrPending) (restatus i st t cs) =
     filter (\<lambda>c. co_id c \<noteq> i) (filter (\<lambda>c. co_status c = CorrPending) cs)"
  by (induction cs) (auto simp: restatus_def)

lemma corrections_ok_restatus:
  assumes "corrections_ok n cs cf" "st \<noteq> CorrPending"
  shows "corrections_ok n (restatus i st t cs) cf"
proof -
  have "unique_by co_id (restatus i st t cs)"
    using assms(1) by (simp add: corrections_ok_def restatus_def unique_by_update)
  moreover have "unique_by (\<lambda>c. (co_place c, co_field c)) (filter (\<lambda>c. co_status c = CorrPending) (restatus i st t cs))"
    unfolding pending_restatus [OF assms(2)]
    by (rule unique_by_filter) (use assms(1) in \<open>simp add: corrections_ok_def\<close>)
  moreover have "co_id d < n \<and> (co_id d, co_proposer d) \<notin> set cf" if "d \<in> set (restatus i st t cs)" for d
    using that assms(1) by (auto simp: restatus_mem corrections_ok_def)
  ultimately show ?thesis
    using assms(1) by (simp add: corrections_ok_def)
qed

lemma corrections_ok_confirm:
  assumes "corrections_ok n cs cf" "c \<in> set cs" "co_proposer c \<noteq> u"
  shows "corrections_ok n cs (add_once (co_id c, u) cf)"
proof -
  have "d = c" if "d \<in> set cs" "co_id d = co_id c" for d
    using assms(1,2) that unique_byD by (auto simp: corrections_ok_def)
  then show ?thesis
    using assms unfolding corrections_ok_def by auto
qed

lemma corr_move_ok:
  assumes "corrections_ok n cs cf" "corr_move staff q n cs cf cs' cf'" "n \<le> n'"
    and "\<forall>c \<in> set cs'. co_id c < n'"
  shows "corrections_ok n' cs' cf'"
proof -
  have up: "corrections_ok n' ds df" if "corrections_ok n ds df" for ds df
    using that assms(3) unfolding corrections_ok_def by fastforce
  from assms(2) show ?thesis
  proof cases
    case (CorrOpen c)
    have "\<forall>x \<in> set cf. fst x < n'" "(co_id c, co_proposer c) \<notin> set cf"
      using assms(1,3) CorrOpen(3) by (fastforce simp: corrections_ok_def)+
    moreover have "unique_by co_id (cs @ [c])"
      using assms(1) CorrOpen(3) by (auto simp: corrections_ok_def)
    ultimately show ?thesis
      using assms(1,4) CorrOpen unfolding corrections_ok_def by auto
  qed (use assms(1) in \<open>auto intro!: up corrections_ok_confirm corrections_ok_restatus\<close>)
qed

text \<open>Without staff, a published correction has its quorum.\<close>

definition quorate :: "nat \<Rightarrow> correction list \<Rightarrow> (id \<times> id) list \<Rightarrow> bool" where
  "quorate q cs cf \<longleftrightarrow> (\<forall>c \<in> set cs. co_required c = q \<and>
     (co_status c = CorrPublished \<longrightarrow> q \<le> count_rows (\<lambda>x. fst x = co_id c) cf))"

lemma quorate_confirm: "quorate q cs cf \<Longrightarrow> quorate q cs (add_once x cf)"
  unfolding quorate_def by (meson count_add_once le_trans)

lemma corr_move_quorate:
  assumes "quorate q cs cf" "corr_move False q n cs cf cs' cf'"
  shows "quorate q cs' cf'"
  using assms(2)
proof cases
  case (CorrQuorum c u t)
  with quorate_confirm [OF assms(1)] show ?thesis
    by (fastforce simp: quorate_def restatus_mem)
qed (use assms(1) quorate_confirm in \<open>auto simp: quorate_def restatus_mem\<close>)

section \<open>What the operations do to the tables\<close>

lemma with_db_sel [simp]:
  "vn_db (with_db f s) = f (vn_db s)" "vn_conf (with_db f s) = vn_conf s" "vn_columns (with_db f s) = vn_columns s"
  "vn_reports (with_db f s) = vn_reports s" "vn_votes (with_db f s) = vn_votes s" "vn_corrections (with_db f s) = vn_corrections s"
  "vn_confirms (with_db f s) = vn_confirms s" "vn_prefs (with_db f s) = vn_prefs s" "vn_partners (with_db f s) = vn_partners s"
  "vn_claims (with_db f s) = vn_claims s"
  by (simp_all add: with_db_def)

lemma next_id_with_db [simp]: "next_id (with_db f s) = seq (f (vn_db s))"
  by (simp add: next_id_def)

lemma audit_seq [simp]: "seq s \<le> seq (record_audit e a t d s)"
  by (simp add: record_audit_def Let_def)

lemma allow_action_next: "allow_action i a l w s = (ok, d) \<Longrightarrow> seq d = seq s"
  using allow_action_eq [of i a l w s] by auto

definition venue_tables :: "venues \<Rightarrow> correction list \<times> (id \<times> id) list \<times> fact_vote list \<times> claim list \<times> venue_settings" where
  "venue_tables s = (vn_corrections s, vn_confirms s, vn_votes s, vn_claims s, vn_conf s)"

definition quiet :: "venues \<Rightarrow> venues \<Rightarrow> bool" where
  "quiet s t \<longleftrightarrow> venue_tables t = venue_tables s \<and> next_id s \<le> next_id t"

lemma quiet_refl [simp]: "quiet s s"
  by (simp add: quiet_def)

lemma quiet_trans: "quiet s t \<Longrightarrow> quiet t u \<Longrightarrow> quiet s u"
  by (simp add: quiet_def)

lemma quiet_db: "seq (vn_db s) \<le> seq (f (vn_db s)) \<Longrightarrow> quiet s (with_db f s)"
  by (simp add: quiet_def venue_tables_def next_id_def)

lemma quiet_cache: "allow_action i a l w (vn_db s) = (ok, d) \<Longrightarrow> quiet s (s\<lparr> vn_db := d \<rparr>)"
  by (simp add: quiet_def venue_tables_def next_id_def allow_action_next)

lemma quiet_ops:
  "quiet s (snd (file_open_now_report u p s))" "quiet s (snd (clear_open_now_reports p m s))"
  "quiet s (set_access_preference x s)" "quiet s (venue_elsewhere f s)" "quiet s (backfill_website c s)"
  "quiet s (snd (put_partner c s))"
proof -
  show "quiet s (snd (file_open_now_report u p s))"
    using allow_action_next
    by (auto simp: file_open_now_report_def Let_def quiet_def venue_tables_def next_id_def take_id_def split: prod.splits)
  show "quiet s (snd (clear_open_now_reports p m s))"
    by (simp add: clear_open_now_reports_def Let_def quiet_def venue_tables_def next_id_def split: option.split)
  show "quiet s (set_access_preference x s)"
    by (simp add: set_access_preference_def quiet_def venue_tables_def next_id_def)
  show "quiet s (venue_elsewhere f s)"
    by (simp add: venue_elsewhere_def quiet_def venue_tables_def next_id_def)
  show "quiet s (backfill_website c s)"
    by (simp add: backfill_website_def Let_def quiet_def venue_tables_def next_id_def)
  show "quiet s (snd (put_partner c s))"
    by (simp add: put_partner_def Let_def quiet_def venue_tables_def next_id_def take_id_def split: list.split)
qed

text \<open>The part of an outcome the correction tables see.\<close>

definition corr_result :: "bool \<Rightarrow> venues \<Rightarrow> venues \<Rightarrow> bool" where
  "corr_result staff s t \<longleftrightarrow> vn_conf t = vn_conf s \<and> next_id s \<le> next_id t \<and> (\<forall>c \<in> set (vn_corrections t). co_id c < next_id t) \<and>
     corr_move staff (vs_correction_quorum (vn_conf s)) (next_id s) (vn_corrections s) (vn_confirms s) (vn_corrections t) (vn_confirms t)"

definition corr_inv :: "venues \<Rightarrow> bool" where
  "corr_inv s \<longleftrightarrow> corrections_ok (next_id s) (vn_corrections s) (vn_confirms s)"

lemma corr_resultI:
  assumes "corr_inv s" "vn_conf t = vn_conf s" "next_id s \<le> next_id t"
    "corr_move staff (vs_correction_quorum (vn_conf s)) (next_id s) (vn_corrections s) (vn_confirms s) (vn_corrections t) (vn_confirms t)"
    "vn_corrections t = vn_corrections s \<or> (\<exists>i st tm. vn_corrections t = restatus i st tm (vn_corrections s))"
  shows "corr_result staff s t"
proof -
  have lt: "co_id c < next_id t" if "c \<in> set (vn_corrections s)" for c
    using assms(1,3) that by (fastforce simp: corr_inv_def corrections_ok_def)
  have "co_id c < next_id t" if "c \<in> set (vn_corrections t)" for c
    using assms(5) that lt by (auto simp: restatus_mem)
  with assms show ?thesis by (simp add: corr_result_def)
qed

lemma corr_quiet: "corr_inv s \<Longrightarrow> quiet s t \<Longrightarrow> corr_result staff s t"
  by (rule corr_resultI) (simp_all add: quiet_def venue_tables_def corr_move.CorrStay)

lemma corr_vote: "corr_inv s \<Longrightarrow> corr_result staff s (snd (vote_on_fact u p k v s))"
  by (rule corr_resultI)
    (auto simp: vote_on_fact_def put_fact_vote_def take_id_def next_id_def Let_def corr_move.CorrStay allow_action_next
      split: option.split prod.splits)

lemma corr_file_claim: "corr_inv s \<Longrightarrow> corr_result staff s (snd (file_place_claim u p a b c d e f s))"
  by (rule corr_resultI)
    (auto simp: file_place_claim_def take_id_def next_id_def Let_def corr_move.CorrStay intro: order_trans [OF _ audit_seq])

lemma corr_propose: "corr_inv s \<Longrightarrow> corr_result staff s (snd (propose_place_correction u p f v s))"
proof -
  assume inv: "corr_inv s"
  let ?t = "snd (propose_place_correction u p f v s)"
  show ?thesis
  proof (cases "?t = s")
    case True
    with inv show ?thesis by (simp add: corr_quiet)
  next
    case False
    then obtain g where g: "field_of_string f = Some g"
      by (cases "field_of_string f") (simp_all add: propose_place_correction_def)
    let ?c = "\<lparr> co_id = next_id s, co_place = pl_id p, co_proposer = u_id u, co_field = g, co_value = take 255 (strip v),
        co_required = vs_correction_quorum (vn_conf s), co_status = CorrPending, co_created_at = clock (vn_db s),
        co_published_at = None \<rparr>"
    have none: "\<not> (\<exists>c \<in> set (vn_corrections s). co_place c = pl_id p \<and> co_field c = g \<and> co_status c = CorrPending)"
      and t: "?t = with_db (record_audit ''place.correction_proposed'' (Some (u_id u)) (Some (place_target (pl_id p)))
         [(''field'', JStr (field_value g))]) (take_id (s\<lparr> vn_corrections := vn_corrections s @ [?c] \<rparr>))"
      using False g by (auto simp: propose_place_correction_def Let_def split: if_splits)
    have tabs: "vn_corrections ?t = vn_corrections s @ [?c]" "vn_confirms ?t = vn_confirms s" "vn_conf ?t = vn_conf s"
      unfolding t by (simp_all add: take_id_def)
    have sq: "next_id s < next_id ?t"
    proof -
      have "Suc (seq (vn_db s)) \<le> next_id ?t"
        unfolding t by (simp add: take_id_def)
      then show ?thesis by (simp add: next_id_def)
    qed
    have "co_id c < next_id ?t" if "c \<in> set (vn_corrections ?t)" for c
      using that inv sq unfolding tabs by (fastforce simp: corr_inv_def corrections_ok_def)
    moreover have "corr_move staff (vs_correction_quorum (vn_conf s)) (next_id s) (vn_corrections s) (vn_confirms s)
        (vn_corrections s @ [?c]) (vn_confirms s)"
      by (rule corr_move.CorrOpen) (use none in auto)
    ultimately show ?thesis
      using sq by (simp add: corr_result_def tabs)
  qed
qed

lemma correction_rowD: "correction_row s i = Some c \<Longrightarrow> c \<in> set (vn_corrections s)"
  using find_SomeD by (fastforce simp: correction_row_def)

lemma publish_tables:
  "vn_corrections (publish_correction c s) = restatus (co_id c) CorrPublished (Some (clock (vn_db s))) (vn_corrections s)"
  "vn_confirms (publish_correction c s) = vn_confirms s" "vn_conf (publish_correction c s) = vn_conf s"
  "vn_votes (publish_correction c s) = vn_votes s" "vn_claims (publish_correction c s) = vn_claims s"
  "vn_db (publish_correction c s) = vn_db s"
  by (simp_all add: publish_correction_def Let_def set_correction_def restatus_def clear_open_now_reports_def)

lemma put_confirm_tables:
  "vn_confirms (put_confirm i u s) = add_once (i, u) (vn_confirms s)" "vn_corrections (put_confirm i u s) = vn_corrections s"
  "vn_conf (put_confirm i u s) = vn_conf s" "vn_votes (put_confirm i u s) = vn_votes s"
  "vn_claims (put_confirm i u s) = vn_claims s" "vn_db (put_confirm i u s) = vn_db s"
  by (simp_all add: put_confirm_def add_once_def)

lemma corr_confirm:
  assumes inv: "corr_inv s" and c: "c \<in> set (vn_corrections s)"
  shows "corr_result staff s (snd (confirm_place_correction u c s))"
proof -
  let ?t = "snd (confirm_place_correction u c s)" and ?s1 = "put_confirm (co_id c) (u_id u) s"
  consider "?t = s" | (pend) "co_status c = CorrPending" "co_proposer c \<noteq> u_id u"
      "?t = (if co_required c \<le> confirms_of ?s1 (co_id c) then publish_correction c ?s1 else ?s1)"
  proof (cases "co_status c \<noteq> CorrPending \<or> co_proposer c = u_id u \<or> \<not> can_participate (vn_db s) u")
    case True
    then have "?t = s" by (auto simp: confirm_place_correction_def)
    then show ?thesis using that(1) by blast
  next
    case False
    then have "?t = (if co_required c \<le> confirms_of ?s1 (co_id c) then publish_correction c ?s1 else ?s1)"
      by (simp add: confirm_place_correction_def Let_def)
    then show ?thesis using that(2) False by blast
  qed
  then show ?thesis
  proof cases
    case 1
    with inv show ?thesis by (simp add: corr_quiet)
  next
    case pend
    show ?thesis
    proof (cases "co_required c \<le> confirms_of ?s1 (co_id c)")
      case True
      then have t: "?t = publish_correction c ?s1" using pend(3) by simp
      show ?thesis
        unfolding t using True pend(1,2) c
        by (intro corr_resultI [OF inv])
          (auto simp: publish_tables put_confirm_tables confirms_of_def next_id_def intro: corr_move.CorrQuorum)
    next
      case False
      then have t: "?t = ?s1" using pend(3) by simp
      show ?thesis
        unfolding t using False pend(1,2) c
        by (intro corr_resultI [OF inv])
          (auto simp: put_confirm_tables confirms_of_def next_id_def intro: corr_move.CorrConfirm)
    qed
  qed
qed

lemma corr_by_hand:
  assumes inv: "corr_inv s" and c: "c \<in> set (vn_corrections s)"
  shows "corr_result True s (snd (staff_publish_correction u c s))"
proof (cases "u_staff u \<and> co_status c = CorrPending")
  case True
  then show ?thesis
    using c by (intro corr_resultI [OF inv])
      (auto simp: staff_publish_correction_def publish_tables next_id_def intro: corr_move.CorrByHand)
next
  case False
  with inv show ?thesis by (auto simp: staff_publish_correction_def corr_quiet)
qed

lemma corr_reject:
  assumes inv: "corr_inv s" and c: "c \<in> set (vn_corrections s)"
  shows "corr_result staff s (snd (staff_reject_correction u c r s))"
proof (cases "u_staff u \<and> co_status c \<noteq> CorrRejected")
  case True
  then show ?thesis
    using c corr_move.CorrReject [OF c, of staff "vs_correction_quorum (vn_conf s)" "next_id s" "vn_confirms s"]
    by (intro corr_resultI [OF inv])
      (auto simp: staff_reject_correction_def set_correction_def next_id_def restatus_def)
next
  case False
  with inv show ?thesis by (auto simp: staff_reject_correction_def corr_quiet)
qed

lemma quiet_set_claim: "vn_conf (set_claim i f s) = vn_conf s" "vn_corrections (set_claim i f s) = vn_corrections s"
  "vn_confirms (set_claim i f s) = vn_confirms s" "vn_votes (set_claim i f s) = vn_votes s" "vn_db (set_claim i f s) = vn_db s"
  by (simp_all add: set_claim_def)

lemma put_partner_tables:
  "put_partner c s = (r, t) \<Longrightarrow> venue_tables t = venue_tables s \<and> next_id s \<le> next_id t"
  using quiet_ops(6) [of s c] by (simp add: quiet_def)

text \<open>A decision of staff touches no table of corrections or votes, and gives one claim its answer.\<close>

definition answered_claims :: "id \<Rightarrow> (claim \<Rightarrow> claim) \<Rightarrow> venues \<Rightarrow> venues \<Rightarrow> bool" where
  "answered_claims i f s t \<longleftrightarrow> next_id s \<le> next_id t \<and>
     venue_tables t = (vn_corrections s, vn_confirms s, vn_votes s, update_rows (\<lambda>c. cl_id c = i) f (vn_claims s), vn_conf s)"

definition claim_decided :: "id \<Rightarrow> claim_status \<Rightarrow> id option \<Rightarrow> time \<Rightarrow> claim \<Rightarrow> claim" where
  "claim_decided u st p t x =
     (if st = ClApproved then x\<lparr> cl_status := st, cl_partner := p, cl_decided_by := Some u, cl_decided_at := Some t \<rparr>
      else x\<lparr> cl_status := st, cl_decided_by := Some u, cl_decided_at := Some t \<rparr>)"

lemma approve_effect:
  "quiet s (snd (approve_place_claim u c s)) \<or>
   (u_staff u \<and> cl_status c = ClPending \<and>
    (\<exists>p. answered_claims (cl_id c) (claim_decided (u_id u) ClApproved p (clock (vn_db s))) s (snd (approve_place_claim u c s))))"
proof (cases "u_staff u \<and> cl_status c = ClPending")
  case False
  then have "snd (approve_place_claim u c s) = s" by (auto simp: approve_place_claim_def)
  then show ?thesis by simp
next
  case True
  obtain r t where rt: "put_partner c s = (r, t)" by (cases "put_partner c s")
  note tabs = put_partner_tables [OF rt]
  show ?thesis
  proof (cases r)
    case (Inl e)
    with True rt tabs show ?thesis by (simp add: approve_place_claim_def quiet_def)
  next
    case (Inr pid)
    define t1 where "t1 = set_claim (cl_id c) (\<lambda>x. x\<lparr> cl_status := ClApproved, cl_partner := Some pid,
        cl_decided_by := Some (u_id u), cl_decided_at := Some (clock (vn_db s)) \<rparr>) t"
    define t2 where "t2 = with_db (record_audit ''places.claim_approved'' (Some (u_id u)) (Some (place_target (cl_place c)))
        [(''claim_id'', JInt (int (cl_id c)))]) (backfill_website c t1)"
    obtain x y where e: "snd (approve_place_claim u c s) = with_db (\<lambda>d. snd (notify (cl_claimant c) System x y
        (place_url (cl_place c)) d)) t2"
      using True rt Inr by (simp add: approve_place_claim_def t1_def t2_def Let_def)
    have "quiet t1 t2"
      unfolding t2_def by (rule quiet_trans [OF quiet_ops(5) quiet_db]) simp
    moreover have "quiet t2 (snd (approve_place_claim u c s))"
      unfolding e by (rule quiet_db) (rule notify_seq)
    ultimately have "quiet t1 (snd (approve_place_claim u c s))" by (rule quiet_trans)
    moreover have "answered_claims (cl_id c) (claim_decided (u_id u) ClApproved (Some pid) (clock (vn_db s))) s t1"
      using tabs by (simp add: t1_def set_claim_def answered_claims_def venue_tables_def next_id_def claim_decided_def [abs_def])
    ultimately show ?thesis using True by (auto simp: answered_claims_def quiet_def)
  qed
qed

lemma reject_effect:
  "quiet s (snd (reject_place_claim u c r s)) \<or>
   (u_staff u \<and> cl_status c = ClPending \<and>
    answered_claims (cl_id c) (claim_decided (u_id u) ClRejected None (clock (vn_db s))) s (snd (reject_place_claim u c r s)))"
proof (cases "u_staff u \<and> cl_status c = ClPending")
  case False
  then have "snd (reject_place_claim u c r s) = s" by (auto simp: reject_place_claim_def)
  then show ?thesis by simp
next
  case True
  define t1 where "t1 = set_claim (cl_id c) (\<lambda>x. x\<lparr> cl_status := ClRejected, cl_decided_by := Some (u_id u),
      cl_decided_at := Some (clock (vn_db s)) \<rparr>) s"
  define t2 where "t2 = with_db (record_audit ''places.claim_rejected'' (Some (u_id u)) (Some (place_target (cl_place c)))
      [(''claim_id'', JInt (int (cl_id c))), (''reason'', JStr r)]) t1"
  obtain y where e: "snd (reject_place_claim u c r s) = with_db (\<lambda>d. snd (notify (cl_claimant c) System
      ''Your venue claim was not approved'' y (place_url (cl_place c)) d)) t2"
    using True by (simp add: reject_place_claim_def t1_def t2_def Let_def)
  have "quiet t1 t2" unfolding t2_def by (rule quiet_db) simp
  moreover have "quiet t2 (snd (reject_place_claim u c r s))" unfolding e by (rule quiet_db) (rule notify_seq)
  ultimately have "quiet t1 (snd (reject_place_claim u c r s))" by (rule quiet_trans)
  moreover have "answered_claims (cl_id c) (claim_decided (u_id u) ClRejected None (clock (vn_db s))) s t1"
    by (simp add: t1_def set_claim_def answered_claims_def venue_tables_def next_id_def claim_decided_def [abs_def])
  ultimately show ?thesis using True by (auto simp: answered_claims_def quiet_def)
qed

lemma corr_answered: "corr_inv s \<Longrightarrow> answered_claims i f s t \<Longrightarrow> corr_result staff s t"
  by (rule corr_resultI) (simp_all add: answered_claims_def venue_tables_def corr_move.CorrStay)

definition by_hand :: "venue_request \<Rightarrow> bool" where
  "by_hand q \<longleftrightarrow> (\<exists>u c. q = StaffPublish u c)"

lemma venue_exec_result: "corr_inv s \<Longrightarrow> corr_result (by_hand q) s (venue_exec q s)"
proof -
  assume inv: "corr_inv s"
  show ?thesis
  proof (cases q)
    case (ApproveClaim u c)
    have "corr_result False s (snd (approve_place_claim v d s))" for v d
      using approve_effect [of s v d] corr_quiet [OF inv] corr_answered [OF inv] by blast
    with inv ApproveClaim show ?thesis
      by (auto simp: with_person_def with_claim_def corr_quiet by_hand_def split: option.split)
  next
    case (RejectClaim u c r)
    have "corr_result False s (snd (reject_place_claim v d r s))" for v d
      using reject_effect [of s v d r] corr_quiet [OF inv] corr_answered [OF inv] by blast
    with inv RejectClaim show ?thesis
      by (auto simp: with_person_def with_claim_def corr_quiet by_hand_def split: option.split)
  next
    case (VenueElsewhere f)
    have "quiet s (venue_elsewhere f s)" by (rule quiet_ops)
    with inv VenueElsewhere show ?thesis by (simp add: corr_quiet)
  qed (use inv in \<open>auto simp: with_person_def with_venue_def with_correction_def by_hand_def corr_quiet quiet_ops corr_vote
      corr_propose corr_confirm corr_by_hand corr_reject corr_file_claim split: option.split dest: correction_rowD\<close>)
qed

lemma venue_exec_corr: "corr_inv s \<Longrightarrow> corr_inv (venue_exec q s)"
  using venue_exec_result [of s q] corr_move_ok unfolding corr_inv_def corr_result_def by blast

interpretation corrections: service venue_exec corr_inv
  by unfold_locales (rule venue_exec_corr)

lemma venue_exec_quorate:
  assumes "corr_inv s" "quorate q (vn_corrections s) (vn_confirms s)" "vs_correction_quorum (vn_conf s) = q" "\<not> by_hand r"
  shows "quorate q (vn_corrections (venue_exec r s)) (vn_confirms (venue_exec r s)) \<and>
    vs_correction_quorum (vn_conf (venue_exec r s)) = q"
  using venue_exec_result [OF assms(1), of r] corr_move_quorate assms(2-4) by (auto simp: corr_result_def)

section \<open>Votes\<close>

definition votes_ok :: "venues \<Rightarrow> bool" where
  "votes_ok s \<longleftrightarrow> unique_by (\<lambda>x. (fv_place x, fv_user x, fv_key x)) (vn_votes s)"

lemma venue_exec_votes:
  "vn_votes (venue_exec q s) = vn_votes s \<or> (\<exists>p u k v. vn_votes (venue_exec q s) = vn_votes (put_fact_vote p u k v s))"
proof (cases q)
  case (VoteFact a b key v)
  have "vn_votes (snd (vote_on_fact u p key v s)) = vn_votes s \<or>
      (\<exists>k. vn_votes (snd (vote_on_fact u p key v s)) = vn_votes (put_fact_vote (pl_id p) (u_id u) k v s))" for u p
    by (auto simp: vote_on_fact_def put_fact_vote_def take_id_def next_id_def Let_def allow_action_next
        split: option.split prod.splits)
  with VoteFact show ?thesis
    by (simp add: with_person_def with_venue_def split: option.split) blast
next
  case (Propose a b f v)
  then show ?thesis
    by (simp add: with_person_def with_venue_def propose_place_correction_def take_id_def Let_def split: option.split)
next
  case (Confirm a b)
  then show ?thesis
    by (simp add: with_person_def with_correction_def confirm_place_correction_def Let_def publish_tables put_confirm_tables
        split: option.split)
next
  case (StaffPublish a b)
  then show ?thesis
    by (simp add: with_person_def with_correction_def staff_publish_correction_def publish_tables split: option.split)
next
  case (StaffReject a b r)
  then show ?thesis
    by (simp add: with_person_def with_correction_def staff_reject_correction_def set_correction_def split: option.split)
next
  case (FileClaim u p a b c d e f)
  then show ?thesis
    by (simp add: with_person_def with_venue_def file_place_claim_def take_id_def Let_def split: option.split)
next
  case (ApproveClaim a b)
  have "vn_votes (snd (approve_place_claim u c s)) = vn_votes s" for u c
    using approve_effect [of s u c] by (auto simp: quiet_def answered_claims_def venue_tables_def)
  with ApproveClaim show ?thesis by (simp add: with_person_def with_claim_def split: option.split)
next
  case (RejectClaim a b r)
  have "vn_votes (snd (reject_place_claim u c r s)) = vn_votes s" for u c
    using reject_effect [of s u c r] by (auto simp: quiet_def answered_claims_def venue_tables_def)
  with RejectClaim show ?thesis by (simp add: with_person_def with_claim_def split: option.split)
qed (use quiet_ops in \<open>auto simp: with_person_def quiet_def venue_tables_def split: option.split\<close>)

lemma put_fact_vote_ok: "votes_ok s \<Longrightarrow> vn_votes t = vn_votes (put_fact_vote p u k v s) \<Longrightarrow> votes_ok t"
  by (auto simp: votes_ok_def put_fact_vote_def take_id_def unique_by_update split: if_splits)

lemma venue_exec_votes_ok: "votes_ok s \<Longrightarrow> votes_ok (venue_exec q s)"
  using venue_exec_votes [of q s] put_fact_vote_ok by (auto simp: votes_ok_def)

interpretation voters: service venue_exec votes_ok
  by unfold_locales (rule venue_exec_votes_ok)

lemma my_vote_iff:
  assumes "votes_ok s"
  shows "my_vote s p k u = Some v \<longleftrightarrow> (\<exists>x \<in> set (vn_votes s). fv_place x = p \<and> fv_key x = k \<and> fv_user x = u \<and> fv_value x = v)"
proof
  assume "my_vote s p k u = Some v"
  then show "\<exists>x \<in> set (vn_votes s). fv_place x = p \<and> fv_key x = k \<and> fv_user x = u \<and> fv_value x = v"
    unfolding my_vote_def using find_SomeD by fastforce
next
  assume "\<exists>x \<in> set (vn_votes s). fv_place x = p \<and> fv_key x = k \<and> fv_user x = u \<and> fv_value x = v"
  then obtain x where x: "x \<in> set (vn_votes s)" "fv_place x = p" "fv_key x = k" "fv_user x = u" "fv_value x = v" by blast
  have "List.find (\<lambda>t. fv_place t = p \<and> fv_user t = u \<and> fv_key t = k) (vn_votes s) = Some x"
    using unique_by_find [OF assms [unfolded votes_ok_def] x(1)] by (simp add: x(2-4))
  with x(5) show "my_vote s p k u = Some v" by (simp add: my_vote_def)
qed

lemma tally_members:
  assumes "votes_ok s"
  shows "fact_tally s p k v = card {u. my_vote s p k u = Some v}"
proof -
  let ?xs = "filter (\<lambda>x. fv_place x = p \<and> fv_key x = k \<and> fv_value x = v) (vn_votes s)"
  have "unique_by (\<lambda>x. (fv_place x, fv_user x, fv_key x)) ?xs"
    using assms unfolding votes_ok_def by (rule unique_by_filter)
  then have "distinct ?xs" "inj_on (\<lambda>x. (fv_place x, fv_user x, fv_key x)) (set ?xs)"
    by (simp_all add: unique_by_def distinct_map)
  moreover from this(2) have "inj_on fv_user (set ?xs)" by (auto simp: inj_on_def)
  moreover have "{u. my_vote s p k u = Some v} = fv_user ` set ?xs"
    using my_vote_iff [OF assms] by auto
  moreover have "fact_tally s p k v = card (set ?xs)"
    using distinct_card [OF calculation(1)] by (simp only: fact_tally_def count_rows_def)
  ultimately show ?thesis
    by (simp only: card_image)
qed

section \<open>Claims\<close>

definition claims_inv :: "venues \<Rightarrow> bool" where
  "claims_inv s \<longleftrightarrow> unique_by cl_id (vn_claims s) \<and> (\<forall>c \<in> set (vn_claims s). cl_id c < next_id s) \<and>
     unique_by (\<lambda>c. (cl_place c, cl_claimant c)) (filter (\<lambda>c. cl_status c = ClPending) (vn_claims s))"

definition claims_keep :: "venues \<Rightarrow> venues \<Rightarrow> bool" where
  "claims_keep s t \<longleftrightarrow> claims_inv t \<and> (\<forall>c \<in> set (vn_claims s). cl_status c \<noteq> ClPending \<longrightarrow> c \<in> set (vn_claims t))"

lemma claims_same: "claims_inv s \<Longrightarrow> vn_claims t = vn_claims s \<Longrightarrow> next_id s \<le> next_id t \<Longrightarrow> claims_keep s t"
  by (fastforce simp: claims_keep_def claims_inv_def)

lemma claims_quiet: "claims_inv s \<Longrightarrow> quiet s t \<Longrightarrow> claims_keep s t"
  by (rule claims_same) (simp_all add: quiet_def venue_tables_def)

lemma claims_file:
  assumes inv: "claims_inv s"
  shows "claims_keep s (snd (file_place_claim u p a b c d e f s))"
proof (cases "snd (file_place_claim u p a b c d e f s) = s")
  case True
  with inv show ?thesis by (simp add: claims_same)
next
  case False
  let ?c = "\<lparr> cl_id = next_id s, cl_place = pl_id p, cl_claimant = u_id u, cl_org_name = take 255 (strip a),
      cl_kind = or_else b ''business'', cl_website = safe_external_url c, cl_email = d, cl_cui = take 16 (strip e),
      cl_evidence = take 500 (strip f), cl_status = ClPending, cl_partner = None, cl_decided_by = None, cl_decided_at = None \<rparr>"
  let ?t = "snd (file_place_claim u p a b c d e f s)"
  have none: "\<not> (\<exists>c \<in> set (vn_claims s). cl_place c = pl_id p \<and> cl_claimant c = u_id u \<and> cl_status c = ClPending)"
    and t: "?t = with_db (record_audit ''places.claim_filed'' (Some (u_id u)) (Some (place_target (pl_id p)))
         [(''claim_id'', JInt (int (cl_id ?c)))]) (take_id (s\<lparr> vn_claims := vn_claims s @ [?c] \<rparr>))"
    using False by (auto simp: file_place_claim_def Let_def split: if_splits)
  have cs: "vn_claims ?t = vn_claims s @ [?c]" unfolding t by (simp add: take_id_def)
  have "Suc (seq (vn_db s)) \<le> next_id ?t" unfolding t by (simp add: take_id_def)
  then have "next_id s < next_id ?t" by (simp add: next_id_def)
  with inv none show ?thesis
    unfolding claims_keep_def claims_inv_def cs by auto
qed

lemma claims_answered:
  assumes inv: "claims_inv s" and c: "c \<in> set (vn_claims s)" "cl_status c = ClPending"
    and st: "st \<noteq> ClPending" and a: "answered_claims (cl_id c) (claim_decided u st p tm) s t"
  shows "claims_keep s t"
proof -
  have cs: "vn_claims t = update_rows (\<lambda>x. cl_id x = cl_id c) (claim_decided u st p tm) (vn_claims s)"
    and sq: "next_id s \<le> next_id t"
    using a by (simp_all add: answered_claims_def venue_tables_def)
  have f: "cl_id (claim_decided u st p tm x) = cl_id x" "cl_status (claim_decided u st p tm x) = st" for x
    by (simp_all add: claim_decided_def)
  have pend: "filter (\<lambda>x. cl_status x = ClPending) (vn_claims t) =
      filter (\<lambda>x. cl_id x \<noteq> cl_id c) (filter (\<lambda>x. cl_status x = ClPending) (vn_claims s))"
  proof -
    have "filter (\<lambda>x. cl_status x = ClPending) (update_rows (\<lambda>x. cl_id x = i) (claim_decided u st p tm) xs) =
        filter (\<lambda>x. cl_id x \<noteq> i) (filter (\<lambda>x. cl_status x = ClPending) xs)" for i xs
      by (induction xs) (use st f in auto)
    then show ?thesis by (simp add: cs)
  qed
  have "unique_by (\<lambda>c. (cl_place c, cl_claimant c)) (filter (\<lambda>x. cl_status x = ClPending) (vn_claims t))"
    unfolding pend by (rule unique_by_filter) (use inv in \<open>simp add: claims_inv_def\<close>)
  moreover have "unique_by cl_id (vn_claims t)" using inv f by (simp add: cs claims_inv_def unique_by_update)
  moreover have "\<forall>x \<in> set (vn_claims t). cl_id x < next_id t"
    using inv sq f by (fastforce simp: cs set_update_rows claims_inv_def)
  moreover have "d \<in> set (vn_claims t)" if "d \<in> set (vn_claims s)" "cl_status d \<noteq> ClPending" for d
  proof -
    have "cl_id d \<noteq> cl_id c" using unique_byD [of cl_id "vn_claims s" d c] inv c that by (auto simp: claims_inv_def)
    with that(1) show ?thesis by (force simp: cs set_update_rows)
  qed
  ultimately show ?thesis by (simp add: claims_keep_def claims_inv_def)
qed

lemma claim_rowD: "claim_row s i = Some c \<Longrightarrow> c \<in> set (vn_claims s)"
  using find_SomeD by (fastforce simp: claim_row_def)

lemma venue_exec_claims: "claims_inv s \<Longrightarrow> claims_keep s (venue_exec q s)"
proof -
  assume inv: "claims_inv s"
  show ?thesis
  proof (cases q)
    case (ApproveClaim a b)
    have "claims_keep s (snd (approve_place_claim u c s))" if "c \<in> set (vn_claims s)" for u c
      using approve_effect [of s u c] claims_quiet [OF inv] claims_answered [OF inv that, of ClApproved] by blast
    with inv ApproveClaim show ?thesis
      by (auto simp: with_person_def with_claim_def claims_quiet dest: claim_rowD split: option.split)
  next
    case (RejectClaim a b r)
    have "claims_keep s (snd (reject_place_claim u c r s))" if "c \<in> set (vn_claims s)" for u c
      using reject_effect [of s u c r] claims_quiet [OF inv] claims_answered [OF inv that, of ClRejected] by blast
    with inv RejectClaim show ?thesis
      by (auto simp: with_person_def with_claim_def claims_quiet dest: claim_rowD split: option.split)
  next
    case (FileClaim u p a b c d e f)
    with inv claims_file [OF inv] show ?thesis
      by (auto simp: with_person_def with_venue_def claims_quiet split: option.split)
  next
    case (VoteFact a b key v)
    have "claims_keep s (snd (vote_on_fact u p key v s))" for u p
      by (rule claims_same [OF inv])
        (auto simp: vote_on_fact_def put_fact_vote_def take_id_def next_id_def Let_def allow_action_next split: option.split prod.splits)
    with inv VoteFact show ?thesis by (auto simp: with_person_def with_venue_def claims_quiet split: option.split)
  next
    case (Propose a b f v)
    have "claims_keep s (snd (propose_place_correction u p f v s))" for u p
      by (rule claims_same [OF inv])
        (auto simp: propose_place_correction_def take_id_def next_id_def Let_def intro: order_trans [OF _ audit_seq] split: option.split)
    with inv Propose show ?thesis by (auto simp: with_person_def with_venue_def claims_quiet split: option.split)
  next
    case (Confirm a b)
    have "claims_keep s (snd (confirm_place_correction u c s))" for u c
      by (rule claims_same [OF inv])
        (auto simp: confirm_place_correction_def Let_def publish_tables put_confirm_tables next_id_def)
    with inv Confirm show ?thesis by (auto simp: with_person_def with_correction_def claims_quiet split: option.split)
  next
    case (StaffPublish a b)
    have "claims_keep s (snd (staff_publish_correction u c s))" for u c
      by (rule claims_same [OF inv]) (auto simp: staff_publish_correction_def publish_tables next_id_def)
    with inv StaffPublish show ?thesis by (auto simp: with_person_def with_correction_def claims_quiet split: option.split)
  next
    case (StaffReject a b r)
    have "claims_keep s (snd (staff_reject_correction u c r s))" for u c
      by (rule claims_same [OF inv]) (auto simp: staff_reject_correction_def set_correction_def next_id_def)
    with inv StaffReject show ?thesis by (auto simp: with_person_def with_correction_def claims_quiet split: option.split)
  qed (use inv claims_quiet [OF inv quiet_ops(1)] claims_quiet [OF inv quiet_ops(2)] claims_quiet [OF inv quiet_ops(3)]
      claims_quiet [OF inv quiet_ops(4)] claims_quiet in \<open>auto simp: with_person_def split: option.split\<close>)
qed

interpretation stewards: service venue_exec claims_inv
  by unfold_locales (use venue_exec_claims in \<open>simp add: claims_keep_def\<close>)

lemma claims_run: "claims_inv s \<Longrightarrow> claims_keep s (run_requests venue_exec qs s)"
proof (induction qs arbitrary: s)
  case (Cons q qs)
  note one = venue_exec_claims [OF Cons.prems, of q]
  then have "claims_inv (venue_exec q s)" by (simp add: claims_keep_def)
  from Cons.IH [OF this] one show ?case by (auto simp: claims_keep_def)
qed (simp add: claims_same)

section \<open>Sample rows\<close>

definition corner_place :: place where
  "corner_place = \<lparr> pl_id = 50, pl_name = ''park'', pl_display_name = ''park'', pl_source = Osm, pl_tags = [] \<rparr>"

definition corner :: venues where
  "corner = \<lparr> vn_db = link_db\<lparr> places := [corner_place] \<rparr>,
     vn_conf = default_venue_settings\<lparr> vs_correction_quorum := 1, vs_fact_quorum := 1 \<rparr>,
     vn_columns = (\<lambda>_. \<lparr> px_address = [], px_hours_raw = [], px_hours = [], px_website = [] \<rparr>),
     vn_reports = [], vn_votes = [], vn_corrections = [], vn_confirms = [], vn_prefs = [], vn_partners = [], vn_claims = [] \<rparr>"

lemma corner_tables:
  "vn_votes corner = []" "vn_corrections corner = []" "vn_confirms corner = []" "vn_claims corner = []"
  "vn_conf corner = default_venue_settings\<lparr> vs_correction_quorum := 1, vs_fact_quorum := 1 \<rparr>"
  "next_id corner = 100"
  by (simp_all add: corner_def next_id_def link_db_tables)

lemma corner_db: "vn_db corner = link_db\<lparr> places := [corner_place] \<rparr>"
  by (simp add: corner_def)

lemma corner_people: "can_participate (vn_db corner) sample_parent" "can_participate (vn_db corner) link_pal"
  by (simp_all add: can_participate_def is_assurance_current_def latest_assurance_def requires_parental_consent_def
      corner_db link_db_tables link_pal_def sample_parent_def)

lemma corner_rows: "user_row (vn_db corner) 1 = Some sample_parent" "user_row (vn_db corner) 7 = Some link_pal"
  "place_row (vn_db corner) 50 = Some corner_place" "is_public_place (vn_db corner) 50" "clock (vn_db corner) = 0"
  "u_id sample_parent = 1" "u_id link_pal = 7" "pl_id corner_place = 50"
proof -
  show "is_public_place (vn_db corner) 50"
    by (simp add: is_public_place_def public_places_def publicly_visible_def closed_place_def recent_closures_def
        corner_db corner_place_def link_db_def empty_db_def)
qed (simp_all add: corner_db user_row_def place_row_def corner_place_def link_db_tables link_pal_def sample_parent_def)

definition renamed :: "correction_status \<Rightarrow> time option \<Rightarrow> correction" where
  "renamed st t = \<lparr> co_id = 100, co_place = 50, co_proposer = 1, co_field = CorrName, co_value = ''Parc'', co_required = 1,
     co_status = st, co_created_at = 0, co_published_at = t \<rparr>"

lemma renamed_proposed:
  obtains f where "venue_exec (Propose 1 50 ''name'' '' Parc'') corner =
      with_db (record_audit ''place.correction_proposed'' (Some 1) (Some (place_target 50)) f)
        (take_id (corner\<lparr> vn_corrections := [renamed CorrPending None] \<rparr>))"
proof -
  have "field_of_string ''name'' = Some CorrName" "take 255 (strip '' Parc'') = ''Parc''"
    by (simp_all add: field_of_string_def strip_def py_space_def)
  then have "venue_exec (Propose 1 50 ''name'' '' Parc'') corner =
      with_db (record_audit ''place.correction_proposed'' (Some 1) (Some (place_target 50)) [(''field'', JStr ''name'')])
        (take_id (corner\<lparr> vn_corrections := [renamed CorrPending None] \<rparr>))"
    by (simp add: with_person_def with_venue_def corner_rows corner_people propose_place_correction_def corner_tables
        default_venue_settings_def renamed_def Let_def del: One_nat_def)
  then show ?thesis by (rule that)
qed

definition rename_days :: "venue_request list" where
  "rename_days = [Propose 1 50 ''name'' '' Parc'', Confirm 7 100]"

lemma renamed_published:
  "vn_corrections (run_requests venue_exec rename_days corner) = [renamed CorrPublished (Some 0)]"
  "vn_confirms (run_requests venue_exec rename_days corner) = [(100, 7)]"
proof -
  obtain f where f: "venue_exec (Propose 1 50 ''name'' '' Parc'') corner =
      with_db (record_audit ''place.correction_proposed'' (Some 1) (Some (place_target 50)) f)
        (take_id (corner\<lparr> vn_corrections := [renamed CorrPending None] \<rparr>))"
    by (rule renamed_proposed)
  define w where "w = venue_exec (Propose 1 50 ''name'' '' Parc'') corner"
  note w = w_def [unfolded f]
  have "users (vn_db w) = users (vn_db corner)" unfolding w by (simp add: take_id_def del: One_nat_def)
  then have u: "user_row (vn_db w) 7 = Some link_pal"
    using corner_rows(2) by (simp add: user_row_def del: One_nat_def)
  have k: "clock (vn_db w) = 0" unfolding w using corner_rows(5) by (simp add: take_id_def del: One_nat_def)
  have "can_participate (vn_db w) link_pal = can_participate (vn_db corner) link_pal"
    unfolding w by (rule can_participate_cong) (simp_all add: take_id_def del: One_nat_def)
  then have p: "can_participate (vn_db w) link_pal" using corner_people by simp
  have cs: "vn_corrections w = [renamed CorrPending None]" "vn_confirms w = []"
    unfolding w by (simp_all add: take_id_def corner_tables del: One_nat_def)
  have r: "co_status (renamed CorrPending None) = CorrPending" "co_proposer (renamed CorrPending None) = 1"
    "co_id (renamed CorrPending None) = 100" "co_required (renamed CorrPending None) = 1"
    by (simp_all add: renamed_def)
  have c: "correction_row w 100 = Some (renamed CorrPending None)"
    by (simp add: correction_row_def cs r del: One_nat_def)
  have cf: "vn_confirms (put_confirm 100 7 w) = [(100, 7)]"
    by (simp add: put_confirm_def cs del: One_nat_def)
  then have n: "confirms_of (put_confirm 100 7 w) 100 = 1" by (simp add: confirms_of_def)
  have "venue_exec (Confirm 7 100) w = publish_correction (renamed CorrPending None) (put_confirm 100 7 w)"
    using n by (simp add: with_person_def with_correction_def u p c r corner_rows confirm_place_correction_def del: One_nat_def)
  then have t: "run_requests venue_exec rename_days corner = publish_correction (renamed CorrPending None) (put_confirm 100 7 w)"
    by (simp add: rename_days_def w_def del: venue_exec.simps)
  show "vn_corrections (run_requests venue_exec rename_days corner) = [renamed CorrPublished (Some 0)]"
    unfolding t publish_tables put_confirm_tables cs k by (simp add: restatus_def renamed_def del: One_nat_def)
  show "vn_confirms (run_requests venue_exec rename_days corner) = [(100, 7)]"
    unfolding t publish_tables by (rule cf)
qed

lemma corner_invs: "corr_inv corner" "votes_ok corner" "claims_inv corner"
  by (simp_all add: corr_inv_def corrections_ok_def votes_ok_def claims_inv_def corner_tables)

section \<open>Properties\<close>

lemma quorate_run:
  "corr_inv s \<Longrightarrow> quorate q (vn_corrections s) (vn_confirms s) \<Longrightarrow> vs_correction_quorum (vn_conf s) = q \<Longrightarrow>
   \<forall>r \<in> set qs. \<not> by_hand r \<Longrightarrow>
   quorate q (vn_corrections (run_requests venue_exec qs s)) (vn_confirms (run_requests venue_exec qs s))"
proof (induction qs arbitrary: s)
  case (Cons r qs)
  then show ?case
    using venue_exec_quorate [OF Cons.prems(1-3), of r] venue_exec_corr [OF Cons.prems(1), of r] by simp
qed simp

text \<open>
  C38: no correction of a place reaches its readers without a quorum: when no one of the staff
  publishes by hand, every published correction has been confirmed by at least as many different
  members as the settings ask for, none of them the member who proposed it.
\<close>

theorem correction_needs_quorum:
  assumes "vn_corrections s = []" and "vn_confirms s = []"
    and "\<forall>u c. StaffPublish u c \<notin> set qs"
    and "c \<in> set (vn_corrections (run_requests venue_exec qs s))" and "co_status c = CorrPublished"
  shows "vs_correction_quorum (vn_conf s) \<le> card {u. (co_id c, u) \<in> set (vn_confirms (run_requests venue_exec qs s))} \<and>
    (co_id c, co_proposer c) \<notin> set (vn_confirms (run_requests venue_exec qs s))"
proof -
  let ?t = "run_requests venue_exec qs s"
  have start: "corr_inv s" using assms(1,2) by (simp add: corr_inv_def corrections_ok_def)
  have ok: "corr_inv ?t" by (rule corrections.run_inv [OF start])
  have "quorate (vs_correction_quorum (vn_conf s)) (vn_corrections ?t) (vn_confirms ?t)"
    by (rule quorate_run [OF start]) (use assms(1-3) in \<open>auto simp: quorate_def by_hand_def\<close>)
  then have n: "vs_correction_quorum (vn_conf s) \<le> count_rows (\<lambda>x. fst x = co_id c) (vn_confirms ?t)"
    using assms(4,5) by (simp add: quorate_def)
  let ?xs = "filter (\<lambda>x. fst x = co_id c) (vn_confirms ?t)"
  have "distinct ?xs" using ok by (simp add: corr_inv_def corrections_ok_def)
  then have "count_rows (\<lambda>x. fst x = co_id c) (vn_confirms ?t) = card (set ?xs)"
    by (simp only: count_rows_def distinct_card)
  also have "\<dots> = card (snd ` set ?xs)"
    by (rule card_image [symmetric]) (auto simp: inj_on_def)
  also have "snd ` set ?xs = {u. (co_id c, u) \<in> set (vn_confirms ?t)}" by force
  finally show ?thesis
    using n ok assms(4) by (simp add: corr_inv_def corrections_ok_def)
qed

theorem correction_needs_quorum_witness:
  "(1 :: nat) \<le> card {u. (100, u) \<in> set (vn_confirms (run_requests venue_exec rename_days corner))} \<and>
   (100, 1) \<notin> set (vn_confirms (run_requests venue_exec rename_days corner)) \<and>
   vn_corrections (run_requests venue_exec rename_days corner) = [renamed CorrPublished (Some 0)]"
proof -
  have "renamed CorrPublished (Some 0) \<in> set (vn_corrections (run_requests venue_exec rename_days corner))"
    using renamed_published(1) by simp
  moreover have "\<forall>u c. StaffPublish u c \<notin> set rename_days" by (simp add: rename_days_def)
  moreover have "co_id (renamed CorrPublished (Some 0)) = 100" "co_proposer (renamed CorrPublished (Some 0)) = 1"
    "co_status (renamed CorrPublished (Some 0)) = CorrPublished" by (simp_all add: renamed_def)
  moreover have "vs_correction_quorum (vn_conf corner) = 1" by (simp add: corner_tables)
  ultimately show ?thesis
    using correction_needs_quorum [of corner rename_days "renamed CorrPublished (Some 0)"] corner_tables(2,3) renamed_published(1)
    by (simp del: One_nat_def)
qed

text \<open>
  C39: what a page says of a venue: the map decides where it says anything; where it is silent, a
  fact is held true (false) exactly when at least a quorum of different members currently say so and
  they outnumber the members who say the opposite. No member counts twice, whatever the order of
  votes and changes of mind.
\<close>

theorem fact_by_members:
  assumes "vn_votes s = []" and "t = run_requests venue_exec qs s"
  shows "place_fact_status t p k =
    (let yes = card {u. my_vote t (pl_id p) k u = Some True}; no = card {u. my_vote t (pl_id p) k u = Some False} in
     if osm_fact_state p k \<noteq> FactUnknown then osm_fact_state p k
     else if vs_fact_quorum (vn_conf t) \<le> yes \<and> no < yes then FactTrue
     else if vs_fact_quorum (vn_conf t) \<le> no \<and> yes < no then FactFalse else FactUnknown)"
proof -
  have "votes_ok s" using assms(1) by (simp add: votes_ok_def)
  then have ok: "votes_ok t" unfolding assms(2) by (rule voters.run_inv)
  show ?thesis
    by (simp add: place_fact_status_def crowd_state_def tally_members [OF ok] Let_def max_def)
qed

lemma toilet_voted: "vn_votes (venue_exec (VoteFact 1 50 ''toilets'' True) corner) =
  [\<lparr> fv_id = 100, fv_place = 50, fv_user = 1, fv_key = Toilets, fv_value = True \<rparr>]"
proof -
  let ?al = "allow_action 1 ''place_fact_vote'' (vs_fact_limit (vn_conf corner)) (vs_fact_window (vn_conf corner)) (vn_db corner)"
  have "fst ?al"
    by (simp add: allow_action_def cache_live_def corner_db link_db_tables corner_tables default_venue_settings_def
        del: One_nat_def)
  then obtain d where d: "?al = (True, d)" by (cases ?al) simp
  moreover have "seq d = 100" using allow_action_next [OF d] by (simp add: corner_db link_db_tables)
  moreover have "fact_of_string ''toilets'' = Some Toilets" by (simp add: fact_of_string_def fact_keys_def)
  ultimately show ?thesis
    by (simp add: with_person_def with_venue_def corner_rows corner_people vote_on_fact_def put_fact_vote_def take_id_def
        corner_tables(1) next_id_def split_beta del: One_nat_def)
qed

theorem fact_by_members_witness:
  "place_fact_status (run_requests venue_exec [VoteFact 1 50 ''toilets'' True] corner) corner_place Toilets = FactTrue"
proof -
  let ?t = "run_requests venue_exec [VoteFact 1 50 ''toilets'' True] corner"
  have v: "vn_votes ?t = [\<lparr> fv_id = 100, fv_place = 50, fv_user = 1, fv_key = Toilets, fv_value = True \<rparr>]"
    by (simp add: toilet_voted del: One_nat_def venue_exec.simps)
  have "vn_conf ?t = vn_conf corner" using venue_exec_result [OF corner_invs(1), of "VoteFact 1 50 ''toilets'' True"]
    by (simp add: corr_result_def del: venue_exec.simps One_nat_def)
  then have q: "vs_fact_quorum (vn_conf ?t) = 1" by (simp add: corner_tables)
  have "{u. my_vote ?t 50 Toilets u = Some True} = {1}" "{u. my_vote ?t 50 Toilets u = Some False} = {}"
    by (auto simp: my_vote_def v simp del: One_nat_def run_requests.simps venue_exec.simps split: if_splits)
  moreover have "osm_fact_state corner_place Toilets = FactUnknown"
    by (simp add: osm_fact_state_def tag_of_def corner_place_def tristate_def)
  ultimately show ?thesis
    using fact_by_members [OF corner_tables(1) refl, of "[VoteFact 1 50 ''toilets'' True]" corner_place Toilets] q
    by (simp add: corner_rows del: One_nat_def run_requests.simps venue_exec.simps)
qed

text \<open>
  C40: a claim on a venue is decided once: whatever follows, an approved or rejected claim stays as
  it was decided, and no member ever has two open claims on the same venue.
\<close>

theorem claims_settled:
  assumes "vn_claims s = []" and "t = run_requests venue_exec qs s"
    and "c \<in> set (vn_claims t)" and "cl_status c \<noteq> ClPending"
  shows "c \<in> set (vn_claims (run_requests venue_exec rs t)) \<and>
    distinct (map (\<lambda>c. (cl_place c, cl_claimant c)) (filter (\<lambda>c. cl_status c = ClPending) (vn_claims t)))"
proof -
  have "claims_inv s" using assms(1) by (simp add: claims_inv_def)
  then have "claims_inv t" unfolding assms(2) by (rule stewards.run_inv)
  with claims_run [OF this, of rs] assms(3,4) show ?thesis
    by (simp add: claims_keep_def claims_inv_def unique_by_def)
qed

definition steward_claim :: "claim_status \<Rightarrow> id option \<Rightarrow> time option \<Rightarrow> claim" where
  "steward_claim st w t = \<lparr> cl_id = 100, cl_place = 50, cl_claimant = 7, cl_org_name = ''Inn'', cl_kind = ''business'',
     cl_website = [], cl_email = [], cl_cui = [], cl_evidence = [], cl_status = st, cl_partner = None, cl_decided_by = w,
     cl_decided_at = t \<rparr>"

definition claim_days :: "venue_request list" where
  "claim_days = [FileClaim 7 50 ''Inn'' [] [] [] [] [], VenueElsewhere (\<lambda>s. s\<lparr> vn_db := link_db\<lparr> users := [sample_parent\<lparr> u_staff := True \<rparr>] \<rparr> \<rparr>),
     RejectClaim 1 100 []]"

lemma claim_days_rows: "vn_claims (run_requests venue_exec claim_days corner) = [steward_claim ClRejected (Some 1) (Some 0)]"
proof -
  define w where "w = venue_exec (FileClaim 7 50 ''Inn'' [] [] [] [] []) corner"
  have "strip ''Inn'' = ''Inn''" "safe_external_url [] = []" "strip [] = []"
    by (simp_all add: strip_def py_space_def safe_external_url_def)
  moreover have "u_cohort link_pal = Adult" by (simp add: link_pal_def sample_parent_def)
  ultimately have w: "vn_claims w = [steward_claim ClPending None None]"
    by (simp add: w_def with_person_def with_venue_def corner_rows corner_people file_place_claim_def corner_tables or_else_def
        steward_claim_def take_id_def Let_def del: One_nat_def)
  define x where "x = venue_exec (VenueElsewhere (\<lambda>s. s\<lparr> vn_db := link_db\<lparr> users := [sample_parent\<lparr> u_staff := True \<rparr>] \<rparr> \<rparr>)) w"
  have x: "vn_claims x = [steward_claim ClPending None None]" "user_row (vn_db x) 1 = Some (sample_parent\<lparr> u_staff := True \<rparr>)"
    "clock (vn_db x) = 0"
    by (simp_all add: x_def venue_elsewhere_def w user_row_def sample_parent_def link_db_tables)
  have r: "claim_row x 100 = Some (steward_claim ClPending None None)"
    by (simp add: claim_row_def x steward_claim_def)
  have c: "cl_status (steward_claim ClPending None None) = ClPending" "cl_id (steward_claim ClPending None None) = 100"
    "u_id sample_parent = 1"
    by (simp_all add: steward_claim_def sample_parent_def)
  have "vn_claims (venue_exec (RejectClaim 1 100 []) x) = [steward_claim ClRejected (Some 1) (Some 0)]"
    by (simp add: with_person_def with_claim_def x r c reject_place_claim_def set_claim_def Let_def del: One_nat_def)
      (simp add: steward_claim_def)
  then show ?thesis by (simp add: claim_days_def w_def [symmetric] x_def [symmetric] del: venue_exec.simps)
qed

theorem claims_settled_witness:
  "steward_claim ClRejected (Some 1) (Some 0) \<in>
     set (vn_claims (run_requests venue_exec [RejectClaim 1 100 ''again''] (run_requests venue_exec claim_days corner)))"
proof -
  have "steward_claim ClRejected (Some 1) (Some 0) \<in> set (vn_claims (run_requests venue_exec claim_days corner))"
    "cl_status (steward_claim ClRejected (Some 1) (Some 0)) \<noteq> ClPending"
    by (simp_all add: claim_days_rows steward_claim_def)
  from claims_settled [OF corner_tables(4) refl this] show ?thesis by (rule conjunct1)
qed

end
