(* ===== verification/Screening.thy ===== *)
theory Screening
  imports Opening_Hours "HOL-Library.Word"
begin

unbundle bit_operations_syntax

text \<open>
  apps/media/scanning.py, perceptual.py and docscan.py: the screening of uploaded bytes against
  exact and perceptual block lists, fail-closed. SHA-256, the decoding of an image, the reply of a
  managed service and of an antivirus daemon are arguments. Bytes are 8-bit strings; a stored
  fingerprint is sixteen hexadecimal digits, and of what \<open>int(x, 16)\<close> reads only such digits are
  modelled.
\<close>

type_synonym bytes = string

section \<open>Fingerprints\<close>

text \<open>
  What the decoder makes of an image: its size and the 9 x 8 grey values in row-major order; None
  when it cannot be decoded.
\<close>

record decoded =
  de_width :: nat
  de_height :: nat
  de_gray :: "nat \<Rightarrow> nat"

definition default_max_pixels :: nat where
  "default_max_pixels = 30000000"

definition default_max_distance :: nat where
  "default_max_distance = 8"

definition grid :: "nat list" where
  "grid = concat (map (\<lambda>row. map (\<lambda>col. row * 9 + col) [0..<8]) [0..<8])"

definition falls_at :: "(nat \<Rightarrow> nat) \<Rightarrow> nat \<Rightarrow> bool" where
  "falls_at px i \<longleftrightarrow> px (i + 1) < px i"

fun add_bits :: "bool list \<Rightarrow> 64 word \<Rightarrow> 64 word" where
  "add_bits [] w = w"
| "add_bits (b # bs) w = add_bits bs (push_bit 1 w OR (if b then 1 else 0))"

definition gradient_bits :: "(nat \<Rightarrow> nat) \<Rightarrow> 64 word" where
  "gradient_bits px = add_bits (map (falls_at px) grid) 0"

text \<open>A fingerprint without structure is none.\<close>

definition dhash :: "nat \<Rightarrow> decoded option \<Rightarrow> 64 word option" where
  "dhash max_pixels im =
     (case im of
        None \<Rightarrow> None
      | Some d \<Rightarrow>
          if max_pixels < de_width d * de_height d then None
          else let bits = gradient_bits (de_gray d) in
            if bits = 0 \<or> bits = - 1 then None else Some bits)"

definition hex_digits :: "string" where
  "hex_digits = ''0123456789abcdef''"

definition hex_char :: "nat \<Rightarrow> char" where
  "hex_char n = hex_digits ! n"

definition hex_value :: "char \<Rightarrow> nat option" where
  "hex_value c = map_of (zip hex_digits [0..<16]) (case lower [c] of x # _ \<Rightarrow> x | [] \<Rightarrow> c)"

text \<open>The format \<open>016x\<close>, and reading it back; None where \<open>int\<close> raises.\<close>

definition hex16 :: "64 word \<Rightarrow> string" where
  "hex16 w = map (\<lambda>i. hex_char (unat (drop_bit (4 * i) w AND 15))) (rev [0..<16])"

fun unhex_from :: "string \<Rightarrow> 64 word \<Rightarrow> 64 word option" where
  "unhex_from [] w = Some w"
| "unhex_from (c # cs) w =
     (case hex_value c of None \<Rightarrow> None | Some v \<Rightarrow> unhex_from cs (push_bit 4 w OR of_nat v))"

definition unhex :: "string \<Rightarrow> 64 word option" where
  "unhex x = (if x = [] then None else unhex_from x 0)"

definition dhash_hex :: "nat \<Rightarrow> decoded option \<Rightarrow> string option" where
  "dhash_hex max_pixels im = map_option hex16 (dhash max_pixels im)"

definition bit_count :: "64 word \<Rightarrow> nat" where
  "bit_count w = length (filter (bit w) [0..<64])"

definition hamming :: "64 word \<Rightarrow> 64 word \<Rightarrow> nat" where
  "hamming a b = bit_count (a XOR b)"

definition hamming_hex :: "string \<Rightarrow> string \<Rightarrow> nat option" where
  "hamming_hex a b =
     (case (unhex a, unhex b) of (Some x, Some y) \<Rightarrow> Some (hamming x y) | _ \<Rightarrow> None)"

section \<open>Scanners\<close>

record scan_result =
  sr_clean :: bool
  sr_matched :: string

definition clean_result :: scan_result where
  "clean_result = \<lparr> sr_clean = True, sr_matched = [] \<rparr>"

definition match_result :: "string \<Rightarrow> scan_result" where
  "match_result m = \<lparr> sr_clean = False, sr_matched = m \<rparr>"

text \<open>A scan that raises has no result.\<close>

record scanner =
  sc_scan :: "bytes \<Rightarrow> scan_result option"
  sc_scan_digest :: "string \<Rightarrow> scan_result option"
  sc_effective :: bool

text \<open>The lines of a block-list file: one hash each, comments and blank lines apart.\<close>

definition line_end :: "char \<Rightarrow> bool" where
  "line_end c \<longleftrightarrow> (let n = of_char c :: nat in n \<in> {10, 11, 12, 13, 28, 29, 30, 133})"

definition file_hashes :: "string \<Rightarrow> string list" where
  "file_hashes content =
     filter (\<lambda>h. h \<noteq> [] \<and> hd h \<noteq> CHR ''#'') (map (\<lambda>l. lower (strip l)) (split_on line_end content))"

text \<open>A list in the settings and the content of a file, None when it is absent or cannot be read.\<close>

record block_conf =
  bl_hashes :: "string list"
  bl_file :: "string option"
  bl_perceptual :: "string list"
  bl_perceptual_file :: "string option"
  bl_max_distance :: nat

definition with_file :: "string list \<Rightarrow> string option \<Rightarrow> string list" where
  "with_file hs f = map lower hs @ (case f of None \<Rightarrow> [] | Some x \<Rightarrow> file_hashes x)"

definition blocklist :: "block_conf \<Rightarrow> string list" where
  "blocklist c = with_file (bl_hashes c) (bl_file c)"

definition perceptual_blocklist :: "block_conf \<Rightarrow> string list" where
  "perceptual_blocklist c = filter (\<lambda>e. length e = 16) (with_file (bl_perceptual c) (bl_perceptual_file c))"

fun nearest :: "nat \<Rightarrow> string \<Rightarrow> string list \<Rightarrow> scan_result option" where
  "nearest k fp [] = Some clean_result"
| "nearest k fp (e # es) =
     (case hamming_hex fp e of
        None \<Rightarrow> None
      | Some d \<Rightarrow> if d \<le> k then Some (match_result (''phash:'' @ e)) else nearest k fp es)"

definition hash_scan_digest :: "block_conf \<Rightarrow> string \<Rightarrow> scan_result option" where
  "hash_scan_digest c digest =
     Some (if lower digest \<in> set (blocklist c) then match_result digest else clean_result)"

definition hash_scan :: "(bytes \<Rightarrow> string) \<Rightarrow> (bytes \<Rightarrow> decoded option) \<Rightarrow> block_conf \<Rightarrow> bytes \<Rightarrow> scan_result option" where
  "hash_scan sha decode c data =
     (if sha data \<in> set (blocklist c) then Some (match_result (sha data))
      else case dhash_hex default_max_pixels (decode data) of
          None \<Rightarrow> Some clean_result
        | Some fp \<Rightarrow> nearest (bl_max_distance c) fp (perceptual_blocklist c))"

definition hash_scanner :: "(bytes \<Rightarrow> string) \<Rightarrow> (bytes \<Rightarrow> decoded option) \<Rightarrow> block_conf \<Rightarrow> scanner" where
  "hash_scanner sha decode c =
     \<lparr> sc_scan = hash_scan sha decode c, sc_scan_digest = hash_scan_digest c,
       sc_effective = (blocklist c \<noteq> [] \<or> perceptual_blocklist c \<noteq> []) \<rparr>"

text \<open>
  The managed service gets the digest only. Its reply says whether either field reports a match;
  None stands for any failure of the call.
\<close>

definition managed_scan_digest :: "bool \<Rightarrow> (string \<Rightarrow> (bool \<times> bool) option) \<Rightarrow> string \<Rightarrow> scan_result option" where
  "managed_scan_digest endpoint reply digest =
     Some (if \<not> endpoint then match_result ''scanner_unconfigured''
           else case reply digest of
               None \<Rightarrow> match_result ''scanner_error''
             | Some (m, flagged) \<Rightarrow> if m \<or> flagged then match_result digest else clean_result)"

definition managed_scanner :: "(bytes \<Rightarrow> string) \<Rightarrow> bool \<Rightarrow> (string \<Rightarrow> (bool \<times> bool) option) \<Rightarrow> scanner" where
  "managed_scanner sha endpoint reply =
     \<lparr> sc_scan = (\<lambda>data. managed_scan_digest endpoint reply (sha data)),
       sc_scan_digest = managed_scan_digest endpoint reply, sc_effective = endpoint \<rparr>"

text \<open>Documents: no scanner, or a daemon whose reply is None when the connection fails.\<close>

record document_scanner =
  ds_scan :: "bytes \<Rightarrow> scan_result"
  ds_effective :: bool

definition noop_document_scanner :: document_scanner where
  "noop_document_scanner = \<lparr> ds_scan = (\<lambda>_. clean_result), ds_effective = False \<rparr>"

definition clamd_verdict :: "string option \<Rightarrow> scan_result" where
  "clamd_verdict reply =
     (case reply of
        None \<Rightarrow> match_result ''clamd_error''
      | Some r \<Rightarrow> if suffix ''OK'' r then clean_result else match_result (take 120 r))"

definition clamd_scanner :: "bool \<Rightarrow> (bytes \<Rightarrow> string option) \<Rightarrow> document_scanner" where
  "clamd_scanner host reply = \<lparr> ds_scan = (\<lambda>data. clamd_verdict (reply data)), ds_effective = host \<rparr>"

section \<open>Fingerprints as text\<close>

lemma hex_char_value: "n < 16 \<Longrightarrow> hex_value (hex_char n) = Some n"
proof -
  have "\<forall>n \<in> set [0..<16]. hex_value (hex_char n) = Some n" by code_simp
  then show "n < 16 \<Longrightarrow> hex_value (hex_char n) = Some n" by simp
qed

lemma nibble_less: "unat (w AND 15 :: 64 word) < 16"
proof -
  have "w AND 15 \<le> (15 :: 64 word)" by (rule word_and_le1)
  then have "unat (w AND 15) \<le> unat (15 :: 64 word)" by (simp add: word_le_nat_alt)
  then show ?thesis by simp
qed

lemma nibble_step: "push_bit 4 (drop_bit (4 * Suc i) w) OR (drop_bit (4 * i) w AND 15) = drop_bit (4 * i) (w :: 64 word)"
proof (rule bit_eqI)
  fix n assume "possible_bit TYPE(64 word) n"
  then have "n < 64" by simp
  then have "bit (15 :: 64 word) n \<longleftrightarrow> n < 4"
    using bit_mask_iff [of 4 n, where 'a = "64 word"] by (simp add: mask_eq_exp_minus_1)
  then show "bit (push_bit 4 (drop_bit (4 * Suc i) w) OR (drop_bit (4 * i) w AND 15)) n = bit (drop_bit (4 * i) w) n"
    using \<open>possible_bit TYPE(64 word) n\<close>
    by (cases "n < 4") (auto simp: bit_simps algebra_simps)
qed

lemma unhex_prefix:
  "i \<le> 16 \<Longrightarrow> unhex_from (map (\<lambda>i. hex_char (unat (drop_bit (4 * i) w AND 15))) (rev [0..<i]) @ xs) (drop_bit (4 * i) w) =
     unhex_from xs w"
proof (induction i)
  case (Suc i)
  have "hex_value (hex_char (unat (drop_bit (4 * i) w AND 15))) = Some (unat (drop_bit (4 * i) w AND 15))"
    by (rule hex_char_value [OF nibble_less])
  then show ?case
    using Suc nibble_step [of i w] by simp
qed simp

lemma hex16_roundtrip: "unhex (hex16 w) = Some w"
proof -
  have "drop_bit (4 * 16) w = 0"
    by (rule bit_eqI) (simp add: bit_simps)
  then show ?thesis
    using unhex_prefix [of 16 w "[]"] by (simp add: unhex_def hex16_def del: upt_conv_Cons)
qed

text \<open>
  A stored fingerprint reads back as the one that was computed: the sixteen digits the code
  writes are parsed to the same 64 bits.
\<close>

theorem fingerprint_roundtrip: "unhex (hex16 w) = Some w \<and> length (hex16 w) = 16"
proof
  show "unhex (hex16 w) = Some w" by (rule hex16_roundtrip)
  show "length (hex16 w) = 16" by (simp add: hex16_def)
qed

text \<open>The distance is a metric; a copy whose fingerprint moved by few bits stays near its original.\<close>

lemma hamming_card: "hamming a b = card {n. n < 64 \<and> bit a n \<noteq> bit b n}"
proof -
  have "filter (bit (a XOR b)) [0..<64] = filter (\<lambda>n. bit a n \<noteq> bit b n) [0..<64]"
    by (rule filter_cong) (simp_all add: bit_simps)
  moreover have "distinct (filter (\<lambda>n. bit a n \<noteq> bit b n) [0..<64])" by (intro distinct_filter distinct_upt)
  ultimately have "hamming a b = card (set (filter (\<lambda>n. bit a n \<noteq> bit b n) [0..<64]))"
    unfolding hamming_def bit_count_def by (metis distinct_card)
  then show ?thesis by simp
qed

lemma hamming_sym: "hamming a b = hamming b a"
  by (simp add: hamming_def xor.commute)

lemma hamming_triangle: "hamming a c \<le> hamming a b + hamming b c"
proof -
  have "{n. n < 64 \<and> bit a n \<noteq> bit c n} \<subseteq> {n. n < 64 \<and> bit a n \<noteq> bit b n} \<union> {n. n < 64 \<and> bit b n \<noteq> bit c n}"
    by auto
  then have "card {n. n < 64 \<and> bit a n \<noteq> bit c n} \<le>
      card ({n. n < 64 \<and> bit a n \<noteq> bit b n} \<union> {n. n < 64 \<and> bit b n \<noteq> bit c n})"
    by (rule card_mono [rotated]) simp
  also have "\<dots> \<le> card {n. n < 64 \<and> bit a n \<noteq> bit b n} + card {n. n < 64 \<and> bit b n \<noteq> bit c n}"
    by (rule card_Un_le)
  finally show ?thesis by (simp add: hamming_card)
qed

lemma nearest_clean:
  "nearest k fp es = Some r \<Longrightarrow>
   sr_clean r \<longleftrightarrow> (\<forall>e \<in> set es. \<forall>d. hamming_hex fp e = Some d \<longrightarrow> k < d)"
  by (induction es) (auto simp: clean_result_def match_result_def split: option.splits if_splits)

lemma nearest_defined:
  "\<forall>e \<in> set es. hamming_hex fp e \<noteq> None \<Longrightarrow> \<exists>r. nearest k fp es = Some r"
  by (induction es) auto

definition entries_read :: "block_conf \<Rightarrow> bool" where
  "entries_read c \<longleftrightarrow> (\<forall>e \<in> set (perceptual_blocklist c). unhex e \<noteq> None)"

text \<open>
  The block-list scanner finds exactly what its lists call for: when every perceptual entry is
  readable the scan never raises, and it passes bytes exactly when their digest is not listed and
  their fingerprint, if they have one, is further than the threshold from every listed one.
\<close>

theorem scan_exact:
  assumes "entries_read c"
  shows "\<exists>r. hash_scan sha decode c data = Some r \<and>
    (sr_clean r \<longleftrightarrow> sha data \<notin> set (blocklist c) \<and>
      (case dhash default_max_pixels (decode data) of
         None \<Rightarrow> True
       | Some w \<Rightarrow> \<forall>e \<in> set (perceptual_blocklist c). bl_max_distance c < hamming w (the (unhex e))))"
proof (cases "sha data \<in> set (blocklist c)")
  case True
  then show ?thesis by (simp add: hash_scan_def match_result_def)
next
  case False
  show ?thesis
  proof (cases "dhash default_max_pixels (decode data)")
    case None
    with False show ?thesis by (simp add: hash_scan_def dhash_hex_def clean_result_def)
  next
    case (Some w)
    have near: "hamming_hex (hex16 w) e = Some (hamming w (the (unhex e)))" if "e \<in> set (perceptual_blocklist c)" for e
      using assms that by (auto simp: entries_read_def hamming_hex_def hex16_roundtrip)
    then obtain r where r: "nearest (bl_max_distance c) (hex16 w) (perceptual_blocklist c) = Some r"
      using nearest_defined [of "perceptual_blocklist c" "hex16 w"] by auto
    have "sr_clean r \<longleftrightarrow> (\<forall>e \<in> set (perceptual_blocklist c). bl_max_distance c < hamming w (the (unhex e)))"
      using nearest_clean [OF r] near by auto
    with False Some r show ?thesis by (simp add: hash_scan_def dhash_hex_def)
  qed
qed

text \<open>A picture that brightens to the left, a listed fingerprint one bit away from its own.\<close>

definition slope :: decoded where
  "slope = \<lparr> de_width = 9, de_height = 8, de_gray = (\<lambda>i. if i < 2 then 1 - i else 0) \<rparr>"

definition one_entry :: block_conf where
  "one_entry = \<lparr> bl_hashes = [], bl_file = None, bl_perceptual = [''c000000000000000''], bl_perceptual_file = None,
     bl_max_distance = 8 \<rparr>"

lemma slope_fingerprint: "dhash default_max_pixels (Some slope) = Some 0x8000000000000000"
proof -
  have "map (falls_at (de_gray slope)) grid = True # replicate 63 False"
    by (simp add: slope_def grid_def falls_at_def upt_rec numeral_eq_Suc)
  moreover have "add_bits (replicate n False) w = push_bit n w" for n w
    by (induction n arbitrary: w) (simp_all add: push_bit_push_bit)
  ultimately have "gradient_bits (de_gray slope) = push_bit 63 1"
    by (simp add: gradient_bits_def)
  then show ?thesis by (simp add: dhash_def slope_def default_max_pixels_def)
qed

lemma one_entry_lists: "bl_max_distance one_entry = 8" "perceptual_blocklist one_entry = [''c000000000000000'']" "blocklist one_entry = []"
  by (simp_all add: one_entry_def perceptual_blocklist_def blocklist_def with_file_def lower_def)

lemma one_entry_near: "unhex ''c000000000000000'' = Some 0xC000000000000000" "hamming 0x8000000000000000 0xC000000000000000 = 1"
  by code_simp+

theorem scan_exact_witness:
  "\<exists>r. hash_scan (\<lambda>_. ''d'') (\<lambda>_. Some slope) one_entry ''p'' = Some r \<and> \<not> sr_clean r"
proof -
  have "entries_read one_entry" by (simp add: entries_read_def one_entry_lists one_entry_near)
  from scan_exact [OF this, of "\<lambda>_. ''d''" "\<lambda>_. Some slope" "''p''"] show ?thesis
    by (simp add: slope_fingerprint one_entry_lists one_entry_near)
qed

end
