(* ===== verification/Media.thy ===== *)
theory Media
  imports Screening Venue_Overlays
begin

text \<open>
  apps/media (services.py, models.py, signals.py): profile and thread photos, the covers of
  activities and places, their links, and the removal of stored bytes. The image library, the
  scanners and fresh names are a \<open>codec\<close>; the object store is a map from keys to bytes whose
  operations do not fail. A database transaction takes no bytes back: \<open>atomically\<close> undoes the rows of
  a call that raises and leaves the store. A link is a signed payload with the time of signing,
  which nobody else can make.
\<close>

section \<open>Rows (apps/media/models.py)\<close>

datatype photo_kind = ProfilePhoto | ThreadPhoto

datatype scan_status = ScanPending | ScanClean | ScanBlocked

record photo =
  ph_id :: id
  ph_uploader :: id
  ph_kind :: photo_kind
  ph_thread :: "id option"
  ph_key :: string
  ph_type :: string
  ph_size :: nat
  ph_sha :: string
  ph_phash :: string
  ph_width :: nat
  ph_height :: nat
  ph_thumb :: string
  ph_status :: scan_status
  ph_stripped :: bool
  ph_created_at :: time

datatype attach_kind = AttImage | AttFile | AttVideo

datatype attach_status = AttReady | AttPending | AttProcessing | AttFailed | AttBlocked

record attachment =
  at_id :: id
  at_post :: id
  at_uploader :: id
  at_kind :: attach_kind
  at_status :: attach_status
  at_key :: string
  at_type :: string
  at_size :: nat
  at_sha :: string
  at_filename :: string
  at_width :: nat
  at_height :: nat
  at_thumb :: string
  at_poster :: string
  at_poster_type :: string
  at_source :: string
  at_duration :: nat
  at_attempts :: nat
  at_started_at :: "time option"
  at_stripped :: bool
  at_created_at :: time
  at_expires_at :: "time option"
  at_purged_at :: "time option"

record cover =
  kv_id :: id
  kv_activity :: id
  kv_uploader :: id
  kv_key :: string
  kv_type :: string
  kv_size :: nat
  kv_sha :: string
  kv_width :: nat
  kv_height :: nat
  kv_thumb :: string
  kv_stripped :: bool
  kv_alt :: string

datatype place_cover_source = Wikimedia | BusinessUpload

record place_cover =
  pv_id :: id
  pv_place :: id
  pv_source :: place_cover_source
  pv_uploaded_by :: "id option"
  pv_key :: string
  pv_type :: string
  pv_size :: nat
  pv_sha :: string
  pv_width :: nat
  pv_height :: nat
  pv_stripped :: bool
  pv_attribution :: string
  pv_license :: string
  pv_source_page :: string
  pv_alt :: string

section \<open>Settings and libraries\<close>

record media_settings =
  me_require_scanner :: bool
  me_require_documents :: bool
  me_max_bytes :: nat
  me_attachment_max_bytes :: nat
  me_video_max_bytes :: nat
  me_attachments_enabled :: bool
  me_file_cohorts :: "cohort list"
  me_video_enabled :: bool
  me_video_cohorts :: "cohort list"
  me_ttl_minors :: int
  me_ttl :: int
  me_link_ttl :: int
  me_distance :: nat
  me_profile_cap :: nat
  me_video_stale :: int
  me_video_attempts :: nat

definition default_media_settings :: media_settings where
  "default_media_settings = \<lparr> me_require_scanner = True, me_require_documents = False, me_max_bytes = 5 * 1024 * 1024,
     me_attachment_max_bytes = 7 * 1024 * 1024, me_video_max_bytes = 80 * 1024 * 1024, me_attachments_enabled = True,
     me_file_cohorts = [Adult], me_video_enabled = True, me_video_cohorts = [Adult], me_ttl_minors = 86400,
     me_ttl = 3600, me_link_ttl = 300, me_distance = default_max_distance, me_profile_cap = 10000,
     me_video_stale = 1800, me_video_attempts = 3 \<rparr>"

text \<open>A decoded and re-encoded image: its bytes, the extension of its format, its size.\<close>

record image =
  im_bytes :: bytes
  im_ext :: string
  im_width :: nat
  im_height :: nat

text \<open>What becomes of a video: refused for good, a passing failure, or the delivery clip.\<close>

record clip =
  cp_bytes :: bytes
  cp_poster_frame :: bytes
  cp_poster :: image
  cp_frames :: "bytes list"
  cp_width :: nat
  cp_height :: nat
  cp_duration :: nat

datatype transcoded = Refused string | Stumbled | Transcoded clip

record codec =
  cd_scanner :: scanner
  cd_documents :: document_scanner
  cd_decode :: "bytes \<Rightarrow> decoded option"
  cd_strip :: "nat \<Rightarrow> bytes \<Rightarrow> image option"
  cd_thumb :: "bytes \<Rightarrow> bytes option"
  cd_ffmpeg :: bool
  cd_transcode :: "bytes \<Rightarrow> transcoded"
  cd_uuid :: "nat \<Rightarrow> string"

section \<open>State\<close>

record media =
  md_venues :: venues
  md_conf :: media_settings
  md_codec :: codec
  md_uuids :: nat
  md_blobs :: "string \<rightharpoonup> bytes"
  md_photos :: "photo list"
  md_attachments :: "attachment list"
  md_covers :: "cover list"
  md_place_covers :: "place_cover list"
  md_cleanups :: "string list"

datatype media_error =
    MediaNotAuthorized string | MediaRejected string | DuplicateProfileImage string | MediaError string
  | BadImage | ScanRaised | NoSuchAttribute

definition mdb :: "media \<Rightarrow> db" where
  "mdb s = vn_db (md_venues s)"

definition over_db :: "(db \<Rightarrow> db) \<Rightarrow> media \<Rightarrow> media" where
  "over_db f s = s\<lparr> md_venues := with_db f (md_venues s) \<rparr>"

definition audit :: "string \<Rightarrow> id option \<Rightarrow> (string \<times> id) option \<Rightarrow> (string \<times> json) list \<Rightarrow> media \<Rightarrow> media" where
  "audit e who target data = over_db (record_audit e who target data)"

definition media_id :: "media \<Rightarrow> id" where
  "media_id s = seq (mdb s)"

definition take_media_id :: "media \<Rightarrow> media" where
  "take_media_id = over_db (\<lambda>d. d\<lparr> seq := Suc (seq d) \<rparr>)"

definition digest_of :: "media \<Rightarrow> bytes \<Rightarrow> string" where
  "digest_of s = sha256 (lib (mdb s))"

definition uuid :: "media \<Rightarrow> string" where
  "uuid s = cd_uuid (md_codec s) (md_uuids s)"

definition store :: "string \<Rightarrow> bytes \<Rightarrow> media \<Rightarrow> media" where
  "store k b s = s\<lparr> md_blobs := (md_blobs s)(k \<mapsto> b), md_uuids := Suc (md_uuids s) \<rparr>"

definition unstore :: "string \<Rightarrow> media \<Rightarrow> media" where
  "unstore k s = s\<lparr> md_blobs := (md_blobs s)(k := None) \<rparr>"

text \<open>
  A transaction around a call: when it raises, every row is as before; the store and the names used
  up are not, nor is the cache of the rate limiter.
\<close>

definition roll_back :: "media \<Rightarrow> media \<Rightarrow> media" where
  "roll_back s t = over_db (\<lambda>d. d\<lparr> cache := cache (mdb t) \<rparr>) s\<lparr> md_blobs := md_blobs t, md_uuids := md_uuids t \<rparr>"

definition atomically :: "(media \<Rightarrow> ('e, 'a, media) outcome) \<Rightarrow> media \<Rightarrow> ('e, 'a, media) outcome" where
  "atomically f s = (case f s of (Inl e, t) \<Rightarrow> (Inl e, roll_back s t) | (Inr v, t) \<Rightarrow> (Inr v, t))"

section \<open>Removal of bytes (signals.py, the clean-up task)\<close>

definition enqueue_cleanup :: "string \<Rightarrow> media \<Rightarrow> media" where
  "enqueue_cleanup k s =
     (if k = [] \<or> k \<in> set (md_cleanups s) then s else s\<lparr> md_cleanups := md_cleanups s @ [k] \<rparr>)"

fun enqueue_cleanups :: "string list \<Rightarrow> media \<Rightarrow> media" where
  "enqueue_cleanups [] s = s"
| "enqueue_cleanups (k # ks) s = enqueue_cleanups ks (enqueue_cleanup k s)"

definition blob_cleanup :: "string \<Rightarrow> media \<Rightarrow> media" where
  "blob_cleanup k s =
     (if k \<in> set (md_cleanups s)
      then audit ''erasure.blob_cleanup'' None None [(''blob_count'', JInt 1)]
             (unstore k (s\<lparr> md_cleanups := removeAll k (md_cleanups s) \<rparr>))
      else s)"

definition drop_photos :: "(photo \<Rightarrow> bool) \<Rightarrow> media \<Rightarrow> media" where
  "drop_photos P s =
     (let gone = filter P (md_photos s)
      in enqueue_cleanups (concat (map (\<lambda>p. [ph_key p, ph_thumb p]) gone))
           (s\<lparr> md_photos := filter (\<lambda>p. \<not> P p) (md_photos s) \<rparr>))"

definition drop_attachments :: "(attachment \<Rightarrow> bool) \<Rightarrow> media \<Rightarrow> media" where
  "drop_attachments P s =
     (let gone = filter P (md_attachments s)
      in enqueue_cleanups (concat (map (\<lambda>a. [at_key a, at_thumb a, at_poster a, at_source a]) gone))
           (s\<lparr> md_attachments := filter (\<lambda>a. \<not> P a) (md_attachments s) \<rparr>))"

definition drop_covers :: "(cover \<Rightarrow> bool) \<Rightarrow> media \<Rightarrow> media" where
  "drop_covers P s =
     (let gone = filter P (md_covers s)
      in enqueue_cleanups (concat (map (\<lambda>c. [kv_key c, kv_thumb c]) gone))
           (s\<lparr> md_covers := filter (\<lambda>c. \<not> P c) (md_covers s) \<rparr>))"

definition drop_place_covers :: "(place_cover \<Rightarrow> bool) \<Rightarrow> media \<Rightarrow> media" where
  "drop_place_covers P s =
     (let gone = filter P (md_place_covers s)
      in enqueue_cleanups (map pv_key gone) (s\<lparr> md_place_covers := filter (\<lambda>c. \<not> P c) (md_place_covers s) \<rparr>))"

section \<open>The screening every upload passes\<close>

definition no_scanner :: "media \<Rightarrow> bool" where
  "no_scanner s \<longleftrightarrow> me_require_scanner (md_conf s) \<and> \<not> sc_effective (cd_scanner (md_codec s))"

text \<open>The scan of the original bytes, with its entry in the log when they match.\<close>

definition screen :: "id \<Rightarrow> string \<Rightarrow> bytes \<Rightarrow> media \<Rightarrow> (media_error, unit, media) outcome" where
  "screen u msg data s =
     (case sc_scan (cd_scanner (md_codec s)) data of
        None \<Rightarrow> raised ScanRaised s
      | Some r \<Rightarrow>
          if sr_clean r then returned () s
          else raised (MediaRejected msg)
                 (audit ''media.blocked'' (Some u) None
                    [(''reason'', JStr ''scan_match''), (''sha256'', JStr (digest_of s data))] s))"

definition image_failed :: string where
  "image_failed = ''Image failed safety screening and was not stored.''"

text \<open>An image: validated, the scanner present, the original bytes clean. The event and message of a missing scanner vary.\<close>

definition screened_image ::
  "id \<Rightarrow> string \<Rightarrow> (string \<times> json) list \<Rightarrow> string \<Rightarrow> bytes \<Rightarrow> media \<Rightarrow> (media_error, image, media) outcome" where
  "screened_image u event extra msg data s =
     (case cd_strip (md_codec s) (me_max_bytes (md_conf s)) data of
        None \<Rightarrow> raised BadImage s
      | Some im \<Rightarrow>
          if no_scanner s
          then raised (MediaRejected msg) (audit event (Some u) None ((''reason'', JStr ''no_scanner'') # extra) s)
          else (case screen u image_failed data s of
                  (Inl e, t) \<Rightarrow> raised e t
                | (Inr _, t) \<Rightarrow> returned im t))"

definition image_type :: "image \<Rightarrow> string" where
  "image_type im = ''image/'' @ im_ext im"

definition store_image :: "string \<Rightarrow> image \<Rightarrow> media \<Rightarrow> string \<times> media" where
  "store_image dir im s = (let k = dir @ uuid s @ ''.'' @ im_ext im in (k, store k (im_bytes im) s))"

definition store_thumbnail :: "image \<Rightarrow> media \<Rightarrow> string \<times> media" where
  "store_thumbnail im s =
     (case cd_thumb (md_codec s) (im_bytes im) of
        None \<Rightarrow> ([], s)
      | Some b \<Rightarrow> let k = ''thumbs/'' @ uuid s @ ''.'' @ im_ext im in (k, store k b s))"

section \<open>Photos\<close>

definition kind_of_photo :: "string \<Rightarrow> photo_kind option" where
  "kind_of_photo k = (if k = ''profile'' then Some ProfilePhoto else if k = ''thread'' then Some ThreadPhoto else None)"

fun photo_kind_value :: "photo_kind \<Rightarrow> string" where
  "photo_kind_value ProfilePhoto = ''profile''"
| "photo_kind_value ThreadPhoto = ''thread''"

definition cohort_of :: "media \<Rightarrow> id \<Rightarrow> cohort option" where
  "cohort_of s u = map_option u_cohort (user_row (mdb s) u)"

definition profile_image_is_taken :: "user \<Rightarrow> string \<Rightarrow> string \<Rightarrow> media \<Rightarrow> bool" where
  "profile_image_is_taken u digest fingerprint s =
     (let others = filter (\<lambda>p. ph_kind p = ProfilePhoto \<and> cohort_of s (ph_uploader p) = Some (u_cohort u) \<and>
            ph_uploader p \<noteq> u_id u) (md_photos s)
      in if digest = [] then False
         else if \<exists>p \<in> set others. ph_sha p = digest then True
         else fingerprint \<noteq> [] \<and>
           (\<exists>x \<in> set (take (me_profile_cap (md_conf s)) (filter (\<lambda>x. x \<noteq> []) (map ph_phash (rev others)))).
              case hamming_hex fingerprint x of None \<Rightarrow> False | Some d \<Rightarrow> d \<le> me_distance (md_conf s)))"

text \<open>A member of the thread of an activity; a thread without one makes the code raise.\<close>

definition is_photo_member :: "media \<Rightarrow> id \<Rightarrow> thread \<Rightarrow> bool option" where
  "is_photo_member s u t =
     map_option (\<lambda>a. \<exists>m \<in> set (current_members (mdb s) a). mb_user m = u) (th_activity t)"

definition photo_row_of :: "user \<Rightarrow> photo_kind \<Rightarrow> id option \<Rightarrow> string \<Rightarrow> string \<Rightarrow> string \<Rightarrow> string \<Rightarrow> image \<Rightarrow> media \<Rightarrow> photo" where
  "photo_row_of u k th key thumb digest fingerprint im s =
     \<lparr> ph_id = media_id s, ph_uploader = u_id u, ph_kind = k, ph_thread = th, ph_key = key, ph_type = image_type im,
       ph_size = length (im_bytes im), ph_sha = digest, ph_phash = fingerprint, ph_width = im_width im,
       ph_height = im_height im, ph_thumb = thumb, ph_status = ScanClean, ph_stripped = True,
       ph_created_at = clock (mdb s) \<rparr>"

definition insert_photo :: "photo \<Rightarrow> media \<Rightarrow> media" where
  "insert_photo p s = take_media_id (s\<lparr> md_photos := md_photos s @ [p] \<rparr>)"

definition fingerprint_of :: "photo_kind \<Rightarrow> image \<Rightarrow> media \<Rightarrow> string" where
  "fingerprint_of k im s =
     (if k = ProfilePhoto
      then case dhash_hex default_max_pixels (cd_decode (md_codec s) (im_bytes im)) of None \<Rightarrow> [] | Some x \<Rightarrow> x
      else [])"

definition store_photo :: "user \<Rightarrow> photo_kind \<Rightarrow> id option \<Rightarrow> image \<Rightarrow> media \<Rightarrow> (media_error, photo, media) outcome" where
  "store_photo u k th im s =
     (let digest = digest_of s (im_bytes im); fingerprint = fingerprint_of k im s in
      if k = ProfilePhoto \<and> profile_image_is_taken u digest fingerprint s
      then raised (DuplicateProfileImage ''Please choose a different image.'')
             (audit ''media.profile_duplicate_rejected'' (Some (u_id u)) None [(''sha256'', JStr digest)] s)
      else let (key, s1) = store_image [] im s;
               (thumb, s2) = store_thumbnail im s1;
               s3 = (if k = ProfilePhoto then drop_photos (\<lambda>p. ph_uploader p = u_id u \<and> ph_kind p = ProfilePhoto) s2 else s2);
               p = photo_row_of u k th key thumb digest fingerprint im s3
           in returned p (audit ''media.uploaded'' (Some (u_id u)) None
                [(''kind'', JStr (photo_kind_value k)), (''photo_id'', JInt (int (ph_id p)))] (insert_photo p s3)))"

definition photo_gate :: "user \<Rightarrow> string \<Rightarrow> thread option \<Rightarrow> media \<Rightarrow> media_error + photo_kind \<times> id option" where
  "photo_gate u kind th s =
     (case kind_of_photo kind of
        None \<Rightarrow> Inl (MediaError ''Unknown photo kind.'')
      | Some ProfilePhoto \<Rightarrow> Inr (ProfilePhoto, None)
      | Some ThreadPhoto \<Rightarrow>
          (case th of
             None \<Rightarrow> Inl (MediaNotAuthorized ''A thread is required for thread photos.'')
           | Some t \<Rightarrow>
               (case is_photo_member s (u_id u) t of
                  None \<Rightarrow> Inl NoSuchAttribute
                | Some False \<Rightarrow> Inl (MediaNotAuthorized ''Only current members can post photos in this thread.'')
                | Some True \<Rightarrow> Inr (ThreadPhoto, Some (th_id t)))))"

definition upload_photo_body :: "user \<Rightarrow> string \<Rightarrow> bytes \<Rightarrow> thread option \<Rightarrow> media \<Rightarrow> (media_error, photo, media) outcome" where
  "upload_photo_body u kind data th s =
     (case photo_gate u kind th s of
        Inl e \<Rightarrow> raised e s
      | Inr (k, t) \<Rightarrow>
          (case screened_image (u_id u) ''media.upload_blocked'' [(''kind'', JStr (photo_kind_value k))]
                  ''Photo uploads are unavailable until a content safety scanner is configured.'' data s of
             (Inl e, s1) \<Rightarrow> raised e s1
           | (Inr im, s1) \<Rightarrow> store_photo u k t im s1))"

definition upload_photo :: "user \<Rightarrow> string \<Rightarrow> bytes \<Rightarrow> thread option \<Rightarrow> media \<Rightarrow> (media_error, photo, media) outcome" where
  "upload_photo u kind data th = atomically (upload_photo_body u kind data th)"

definition delete_photo :: "user \<Rightarrow> photo \<Rightarrow> media \<Rightarrow> (media_error, unit, media) outcome" where
  "delete_photo u p s =
     (if u_id u \<noteq> ph_uploader p \<and> \<not> u_staff u then raised (MediaNotAuthorized ''Not allowed to delete this photo.'') s
      else returned () (drop_photos (\<lambda>q. ph_id q = ph_id p)
             (audit ''media.deleted'' (Some (u_id u)) (Some (''media.photo'', ph_id p)) [] s)))"

definition thread_row :: "media \<Rightarrow> id option \<Rightarrow> thread option" where
  "thread_row s t = (case t of None \<Rightarrow> None | Some i \<Rightarrow> List.find (\<lambda>x. th_id x = i) (threads (mdb s)))"

definition can_view_photo :: "media \<Rightarrow> user \<Rightarrow> photo \<Rightarrow> bool" where
  "can_view_photo s v p =
     (if ph_status p \<noteq> ScanClean then False
      else if u_id v = ph_uploader p then True
      else if is_blocked (mdb s) (u_id v) (ph_uploader p) then False
      else if ph_kind p = ThreadPhoto
      then (case thread_row s (ph_thread p) of
              None \<Rightarrow> False | Some t \<Rightarrow> is_photo_member s (u_id v) t = Some True)
      else cohort_of s (ph_uploader p) = Some (u_cohort v))"

definition thread_photos :: "media \<Rightarrow> user \<Rightarrow> thread \<Rightarrow> media_error + photo list" where
  "thread_photos s v t =
     (case is_photo_member s (u_id v) t of
        None \<Rightarrow> Inl NoSuchAttribute
      | Some False \<Rightarrow> Inl (MediaNotAuthorized (quoted ''Only current members can view this thread'' ''s photos.''))
      | Some True \<Rightarrow> Inr (rev (sort_key ph_created_at
          (filter (\<lambda>p. ph_thread p = Some (th_id t) \<and> ph_status p = ScanClean) (md_photos s)))))"

section \<open>Links\<close>

datatype salt = PhotoSalt | AttachSalt | CoverSalt | PlaceSalt

record link =
  ln_object :: id
  ln_viewer :: "id option"
  ln_public :: bool
  ln_variant :: string

datatype token = Signed salt link time | Forged string

text \<open>\<open>signing.loads\<close>: the payload of a genuine signature that is not too old.\<close>

definition loads :: "salt \<Rightarrow> media \<Rightarrow> token \<Rightarrow> link option" where
  "loads sl s tok =
     (case tok of
        Forged _ \<Rightarrow> None
      | Signed sl' l t \<Rightarrow> if sl' = sl \<and> clock (mdb s) - t \<le> seconds (me_link_ttl (md_conf s)) then Some l else None)"

definition viewer_link :: "id \<Rightarrow> id \<Rightarrow> string \<Rightarrow> link" where
  "viewer_link i v variant = \<lparr> ln_object = i, ln_viewer = Some v, ln_public = False, ln_variant = variant \<rparr>"

definition signed_url :: "photo \<Rightarrow> user \<Rightarrow> bool \<Rightarrow> media \<Rightarrow> media_error + token" where
  "signed_url p v small s =
     (if \<not> can_view_photo s v p then Inl (MediaNotAuthorized ''Not allowed to view this photo.'')
      else Inr (Signed PhotoSalt (viewer_link (ph_id p) (u_id v) (if small then ''t'' else [])) (clock (mdb s))))"

definition resolve_signed_token :: "token \<Rightarrow> user \<Rightarrow> media \<Rightarrow> media_error + photo \<times> bool" where
  "resolve_signed_token tok v s =
     (case loads PhotoSalt s tok of
        None \<Rightarrow> Inl (MediaNotAuthorized ''Invalid or expired media link.'')
      | Some l \<Rightarrow>
          if ln_viewer l \<noteq> Some (u_id v) then Inl (MediaNotAuthorized ''This media link was issued to a different user.'')
          else (case List.find (\<lambda>p. ph_id p = ln_object l) (md_photos s) of
                  None \<Rightarrow> Inl (MediaNotAuthorized ''Not allowed to view this photo.'')
                | Some p \<Rightarrow> if \<not> can_view_photo s v p then Inl (MediaNotAuthorized ''Not allowed to view this photo.'')
                    else Inr (p, ln_variant l = ''t'')))"

end
