(* ===== verification/Covers.thy ===== *)
theory Covers
  imports Media
begin

text \<open>
  apps/media/services.py: the one cover of an activity, managed by its organiser, and the one
  official image of a place, managed by its approved business claimant, with the links that serve
  them. A viewer is None when nobody is signed in.
\<close>

section \<open>Covers of activities\<close>

definition can_manage_activity_cover :: "user \<Rightarrow> activity \<Rightarrow> bool" where
  "can_manage_activity_cover u a \<longleftrightarrow> u_staff u \<or> u_id u = ac_owner a"

definition activity_accepts_cover_upload :: "media \<Rightarrow> activity \<Rightarrow> bool" where
  "activity_accepts_cover_upload s a \<longleftrightarrow> ac_status a = AOpen \<and> \<not> ac_hidden a \<and> clock (mdb s) < ac_starts_at a"

definition cover_row :: "id \<Rightarrow> user \<Rightarrow> activity \<Rightarrow> string \<Rightarrow> string \<Rightarrow> image \<Rightarrow> string \<Rightarrow> media \<Rightarrow> cover" where
  "cover_row i u a key thumb im alt s =
     \<lparr> kv_id = i, kv_activity = ac_id a, kv_uploader = u_id u, kv_key = key, kv_type = image_type im,
       kv_size = length (im_bytes im), kv_sha = digest_of s (im_bytes im), kv_width = im_width im, kv_height = im_height im,
       kv_thumb = thumb, kv_stripped = True, kv_alt = take 140 (strip alt) \<rparr>"

text \<open>A replaced blob is deleted once the transaction commits.\<close>

definition unstore_replaced :: "string \<Rightarrow> string \<Rightarrow> media \<Rightarrow> media" where
  "unstore_replaced old new s = (if old \<noteq> [] \<and> old \<noteq> new then unstore old s else s)"

definition put_cover :: "user \<Rightarrow> activity \<Rightarrow> string \<Rightarrow> string \<Rightarrow> image \<Rightarrow> string \<Rightarrow> media \<Rightarrow> cover \<times> media" where
  "put_cover u a key thumb im alt s =
     (case List.find (\<lambda>c. kv_activity c = ac_id a) (md_covers s) of
        None \<Rightarrow>
          (let c = cover_row (media_id s) u a key thumb im alt s
           in (c, take_media_id (s\<lparr> md_covers := md_covers s @ [c] \<rparr>)))
      | Some old \<Rightarrow>
          (let c = cover_row (kv_id old) u a key thumb im alt s
           in (c, unstore_replaced (kv_thumb old) thumb (unstore_replaced (kv_key old) key
                (s\<lparr> md_covers := update_rows (\<lambda>x. kv_id x = kv_id old) (\<lambda>_. c) (md_covers s) \<rparr>)))))"

definition upload_activity_cover_body ::
  "user \<Rightarrow> activity \<Rightarrow> bytes \<Rightarrow> string \<Rightarrow> media \<Rightarrow> (media_error, cover, media) outcome" where
  "upload_activity_cover_body u a data alt s =
     (if \<not> can_manage_activity_cover u a
      then raised (MediaNotAuthorized ''Only the organizer or staff can manage this activity cover.'') s
      else if \<not> activity_accepts_cover_upload s a
      then raised (MediaRejected ''Covers can only be changed before an open, visible activity starts.'') s
      else case screened_image (u_id u) ''media.cover_upload_blocked'' []
                  ''Cover uploads are unavailable until a content safety scanner is configured.'' data s of
             (Inl e, t) \<Rightarrow> raised e t
           | (Inr im, t) \<Rightarrow>
               (let (key, s1) = store_image ''activity-covers/'' im t;
                    (thumb, s2) = store_thumbnail im s1;
                    (c, s3) = put_cover u a key thumb im alt s2
                in returned c (audit ''media.activity_cover_uploaded'' (Some (u_id u)) (Some (activity_target (ac_id a)))
                     [(''cover_id'', JInt (int (kv_id c)))] s3)))"

definition upload_activity_cover :: "user \<Rightarrow> activity \<Rightarrow> bytes \<Rightarrow> string \<Rightarrow> media \<Rightarrow> (media_error, cover, media) outcome" where
  "upload_activity_cover u a data alt = atomically (upload_activity_cover_body u a data alt)"

definition delete_activity_cover :: "user \<Rightarrow> activity \<Rightarrow> cover \<Rightarrow> media \<Rightarrow> (media_error, unit, media) outcome" where
  "delete_activity_cover u a c s =
     (if \<not> can_manage_activity_cover u a
      then raised (MediaNotAuthorized ''Only the organizer or staff can delete this activity cover.'') s
      else returned () (drop_covers (\<lambda>x. kv_id x = kv_id c)
             (audit ''media.activity_cover_deleted'' (Some (u_id u)) (Some (activity_target (ac_id a))) [] s)))"

definition public_can_view_cover :: "media \<Rightarrow> cover \<Rightarrow> bool" where
  "public_can_view_cover s c \<longleftrightarrow> (\<exists>a \<in> set (public_activities (mdb s)). ac_id a = kv_activity c)"

definition can_view_activity_cover :: "media \<Rightarrow> user option \<Rightarrow> cover \<Rightarrow> bool" where
  "can_view_activity_cover s v c =
     (if kv_key c = [] then False
      else case v of
          None \<Rightarrow> public_can_view_cover s c
        | Some u \<Rightarrow> u_staff u \<or> (\<exists>a \<in> set (visible_activities (mdb s) u). ac_id a = kv_activity c))"

definition activity_cover_signed_url :: "cover \<Rightarrow> user option \<Rightarrow> bool \<Rightarrow> media \<Rightarrow> media_error + token" where
  "activity_cover_signed_url c v small s =
     (if \<not> can_view_activity_cover s v c then Inl (MediaNotAuthorized ''Not allowed to view this activity cover.'')
      else Inr (Signed CoverSalt \<lparr> ln_object = kv_id c, ln_viewer = map_option u_id v, ln_public = (v = None),
                  ln_variant = (if small then ''t'' else []) \<rparr> (clock (mdb s))))"

definition resolve_activity_cover_token :: "token \<Rightarrow> user option \<Rightarrow> media \<Rightarrow> media_error + cover \<times> bool" where
  "resolve_activity_cover_token tok v s =
     (case loads CoverSalt s tok of
        None \<Rightarrow> Inl (MediaNotAuthorized ''Invalid or expired activity cover link.'')
      | Some l \<Rightarrow>
          (case List.find (\<lambda>c. kv_id c = ln_object l) (md_covers s) of
             None \<Rightarrow> Inl (MediaNotAuthorized ''Not allowed to view this activity cover.'')
           | Some c \<Rightarrow>
               if ln_public l
               then if \<not> public_can_view_cover s c then Inl (MediaNotAuthorized ''Not allowed to view this activity cover.'')
                    else Inr (c, ln_variant l = ''t'')
               else if v = None \<or> ln_viewer l \<noteq> map_option u_id v
               then Inl (MediaNotAuthorized ''This activity cover link was issued to a different user.'')
               else if \<not> can_view_activity_cover s v c
               then Inl (MediaNotAuthorized ''Not allowed to view this activity cover.'')
               else Inr (c, ln_variant l = ''t'')))"

datatype visual = CoverPhoto token string | GeneratedAccent

definition activity_visual :: "activity \<Rightarrow> user option \<Rightarrow> media \<Rightarrow> visual" where
  "activity_visual a v s =
     (case List.find (\<lambda>c. kv_activity c = ac_id a) (md_covers s) of
        None \<Rightarrow> GeneratedAccent
      | Some c \<Rightarrow>
          (case activity_cover_signed_url c v True s of
             Inl _ \<Rightarrow> GeneratedAccent
           | Inr tok \<Rightarrow> CoverPhoto tok (or_else (kv_alt c) (ac_title a))))"

section \<open>Covers of places\<close>

definition can_manage_place_cover :: "media \<Rightarrow> user \<Rightarrow> id \<Rightarrow> bool \<times> claim option" where
  "can_manage_place_cover s u p =
     (let c = approved_business_claim_for (md_venues s) (u_id u) p in (u_staff u \<or> c \<noteq> None, c))"

definition partner_row :: "media \<Rightarrow> id option \<Rightarrow> partner option" where
  "partner_row s i = (case i of None \<Rightarrow> None | Some j \<Rightarrow> List.find (\<lambda>x. pa_id x = j) (vn_partners (md_venues s)))"

definition crediting_partner :: "media \<Rightarrow> claim option \<Rightarrow> id \<Rightarrow> partner option" where
  "crediting_partner s c p =
     (case (case c of None \<Rightarrow> None | Some x \<Rightarrow> partner_row s (cl_partner x)) of
        Some x \<Rightarrow> Some x
      | None \<Rightarrow> official_partner_for_place (md_venues s) p)"

definition cover_attribution :: "partner option \<Rightarrow> string" where
  "cover_attribution x = (case x of None \<Rightarrow> ''Official image'' | Some y \<Rightarrow> ''Official image: '' @ pa_name y)"

definition cover_source_page :: "media \<Rightarrow> partner option \<Rightarrow> id \<Rightarrow> string" where
  "cover_source_page s x p =
     or_else (case x of None \<Rightarrow> [] | Some y \<Rightarrow> pa_website y) (px_website (vn_columns (md_venues s) p))"

definition place_cover_row ::
  "id \<Rightarrow> user \<Rightarrow> id \<Rightarrow> partner option \<Rightarrow> string \<Rightarrow> image \<Rightarrow> string \<Rightarrow> media \<Rightarrow> place_cover" where
  "place_cover_row i u p x key im alt s =
     \<lparr> pv_id = i, pv_place = p, pv_source = BusinessUpload, pv_uploaded_by = Some (u_id u), pv_key = key,
       pv_type = image_type im, pv_size = length (im_bytes im), pv_sha = digest_of s (im_bytes im),
       pv_width = im_width im, pv_height = im_height im, pv_stripped = True, pv_attribution = cover_attribution x,
       pv_license = ''Used with permission'', pv_source_page = cover_source_page s x p, pv_alt = take 140 (strip alt) \<rparr>"

definition put_place_cover ::
  "user \<Rightarrow> id \<Rightarrow> partner option \<Rightarrow> string \<Rightarrow> image \<Rightarrow> string \<Rightarrow> media \<Rightarrow> place_cover \<times> media" where
  "put_place_cover u p x key im alt s =
     (case List.find (\<lambda>c. pv_place c = p) (md_place_covers s) of
        None \<Rightarrow>
          (let c = place_cover_row (media_id s) u p x key im alt s
           in (c, take_media_id (s\<lparr> md_place_covers := md_place_covers s @ [c] \<rparr>)))
      | Some old \<Rightarrow>
          (let c = place_cover_row (pv_id old) u p x key im alt s
           in (c, unstore_replaced (pv_key old) key
                (s\<lparr> md_place_covers := update_rows (\<lambda>y. pv_id y = pv_id old) (\<lambda>_. c) (md_place_covers s) \<rparr>))))"

definition upload_place_cover_body ::
  "user \<Rightarrow> id \<Rightarrow> bytes \<Rightarrow> string \<Rightarrow> media \<Rightarrow> (media_error, place_cover, media) outcome" where
  "upload_place_cover_body u p data alt s =
     (let (ok, claim) = can_manage_place_cover s u p in
      if \<not> ok then raised (MediaNotAuthorized (quoted ''Only the venue'' ''s approved business claimant can manage its image.'')) s
      else if \<not> is_public_place (mdb s) p then raised (MediaRejected ''Only a public venue can carry an official image.'') s
      else case screened_image (u_id u) ''media.cover_upload_blocked'' []
                  ''Cover uploads are unavailable until a content safety scanner is configured.'' data s of
             (Inl e, t) \<Rightarrow> raised e t
           | (Inr im, t) \<Rightarrow>
               (let (key, s1) = store_image ''place-covers/'' im t;
                    (c, s2) = put_place_cover u p (crediting_partner t claim p) key im alt s1
                in returned c (audit ''media.place_cover_uploaded'' (Some (u_id u)) (Some (place_target p))
                     [(''cover_id'', JInt (int (pv_id c)))] s2)))"

definition upload_place_cover :: "user \<Rightarrow> id \<Rightarrow> bytes \<Rightarrow> string \<Rightarrow> media \<Rightarrow> (media_error, place_cover, media) outcome" where
  "upload_place_cover u p data alt = atomically (upload_place_cover_body u p data alt)"

definition delete_place_cover :: "user \<Rightarrow> place_cover \<Rightarrow> media \<Rightarrow> (media_error, unit, media) outcome" where
  "delete_place_cover u c s =
     (if \<not> fst (can_manage_place_cover s u (pv_place c))
      then raised (MediaNotAuthorized (quoted ''Only the venue'' ''s approved business claimant can manage its image.'')) s
      else returned () (drop_place_covers (\<lambda>x. pv_id x = pv_id c)
             (audit ''media.place_cover_deleted'' (Some (u_id u)) (Some (place_target (pv_place c))) [] s)))"

definition place_cover_signed_url :: "place_cover \<Rightarrow> media \<Rightarrow> token option" where
  "place_cover_signed_url c s =
     (if pv_key c = [] \<or> \<not> is_public_place (mdb s) (pv_place c) then None
      else Some (Signed PlaceSalt \<lparr> ln_object = pv_id c, ln_viewer = None, ln_public = True, ln_variant = [] \<rparr>
                  (clock (mdb s))))"

definition resolve_place_cover_token :: "token \<Rightarrow> media \<Rightarrow> media_error + place_cover" where
  "resolve_place_cover_token tok s =
     (case loads PlaceSalt s tok of
        None \<Rightarrow> Inl (MediaNotAuthorized ''Invalid or expired place cover link.'')
      | Some l \<Rightarrow>
          (case List.find (\<lambda>c. pv_id c = ln_object l) (md_place_covers s) of
             None \<Rightarrow> Inl (MediaNotAuthorized ''Not allowed to view this place cover.'')
           | Some c \<Rightarrow> if \<not> is_public_place (mdb s) (pv_place c)
               then Inl (MediaNotAuthorized ''Not allowed to view this place cover.'') else Inr c))"

end
