(* ===== verification/Attachments.thy ===== *)
theory Attachments
  imports Media
begin

text \<open>
  apps/media/services.py: the images, documents and videos shared in the conversation of an
  activity. An image or document is screened, cleaned and stored in the request; a video is
  admitted withheld and made servable by workers that claim it, transcode and scan it outside any
  transaction, and finalise it. A temporary attachment stops being served when it expires and its
  bytes are purged later, unless they are evidence. The thread of a group has no activity, and
  attaching there makes the code raise.
\<close>

section \<open>Time to live\<close>

definition ephemeral_min_ttl :: "media \<Rightarrow> cohort \<Rightarrow> int" where
  "ephemeral_min_ttl s c = (if c \<in> {Child, Teen} then me_ttl_minors (md_conf s) else me_ttl (md_conf s))"

definition resolve_expiry :: "media \<Rightarrow> cohort \<Rightarrow> int option \<Rightarrow> time option" where
  "resolve_expiry s c ttl =
     (case ttl of
        None \<Rightarrow> None
      | Some t \<Rightarrow> if t \<le> 0 then None else Some (clock (mdb s) + seconds (max t (ephemeral_min_ttl s c))))"

section \<open>Attaching\<close>

definition plain_name_char :: "char \<Rightarrow> bool" where
  "plain_name_char c \<longleftrightarrow> (let n = of_char c :: nat in
     65 \<le> n \<and> n \<le> 90 \<or> 97 \<le> n \<and> n \<le> 122 \<or> 48 \<le> n \<and> n \<le> 57 \<or> c \<in> {CHR ''.'', CHR ''_'', CHR '' '', CHR ''-''})"

definition base_name :: "string \<Rightarrow> string" where
  "base_name x = rev (takeWhile (\<lambda>c. c \<noteq> CHR ''/'' \<and> c \<noteq> CHR 0x5C) (rev x))"

text \<open>\<open>rsplit(".", 1)[0]\<close>\<close>

definition before_last_dot :: "string \<Rightarrow> string" where
  "before_last_dot x = (if CHR ''.'' \<in> set x then rev (tl (dropWhile (\<lambda>c. c \<noteq> CHR ''.'') (rev x))) else x)"

definition sanitize_filename :: "string \<Rightarrow> string" where
  "sanitize_filename name =
     (let base = take 116 (map (\<lambda>c. if plain_name_char c then c else CHR ''_'') (strip (base_name name)));
          base = (if base = [] then ''document'' else base)
      in if suffix ''.pdf'' (lower base) then base else before_last_dot base @ ''.pdf'')"

definition looks_like_webm :: "bytes \<Rightarrow> bool" where
  "looks_like_webm head \<longleftrightarrow> take 4 head = [CHR 0x1A, CHR 0x45, CHR 0xDF, CHR 0xA3]"

definition looks_like_video :: "bytes \<Rightarrow> bool" where
  "looks_like_video head \<longleftrightarrow> 12 \<le> length head \<and> take 4 (drop 4 head) = ''ftyp'' \<or> looks_like_webm head"

definition is_pdf :: "bytes \<Rightarrow> bool" where
  "is_pdf data \<longleftrightarrow> take 5 data = ''%PDF-''"

fun attach_kind_value :: "attach_kind \<Rightarrow> string" where
  "attach_kind_value AttImage = ''image''"
| "attach_kind_value AttFile = ''file''"
| "attach_kind_value AttVideo = ''video''"

definition blank_attachment :: "media \<Rightarrow> user \<Rightarrow> post \<Rightarrow> attachment" where
  "blank_attachment s u p =
     \<lparr> at_id = media_id s, at_post = po_id p, at_uploader = u_id u, at_kind = AttImage, at_status = AttReady, at_key = [],
       at_type = [], at_size = 0, at_sha = [], at_filename = [], at_width = 0, at_height = 0, at_thumb = [], at_poster = [],
       at_poster_type = [], at_source = [], at_duration = 0, at_attempts = 0, at_started_at = None, at_stripped = False,
       at_created_at = clock (mdb s), at_expires_at = None, at_purged_at = None \<rparr>"

definition iso_or_null :: "media \<Rightarrow> time option \<Rightarrow> json" where
  "iso_or_null s t = (case t of None \<Rightarrow> JNull | Some x \<Rightarrow> JStr (isoformat (lib (mdb s)) x))"

definition insert_attachment :: "attachment \<Rightarrow> media \<Rightarrow> (media_error, attachment, media) outcome" where
  "insert_attachment a s =
     returned a (audit ''media.attachment_uploaded'' (Some (at_uploader a)) None
       [(''kind'', JStr (attach_kind_value (at_kind a))), (''attachment_id'', JInt (int (at_id a))),
        (''expires_at'', iso_or_null s (at_expires_at a))]
       (take_media_id (s\<lparr> md_attachments := md_attachments s @ [a] \<rparr>)))"

definition file_failed :: string where
  "file_failed = ''File failed safety screening and was not stored.''"

definition sharing_needs_scanner :: media_error where
  "sharing_needs_scanner = MediaRejected ''File sharing is unavailable until a content safety scanner is configured.''"

definition blocked_for :: "string \<Rightarrow> user \<Rightarrow> (string \<times> json) list \<Rightarrow> media \<Rightarrow> media" where
  "blocked_for reason u extra = audit ''media.attach_blocked'' (Some (u_id u)) None ((''reason'', JStr reason) # extra)"

definition kind_data :: "attach_kind \<Rightarrow> (string \<times> json) list" where
  "kind_data k = [(''kind'', JStr (attach_kind_value k))]"

text \<open>A video: the digest of its bytes is screened now, its frames when a worker has transcoded it.\<close>

definition attach_video :: "user \<Rightarrow> post \<Rightarrow> activity \<Rightarrow> bytes \<Rightarrow> int option \<Rightarrow> media \<Rightarrow> (media_error, attachment, media) outcome" where
  "attach_video u p a data ttl s =
     (if \<not> me_video_enabled (md_conf s)
      then raised (MediaRejected ''Only images (PNG/JPEG/WEBP) and PDF files can be shared.'') s
      else if ac_cohort a \<notin> set (me_video_cohorts (md_conf s))
      then raised (MediaNotAuthorized (quoted ''Video sharing isn'' ''t available in this thread.'')) s
      else if \<not> cd_ffmpeg (md_codec s)
      then raised (MediaRejected ''Video sharing is temporarily unavailable.'') (blocked_for ''no_ffmpeg'' u (kind_data AttVideo) s)
      else if me_video_max_bytes (md_conf s) < length data then raised (MediaRejected ''Video exceeds the size limit.'') s
      else if no_scanner s then raised sharing_needs_scanner (blocked_for ''no_scanner'' u (kind_data AttVideo) s)
      else case sc_scan_digest (cd_scanner (md_codec s)) (digest_of s data) of
          None \<Rightarrow> raised ScanRaised s
        | Some r \<Rightarrow>
            if \<not> sr_clean r
            then raised (MediaRejected file_failed)
                   (audit ''media.blocked'' (Some (u_id u)) None
                      [(''reason'', JStr ''scan_match''), (''sha256'', JStr (digest_of s data))] s)
            else let key = ''video-src/'' @ uuid s @ (if looks_like_webm data then ''.webm'' else ''.mp4'');
                     s1 = store key data s
                 in insert_attachment
                      ((blank_attachment s1 u p)\<lparr> at_kind := AttVideo, at_status := AttPending, at_type := ''video/mp4'',
                         at_size := length data, at_sha := digest_of s data, at_source := key,
                         at_expires_at := resolve_expiry s (ac_cohort a) ttl \<rparr>) s1)"

definition attach_image :: "user \<Rightarrow> post \<Rightarrow> activity \<Rightarrow> bytes \<Rightarrow> int option \<Rightarrow> media \<Rightarrow> (media_error, attachment, media) outcome" where
  "attach_image u p a data ttl s =
     (case cd_strip (md_codec s) (me_attachment_max_bytes (md_conf s)) data of
        None \<Rightarrow> raised (MediaRejected ''Only images (PNG/JPEG/WEBP) and PDF files can be shared.'') s
      | Some im \<Rightarrow>
          let (key, s1) = store_image [] im s;
              (thumb, s2) = store_thumbnail im s1
          in insert_attachment
               ((blank_attachment s2 u p)\<lparr> at_key := key, at_type := image_type im, at_size := length (im_bytes im),
                  at_sha := digest_of s (im_bytes im), at_width := im_width im, at_height := im_height im, at_thumb := thumb,
                  at_stripped := True, at_expires_at := resolve_expiry s (ac_cohort a) ttl \<rparr>) s2)"

definition store_document :: "user \<Rightarrow> post \<Rightarrow> activity \<Rightarrow> string \<Rightarrow> bytes \<Rightarrow> int option \<Rightarrow> media \<Rightarrow>
    (media_error, attachment, media) outcome" where
  "store_document u p a name data ttl s =
     (let key = uuid s @ ''.pdf''; s1 = store key data s
      in insert_attachment
           ((blank_attachment s1 u p)\<lparr> at_kind := AttFile, at_key := key, at_type := ''application/pdf'',
              at_size := length data, at_sha := digest_of s data, at_filename := sanitize_filename name,
              at_expires_at := resolve_expiry s (ac_cohort a) ttl \<rparr>) s1)"

definition attach_document :: "user \<Rightarrow> post \<Rightarrow> activity \<Rightarrow> string \<Rightarrow> bytes \<Rightarrow> int option \<Rightarrow> media \<Rightarrow>
    (media_error, attachment, media) outcome" where
  "attach_document u p a name data ttl s =
     (let ds = cd_documents (md_codec s) in
      if me_require_documents (md_conf s) \<and> \<not> ds_effective ds
      then raised (MediaRejected ''File sharing is unavailable until a document scanner is configured.'')
             (blocked_for ''no_doc_scanner'' u [] s)
      else if ds_effective ds \<and> \<not> sr_clean (ds_scan ds data)
      then raised (MediaRejected file_failed)
             (audit ''media.blocked'' (Some (u_id u)) None
                [(''reason'', JStr ''doc_scan_match''), (''sha256'', JStr (digest_of s data))] s)
      else store_document u p a name data ttl s)"

definition attach_file :: "user \<Rightarrow> post \<Rightarrow> activity \<Rightarrow> string \<Rightarrow> bytes \<Rightarrow> int option \<Rightarrow> media \<Rightarrow>
    (media_error, attachment, media) outcome" where
  "attach_file u p a name data ttl s =
     (let kind = (if is_pdf data then AttFile else AttImage) in
      if me_attachment_max_bytes (md_conf s) < length data then raised (MediaRejected ''File exceeds the size limit.'') s
      else if kind = AttFile \<and> ac_cohort a \<notin> set (me_file_cohorts (md_conf s))
      then raised (MediaNotAuthorized (quoted ''File sharing isn'' ''t available in this thread.'')) s
      else if no_scanner s then raised sharing_needs_scanner (blocked_for ''no_scanner'' u (kind_data kind) s)
      else case screen (u_id u) file_failed data s of
          (Inl e, t) \<Rightarrow> raised e t
        | (Inr _, t) \<Rightarrow> if kind = AttFile then attach_document u p a name data ttl t else attach_image u p a data ttl t)"

definition attach_to_post :: "user \<Rightarrow> post \<Rightarrow> string \<Rightarrow> bytes \<Rightarrow> int option \<Rightarrow> media \<Rightarrow> (media_error, attachment, media) outcome" where
  "attach_to_post u p name data ttl s =
     (if \<not> me_attachments_enabled (md_conf s) then raised (MediaRejected ''File sharing is currently unavailable.'') s
      else if u_id u \<noteq> po_author p
      then raised (MediaNotAuthorized ''You can only attach a file to your own message.'') s
      else case owner_object (mdb s) (po_thread p) of
          Some (ActivityThread a) \<Rightarrow>
            if \<not> can_read_thread (mdb s) u (ActivityThread a)
            then raised (MediaNotAuthorized ''Only current members can share files in this thread.'') s
            else if looks_like_video (take 16 data) then attach_video u p a data ttl s
            else attach_file u p a name data ttl s
        | _ \<Rightarrow>
            if \<not> u_active u then raised (MediaNotAuthorized ''Only current members can share files in this thread.'') s
            else raised NoSuchAttribute s)"

text \<open>The view posts the message and attaches the file in one transaction (apps/web/views.py).\<close>

definition in_media :: "(db \<Rightarrow> ('e, 'a, db) outcome) \<Rightarrow> media \<Rightarrow> ('e, 'a, media) outcome" where
  "in_media f s = (case f (mdb s) of (r, d) \<Rightarrow> (r, over_db (\<lambda>_. d) s))"

datatype share_error = PostRefused social_error | FileRefused media_error

definition share_file_body :: "event list \<Rightarrow> user \<Rightarrow> thread_owner \<Rightarrow> id \<Rightarrow> post_request \<Rightarrow> string \<Rightarrow> bytes \<Rightarrow> int option \<Rightarrow> media \<Rightarrow>
    (share_error, attachment, media) outcome" where
  "share_file_body evs u w t q name data ttl s =
     (case in_media (post_to_thread evs u w t q) s of
        (Inl e, s1) \<Rightarrow> raised (PostRefused e) s1
      | (Inr p, s1) \<Rightarrow>
          (case attach_to_post u p name data ttl s1 of
             (Inl e, s2) \<Rightarrow> raised (FileRefused e) s2
           | (Inr a, s2) \<Rightarrow> returned a s2))"

definition share_file :: "event list \<Rightarrow> user \<Rightarrow> thread_owner \<Rightarrow> id \<Rightarrow> post_request \<Rightarrow> string \<Rightarrow> bytes \<Rightarrow> int option \<Rightarrow> media \<Rightarrow>
    (share_error, attachment, media) outcome" where
  "share_file evs u w t q name data ttl = atomically (share_file_body evs u w t q name data ttl)"

section \<open>Videos: claim, work, finalise\<close>

definition set_attachment :: "id \<Rightarrow> (attachment \<Rightarrow> attachment) \<Rightarrow> media \<Rightarrow> media" where
  "set_attachment i f s = s\<lparr> md_attachments := update_rows (\<lambda>a. at_id a = i) f (md_attachments s) \<rparr>"

definition attachment_row :: "media \<Rightarrow> id \<Rightarrow> attachment option" where
  "attachment_row s i = List.find (\<lambda>a. at_id a = i) (md_attachments s)"

definition attachment_target :: "id \<Rightarrow> string \<times> id" where
  "attachment_target i = (''media.attachment'', i)"

definition unstore_source :: "attachment \<Rightarrow> media \<Rightarrow> media" where
  "unstore_source a s = (if at_source a = [] then s else unstore (at_source a) s)"

definition finalize_failed_locked :: "attachment \<Rightarrow> string \<Rightarrow> media \<Rightarrow> media" where
  "finalize_failed_locked a reason s =
     unstore_source a
       (audit ''media.video_failed'' None (Some (attachment_target (at_id a))) [(''reason'', JStr (take 200 reason))]
         (set_attachment (at_id a) (\<lambda>x. x\<lparr> at_status := AttFailed, at_key := [], at_source := [] \<rparr>) s))"

definition finalize_failed :: "id \<Rightarrow> string \<Rightarrow> media \<Rightarrow> media" where
  "finalize_failed i reason s =
     (case attachment_row s i of None \<Rightarrow> s | Some a \<Rightarrow> finalize_failed_locked a reason s)"

definition finalize_blocked :: "id \<Rightarrow> media \<Rightarrow> media" where
  "finalize_blocked i s =
     (case attachment_row s i of
        None \<Rightarrow> s
      | Some a \<Rightarrow>
          audit ''media.blocked'' None (Some (attachment_target i))
            [(''reason'', JStr ''video_frame_scan''), (''sha256'', JStr (at_sha a))]
            (set_attachment i (\<lambda>x. x\<lparr> at_status := AttBlocked, at_key := [] \<rparr>) s))"

definition finalize_ready :: "id \<Rightarrow> string \<Rightarrow> string \<Rightarrow> clip \<Rightarrow> media \<Rightarrow> media" where
  "finalize_ready i key poster c s =
     (case List.find (\<lambda>a. at_id a = i \<and> at_kind a = AttVideo) (md_attachments s) of
        None \<Rightarrow> unstore poster (unstore key s)
      | Some a \<Rightarrow>
          unstore_source a
            (audit ''media.video_ready'' None (Some (attachment_target i)) [(''attachment_id'', JInt (int i))]
              (set_attachment i (\<lambda>x. x\<lparr> at_key := key, at_size := length (cp_bytes c), at_poster := poster,
                 at_poster_type := image_type (cp_poster c), at_width := cp_width c, at_height := cp_height c,
                 at_duration := cp_duration c, at_source := [], at_stripped := True, at_status := AttReady \<rparr>) s)))"

definition video_due :: "media \<Rightarrow> attachment \<Rightarrow> bool" where
  "video_due s a \<longleftrightarrow> at_kind a = AttVideo \<and> at_purged_at a = None \<and>
     (at_status a = AttPending \<or>
      at_status a = AttProcessing \<and>
        (case at_started_at a of None \<Rightarrow> False
         | Some t \<Rightarrow> t < clock (mdb s) - seconds (me_video_stale (md_conf s))))"

datatype claimed_video = NothingDue | Exhausted | ClaimedVideo attachment

definition claim_next_video :: "media \<Rightarrow> claimed_video \<times> media" where
  "claim_next_video s =
     (case sort_key at_created_at (filter (video_due s) (md_attachments s)) of
        [] \<Rightarrow> (NothingDue, s)
      | a # _ \<Rightarrow>
          if me_video_attempts (md_conf s) \<le> at_attempts a
          then (Exhausted, finalize_failed_locked a ''attempts_exhausted'' s)
          else let f = (\<lambda>x. x\<lparr> at_status := AttProcessing, at_started_at := Some (clock (mdb s)),
                      at_attempts := Suc (at_attempts a) \<rparr>)
               in (ClaimedVideo (f a), set_attachment (at_id a) f s))"

text \<open>The scan of the frames stops at the first that matches; None when a scan raises.\<close>

fun frames_clean :: "scanner \<Rightarrow> bytes list \<Rightarrow> bool option" where
  "frames_clean sc [] = Some True"
| "frames_clean sc (f # fs) =
     (case sc_scan sc f of None \<Rightarrow> None | Some r \<Rightarrow> if sr_clean r then frames_clean sc fs else Some False)"

datatype video_work = WorkRefused string | WorkStumbled | WorkBlocked | WorkReady clip

definition transcode_and_scan :: "media \<Rightarrow> attachment \<Rightarrow> video_work" where
  "transcode_and_scan s a =
     (case md_blobs s (at_source a) of
        None \<Rightarrow> WorkStumbled
      | Some src \<Rightarrow>
          (case cd_transcode (md_codec s) src of
             Refused reason \<Rightarrow> WorkRefused (take 200 reason)
           | Stumbled \<Rightarrow> WorkStumbled
           | Transcoded c \<Rightarrow>
               (case frames_clean (cd_scanner (md_codec s)) (cp_poster_frame c # cp_frames c) of
                  None \<Rightarrow> WorkStumbled
                | Some False \<Rightarrow> WorkBlocked
                | Some True \<Rightarrow> WorkReady c)))"

text \<open>Names derived from the row, so that a repeated attempt overwrites what a crashed one left.\<close>

definition video_key :: "attachment \<Rightarrow> string" where
  "video_key a = ''videos/'' @ nat_str (at_id a) @ ''-'' @ take 16 (at_sha a) @ ''.mp4''"

definition poster_key :: "attachment \<Rightarrow> image \<Rightarrow> string" where
  "poster_key a im = ''video-posters/'' @ nat_str (at_id a) @ ''-'' @ take 16 (at_sha a) @ ''.'' @ im_ext im"

definition put_blob :: "string \<Rightarrow> bytes \<Rightarrow> media \<Rightarrow> media" where
  "put_blob k b s = s\<lparr> md_blobs := (md_blobs s)(k \<mapsto> b) \<rparr>"

definition finish_video :: "attachment \<Rightarrow> video_work \<Rightarrow> media \<Rightarrow> media" where
  "finish_video a w s =
     (case w of
        WorkRefused reason \<Rightarrow> finalize_failed (at_id a) reason s
      | WorkStumbled \<Rightarrow> s
      | WorkBlocked \<Rightarrow> finalize_blocked (at_id a) s
      | WorkReady c \<Rightarrow>
          finalize_ready (at_id a) (video_key a) (poster_key a (cp_poster c)) c
            (put_blob (poster_key a (cp_poster c)) (im_bytes (cp_poster c)) (put_blob (video_key a) (cp_bytes c) s)))"

text \<open>The drain of one process, at most \<open>n\<close> videos: the number processed and the state.\<close>

fun drain_videos :: "nat \<Rightarrow> media \<Rightarrow> nat \<times> media" where
  "drain_videos 0 s = (0, s)"
| "drain_videos (Suc n) s =
     (case claim_next_video s of
        (NothingDue, t) \<Rightarrow> (0, t)
      | (Exhausted, t) \<Rightarrow> (let (k, r) = drain_videos n t in (Suc k, r))
      | (ClaimedVideo a, t) \<Rightarrow>
          (let (k, r) = drain_videos n (finish_video a (transcode_and_scan t a) t) in (Suc k, r)))"

text \<open>Without a limit the loop ends when nothing is due, after as many rounds as videos are due at most.\<close>

definition process_pending_videos :: "nat option \<Rightarrow> media \<Rightarrow> nat \<times> media" where
  "process_pending_videos limit s =
     (if no_scanner s \<or> \<not> cd_ffmpeg (md_codec s) then (0, s)
      else drain_videos (case limit of None \<Rightarrow> Suc (count_rows (video_due s) (md_attachments s)) | Some k \<Rightarrow> k) s)"

end
