(* ===== verification/Attachment_Access.thy ===== *)
theory Attachment_Access
  imports Attachments
begin

text \<open>
  apps/media/services.py: who may see an attachment and pull its bytes, the stream of a
  conversation, deleting, and the purge of expired attachments, which spares evidence.
\<close>

section \<open>Access\<close>

definition is_available :: "media \<Rightarrow> attachment \<Rightarrow> bool" where
  "is_available s a \<longleftrightarrow> at_status a = AttReady \<and> at_purged_at a = None \<and> at_key a \<noteq> [] \<and>
     (case at_expires_at a of None \<Rightarrow> True | Some t \<Rightarrow> clock (mdb s) < t)"

text \<open>The activity of the post's thread; no attachment can be made where there is none.\<close>

definition activity_of_post :: "media \<Rightarrow> id \<Rightarrow> activity option" where
  "activity_of_post s p =
     (case post_row (mdb s) p of
        None \<Rightarrow> None
      | Some x \<Rightarrow> (case owner_object (mdb s) (po_thread x) of Some (ActivityThread a) \<Rightarrow> Some a | _ \<Rightarrow> None))"

definition post_is_hidden :: "media \<Rightarrow> id \<Rightarrow> bool" where
  "post_is_hidden s p = (case post_row (mdb s) p of None \<Rightarrow> False | Some x \<Rightarrow> po_hidden x)"

definition can_view_attachment :: "media \<Rightarrow> user \<Rightarrow> attachment \<Rightarrow> bool" where
  "can_view_attachment s v a =
     (if post_is_hidden s (at_post a) \<and> \<not> u_staff v then False
      else if at_status a = AttBlocked \<and> \<not> u_staff v then False
      else if u_id v \<noteq> at_uploader a \<and> is_blocked (mdb s) (u_id v) (at_uploader a) then False
      else if u_staff v then True
      else case activity_of_post s (at_post a) of
          None \<Rightarrow> False | Some x \<Rightarrow> can_read_thread (mdb s) v (ActivityThread x))"

definition blob_retrievable :: "media \<Rightarrow> user \<Rightarrow> attachment \<Rightarrow> bool" where
  "blob_retrievable s v a \<longleftrightarrow> is_available s a \<or> at_purged_at a = None \<and> at_key a \<noteq> [] \<and> u_staff v"

datatype variant = MainBlob | ThumbBlob | PosterBlob

fun variant_code :: "variant \<Rightarrow> string" where
  "variant_code MainBlob = []"
| "variant_code ThumbBlob = ''t''"
| "variant_code PosterBlob = ''p''"

definition variant_of :: "string \<Rightarrow> variant" where
  "variant_of c = (if c = ''t'' then ThumbBlob else if c = ''p'' then PosterBlob else MainBlob)"

definition attachment_gate :: "media \<Rightarrow> user \<Rightarrow> attachment \<Rightarrow> variant \<Rightarrow> media_error option" where
  "attachment_gate s v a k =
     (if \<not> can_view_attachment s v a then Some (MediaNotAuthorized ''Not allowed to view this file.'')
      else if \<not> blob_retrievable s v a then Some (MediaNotAuthorized ''This file is no longer available.'')
      else if k = PosterBlob \<and> at_poster a = [] then Some (MediaNotAuthorized ''This file has no poster.'')
      else None)"

definition attachment_signed_url :: "attachment \<Rightarrow> user \<Rightarrow> variant \<Rightarrow> media \<Rightarrow> media_error + token" where
  "attachment_signed_url a v k s =
     (case attachment_gate s v a k of
        Some e \<Rightarrow> Inl e
      | None \<Rightarrow> Inr (Signed AttachSalt (viewer_link (at_id a) (u_id v) (variant_code k)) (clock (mdb s))))"

definition resolve_attachment_token :: "token \<Rightarrow> user \<Rightarrow> media \<Rightarrow> media_error + attachment \<times> variant" where
  "resolve_attachment_token tok v s =
     (case loads AttachSalt s tok of
        None \<Rightarrow> Inl (MediaNotAuthorized ''Invalid or expired file link.'')
      | Some l \<Rightarrow>
          if ln_viewer l \<noteq> Some (u_id v) then Inl (MediaNotAuthorized ''This file link was issued to a different user.'')
          else (case attachment_row s (ln_object l) of
                  None \<Rightarrow> Inl (MediaNotAuthorized ''Not allowed to view this file.'')
                | Some a \<Rightarrow>
                    (case attachment_gate s v a (variant_of (ln_variant l)) of
                       Some e \<Rightarrow> Inl e
                     | None \<Rightarrow> Inr (a, variant_of (ln_variant l)))))"

text \<open>The bytes behind a resolved link: a missing rendition falls back to the object.\<close>

definition blob_of :: "media \<Rightarrow> attachment \<times> variant \<Rightarrow> bytes option" where
  "blob_of s r =
     (case r of
        (a, MainBlob) \<Rightarrow> md_blobs s (at_key a)
      | (a, ThumbBlob) \<Rightarrow> md_blobs s (or_else (at_thumb a) (at_key a))
      | (a, PosterBlob) \<Rightarrow> md_blobs s (at_poster a))"

definition delete_attachment :: "user \<Rightarrow> attachment \<Rightarrow> media \<Rightarrow> (media_error, unit, media) outcome" where
  "delete_attachment u a s =
     (if u_id u \<noteq> at_uploader a \<and> \<not> u_staff u then raised (MediaNotAuthorized ''Not allowed to delete this file.'') s
      else returned () (drop_attachments (\<lambda>x. at_id x = at_id a)
             (audit ''media.attachment_deleted'' (Some (u_id u)) (Some (attachment_target (at_id a))) [] s)))"

text \<open>What the stream shows of an attachment.\<close>

record attachment_card =
  dk_attachment :: attachment
  dk_blocked :: bool
  dk_processing :: bool
  dk_failed :: bool
  dk_expired :: bool
  dk_url :: "token option"
  dk_thumb_url :: "token option"
  dk_poster_url :: "token option"

definition link_or_none :: "media_error + token \<Rightarrow> token option" where
  "link_or_none r = (case r of Inl _ \<Rightarrow> None | Inr t \<Rightarrow> Some t)"

definition card_of_attachment :: "media \<Rightarrow> user \<Rightarrow> attachment \<Rightarrow> attachment_card" where
  "card_of_attachment s v a =
     (let blocked = (at_status a = AttBlocked);
          processing = (at_kind a = AttVideo \<and> at_status a \<in> {AttPending, AttProcessing});
          failed = (at_status a = AttFailed);
          live = (\<not> blocked \<and> \<not> processing \<and> \<not> failed \<and> blob_retrievable s v a)
      in \<lparr> dk_attachment = a, dk_blocked = blocked, dk_processing = processing, dk_failed = failed,
           dk_expired = (\<not> blocked \<and> \<not> processing \<and> \<not> failed \<and> \<not> blob_retrievable s v a),
           dk_url = (if live then link_or_none (attachment_signed_url a v MainBlob s) else None),
           dk_thumb_url = (if live \<and> at_kind a = AttImage then link_or_none (attachment_signed_url a v ThumbBlob s) else None),
           dk_poster_url = (if live \<and> at_kind a = AttVideo \<and> at_poster a \<noteq> []
             then link_or_none (attachment_signed_url a v PosterBlob s) else None) \<rparr>)"

definition attachments_for_posts :: "id list \<Rightarrow> user \<Rightarrow> media \<Rightarrow> id \<Rightarrow> attachment_card list" where
  "attachments_for_posts ps v s =
     (let shown = sort_key at_created_at (filter (\<lambda>a. at_post a \<in> set ps \<and> can_view_attachment s v a) (md_attachments s))
      in (\<lambda>p. map (card_of_attachment s v) (filter (\<lambda>a. at_post a = p) shown)))"

section \<open>The purge of expired attachments\<close>

definition reported :: "media \<Rightarrow> string \<times> id \<Rightarrow> bool" where
  "reported s t \<longleftrightarrow> (\<exists>r \<in> set (reports (mdb s)). rp_target_type r = fst t \<and> rp_target_id r = snd t \<and> rp_status r \<noteq> RDismissed)"

text \<open>A hidden post holds its attachments unless its author deleted it and no removal stands.\<close>

definition post_held :: "media \<Rightarrow> id \<Rightarrow> bool" where
  "post_held s p =
     (case post_row (mdb s) p of
        None \<Rightarrow> False
      | Some x \<Rightarrow> po_hidden x \<and>
          (\<not> po_author_deleted x \<or> p \<in> targets_with_unlifted_remove (mdb s) ''social.post'' [p]))"

definition activity_held :: "media \<Rightarrow> id \<Rightarrow> bool" where
  "activity_held s p =
     (case activity_of_post s p of None \<Rightarrow> False | Some a \<Rightarrow> ac_hidden a \<or> reported s (activity_target (ac_id a)))"

definition evidence :: "media \<Rightarrow> attachment \<Rightarrow> bool" where
  "evidence s a \<longleftrightarrow> post_held s (at_post a) \<or> activity_held s (at_post a) \<or> reported s (post_target (at_post a)) \<or>
     reported s (user_target (at_uploader a))"

definition expired_attachment :: "media \<Rightarrow> attachment \<Rightarrow> bool" where
  "expired_attachment s a \<longleftrightarrow> at_purged_at a = None \<and>
     (case at_expires_at a of None \<Rightarrow> False | Some t \<Rightarrow> t \<le> clock (mdb s))"

definition attachment_keys :: "attachment \<Rightarrow> string list" where
  "attachment_keys a = filter (\<lambda>k. k \<noteq> []) [at_key a, at_thumb a, at_poster a, at_source a]"

fun unstore_all :: "string list \<Rightarrow> media \<Rightarrow> media" where
  "unstore_all [] s = s"
| "unstore_all (k # ks) s = unstore_all ks (unstore k s)"

definition purge_row :: "attachment \<Rightarrow> media \<Rightarrow> media" where
  "purge_row a s =
     unstore_all (attachment_keys a)
       (audit ''media.attachment_purged'' None (Some (attachment_target (at_id a))) [(''reason'', JStr ''expired'')]
         (set_attachment (at_id a) (\<lambda>x. x\<lparr> at_purged_at := Some (clock (mdb s)), at_key := [], at_thumb := [],
            at_poster := [], at_source := [] \<rparr>) s))"

text \<open>
  One candidate of the snapshot: its own checks on the snapshot, then the same on the fresh rows.
  \<open>True\<close> when its bytes were reclaimed.
\<close>

definition purge_one :: "media \<Rightarrow> attachment \<Rightarrow> media \<Rightarrow> bool \<times> media" where
  "purge_one snapshot a s =
     (if at_status a = AttBlocked \<or> evidence snapshot a then (False, s)
      else if evidence s a then (False, s)
      else case attachment_row s (at_id a) of
          None \<Rightarrow> (False, s)
        | Some x \<Rightarrow>
            if at_purged_at x \<noteq> None \<or> at_status x = AttBlocked \<or> at_status x = AttProcessing then (False, s)
            else (True, purge_row x s))"

fun purge_each :: "media \<Rightarrow> nat option \<Rightarrow> attachment list \<Rightarrow> media \<Rightarrow> nat \<times> media" where
  "purge_each snapshot limit [] s = (0, s)"
| "purge_each snapshot limit (a # as) s =
     (let (hit, t) = purge_one snapshot a s in
      if hit \<and> limit \<noteq> None \<and> the limit \<le> 1 then (1, t)
      else let (n, r) = purge_each snapshot (if hit then map_option (\<lambda>k. k - 1) limit else limit) as t
           in (if hit then Suc n else n, r))"

definition purge_expired_attachments :: "nat option \<Rightarrow> media \<Rightarrow> nat \<times> media" where
  "purge_expired_attachments limit s = purge_each s limit (filter (expired_attachment s) (md_attachments s)) s"

end
