(* ===== verification/Media_Laws.thy ===== *)
theory Media_Laws
  imports Covers Attachment_Access Groups_Laws
begin

text \<open>
  The law of the object store: whatever the requests, every blob that a row serves was screened
  clean before it was stored, and a video waiting for its worker is under a name no row serves.
\<close>

section \<open>Screened bytes\<close>

text \<open>\<open>C\<close> is the set of library configurations in use over time, \<open>cf\<close> the settings, \<open>sha\<close> the digest.\<close>

definition fit :: "media_settings \<Rightarrow> codec \<Rightarrow> bool" where
  "fit cf cd \<longleftrightarrow> (me_require_scanner cf \<longrightarrow> sc_effective (cd_scanner cd))"

definition passes :: "media_settings \<Rightarrow> codec \<Rightarrow> bytes \<Rightarrow> bool" where
  "passes cf cd b \<longleftrightarrow> fit cf cd \<and> (\<exists>r. sc_scan (cd_scanner cd) b = Some r \<and> sr_clean r)"

definition image_blob :: "codec set \<Rightarrow> media_settings \<Rightarrow> bytes \<Rightarrow> bool" where
  "image_blob C cf b \<longleftrightarrow> (\<exists>cd \<in> C. \<exists>orig n im. passes cf cd orig \<and> cd_strip cd n orig = Some im \<and>
     (b = im_bytes im \<or> cd_thumb cd (im_bytes im) = Some b))"

definition document_blob :: "codec set \<Rightarrow> media_settings \<Rightarrow> bytes \<Rightarrow> bool" where
  "document_blob C cf b \<longleftrightarrow> (\<exists>cd \<in> C. passes cf cd b \<and> is_pdf b \<and>
     (me_require_documents cf \<longrightarrow> ds_effective (cd_documents cd)) \<and>
     (ds_effective (cd_documents cd) \<longrightarrow> sr_clean (ds_scan (cd_documents cd) b)))"

definition quarantined :: "codec set \<Rightarrow> media_settings \<Rightarrow> (bytes \<Rightarrow> string) \<Rightarrow> bytes \<Rightarrow> bool" where
  "quarantined C cf sha b \<longleftrightarrow> (\<exists>cd \<in> C. fit cf cd \<and>
     (\<exists>r. sc_scan_digest (cd_scanner cd) (sha b) = Some r \<and> sr_clean r))"

definition cleared_clip :: "codec set \<Rightarrow> media_settings \<Rightarrow> (bytes \<Rightarrow> string) \<Rightarrow> clip \<Rightarrow> bool" where
  "cleared_clip C cf sha c \<longleftrightarrow> (\<exists>cd \<in> C. \<exists>src. quarantined C cf sha src \<and> cd_transcode cd src = Transcoded c \<and>
     frames_clean (cd_scanner cd) (cp_poster_frame c # cp_frames c) = Some True)"

definition screened :: "codec set \<Rightarrow> media_settings \<Rightarrow> (bytes \<Rightarrow> string) \<Rightarrow> bytes \<Rightarrow> bool" where
  "screened C cf sha b \<longleftrightarrow> image_blob C cf b \<or> document_blob C cf b \<or>
     (\<exists>c. cleared_clip C cf sha c \<and> (b = cp_bytes c \<or> b = im_bytes (cp_poster c)))"

section \<open>The invariant\<close>

definition source_key :: "string \<Rightarrow> bool" where
  "source_key k \<longleftrightarrow> prefix ''video-src/'' k"

definition store_ok :: "codec set \<Rightarrow> media_settings \<Rightarrow> (bytes \<Rightarrow> string) \<Rightarrow> (string \<rightharpoonup> bytes) \<Rightarrow> bool" where
  "store_ok C cf sha m \<longleftrightarrow> m [] = None \<and>
     (\<forall>k b. m k = Some b \<longrightarrow> (if source_key k then quarantined C cf sha b else screened C cf sha b))"

definition attachment_ok :: "attachment \<Rightarrow> bool" where
  "attachment_ok a \<longleftrightarrow> \<not> source_key (at_key a) \<and> \<not> source_key (at_thumb a) \<and> \<not> source_key (at_poster a) \<and>
     (at_source a \<noteq> [] \<longrightarrow> source_key (at_source a))"

definition rows_ok :: "photo list \<Rightarrow> attachment list \<Rightarrow> cover list \<Rightarrow> place_cover list \<Rightarrow> bool" where
  "rows_ok ps as cs vs \<longleftrightarrow> (\<forall>p \<in> set ps. \<not> source_key (ph_key p) \<and> \<not> source_key (ph_thumb p)) \<and>
     (\<forall>a \<in> set as. attachment_ok a) \<and> (\<forall>c \<in> set cs. \<not> source_key (kv_key c) \<and> \<not> source_key (kv_thumb c)) \<and>
     (\<forall>v \<in> set vs. \<not> source_key (pv_key v))"

definition plain_names :: "codec set \<Rightarrow> bool" where
  "plain_names C \<longleftrightarrow> (\<forall>cd \<in> C. \<forall>n. CHR ''/'' \<notin> set (cd_uuid cd n))"

definition med_inv :: "codec set \<Rightarrow> media_settings \<Rightarrow> (bytes \<Rightarrow> string) \<Rightarrow> media \<Rightarrow> bool" where
  "med_inv C cf sha s \<longleftrightarrow> md_codec s \<in> C \<and> md_conf s = cf \<and> sha256 (lib (mdb s)) = sha \<and>
     store_ok C cf sha (md_blobs s) \<and>
     rows_ok (md_photos s) (md_attachments s) (md_covers s) (md_place_covers s)"

lemma med_invD:
  assumes "med_inv C cf sha s"
  shows "md_codec s \<in> C" "md_conf s = cf" "sha256 (lib (mdb s)) = sha" "store_ok C cf sha (md_blobs s)"
    "rows_ok (md_photos s) (md_attachments s) (md_covers s) (md_place_covers s)"
  using assms by (simp_all add: med_inv_def)

section \<open>Frames\<close>

lemma mdb_rows [simp]:
  "mdb (s\<lparr> md_photos := ps \<rparr>) = mdb s" "mdb (s\<lparr> md_attachments := as \<rparr>) = mdb s" "mdb (s\<lparr> md_covers := cs \<rparr>) = mdb s"
  "mdb (s\<lparr> md_place_covers := vs \<rparr>) = mdb s" "mdb (s\<lparr> md_cleanups := ks \<rparr>) = mdb s" "mdb (s\<lparr> md_blobs := m \<rparr>) = mdb s"
  "mdb (s\<lparr> md_uuids := n \<rparr>) = mdb s" "mdb (s\<lparr> md_codec := c \<rparr>) = mdb s"
  by (simp_all add: mdb_def)

lemma over_db_sel [simp]:
  "md_conf (over_db f s) = md_conf s" "md_codec (over_db f s) = md_codec s" "md_uuids (over_db f s) = md_uuids s"
  "md_blobs (over_db f s) = md_blobs s" "md_photos (over_db f s) = md_photos s" "md_attachments (over_db f s) = md_attachments s"
  "md_covers (over_db f s) = md_covers s" "md_place_covers (over_db f s) = md_place_covers s"
  "md_cleanups (over_db f s) = md_cleanups s" "mdb (over_db f s) = f (mdb s)"
  by (simp_all add: over_db_def mdb_def with_db_def)

lemma audit_sel [simp]:
  "md_conf (audit e w t d s) = md_conf s" "md_codec (audit e w t d s) = md_codec s" "md_uuids (audit e w t d s) = md_uuids s"
  "md_blobs (audit e w t d s) = md_blobs s" "md_photos (audit e w t d s) = md_photos s"
  "md_attachments (audit e w t d s) = md_attachments s" "md_covers (audit e w t d s) = md_covers s"
  "md_place_covers (audit e w t d s) = md_place_covers s" "md_cleanups (audit e w t d s) = md_cleanups s"
  "mdb (audit e w t d s) = record_audit e w t d (mdb s)"
  by (simp_all add: audit_def)

lemma take_media_id_sel [simp]:
  "md_conf (take_media_id s) = md_conf s" "md_codec (take_media_id s) = md_codec s" "md_uuids (take_media_id s) = md_uuids s"
  "md_blobs (take_media_id s) = md_blobs s" "md_photos (take_media_id s) = md_photos s"
  "md_attachments (take_media_id s) = md_attachments s" "md_covers (take_media_id s) = md_covers s"
  "md_place_covers (take_media_id s) = md_place_covers s" "md_cleanups (take_media_id s) = md_cleanups s"
  "mdb (take_media_id s) = (mdb s)\<lparr> seq := Suc (seq (mdb s)) \<rparr>"
  by (simp_all add: take_media_id_def)

lemma store_sel [simp]:
  "md_conf (store k b s) = md_conf s" "md_codec (store k b s) = md_codec s" "md_blobs (store k b s) = (md_blobs s)(k \<mapsto> b)"
  "md_photos (store k b s) = md_photos s" "md_attachments (store k b s) = md_attachments s"
  "md_covers (store k b s) = md_covers s" "md_place_covers (store k b s) = md_place_covers s"
  "md_cleanups (store k b s) = md_cleanups s" "mdb (store k b s) = mdb s"
  by (simp_all add: store_def mdb_def)

lemma unstore_sel [simp]:
  "md_conf (unstore k s) = md_conf s" "md_codec (unstore k s) = md_codec s" "md_blobs (unstore k s) = (md_blobs s)(k := None)"
  "md_photos (unstore k s) = md_photos s" "md_attachments (unstore k s) = md_attachments s"
  "md_covers (unstore k s) = md_covers s" "md_place_covers (unstore k s) = md_place_covers s"
  "md_cleanups (unstore k s) = md_cleanups s" "mdb (unstore k s) = mdb s"
  by (simp_all add: unstore_def mdb_def)

lemma enqueue_sel [simp]:
  "md_conf (enqueue_cleanups ks s) = md_conf s" "md_codec (enqueue_cleanups ks s) = md_codec s"
  "md_blobs (enqueue_cleanups ks s) = md_blobs s" "md_photos (enqueue_cleanups ks s) = md_photos s"
  "md_attachments (enqueue_cleanups ks s) = md_attachments s" "md_covers (enqueue_cleanups ks s) = md_covers s"
  "md_place_covers (enqueue_cleanups ks s) = md_place_covers s" "mdb (enqueue_cleanups ks s) = mdb s"
  "md_uuids (enqueue_cleanups ks s) = md_uuids s"
  by (induction ks arbitrary: s) (simp_all add: enqueue_cleanup_def mdb_def)

section \<open>The invariant is kept by the building blocks\<close>

lemma med_inv_audit [simp]: "med_inv C cf sha (audit e w t d s) = med_inv C cf sha s"
  by (simp add: med_inv_def)

lemma med_inv_take [simp]: "med_inv C cf sha (take_media_id s) = med_inv C cf sha s"
  by (simp add: med_inv_def)

lemma med_inv_store:
  "med_inv C cf sha s \<Longrightarrow> k \<noteq> [] \<Longrightarrow> (if source_key k then quarantined C cf sha b else screened C cf sha b) \<Longrightarrow>
   med_inv C cf sha (store k b s)"
  by (auto simp: med_inv_def store_ok_def)

lemma med_inv_unstore: "med_inv C cf sha s \<Longrightarrow> med_inv C cf sha (unstore k s)"
  by (auto simp: med_inv_def store_ok_def)

lemma med_inv_unstore_all: "med_inv C cf sha s \<Longrightarrow> med_inv C cf sha (unstore_all ks s)"
  by (induction ks arbitrary: s) (simp_all add: med_inv_unstore)

lemma med_inv_drop:
  assumes "med_inv C cf sha s"
  shows "med_inv C cf sha (drop_photos P s)" "med_inv C cf sha (drop_attachments A s)" "med_inv C cf sha (drop_covers Q s)"
    "med_inv C cf sha (drop_place_covers R s)"
  using assms
  by (auto simp: med_inv_def drop_photos_def drop_attachments_def drop_covers_def drop_place_covers_def Let_def rows_ok_def)

lemma med_inv_cleanup: "med_inv C cf sha s \<Longrightarrow> med_inv C cf sha (blob_cleanup k s)"
  by (auto simp: med_inv_def blob_cleanup_def store_ok_def)

lemma med_inv_roll_back: "med_inv C cf sha s \<Longrightarrow> med_inv C cf sha t \<Longrightarrow> med_inv C cf sha (roll_back s t)"
  by (simp add: med_inv_def roll_back_def)

lemma med_inv_atomically:
  "med_inv C cf sha s \<Longrightarrow> med_inv C cf sha (snd (f s)) \<Longrightarrow> med_inv C cf sha (snd (atomically f s))"
  by (auto simp: atomically_def med_inv_roll_back split: prod.split sum.split)

lemma med_inv_set_attachment:
  assumes "med_inv C cf sha s" "\<And>a. a \<in> set (md_attachments s) \<Longrightarrow> attachment_ok a \<Longrightarrow> attachment_ok (f a)"
  shows "med_inv C cf sha (set_attachment i f s)"
  using assms by (auto simp: med_inv_def set_attachment_def rows_ok_def set_update_rows)

section \<open>Names\<close>

lemma prefix_before: "c \<notin> set xs \<Longrightarrow> prefix xs (u @ c # e) \<Longrightarrow> prefix xs u"
proof (induction u arbitrary: xs)
  case Nil
  then show ?case by (cases xs) auto
next
  case (Cons a u)
  then show ?case by (cases xs) auto
qed

lemma plain_not_source: "CHR ''/'' \<notin> set u \<Longrightarrow> \<not> source_key (u @ CHR ''.'' # e)"
proof
  assume u: "CHR ''/'' \<notin> set u" and "source_key (u @ CHR ''.'' # e)"
  moreover have "CHR ''.'' \<notin> set ''video-src/''" by simp
  ultimately have "prefix ''video-src/'' u" unfolding source_key_def by (blast intro: prefix_before)
  then obtain z where "u = ''video-src/'' @ z" by (rule prefixE)
  with u show False by simp
qed

lemma named_not_source: "\<not> source_key (''thumbs/'' @ x)" "\<not> source_key (''activity-covers/'' @ x)"
  "\<not> source_key (''place-covers/'' @ x)" "\<not> source_key (''videos/'' @ x)" "\<not> source_key (''video-posters/'' @ x)"
  "\<not> source_key []" "source_key (''video-src/'' @ x)"
  by (simp_all add: source_key_def)

lemma video_names: "\<not> source_key (video_key a)" "\<not> source_key (poster_key a im)" "video_key a \<noteq> []" "poster_key a im \<noteq> []"
  unfolding video_key_def poster_key_def by (simp_all add: named_not_source source_key_def)

section \<open>Storing images\<close>

definition from_image :: "codec \<Rightarrow> media_settings \<Rightarrow> image \<Rightarrow> bool" where
  "from_image cd cf im \<longleftrightarrow> (\<exists>orig n. passes cf cd orig \<and> cd_strip cd n orig = Some im)"

lemma screen_result:
  assumes "screen u m data s = (r, t)"
  shows "(\<exists>e d. r = Inl e \<and> (t = s \<or> t = audit ''media.blocked'' (Some u) None d s)) \<or>
    (r = Inr () \<and> t = s \<and> (\<exists>x. sc_scan (cd_scanner (md_codec s)) data = Some x \<and> sr_clean x))"
  using assms by (auto simp: screen_def split: option.splits if_splits)

lemma screened_image_result:
  assumes "screened_image u ev ex m data s = (r, t)"
  shows "(\<exists>e. r = Inl e \<and> (t = s \<or> (\<exists>ev d. t = audit ev (Some u) None d s))) \<or>
    (\<exists>im. r = Inr im \<and> t = s \<and> from_image (md_codec s) (md_conf s) im)"
proof (cases "cd_strip (md_codec s) (me_max_bytes (md_conf s)) data")
  case None
  with assms show ?thesis by (auto simp: screened_image_def)
next
  case (Some im)
  show ?thesis
  proof (cases "no_scanner s")
    case True
    with Some assms show ?thesis by (auto simp: screened_image_def)
  next
    case False
    obtain x y where xy: "screen u image_failed data s = (x, y)" by fastforce
    from screen_result [OF this] show ?thesis
    proof
      assume "\<exists>e d. x = Inl e \<and> (y = s \<or> y = audit ''media.blocked'' (Some u) None d s)"
      then obtain e d where e: "x = Inl e" "y = s \<or> y = audit ''media.blocked'' (Some u) None d s" by blast
      then have "r = Inl e" "t = y" using Some False assms xy by (simp_all add: screened_image_def)
      with e(2) show ?thesis by blast
    next
      assume c: "x = Inr () \<and> y = s \<and> (\<exists>x. sc_scan (cd_scanner (md_codec s)) data = Some x \<and> sr_clean x)"
      then have "passes (md_conf s) (md_codec s) data" using False by (auto simp: passes_def fit_def no_scanner_def)
      with Some False assms xy c show ?thesis by (auto simp: screened_image_def from_image_def)
    qed
  qed
qed

lemma image_screened: "cd \<in> C \<Longrightarrow> from_image cd cf im \<Longrightarrow> screened C cf sha (im_bytes im)"
  "cd \<in> C \<Longrightarrow> from_image cd cf im \<Longrightarrow> cd_thumb cd (im_bytes im) = Some b \<Longrightarrow> screened C cf sha b"
  unfolding screened_def image_blob_def from_image_def by blast+

lemma store_image_inv:
  assumes inv: "med_inv C cf sha s" and im: "from_image (md_codec s) cf im" and names: "plain_names C"
    and dir: "dir \<in> {[], ''activity-covers/'', ''place-covers/''}" and k: "store_image dir im s = (k, t)"
  shows "med_inv C cf sha t \<and> md_codec t = md_codec s \<and> \<not> source_key k \<and> k \<noteq> [] \<and> mdb t = mdb s"
proof -
  have u: "CHR ''/'' \<notin> set (uuid s)" using names med_invD(1) [OF inv] by (simp add: plain_names_def uuid_def)
  have k': "k = dir @ uuid s @ ''.'' @ im_ext im" "t = store k (im_bytes im) s"
    using k by (auto simp: store_image_def Let_def)
  have "\<not> source_key k" using dir k'(1) plain_not_source [OF u] named_not_source by auto
  moreover have "k \<noteq> []" using k'(1) by simp
  ultimately show ?thesis
    using inv im med_invD(1) [OF inv] k'(2) image_screened(1) by (simp add: med_inv_store)
qed

lemma store_thumbnail_inv:
  assumes inv: "med_inv C cf sha s" and im: "from_image (md_codec s) cf im" and k: "store_thumbnail im s = (k, t)"
  shows "med_inv C cf sha t \<and> md_codec t = md_codec s \<and> \<not> source_key k \<and> mdb t = mdb s"
proof (cases "cd_thumb (md_codec s) (im_bytes im)")
  case None
  with k inv show ?thesis by (auto simp: store_thumbnail_def named_not_source)
next
  case (Some b)
  then have k': "k = ''thumbs/'' @ uuid s @ ''.'' @ im_ext im" "t = store k b s"
    using k by (auto simp: store_thumbnail_def Let_def)
  have ns: "\<not> source_key k" unfolding k'(1) by (rule named_not_source(1))
  have "med_inv C cf sha t"
    unfolding k'(2) by (rule med_inv_store [OF inv]) (use ns k'(1) image_screened(2) [OF med_invD(1) [OF inv] im Some] in auto)
  with ns k'(2) show ?thesis by simp
qed

section \<open>Uploads\<close>

lemma med_inv_photo_row:
  "med_inv C cf sha s \<Longrightarrow> \<not> source_key (ph_key p) \<Longrightarrow> \<not> source_key (ph_thumb p) \<Longrightarrow> med_inv C cf sha (insert_photo p s)"
  by (auto simp: med_inv_def insert_photo_def rows_ok_def)

lemma store_photo_inv:
  assumes inv: "med_inv C cf sha s" and im: "from_image (md_codec s) cf im" and names: "plain_names C"
  shows "med_inv C cf sha (snd (store_photo u k th im s))"
proof -
  obtain key s1 where k: "store_image [] im s = (key, s1)" by fastforce
  obtain thumb s2 where t: "store_thumbnail im s1 = (thumb, s2)" by fastforce
  note one = store_image_inv [OF inv im names _ k]
  then have s1: "med_inv C cf sha s1" "from_image (md_codec s1) cf im" "\<not> source_key key" using im by auto
  note two = store_thumbnail_inv [OF s1(1,2) t]
  then have s2: "med_inv C cf sha (drop_photos P s2)" for P using med_inv_drop(1) by blast
  have s2': "med_inv C cf sha s2" using two by simp
  show ?thesis
    using inv s2 s2' s1(3) two
    by (auto simp: store_photo_def k t Let_def photo_row_of_def intro!: med_inv_photo_row)
qed

lemma upload_photo_inv:
  assumes inv: "med_inv C cf sha s" and names: "plain_names C"
  shows "med_inv C cf sha (snd (upload_photo u kind data th s))"
proof -
  have "med_inv C cf sha (snd (upload_photo_body u kind data th s))"
  proof (cases "photo_gate u kind th s")
    case (Inl e)
    with inv show ?thesis by (simp add: upload_photo_body_def)
  next
    case (Inr kt)
    obtain k t where kt: "kt = (k, t)" by fastforce
    let ?ex = "[(''kind'', JStr (photo_kind_value k))]"
    let ?m = "''Photo uploads are unavailable until a content safety scanner is configured.''"
    obtain r s1 where r: "screened_image (u_id u) ''media.upload_blocked'' ?ex ?m data s = (r, s1)" by fastforce
    from screened_image_result [OF r] show ?thesis
    proof
      assume "\<exists>e. r = Inl e \<and> (s1 = s \<or> (\<exists>ev d. s1 = audit ev (Some (u_id u)) None d s))"
      with Inr kt r inv show ?thesis by (auto simp: upload_photo_body_def)
    next
      assume "\<exists>im. r = Inr im \<and> s1 = s \<and> from_image (md_codec s) (md_conf s) im"
      with Inr kt r store_photo_inv [OF inv _ names] med_invD(2) [OF inv] show ?thesis
        by (auto simp: upload_photo_body_def)
    qed
  qed
  then show ?thesis unfolding upload_photo_def by (rule med_inv_atomically [OF inv])
qed

lemma put_cover_inv:
  assumes inv: "med_inv C cf sha s" and key: "\<not> source_key key" "\<not> source_key thumb"
  shows "med_inv C cf sha (snd (put_cover u a key thumb im alt s))"
proof (cases "List.find (\<lambda>c. kv_activity c = ac_id a) (md_covers s)")
  case None
  with inv key show ?thesis
    by (auto simp: put_cover_def Let_def cover_row_def med_inv_def rows_ok_def)
next
  case (Some old)
  let ?s1 = "s\<lparr> md_covers := update_rows (\<lambda>x. kv_id x = kv_id old) (\<lambda>_. cover_row (kv_id old) u a key thumb im alt s) (md_covers s) \<rparr>"
  have "med_inv C cf sha ?s1"
    using inv key by (auto simp: cover_row_def med_inv_def rows_ok_def set_update_rows)
  then have "med_inv C cf sha (unstore_replaced (kv_thumb old) thumb (unstore_replaced (kv_key old) key ?s1))"
    by (simp add: unstore_replaced_def med_inv_unstore)
  with Some show ?thesis by (simp add: put_cover_def Let_def)
qed

lemma upload_activity_cover_inv:
  assumes inv: "med_inv C cf sha s" and names: "plain_names C"
  shows "med_inv C cf sha (snd (upload_activity_cover u a data alt s))"
proof -
  let ?m = "''Cover uploads are unavailable until a content safety scanner is configured.''"
  obtain r t where r: "screened_image (u_id u) ''media.cover_upload_blocked'' [] ?m data s = (r, t)" by fastforce
  have "med_inv C cf sha (snd (upload_activity_cover_body u a data alt s))"
  proof (cases "can_manage_activity_cover u a \<and> activity_accepts_cover_upload s a \<and> (\<exists>im. r = Inr im)")
    case False
    with screened_image_result [OF r] inv r show ?thesis by (auto simp: upload_activity_cover_body_def)
  next
    case True
    then obtain im where im: "r = Inr im" "t = s" "from_image (md_codec s) cf im"
      using screened_image_result [OF r] med_invD(2) [OF inv] by auto
    obtain key s1 where k: "store_image ''activity-covers/'' im s = (key, s1)" by fastforce
    obtain thumb s2 where th: "store_thumbnail im s1 = (thumb, s2)" by fastforce
    obtain c s3 where c: "put_cover u a key thumb im alt s2 = (c, s3)" by fastforce
    from store_image_inv [OF inv im(3) names _ k] have s1: "med_inv C cf sha s1" "md_codec s1 = md_codec s" "\<not> source_key key"
      by auto
    from store_thumbnail_inv [OF s1(1) _ th] s1(2) im(3) have s2: "med_inv C cf sha s2" "\<not> source_key thumb" by auto
    from put_cover_inv [OF s2(1) s1(3) s2(2), of u a im alt] c have "med_inv C cf sha s3" by simp
    with True r im k th c show ?thesis by (simp add: upload_activity_cover_body_def)
  qed
  then show ?thesis unfolding upload_activity_cover_def by (rule med_inv_atomically [OF inv])
qed

lemma put_place_cover_inv:
  assumes inv: "med_inv C cf sha s" and key: "\<not> source_key key"
  shows "med_inv C cf sha (snd (put_place_cover u p x key im alt s))"
proof (cases "List.find (\<lambda>c. pv_place c = p) (md_place_covers s)")
  case None
  with inv key show ?thesis
    by (auto simp: put_place_cover_def Let_def place_cover_row_def med_inv_def rows_ok_def)
next
  case (Some old)
  let ?s1 = "s\<lparr> md_place_covers := update_rows (\<lambda>y. pv_id y = pv_id old) (\<lambda>_. place_cover_row (pv_id old) u p x key im alt s)
      (md_place_covers s) \<rparr>"
  have "med_inv C cf sha ?s1"
    using inv key by (auto simp: place_cover_row_def med_inv_def rows_ok_def set_update_rows)
  then have "med_inv C cf sha (unstore_replaced (pv_key old) key ?s1)"
    by (simp add: unstore_replaced_def med_inv_unstore)
  with Some show ?thesis by (simp add: put_place_cover_def Let_def)
qed

lemma upload_place_cover_inv:
  assumes inv: "med_inv C cf sha s" and names: "plain_names C"
  shows "med_inv C cf sha (snd (upload_place_cover u p data alt s))"
proof -
  let ?m = "''Cover uploads are unavailable until a content safety scanner is configured.''"
  obtain r t where r: "screened_image (u_id u) ''media.cover_upload_blocked'' [] ?m data s = (r, t)" by fastforce
  obtain ok cl where oc: "can_manage_place_cover s u p = (ok, cl)" by fastforce
  have "med_inv C cf sha (snd (upload_place_cover_body u p data alt s))"
  proof (cases "ok \<and> is_public_place (mdb s) p \<and> (\<exists>im. r = Inr im)")
    case False
    with screened_image_result [OF r] inv r oc show ?thesis by (auto simp: upload_place_cover_body_def)
  next
    case True
    then obtain im where im: "r = Inr im" "t = s" "from_image (md_codec s) cf im"
      using screened_image_result [OF r] med_invD(2) [OF inv] by auto
    obtain key s1 where k: "store_image ''place-covers/'' im s = (key, s1)" by fastforce
    obtain c s2 where c: "put_place_cover u p (crediting_partner s cl p) key im alt s1 = (c, s2)" by fastforce
    from store_image_inv [OF inv im(3) names _ k] have s1: "med_inv C cf sha s1" "\<not> source_key key" by auto
    from put_place_cover_inv [OF s1, of u p "crediting_partner s cl p" im alt] c have "med_inv C cf sha s2" by simp
    with True r im k c oc show ?thesis by (simp add: upload_place_cover_body_def)
  qed
  then show ?thesis unfolding upload_place_cover_def by (rule med_inv_atomically [OF inv])
qed

end
