(* ===== verification/Serving.thy ===== *)
theory Serving
  imports Covers Attachment_Access
begin

text \<open>
  apps/media/views.py, storage.py: the bytes of a signed link. A view resolves the link to a grant,
  the key to deliver and how; the object store may then be asked for a link of its own (an argument,
  None when redirects are off or the backend makes none), and otherwise the app streams the object,
  or the one range of it that the client asked for.
\<close>

section \<open>Grants\<close>

record grant =
  gr_key :: string
  gr_type :: string
  gr_download :: "string option"
  gr_private :: bool

definition inline_grant :: "string \<Rightarrow> string \<Rightarrow> grant" where
  "inline_grant k ty = \<lparr> gr_key = k, gr_type = ty, gr_download = None, gr_private = True \<rparr>"

definition photo_grant :: "token \<Rightarrow> user \<Rightarrow> media \<Rightarrow> media_error + grant" where
  "photo_grant tok v s =
     (case resolve_signed_token tok v s of
        Inl e \<Rightarrow> Inl e
      | Inr (p, small) \<Rightarrow>
          Inr (inline_grant (if small \<and> ph_thumb p \<noteq> [] then ph_thumb p else ph_key p) (ph_type p)))"

definition attachment_grant :: "token \<Rightarrow> user \<Rightarrow> media \<Rightarrow> media_error + grant" where
  "attachment_grant tok v s =
     (case resolve_attachment_token tok v s of
        Inl e \<Rightarrow> Inl e
      | Inr (a, k) \<Rightarrow>
          let (key, ty) =
                (if k = PosterBlob then (at_poster a, or_else (at_poster_type a) ''image/webp'')
                 else if k = ThumbBlob \<and> at_thumb a \<noteq> [] then (at_thumb a, at_type a)
                 else (at_key a, at_type a))
          in Inr ((inline_grant key ty)\<lparr> gr_download :=
               (if at_kind a = AttFile then Some (or_else (at_filename a) ''document.pdf'') else None) \<rparr>))"

definition cover_grant :: "token \<Rightarrow> user option \<Rightarrow> media \<Rightarrow> media_error + grant" where
  "cover_grant tok v s =
     (case resolve_activity_cover_token tok v s of
        Inl e \<Rightarrow> Inl e
      | Inr (c, small) \<Rightarrow>
          Inr (inline_grant (if small \<and> kv_thumb c \<noteq> [] then kv_thumb c else kv_key c) (kv_type c)))"

definition place_cover_grant :: "token \<Rightarrow> media \<Rightarrow> media_error + grant" where
  "place_cover_grant tok s =
     (case resolve_place_cover_token tok s of
        Inl e \<Rightarrow> Inl e
      | Inr c \<Rightarrow> Inr ((inline_grant (pv_key c) (pv_type c))\<lparr> gr_private := False \<rparr>))"

datatype file_request =
    PhotoFile token user
  | AttachmentFile token user
  | CoverFile token "user option"
  | PlaceCoverFile token

fun link_grant :: "file_request \<Rightarrow> media \<Rightarrow> media_error + grant" where
  "link_grant (PhotoFile tok v) s = photo_grant tok v s"
| "link_grant (AttachmentFile tok v) s = attachment_grant tok v s"
| "link_grant (CoverFile tok v) s = cover_grant tok v s"
| "link_grant (PlaceCoverFile tok) s = place_cover_grant tok s"

section \<open>Ranges\<close>

text \<open>
  \<open>^bytes=(\d{0,18})-(\d{0,18})$\<close> on the stripped header: the two digit strings. An absent header is
  the empty string, which does not match.
\<close>

definition is_digit :: "char \<Rightarrow> bool" where
  "is_digit c \<longleftrightarrow> digit_of c \<noteq> None"

definition range_parts :: "string \<Rightarrow> (string \<times> string) option" where
  "range_parts header =
     (let h = strip header; r = drop 6 h; x = takeWhile is_digit r in
      if take 6 h \<noteq> ''bytes='' then None
      else case dropWhile is_digit r of
          [] \<Rightarrow> None
        | c # y \<Rightarrow> if c = CHR ''-'' \<and> list_all is_digit y \<and> length x \<le> 18 \<and> length y \<le> 18 then Some (x, y) else None)"

fun decimal :: "nat \<Rightarrow> string \<Rightarrow> nat" where
  "decimal n [] = n"
| "decimal n (c # cs) = decimal (10 * n + (case digit_of c of None \<Rightarrow> 0 | Some d \<Rightarrow> d)) cs"

text \<open>The bytes from \<open>a\<close> to \<open>b\<close>, both included.\<close>

definition open_range :: "bytes \<Rightarrow> nat \<Rightarrow> nat \<Rightarrow> bytes" where
  "open_range data a b = take (Suc b - a) (drop a data)"

text \<open>The answers 200, 206 with its first and last byte and the size, and 416 with the size.\<close>

datatype answer = Whole bytes | Part bytes nat nat nat | NotSatisfiable nat

definition media_answer :: "string \<Rightarrow> bytes \<Rightarrow> answer" where
  "media_answer header data =
     (case range_parts header of
        None \<Rightarrow> Whole data
      | Some (x, y) \<Rightarrow>
          let size = length data in
          if size = 0 \<or> x = [] \<and> y = [] then Whole data
          else let a = (if x = [] then size - min (decimal 0 y) size else decimal 0 x);
                   b = (if x = [] \<or> y = [] then size - 1 else min (decimal 0 y) (size - 1))
               in if size \<le> a \<or> b < a then NotSatisfiable size else Part (open_range data a b) a b size)"

section \<open>Delivery\<close>

type_synonym presigner = "string \<Rightarrow> string \<Rightarrow> string option \<Rightarrow> string option"

definition disposition :: "string \<Rightarrow> string" where
  "disposition name = ''attachment; filename='' @ in_quotes name"

definition maybe_presigned_url :: "presigner option \<Rightarrow> grant \<Rightarrow> string option" where
  "maybe_presigned_url ps g =
     (case ps of None \<Rightarrow> None | Some f \<Rightarrow> f (gr_key g) (gr_type g) (map_option disposition (gr_download g)))"

text \<open>A stream has its answer, content type, disposition and cache policy; a missing object makes the store raise.\<close>

datatype delivery = Redirect string | Stream answer string "string option" string | Broken

definition cache_control :: "media \<Rightarrow> bool \<Rightarrow> string" where
  "cache_control s private = (if private then ''private'' else ''public'') @ '', max-age='' @ int_str (me_link_ttl (md_conf s))"

definition deliver :: "presigner option \<Rightarrow> string \<Rightarrow> grant \<Rightarrow> media \<Rightarrow> delivery" where
  "deliver ps header g s =
     (case maybe_presigned_url ps g of
        Some url \<Rightarrow> Redirect url
      | None \<Rightarrow>
          (case md_blobs s (gr_key g) of
             None \<Rightarrow> Broken
           | Some data \<Rightarrow> Stream (media_answer header data) (gr_type g) (map_option disposition (gr_download g))
                (cache_control s (gr_private g))))"

definition serve_file :: "presigner option \<Rightarrow> string \<Rightarrow> file_request \<Rightarrow> media \<Rightarrow> media_error + delivery" where
  "serve_file ps header q s = (case link_grant q s of Inl e \<Rightarrow> Inl e | Inr g \<Rightarrow> Inr (deliver ps header g s))"

section \<open>What a range answers\<close>

definition range_header :: "nat \<Rightarrow> nat \<Rightarrow> string" where
  "range_header a b = ''bytes='' @ nat_str a @ ''-'' @ nat_str b"

lemma digit_char: "n < 10 \<Longrightarrow> digit_of (char_of (48 + n :: nat)) = Some n"
  by (simp add: digit_of_def Let_def)

lemma nat_str_digits: "\<forall>c \<in> set (nat_str n). is_digit c"
proof (induction n rule: nat_str.induct)
  case (1 n)
  then show ?case by (auto simp: nat_str.simps [of n] is_digit_def digit_char)
qed

lemma nat_str_length: "n < 10 ^ k \<Longrightarrow> 0 < k \<Longrightarrow> length (nat_str n) \<le> k"
proof (induction n arbitrary: k rule: nat_str.induct)
  case (1 n)
  show ?case
  proof (cases "n < 10")
    case True
    with 1(3) show ?thesis by (simp add: nat_str.simps [of n])
  next
    case False
    obtain j where k: "k = Suc j" using 1(3) by (cases k) auto
    with 1(2) False have j: "k = Suc j" "0 < j" by (cases j; simp)+
    have "n div 10 < 10 ^ j" using 1(2) j(1) by (simp add: div_less_iff_less_mult mult.commute)
    from 1(1) [OF False this j(2)] False j(1) show ?thesis by (simp add: nat_str.simps [of n])
  qed
qed

lemma decimal_append: "decimal n (x @ [c]) = 10 * decimal n x + (case digit_of c of None \<Rightarrow> 0 | Some d \<Rightarrow> d)"
  by (induction x arbitrary: n) auto

lemma decimal_nat_str: "decimal 0 (nat_str n) = n"
proof (induction n rule: nat_str.induct)
  case (1 n)
  then show ?case by (cases "n < 10") (simp_all add: nat_str.simps [of n] digit_char decimal_append)
qed

lemma nat_str_nonempty: "nat_str n \<noteq> []"
  by (simp add: nat_str.simps [of n])

lemma digit_not_space: "is_digit c \<Longrightarrow> \<not> py_space c"
  by (auto simp: is_digit_def digit_of_def py_space_def Let_def split: if_splits)

lemma range_parts_text:
  assumes "list_all is_digit x" "list_all is_digit y" "length x \<le> 18" "length y \<le> 18"
  shows "range_parts (''bytes='' @ x @ ''-'' @ y) = Some (x, y)"
proof -
  let ?h = "''bytes='' @ x @ ''-'' @ y"
  have "\<not> py_space (last ?h)"
  proof (cases "y = []")
    case True
    then show ?thesis by (simp add: py_space_def)
  next
    case False
    with assms(2) show ?thesis by (auto simp: list_all_iff intro!: digit_not_space)
  qed
  then have h: "strip ?h = ?h" by (intro strip_same) (simp_all add: py_space_def)
  have d: "\<not> is_digit CHR ''-''" by (simp add: is_digit_def digit_of_def)
  have "takeWhile is_digit (x @ CHR ''-'' # y) = x" "dropWhile is_digit (x @ CHR ''-'' # y) = CHR ''-'' # y"
    using assms(1) d by (simp_all add: list_all_iff takeWhile_append dropWhile_append)
  with h assms show ?thesis by (simp add: range_parts_def Let_def)
qed

lemma nat_str_range:
  assumes "n < 10 ^ 18"
  shows "list_all is_digit (nat_str n)" "length (nat_str n) \<le> 18"
  using nat_str_digits [of n] nat_str_length [OF assms] by (simp_all add: list_all_iff)

lemma window_answer:
  assumes "a < 10 ^ 18" "b < 10 ^ 18" "data \<noteq> []"
  shows "media_answer (range_header a b) data =
    (if length data \<le> a \<or> b < a then NotSatisfiable (length data)
     else Part (open_range data a (min b (length data - 1))) a (min b (length data - 1)) (length data))"
proof -
  have "range_parts (range_header a b) = Some (nat_str a, nat_str b)"
    unfolding range_header_def using nat_str_range assms(1,2) by (intro range_parts_text) simp_all
  with assms(3) show ?thesis
    by (auto simp: media_answer_def Let_def decimal_nat_str nat_str_nonempty min_def)
qed

lemma tail_answer:
  assumes "a < 10 ^ 18" "a < length data"
  shows "media_answer (''bytes='' @ nat_str a @ ''-'') data =
    Part (open_range data a (length data - 1)) a (length data - 1) (length data)"
proof -
  have "range_parts (''bytes='' @ nat_str a @ ''-'' @ []) = Some (nat_str a, [])"
    using nat_str_range assms(1) by (intro range_parts_text) simp_all
  with assms(2) show ?thesis
    by (auto simp: media_answer_def Let_def decimal_nat_str nat_str_nonempty)
qed

lemma part_in_bounds:
  assumes "media_answer h data = Part body a b n"
  shows "n = length data \<and> a \<le> b \<and> b < n \<and> body = open_range data a b"
  using assms by (auto simp: media_answer_def Let_def split: option.splits if_splits)

lemma answer_within:
  assumes "media_answer h data = Part body a b n"
  shows "\<exists>u v. data = u @ body @ v \<and> length u = a \<and> length body = Suc b - a"
proof -
  note p = part_in_bounds [OF assms]
  have "data = take a data @ body @ drop (Suc b - a) (drop a data)"
    using p by (simp only: open_range_def append_take_drop_id)
  moreover have "length (take a data) = a" "length body = Suc b - a"
    using p by (auto simp: open_range_def min_def)
  ultimately show ?thesis by blast
qed

text \<open>
  Seeking loses and repeats nothing: the answers to a window that ends just before byte \<open>k\<close> and
  to the open range from \<open>k\<close> on put the object together again.
\<close>

theorem windows_reassemble:
  assumes "0 < k" "k < length data" "k \<le> 10 ^ 18 - 1"
  shows "\<exists>x y. media_answer (range_header 0 (k - 1)) data = Part x 0 (k - 1) (length data) \<and>
     media_answer (''bytes='' @ nat_str k @ ''-'') data = Part y k (length data - 1) (length data) \<and> x @ y = data"
proof -
  have "media_answer (range_header 0 (k - 1)) data = Part (take k data) 0 (k - 1) (length data)"
  proof -
    have "\<not> length data \<le> 0" "min (k - 1) (length data - 1) = k - 1" "Suc (k - 1) = k" "data \<noteq> []" using assms by auto
    then show ?thesis using window_answer [of 0 "k - 1" data] assms by (simp add: open_range_def del: One_nat_def)
  qed
  moreover have "media_answer (''bytes='' @ nat_str k @ ''-'') data = Part (drop k data) k (length data - 1) (length data)"
    using tail_answer [of k data] assms by (simp add: open_range_def)
  ultimately show ?thesis using append_take_drop_id by blast
qed

theorem windows_reassemble_witness:
  "\<exists>x y. media_answer (range_header 0 (4 - 1)) ''clip-bytes'' = Part x 0 (4 - 1) (length ''clip-bytes'') \<and>
     media_answer (''bytes='' @ nat_str 4 @ ''-'') ''clip-bytes'' = Part y 4 (length ''clip-bytes'' - 1) (length ''clip-bytes'') \<and>
     x @ y = ''clip-bytes''"
  by (rule windows_reassemble) simp_all

text \<open>
  A range whose last byte comes before its first is answered 416, although such a range is
  invalid and to be ignored.
\<close>

theorem backwards_range_refused:
  assumes "b < a" "a < 10 ^ 18" "data \<noteq> []"
  shows "media_answer (range_header a b) data = NotSatisfiable (length data)"
  using window_answer [of a b data] assms by simp

theorem backwards_range_refused_witness: "media_answer (range_header 5 3) ''clip-bytes'' = NotSatisfiable 10"
  using backwards_range_refused [of 3 5 "''clip-bytes''"] by simp

end
