(* ===== verification/Studio.thy ===== *)
theory Studio
  imports Media_Laws Serving
begin

text \<open>
  The requests of apps/media as one machine: members upload, share and delete, workers claim, work
  and finish videos each at their own pace with what they claimed in hand, jobs purge and clean up,
  rows vanish with their owners, the configuration of the scanners and codecs is replaced, and the
  rest of the program moves the database. The law of the object store holds at every moment.
\<close>

section \<open>Attachments\<close>

lemma insert_attachment_inv:
  "med_inv C cf sha s \<Longrightarrow> attachment_ok a \<Longrightarrow> med_inv C cf sha (snd (insert_attachment a s))"
  by (auto simp: insert_attachment_def med_inv_def rows_ok_def)

lemma ping_mentioned_lib: "lib (ping_mentioned u w p s) = lib s"
  by (cases w) simp_all

lemma post_to_thread_lib: "lib (snd (post_to_thread evs u w t q s)) = lib s"
proof -
  obtain ok s1 where r: "allow_action (u_id u) ''thread_post'' (st_post_limit (conf s)) (st_post_window (conf s)) s = (ok, s1)"
    by fastforce
  then have "lib s1 = lib s" using allow_action_frame(4) [of "u_id u" "''thread_post''"] by (metis snd_conv)
  then show ?thesis
    by (auto simp: post_to_thread_def r Let_def ping_mentioned_lib insert_post_def split: option.split sum.split)
qed

lemma med_inv_on_db: "lib (f (mdb s)) = lib (mdb s) \<Longrightarrow> med_inv C cf sha s \<Longrightarrow> med_inv C cf sha (over_db f s)"
  by (simp add: med_inv_def)

lemma blank_ok: "attachment_ok (blank_attachment s u p)"
  by (simp add: attachment_ok_def blank_attachment_def named_not_source)

lemma attach_video_inv:
  assumes inv: "med_inv C cf sha s"
  shows "med_inv C cf sha (snd (attach_video u p a data ttl s))"
proof (cases "me_video_enabled (md_conf s) \<and> ac_cohort a \<in> set (me_video_cohorts (md_conf s)) \<and> cd_ffmpeg (md_codec s) \<and>
    length data \<le> me_video_max_bytes (md_conf s) \<and> \<not> no_scanner s \<and>
    (\<exists>r. sc_scan_digest (cd_scanner (md_codec s)) (digest_of s data) = Some r \<and> sr_clean r)")
  case False
  with inv show ?thesis by (auto simp: attach_video_def blocked_for_def split: option.split)
next
  case True
  let ?key = "''video-src/'' @ uuid s @ (if looks_like_webm data then ''.webm'' else ''.mp4'')"
  have k: "source_key ?key" "?key \<noteq> []" using named_not_source(7) by simp_all
  have "quarantined C cf sha data"
    using True med_invD [OF inv] by (auto simp: quarantined_def fit_def no_scanner_def digest_of_def)
  then have s1: "med_inv C cf sha (store ?key data s)" using med_inv_store [OF inv k(2)] k(1) by simp
  let ?a = "(blank_attachment (store ?key data s) u p)\<lparr> at_kind := AttVideo, at_status := AttPending, at_type := ''video/mp4'',
     at_size := length data, at_sha := digest_of s data, at_source := ?key, at_expires_at := resolve_expiry s (ac_cohort a) ttl \<rparr>"
  have "attachment_ok ?a" using k by (simp add: attachment_ok_def blank_attachment_def named_not_source)
  from insert_attachment_inv [OF s1 this] True show ?thesis
    by (auto simp: attach_video_def Let_def)
qed

lemma attach_image_inv:
  assumes inv: "med_inv C cf sha s" and names: "plain_names C" and ok: "passes cf (md_codec s) data"
  shows "med_inv C cf sha (snd (attach_image u p a data ttl s))"
proof (cases "cd_strip (md_codec s) (me_attachment_max_bytes (md_conf s)) data")
  case None
  with inv show ?thesis by (simp add: attach_image_def)
next
  case (Some im)
  then have im: "from_image (md_codec s) cf im" using ok unfolding from_image_def by blast
  obtain key s1 where k: "store_image [] im s = (key, s1)" by fastforce
  obtain thumb s2 where t: "store_thumbnail im s1 = (thumb, s2)" by fastforce
  from store_image_inv [OF inv im names _ k] have s1: "med_inv C cf sha s1" "md_codec s1 = md_codec s" "\<not> source_key key" by auto
  from store_thumbnail_inv [OF s1(1) _ t] s1(2) im have s2: "med_inv C cf sha s2" "\<not> source_key thumb" by auto
  show ?thesis
    using Some k t s2 s1(3)
    by (auto simp: attach_image_def intro!: insert_attachment_inv simp: attachment_ok_def blank_attachment_def named_not_source)
qed

lemma attach_document_inv:
  assumes inv: "med_inv C cf sha s" and names: "plain_names C" and ok: "passes cf (md_codec s) data" and pdf: "is_pdf data"
  shows "med_inv C cf sha (snd (attach_document u p a name data ttl s))"
proof (cases "(me_require_documents (md_conf s) \<longrightarrow> ds_effective (cd_documents (md_codec s))) \<and>
    (ds_effective (cd_documents (md_codec s)) \<longrightarrow> sr_clean (ds_scan (cd_documents (md_codec s)) data))")
  case False
  with inv show ?thesis by (auto simp: attach_document_def Let_def blocked_for_def)
next
  case True
  let ?key = "uuid s @ ''.pdf''"
  have "CHR ''/'' \<notin> set (uuid s)" using names med_invD(1) [OF inv] by (simp add: plain_names_def uuid_def)
  from plain_not_source [OF this, of "''pdf''"] have k: "\<not> source_key ?key" "?key \<noteq> []" by simp_all
  have "document_blob C cf data" using True ok pdf med_invD [OF inv] by (auto simp: document_blob_def)
  then have "med_inv C cf sha (store ?key data s)" using med_inv_store [OF inv k(2)] k(1) by (simp add: screened_def)
  from insert_attachment_inv [OF this] have "med_inv C cf sha (snd (store_document u p a name data ttl s))"
    using k(1) by (simp add: store_document_def Let_def attachment_ok_def blank_attachment_def named_not_source)
  with True show ?thesis by (auto simp: attach_document_def Let_def)
qed

lemma attach_file_inv:
  assumes inv: "med_inv C cf sha s" and names: "plain_names C"
  shows "med_inv C cf sha (snd (attach_file u p a name data ttl s))"
proof -
  obtain r t where r: "screen (u_id u) file_failed data s = (r, t)" by fastforce
  show ?thesis
  proof (cases "\<not> no_scanner s \<and> r = Inr ()")
    case True
    with screen_result [OF r] have t: "t = s" "passes cf (md_codec s) data"
      using med_invD(2) [OF inv] by (auto simp: passes_def fit_def no_scanner_def)
    note image = attach_image_inv [OF inv names t(2)]
    note document = attach_document_inv [OF inv names t(2)]
    show ?thesis using True r t image document inv by (auto simp: attach_file_def Let_def)
  next
    case False
    with screen_result [OF r] r inv show ?thesis by (auto simp: attach_file_def Let_def blocked_for_def)
  qed
qed

lemma attach_to_post_inv:
  assumes inv: "med_inv C cf sha s" and names: "plain_names C"
  shows "med_inv C cf sha (snd (attach_to_post u p name data ttl s))"
  using inv attach_video_inv [OF inv] attach_file_inv [OF inv names]
  by (auto simp: attach_to_post_def split: option.split thread_owner.split)

lemma share_file_inv:
  assumes inv: "med_inv C cf sha s" and names: "plain_names C"
  shows "med_inv C cf sha (snd (share_file evs u w t q name data ttl s))"
proof -
  obtain r d where r: "post_to_thread evs u w t q (mdb s) = (r, d)" by fastforce
  then have "lib d = lib (mdb s)" using post_to_thread_lib [of evs u w t q "mdb s"] by simp
  then have s1: "med_inv C cf sha (over_db (\<lambda>_. d) s)" using inv by (intro med_inv_on_db) simp_all
  have "med_inv C cf sha (snd (share_file_body evs u w t q name data ttl s))"
    using s1 attach_to_post_inv [OF s1 names] r
    by (auto simp: share_file_body_def in_media_def split: sum.split prod.split) (metis snd_conv)+
  then show ?thesis unfolding share_file_def by (rule med_inv_atomically [OF inv])
qed

section \<open>Videos\<close>

lemma unstore_source_inv: "med_inv C cf sha s \<Longrightarrow> med_inv C cf sha (unstore_source a s)"
  by (simp add: unstore_source_def med_inv_unstore)

lemma put_blob_inv:
  "med_inv C cf sha s \<Longrightarrow> k \<noteq> [] \<Longrightarrow> \<not> source_key k \<Longrightarrow> screened C cf sha b \<Longrightarrow> med_inv C cf sha (put_blob k b s)"
  by (auto simp: put_blob_def med_inv_def store_ok_def mdb_def)

lemma failed_locked_inv: "med_inv C cf sha s \<Longrightarrow> med_inv C cf sha (finalize_failed_locked a r s)"
  unfolding finalize_failed_locked_def
  by (intro unstore_source_inv) (auto intro!: med_inv_set_attachment simp: attachment_ok_def named_not_source)

lemma failed_inv: "med_inv C cf sha s \<Longrightarrow> med_inv C cf sha (finalize_failed i r s)"
  by (auto simp: finalize_failed_def failed_locked_inv split: option.split)

lemma blocked_inv: "med_inv C cf sha s \<Longrightarrow> med_inv C cf sha (finalize_blocked i s)"
  by (auto simp: finalize_blocked_def attachment_ok_def named_not_source intro!: med_inv_set_attachment split: option.split)

lemma ready_inv:
  assumes "med_inv C cf sha s" "\<not> source_key k" "\<not> source_key p"
  shows "med_inv C cf sha (finalize_ready i k p c s)"
  using assms
  by (auto simp: finalize_ready_def attachment_ok_def intro!: unstore_source_inv med_inv_set_attachment med_inv_unstore
      split: option.split)

lemma claim_inv:
  assumes inv: "med_inv C cf sha s" and c: "claim_next_video s = (r, t)"
  shows "med_inv C cf sha t \<and> (\<forall>a. r = ClaimedVideo a \<longrightarrow> attachment_ok a)"
proof (cases "sort_key at_created_at (filter (video_due s) (md_attachments s))")
  case Nil
  with inv c show ?thesis by (auto simp: claim_next_video_def)
next
  case (Cons a as)
  then have "a \<in> set (sort_key at_created_at (filter (video_due s) (md_attachments s)))" by simp
  then have ok: "attachment_ok a" using med_invD(5) [OF inv] by (simp add: rows_ok_def)
  show ?thesis
    using Cons c ok inv
    by (auto simp: claim_next_video_def Let_def failed_locked_inv attachment_ok_def intro!: med_inv_set_attachment split: if_splits)
qed

definition work_ok :: "codec set \<Rightarrow> media_settings \<Rightarrow> (bytes \<Rightarrow> string) \<Rightarrow> video_work \<Rightarrow> bool" where
  "work_ok C cf sha w \<longleftrightarrow> (\<forall>c. w = WorkReady c \<longrightarrow> cleared_clip C cf sha c)"

lemma transcode_ok:
  assumes inv: "med_inv C cf sha s" and a: "attachment_ok a"
  shows "work_ok C cf sha (transcode_and_scan s a)"
proof -
  have "cleared_clip C cf sha c" if w: "transcode_and_scan s a = WorkReady c" for c
  proof -
    obtain src where src: "md_blobs s (at_source a) = Some src" "cd_transcode (md_codec s) src = Transcoded c"
        "frames_clean (cd_scanner (md_codec s)) (cp_poster_frame c # cp_frames c) = Some True"
      using w unfolding transcode_and_scan_def by (auto split: option.splits transcoded.splits bool.splits simp del: frames_clean.simps)
    have "at_source a \<noteq> []" using src(1) med_invD(4) [OF inv] by (auto simp: store_ok_def)
    then have "source_key (at_source a)" using a by (simp add: attachment_ok_def)
    then have "quarantined C cf sha src" using src(1) med_invD(4) [OF inv] by (auto simp: store_ok_def)
    with src(2,3) med_invD(1) [OF inv] show ?thesis unfolding cleared_clip_def by blast
  qed
  then show ?thesis by (simp add: work_ok_def)
qed

lemma finish_inv:
  assumes inv: "med_inv C cf sha s" and w: "work_ok C cf sha w"
  shows "med_inv C cf sha (finish_video a w s)"
proof (cases w)
  case (WorkReady c)
  with w have "screened C cf sha (cp_bytes c)" "screened C cf sha (im_bytes (cp_poster c))"
    by (auto simp: work_ok_def screened_def)
  then have "med_inv C cf sha (put_blob (poster_key a (cp_poster c)) (im_bytes (cp_poster c)) (put_blob (video_key a) (cp_bytes c) s))"
    using inv video_names by (intro put_blob_inv) simp_all
  with WorkReady video_names show ?thesis by (simp add: finish_video_def ready_inv)
qed (use inv in \<open>simp_all add: finish_video_def failed_inv blocked_inv\<close>)

lemma drain_inv: "med_inv C cf sha s \<Longrightarrow> med_inv C cf sha (snd (drain_videos n s))"
proof (induction n arbitrary: s)
  case (Suc n)
  obtain r t where c: "claim_next_video s = (r, t)" by fastforce
  from claim_inv [OF Suc(2) c] have t: "med_inv C cf sha t" "\<And>a. r = ClaimedVideo a \<Longrightarrow> attachment_ok a" by auto
  show ?case
  proof (cases r)
    case (ClaimedVideo a)
    have "med_inv C cf sha (finish_video a (transcode_and_scan t a) t)"
      by (rule finish_inv [OF t(1) transcode_ok [OF t(1) t(2) [OF ClaimedVideo]]])
    from Suc(1) [OF this] c ClaimedVideo show ?thesis by (simp add: Let_def case_prod_beta)
  qed (use c t(1) Suc(1) [OF t(1)] in \<open>simp_all add: Let_def case_prod_beta\<close>)
qed simp

section \<open>Purge\<close>

lemma purge_row_inv: "med_inv C cf sha s \<Longrightarrow> med_inv C cf sha (purge_row a s)"
  unfolding purge_row_def
  by (intro med_inv_unstore_all) (auto intro!: med_inv_set_attachment simp: attachment_ok_def named_not_source)

lemma purge_one_inv: "med_inv C cf sha s \<Longrightarrow> med_inv C cf sha (snd (purge_one z a s))"
  by (auto simp: purge_one_def purge_row_inv split: option.split)

lemma purge_each_inv: "med_inv C cf sha s \<Longrightarrow> med_inv C cf sha (snd (purge_each z limit as s))"
proof (induction as arbitrary: limit s)
  case (Cons a as)
  obtain hit t where h: "purge_one z a s = (hit, t)" by fastforce
  have "med_inv C cf sha t" using purge_one_inv [OF Cons(2), of z a] h by simp
  with Cons(1) [OF this] show ?case by (auto simp: h Let_def case_prod_beta)
qed simp

section \<open>Requests and workers\<close>

text \<open>A worker at its desk: the video it claimed, and what it made of it once done.\<close>

record studio =
  st_media :: media
  st_desk :: "(attachment \<times> video_work option) list"

datatype media_request =
    UploadPhoto id string bytes "id option"
  | DeletePhoto id id
  | UploadCover id id bytes string
  | DeleteCover id id
  | UploadPlaceCover id id bytes string
  | DeletePlaceCover id id
  | ShareFile "event list" id id post_request string bytes "int option"
  | DeleteAttachment id id
  | ClaimVideo
  | WorkVideo nat
  | FinishVideo nat
  | ProcessVideos "nat option"
  | PurgeAttachments "nat option"
  | CleanUp string
  | UploaderGone id
  | PostGone id
  | ThreadGone id
  | ActivityGone id
  | PlaceGone id
  | Reconfigure codec
  | MediaElsewhere venues

definition by_member :: "media \<Rightarrow> id \<Rightarrow> (user \<Rightarrow> media) \<Rightarrow> media" where
  "by_member s u k = (case user_row (mdb s) u of None \<Rightarrow> s | Some x \<Rightarrow> k x)"

definition on_row :: "('r \<Rightarrow> id) \<Rightarrow> 'r list \<Rightarrow> id \<Rightarrow> media \<Rightarrow> ('r \<Rightarrow> media) \<Rightarrow> media" where
  "on_row f rows i s k = (case List.find (\<lambda>x. f x = i) rows of None \<Rightarrow> s | Some x \<Rightarrow> k x)"

definition elsewhere :: "venues \<Rightarrow> media \<Rightarrow> media" where
  "elsewhere v s = s\<lparr> md_venues := with_db (\<lambda>d. d\<lparr> lib := lib (mdb s) \<rparr>) v \<rparr>"

text \<open>The requests that do not touch a desk; rows vanish with the rows they belong to.\<close>

fun media_exec :: "media_request \<Rightarrow> media \<Rightarrow> media" where
  "media_exec (UploadPhoto u kind data t) s =
     by_member s u (\<lambda>u. snd (upload_photo u kind data (thread_row s t) s))"
| "media_exec (DeletePhoto u i) s = by_member s u (\<lambda>u. on_row ph_id (md_photos s) i s (\<lambda>p. snd (delete_photo u p s)))"
| "media_exec (UploadCover u a data alt) s =
     by_member s u (\<lambda>u. case activity_row (mdb s) a of None \<Rightarrow> s | Some a \<Rightarrow> snd (upload_activity_cover u a data alt s))"
| "media_exec (DeleteCover u i) s =
     by_member s u (\<lambda>u. on_row kv_id (md_covers s) i s (\<lambda>c.
       case activity_row (mdb s) (kv_activity c) of None \<Rightarrow> s | Some a \<Rightarrow> snd (delete_activity_cover u a c s)))"
| "media_exec (UploadPlaceCover u p data alt) s = by_member s u (\<lambda>u. snd (upload_place_cover u p data alt s))"
| "media_exec (DeletePlaceCover u i) s =
     by_member s u (\<lambda>u. on_row pv_id (md_place_covers s) i s (\<lambda>c. snd (delete_place_cover u c s)))"
| "media_exec (ShareFile evs u t q name data ttl) s =
     by_member s u (\<lambda>u. case owner_object (mdb s) t of
        Some (ActivityThread a) \<Rightarrow> snd (share_file evs u (ActivityThread a) t q name data ttl s) | _ \<Rightarrow> s)"
| "media_exec (DeleteAttachment u i) s =
     by_member s u (\<lambda>u. on_row at_id (md_attachments s) i s (\<lambda>a. snd (delete_attachment u a s)))"
| "media_exec (ProcessVideos n) s = snd (process_pending_videos n s)"
| "media_exec (PurgeAttachments n) s = snd (purge_expired_attachments n s)"
| "media_exec (CleanUp k) s = blob_cleanup k s"
| "media_exec (UploaderGone u) s =
     drop_covers (\<lambda>c. kv_uploader c = u) (drop_attachments (\<lambda>a. at_uploader a = u) (drop_photos (\<lambda>p. ph_uploader p = u) s))"
| "media_exec (PostGone i) s = drop_attachments (\<lambda>a. at_post a = i) s"
| "media_exec (ThreadGone t) s = drop_photos (\<lambda>p. ph_thread p = Some t) s"
| "media_exec (ActivityGone i) s = drop_covers (\<lambda>c. kv_activity c = i) s"
| "media_exec (PlaceGone i) s = drop_place_covers (\<lambda>c. pv_place c = i) s"
| "media_exec (Reconfigure cd) s = s\<lparr> md_codec := cd \<rparr>"
| "media_exec (MediaElsewhere v) s = elsewhere v s"
| "media_exec q s = s"

text \<open>A worker claims only with a scanner and the codecs at hand.\<close>

fun studio_exec :: "media_request \<Rightarrow> studio \<Rightarrow> studio" where
  "studio_exec ClaimVideo s =
     (if no_scanner (st_media s) \<or> \<not> cd_ffmpeg (md_codec (st_media s)) then s
      else case claim_next_video (st_media s) of
          (ClaimedVideo a, t) \<Rightarrow> s\<lparr> st_media := t, st_desk := st_desk s @ [(a, None)] \<rparr>
        | (_, t) \<Rightarrow> s\<lparr> st_media := t \<rparr>)"
| "studio_exec (WorkVideo n) s =
     (if n < length (st_desk s)
      then case st_desk s ! n of
          (a, None) \<Rightarrow> s\<lparr> st_desk := (st_desk s)[n := (a, Some (transcode_and_scan (st_media s) a))] \<rparr>
        | (a, Some w) \<Rightarrow> s
      else s)"
| "studio_exec (FinishVideo n) s =
     (if n < length (st_desk s)
      then case st_desk s ! n of
          (a, Some w) \<Rightarrow> s\<lparr> st_media := finish_video a w (st_media s), st_desk := take n (st_desk s) @ drop (Suc n) (st_desk s) \<rparr>
        | (a, None) \<Rightarrow> s
      else s)"
| "studio_exec q s = s\<lparr> st_media := media_exec q (st_media s) \<rparr>"

definition run_studio :: "media_request list \<Rightarrow> studio \<Rightarrow> studio" where
  "run_studio qs s = run_requests studio_exec qs s"

text \<open>An empty studio: no row, no blob, no worker at work.\<close>

definition empty_studio :: "studio \<Rightarrow> bool" where
  "empty_studio s \<longleftrightarrow> st_desk s = [] \<and> md_photos (st_media s) = [] \<and> md_attachments (st_media s) = [] \<and>
     md_covers (st_media s) = [] \<and> md_place_covers (st_media s) = []"

text \<open>The configurations a run passes through.\<close>

fun configurations :: "media_request list \<Rightarrow> codec list" where
  "configurations [] = []"
| "configurations (Reconfigure cd # qs) = cd # configurations qs"
| "configurations (_ # qs) = configurations qs"

section \<open>The law over runs\<close>

definition desk_ok :: "codec set \<Rightarrow> media_settings \<Rightarrow> (bytes \<Rightarrow> string) \<Rightarrow> attachment \<times> video_work option \<Rightarrow> bool" where
  "desk_ok C cf sha e \<longleftrightarrow> attachment_ok (fst e) \<and> (\<forall>w. snd e = Some w \<longrightarrow> work_ok C cf sha w)"

definition studio_inv :: "codec set \<Rightarrow> media_settings \<Rightarrow> (bytes \<Rightarrow> string) \<Rightarrow> studio \<Rightarrow> bool" where
  "studio_inv C cf sha s \<longleftrightarrow> med_inv C cf sha (st_media s) \<and> (\<forall>e \<in> set (st_desk s). desk_ok C cf sha e)"

lemma delete_inv:
  assumes inv: "med_inv C cf sha s"
  shows "med_inv C cf sha (snd (delete_photo u p s))" "med_inv C cf sha (snd (delete_activity_cover u a c s))"
    "med_inv C cf sha (snd (delete_place_cover u v s))" "med_inv C cf sha (snd (delete_attachment u b s))"
  using inv
  by (simp_all add: delete_photo_def delete_activity_cover_def delete_place_cover_def delete_attachment_def med_inv_drop)

lemma elsewhere_inv: "med_inv C cf sha s \<Longrightarrow> med_inv C cf sha (elsewhere v s)"
  by (simp add: med_inv_def elsewhere_def mdb_def with_db_def)

lemma process_inv: "med_inv C cf sha s \<Longrightarrow> med_inv C cf sha (snd (process_pending_videos n s))"
  by (simp add: process_pending_videos_def drain_inv)

lemma purge_job_inv: "med_inv C cf sha s \<Longrightarrow> med_inv C cf sha (snd (purge_expired_attachments n s))"
  by (simp add: purge_expired_attachments_def purge_each_inv)

lemmas media_rules = upload_photo_inv upload_activity_cover_inv upload_place_cover_inv share_file_inv delete_inv elsewhere_inv
  process_inv purge_job_inv med_inv_cleanup med_inv_drop

lemma media_exec_inv:
  assumes inv: "med_inv C cf sha s" and names: "plain_names C" and conf: "set (configurations [q]) \<subseteq> C"
  shows "med_inv C cf sha (media_exec q s)"
proof (cases q)
  case (Reconfigure cd)
  with conf inv show ?thesis by (simp add: med_inv_def)
next
  case (ShareFile evs u t r name data ttl)
  with share_file_inv [OF inv names] inv show ?thesis
    by (auto simp: by_member_def split: option.split thread_owner.split)
qed (use inv names in \<open>auto simp: by_member_def on_row_def split: option.split intro: media_rules\<close>)

lemma claim_desk:
  assumes inv: "studio_inv C cf sha s"
  shows "studio_inv C cf sha (studio_exec ClaimVideo s)"
proof -
  obtain r t where c: "claim_next_video (st_media s) = (r, t)" by fastforce
  have m: "med_inv C cf sha (st_media s)" using inv by (simp add: studio_inv_def)
  from claim_inv [OF m c] inv c show ?thesis
    by (cases r) (auto simp: studio_inv_def desk_ok_def)
qed

lemma studio_exec_inv:
  assumes inv: "studio_inv C cf sha s" and names: "plain_names C" and conf: "set (configurations [q]) \<subseteq> C"
  shows "studio_inv C cf sha (studio_exec q s)"
proof (cases "q = ClaimVideo \<or> (\<exists>n. q = WorkVideo n \<or> q = FinishVideo n)")
  case False
  then have "studio_exec q s = s\<lparr> st_media := media_exec q (st_media s) \<rparr>" by (cases q) auto
  with inv media_exec_inv [OF _ names conf] show ?thesis by (simp add: studio_inv_def)
next
  case True
  then consider (claim) "q = ClaimVideo" | (work) n where "q = WorkVideo n" | (finish) n where "q = FinishVideo n" by blast
  then show ?thesis
  proof cases
    case claim
    with claim_desk [OF inv] show ?thesis by simp
  next
    case (work n)
    show ?thesis
    proof (cases "n < length (st_desk s) \<and> snd (st_desk s ! n) = None")
      case True
      obtain a where a: "st_desk s ! n = (a, None)" using True by (cases "st_desk s ! n") auto
      have ok: "attachment_ok a" using inv True a by (auto simp: studio_inv_def desk_ok_def dest!: nth_mem)
      have m: "med_inv C cf sha (st_media s)" using inv by (simp add: studio_inv_def)
      show ?thesis
        using inv True a ok work transcode_ok [OF m ok]
        by (auto simp: studio_inv_def desk_ok_def dest!: set_update_subset_insert [THEN subsetD])
    next
      case False
      with work inv show ?thesis by (auto split: prod.split option.split)
    qed
  next
    case (finish n)
    show ?thesis
    proof (cases "n < length (st_desk s) \<and> snd (st_desk s ! n) \<noteq> None")
      case True
      obtain a w where a: "st_desk s ! n = (a, Some w)" using True by (cases "st_desk s ! n") auto
      have w: "work_ok C cf sha w" using inv True a by (auto simp: studio_inv_def desk_ok_def dest!: nth_mem)
      have m: "med_inv C cf sha (st_media s)" using inv by (simp add: studio_inv_def)
      show ?thesis
        using inv True a finish finish_inv [OF m w]
        by (auto simp: studio_inv_def dest: in_set_takeD in_set_dropD)
    next
      case False
      with finish inv show ?thesis by (auto split: prod.split option.split)
    qed
  qed
qed

lemma configurations_Cons: "configurations (q # qs) = configurations [q] @ configurations qs"
  by (cases q) simp_all

lemma run_studio_inv:
  "studio_inv C cf sha s \<Longrightarrow> plain_names C \<Longrightarrow> set (configurations qs) \<subseteq> C \<Longrightarrow> studio_inv C cf sha (run_studio qs s)"
proof (induction qs arbitrary: s)
  case (Cons q qs)
  have "set (configurations [q]) \<subseteq> C" "set (configurations qs) \<subseteq> C"
    using Cons(4) configurations_Cons [of q qs] by simp_all
  with Cons(1) studio_exec_inv [OF Cons(2,3)] Cons(3) show ?case by (simp add: run_studio_def)
qed (simp add: run_studio_def)

section \<open>The drain ends\<close>

lemma count_update_le:
  "(\<And>x. P x \<Longrightarrow> \<not> Q (f x)) \<Longrightarrow> count_rows Q (update_rows P f rs) \<le> count_rows Q rs"
  by (induction rs) (auto simp: count_rows_def)

lemma count_update_less:
  "a \<in> set rs \<Longrightarrow> P a \<Longrightarrow> Q a \<Longrightarrow> (\<And>x. P x \<Longrightarrow> \<not> Q (f x)) \<Longrightarrow> count_rows Q (update_rows P f rs) < count_rows Q rs"
proof (induction rs)
  case (Cons r rs)
  have "count_rows Q (update_rows P f rs) \<le> count_rows Q rs" by (rule count_update_le) (rule Cons.prems(4))
  with Cons show ?case by (auto simp: count_rows_def)
qed simp

definition videos_due :: "media \<Rightarrow> nat" where
  "videos_due s = count_rows (video_due s) (md_attachments s)"

text \<open>What work on one video leaves of the queue: the clock, the settings, and no more videos that are due.\<close>

definition queue_shrinks :: "media \<Rightarrow> media \<Rightarrow> bool" where
  "queue_shrinks s t \<longleftrightarrow> clock (mdb t) = clock (mdb s) \<and> md_conf t = md_conf s \<and> videos_due t \<le> videos_due s"

lemma due_cong: "clock (mdb t) = clock (mdb s) \<Longrightarrow> md_conf t = md_conf s \<Longrightarrow> video_due t = video_due s"
  by (rule ext) (simp add: video_due_def split: option.split)

lemma settled_shrinks:
  assumes "clock (mdb t) = clock (mdb s)" "md_conf t = md_conf s"
    and "md_attachments t = update_rows (\<lambda>a. at_id a = i) f (md_attachments s)"
    and "\<And>a. at_status (f a) \<notin> {AttPending, AttProcessing}"
  shows "queue_shrinks s t"
  unfolding queue_shrinks_def videos_due_def due_cong [OF assms(1,2)] assms(3)
  using assms(1,2,4) by (auto simp: video_due_def intro!: count_update_le)

lemma unstore_source_frame:
  "mdb (unstore_source a s) = mdb s" "md_conf (unstore_source a s) = md_conf s"
  "md_attachments (unstore_source a s) = md_attachments s"
  by (simp_all add: unstore_source_def)

lemma failed_shrinks: "queue_shrinks s (finalize_failed_locked a r s)"
  by (rule settled_shrinks [where i = "at_id a" and f = "\<lambda>x. x\<lparr> at_status := AttFailed, at_key := [], at_source := [] \<rparr>"])
    (simp_all add: finalize_failed_locked_def unstore_source_frame set_attachment_def)

lemma shrinks_refl: "queue_shrinks s s"
  by (simp add: queue_shrinks_def)

lemma shrinks_same:
  "mdb t = mdb s \<Longrightarrow> md_conf t = md_conf s \<Longrightarrow> md_attachments t = md_attachments s \<Longrightarrow> queue_shrinks s t"
  by (simp add: queue_shrinks_def videos_due_def due_cong [of t s])

lemma shrinks_trans: "queue_shrinks s t \<Longrightarrow> queue_shrinks t w \<Longrightarrow> queue_shrinks s w"
  by (auto simp: queue_shrinks_def)

lemma blocked_shrinks: "queue_shrinks s (finalize_blocked i s)"
proof -
  have "queue_shrinks s (audit e u tg d (set_attachment i (\<lambda>x. x\<lparr> at_status := AttBlocked, at_key := [] \<rparr>) s))" for e u tg d
    by (rule settled_shrinks [where i = i and f = "\<lambda>x. x\<lparr> at_status := AttBlocked, at_key := [] \<rparr>"])
      (simp_all add: set_attachment_def)
  then show ?thesis by (simp add: finalize_blocked_def shrinks_refl split: option.split)
qed

lemma ready_shrinks: "queue_shrinks s (finalize_ready i k p c s)"
proof -
  have "queue_shrinks s (unstore_source a (audit e u tg d (set_attachment i (\<lambda>x. x\<lparr> at_key := k, at_size := length (cp_bytes c),
      at_poster := p, at_poster_type := image_type (cp_poster c), at_width := cp_width c, at_height := cp_height c,
      at_duration := cp_duration c, at_source := [], at_stripped := True, at_status := AttReady \<rparr>) s)))" for a e u tg d
    by (rule settled_shrinks [where i = i and f = "\<lambda>x. x\<lparr> at_key := k, at_size := length (cp_bytes c),
      at_poster := p, at_poster_type := image_type (cp_poster c), at_width := cp_width c, at_height := cp_height c,
      at_duration := cp_duration c, at_source := [], at_stripped := True, at_status := AttReady \<rparr>"])
      (simp_all add: set_attachment_def unstore_source_frame)
  moreover have "queue_shrinks s (unstore p (unstore k s))" by (rule shrinks_same) simp_all
  ultimately show ?thesis by (simp add: finalize_ready_def split: option.split)
qed

lemma finish_shrinks: "queue_shrinks s (finish_video a w s)"
proof -
  have "queue_shrinks s (put_blob k b (put_blob k' b' s))" for k b k' b'
    by (rule shrinks_same) (simp_all add: put_blob_def)
  then show ?thesis
    using failed_shrinks blocked_shrinks shrinks_trans [OF _ ready_shrinks]
    by (auto simp: finish_video_def finalize_failed_def shrinks_refl split: video_work.split option.split)
qed

text \<open>A claim takes at least one video off the queue, unless the wait for a stale worker is negative.\<close>

lemma claim_shrinks:
  assumes "0 \<le> me_video_stale (md_conf s)" and "claim_next_video s = (r, t)" and "r \<noteq> NothingDue"
  shows "clock (mdb t) = clock (mdb s) \<and> md_conf t = md_conf s \<and> videos_due t < videos_due s"
proof -
  obtain a as where q: "sort_key at_created_at (filter (video_due s) (md_attachments s)) = a # as"
    using assms(2,3) by (cases "sort_key at_created_at (filter (video_due s) (md_attachments s))") (auto simp: claim_next_video_def)
  then have "a \<in> set (sort_key at_created_at (filter (video_due s) (md_attachments s)))" by simp
  then have a: "a \<in> set (md_attachments s)" "video_due s a" by simp_all
  have less: "videos_due w < videos_due s"
    if "clock (mdb w) = clock (mdb s)" "md_conf w = md_conf s"
      and "md_attachments w = update_rows (\<lambda>x. at_id x = at_id a) f (md_attachments s)" and "\<And>x. \<not> video_due s (f x)" for w f
    unfolding videos_due_def due_cong [OF that(1,2)] that(3)
    by (rule count_update_less [where a = a]) (use a that(4) in simp_all)
  show ?thesis
  proof (cases "me_video_attempts (md_conf s) \<le> at_attempts a")
    case True
    then have t: "t = finalize_failed_locked a ''attempts_exhausted'' s"
      using assms(2) q by (simp add: claim_next_video_def)
    show ?thesis
      unfolding t
      by (intro conjI less [where f = "\<lambda>x. x\<lparr> at_status := AttFailed, at_key := [], at_source := [] \<rparr>"])
        (simp_all add: finalize_failed_locked_def unstore_source_frame set_attachment_def video_due_def)
  next
    case False
    let ?f = "\<lambda>x. x\<lparr> at_status := AttProcessing, at_started_at := Some (clock (mdb s)), at_attempts := Suc (at_attempts a) \<rparr>"
    have t: "t = set_attachment (at_id a) ?f s"
      using assms(2) q False by (auto simp: claim_next_video_def Let_def)
    show ?thesis
      unfolding t
      by (intro conjI less [where f = ?f])
        (use assms(1) in \<open>simp_all add: set_attachment_def video_due_def seconds_def\<close>)
  qed
qed

lemma drain_empties:
  "0 \<le> me_video_stale (md_conf s) \<Longrightarrow> videos_due s < n \<Longrightarrow>
   fst (claim_next_video (snd (drain_videos n s))) = NothingDue"
proof (induction n arbitrary: s)
  case (Suc n)
  obtain r t where c: "claim_next_video s = (r, t)" by fastforce
  show ?case
  proof (cases "r = NothingDue")
    case True
    then have "t = s"
      using c by (auto simp: claim_next_video_def Let_def split: list.splits if_splits)
    with c True show ?thesis by simp
  next
    case False
    note less = claim_shrinks [OF Suc.prems(1) c False]
    have more: "fst (claim_next_video (snd (drain_videos n w))) = NothingDue" if "queue_shrinks t w" for w
      by (rule Suc.IH) (use that less Suc.prems in \<open>auto simp: queue_shrinks_def\<close>)
    show ?thesis
      using False c more [OF shrinks_refl] more [OF finish_shrinks] by (cases r) (simp_all add: split_beta Let_def)
  qed
qed simp

text \<open>
  The rounds given to a drain without a limit are enough: when it returns nothing is due, so the loop
  of the code, which goes on until then, has ended and done the same.
\<close>

theorem drain_without_limit:
  assumes "0 \<le> me_video_stale (md_conf s)" and "\<not> no_scanner s" and "cd_ffmpeg (md_codec s)"
  shows "fst (claim_next_video (snd (process_pending_videos None s))) = NothingDue"
  using assms drain_empties [of s] by (simp add: process_pending_videos_def videos_due_def del: drain_videos.simps)

end
