(* ===== verification/Media_Properties.thy ===== *)
theory Media_Properties
  imports Studio Venue_Overlays_Properties
begin

text \<open>
  The properties of the media component: what a link can serve, what a refused upload leaves, how
  long a temporary attachment lives, what the purge takes, and two workers on one video.
\<close>

section \<open>What a link serves\<close>








section \<open>Sample rows\<close>

text \<open>A member with a profile picture in a studio whose scanner passes everything.\<close>

definition passing_scanner :: scanner where
  "passing_scanner = \<lparr> sc_scan = (\<lambda>_. Some clean_result), sc_scan_digest = (\<lambda>_. Some clean_result), sc_effective = True \<rparr>"

definition plain_codec :: codec where
  "plain_codec = \<lparr> cd_scanner = passing_scanner, cd_documents = noop_document_scanner, cd_decode = (\<lambda>_. None),
     cd_strip = (\<lambda>_ x. Some \<lparr> im_bytes = x, im_ext = ''png'', im_width = 1, im_height = 1 \<rparr>),
     cd_thumb = (\<lambda>_. None), cd_ffmpeg = True, cd_transcode = (\<lambda>_. Stumbled), cd_uuid = (\<lambda>_. ''u'') \<rparr>"

definition album :: media where
  "album = \<lparr> md_venues = corner, md_conf = default_media_settings, md_codec = plain_codec, md_uuids = 0,
     md_blobs = (\<lambda>_. None), md_photos = [], md_attachments = [], md_covers = [], md_place_covers = [], md_cleanups = [] \<rparr>"


lemma album_scans: "\<not> no_scanner album" "sc_scan (cd_scanner plain_codec) x = Some clean_result" "sr_clean clean_result"
  by (simp_all add: no_scanner_def album_def plain_codec_def passing_scanner_def clean_result_def)



section \<open>Temporary attachments\<close>

lemma attached_row:
  assumes "attach_to_post u p name data ttl s = (Inr a, t)"
  shows "\<exists>x. owner_object (mdb s) (po_thread p) = Some (ActivityThread x) \<and> at_expires_at a = resolve_expiry s (ac_cohort x) ttl \<and>
    at_purged_at a = None \<and> (at_status a = AttReady \<longrightarrow> at_key a \<noteq> [])"
proof -
  obtain x where x: "owner_object (mdb s) (po_thread p) = Some (ActivityThread x)"
      "attach_video u p x data ttl s = (Inr a, t) \<or> attach_file u p x name data ttl s = (Inr a, t)"
    using assms by (auto simp: attach_to_post_def split: option.splits thread_owner.splits if_splits)
  from x(2) have "at_expires_at a = resolve_expiry s (ac_cohort x) ttl \<and> at_purged_at a = None \<and>
      (at_status a = AttReady \<longrightarrow> at_key a \<noteq> [])"
  proof
    assume "attach_video u p x data ttl s = (Inr a, t)"
    then show ?thesis
      by (auto simp: attach_video_def insert_attachment_def blank_attachment_def Let_def split: if_splits option.splits)
  next
    assume f: "attach_file u p x name data ttl s = (Inr a, t)"
    obtain r s1 where r: "screen (u_id u) file_failed data s = (r, s1)" by fastforce
    have s1: "s1 = s" using f r screen_result [OF r] by (auto simp: attach_file_def Let_def split: if_splits)
    from f r have "attach_document u p x name data ttl s1 = (Inr a, t) \<or> attach_image u p x data ttl s1 = (Inr a, t)"
      by (auto simp: attach_file_def Let_def split: if_splits sum.splits)
    then show ?thesis unfolding s1
      by (auto simp: attach_document_def store_document_def attach_image_def store_image_def insert_attachment_def
          blank_attachment_def Let_def split: if_splits option.splits prod.splits)
  qed
  with x(1) show ?thesis by blast
qed

text \<open>
  A disappearing attachment lives as long as the floor of its activity's cohort asks for, a day for
  children and teens, whatever time to live was asked for: until then it is not expired, so the
  purge leaves it, and once ready it is served; a time to live that is not positive makes it permanent.
\<close>

theorem floor_of_life:
  assumes "attach_to_post u p name data ttl s = (Inr a, t)"
  shows "\<exists>x. owner_object (mdb s) (po_thread p) = Some (ActivityThread x) \<and>
    (\<forall>z. clock (mdb z) < clock (mdb s) + seconds (ephemeral_min_ttl s (ac_cohort x)) \<longrightarrow>
       \<not> expired_attachment z a \<and> (at_status a = AttReady \<longrightarrow> is_available z a)) \<and>
    (at_expires_at a = None \<longleftrightarrow> ttl = None \<or> the ttl \<le> 0)"
proof -
  obtain x where x: "owner_object (mdb s) (po_thread p) = Some (ActivityThread x)"
      "at_expires_at a = resolve_expiry s (ac_cohort x) ttl" "at_purged_at a = None" "at_status a = AttReady \<longrightarrow> at_key a \<noteq> []"
    using attached_row [OF assms] by blast
  have "clock (mdb s) + seconds (ephemeral_min_ttl s (ac_cohort x)) \<le> e" if "at_expires_at a = Some e" for e
    using that x(2) by (auto simp: resolve_expiry_def seconds_def split: option.splits if_splits)
  then have "\<not> expired_attachment z a \<and> (at_status a = AttReady \<longrightarrow> is_available z a)"
    if "clock (mdb z) < clock (mdb s) + seconds (ephemeral_min_ttl s (ac_cohort x))" for z
    using that x(3,4) by (force simp: expired_attachment_def is_available_def split: option.split)
  moreover have "at_expires_at a = None \<longleftrightarrow> ttl = None \<or> the ttl \<le> 0"
    unfolding x(2) by (auto simp: resolve_expiry_def split: option.splits)
  ultimately show ?thesis by (intro exI [of _ x] conjI allI impI x(1)) simp_all
qed

text \<open>A picture shared by the organiser in the conversation of a meetup, for a minute.\<close>

definition square_meet :: activity where
  "square_meet = sample_meet\<lparr> ac_cohort := Adult, ac_owner := 1 \<rparr>"

definition square_post :: post where
  "square_post = \<lparr> po_id = 87, po_thread = 86, po_author = 1, po_body = ''look'', po_announcement = False, po_hidden = False,
     po_author_deleted = False, po_reply_to = None, po_shared_activity = None, po_shared_place = None,
     po_shared_event = None, po_created_at = 0, po_updated_at = 0 \<rparr>"

definition square_db :: db where
  "square_db = link_db\<lparr> activities := [square_meet], threads := [\<lparr> th_id = 86, th_activity = Some 80, th_group = None \<rparr>],
     posts := [square_post] \<rparr>"

definition square :: media where
  "square = album\<lparr> md_venues := corner\<lparr> vn_db := square_db \<rparr> \<rparr>"

lemma square_tables:
  "mdb square = square_db" "md_codec square = plain_codec" "md_conf square = default_media_settings" "clock square_db = 0"
  "u_id sample_parent = 1" "u_active sample_parent" "u_cohort sample_parent = Adult"
  by (simp_all add: square_def mdb_def album_def square_db_def link_db_tables sample_parent_def)

lemma square_owner: "owner_object square_db 86 = Some (ActivityThread square_meet)"
  by (simp add: owner_object_def square_db_def activity_row_def square_meet_def sample_meet_def)

lemma square_reads: "can_read_thread square_db sample_parent (ActivityThread square_meet)"
proof -
  have "can_participate square_db sample_parent"
    by (simp add: can_participate_def is_assurance_current_def latest_assurance_def requires_parental_consent_def
        square_db_def link_db_tables sample_parent_def)
  moreover have "\<not> is_blocked square_db i j" for i j by (simp add: is_blocked_def square_db_def link_db_tables)
  moreover have "thread_seat square_db (ActivityThread square_meet) 1 \<noteq> None"
    by (simp add: thread_seat_def current_members_def square_db_def link_db_tables new_membership_def square_meet_def sample_meet_def
        del: One_nat_def)
  ultimately show ?thesis
    by (simp add: can_read_thread_def square_tables square_meet_def sample_meet_def del: One_nat_def)
qed

lemma square_shares:
  obtains a t where "attach_to_post sample_parent square_post ''look.png'' ''face'' (Some 60) square = (Inr a, t)"
proof -
  have "\<not> no_scanner square" "screen 1 e ''face'' square = (Inr (), square)" for e
    using album_scans by (simp_all add: no_scanner_def square_def album_def screen_def)
  moreover have "cd_strip plain_codec n ''face'' = Some \<lparr> im_bytes = ''face'', im_ext = ''png'', im_width = 1, im_height = 1 \<rparr>" for n
    by (simp add: plain_codec_def)
  ultimately have "\<exists>a t. attach_to_post sample_parent square_post ''look.png'' ''face'' (Some 60) square = (Inr a, t)"
    by (simp add: attach_to_post_def attach_file_def attach_image_def insert_attachment_def square_tables square_owner square_reads
        square_post_def default_media_settings_def looks_like_video_def looks_like_webm_def is_pdf_def Let_def split_beta
        del: One_nat_def)
  then show thesis using that by blast
qed

theorem floor_of_life_witness:
  "\<exists>a t. attach_to_post sample_parent square_post ''look.png'' ''face'' (Some 60) square = (Inr a, t) \<and>
     at_expires_at a \<noteq> None \<and> (\<forall>z. clock (mdb z) < seconds 3600 \<longrightarrow> \<not> expired_attachment z a)"
proof -
  obtain a t where at: "attach_to_post sample_parent square_post ''look.png'' ''face'' (Some 60) square = (Inr a, t)"
    by (rule square_shares)
  have "po_thread square_post = 86" "ac_cohort square_meet = Adult" by (simp_all add: square_post_def square_meet_def)
  with floor_of_life [OF at] have "at_expires_at a \<noteq> None"
    "\<forall>z. clock (mdb z) < seconds 3600 \<longrightarrow> \<not> expired_attachment z a"
    by (simp_all add: square_tables square_owner ephemeral_min_ttl_def default_media_settings_def)
  with at show ?thesis by blast
qed

section \<open>The purge\<close>













end
