(* ===== verification/Spec2Isabelle.thy ===== *)
theory Spec2Isabelle
  imports Messaging_Properties Groups_Properties Guardianship_Properties Moderation_Properties Admission_Properties Series_Properties
    Concerns_Properties Connections_Properties Deferred_Properties Providers_Properties Opening_Hours Venue_Overlays_Properties
    Media_Properties
begin

text \<open>
  A verification library of the Python services under src/apps of the activities platform: people
  of one age cohort meet in person at public places, with end-to-end encrypted conversations,
  guardians for children, and moderation.

  The program. Each Django app keeps its rows in tables (models.py) and changes them in service
  functions (services.py); views, templates and jobs call the services. All services act on one
  database, so the development has one state, the record \<open>db\<close> of Schema and Database: one list
  of rows per table in primary-key order, the settings, the clock, the rate-limiter cache, one
  sequence that hands out ids, and the library primitives the code takes from elsewhere. Components
  whose tables nothing else reads extend that record with a state of their own: \<open>sentiment\<close>
  (Sentiment), \<open>venues\<close> (Venue_Overlays), \<open>media\<close> (Media, over \<open>venues\<close>), the tasks of Deferred_Tasks
  and the breakers of Providers.

  Theories and code.
  Prelude holds time, strings, tables, outcomes and the two interfaces: the locale \<open>service\<close> (an
  invariant that every request keeps) and \<open>journal\<close> (a log that requests only append to).
  Schema and Database: the rows of accounts/models.py, safety/models.py, messaging/models.py,
  social/models.py, places/models.py, notifications/models.py. Audit_Log, Safety, Moderation with
  Moderation_Laws, Moderation_Service and Moderation_Properties: safety/services.py. Notifications:
  notifications/services.py. Eligibility, Identity, Guardrails, Accounts, Evictions, Accounts_Laws,
  Sweeps, Guardianship, Guardianship_Service, Accounts_Properties, Guardianship_Properties:
  accounts/services.py. Messaging, Messaging_Laws, Messaging_Service, Messaging_Properties:
  messaging/services.py. Standing_Groups, Groups_Laws, Groups_Properties, Activities,
  Activities_Laws, Activities_Properties, Admission, Admission_Properties, Meetups, Meetup_Series
  with Calendar and Series_Properties, Threads, Threads_Laws, Threads_Properties:
  social/services.py and chat/policy.py. Sentiment, Concerns, Sentiment_Properties,
  Concerns_Properties: social/sentiment.py. Venues: the visibility of places in
  places/services.py and the ancestry of taxonomy/services.py. Venue_Overlays and
  Venue_Overlays_Properties: the rest of places/services.py. Opening_Hours:
  places/enrichment/opening_hours.py. Connections, Connections_Frames and
  Connections_Properties: connections/services.py. Deferred_Tasks and Deferred_Properties:
  ops/tasks.py. Providers and Providers_Properties: ops/resilience.py. Screening:
  media/scanning.py, perceptual.py and docscan.py. Media, Covers, Attachments and Attachment_Access
  with Media_Laws, Studio and Media_Properties: media/services.py, models.py and signals.py. Serving:
  media/views.py.

  How the parts interact. \<open>can_participate\<close> (Eligibility) gates every write. A new age proof
  (Accounts) evicts its user from the conversations and groups of the old cohort, so the invariants
  of Messaging and Standing_Groups are proved over requests of both (Evictions, Accounts_Laws). A
  ban (Moderation) reads and writes accounts, posts and the identity ledger (Identity). The nightly
  engine of recurring meetups creates activities through the same \<open>create_activity\<close> as a member.
  Threads checks the membership rows that Admission writes. Sentiment derives footers from the posts
  of Threads. Connections asks the gates of Eligibility, Safety and Activities when a link is made;
  Connections_Frames shows that blocks, age proofs, guardianship and moderation leave the links
  that exist alone. Media screens what members upload and stores it under fresh names; workers turn
  admitted videos into clips, jobs purge what expired, and a link asks the gates of Threads,
  Activities and Venues again each time it is resolved. Everything audits through \<open>record_audit\<close> and tells people through \<open>notify\<close>.

  What the lemmas show. The Laws theories prove, operation by operation, that the invariant of a
  component's tables is kept, and that the rest of the state is left alone. The Service theories give
  the requests (rows loaded by id, then the service function), interpret \<open>service\<close> and \<open>journal\<close> on
  them, and so reach every run. The Properties theories state the claims over runs: isolation by
  cohort, guardianship and consent, bans and appeals, votes and quorums, the shape of threads, the
  life of a connection, the screening of every byte served, bounded tries and retries, the exact effect of the nightly jobs, and a few
  places where the code does not do what it says; sample rows at the end of each evaluate them.

  Conventions. An outcome is \<open>returned v s\<close> or \<open>raised e s\<close>, with the committed state: an operation
  that is one transaction leaves its tables as they were when it raises, but the counter of the rate
  limiter is burnt all the same, because the cache takes no part in transactions. Every row that a
  foreign key names is assumed present. Strings are of 8-bit characters; typographic quotes, dashes
  and ellipses are written in ASCII. Rows without an order come in primary-key order, and ties are
  broken by id. A floating-point threshold is the rational it denotes. Dates are day numbers and a
  local time is what the time-zone functions of \<open>lib\<close> answer. Names of places are non-empty. A
  moderation target of a model not listed has no owner and no flags. All tables draw their ids from
  one sequence.

  Parameters and bounds. SHA-256, HMAC, rendering of timestamps, time zones, the keyword scan of a
  post, the table of events, what a task handler does (the state it leaves, the tasks it
  enqueues, or its error) and what a provider answers are arguments of
  the definitions that use them. A worker that is killed in the middle of a task is not modelled: its
  transaction rolls back. A loop of the code with a counter keeps it: a recurring meetup moves
  its cursor at most 240 times and the walk to the root category makes at most 16 steps, as the code
  has it. The batched deletes of the purge loop until nothing is left; they are a partial function
  that is proved to return. The drain of the video queue without a limit gets one round more than
  videos are due, and Studio shows that nothing is due when it returns. The other recursions are structural or end by a measure.

  Not modelled. Image and video codecs, the antivirus daemon and the object store behind media (all
  parameters; an operation of the store does not fail), sockets and the channel
  layer, the wallet protocol of identity, ingestion and enrichment over HTTP, geometric queries
  (PostGIS) and vector queries (pgvector), full-text search, rendering of pages, feeds and exports,
  the views and serializers that parse a request and call one service, the admin pages, demo data,
  and the Go server and TypeScript client beside the Python sources. Two requests never interleave
  inside a transaction: a row lock of the code is not modelled further, except in Providers, whose
  callers share a breaker step by step. The try blocks with which a job isolates one failing row
  are left out where no step of the model can raise.
\<close>

end
